(* ===== verification/Prelude.thy ===== *)
theory Prelude
  imports Main "HOL-Library.Word" "HOL-Library.Monad_Syntax"
begin

unbundle bit_operations_syntax

section \<open>Prelude: machine types, halting, invariants and shared lemmas\<close>

text \<open>
  What the component theories share.  The target is the 32-bit build (\<^verbatim>\<open>XLEN = 32\<close>, the
  default of the Makefile: rv32im, ilp32), so pointers, \<^verbatim>\<open>size_t\<close>, \<^verbatim>\<open>long\<close> and
  \<^verbatim>\<open>uintptr_t\<close> are 32 bits wide.

  \<^item> type synonyms for the C integer types;
  \<^item> \<open>configASSERT\<close>: a failed assertion of \<^verbatim>\<open>FreeRTOSConfig.h\<close> disables interrupts and
    spins, so control never comes back.  Operations that contain assertions return an
    \<open>option\<close>, and \<open>None\<close> means that the call did not return;
  \<^item> \<open>reach\<close> and the locale \<open>inv_system\<close>: states reachable by steps, and the rule that an
    invariant of the steps holds in all of them;
  \<^item> the locale \<open>codec\<close>: an encoder with a decoder that undoes it on valid values;
  \<^item> lemmas on words, bits, lists and function updates.
\<close>

type_synonym u8 = "8 word"
type_synonym u16 = "16 word"
type_synonym u32 = "32 word"
type_synonym u64 = "64 word"
type_synonym addr = "32 word"

subsection \<open>Lemma collections\<close>

named_theorems halt_simps \<open>unfolding of assertions and of the option monad\<close>
named_theorems hw_simps \<open>effects of the hardware access primitives\<close>

subsection \<open>Failed assertions\<close>

definition configASSERT :: "bool \<Rightarrow> unit option" where
  "configASSERT x = (if x then Some () else None)"

lemma configASSERT_True [simp, halt_simps]: "configASSERT True = Some ()"
  by (simp add: configASSERT_def)

lemma configASSERT_False [simp, halt_simps]: "configASSERT False = None"
  by (simp add: configASSERT_def)

lemma configASSERT_bind [halt_simps]:
  "configASSERT b \<bind> f = (if b then f () else None)"
  by (simp add: configASSERT_def)

lemma configASSERT_bind_Some [halt_simps]:
  "configASSERT b \<bind> f = Some r \<longleftrightarrow> b \<and> f () = Some r"
  by (simp add: configASSERT_def)

subsection \<open>Reachable states and invariants\<close>

inductive reach :: "('s \<Rightarrow> bool) \<Rightarrow> ('s \<Rightarrow> 's \<Rightarrow> bool) \<Rightarrow> 's \<Rightarrow> bool"
  for init :: "'s \<Rightarrow> bool" and step :: "'s \<Rightarrow> 's \<Rightarrow> bool" where
  reach_init: "init s \<Longrightarrow> reach init step s"
| reach_step: "reach init step s \<Longrightarrow> step s t \<Longrightarrow> reach init step t"

text \<open>
  The interface of every step relation of the development: start states, steps and an
  invariant that the start states have and every step keeps.
\<close>

locale inv_system =
  fixes init :: "'s \<Rightarrow> bool"
    and step :: "'s \<Rightarrow> 's \<Rightarrow> bool"
    and inv :: "'s \<Rightarrow> bool"
  assumes inv_init: "init s \<Longrightarrow> inv s"
    and inv_step: "inv s \<Longrightarrow> step s t \<Longrightarrow> inv t"
begin

lemma reach_inv: "reach init step s \<Longrightarrow> inv s"
  by (induction rule: reach.induct) (auto intro: inv_init inv_step)

lemma steps_inv: "step\<^sup>*\<^sup>* s t \<Longrightarrow> inv s \<Longrightarrow> inv t"
  by (induction rule: rtranclp_induct) (auto intro: inv_step)

lemma reach_steps: "step\<^sup>*\<^sup>* s t \<Longrightarrow> reach init step s \<Longrightarrow> reach init step t"
  by (induction rule: rtranclp_induct) (auto intro: reach_step)

end

subsection \<open>Encoders and decoders\<close>

locale codec =
  fixes enc :: "'a \<Rightarrow> 'b"
    and dec :: "'b \<Rightarrow> 'a"
    and valid :: "'a \<Rightarrow> bool"
  assumes dec_enc: "valid x \<Longrightarrow> dec (enc x) = x"
begin

lemma enc_inj: "valid x \<Longrightarrow> valid y \<Longrightarrow> enc x = enc y \<Longrightarrow> x = y"
  by (metis dec_enc)

lemma map_dec_enc: "(\<And>x. x \<in> set xs \<Longrightarrow> valid x) \<Longrightarrow> map dec (map enc xs) = xs"
  by (induction xs) (auto simp: dec_enc)

end

subsection \<open>Words and bits\<close>

lemma bit_set_or: "n < LENGTH('a) \<Longrightarrow>
    bit ((w :: 'a::len word) OR push_bit n 1) m \<longleftrightarrow> bit w m \<or> m = n"
  by (auto simp: bit_simps)

lemma bit_clear_and: "n < LENGTH('a) \<Longrightarrow>
    bit ((w :: 'a::len word) AND NOT (push_bit n 1)) m \<longleftrightarrow> bit w m \<and> m \<noteq> n"
  using bit_imp_le_length [of w m] by (auto simp: bit_simps)

lemma and_not_or: "(c AND NOT k) OR k = c OR (k :: 'a::len word)"
  by (rule bit_word_eqI) (auto simp: bit_simps)

lemma and_or_nonzero: "x AND m \<noteq> 0 \<Longrightarrow> (y OR x) AND m \<noteq> (0 :: 'a::len word)"
  by (metis and.commute bit.conj_disj_distrib or_eq_0_iff)

lemma and_sub_zero: "x AND m = 0 \<Longrightarrow> m AND k = k \<Longrightarrow> x AND k = (0 :: 'a::len word)"
  by (metis and.assoc and_zero_eq and.commute)

lemma sint_unat_small:
  assumes "unat (w :: u32) < 2 ^ 31"
  shows "sint w = int (unat w)"
proof -
  have "sint w = signed_take_bit 31 (int (unat w))"
    using signed_of_nat [of "unat w", where 'b = 32 and 'a = int] by simp
  moreover have "- (2 ^ 31) \<le> int (unat w)"
    by (rule order.trans [of _ 0]) (simp, rule of_nat_0_le_iff)
  moreover have "int (unat w) < 2 ^ 31"
    using assms unfolding of_nat_less_iff [symmetric, where 'a = int] by (simp only: of_nat_power of_nat_numeral)
  ultimately show ?thesis
    by (simp only: signed_take_bit_int_eq_self)
qed

lemma unat_of_nat_small: "n < 2 ^ LENGTH('a) \<Longrightarrow> unat (of_nat n :: 'a::len word) = n"
  by (simp add: unat_of_nat take_bit_eq_mod)

lemma of_nat_unat_sub:
  "b \<le> (a :: 'a::len word) \<Longrightarrow> unat (a - b) = unat a - unat b"
  by (simp add: unat_sub)

lemma unat_add_wraps:
  assumes "d < 2 ^ 32" and "2 ^ 32 \<le> unat (a :: u32) + d" and "unat e = d"
  shows "unat (a + e) < unat a"
proof -
  have "unat (a + e) = (unat a + d) mod 2 ^ 32"
    using assms(3) by (simp add: unat_word_ariths)
  also have "\<dots> = unat a + d - 2 ^ 32"
    using assms unsigned_less [of a, where ?'a = nat] by (simp add: mod_if)
  finally show ?thesis
    using assms by simp
qed

lemma unat_sub_wraps:
  assumes "d < 2 ^ 32" and "unat (a :: u32) < d" and "unat e = d"
  shows "unat a < unat (a - e)"
proof -
  have "unat (a - e) = unat a + 2 ^ 32 - d"
    using assms by (simp add: unat_sub_if_size word_size)
  then show ?thesis
    using assms by simp
qed

lemma bit_top_nat: "2 ^ k \<le> n \<Longrightarrow> n < 2 ^ Suc k \<Longrightarrow> bit (n::nat) k"
proof -
  assume "2 ^ k \<le> n" "n < 2 ^ Suc k"
  then have "n div 2 ^ k = 1"
    by (intro div_nat_eqI) auto
  then show ?thesis
    by (simp add: bit_iff_odd)
qed

lemma and_pred_eq_0_pow2:
  assumes "0 < n" "n AND (n - 1) = (0::nat)"
  shows "\<exists>k. n = 2 ^ k"
proof -
  obtain k where k: "2 ^ k \<le> n" "n < 2 ^ Suc k"
    using ex_power_ivl1 [of 2 n] assms(1) by auto
  have "n = 2 ^ k"
  proof (rule ccontr)
    assume "n \<noteq> 2 ^ k"
    then have "bit n k" "bit (n - 1) k"
      using k by (auto intro: bit_top_nat)
    then have "bit (n AND (n - 1)) k"
      by (simp add: bit_and_iff)
    then show False
      using assms(2) by simp
  qed
  then show ?thesis ..
qed

lemma word_pow2:
  assumes "(a - 1) AND a = (0 :: u32)" "a \<noteq> 0"
  obtains k where "k < 32" "a = 2 ^ k" "unat a = 2 ^ k"
proof -
  have "unat (a - 1) = unat a - 1"
    using assms(2) by (simp add: unat_minus_one)
  then have "unat a AND (unat a - 1) = 0"
    using arg_cong [OF assms(1), of unat] by (simp add: unsigned_and_eq and.commute)
  then obtain k where k: "unat a = 2 ^ k"
    using and_pred_eq_0_pow2 [of "unat a"] assms(2) by (auto simp: unat_gt_0)
  then have "2 ^ k < (2 ^ 32 :: nat)"
    using unsigned_less [of a, where ?'a = nat] by simp
  then have "k < 32"
    using power_less_imp_less_exp by (metis one_less_numeral_iff semiring_norm(76))
  moreover have "a = 2 ^ k"
    using arg_cong [OF k, of "of_nat :: nat \<Rightarrow> u32"] by simp
  ultimately show ?thesis
    using that k by blast
qed

lemma bit_beyond:
  assumes "unat (x :: 'a::len word) < 2 ^ k" "k \<le> i"
  shows "\<not> bit x i"
proof
  assume "bit x i"
  then have "bit (unat x) i"
    by (simp add: bit_unsigned_iff)
  then have "unat x div 2 ^ i \<noteq> 0"
    by (metis bit_iff_odd even_zero)
  moreover have "unat x < 2 ^ i"
    using assms(1) power_increasing [OF assms(2), of "2::nat"] by linarith
  ultimately show False
    by simp
qed

end
