(* ===== verification/Mmio.thy ===== *)
theory Mmio
  imports Prelude
begin

section \<open>Memory-mapped hardware\<close>

text \<open>
  The device registers the drivers read and write through \<^verbatim>\<open>volatile\<close> pointers
  (\<^verbatim>\<open>bsp/icebase.h\<close>, \<^verbatim>\<open>bsp/xilinx/common/xil_io.h\<close>), and the accessors themselves.

  A \<open>bus\<close> holds, for every address,
  \<^item> \<open>cells\<close>: the value last stored there;
  \<^item> \<open>feed\<close>: the values the hardware is going to supply on the next reads of that address.
    A read takes the next one; when there is none the read returns the stored value, as an
    ordinary read/write register does.  Nothing is assumed about feeds: a theorem that
    quantifies over all buses covers every behaviour of the hardware on every read, and a
    register that is plain storage is one whose feed is empty (\<open>plain\<close>);
  \<^item> \<open>events\<close>: every access in program order, with its width, address and value.
\<close>

datatype width = W8 | W16 | W32

datatype event = Rd width addr u32 | Wr width addr u32

record bus =
  cells :: "addr \<Rightarrow> u32"
  feed :: "addr \<Rightarrow> u32 list"
  events :: "event list"

fun trunc_to :: "width \<Rightarrow> u32 \<Rightarrow> u32" where
  "trunc_to W8 v = v AND 0xff"
| "trunc_to W16 v = v AND 0xffff"
| "trunc_to W32 v = v"

definition bus_read :: "width \<Rightarrow> addr \<Rightarrow> bus \<Rightarrow> u32 \<times> bus" where
  "bus_read w a b =
     (let v = trunc_to w (case feed b a of [] \<Rightarrow> cells b a | x # _ \<Rightarrow> x)
      in (v, b\<lparr>feed := (feed b)(a := tl (feed b a)), events := events b @ [Rd w a v]\<rparr>))"

definition bus_write :: "width \<Rightarrow> addr \<Rightarrow> u32 \<Rightarrow> bus \<Rightarrow> bus" where
  "bus_write w a v b =
     b\<lparr>cells := (cells b)(a := trunc_to w v), events := events b @ [Wr w a (trunc_to w v)]\<rparr>"

subsection \<open>The accessors of icebase.h\<close>

definition ioread32 :: "addr \<Rightarrow> bus \<Rightarrow> u32 \<times> bus" where
  "ioread32 a b = bus_read W32 a b"

definition ioread16 :: "addr \<Rightarrow> bus \<Rightarrow> u16 \<times> bus" where
  "ioread16 a b = (let (v, b) = bus_read W16 a b in (ucast v, b))"

definition ioread8 :: "addr \<Rightarrow> bus \<Rightarrow> u8 \<times> bus" where
  "ioread8 a b = (let (v, b) = bus_read W8 a b in (ucast v, b))"

definition iowrite8 :: "u8 \<Rightarrow> addr \<Rightarrow> bus \<Rightarrow> bus" where
  "iowrite8 d a b = bus_write W8 a (ucast d) b"

definition iowrite32 :: "u32 \<Rightarrow> addr \<Rightarrow> bus \<Rightarrow> bus" where
  "iowrite32 d a b = bus_write W32 a d b"

definition iowrite64 :: "u64 \<Rightarrow> addr \<Rightarrow> bus \<Rightarrow> bus" where
  "iowrite64 d a b =
     (let b = iowrite32 (ucast (d AND 0xffffffff)) a b
      in iowrite32 (ucast (drop_bit 32 d)) (a + 4) b)"

subsection \<open>Plain registers\<close>

definition plain :: "bus \<Rightarrow> addr \<Rightarrow> bool" where
  "plain b a \<longleftrightarrow> feed b a = []"

definition writes_of :: "event list \<Rightarrow> (addr \<times> u32) list" where
  "writes_of es = [(a, v). Wr w a v \<leftarrow> es]"

lemma bus_read_val: "fst (bus_read w a b) = trunc_to w (case feed b a of [] \<Rightarrow> cells b a | x # _ \<Rightarrow> x)"
  by (simp add: bus_read_def Let_def)

lemma cells_bus_read [simp]: "cells (snd (bus_read w a b)) = cells b"
  by (simp add: bus_read_def Let_def)

lemma feed_bus_read [simp]:
  "feed (snd (bus_read w a b)) = (feed b)(a := tl (feed b a))"
  by (simp add: bus_read_def Let_def)

lemma cells_bus_write [simp]:
  "cells (bus_write w a v b) = (cells b)(a := trunc_to w v)"
  by (simp add: bus_write_def)

lemma feed_bus_write [simp]: "feed (bus_write w a v b) = feed b"
  by (simp add: bus_write_def)

lemma events_bus_write [simp]:
  "events (bus_write w a v b) = events b @ [Wr w a (trunc_to w v)]"
  by (simp add: bus_write_def)

lemma plain_bus_write [simp]: "plain (bus_write w a v b) x = plain b x"
  by (simp add: plain_def)

lemma plain_bus_read [simp]: "plain b x \<Longrightarrow> plain (snd (bus_read w a b)) x"
  by (auto simp: plain_def)

lemma bus_read_plain:
  "plain b a \<Longrightarrow> bus_read W32 a b = (cells b a, b\<lparr>events := events b @ [Rd W32 a (cells b a)]\<rparr>)"
  by (simp add: bus_read_def plain_def Let_def fun_upd_idem)

lemma writes_of_Nil [simp]: "writes_of [] = []"
  by (simp add: writes_of_def)

lemma writes_of_append [simp]: "writes_of (xs @ ys) = writes_of xs @ writes_of ys"
  by (simp add: writes_of_def)

lemma writes_of_Wr [simp]: "writes_of (Wr w a v # es) = (a, v) # writes_of es"
  by (simp add: writes_of_def)

lemma writes_of_Rd [simp]: "writes_of (Rd w a v # es) = writes_of es"
  by (simp add: writes_of_def)

lemma and_mask32: "d AND (0xffffffff :: u64) = take_bit 32 d"
proof -
  have "(0xffffffff :: u64) = mask 32"
    by (simp add: mask_eq_exp_minus_1)
  then show ?thesis
    by (simp only: take_bit_eq_mask)
qed

lemma events_iowrite64:
  "events (iowrite64 d a b) =
     events b @ [Wr W32 a (ucast d), Wr W32 (a + 4) (ucast (drop_bit 32 d))]"
proof -
  have "ucast (d AND 0xffffffff) = (ucast d :: u32)"
    unfolding and_mask32 by (rule bit_word_eqI) (auto simp: bit_simps)
  then show ?thesis
    by (simp add: iowrite64_def iowrite32_def)
qed

lemmas mmio_defs = ioread32_def ioread16_def ioread8_def iowrite8_def iowrite32_def

end
