(* ===== verification/Eth.thy ===== *)
theory Eth
  imports Mmio
begin

section \<open>The Ethernet controller driver (bsp/xilinx/axiethernet)\<close>

text \<open>
  The Xilinx driver of the Ethernet controller, \<^verbatim>\<open>xaxiethernet.c\<close> and \<^verbatim>\<open>xaxiethernet_sinit.c\<close>: start, stop and reset,
  the station address, the options, the speed and the registers of the PHY behind the MDIO bus.  The
  state is the instance and the bus.  A failed assertion is \<open>None\<close>, and so is a wait that runs into its timeout,
  because the driver then asserts.  A delay is no step of the model, and messages are left out.
\<close>

subsection \<open>Instance and registers\<close>

record XAxiEthernet_Config =
  EthDeviceId :: u16
  EthCfgBase :: addr
  TemacType :: u8
  TxCsum :: u8
  RxCsum :: u8
  PhyType :: u8
  TxVlanTran :: u8
  RxVlanTran :: u8
  TxVlanTag :: u8
  RxVlanTag :: u8
  TxVlanStrp :: u8
  RxVlanStrp :: u8
  ExtMcast :: u8
  EthStats :: u8
  Avb :: u8
  EnableSgmiiOverLvds :: u8
  Enable_1588 :: u8
  EthSpeed :: u32
  NumTableEntries :: u8
  TemacIntr :: u8
  AxiDevType :: int
  AxiDevBaseAddress :: addr
  AxiFifoIntr :: u8
  AxiDmaRxIntr :: u8
  AxiDmaTxIntr :: u8
  AxiMcDmaChan_Cnt :: u8
  AxiMcDmaRxIntr :: "u8 list"
  AxiMcDmaTxIntr :: "u8 list"

record XAxiEthernet =
  EthConfig :: XAxiEthernet_Config
  EthStarted :: u32
  EthReady :: u32
  EthOptions :: u32
  EthFlags :: u32

record eth_sys =
  eth :: XAxiEthernet
  ebus :: bus

abbreviation (input) ETH_IS_READY :: u32 where "ETH_IS_READY \<equiv> 0x11111111"
abbreviation (input) ETH_IS_STARTED :: u32 where "ETH_IS_STARTED \<equiv> 0x22222222"
abbreviation (input) XST_DEVICE_IS_STARTED :: int where "XST_DEVICE_IS_STARTED \<equiv> 5"
abbreviation (input) XST_DEVICE_IS_STOPPED :: int where "XST_DEVICE_IS_STOPPED \<equiv> 6"
abbreviation (input) XST_INVALID_PARAM :: int where "XST_INVALID_PARAM \<equiv> 15"
abbreviation (input) XST_NO_FEATURE :: int where "XST_NO_FEATURE \<equiv> 19"
abbreviation (input) XAE_RAF_OFFSET :: addr where "XAE_RAF_OFFSET \<equiv> 0x0"
abbreviation (input) XAE_IS_OFFSET :: addr where "XAE_IS_OFFSET \<equiv> 0xC"
abbreviation (input) XAE_IP_OFFSET :: addr where "XAE_IP_OFFSET \<equiv> 0x10"
abbreviation (input) XAE_IE_OFFSET :: addr where "XAE_IE_OFFSET \<equiv> 0x14"
abbreviation (input) XAE_UAWL_OFFSET :: addr where "XAE_UAWL_OFFSET \<equiv> 0x20"
abbreviation (input) XAE_UAWU_OFFSET :: addr where "XAE_UAWU_OFFSET \<equiv> 0x24"
abbreviation (input) XAE_RCW1_OFFSET :: addr where "XAE_RCW1_OFFSET \<equiv> 0x404"
abbreviation (input) XAE_TC_OFFSET :: addr where "XAE_TC_OFFSET \<equiv> 0x408"
abbreviation (input) XAE_FCC_OFFSET :: addr where "XAE_FCC_OFFSET \<equiv> 0x40C"
abbreviation (input) XAE_EMMC_OFFSET :: addr where "XAE_EMMC_OFFSET \<equiv> 0x410"
abbreviation (input) XAE_MDIO_MC_OFFSET :: addr where "XAE_MDIO_MC_OFFSET \<equiv> 0x500"
abbreviation (input) XAE_MDIO_MCR_OFFSET :: addr where "XAE_MDIO_MCR_OFFSET \<equiv> 0x504"
abbreviation (input) XAE_MDIO_MWD_OFFSET :: addr where "XAE_MDIO_MWD_OFFSET \<equiv> 0x508"
abbreviation (input) XAE_MDIO_MRD_OFFSET :: addr where "XAE_MDIO_MRD_OFFSET \<equiv> 0x50C"
abbreviation (input) XAE_UAW0_OFFSET :: addr where "XAE_UAW0_OFFSET \<equiv> 0x700"
abbreviation (input) XAE_UAW1_OFFSET :: addr where "XAE_UAW1_OFFSET \<equiv> 0x704"
abbreviation (input) XAE_FMI_OFFSET :: addr where "XAE_FMI_OFFSET \<equiv> 0x708"
abbreviation (input) XAE_PROMISC_OPTION :: u32 where "XAE_PROMISC_OPTION \<equiv> 0x1"
abbreviation (input) XAE_JUMBO_OPTION :: u32 where "XAE_JUMBO_OPTION \<equiv> 0x2"
abbreviation (input) XAE_VLAN_OPTION :: u32 where "XAE_VLAN_OPTION \<equiv> 0x4"
abbreviation (input) XAE_FLOW_CONTROL_OPTION :: u32 where "XAE_FLOW_CONTROL_OPTION \<equiv> 0x8"
abbreviation (input) XAE_FCS_STRIP_OPTION :: u32 where "XAE_FCS_STRIP_OPTION \<equiv> 0x10"
abbreviation (input) XAE_FCS_INSERT_OPTION :: u32 where "XAE_FCS_INSERT_OPTION \<equiv> 0x20"
abbreviation (input) XAE_LENTYPE_ERR_OPTION :: u32 where "XAE_LENTYPE_ERR_OPTION \<equiv> 0x40"
abbreviation (input) XAE_TRANSMITTER_ENABLE_OPTION :: u32 where "XAE_TRANSMITTER_ENABLE_OPTION \<equiv> 0x80"
abbreviation (input) XAE_RECEIVER_ENABLE_OPTION :: u32 where "XAE_RECEIVER_ENABLE_OPTION \<equiv> 0x100"
abbreviation (input) XAE_BROADCAST_OPTION :: u32 where "XAE_BROADCAST_OPTION \<equiv> 0x200"
abbreviation (input) XAE_MULTICAST_OPTION :: u32 where "XAE_MULTICAST_OPTION \<equiv> 0x400"
abbreviation (input) XAE_EXT_MULTICAST_OPTION :: u32 where "XAE_EXT_MULTICAST_OPTION \<equiv> 0x800"
abbreviation (input) XAE_EXT_TXVLAN_TRAN_OPTION :: u32 where "XAE_EXT_TXVLAN_TRAN_OPTION \<equiv> 0x1000"
abbreviation (input) XAE_EXT_RXVLAN_TRAN_OPTION :: u32 where "XAE_EXT_RXVLAN_TRAN_OPTION \<equiv> 0x2000"
abbreviation (input) XAE_EXT_TXVLAN_TAG_OPTION :: u32 where "XAE_EXT_TXVLAN_TAG_OPTION \<equiv> 0x4000"
abbreviation (input) XAE_EXT_RXVLAN_TAG_OPTION :: u32 where "XAE_EXT_RXVLAN_TAG_OPTION \<equiv> 0x8000"
abbreviation (input) XAE_EXT_TXVLAN_STRP_OPTION :: u32 where "XAE_EXT_TXVLAN_STRP_OPTION \<equiv> 0x10000"
abbreviation (input) XAE_EXT_RXVLAN_STRP_OPTION :: u32 where "XAE_EXT_RXVLAN_STRP_OPTION \<equiv> 0x20000"
abbreviation (input) EXT_OPTIONS :: u32 where "EXT_OPTIONS \<equiv> 0x3F800"
abbreviation (input) XAE_DEFAULT_OPTIONS :: u32 where "XAE_DEFAULT_OPTIONS \<equiv> 0x3F8"
abbreviation (input) JUM_MASK :: u32 where "JUM_MASK \<equiv> 0x40000000"
abbreviation (input) FCS_MASK :: u32 where "FCS_MASK \<equiv> 0x20000000"
abbreviation (input) EN_MASK :: u32 where "EN_MASK \<equiv> 0x10000000"
abbreviation (input) VLAN_MASK :: u32 where "VLAN_MASK \<equiv> 0x08000000"
abbreviation (input) XAE_RCW1_LT_DIS_MASK :: u32 where "XAE_RCW1_LT_DIS_MASK \<equiv> 0x02000000"
abbreviation (input) XAE_INT_RXRJECT_MASK :: u32 where "XAE_INT_RXRJECT_MASK \<equiv> 0x8"
abbreviation (input) XAE_INT_MGTRDY_MASK :: u32 where "XAE_INT_MGTRDY_MASK \<equiv> 0x80"
abbreviation (input) XAE_RAF_NEWFNCENBL_MASK :: u32 where "XAE_RAF_NEWFNCENBL_MASK \<equiv> 0x800"
abbreviation (input) XAE_RAF_EMULTIFLTRENBL_MASK :: u32 where "XAE_RAF_EMULTIFLTRENBL_MASK \<equiv> 0x1000"
abbreviation (input) XAE_RAF_MCSTREJ_MASK :: u32 where "XAE_RAF_MCSTREJ_MASK \<equiv> 0x2"
abbreviation (input) XAE_RAF_BCSTREJ_MASK :: u32 where "XAE_RAF_BCSTREJ_MASK \<equiv> 0x4"
abbreviation (input) XAE_RAF_TXVTAGMODE_MASK :: u32 where "XAE_RAF_TXVTAGMODE_MASK \<equiv> 0x18"
abbreviation (input) XAE_RAF_RXVTAGMODE_MASK :: u32 where "XAE_RAF_RXVTAGMODE_MASK \<equiv> 0x60"
abbreviation (input) XAE_RAF_TXVSTRPMODE_MASK :: u32 where "XAE_RAF_TXVSTRPMODE_MASK \<equiv> 0x180"
abbreviation (input) XAE_RAF_RXVSTRPMODE_MASK :: u32 where "XAE_RAF_RXVSTRPMODE_MASK \<equiv> 0x600"
abbreviation (input) XAE_FCC_FCRX_MASK :: u32 where "XAE_FCC_FCRX_MASK \<equiv> 0x20000000"
abbreviation (input) XAE_FMI_PM_MASK :: u32 where "XAE_FMI_PM_MASK \<equiv> 0x80000000"
abbreviation (input) XAE_MDIO_MCR_READY_MASK :: u32 where "XAE_MDIO_MCR_READY_MASK \<equiv> 0x80"
abbreviation (input) XAE_EMMC_LINKSPEED_MASK :: u32 where "XAE_EMMC_LINKSPEED_MASK \<equiv> 0xC0000000"

definition eth_base :: "eth_sys \<Rightarrow> addr" where
  "eth_base s = EthCfgBase (EthConfig (eth s))"

definition XAxiEthernet_ReadReg :: "addr \<Rightarrow> eth_sys \<Rightarrow> u32 \<times> eth_sys" where
  "XAxiEthernet_ReadReg off s = (let (v, b) = bus_read W32 (eth_base s + off) (ebus s) in (v, s\<lparr>ebus := b\<rparr>))"

definition XAxiEthernet_WriteReg :: "addr \<Rightarrow> u32 \<Rightarrow> eth_sys \<Rightarrow> eth_sys" where
  "XAxiEthernet_WriteReg off v s = s\<lparr>ebus := bus_write W32 (eth_base s + off) v (ebus s)\<rparr>"

text \<open>Reading a register and writing it back changed, and doing so only under a condition.\<close>

definition modify :: "addr \<Rightarrow> (u32 \<Rightarrow> u32) \<Rightarrow> eth_sys \<Rightarrow> eth_sys" where
  "modify off f s = (let (v, s) = XAxiEthernet_ReadReg off s in XAxiEthernet_WriteReg off (f v) s)"

definition modify_if :: "bool \<Rightarrow> addr \<Rightarrow> (u32 \<Rightarrow> u32) \<Rightarrow> eth_sys \<Rightarrow> eth_sys" where
  "modify_if c off f s = (if c then modify off f s else s)"

definition XAxiEthernet_IsExtFuncCap :: "eth_sys \<Rightarrow> bool \<times> eth_sys" where
  "XAxiEthernet_IsExtFuncCap s = (let (v, s) = XAxiEthernet_ReadReg XAE_RAF_OFFSET s in (v AND XAE_RAF_NEWFNCENBL_MASK \<noteq> 0, s))"

definition XAxiEthernet_IsExtMcastEnable :: "eth_sys \<Rightarrow> bool \<times> eth_sys" where
  "XAxiEthernet_IsExtMcastEnable s = (let (v, s) = XAxiEthernet_ReadReg XAE_RAF_OFFSET s in (v AND XAE_RAF_EMULTIFLTRENBL_MASK \<noteq> 0, s))"

definition eth_ready :: "eth_sys \<Rightarrow> bool" where
  "eth_ready s \<longleftrightarrow> EthReady (eth s) = ETH_IS_READY"

definition eth_started :: "eth_sys \<Rightarrow> bool" where
  "eth_started s \<longleftrightarrow> EthStarted (eth s) = ETH_IS_STARTED"

text \<open>The macro \<^verbatim>\<open>Xil_poll_timeout\<close>: at most \<open>n\<close> reads of a register; \<open>True\<close> when the awaited value came in time.\<close>

fun poll_loop :: "nat \<Rightarrow> addr \<Rightarrow> (u32 \<Rightarrow> bool) \<Rightarrow> bus \<Rightarrow> bool \<times> bus" where
  "poll_loop 0 a c b = (False, b)"
| "poll_loop (Suc n) a c b = (let (v, b) = bus_read W32 a b in if c v then (True, b) else poll_loop n a c b)"

definition Xil_poll_timeout :: "addr \<Rightarrow> (u32 \<Rightarrow> bool) \<Rightarrow> nat \<Rightarrow> eth_sys \<Rightarrow> bool \<times> eth_sys" where
  "Xil_poll_timeout off c TIMEOUT_US s =
     (let (ok, b) = poll_loop (TIMEOUT_US div 100 + (if TIMEOUT_US mod 100 \<noteq> 0 then 1 else 0)) (eth_base s + off) c (ebus s)
      in (ok, s\<lparr>ebus := b\<rparr>))"

definition XAE_RST_DEFAULT_TIMEOUT_VAL :: nat where
  "XAE_RST_DEFAULT_TIMEOUT_VAL = 1000000"

subsection \<open>Options\<close>

text \<open>The options with what they imply.\<close>

definition imply_option :: "u32 \<Rightarrow> u8 \<Rightarrow> (u32 \<Rightarrow> u32) \<Rightarrow> u32 \<Rightarrow> u32" where
  "imply_option option built f d = (if d AND option \<noteq> 0 \<and> built \<noteq> 0 then f d else d)"

definition XAxiEthernet_UpdateDepOptions :: "XAxiEthernet \<Rightarrow> u32" where
  "XAxiEthernet_UpdateDepOptions x =
     (let c = EthConfig x; d = EthOptions x;
          d = imply_option XAE_EXT_MULTICAST_OPTION (ExtMcast c) (\<lambda>d. d OR XAE_PROMISC_OPTION) d;
          d = imply_option XAE_EXT_TXVLAN_TRAN_OPTION (TxVlanTran c) (\<lambda>d. (d OR XAE_FCS_INSERT_OPTION) AND NOT XAE_VLAN_OPTION) d;
          d = imply_option XAE_EXT_RXVLAN_TRAN_OPTION (RxVlanTran c) (\<lambda>d. (d OR XAE_FCS_STRIP_OPTION) AND NOT XAE_VLAN_OPTION) d;
          d = imply_option XAE_EXT_TXVLAN_TAG_OPTION (TxVlanTag c)
                (\<lambda>d. ((d OR XAE_FCS_INSERT_OPTION) AND NOT XAE_VLAN_OPTION) OR XAE_JUMBO_OPTION) d;
          d = imply_option XAE_EXT_RXVLAN_TAG_OPTION (RxVlanTag c)
                (\<lambda>d. ((d OR XAE_FCS_STRIP_OPTION) AND NOT XAE_VLAN_OPTION) OR XAE_JUMBO_OPTION) d;
          d = imply_option XAE_EXT_TXVLAN_STRP_OPTION (TxVlanStrp c)
                (\<lambda>d. ((d OR XAE_FCS_INSERT_OPTION) AND NOT XAE_VLAN_OPTION) OR XAE_JUMBO_OPTION) d
      in imply_option XAE_EXT_RXVLAN_STRP_OPTION (RxVlanStrp c)
           (\<lambda>d. ((d OR XAE_FCS_STRIP_OPTION) AND NOT XAE_VLAN_OPTION) OR XAE_JUMBO_OPTION) d)"

text \<open>What an option does to a register value, and the control words of the transmitter and receiver.\<close>

definition opt_set :: "u32 \<Rightarrow> u32 \<Rightarrow> u32 \<Rightarrow> u32 \<Rightarrow> u32" where
  "opt_set d option msk v = (if d AND option \<noteq> 0 then v OR msk else v)"

definition opt_clear :: "u32 \<Rightarrow> u32 \<Rightarrow> u32 \<Rightarrow> u32 \<Rightarrow> u32" where
  "opt_clear d option msk v = (if d AND option \<noteq> 0 then v AND NOT msk else v)"

definition tc_set :: "u32 \<Rightarrow> u32 \<Rightarrow> u32" where
  "tc_set d v = opt_set d XAE_TRANSMITTER_ENABLE_OPTION EN_MASK (opt_clear d XAE_FCS_INSERT_OPTION FCS_MASK
     (opt_set d XAE_VLAN_OPTION VLAN_MASK (opt_set d XAE_JUMBO_OPTION JUM_MASK v)))"

definition rcw1_set :: "u32 \<Rightarrow> u32 \<Rightarrow> u32" where
  "rcw1_set d v = opt_set d XAE_RECEIVER_ENABLE_OPTION EN_MASK (opt_clear d XAE_LENTYPE_ERR_OPTION XAE_RCW1_LT_DIS_MASK
     (opt_clear d XAE_FCS_STRIP_OPTION FCS_MASK (opt_set d XAE_VLAN_OPTION VLAN_MASK (opt_set d XAE_JUMBO_OPTION JUM_MASK v))))"

definition tc_clear :: "u32 \<Rightarrow> u32 \<Rightarrow> u32" where
  "tc_clear d v = opt_clear d XAE_TRANSMITTER_ENABLE_OPTION EN_MASK (opt_set d XAE_FCS_INSERT_OPTION FCS_MASK
     (opt_clear d XAE_VLAN_OPTION VLAN_MASK (opt_clear d XAE_JUMBO_OPTION JUM_MASK v)))"

definition rcw1_clear :: "u32 \<Rightarrow> u32 \<Rightarrow> u32" where
  "rcw1_clear d v = opt_clear d XAE_RECEIVER_ENABLE_OPTION EN_MASK (opt_set d XAE_LENTYPE_ERR_OPTION XAE_RCW1_LT_DIS_MASK
     (opt_set d XAE_FCS_STRIP_OPTION FCS_MASK (opt_clear d XAE_VLAN_OPTION VLAN_MASK (opt_clear d XAE_JUMBO_OPTION JUM_MASK v))))"

definition control_words :: "(u32 \<Rightarrow> u32) \<Rightarrow> (u32 \<Rightarrow> u32) \<Rightarrow> eth_sys \<Rightarrow> eth_sys" where
  "control_words f_rcw1 f_tc s =
     (let (RegRcw1, s) = XAxiEthernet_ReadReg XAE_RCW1_OFFSET s;
          (RegTc, s) = XAxiEthernet_ReadReg XAE_TC_OFFSET s;
          s = (if RegTc \<noteq> f_tc RegTc then XAxiEthernet_WriteReg XAE_TC_OFFSET (f_tc RegTc) s else s)
      in if RegRcw1 \<noteq> f_rcw1 RegRcw1 then XAxiEthernet_WriteReg XAE_RCW1_OFFSET (f_rcw1 RegRcw1) s else s)"

text \<open>Flow control and filters, and then the extended functions.\<close>

definition filters_set :: "u32 \<Rightarrow> eth_sys \<Rightarrow> eth_sys" where
  "filters_set d s =
     (let s = modify_if (d AND XAE_FLOW_CONTROL_OPTION \<noteq> 0) XAE_FCC_OFFSET (\<lambda>v. v OR XAE_FCC_FCRX_MASK) s;
          s = modify_if (d AND XAE_PROMISC_OPTION \<noteq> 0) XAE_FMI_OFFSET (\<lambda>v. v OR XAE_FMI_PM_MASK) s;
          s = modify_if (d AND XAE_BROADCAST_OPTION \<noteq> 0) XAE_RAF_OFFSET (\<lambda>v. v AND NOT XAE_RAF_BCSTREJ_MASK) s
      in modify_if (d AND (XAE_MULTICAST_OPTION OR XAE_EXT_MULTICAST_OPTION) \<noteq> 0) XAE_RAF_OFFSET (\<lambda>v. v AND NOT XAE_RAF_MCSTREJ_MASK) s)"

definition extended_set :: "u32 \<Rightarrow> u32 \<Rightarrow> eth_sys \<Rightarrow> eth_sys" where
  "extended_set d Options s =
     (let s = modify_if (d AND XAE_EXT_MULTICAST_OPTION \<noteq> 0) XAE_RAF_OFFSET (\<lambda>v. v OR XAE_RAF_EMULTIFLTRENBL_MASK) s;
          s = modify_if (d AND XAE_EXT_TXVLAN_TAG_OPTION \<noteq> 0) XAE_RAF_OFFSET (\<lambda>v. (v AND NOT XAE_RAF_TXVTAGMODE_MASK) OR push_bit 3 1) s;
          s = modify_if (d AND XAE_EXT_RXVLAN_TAG_OPTION \<noteq> 0) XAE_RAF_OFFSET (\<lambda>v. (v AND NOT XAE_RAF_RXVTAGMODE_MASK) OR push_bit 5 1) s;
          s = modify_if (Options AND XAE_EXT_TXVLAN_STRP_OPTION \<noteq> 0) XAE_RAF_OFFSET (\<lambda>v. (v AND NOT XAE_RAF_TXVSTRPMODE_MASK) OR push_bit 7 1) s
      in modify_if (Options AND XAE_EXT_RXVLAN_STRP_OPTION \<noteq> 0) XAE_RAF_OFFSET (\<lambda>v. (v AND NOT XAE_RAF_RXVSTRPMODE_MASK) OR push_bit 9 1) s)"

definition XAxiEthernet_SetOptions :: "u32 \<Rightarrow> eth_sys \<Rightarrow> (int \<times> eth_sys) option" where
  "XAxiEthernet_SetOptions Options s = do {
     configASSERT (eth_ready s);
     if eth_started s then Some (XST_DEVICE_IS_STARTED, s)
     else
       let s = s\<lparr>eth := (eth s)\<lparr>EthOptions := EthOptions (eth s) OR Options\<rparr>\<rparr>;
           d = XAxiEthernet_UpdateDepOptions (eth s);
           s = modify_if (d AND EXT_OPTIONS \<noteq> 0) XAE_RAF_OFFSET (\<lambda>v. v OR XAE_RAF_NEWFNCENBL_MASK) s;
           s = control_words (rcw1_set d) (tc_set d) s;
           s = filters_set d s
       in Some (0, extended_set d Options s)}"

definition filters_clear :: "u32 \<Rightarrow> eth_sys \<Rightarrow> eth_sys" where
  "filters_clear d s =
     (let s = modify_if (d AND XAE_FLOW_CONTROL_OPTION \<noteq> 0) XAE_FCC_OFFSET (\<lambda>v. v AND NOT XAE_FCC_FCRX_MASK) s;
          s = modify_if (d AND XAE_PROMISC_OPTION \<noteq> 0) XAE_FMI_OFFSET (\<lambda>v. v AND NOT XAE_FMI_PM_MASK) s;
          s = modify_if (d AND XAE_BROADCAST_OPTION \<noteq> 0) XAE_RAF_OFFSET (\<lambda>v. v OR XAE_RAF_BCSTREJ_MASK) s
      in modify_if (d AND XAE_MULTICAST_OPTION \<noteq> 0 \<and> d AND XAE_EXT_MULTICAST_OPTION \<noteq> 0) XAE_RAF_OFFSET (\<lambda>v. v OR XAE_RAF_MCSTREJ_MASK) s)"

definition extended_clear :: "u32 \<Rightarrow> eth_sys \<Rightarrow> eth_sys" where
  "extended_clear d s =
     (let s = modify_if (d AND XAE_EXT_MULTICAST_OPTION \<noteq> 0) XAE_RAF_OFFSET (\<lambda>v. v AND NOT XAE_RAF_EMULTIFLTRENBL_MASK) s;
          s = modify_if (d AND XAE_EXT_TXVLAN_TAG_OPTION \<noteq> 0) XAE_RAF_OFFSET (\<lambda>v. v AND NOT XAE_RAF_TXVTAGMODE_MASK) s;
          s = modify_if (d AND XAE_EXT_RXVLAN_TAG_OPTION \<noteq> 0) XAE_RAF_OFFSET (\<lambda>v. v AND NOT XAE_RAF_RXVTAGMODE_MASK) s;
          s = modify_if (d AND XAE_EXT_TXVLAN_STRP_OPTION \<noteq> 0) XAE_RAF_OFFSET (\<lambda>v. v AND NOT XAE_RAF_TXVSTRPMODE_MASK) s
      in modify_if (d AND XAE_EXT_RXVLAN_STRP_OPTION \<noteq> 0) XAE_RAF_OFFSET (\<lambda>v. v AND NOT XAE_RAF_RXVSTRPMODE_MASK) s)"

definition XAxiEthernet_ClearOptions :: "u32 \<Rightarrow> eth_sys \<Rightarrow> (int \<times> eth_sys) option" where
  "XAxiEthernet_ClearOptions Options s = do {
     configASSERT (eth_ready s);
     if eth_started s then Some (XST_DEVICE_IS_STARTED, s)
     else
       let s = s\<lparr>eth := (eth s)\<lparr>EthOptions := EthOptions (eth s) AND NOT Options\<rparr>\<rparr>;
           d = NOT (XAxiEthernet_UpdateDepOptions (eth s));
           s = modify_if (NOT d AND EXT_OPTIONS = 0) XAE_RAF_OFFSET (\<lambda>v. v AND NOT XAE_RAF_NEWFNCENBL_MASK) s;
           s = control_words (rcw1_clear d) (tc_clear d) s;
           s = filters_clear d s
       in Some (0, extended_clear d s)}"

definition XAxiEthernet_GetOptions :: "eth_sys \<Rightarrow> u32 option" where
  "XAxiEthernet_GetOptions s = do {configASSERT (eth_ready s); Some (EthOptions (eth s))}"

subsection \<open>Start, stop and reset\<close>

definition enable_unless :: "addr \<Rightarrow> eth_sys \<Rightarrow> eth_sys" where
  "enable_unless off s =
     (let (Reg, s) = XAxiEthernet_ReadReg off s in if Reg AND EN_MASK = 0 then XAxiEthernet_WriteReg off (Reg OR EN_MASK) s else s)"

definition XAxiEthernet_Start :: "eth_sys \<Rightarrow> eth_sys option" where
  "XAxiEthernet_Start s = do {
     configASSERT (eth_ready s);
     if eth_started s then Some s
     else
       let s = (if EthOptions (eth s) AND XAE_TRANSMITTER_ENABLE_OPTION \<noteq> 0 then enable_unless XAE_TC_OFFSET s else s);
           s = (if EthOptions (eth s) AND XAE_RECEIVER_ENABLE_OPTION \<noteq> 0 then enable_unless XAE_RCW1_OFFSET s else s)
       in Some (s\<lparr>eth := (eth s)\<lparr>EthStarted := ETH_IS_STARTED\<rparr>\<rparr>)}"

text \<open>The receiver is disabled, and the rejected packet this may cause is acknowledged.\<close>

definition receiver_off :: "eth_sys \<Rightarrow> eth_sys" where
  "receiver_off s =
     (let s = modify XAE_RCW1_OFFSET (\<lambda>v. v AND NOT EN_MASK) s;
          (Reg, s) = XAxiEthernet_ReadReg XAE_IP_OFFSET s
      in if Reg AND XAE_INT_RXRJECT_MASK \<noteq> 0 then XAxiEthernet_WriteReg XAE_IS_OFFSET XAE_INT_RXRJECT_MASK s else s)"

definition XAxiEthernet_Stop :: "eth_sys \<Rightarrow> eth_sys option" where
  "XAxiEthernet_Stop s = do {
     configASSERT (eth_ready s);
     if EthStarted (eth s) = 0 then Some s
     else
       let s = XAxiEthernet_WriteReg XAE_IE_OFFSET 0 s;
           s = receiver_off s
       in Some (s\<lparr>eth := (eth s)\<lparr>EthStarted := 0\<rparr>\<rparr>)}"

definition XAxiEthernet_PhySetMdioDivisor :: "u8 \<Rightarrow> eth_sys \<Rightarrow> eth_sys option" where
  "XAxiEthernet_PhySetMdioDivisor Divisor s = do {
     configASSERT (eth_ready s);
     configASSERT (Divisor \<le> 0x3F);
     Some (XAxiEthernet_WriteReg XAE_MDIO_MC_OFFSET (ucast Divisor OR 0x40) s)}"

definition InitHw :: "eth_sys \<Rightarrow> eth_sys option" where
  "InitHw s = do {
     let s = receiver_off s;
     (st, s) \<leftarrow> XAxiEthernet_SetOptions (EthOptions (eth s) AND NOT (XAE_TRANSMITTER_ENABLE_OPTION OR XAE_RECEIVER_ENABLE_OPTION)) s;
     (st, s) \<leftarrow> XAxiEthernet_ClearOptions (NOT (EthOptions (eth s))) s;
     XAxiEthernet_PhySetMdioDivisor 29 s}"

definition XAxiEthernet_Reset :: "eth_sys \<Rightarrow> eth_sys option" where
  "XAxiEthernet_Reset s = do {
     configASSERT (eth_ready s);
     let (ok, s) = Xil_poll_timeout XAE_IS_OFFSET (\<lambda>v. v AND XAE_INT_MGTRDY_MASK \<noteq> 0) XAE_RST_DEFAULT_TIMEOUT_VAL s;
     configASSERT ok;
     s \<leftarrow> XAxiEthernet_Stop s;
     InitHw (s\<lparr>eth := (eth s)\<lparr>EthOptions := XAE_DEFAULT_OPTIONS\<rparr>\<rparr>)}"

definition XAxiEthernet_Initialize :: "XAxiEthernet_Config \<Rightarrow> addr \<Rightarrow> eth_sys \<Rightarrow> int \<times> eth_sys" where
  "XAxiEthernet_Initialize CfgPtr EffectiveAddress s =
     (0, s\<lparr>eth := \<lparr>EthConfig = CfgPtr\<lparr>EthCfgBase := EffectiveAddress\<rparr>, EthStarted = 0, EthReady = ETH_IS_READY, EthOptions = 0, EthFlags = 0\<rparr>\<rparr>)"

definition XAxiEthernet_CfgInitialize :: "XAxiEthernet_Config \<Rightarrow> addr \<Rightarrow> eth_sys \<Rightarrow> (int \<times> eth_sys) option" where
  "XAxiEthernet_CfgInitialize CfgPtr EffectiveAddress s = do {
     let s = s\<lparr>eth := \<lparr>EthConfig = CfgPtr\<lparr>EthCfgBase := EffectiveAddress\<rparr>, EthStarted = 0, EthReady = ETH_IS_READY, EthOptions = 0,
       EthFlags = 0\<rparr>\<rparr>;
     s \<leftarrow> XAxiEthernet_Reset s;
     Some (0, s)}"

definition XAxiEthernet_LookupConfig :: "XAxiEthernet_Config list \<Rightarrow> u16 \<Rightarrow> XAxiEthernet_Config option" where
  "XAxiEthernet_LookupConfig table DeviceId = find (\<lambda>c. EthDeviceId c = DeviceId) table"

subsection \<open>Station address and speed\<close>

definition low_word :: "u8 list \<Rightarrow> u32" where
  "low_word Aptr = (ucast (Aptr ! 0) OR push_bit 8 (ucast (Aptr ! 1))) OR (push_bit 16 (ucast (Aptr ! 2)) OR push_bit 24 (ucast (Aptr ! 3)))"

definition high_word :: "u8 list \<Rightarrow> u32" where
  "high_word Aptr = ucast (Aptr ! 4) OR push_bit 8 (ucast (Aptr ! 5))"

definition mac_bytes :: "u32 \<Rightarrow> u32 \<Rightarrow> u8 list" where
  "mac_bytes lo hi = [ucast lo, ucast (drop_bit 8 lo), ucast (drop_bit 16 lo), ucast (drop_bit 24 lo), ucast hi, ucast (drop_bit 8 hi)]"

definition XAxiEthernet_SetMacAddress :: "u8 list \<Rightarrow> eth_sys \<Rightarrow> (int \<times> eth_sys) option" where
  "XAxiEthernet_SetMacAddress Aptr s = do {
     configASSERT (eth_ready s);
     if eth_started s then Some (XST_DEVICE_IS_STARTED, s)
     else
       let (cap, s) = XAxiEthernet_IsExtFuncCap s
       in if \<not> cap then
            let s = XAxiEthernet_WriteReg XAE_UAW0_OFFSET (low_word Aptr) s
            in Some (0, modify XAE_UAW1_OFFSET (\<lambda>v. (v AND NOT 0xFFFF) OR high_word Aptr) s)
          else
            let s = XAxiEthernet_WriteReg XAE_UAWL_OFFSET (low_word Aptr) s
            in Some (0, XAxiEthernet_WriteReg XAE_UAWU_OFFSET (high_word Aptr) s)}"

definition XAxiEthernet_GetMacAddress :: "eth_sys \<Rightarrow> (u8 list \<times> eth_sys) option" where
  "XAxiEthernet_GetMacAddress s = do {
     configASSERT (eth_ready s);
     let (cap, s) = XAxiEthernet_IsExtFuncCap s;
     let (lo, s) = XAxiEthernet_ReadReg (if cap then XAE_UAWL_OFFSET else XAE_UAW0_OFFSET) s;
     let (hi, s) = XAxiEthernet_ReadReg (if cap then XAE_UAWU_OFFSET else XAE_UAW1_OFFSET) s;
     Some (mac_bytes lo hi, s)}"

definition link_speed :: "u32 \<Rightarrow> u16" where
  "link_speed v = (if v = 0x80000000 then 1000 else if v = 0x40000000 then 100 else if v = 0 then 10 else 0)"

definition XAxiEthernet_GetOperatingSpeed :: "eth_sys \<Rightarrow> (u16 \<times> eth_sys) option" where
  "XAxiEthernet_GetOperatingSpeed s = do {
     configASSERT (eth_ready s);
     let (v, s) = XAxiEthernet_ReadReg XAE_EMMC_OFFSET s;
     Some (link_speed (v AND XAE_EMMC_LINKSPEED_MASK), s)}"

definition speed_fits :: "u8 \<Rightarrow> u16 \<Rightarrow> bool" where
  "speed_fits phy Speed = (if Speed = 10 \<or> Speed = 100 then phy \<noteq> 5 else \<not> (Speed = 1000 \<and> phy = 0))"

definition XAxiEthernet_SetOperatingSpeed :: "u16 \<Rightarrow> eth_sys \<Rightarrow> (int \<times> eth_sys) option" where
  "XAxiEthernet_SetOperatingSpeed Speed s = do {
     configASSERT (eth_ready s);
     configASSERT (Speed = 10 \<or> Speed = 100 \<or> Speed = 1000 \<or> Speed = 2500);
     if speed_fits (PhyType (EthConfig (eth s))) Speed then
       let (v, s) = XAxiEthernet_ReadReg XAE_EMMC_OFFSET s;
           EmmcReg = v AND NOT XAE_EMMC_LINKSPEED_MASK;
           EmmcReg = (if Speed = 10 then EmmcReg else if Speed = 100 then EmmcReg OR 0x40000000 else EmmcReg OR 0x80000000)
       in Some (0, XAxiEthernet_WriteReg XAE_EMMC_OFFSET EmmcReg s)
     else Some (1, s)}"

definition XAxiEthernet_SetBadFrmRcvOption :: "eth_sys \<Rightarrow> eth_sys" where
  "XAxiEthernet_SetBadFrmRcvOption s = modify XAE_RAF_OFFSET (\<lambda>v. v OR 0x4000) s"

definition XAxiEthernet_ClearBadFrmRcvOption :: "eth_sys \<Rightarrow> eth_sys" where
  "XAxiEthernet_ClearBadFrmRcvOption s = modify XAE_RAF_OFFSET (\<lambda>v. v AND NOT 0x4000) s"

definition XAxiEthernet_DisableControlFrameLenCheck :: "eth_sys \<Rightarrow> eth_sys" where
  "XAxiEthernet_DisableControlFrameLenCheck s = modify XAE_RCW1_OFFSET (\<lambda>v. v OR 0x01000000) s"

definition XAxiEthernet_EnableControlFrameLenCheck :: "eth_sys \<Rightarrow> eth_sys" where
  "XAxiEthernet_EnableControlFrameLenCheck s = modify XAE_RCW1_OFFSET (\<lambda>v. v AND NOT 0x01000000) s"

subsection \<open>The registers of the PHY\<close>

definition mdio_ready :: "eth_sys \<Rightarrow> eth_sys option" where
  "mdio_ready s = do {
     let (ok, s) = Xil_poll_timeout XAE_MDIO_MCR_OFFSET (\<lambda>v. v AND XAE_MDIO_MCR_READY_MASK \<noteq> 0) XAE_RST_DEFAULT_TIMEOUT_VAL s;
     configASSERT ok;
     Some s}"

definition mdio_control :: "u32 \<Rightarrow> u32 \<Rightarrow> u32 \<Rightarrow> u32" where
  "mdio_control PhyAddress RegisterNum op =
     ((push_bit 24 PhyAddress AND 0x1F000000) OR (push_bit 16 RegisterNum AND 0x001F0000)) OR (0x800 OR op)"

definition XAxiEthernet_PhyRead :: "u32 \<Rightarrow> u32 \<Rightarrow> eth_sys \<Rightarrow> (u16 \<times> eth_sys) option" where
  "XAxiEthernet_PhyRead PhyAddress RegisterNum s = do {
     configASSERT (PhyAddress \<le> 31);
     configASSERT (RegisterNum \<le> 31);
     s \<leftarrow> mdio_ready s;
     s \<leftarrow> mdio_ready (XAxiEthernet_WriteReg XAE_MDIO_MCR_OFFSET (mdio_control PhyAddress RegisterNum 0x8000) s);
     let (v, s) = XAxiEthernet_ReadReg XAE_MDIO_MRD_OFFSET s;
     Some (ucast v, s)}"

definition XAxiEthernet_PhyWrite :: "u32 \<Rightarrow> u32 \<Rightarrow> u16 \<Rightarrow> eth_sys \<Rightarrow> eth_sys option" where
  "XAxiEthernet_PhyWrite PhyAddress RegisterNum PhyData s = do {
     configASSERT (PhyAddress \<le> 31);
     configASSERT (RegisterNum \<le> 31);
     s \<leftarrow> mdio_ready s;
     let s = XAxiEthernet_WriteReg XAE_MDIO_MWD_OFFSET (ucast PhyData) s;
     mdio_ready (XAxiEthernet_WriteReg XAE_MDIO_MCR_OFFSET (mdio_control PhyAddress RegisterNum 0x4000) s)}"

end
