(* ===== verification/Eth_Control.thy ===== *)
theory Eth_Control
  imports Eth
begin

section \<open>Filters, pause frames and VLAN functions (xaxiethernet_control.c)\<close>

text \<open>
  The multicast address table, pause frames, the status of the PHY interface, the VLAN functions and the
  extended multicast table.  A result that the code stores through a pointer is part of the result; the code
  that asserts on a null pointer is called with a place.  A direction is \<open>1\<close> (receive) or \<open>2\<close> (transmit).
\<close>

abbreviation (input) XAE_TPF_OFFSET :: addr where "XAE_TPF_OFFSET \<equiv> 0x4"
abbreviation (input) XAE_TTAG_OFFSET :: addr where "XAE_TTAG_OFFSET \<equiv> 0x18"
abbreviation (input) XAE_RTAG_OFFSET :: addr where "XAE_RTAG_OFFSET \<equiv> 0x1C"
abbreviation (input) XAE_TPID0_OFFSET :: addr where "XAE_TPID0_OFFSET \<equiv> 0x28"
abbreviation (input) XAE_TPID1_OFFSET :: addr where "XAE_TPID1_OFFSET \<equiv> 0x2C"
abbreviation (input) XAE_RCW0_OFFSET :: addr where "XAE_RCW0_OFFSET \<equiv> 0x400"
abbreviation (input) XAE_PHYC_OFFSET :: addr where "XAE_PHYC_OFFSET \<equiv> 0x420"
abbreviation (input) XAE_AF0_OFFSET :: addr where "XAE_AF0_OFFSET \<equiv> 0x710"
abbreviation (input) XAE_AF1_OFFSET :: addr where "XAE_AF1_OFFSET \<equiv> 0x714"
abbreviation (input) XAE_TX_VLAN_DATA_OFFSET :: addr where "XAE_TX_VLAN_DATA_OFFSET \<equiv> 0x4000"
abbreviation (input) XAE_RX_VLAN_DATA_OFFSET :: addr where "XAE_RX_VLAN_DATA_OFFSET \<equiv> 0x8000"
abbreviation (input) XAE_MCAST_TABLE_OFFSET :: addr where "XAE_MCAST_TABLE_OFFSET \<equiv> 0x20000"
abbreviation (input) XAE_RX :: int where "XAE_RX \<equiv> 1"
abbreviation (input) XAE_TX :: int where "XAE_TX \<equiv> 2"

subsection \<open>The multicast address table\<close>

definition select_entry :: "int \<Rightarrow> eth_sys \<Rightarrow> eth_sys" where
  "select_entry Entry s = modify XAE_FMI_OFFSET (\<lambda>v. (v AND 0xFFFFFF00) OR word_of_int Entry) s"

definition entry_ok :: "int \<Rightarrow> eth_sys \<Rightarrow> bool" where
  "entry_ok Entry s \<longleftrightarrow> eth_ready s \<and> Entry < uint (NumTableEntries (EthConfig (eth s)))"

definition XAxiEthernet_MulticastAdd :: "u8 list \<Rightarrow> int \<Rightarrow> eth_sys \<Rightarrow> (int \<times> eth_sys) option" where
  "XAxiEthernet_MulticastAdd Aptr Entry s = do {
     configASSERT (entry_ok Entry s);
     if eth_started s then Some (XST_DEVICE_IS_STARTED, s)
     else
       let s = select_entry Entry s;
           s = XAxiEthernet_WriteReg XAE_AF0_OFFSET (low_word Aptr) s
       in Some (0, XAxiEthernet_WriteReg XAE_AF1_OFFSET (high_word Aptr) s)}"

definition XAxiEthernet_MulticastGet :: "int \<Rightarrow> eth_sys \<Rightarrow> (u8 list \<times> eth_sys) option" where
  "XAxiEthernet_MulticastGet Entry s = do {
     configASSERT (entry_ok Entry s);
     let s = select_entry Entry s;
     let (lo, s) = XAxiEthernet_ReadReg XAE_AF0_OFFSET s;
     let (hi, s) = XAxiEthernet_ReadReg XAE_AF1_OFFSET s;
     Some (mac_bytes lo hi, s)}"

definition XAxiEthernet_MulticastClear :: "int \<Rightarrow> eth_sys \<Rightarrow> (int \<times> eth_sys) option" where
  "XAxiEthernet_MulticastClear Entry s = do {
     configASSERT (entry_ok Entry s);
     if eth_started s then Some (XST_DEVICE_IS_STARTED, s)
     else
       let s = select_entry Entry s;
           s = XAxiEthernet_WriteReg XAE_AF0_OFFSET 0 s
       in Some (0, XAxiEthernet_WriteReg XAE_AF1_OFFSET 0 s)}"

subsection \<open>Pause frames and the PHY interface\<close>

definition XAxiEthernet_SetMacPauseAddress :: "u8 list \<Rightarrow> eth_sys \<Rightarrow> (int \<times> eth_sys) option" where
  "XAxiEthernet_SetMacPauseAddress Aptr s = do {
     configASSERT (eth_ready s);
     if eth_started s then Some (XST_DEVICE_IS_STARTED, s)
     else
       let s = XAxiEthernet_WriteReg XAE_RCW0_OFFSET (low_word Aptr) s
       in Some (0, modify XAE_RCW1_OFFSET (\<lambda>v. (v AND NOT 0xFFFF) OR high_word Aptr) s)}"

definition XAxiEthernet_GetMacPauseAddress :: "eth_sys \<Rightarrow> (u8 list \<times> eth_sys) option" where
  "XAxiEthernet_GetMacPauseAddress s = do {
     configASSERT (eth_ready s);
     let (lo, s) = XAxiEthernet_ReadReg XAE_RCW0_OFFSET s;
     let (hi, s) = XAxiEthernet_ReadReg XAE_RCW1_OFFSET s;
     Some (mac_bytes lo hi, s)}"

definition XAxiEthernet_SendPausePacket :: "u16 \<Rightarrow> eth_sys \<Rightarrow> (int \<times> eth_sys) option" where
  "XAxiEthernet_SendPausePacket PauseValue s = do {
     configASSERT (eth_ready s);
     if \<not> eth_started s then Some (XST_DEVICE_IS_STOPPED, s)
     else Some (0, XAxiEthernet_WriteReg XAE_TPF_OFFSET (ucast PauseValue AND 0xFFFF) s)}"

definition XAxiEthernet_GetSgmiiStatus :: "eth_sys \<Rightarrow> (int \<times> u16 option \<times> eth_sys) option" where
  "XAxiEthernet_GetSgmiiStatus s = do {
     configASSERT (eth_ready s);
     if PhyType (EthConfig (eth s)) \<noteq> 4 then Some (XST_NO_FEATURE, None, s)
     else
       let (EgmicReg, s) = XAxiEthernet_ReadReg XAE_PHYC_OFFSET s
       in Some (0, Some (link_speed (EgmicReg AND 0xC0000000)), s)}"

definition rgmii_speed :: "u32 \<Rightarrow> u16" where
  "rgmii_speed v = (if v = 0 then 10 else if v = 4 then 100 else if v = 8 then 1000 else 0)"

text \<open>The speed, whether the link is full duplex, and whether it is up.\<close>

definition XAxiEthernet_GetRgmiiStatus :: "eth_sys \<Rightarrow> (int \<times> (u16 \<times> bool \<times> bool) option \<times> eth_sys) option" where
  "XAxiEthernet_GetRgmiiStatus s = do {
     configASSERT (eth_ready s);
     if PhyType (EthConfig (eth s)) \<noteq> 2 \<and> PhyType (EthConfig (eth s)) \<noteq> 3 then Some (XST_NO_FEATURE, None, s)
     else
       let (EgmicReg, s) = XAxiEthernet_ReadReg XAE_PHYC_OFFSET s
       in Some (0, Some (rgmii_speed (EgmicReg AND 0xC), EgmicReg AND 2 = 0, EgmicReg AND 1 \<noteq> 0), s)}"

subsection \<open>VLAN\<close>

definition tpid_valid :: "u32 \<Rightarrow> bool" where
  "tpid_valid t \<longleftrightarrow> t = 0x8100 \<or> t = 0x88A8 \<or> t = 0x9100 \<or> t = 0x9200"

definition tpid_offset :: "u8 \<Rightarrow> addr" where
  "tpid_offset Entry = (if Entry < 2 then XAE_TPID0_OFFSET else XAE_TPID1_OFFSET)"

definition XAxiEthernet_SetTpid :: "u16 \<Rightarrow> u8 \<Rightarrow> eth_sys \<Rightarrow> (int \<times> eth_sys) option" where
  "XAxiEthernet_SetTpid Tpid Entry s = do {
     configASSERT (eth_ready s \<and> Entry < 4);
     if eth_started s then Some (XST_DEVICE_IS_STARTED, s)
     else
       let (cap, s) = XAxiEthernet_IsExtFuncCap s
       in if \<not> cap then Some (XST_NO_FEATURE, s)
          else if \<not> tpid_valid (ucast Tpid) then Some (XST_INVALID_PARAM, s)
          else Some (0, modify (tpid_offset Entry) (\<lambda>v. if Entry mod 2 \<noteq> 0 then (v AND 0xFFFF) OR push_bit 16 (ucast Tpid)
                                                        else (v AND 0xFFFF0000) OR ucast Tpid) s)}"

definition XAxiEthernet_ClearTpid :: "u8 \<Rightarrow> eth_sys \<Rightarrow> (int \<times> eth_sys) option" where
  "XAxiEthernet_ClearTpid Entry s = do {
     configASSERT (eth_ready s \<and> Entry < 4);
     if eth_started s then Some (XST_DEVICE_IS_STARTED, s)
     else
       let (cap, s) = XAxiEthernet_IsExtFuncCap s
       in if \<not> cap then Some (XST_NO_FEATURE, s)
          else Some (0, modify (tpid_offset Entry) (\<lambda>v. if Entry mod 2 \<noteq> 0 then v AND 0xFFFF0000 else v AND 0xFFFF) s)}"

definition XAxiEthernet_GetTpid :: "u8 \<Rightarrow> eth_sys \<Rightarrow> (u16 \<times> eth_sys) option" where
  "XAxiEthernet_GetTpid Entry s = do {
     configASSERT (eth_ready s \<and> Entry < 4);
     let (RegTpid, s) = XAxiEthernet_ReadReg (tpid_offset Entry) s;
     Some (if Entry mod 2 \<noteq> 0 then ucast (drop_bit 16 RegTpid) else ucast (RegTpid AND 0xFFFF), s)}"

definition dir_ok :: "int \<Rightarrow> eth_sys \<Rightarrow> bool" where
  "dir_ok Dir s \<longleftrightarrow> eth_ready s \<and> (Dir = XAE_TX \<or> Dir = XAE_RX)"

text \<open>A field of the filter register is \<open>n\<close> bits up and two bits wide.\<close>

definition set_mode :: "(u32 \<Rightarrow> bool) \<Rightarrow> nat \<Rightarrow> nat \<Rightarrow> u32 \<Rightarrow> int \<Rightarrow> eth_sys \<Rightarrow> (int \<times> eth_sys) option" where
  "set_mode valid tx rx Mode Dir s = do {
     configASSERT (dir_ok Dir s);
     if eth_started s then Some (XST_DEVICE_IS_STARTED, s)
     else
       let (cap, s) = XAxiEthernet_IsExtFuncCap s
       in if \<not> cap then Some (XST_NO_FEATURE, s)
          else if \<not> valid Mode then Some (XST_INVALID_PARAM, s)
          else let n = (if Dir = XAE_TX then tx else rx)
               in Some (0, modify XAE_RAF_OFFSET (\<lambda>v. (v AND NOT (push_bit n 3)) OR push_bit n Mode) s)}"

definition get_mode :: "nat \<Rightarrow> nat \<Rightarrow> int \<Rightarrow> eth_sys \<Rightarrow> (u8 \<times> eth_sys) option" where
  "get_mode tx rx Dir s = do {
     configASSERT (dir_ok Dir s);
     let (RegRaf, s) = XAxiEthernet_ReadReg XAE_RAF_OFFSET s;
     let n = (if Dir = XAE_TX then tx else rx);
     Some (ucast (drop_bit n (RegRaf AND push_bit n 3)), s)}"

definition XAxiEthernet_SetVTagMode :: "u32 \<Rightarrow> int \<Rightarrow> eth_sys \<Rightarrow> (int \<times> eth_sys) option" where
  "XAxiEthernet_SetVTagMode Mode Dir s = set_mode (\<lambda>m. m \<le> 3) 3 5 Mode Dir s"

definition XAxiEthernet_GetVTagMode :: "int \<Rightarrow> eth_sys \<Rightarrow> (u8 \<times> eth_sys) option" where
  "XAxiEthernet_GetVTagMode Dir s = get_mode 3 5 Dir s"

definition XAxiEthernet_SetVStripMode :: "u32 \<Rightarrow> int \<Rightarrow> eth_sys \<Rightarrow> (int \<times> eth_sys) option" where
  "XAxiEthernet_SetVStripMode Mode Dir s = set_mode (\<lambda>m. m = 0 \<or> m = 1 \<or> m = 3) 7 9 Mode Dir s"

definition XAxiEthernet_GetVStripMode :: "int \<Rightarrow> eth_sys \<Rightarrow> (u8 \<times> eth_sys) option" where
  "XAxiEthernet_GetVStripMode Dir s = get_mode 7 9 Dir s"

definition XAxiEthernet_SetVTagValue :: "u32 \<Rightarrow> int \<Rightarrow> eth_sys \<Rightarrow> (int \<times> eth_sys) option" where
  "XAxiEthernet_SetVTagValue VTagValue Dir s = do {
     configASSERT (dir_ok Dir s);
     if eth_started s then Some (XST_DEVICE_IS_STARTED, s)
     else
       let (cap, s) = XAxiEthernet_IsExtFuncCap s
       in if \<not> cap then Some (XST_NO_FEATURE, s)
          else if \<not> tpid_valid (drop_bit 16 VTagValue) then Some (XST_INVALID_PARAM, s)
          else Some (0, XAxiEthernet_WriteReg (if Dir = XAE_TX then XAE_TTAG_OFFSET else XAE_RTAG_OFFSET) VTagValue s)}"

definition XAxiEthernet_GetVTagValue :: "int \<Rightarrow> eth_sys \<Rightarrow> (u32 \<times> eth_sys) option" where
  "XAxiEthernet_GetVTagValue Dir s = do {
     configASSERT (dir_ok Dir s);
     Some (XAxiEthernet_ReadReg (if Dir = XAE_TX then XAE_TTAG_OFFSET else XAE_RTAG_OFFSET) s)}"

definition vid_place :: "u32 \<Rightarrow> int \<Rightarrow> addr" where
  "vid_place Entry Dir = (if Dir = XAE_TX then XAE_TX_VLAN_DATA_OFFSET else XAE_RX_VLAN_DATA_OFFSET) + push_bit 2 Entry"

definition XAxiEthernet_SetVidTable :: "u32 \<Rightarrow> u32 \<Rightarrow> u8 \<Rightarrow> u8 \<Rightarrow> int \<Rightarrow> eth_sys \<Rightarrow> (int \<times> eth_sys) option" where
  "XAxiEthernet_SetVidTable Entry Vid Strip Tag Dir s = do {
     configASSERT (dir_ok Dir s \<and> Entry \<le> 0xFFF \<and> Vid \<le> 0xFFF \<and> Strip \<le> 1 \<and> Tag \<le> 1);
     if eth_started s then Some (XST_DEVICE_IS_STARTED, s)
     else
       let (cap, s) = XAxiEthernet_IsExtFuncCap s
       in if \<not> cap then Some (XST_NO_FEATURE, s)
          else Some (0, XAxiEthernet_WriteReg (vid_place Entry Dir) ((push_bit 2 Vid OR push_bit 1 (ucast Strip)) OR ucast Tag) s)}"

definition XAxiEthernet_GetVidTable :: "u32 \<Rightarrow> int \<Rightarrow> eth_sys \<Rightarrow> ((u32 \<times> u8 \<times> u8) \<times> eth_sys) option" where
  "XAxiEthernet_GetVidTable Entry Dir s = do {
     configASSERT (dir_ok Dir s \<and> Entry \<le> 0xFFF);
     let (Reg, s) = XAxiEthernet_ReadReg (vid_place Entry Dir) s;
     Some ((drop_bit 2 Reg, ucast (drop_bit 1 Reg AND 1), ucast (Reg AND 1)), s)}"

subsection \<open>The extended multicast table\<close>

definition group_valid :: "u8 list \<Rightarrow> bool" where
  "group_valid Aptr \<longleftrightarrow> Aptr ! 0 = 1 \<and> Aptr ! 1 = 0 \<and> Aptr ! 2 = 0x5E \<and> Aptr ! 3 AND 0x80 = 0"

definition group_place :: "u8 list \<Rightarrow> addr" where
  "group_place Aptr = XAE_MCAST_TABLE_OFFSET + push_bit 2 (push_bit 8 (ucast (Aptr ! 3)) OR ucast (Aptr ! 4))"

definition group_write :: "u32 \<Rightarrow> u8 list \<Rightarrow> eth_sys \<Rightarrow> (int \<times> eth_sys) option" where
  "group_write v Aptr s = do {
     configASSERT (eth_ready s);
     if eth_started s then Some (XST_DEVICE_IS_STARTED, s)
     else
       let (cap, s) = XAxiEthernet_IsExtFuncCap s
       in if \<not> cap then Some (XST_NO_FEATURE, s)
          else
            let (en, s) = XAxiEthernet_IsExtMcastEnable s
            in if \<not> en then Some (XST_NO_FEATURE, s)
               else if \<not> group_valid Aptr then Some (XST_INVALID_PARAM, s)
               else Some (0, XAxiEthernet_WriteReg (group_place Aptr) v s)}"

definition XAxiEthernet_AddExtMulticastGroup :: "u8 list \<Rightarrow> eth_sys \<Rightarrow> (int \<times> eth_sys) option" where
  "XAxiEthernet_AddExtMulticastGroup Aptr s = group_write 1 Aptr s"

definition XAxiEthernet_ClearExtMulticastGroup :: "u8 list \<Rightarrow> eth_sys \<Rightarrow> (int \<times> eth_sys) option" where
  "XAxiEthernet_ClearExtMulticastGroup Aptr s = group_write 0 Aptr s"

definition XAxiEthernet_GetExtMulticastGroup :: "u8 list \<Rightarrow> eth_sys \<Rightarrow> (bool \<times> eth_sys) option" where
  "XAxiEthernet_GetExtMulticastGroup Aptr s = do {
     configASSERT (eth_ready s);
     if \<not> group_valid Aptr then Some (False, s)
     else
       let (v, s) = XAxiEthernet_ReadReg (group_place Aptr) s
       in Some ((ucast v :: u8) \<noteq> 0, s)}"

text \<open>The listing of the table: the addresses that are printed, for the indices \<open>Index\<close> to \<open>2 ^ 15 - 1\<close>.  The bytes of an address are
  truncated shifts of the index.\<close>

fun dump_groups :: "nat \<Rightarrow> u32 \<Rightarrow> eth_sys \<Rightarrow> u8 list list \<times> eth_sys" where
  "dump_groups 0 Index s = ([], s)"
| "dump_groups (Suc n) Index s =
     (let m3 = ucast (push_bit 16 Index) :: u8;
          m4 = ucast (push_bit 8 Index) :: u8;
          Loc = push_bit 2 (ucast m3 OR push_bit 8 (ucast m4)) :: u32;
          (v, s) = XAxiEthernet_ReadReg (XAE_MCAST_TABLE_OFFSET + Loc) s;
          (l, s) = dump_groups n (Index + 1) s
      in (if (ucast v :: u8) \<noteq> 0 then [0, m4, m3, 0x5E, 0, 1] # l else l, s))"

definition XAxiEthernet_DumpExtMulticastGroup :: "eth_sys \<Rightarrow> u8 list list \<times> eth_sys" where
  "XAxiEthernet_DumpExtMulticastGroup s = dump_groups (2 ^ 15) 0 s"

end
