(* ===== verification/Eth_Props.thy ===== *)
theory Eth_Props
  imports Eth_Control
begin

section \<open>Properties of the Ethernet controller driver\<close>

text \<open>
  A register that does not change by itself reads as it was written (\<open>rplain\<close>), so that the driver's
  tables and settings can be read back.
\<close>

subsection \<open>Registers\<close>

definition rcell :: "addr \<Rightarrow> eth_sys \<Rightarrow> u32" where
  "rcell off s = cells (ebus s) (eth_base s + off)"

definition rplain :: "addr \<Rightarrow> eth_sys \<Rightarrow> bool" where
  "rplain off s \<longleftrightarrow> plain (ebus s) (eth_base s + off)"

lemma eth_access [simp]:
  "eth (snd (XAxiEthernet_ReadReg off s)) = eth s" "eth (XAxiEthernet_WriteReg off v s) = eth s"
  "eth (modify off f s) = eth s" "eth (modify_if c off f s) = eth s"
  by (simp_all add: XAxiEthernet_ReadReg_def XAxiEthernet_WriteReg_def modify_def modify_if_def split_beta)

lemma eth_base_cong: "eth t = eth s \<Longrightarrow> eth_base t = eth_base s"
  by (simp add: eth_base_def)

lemma eth_base_access [simp]:
  "eth_base (snd (XAxiEthernet_ReadReg off s)) = eth_base s" "eth_base (XAxiEthernet_WriteReg off v s) = eth_base s"
  "eth_base (modify off f s) = eth_base s" "eth_base (modify_if c off f s) = eth_base s"
  by (auto intro: eth_base_cong)

lemma rcell_access [simp]:
  "rcell off (snd (XAxiEthernet_ReadReg o' s)) = rcell off s"
  "rcell off (XAxiEthernet_WriteReg o' v s) = (if off = o' then v else rcell off s)"
  by (simp_all add: rcell_def XAxiEthernet_ReadReg_def XAxiEthernet_WriteReg_def split_beta eth_base_def)

lemma rplain_access [simp]:
  "rplain off s \<Longrightarrow> rplain off (snd (XAxiEthernet_ReadReg o' s))"
  "rplain off (XAxiEthernet_WriteReg o' v s) = rplain off s"
  by (simp_all add: rplain_def XAxiEthernet_ReadReg_def XAxiEthernet_WriteReg_def split_beta eth_base_def)

lemma read_rplain: "rplain off s \<Longrightarrow> fst (XAxiEthernet_ReadReg off s) = rcell off s"
  by (simp add: rplain_def rcell_def XAxiEthernet_ReadReg_def split_beta bus_read_plain)

lemma rcell_modify [simp]:
  "rplain o' s \<Longrightarrow> rcell off (modify o' f s) = (if off = o' then f (rcell o' s) else rcell off s)"
  "rplain o' s \<Longrightarrow> rcell off (modify_if c o' f s) = (if c \<and> off = o' then f (rcell o' s) else rcell off s)"
  by (simp_all add: modify_def modify_if_def split_beta read_rplain)

lemma rplain_modify [simp]:
  "rplain off s \<Longrightarrow> rplain off (modify o' f s)" "rplain off s \<Longrightarrow> rplain off (modify_if c o' f s)"
  by (simp_all add: modify_def modify_if_def split_beta)

lemma reg_update [simp]:
  "EthConfig x = EthConfig (eth s) \<Longrightarrow> rcell off (s\<lparr>eth := x\<rparr>) = rcell off s"
  "EthConfig x = EthConfig (eth s) \<Longrightarrow> rplain off (s\<lparr>eth := x\<rparr>) = rplain off s"
  by (simp_all add: rcell_def rplain_def eth_base_def)

lemma control_words_effect [simp]:
  "eth (control_words f g s) = eth s"
  "rplain off s \<Longrightarrow> rplain off (control_words f g s)"
  "rplain 0x404 s \<Longrightarrow> rplain 0x408 s \<Longrightarrow> rcell off (control_words f g s) =
     (if off = 0x404 then f (rcell 0x404 s) else if off = 0x408 then g (rcell 0x408 s) else rcell off s)"
  by (auto simp: control_words_def split_beta Let_def read_rplain)

lemmas eth_defs = eth_ready_def eth_started_def entry_ok_def dir_ok_def

subsection \<open>Addresses\<close>

lemma mac_bytes_words:
  assumes "length a = 6"
  shows "mac_bytes (low_word a) (high_word a) = a" "mac_bytes (low_word a) ((v AND - 65536) OR high_word a) = a"
proof -
  obtain a0 a1 a2 a3 a4 a5 where a: "a = [a0, a1, a2, a3, a4, a5]"
    using assms by (auto simp: numeral_eq_Suc length_Suc_conv)
  have m: "(- 65536 :: u32) = NOT (mask 16)"
    by (simp add: mask_eq_exp_minus_1)
  show "mac_bytes (low_word a) (high_word a) = a" "mac_bytes (low_word a) ((v AND - 65536) OR high_word a) = a"
    unfolding a m mac_bytes_def low_word_def high_word_def
    by (simp_all, (intro conjI bit_word_eqI; auto simp: bit_simps dest: bit_imp_le_length)+)
qed

interpretation mac: codec "\<lambda>a. (low_word a, high_word a)" "\<lambda>(lo, hi). mac_bytes lo hi" "\<lambda>a. length a = 6"
  by unfold_locales (simp add: mac_bytes_words)

text \<open>The log of register accesses.\<close>

definition elog :: "eth_sys \<Rightarrow> event list" where
  "elog s = events (ebus s)"

lemma elog_access:
  "elog (snd (XAxiEthernet_ReadReg off s)) = elog s @ [Rd W32 (eth_base s + off) (fst (XAxiEthernet_ReadReg off s))]"
  "elog (XAxiEthernet_WriteReg off v s) = elog s @ [Wr W32 (eth_base s + off) v]"
  "elog (modify off f s) = elog s @ [Rd W32 (eth_base s + off) (fst (XAxiEthernet_ReadReg off s)),
     Wr W32 (eth_base s + off) (f (fst (XAxiEthernet_ReadReg off s)))]"
  by (simp_all add: elog_def XAxiEthernet_ReadReg_def XAxiEthernet_WriteReg_def modify_def split_beta bus_read_def
      bus_write_def Let_def eth_base_def)

text \<open>An address in two words, its first byte in the lowest eight bits.\<close>

definition packs :: "u8 list \<Rightarrow> u32 \<Rightarrow> u32 \<Rightarrow> bool" where
  "packs a lo hi \<longleftrightarrow> (\<forall>i<4. ucast (drop_bit (8 * i) lo) = a ! i) \<and> (\<forall>i<2. ucast (drop_bit (8 * i) hi) = a ! (4 + i)) \<and> drop_bit 16 hi = 0"

lemma packs_words:
  assumes "length a = 6"
  shows "packs a (low_word a) (high_word a)"
proof -
  obtain a0 a1 a2 a3 a4 a5 where a: "a = [a0, a1, a2, a3, a4, a5]"
    using assms by (auto simp: numeral_eq_Suc length_Suc_conv)
  have all: "(\<forall>i<4. P i) \<longleftrightarrow> P 0 \<and> P 1 \<and> P 2 \<and> P 3" "(\<forall>i<2. P i) \<longleftrightarrow> P 0 \<and> P 1" for P :: "nat \<Rightarrow> bool"
    by (auto simp: numeral_eq_Suc less_Suc_eq)
  show ?thesis
    unfolding packs_def all a low_word_def high_word_def
    by (intro conjI bit_word_eqI; auto simp: bit_simps dest: bit_imp_le_length)
qed

text \<open>C28. The station address, the pause address and the entries of the multicast table.  A started controller refuses
  to change them, with status 5 and without any access.  On a stopped one what is set is read back, and the log shows what
  is written: the address goes, its first byte lowest, to the registers of the mode (basic or extended) the controller is
  in, the pause address to its registers, and the other bits of a shared register are kept; an entry of the multicast table
  is selected in the filter register before its two words are written, and before they are read.\<close>

theorem eth_address_roundtrip:
  assumes "length a = 6" "eth_ready s" "\<forall>off\<in>{0, 0x20, 0x24, 0x400, 0x404, 0x700, 0x704, 0x708, 0x710, 0x714}. rplain off s" "B = eth_base s"
  shows "if eth_started s then
      XAxiEthernet_SetMacAddress a s = Some (5, s) \<and> XAxiEthernet_SetMacPauseAddress a s = Some (5, s) \<and>
      (entry_ok e s \<longrightarrow> XAxiEthernet_MulticastAdd a e s = Some (5, s))
    else \<exists>lo hi. packs a lo hi \<and>
      (\<exists>t u. XAxiEthernet_SetMacAddress a s = Some (0, t) \<and> XAxiEthernet_GetMacAddress t = Some (a, u) \<and>
        writes_of (elog t) = writes_of (elog s) @
          (if rcell 0 s AND 0x800 = 0 then [(B + 0x700, lo), (B + 0x704, (rcell 0x704 s AND NOT 0xFFFF) OR hi)]
           else [(B + 0x20, lo), (B + 0x24, hi)])) \<and>
      (\<exists>t u. XAxiEthernet_SetMacPauseAddress a s = Some (0, t) \<and> XAxiEthernet_GetMacPauseAddress t = Some (a, u) \<and>
        writes_of (elog t) = writes_of (elog s) @ [(B + 0x400, lo), (B + 0x404, (rcell 0x404 s AND NOT 0xFFFF) OR hi)]) \<and>
      (entry_ok e s \<longrightarrow> (\<exists>t u. XAxiEthernet_MulticastAdd a e s = Some (0, t) \<and> XAxiEthernet_MulticastGet e t = Some (a, u) \<and>
        writes_of (elog t) = writes_of (elog s) @
          [(B + 0x708, (rcell 0x708 s AND 0xFFFFFF00) OR word_of_int e), (B + 0x710, lo), (B + 0x714, hi)] \<and>
        (\<exists>v. elog u = elog t @ [Rd W32 (B + 0x708) v, Wr W32 (B + 0x708) ((v AND 0xFFFFFF00) OR word_of_int e),
          Rd W32 (B + 0x710) lo, Rd W32 (B + 0x714) hi])))"
proof (cases "eth_started s")
  case True
  then show ?thesis
    using assms(2) by (simp add: XAxiEthernet_SetMacAddress_def XAxiEthernet_SetMacPauseAddress_def XAxiEthernet_MulticastAdd_def)
next
  case False
  let ?lo = "low_word a" and ?hi = "high_word a"
  have p: "rplain 0 s" "rplain 0x20 s" "rplain 0x24 s" "rplain 0x400 s" "rplain 0x404 s" "rplain 0x700 s" "rplain 0x704 s" "rplain 0x708 s"
    "rplain 0x710 s" "rplain 0x714 s"
    using assms(3) by simp_all
  have r: "EthReady (eth s) = 0x11111111" "EthStarted (eth s) \<noteq> 0x22222222"
    using assms(2) False by (simp_all add: eth_ready_def eth_started_def)
  have 1: "\<exists>t u. XAxiEthernet_SetMacAddress a s = Some (0, t) \<and> XAxiEthernet_GetMacAddress t = Some (a, u) \<and>
      writes_of (elog t) = writes_of (elog s) @
        (if rcell 0 s AND 0x800 = 0 then [(B + 0x700, ?lo), (B + 0x704, (rcell 0x704 s AND NOT 0xFFFF) OR ?hi)]
         else [(B + 0x20, ?lo), (B + 0x24, ?hi)])"
    using assms(1,4) p r by (cases "rcell 0 s AND 0x800 = 0")
      (simp_all add: XAxiEthernet_SetMacAddress_def XAxiEthernet_GetMacAddress_def XAxiEthernet_IsExtFuncCap_def split_beta Let_def
        read_rplain mac_bytes_words eth_defs elog_access)
  have 2: "\<exists>t u. XAxiEthernet_SetMacPauseAddress a s = Some (0, t) \<and> XAxiEthernet_GetMacPauseAddress t = Some (a, u) \<and>
      writes_of (elog t) = writes_of (elog s) @ [(B + 0x400, ?lo), (B + 0x404, (rcell 0x404 s AND NOT 0xFFFF) OR ?hi)]"
    using assms(1,4) p r
    by (simp add: XAxiEthernet_SetMacPauseAddress_def XAxiEthernet_GetMacPauseAddress_def split_beta Let_def read_rplain mac_bytes_words
        eth_defs elog_access)
  have 3: "\<exists>t u. XAxiEthernet_MulticastAdd a e s = Some (0, t) \<and> XAxiEthernet_MulticastGet e t = Some (a, u) \<and>
      writes_of (elog t) = writes_of (elog s) @
        [(B + 0x708, (rcell 0x708 s AND 0xFFFFFF00) OR word_of_int e), (B + 0x710, ?lo), (B + 0x714, ?hi)] \<and>
      (\<exists>v. elog u = elog t @ [Rd W32 (B + 0x708) v, Wr W32 (B + 0x708) ((v AND 0xFFFFFF00) OR word_of_int e),
        Rd W32 (B + 0x710) ?lo, Rd W32 (B + 0x714) ?hi])" if "entry_ok e s"
    using assms(1,4) p r that
    by (simp add: XAxiEthernet_MulticastAdd_def XAxiEthernet_MulticastGet_def select_entry_def split_beta Let_def read_rplain mac_bytes_words
        eth_defs elog_access)
  show ?thesis
    unfolding if_not_P [OF False] by (intro exI [of _ ?lo] exI [of _ ?hi] conjI impI packs_words assms(1) 1 2 3)
qed

subsection \<open>Options\<close>

text \<open>The bits of the registers that stand for the options \<open>d\<close>: a register, a mask, and whether a bit of it is set.\<close>

definition option_bits :: "u32 \<Rightarrow> (addr \<times> u32 \<times> bool) list" where
  "option_bits d =
     [(0x408, 0x40000000, d AND 0x2 \<noteq> 0), (0x408, 0x08000000, d AND 0x4 \<noteq> 0), (0x408, 0x20000000, d AND 0x20 = 0), (0x408, 0x10000000, d AND 0x80 \<noteq> 0),
      (0x404, 0x40000000, d AND 0x2 \<noteq> 0), (0x404, 0x08000000, d AND 0x4 \<noteq> 0), (0x404, 0x20000000, d AND 0x10 = 0),
      (0x404, 0x02000000, d AND 0x40 = 0), (0x404, 0x10000000, d AND 0x100 \<noteq> 0),
      (0x40C, 0x20000000, d AND 0x8 \<noteq> 0), (0x708, 0x80000000, d AND 0x1 \<noteq> 0),
      (0, 0x4, d AND 0x200 = 0), (0, 0x2, d AND 0xC00 = 0), (0, 0x800, d AND 0x3F800 \<noteq> 0), (0, 0x1000, d AND 0x800 \<noteq> 0),
      (0, 0x18, d AND 0x4000 \<noteq> 0), (0, 0x60, d AND 0x8000 \<noteq> 0), (0, 0x180, d AND 0x10000 \<noteq> 0), (0, 0x600, d AND 0x20000 \<noteq> 0)]"

definition encodes :: "u32 \<Rightarrow> (addr \<Rightarrow> u32) \<Rightarrow> bool" where
  "encodes d r \<longleftrightarrow> (\<forall>(off, m, on)\<in>set (option_bits d). (r off AND m \<noteq> 0) = on)"

definition settled :: "eth_sys \<Rightarrow> bool" where
  "settled s \<longleftrightarrow> (\<forall>off\<in>{0, 0x404, 0x408, 0x40C, 0x708}. rplain off s)"

definition no_extended :: "XAxiEthernet_Config \<Rightarrow> bool" where
  "no_extended c \<longleftrightarrow> (\<forall>f\<in>{ExtMcast, TxVlanTran, RxVlanTran, TxVlanTag, RxVlanTag, TxVlanStrp, RxVlanStrp}. f c = 0)"

lemma settledD: "settled s \<Longrightarrow> rplain 0 s" "settled s \<Longrightarrow> rplain 0x404 s" "settled s \<Longrightarrow> rplain 0x408 s" "settled s \<Longrightarrow> rplain 0x40C s" "settled s \<Longrightarrow> rplain 0x708 s"
  by (simp_all add: settled_def)

lemma dep_options: "no_extended (EthConfig x) \<Longrightarrow> XAxiEthernet_UpdateDepOptions x = EthOptions x"
  by (simp add: no_extended_def XAxiEthernet_UpdateDepOptions_def imply_option_def)

text \<open>The registers after the settings.\<close>

definition put_bits :: "bool \<Rightarrow> u32 \<Rightarrow> u32 \<Rightarrow> u32" where
  "put_bits c m v = (if c then v OR m else v)"

definition drop_bits :: "bool \<Rightarrow> u32 \<Rightarrow> u32 \<Rightarrow> u32" where
  "drop_bits c m v = (if c then v AND NOT m else v)"

definition raf_set :: "u32 \<Rightarrow> u32 \<Rightarrow> u32 \<Rightarrow> u32" where
  "raf_set d opts v =
     (let v = opt_set d 0x3F800 0x800 v; v = opt_clear d 0x200 4 v; v = opt_clear d 0xC00 2 v; v = opt_set d 0x800 0x1000 v;
          v = opt_set d 0x4000 8 (opt_clear d 0x4000 0x18 v); v = opt_set d 0x8000 0x20 (opt_clear d 0x8000 0x60 v);
          v = opt_set opts 0x10000 0x80 (opt_clear opts 0x10000 0x180 v)
      in opt_set opts 0x20000 0x200 (opt_clear opts 0x20000 0x600 v))"

definition raf_clear :: "u32 \<Rightarrow> u32 \<Rightarrow> u32" where
  "raf_clear d v =
     (let v = drop_bits (NOT d AND 0x3F800 = 0) 0x800 v; v = opt_set d 0x200 4 v;
          v = put_bits (d AND 0x400 \<noteq> 0 \<and> d AND 0x800 \<noteq> 0) 2 v; v = opt_clear d 0x800 0x1000 v;
          v = opt_clear d 0x4000 0x18 v; v = opt_clear d 0x8000 0x60 v; v = opt_clear d 0x10000 0x180 v
      in opt_clear d 0x20000 0x600 v)"

definition after_set :: "u32 \<Rightarrow> u32 \<Rightarrow> (addr \<Rightarrow> u32) \<Rightarrow> addr \<Rightarrow> u32" where
  "after_set d opts r = r(0x404 := rcw1_set d (r 0x404), 0x408 := tc_set d (r 0x408), 0x40C := opt_set d 8 0x20000000 (r 0x40C),
     0x708 := opt_set d 1 0x80000000 (r 0x708), 0 := raf_set d opts (r 0))"

definition after_clear :: "u32 \<Rightarrow> (addr \<Rightarrow> u32) \<Rightarrow> addr \<Rightarrow> u32" where
  "after_clear d r = r(0x404 := rcw1_clear d (r 0x404), 0x408 := tc_clear d (r 0x408), 0x40C := opt_clear d 8 0x20000000 (r 0x40C),
     0x708 := opt_clear d 1 0x80000000 (r 0x708), 0 := raf_clear d (r 0))"

lemma set_options_effect:
  assumes "eth_ready s" "\<not> eth_started s" "settled s" "no_extended (EthConfig (eth s))"
  obtains t where "XAxiEthernet_SetOptions opts s = Some (0, t)" "eth t = (eth s)\<lparr>EthOptions := EthOptions (eth s) OR opts\<rparr>" "settled t"
    "(\<lambda>off. rcell off t) = after_set (EthOptions (eth s) OR opts) opts (\<lambda>off. rcell off s)"
proof -
  define x where "x = (eth s)\<lparr>EthOptions := EthOptions (eth s) OR opts\<rparr>"
  define d where "d = EthOptions (eth s) OR opts"
  have d: "XAxiEthernet_UpdateDepOptions x = d"
    using dep_options [of x] assms(4) by (simp add: x_def d_def)
  define s1 where "s1 = modify_if (d AND 0x3F800 \<noteq> 0) 0 (\<lambda>v. v OR 0x800) (s\<lparr>eth := x\<rparr>)"
  define s2 where "s2 = filters_set d (control_words (rcw1_set d) (tc_set d) s1)"
  define t where "t = extended_set d opts s2"
  have p: "rplain 0 s" "rplain 0x404 s" "rplain 0x408 s" "rplain 0x40C s" "rplain 0x708 s"
    using settledD [OF assms(3)] by simp_all
  have s1: "eth s1 = x" "\<And>off. rplain off s \<Longrightarrow> rplain off s1" "\<And>off. rcell off s1 = (if off = 0 then opt_set d 0x3F800 0x800 (rcell 0 s) else rcell off s)"
    using p by (simp_all add: s1_def x_def opt_set_def)
  have s2: "eth s2 = x" "\<And>off. rplain off s \<Longrightarrow> rplain off s2" "\<And>off. rcell off s2 = (if off = 0 then opt_clear d 0xC00 2 (opt_clear d 0x200 4 (opt_set d 0x3F800 0x800 (rcell 0 s)))
      else if off = 0x404 then rcw1_set d (rcell 0x404 s) else if off = 0x408 then tc_set d (rcell 0x408 s)
      else if off = 0x40C then opt_set d 8 0x20000000 (rcell 0x40C s) else if off = 0x708 then opt_set d 1 0x80000000 (rcell 0x708 s) else rcell off s)"
    using p s1 by (simp_all add: s2_def filters_set_def Let_def opt_set_def opt_clear_def)
  have t: "eth t = x" "\<And>off. rplain off s \<Longrightarrow> rplain off t" "\<And>off. rcell off t = after_set d opts (\<lambda>off. rcell off s) off"
    using p s2 by (simp_all add: t_def extended_set_def after_set_def raf_set_def Let_def opt_set_def opt_clear_def)
  have "XAxiEthernet_SetOptions opts s = Some (0, t)"
    using assms(1,2) d unfolding x_def d_def by (simp add: XAxiEthernet_SetOptions_def Let_def t_def s2_def s1_def x_def d_def)
  then show ?thesis
    using that t p by (auto simp: x_def d_def settled_def)
qed

lemma clear_options_effect:
  assumes "eth_ready s" "\<not> eth_started s" "settled s" "no_extended (EthConfig (eth s))"
  obtains t where "XAxiEthernet_ClearOptions opts s = Some (0, t)" "eth t = (eth s)\<lparr>EthOptions := EthOptions (eth s) AND NOT opts\<rparr>" "settled t"
    "(\<lambda>off. rcell off t) = after_clear (NOT (EthOptions (eth s) AND NOT opts)) (\<lambda>off. rcell off s)"
proof -
  define x where "x = (eth s)\<lparr>EthOptions := EthOptions (eth s) AND NOT opts\<rparr>"
  define d where "d = NOT (EthOptions (eth s) AND NOT opts)"
  have d: "NOT (XAxiEthernet_UpdateDepOptions x) = d"
    using dep_options [of x] assms(4) by (simp add: x_def d_def)
  define s1 where "s1 = modify_if (NOT d AND 0x3F800 = 0) 0 (\<lambda>v. v AND NOT 0x800) (s\<lparr>eth := x\<rparr>)"
  define s2 where "s2 = filters_clear d (control_words (rcw1_clear d) (tc_clear d) s1)"
  define t where "t = extended_clear d s2"
  have p: "rplain 0 s" "rplain 0x404 s" "rplain 0x408 s" "rplain 0x40C s" "rplain 0x708 s"
    using settledD [OF assms(3)] by simp_all
  have s1: "eth s1 = x" "\<And>off. rplain off s \<Longrightarrow> rplain off s1" "\<And>off. rcell off s1 = (if off = 0 then drop_bits (NOT d AND 0x3F800 = 0) 0x800 (rcell 0 s) else rcell off s)"
    using p by (simp_all add: s1_def x_def drop_bits_def)
  have s2: "eth s2 = x" "\<And>off. rplain off s \<Longrightarrow> rplain off s2" "\<And>off. rcell off s2 = (if off = 0 then
        put_bits (d AND 0x400 \<noteq> 0 \<and> d AND 0x800 \<noteq> 0) 2 (opt_set d 0x200 4 (rcell 0 s1))
      else if off = 0x404 then rcw1_clear d (rcell 0x404 s) else if off = 0x408 then tc_clear d (rcell 0x408 s)
      else if off = 0x40C then opt_clear d 8 0x20000000 (rcell 0x40C s) else if off = 0x708 then opt_clear d 1 0x80000000 (rcell 0x708 s) else rcell off s)"
    using p s1 by (simp_all add: s2_def filters_clear_def Let_def opt_set_def opt_clear_def put_bits_def)
  have t: "eth t = x" "\<And>off. rplain off s \<Longrightarrow> rplain off t" "\<And>off. rcell off t = after_clear d (\<lambda>off. rcell off s) off"
    using p s1 s2 by (simp_all add: t_def extended_clear_def after_clear_def raf_clear_def Let_def opt_clear_def)
  have "XAxiEthernet_ClearOptions opts s = Some (0, t)"
    using assms(1,2) d unfolding XAxiEthernet_ClearOptions_def x_def [symmetric] Let_def by (simp add: t_def s2_def s1_def)
  then show ?thesis
    using that t p by (auto simp: x_def d_def settled_def)
qed

text \<open>The encoding follows the options.\<close>

lemma and_or_mask: "((v OR m) AND k = 0) = (v AND k = 0 \<and> m AND k = (0 :: u32))"
  by (simp add: bit.conj_disj_distrib2 or_eq_0_iff)

lemma opt_bits: "opt_set d opt m v = put_bits (d AND opt \<noteq> 0) m v" "opt_clear d opt m v = drop_bits (d AND opt \<noteq> 0) m v"
  by (simp_all add: opt_set_def opt_clear_def put_bits_def drop_bits_def)

lemma bits_and [simp]:
  "m AND k = 0 \<Longrightarrow> put_bits c m v AND k = v AND k" "m AND k = 0 \<Longrightarrow> drop_bits c m v AND k = v AND k"
  "m AND k \<noteq> 0 \<Longrightarrow> (put_bits c m v AND k = 0) = (\<not> c \<and> v AND k = 0)"
  "NOT m AND k = 0 \<Longrightarrow> (drop_bits c m v AND k = 0) = (c \<or> v AND k = 0)"
proof -
  show "put_bits c m v AND k = v AND k" if "m AND k = 0"
    using that by (simp add: put_bits_def bit.conj_disj_distrib2)
  show "drop_bits c m v AND k = v AND k" if "m AND k = 0"
  proof -
    have "(v AND NOT m) AND k = v AND k"
      by (rule bit_word_eqI) (use that in \<open>auto simp: bit_simps bit_eq_iff\<close>)
    then show ?thesis
      by (simp add: drop_bits_def)
  qed
  show "(put_bits c m v AND k = 0) = (\<not> c \<and> v AND k = 0)" if "m AND k \<noteq> 0"
    using that by (auto simp: put_bits_def and_or_mask)
  show "(drop_bits c m v AND k = 0) = (c \<or> v AND k = 0)" if "NOT m AND k = 0"
    using that by (auto simp: drop_bits_def and.assoc)
qed

lemmas word_regs = opt_bits rcw1_set_def tc_set_def raf_set_def rcw1_clear_def tc_clear_def raf_clear_def

lemma encodes_set:
  assumes "encodes d r"
  shows "encodes (d OR opts) (after_set (d OR opts) opts r)"
  using assms
  unfolding encodes_def option_bits_def after_set_def
  by (simp add: word_regs Let_def and_or_mask) (intro conjI; blast)

lemma not_and_bit: "(NOT e AND 2 ^ n = 0) = (e AND 2 ^ n \<noteq> (0 :: u32))" if "n < 32"
  using that by (simp add: and_exp_eq_0_iff_not_bit bit_not_iff)

lemmas not_and_masks =
  not_and_bit [of 0, simplified] not_and_bit [of 1, simplified] not_and_bit [of 2, simplified] not_and_bit [of 3, simplified]
  not_and_bit [of 4, simplified] not_and_bit [of 5, simplified] not_and_bit [of 6, simplified] not_and_bit [of 7, simplified]
  not_and_bit [of 8, simplified] not_and_bit [of 9, simplified] not_and_bit [of 10, simplified] not_and_bit [of 11, simplified]
  not_and_bit [of 14, simplified] not_and_bit [of 15, simplified] not_and_bit [of 16, simplified] not_and_bit [of 17, simplified]

lemma encodes_clear:
  assumes "encodes d r" "\<And>k. d AND k = 0 \<Longrightarrow> e AND k = 0"
  shows "encodes e (after_clear (NOT e) r)"
proof -
  have mono: "(e AND k \<noteq> 0 \<and> d AND k \<noteq> 0) = (e AND k \<noteq> 0)" "(e AND k = 0 \<or> d AND k = 0) = (e AND k = 0)" for k
    using assms(2) by auto
  have "e AND 0xC00 = (e AND 0x400) OR (e AND 0x800)"
    by (simp add: bit.conj_disj_distrib [symmetric])
  then have mc: "(e AND 0x400 = 0 \<and> e AND 0x800 = 0) = (e AND 0xC00 = 0)"
    by (simp add: or_eq_0_iff)
  show ?thesis
    using assms(1)
    unfolding encodes_def option_bits_def after_clear_def
    by (simp add: word_regs Let_def and_or_mask mc not_and_masks mono)
qed

text \<open>Reset.\<close>

lemma poll_effect:
  "cells (snd (poll_loop n a c b)) = cells b" "plain b x \<Longrightarrow> plain (snd (poll_loop n a c b)) x"
  by (induction n arbitrary: b) (auto simp: split_beta Let_def)

lemma timeout_effect [simp]:
  "eth (snd (Xil_poll_timeout off c n s)) = eth s" "rcell x (snd (Xil_poll_timeout off c n s)) = rcell x s"
  "rplain x s \<Longrightarrow> rplain x (snd (Xil_poll_timeout off c n s))"
  by (simp_all add: Xil_poll_timeout_def split_beta Let_def rcell_def rplain_def eth_base_def poll_effect)

lemma settled_timeout: "settled s \<Longrightarrow> settled (snd (Xil_poll_timeout off c n s))"
  by (simp add: settled_def)

lemma receiver_off_effect: "eth (receiver_off s) = eth s" "settled s \<Longrightarrow> settled (receiver_off s)"
  by (auto simp: receiver_off_def Let_def split_beta settled_def)

lemma encodes_default: "encodes 0x3F8 (after_clear (NOT 0x3F8) (after_set 0x3F8 0x278 r))"
  unfolding encodes_def option_bits_def after_clear_def after_set_def
  by (simp add: word_regs Let_def and_or_mask)

lemma InitHw_effect:
  assumes "eth_ready s" "\<not> eth_started s" "settled s" "no_extended (EthConfig (eth s))" "EthOptions (eth s) = 0x3F8"
  obtains t where "InitHw s = Some t" "eth t = eth s" "settled t" "encodes 0x3F8 (\<lambda>off. rcell off t)"
proof -
  define s1 where "s1 = receiver_off s"
  have s1: "eth s1 = eth s" "settled s1"
    using assms(3) by (simp_all add: s1_def receiver_off_effect)
  then have p1: "eth_ready s1" "\<not> eth_started s1" "no_extended (EthConfig (eth s1))"
    using assms(1,2,4) by (simp_all add: eth_defs)
  obtain s2 where s2: "XAxiEthernet_SetOptions 0x278 s1 = Some (0, s2)" "eth s2 = eth s" "settled s2"
    "(\<lambda>off. rcell off s2) = after_set 0x3F8 0x278 (\<lambda>off. rcell off s1)"
    by (rule set_options_effect [OF p1(1,2) s1(2) p1(3), of "0x278"]) (use s1 assms(5) in auto)
  have p2: "eth_ready s2" "\<not> eth_started s2" "no_extended (EthConfig (eth s2))"
    using assms(1,2,4) s2(2) by (simp_all add: eth_defs)
  obtain s3 where s3: "XAxiEthernet_ClearOptions (NOT 0x3F8) s2 = Some (0, s3)" "eth s3 = eth s" "settled s3"
    "(\<lambda>off. rcell off s3) = after_clear (NOT 0x3F8) (\<lambda>off. rcell off s2)"
    by (rule clear_options_effect [OF p2(1,2) s2(3) p2(3), of "NOT 0x3F8"]) (use s2 assms(5) in auto)
  have "InitHw s = Some (XAxiEthernet_WriteReg 0x500 (29 OR 0x40) s3)"
    using s1 s2 s3 assms(1,5)
    by (simp add: InitHw_def Let_def s1_def [symmetric] XAxiEthernet_PhySetMdioDivisor_def eth_defs)
  moreover have "encodes 0x3F8 (\<lambda>off. rcell off (XAxiEthernet_WriteReg 0x500 (29 OR 0x40) s3))"
    using encodes_default [of "\<lambda>off. rcell off s1"] unfolding s3(4) [unfolded s2(4), symmetric] by (simp add: encodes_def option_bits_def)
  ultimately show ?thesis
    using that s3(2,3) by (simp add: settled_def)
qed

fun option_calls :: "(bool \<times> u32) list \<Rightarrow> eth_sys \<Rightarrow> eth_sys option" where
  "option_calls [] s = Some s"
| "option_calls ((on, opts) # cs) s = do {
     (st, s) \<leftarrow> (if on then XAxiEthernet_SetOptions opts s else XAxiEthernet_ClearOptions opts s);
     option_calls cs s}"

definition option_result :: "(bool \<times> u32) list \<Rightarrow> u32 \<Rightarrow> u32" where
  "option_result cs d = foldl (\<lambda>d (on, opts). if on then d OR opts else d AND NOT opts) d cs"

lemma option_calls_encode:
  assumes "eth_ready s" "\<not> eth_started s" "settled s" "no_extended (EthConfig (eth s))" "encodes (EthOptions (eth s)) (\<lambda>off. rcell off s)"
  shows "\<exists>t. option_calls cs s = Some t \<and> EthOptions (eth t) = option_result cs (EthOptions (eth s)) \<and>
    encodes (EthOptions (eth t)) (\<lambda>off. rcell off t)"
  using assms
proof (induction cs arbitrary: s)
  case Nil
  then show ?case
    by (simp add: option_result_def)
next
  case (Cons c cs)
  obtain on opts where c: "c = (on, opts)"
    by fastforce
  define d where "d = (if on then EthOptions (eth s) OR opts else EthOptions (eth s) AND NOT opts)"
  obtain t where t: "(if on then XAxiEthernet_SetOptions opts s else XAxiEthernet_ClearOptions opts s) = Some (0, t)"
    "eth t = (eth s)\<lparr>EthOptions := d\<rparr>" "settled t" "encodes d (\<lambda>off. rcell off t)"
  proof (cases on)
    case True
    obtain t where "XAxiEthernet_SetOptions opts s = Some (0, t)" "eth t = (eth s)\<lparr>EthOptions := EthOptions (eth s) OR opts\<rparr>" "settled t"
      "(\<lambda>off. rcell off t) = after_set (EthOptions (eth s) OR opts) opts (\<lambda>off. rcell off s)"
      by (rule set_options_effect [OF Cons.prems(1-4)])
    then show ?thesis
      using that [of t] True encodes_set [OF Cons.prems(5), of opts] by (simp add: d_def)
  next
    case False
    obtain t where "XAxiEthernet_ClearOptions opts s = Some (0, t)" "eth t = (eth s)\<lparr>EthOptions := EthOptions (eth s) AND NOT opts\<rparr>" "settled t"
      "(\<lambda>off. rcell off t) = after_clear (NOT (EthOptions (eth s) AND NOT opts)) (\<lambda>off. rcell off s)"
      by (rule clear_options_effect [OF Cons.prems(1-4)])
    moreover have "EthOptions (eth s) AND k = 0 \<Longrightarrow> (EthOptions (eth s) AND NOT opts) AND k = 0" for k
      by (metis and.assoc and.commute and_zero_eq)
    ultimately show ?thesis
      using that [of t] False encodes_clear [OF Cons.prems(5), of "EthOptions (eth s) AND NOT opts"] by (simp add: d_def)
  qed
  have "\<exists>u. option_calls cs t = Some u \<and> EthOptions (eth u) = option_result cs (EthOptions (eth t)) \<and> encodes (EthOptions (eth u)) (\<lambda>off. rcell off u)"
    using Cons.IH [of t] Cons.prems t by (simp add: eth_defs)
  then show ?case
    using t by (auto simp: c option_result_def d_def)
qed

text \<open>C26. After a reset, and then after any calls that set and clear options, on a controller without the extended functions, every
  option of the driver is what its bits in the control, flow control, filter and address filter registers say, and the
  calls succeed.  In particular a reset leaves the transmitter and the receiver enabled although the device is stopped.\<close>

theorem eth_options_encoded:
  assumes "XAxiEthernet_Reset s = Some t" "settled s" "no_extended (EthConfig (eth s))"
  shows "EthStarted (eth t) = 0 \<and> rcell 0x404 t AND 0x10000000 \<noteq> 0 \<and> rcell 0x408 t AND 0x10000000 \<noteq> 0 \<and>
    (\<exists>u. option_calls cs t = Some u \<and> EthOptions (eth u) = option_result cs 0x3F8 \<and> encodes (EthOptions (eth u)) (\<lambda>off. rcell off u))"
proof -
  define s1 where "s1 = snd (Xil_poll_timeout 0xC (\<lambda>v. v AND 0x80 \<noteq> 0) XAE_RST_DEFAULT_TIMEOUT_VAL s)"
  have s1: "eth s1 = eth s" "settled s1"
    using assms(2) by (simp_all add: s1_def settled_timeout)
  have r: "eth_ready s"
    using assms(1) by (auto simp: XAxiEthernet_Reset_def configASSERT_bind split: if_splits)
  obtain s2 where s2: "XAxiEthernet_Stop s1 = Some s2" "InitHw (s2\<lparr>eth := (eth s2)\<lparr>EthOptions := 0x3F8\<rparr>\<rparr>) = Some t"
    using assms(1) by (auto simp: XAxiEthernet_Reset_def s1_def configASSERT_bind split_beta Let_def split: if_splits bind_splits)
  have e2: "eth s2 = (eth s)\<lparr>EthStarted := 0\<rparr>" "settled s2"
  proof -
    have "settled (s\<lparr>eth := x\<rparr>) = settled s" if "EthConfig x = EthConfig (eth s)" for x s
      using that by (simp add: settled_def)
    then show "eth s2 = (eth s)\<lparr>EthStarted := 0\<rparr>" "settled s2"
      using s2(1) s1 receiver_off_effect [of "XAxiEthernet_WriteReg 0x14 0 s1"]
      by (auto simp: XAxiEthernet_Stop_def configASSERT_bind Let_def settled_def split: if_splits)
  qed
  define s3 where "s3 = s2\<lparr>eth := (eth s2)\<lparr>EthOptions := 0x3F8\<rparr>\<rparr>"
  have e3: "eth s3 = (eth s)\<lparr>EthStarted := 0, EthOptions := 0x3F8\<rparr>" "settled s3"
    using e2 by (simp_all add: s3_def settled_def)
  have p: "eth_ready s3" "\<not> eth_started s3" "no_extended (EthConfig (eth s3))" "EthOptions (eth s3) = 0x3F8"
    using r e3(1) assms(3) by (simp_all add: eth_defs)
  obtain t' where "InitHw s3 = Some t'" and t': "eth t' = eth s3" "settled t'" "encodes 0x3F8 (\<lambda>off. rcell off t')"
    by (rule InitHw_effect [OF p(1,2) e3(2) p(3,4)])
  then have tt: "t' = t"
    using s2(2) by (simp add: s3_def)
  have q: "eth_ready t" "\<not> eth_started t" "no_extended (EthConfig (eth t))" "EthOptions (eth t) = 0x3F8" "EthStarted (eth t) = 0"
    using t'(1) p e3(1) unfolding tt by (simp_all add: eth_defs)
  have "rcell 0x404 t AND 0x10000000 \<noteq> 0" "rcell 0x408 t AND 0x10000000 \<noteq> 0"
    using t'(3) unfolding tt by (simp_all add: encodes_def option_bits_def)
  then show ?thesis
    using option_calls_encode [OF q(1,2) t'(2)[unfolded tt] q(3), of cs] t'(3) q(4,5) unfolding tt by simp
qed

definition eth_demo :: eth_sys where
  "eth_demo = \<lparr>eth = \<lparr>EthConfig = \<lparr>EthDeviceId = 0, EthCfgBase = 0x62100000, TemacType = 2, TxCsum = 0, RxCsum = 0, PhyType = 4, TxVlanTran = 0,
       RxVlanTran = 0, TxVlanTag = 0, RxVlanTag = 0, TxVlanStrp = 0, RxVlanStrp = 0, ExtMcast = 0, EthStats = 1, Avb = 0,
       EnableSgmiiOverLvds = 1, Enable_1588 = 0, EthSpeed = 1000, NumTableEntries = 4, TemacIntr = 0, AxiDevType = 1,
       AxiDevBaseAddress = 0x62200000, AxiFifoIntr = 0xFF, AxiDmaRxIntr = 0, AxiDmaTxIntr = 0, AxiMcDmaChan_Cnt = 0,
       AxiMcDmaRxIntr = replicate 16 0xFF, AxiMcDmaTxIntr = replicate 16 0xFF\<rparr>, EthStarted = 0, EthReady = 0x11111111, EthOptions = 0, EthFlags = 0\<rparr>,
     ebus = \<lparr>cells = (\<lambda>a. 0x1880), feed = (\<lambda>a. []), events = []\<rparr>\<rparr>"

lemma eth_demo_simps: "eth_ready eth_demo" "\<not> eth_started eth_demo" "rplain off eth_demo" "rcell off eth_demo = 0x1880" "settled eth_demo"
  "no_extended (EthConfig (eth eth_demo))" "entry_ok 2 eth_demo" "EthStarted (eth eth_demo) = 0"
  by (simp_all add: eth_demo_def eth_defs rplain_def rcell_def settled_def plain_def no_extended_def)

lemma poll_hit: "n > 0 \<Longrightarrow> plain b a \<Longrightarrow> c (cells b a) \<Longrightarrow> fst (poll_loop n a c b)"
  by (cases n) (simp_all add: bus_read_plain)

lemma reset_returns:
  assumes "eth_ready s" "\<not> eth_started s" "EthStarted (eth s) = 0" "settled s" "no_extended (EthConfig (eth s))" "rplain 0xC s" "rcell 0xC s AND 0x80 \<noteq> 0"
  shows "\<exists>t. XAxiEthernet_Reset s = Some t"
proof -
  define r where "r = Xil_poll_timeout 0xC (\<lambda>v. v AND 0x80 \<noteq> 0) XAE_RST_DEFAULT_TIMEOUT_VAL s"
  have r: "fst r" "eth (snd r) = eth s" "settled (snd r)"
    using assms(4,6,7) settled_timeout [OF assms(4)]
    by (simp_all add: r_def) (simp add: Xil_poll_timeout_def split_beta poll_hit XAE_RST_DEFAULT_TIMEOUT_VAL_def rplain_def rcell_def)
  define u where "u = (snd r)\<lparr>eth := (eth s)\<lparr>EthOptions := 0x3F8\<rparr>\<rparr>"
  have u: "eth_ready u" "\<not> eth_started u" "settled u" "no_extended (EthConfig (eth u))" "EthOptions (eth u) = 0x3F8"
    using assms r by (simp_all add: u_def eth_defs settled_def)
  obtain t where "InitHw u = Some t"
    by (rule InitHw_effect [OF u])
  then show ?thesis
    using assms(1,3) r by (simp add: XAxiEthernet_Reset_def XAxiEthernet_Stop_def r_def [symmetric] split_beta u_def eth_ready_def)
qed

theorem eth_options_encoded_witness:
  "\<exists>t u. XAxiEthernet_Reset eth_demo = Some t \<and> rcell 0x404 t AND 0x10000000 \<noteq> 0 \<and> option_calls [(True, 2), (False, 0x100)] t = Some u \<and>
     EthOptions (eth u) = 0x2FA \<and> rcell 0x408 u AND 0x40000000 \<noteq> 0 \<and> rcell 0x404 u AND 0x10000000 = 0"
proof -
  obtain t where t: "XAxiEthernet_Reset eth_demo = Some t"
    using reset_returns [of eth_demo] by (auto simp: eth_demo_simps)
  note w = eth_options_encoded [OF t eth_demo_simps(5,6), of "[(True, 2), (False, 0x100)]"]
  obtain u where u: "option_calls [(True, 2), (False, 0x100)] t = Some u" "EthOptions (eth u) = option_result [(True, 2), (False, 0x100)] 0x3F8"
    "encodes (EthOptions (eth u)) (\<lambda>off. rcell off u)"
    using w by blast
  have "EthOptions (eth u) = 0x2FA"
    using u(2) by (simp add: option_result_def)
  moreover from this u(3) have "rcell 0x408 u AND 0x40000000 \<noteq> 0" "rcell 0x404 u AND 0x10000000 = 0"
    by (simp_all add: encodes_def option_bits_def)
  ultimately show ?thesis
    using t u(1) w by blast
qed

theorem eth_address_roundtrip_witness:
  "\<exists>t u. XAxiEthernet_SetMacAddress [0, 0x0A, 0x35, 1, 2, 3] eth_demo = Some (0, t) \<and> XAxiEthernet_GetMacAddress t = Some ([0, 0x0A, 0x35, 1, 2, 3], u)"
proof -
  have p: "\<forall>off\<in>{0, 0x20, 0x24, 0x400, 0x404, 0x700, 0x704, 0x708, 0x710, 0x714}. rplain off eth_demo"
    by (simp add: eth_demo_simps)
  have l: "length [0, 0x0A, 0x35, 1, 2, 3 :: u8] = 6"
    by simp
  show ?thesis
    using eth_address_roundtrip [OF l eth_demo_simps(1) p refl, of 2, unfolded if_not_P [OF eth_demo_simps(2)]]
    by (elim exE conjE) (rule exI, rule exI, rule conjI, assumption, assumption)
qed

end
