(* ===== verification/Eth_Tables.thy ===== *)
theory Eth_Tables
  imports Eth_Props
begin

section \<open>The tables of the Ethernet controller\<close>

text \<open>
  The VLAN settings are read back as they were written, the extended multicast table is a set of pairs of
  address bytes, and clearing a tag protocol identifier clears the wrong one.
\<close>

definition extended_on :: "eth_sys \<Rightarrow> bool" where
  "extended_on s \<longleftrightarrow> eth_ready s \<and> \<not> eth_started s \<and> rplain 0 s \<and> rcell 0 s AND 0x800 \<noteq> 0"

lemma extended_cap: "extended_on s \<Longrightarrow> fst (XAxiEthernet_IsExtFuncCap s)"
  "eth (snd (XAxiEthernet_IsExtFuncCap s)) = eth s" "rcell off (snd (XAxiEthernet_IsExtFuncCap s)) = rcell off s"
  "rplain off s \<Longrightarrow> rplain off (snd (XAxiEthernet_IsExtFuncCap s))"
  by (simp_all add: extended_on_def XAxiEthernet_IsExtFuncCap_def split_beta read_rplain)

declare extended_cap(2-4) [simp]

subsection \<open>VLAN settings\<close>

lemma small_take_bit: "unat w < 2 ^ n \<Longrightarrow> take_bit n w = w" for w :: "'a::len word"
  by (simp add: word_unat_eq_iff unsigned_take_bit_eq take_bit_nat_eq_self)

lemma field_roundtrip:
  fixes m v :: u32
  assumes "m \<le> 3" "n \<le> 9"
  shows "ucast (drop_bit n (((v AND NOT (push_bit n 3)) OR push_bit n m) AND push_bit n 3)) = (ucast m :: u8)"
proof -
  have three: "(3 :: u32) = mask 2"
    by (simp add: mask_eq_exp_minus_1)
  have "m = take_bit 2 m"
    using small_take_bit [of m 2] assms(1) by (simp add: word_le_nat_alt)
  then obtain a where a: "m = take_bit 2 a"
    by blast
  show ?thesis
    unfolding a three by (rule bit_word_eqI) (use assms(2) in \<open>auto simp: bit_simps\<close>)
qed

lemma vid_roundtrip:
  fixes vid :: u32 and strip tag :: u8
  assumes "vid \<le> 0xFFF" "strip \<le> 1" "tag \<le> 1"
  shows "drop_bit 2 ((push_bit 2 vid OR push_bit 1 (ucast strip)) OR ucast tag) = vid"
    "ucast (drop_bit 1 ((push_bit 2 vid OR push_bit 1 (ucast strip)) OR ucast tag) AND 1) = strip"
    "ucast (((push_bit 2 vid OR push_bit 1 (ucast strip)) OR ucast tag) AND 1) = tag"
proof -
  have "vid = take_bit 12 vid"
    using assms small_take_bit [of vid 12] by (simp add: word_le_nat_alt)
  then obtain a where a: "vid = take_bit 12 a"
    by metis
  have "strip = 0 \<or> strip = 1" "tag = 0 \<or> tag = 1"
    using assms by (auto simp: word_le_nat_alt word_unat_eq_iff)
  then show "drop_bit 2 ((push_bit 2 vid OR push_bit 1 (ucast strip)) OR ucast tag) = vid"
    "ucast (drop_bit 1 ((push_bit 2 vid OR push_bit 1 (ucast strip)) OR ucast tag) AND 1) = strip"
    "ucast (((push_bit 2 vid OR push_bit 1 (ucast strip)) OR ucast tag) AND 1) = tag"
    unfolding a by (auto intro!: bit_word_eqI simp: bit_simps bit_1_iff)
qed

lemma mode_roundtrip:
  assumes "extended_on s" "Dir = 1 \<or> Dir = 2" "valid Mode" "Mode \<le> 3" "tx \<le> 9" "rx \<le> 9"
  shows "\<exists>t u. set_mode valid tx rx Mode Dir s = Some (0, t) \<and> get_mode tx rx Dir t = Some (ucast Mode, u)"
  using assms field_roundtrip [of Mode tx "rcell 0 s"] field_roundtrip [of Mode rx "rcell 0 s"] extended_cap(1) [of s]
  by (auto simp: set_mode_def get_mode_def Let_def split_beta read_rplain extended_on_def eth_defs)

text \<open>C29. The VLAN settings of a controller in extended mode: an entry of the VLAN table, a tag mode, a strip mode and a tag
  that the driver accepts are read back as they were set, for either direction.\<close>

theorem eth_vlan_roundtrip:
  assumes "extended_on s" "Dir = 1 \<or> Dir = 2" "rplain (vid_place e Dir) s" "rplain 0x18 s" "rplain 0x1C s"
  shows "(e \<le> 0xFFF \<and> vid \<le> 0xFFF \<and> strip \<le> 1 \<and> tag \<le> 1 \<longrightarrow>
      (\<exists>t u. XAxiEthernet_SetVidTable e vid strip tag Dir s = Some (0, t) \<and> XAxiEthernet_GetVidTable e Dir t = Some ((vid, strip, tag), u))) \<and>
    (m \<le> 3 \<longrightarrow> (\<exists>t u. XAxiEthernet_SetVTagMode m Dir s = Some (0, t) \<and> XAxiEthernet_GetVTagMode Dir t = Some (ucast m, u))) \<and>
    (m \<in> {0, 1, 3} \<longrightarrow> (\<exists>t u. XAxiEthernet_SetVStripMode m Dir s = Some (0, t) \<and> XAxiEthernet_GetVStripMode Dir t = Some (ucast m, u))) \<and>
    (tpid_valid (drop_bit 16 v) \<longrightarrow> (\<exists>t u. XAxiEthernet_SetVTagValue v Dir s = Some (0, t) \<and> XAxiEthernet_GetVTagValue Dir t = Some (v, u)))"
proof (intro conjI impI)
  have o: "EthReady (eth s) = 0x11111111" "EthStarted (eth s) \<noteq> 0x22222222"
    using assms(1) by (simp_all add: extended_on_def eth_defs)
  note c = extended_cap(1) [OF assms(1)]
  show "\<exists>t u. XAxiEthernet_SetVidTable e vid strip tag Dir s = Some (0, t) \<and> XAxiEthernet_GetVidTable e Dir t = Some ((vid, strip, tag), u)"
    if "e \<le> 0xFFF \<and> vid \<le> 0xFFF \<and> strip \<le> 1 \<and> tag \<le> 1"
    using that assms(1,2,3) o c vid_roundtrip [of vid strip tag]
    by (auto simp: XAxiEthernet_SetVidTable_def XAxiEthernet_GetVidTable_def split_beta Let_def read_rplain eth_defs)
  show "\<exists>t u. XAxiEthernet_SetVTagMode m Dir s = Some (0, t) \<and> XAxiEthernet_GetVTagMode Dir t = Some (ucast m, u)" if "m \<le> 3"
    unfolding XAxiEthernet_SetVTagMode_def XAxiEthernet_GetVTagMode_def using assms(1,2) that by (intro mode_roundtrip) simp_all
  show "\<exists>t u. XAxiEthernet_SetVStripMode m Dir s = Some (0, t) \<and> XAxiEthernet_GetVStripMode Dir t = Some (ucast m, u)" if "m \<in> {0, 1, 3}"
    unfolding XAxiEthernet_SetVStripMode_def XAxiEthernet_GetVStripMode_def using assms(1,2) that by (intro mode_roundtrip) auto
  show "\<exists>t u. XAxiEthernet_SetVTagValue v Dir s = Some (0, t) \<and> XAxiEthernet_GetVTagValue Dir t = Some (v, u)" if "tpid_valid (drop_bit 16 v)"
    using that assms(1,2,4,5) o c
    by (auto simp: XAxiEthernet_SetVTagValue_def XAxiEthernet_GetVTagValue_def split_beta Let_def read_rplain eth_defs prod_eq_iff)
qed

theorem eth_vlan_roundtrip_witness:
  "\<exists>t u. XAxiEthernet_SetVidTable 5 100 1 0 2 eth_demo = Some (0, t) \<and> XAxiEthernet_GetVidTable 5 2 t = Some ((100, 1, 0), u)"
proof -
  have x: "extended_on eth_demo" "(2 :: int) = 1 \<or> (2 :: int) = 2"
    by (simp_all add: extended_on_def eth_demo_simps)
  have a: "(5 :: u32) \<le> 0xFFF \<and> (100 :: u32) \<le> 0xFFF \<and> (1 :: u8) \<le> 1 \<and> (0 :: u8) \<le> 1"
    by simp
  show ?thesis
    using eth_vlan_roundtrip [OF x eth_demo_simps(3) eth_demo_simps(3) eth_demo_simps(3), THEN conjunct1, THEN mp, OF a] .
qed

subsection \<open>Tag protocol identifiers\<close>

text \<open>C30. Setting a tag protocol identifier is read back and leaves its neighbour in the same register alone; but
  clearing an entry erases the neighbour and leaves the entry itself as it was.\<close>

theorem eth_clear_tpid_wrong:
  assumes "extended_on s" "e < 4" "rplain (tpid_offset e) s" "XAxiEthernet_GetTpid e s = Some (x, s1)" "XAxiEthernet_GetTpid (e XOR 1) s = Some (y, s2)"
  shows "(tpid_valid (ucast v) \<longrightarrow> (\<exists>t u u'. XAxiEthernet_SetTpid v e s = Some (0, t) \<and> XAxiEthernet_GetTpid e t = Some (v, u) \<and>
      XAxiEthernet_GetTpid (e XOR 1) t = Some (y, u'))) \<and>
    (\<exists>t u u'. XAxiEthernet_ClearTpid e s = Some (0, t) \<and> XAxiEthernet_GetTpid e t = Some (x, u) \<and> XAxiEthernet_GetTpid (e XOR 1) t = Some (0, u'))"
proof -
  have o: "EthReady (eth s) = 0x11111111" "EthStarted (eth s) \<noteq> 0x22222222"
    using assms(1) by (simp_all add: extended_on_def eth_defs)
  define r where "r = rcell (tpid_offset e) s"
  have lo: "(0xFFFF :: u32) = mask 16" "(0xFFFF0000 :: u32) = push_bit 16 (mask 16)"
    by (simp_all add: mask_eq_exp_minus_1 push_bit_eq_mult)
  have w: "ucast (drop_bit 16 ((r AND 0xFFFF) OR push_bit 16 (ucast v))) = v" "ucast (((r AND 0xFFFF) OR push_bit 16 (ucast v)) AND 0xFFFF) = (ucast (r AND 0xFFFF) :: u16)"
    "ucast (((r AND 0xFFFF0000) OR ucast v) AND 0xFFFF) = v" "ucast (drop_bit 16 ((r AND 0xFFFF0000) OR ucast v)) = (ucast (drop_bit 16 r) :: u16)"
    "ucast (drop_bit 16 (r AND 0xFFFF0000)) = (ucast (drop_bit 16 r) :: u16)" "ucast (drop_bit 16 (r AND 0xFFFF)) = (0 :: u16)"
    unfolding lo by (rule bit_word_eqI; auto simp: bit_simps dest: bit_imp_le_length)+
  have "e = 0 \<or> e = 1 \<or> e = 2 \<or> e = 3"
    using assms(2) by (auto simp: word_less_nat_alt word_unat_eq_iff)
  then show ?thesis
    using assms(1,3,4,5) o extended_cap(1) [OF assms(1)] w
    by (elim disjE) (auto simp: XAxiEthernet_GetTpid_def XAxiEthernet_SetTpid_def XAxiEthernet_ClearTpid_def tpid_offset_def split_beta Let_def
        read_rplain eth_defs r_def and.assoc)
qed

theorem eth_clear_tpid_wrong_witness:
  "\<exists>t u u'. XAxiEthernet_ClearTpid 0 eth_demo = Some (0, t) \<and> XAxiEthernet_GetTpid 0 t = Some (0x1880, u) \<and> XAxiEthernet_GetTpid 1 t = Some (0, u')"
proof -
  have x: "extended_on eth_demo" "(0 :: u8) < 4"
    by (simp_all add: extended_on_def eth_demo_simps)
  have g: "XAxiEthernet_GetTpid 0 eth_demo = Some (0x1880, snd (XAxiEthernet_ReadReg 0x28 eth_demo))"
    "XAxiEthernet_GetTpid (0 XOR 1) eth_demo = Some (0, snd (XAxiEthernet_ReadReg 0x28 eth_demo))"
    by (simp_all add: XAxiEthernet_GetTpid_def eth_demo_simps split_beta tpid_offset_def read_rplain drop_bit_eq_div)
  show ?thesis
    using eth_clear_tpid_wrong [OF x eth_demo_simps(3) g, THEN conjunct2] by simp
qed

subsection \<open>The extended multicast table\<close>

text \<open>
  The groups of the table, by the two bytes of an address that select an entry.  An IP multicast
  address starts with the bytes 1, 0, 0x5E and a byte below 0x80.
\<close>

definition group_reg :: "u8 \<Rightarrow> u8 \<Rightarrow> addr" where
  "group_reg x y = 0x20000 + 4 * (256 * ucast x + ucast y)"

definition groups :: "eth_sys \<Rightarrow> (u8 \<times> u8) set" where
  "groups s = {(x, y). x < 0x80 \<and> (ucast (rcell (group_reg x y) s) :: u8) \<noteq> 0}"

fun group_of :: "u8 list \<Rightarrow> (u8 \<times> u8) option" where
  "group_of (a0 # a1 # a2 # x # y # rest) = (if a0 = 1 \<and> a1 = 0 \<and> a2 = 0x5E \<and> x < 0x80 then Some (x, y) else None)"
| "group_of _ = None"

text \<open>The calls, with an address each, and their results: a status, or the answer to a question.\<close>

datatype group_call = Add_group "u8 list" | Clear_group "u8 list" | Ask_group "u8 list"

datatype group_result = Status int | Answer bool

fun call_addr :: "group_call \<Rightarrow> u8 list" where
  "call_addr (Add_group a) = a"
| "call_addr (Clear_group a) = a"
| "call_addr (Ask_group a) = a"

fun do_group :: "group_call \<Rightarrow> eth_sys \<Rightarrow> (group_result \<times> eth_sys) option" where
  "do_group (Add_group a) s = map_option (apfst Status) (XAxiEthernet_AddExtMulticastGroup a s)"
| "do_group (Clear_group a) s = map_option (apfst Status) (XAxiEthernet_ClearExtMulticastGroup a s)"
| "do_group (Ask_group a) s = map_option (apfst Answer) (XAxiEthernet_GetExtMulticastGroup a s)"

fun do_groups :: "group_call list \<Rightarrow> eth_sys \<Rightarrow> (group_result list \<times> eth_sys) option" where
  "do_groups [] s = Some ([], s)"
| "do_groups (c # cs) s = do {
     (r, s) \<leftarrow> do_group c s;
     (rs, s) \<leftarrow> do_groups cs s;
     Some (r # rs, s)}"

text \<open>The same calls on a set of groups.\<close>

fun set_call :: "group_call \<Rightarrow> (u8 \<times> u8) set \<Rightarrow> group_result \<times> (u8 \<times> u8) set" where
  "set_call (Add_group a) G = (case group_of a of None \<Rightarrow> (Status 15, G) | Some g \<Rightarrow> (Status 0, insert g G))"
| "set_call (Clear_group a) G = (case group_of a of None \<Rightarrow> (Status 15, G) | Some g \<Rightarrow> (Status 0, G - {g}))"
| "set_call (Ask_group a) G = (case group_of a of None \<Rightarrow> (Answer False, G) | Some g \<Rightarrow> (Answer (g \<in> G), G))"

fun set_calls :: "group_call list \<Rightarrow> (u8 \<times> u8) set \<Rightarrow> group_result list \<times> (u8 \<times> u8) set" where
  "set_calls [] G = ([], G)"
| "set_calls (c # cs) G = (let (r, G) = set_call c G; (rs, G) = set_calls cs G in (r # rs, G))"

text \<open>The registers that the calls use, in a state in which the table is in use.\<close>

definition table_on :: "eth_sys \<Rightarrow> bool" where
  "table_on s \<longleftrightarrow> extended_on s \<and> rcell 0 s AND 0x1000 \<noteq> 0 \<and> (\<forall>x y. rplain (group_reg x y) s)"

lemma group_place_reg: "group_place a = group_reg (a ! 3) (a ! 4)"
proof -
  have "push_bit 8 (ucast (a ! 3)) OR ucast (a ! 4) = (push_bit 8 (ucast (a ! 3)) + ucast (a ! 4) :: u32)"
    by (rule disjunctive_add [symmetric]) (auto simp: bit_simps dest: bit_imp_le_length)
  then show ?thesis
    by (simp add: group_place_def group_reg_def push_bit_eq_mult)
qed

lemma unat_group_reg: "unat (group_reg x y) = 0x20000 + 4 * (256 * unat x + unat y)"
proof -
  have "unat x < 256" "unat y < 256"
    using unsigned_less [of x, where ?'a = nat] unsigned_less [of y, where ?'a = nat] by simp_all
  then show ?thesis
    by (simp add: group_reg_def unat_word_ariths unsigned_ucast_eq take_bit_nat_eq_self)
qed

lemma group_reg_inj: "group_reg x y = group_reg x' y' \<longleftrightarrow> x = x' \<and> y = y'"
proof
  assume "group_reg x y = group_reg x' y'"
  then have "256 * unat x + unat y = 256 * unat x' + unat y'"
    using unat_group_reg [of x y] unat_group_reg [of x' y'] by simp
  moreover have "unat y < 256" "unat y' < 256"
    using unsigned_less [of y, where ?'a = nat] unsigned_less [of y', where ?'a = nat] by simp_all
  ultimately have "unat x = unat x' \<and> unat y = unat y'"
    using div_mult_self4 [of 256 "unat y" "unat x"] div_mult_self4 [of 256 "unat y'" "unat x'"]
      mod_mult_self4 [of 256 "unat x" "unat y"] mod_mult_self4 [of 256 "unat x'" "unat y'"] by (simp add: mult.commute)
  then show "x = x' \<and> y = y'"
    by (simp add: word_unat_eq_iff)
qed simp

lemma group_reg_not_0 [simp]: "group_reg x y \<noteq> 0" "0 \<noteq> group_reg x y"
  using unat_group_reg [of x y] by auto

lemma top_bit_clear: "x AND 0x80 = 0 \<longleftrightarrow> x < (0x80 :: u8)"
proof -
  have "unat x < 256"
    using unsigned_less [of x, where ?'a = nat] by simp
  then have "unat x div 128 = (if unat x < 128 then 0 else 1)"
    by (auto intro: div_nat_eqI)
  then have "odd (unat x div 128) \<longleftrightarrow> 128 \<le> unat x"
    by simp
  moreover have "bit x 7 \<longleftrightarrow> odd (unat x div 128)"
    using bit_iff_odd [of "unat x" 7] by (simp add: bit_unsigned_iff)
  moreover have "x AND 0x80 = 0 \<longleftrightarrow> \<not> bit x 7"
    using and_exp_eq_0_iff_not_bit [of x 7] by simp
  ultimately show ?thesis
    by (simp add: word_less_nat_alt not_le [symmetric])
qed

lemma group_ofD:
  assumes "length a = 6"
  shows "group_of a = (if group_valid a then Some (a ! 3, a ! 4) else None)"
proof -
  obtain a0 a1 a2 a3 a4 a5 where a: "a = [a0, a1, a2, a3, a4, a5]"
    using assms by (auto simp: numeral_eq_Suc length_Suc_conv)
  show ?thesis
    by (simp add: a group_valid_def top_bit_clear)
qed

lemma groups_write:
  assumes "x < 0x80"
  shows "groups (XAxiEthernet_WriteReg (group_reg x y) 1 s) = insert (x, y) (groups s)"
    "groups (XAxiEthernet_WriteReg (group_reg x y) 0 s) = groups s - {(x, y)}"
  using assms by (auto simp: groups_def group_reg_inj split: if_splits)

lemma table_on_frame:
  assumes "table_on s"
  shows "table_on (snd (XAxiEthernet_ReadReg off s))" and "table_on (XAxiEthernet_WriteReg (group_reg x y) v s)"
    and "groups (snd (XAxiEthernet_ReadReg off s)) = groups s"
  using assms by (auto simp: table_on_def extended_on_def eth_defs groups_def)

lemma table_on_checks:
  assumes "table_on s"
  obtains t where "group_write v a s = Some (if group_valid a then (0, XAxiEthernet_WriteReg (group_place a) v t) else (15, t))"
    "table_on t" "groups t = groups s"
proof -
  define t where "t = snd (XAxiEthernet_IsExtMcastEnable (snd (XAxiEthernet_IsExtFuncCap s)))"
  have e: "extended_on s" "rcell 0 s AND 0x1000 \<noteq> 0" "eth_ready s" "\<not> eth_started s" "rplain 0 s"
    using assms by (simp_all add: table_on_def extended_on_def)
  have "table_on t" "groups t = groups s"
    using assms table_on_frame by (simp_all add: t_def XAxiEthernet_IsExtMcastEnable_def XAxiEthernet_IsExtFuncCap_def split_beta)
  moreover have "fst (XAxiEthernet_IsExtMcastEnable (snd (XAxiEthernet_IsExtFuncCap s)))"
    using e(2,5) by (simp add: XAxiEthernet_IsExtMcastEnable_def split_beta read_rplain)
  ultimately show ?thesis
    using extended_cap(1) [OF e(1)] e(3,4) by (intro that [of t]) (simp_all add: group_write_def split_beta t_def)
qed

lemma do_group_refines:
  assumes "table_on s" "length (call_addr c) = 6"
  shows "\<exists>t. do_group c s = Some (fst (set_call c (groups s)), t) \<and> groups t = snd (set_call c (groups s)) \<and> table_on t"
proof (cases c)
  case (Add_group a)
  obtain t where t: "group_write 1 a s = Some (if group_valid a then (0, XAxiEthernet_WriteReg (group_place a) 1 t) else (15, t))"
    "table_on t" "groups t = groups s"
    using table_on_checks [OF assms(1)] .
  show ?thesis
    using t(2,3) assms(2) table_on_frame(2) [OF t(2)] groups_write [of "a ! 3" "a ! 4" t]
    by (auto simp: Add_group XAxiEthernet_AddExtMulticastGroup_def t(1) group_ofD group_place_reg group_valid_def top_bit_clear)
next
  case (Clear_group a)
  obtain t where t: "group_write 0 a s = Some (if group_valid a then (0, XAxiEthernet_WriteReg (group_place a) 0 t) else (15, t))"
    "table_on t" "groups t = groups s"
    using table_on_checks [OF assms(1)] .
  show ?thesis
    using t(2,3) assms(2) table_on_frame(2) [OF t(2)] groups_write [of "a ! 3" "a ! 4" t]
    by (auto simp: Clear_group XAxiEthernet_ClearExtMulticastGroup_def t(1) group_ofD group_place_reg group_valid_def top_bit_clear)
next
  case (Ask_group a)
  have "eth_ready s" "rplain (group_reg (a ! 3) (a ! 4)) s"
    using assms(1) by (simp_all add: table_on_def extended_on_def)
  moreover have "(a ! 3, a ! 4) \<in> groups s \<longleftrightarrow> (ucast (rcell (group_reg (a ! 3) (a ! 4)) s) :: u8) \<noteq> 0" if "group_valid a"
    using that by (simp add: groups_def group_valid_def top_bit_clear)
  ultimately show ?thesis
    using assms table_on_frame [OF assms(1)]
    by (auto simp: Ask_group XAxiEthernet_GetExtMulticastGroup_def group_ofD group_place_reg split_beta read_rplain)
qed

text \<open>C27. In extended mode the multicast table is a set, for every sequence of calls that add a group, remove one or ask for
  one: with any addresses of six bytes, each call returns what the call on the set returns, and the table holds the set
  afterwards.  An address that starts with 1, 0, 0x5E and a byte below 0x80 stands for its bytes 3 and 4, so that addresses
  that differ in their last byte are the same group; any other address is refused.  The group of \<open>x\<close> and \<open>y\<close> is the register
  at 0x20000 + 4 (256 x + y).\<close>

theorem eth_groups_refine_set:
  assumes "extended_on s" "rcell 0 s AND 0x1000 \<noteq> 0" "\<forall>x y. rplain (group_reg x y) s" "\<forall>c \<in> set cs. length (call_addr c) = 6"
  shows "\<exists>t. do_groups cs s = Some (fst (set_calls cs (groups s)), t) \<and> groups t = snd (set_calls cs (groups s))"
proof -
  have "table_on s"
    using assms(1-3) by (simp add: table_on_def)
  then show ?thesis
    using assms(4)
  proof (induction cs arbitrary: s)
    case (Cons c cs)
    obtain u where u: "do_group c s = Some (fst (set_call c (groups s)), u)" "groups u = snd (set_call c (groups s))" "table_on u"
      using do_group_refines [OF Cons.prems(1), of c] Cons.prems(2) by auto
    obtain t where "do_groups cs u = Some (fst (set_calls cs (groups u)), t)" "groups t = snd (set_calls cs (groups u))"
      using Cons.IH [OF u(3)] Cons.prems(2) by auto
    then show ?case
      using u(1,2) by (simp add: split_beta Let_def)
  qed simp
qed

theorem eth_groups_refine_set_witness:
  "\<exists>t. do_groups [Clear_group [1, 0, 0x5E, 0x7F, 2, 9], Ask_group [1, 0, 0x5E, 0x7F, 2, 1], Add_group [1, 0, 0x5E, 0x7F, 2, 3],
       Ask_group [1, 0, 0x5E, 0x7F, 2, 9], Add_group [1, 0, 0x5E, 0x80, 2, 3]] eth_demo =
     Some ([Status 0, Answer False, Status 0, Answer True, Status 15], t)"
proof -
  have x: "extended_on eth_demo" "rcell 0 eth_demo AND 0x1000 \<noteq> 0" "\<forall>x y. rplain (group_reg x y) eth_demo"
    by (simp_all add: extended_on_def eth_demo_simps)
  show ?thesis
    using eth_groups_refine_set [OF x, of "[Clear_group [1, 0, 0x5E, 0x7F, 2, 9], Ask_group [1, 0, 0x5E, 0x7F, 2, 1],
      Add_group [1, 0, 0x5E, 0x7F, 2, 3], Ask_group [1, 0, 0x5E, 0x7F, 2, 9], Add_group [1, 0, 0x5E, 0x80, 2, 3]]"]
    by auto
qed

end
