(* ===== verification/Xiic.thy ===== *)
theory Xiic
  imports Mmio
begin

section \<open>The I2C controller driver (bsp/xilinx/iic)\<close>

text \<open>
  The Xilinx driver of the I2C controller: the instance (\<^verbatim>\<open>xiic.c\<close>), transfers as master
  (\<^verbatim>\<open>xiic_master.c\<close>), as slave (\<^verbatim>\<open>xiic_slave.c\<close>), with dynamic control (\<^verbatim>\<open>xiic_dyn_master.c\<close>), several
  masters (\<^verbatim>\<open>xiic_multi_master.c\<close>), the interrupt handler (\<^verbatim>\<open>xiic_intr.c\<close>), options, statistics and the
  self-test.

  The state is the instance, the bus with the registers, the memory that holds the buffers, the
  state \<open>xup\<close> of the application, which its handlers change, and the global function pointers of \<^verbatim>\<open>xiic_intr.c\<close>.
  Each of these points to a function that fails an assertion until the part that needs it is
  included.  A failed assertion is \<open>None\<close>.
\<close>

subsection \<open>Instance and state\<close>

record XIicStats =
  ArbitrationLost :: u8
  RepeatedStarts :: u8
  BusBusy :: u8
  RecvBytes :: u8
  RecvInterrupts :: u8
  SendBytes :: u8
  SendInterrupts :: u8
  TxErrors :: u8
  IicInterrupts :: u8

record XIic_Config =
  IicDeviceId :: u16
  IicCfgBase :: addr
  CfgHas10BitAddr :: bool
  CfgGpOutWidth :: u8

record 'u XIic =
  IicStats :: XIicStats
  IicBase :: addr
  Has10BitAddr :: bool
  IicReady :: u32
  IicStarted :: u32
  AddrOfSlave :: u32
  IicOptions :: u32
  SendBufferPtr :: addr
  RecvBufferPtr :: addr
  TxAddrMode :: u8
  SendByteCount :: int
  RecvByteCount :: int
  BNBOnly :: bool
  GpOutWidth :: u8
  StatusHandlerF :: "int \<Rightarrow> 'u \<Rightarrow> 'u option"
  RecvHandlerF :: "int \<Rightarrow> 'u \<Rightarrow> 'u option"
  SendHandlerF :: "int \<Rightarrow> 'u \<Rightarrow> 'u option"
  IsDynamic :: bool
  IsSlaveSetAckOff :: bool

datatype master_funcs = NoMaster | MasterData | DynMasterData

record 'u xiic_sys =
  xi :: "'u XIic"
  xbus :: bus
  xmem :: "addr \<Rightarrow> u8"
  xup :: 'u
  MasterFuncPtr :: master_funcs
  SlaveIncluded :: bool
  MultiIncluded :: bool

abbreviation (input) XIIC_DGIER_OFFSET :: addr where "XIIC_DGIER_OFFSET \<equiv> 0x1C"
abbreviation (input) XIIC_IISR_OFFSET :: addr where "XIIC_IISR_OFFSET \<equiv> 0x20"
abbreviation (input) XIIC_IIER_OFFSET :: addr where "XIIC_IIER_OFFSET \<equiv> 0x28"
abbreviation (input) XIIC_RESETR_OFFSET :: addr where "XIIC_RESETR_OFFSET \<equiv> 0x40"
abbreviation (input) XIIC_CR_REG_OFFSET :: addr where "XIIC_CR_REG_OFFSET \<equiv> 0x100"
abbreviation (input) XIIC_SR_REG_OFFSET :: addr where "XIIC_SR_REG_OFFSET \<equiv> 0x104"
abbreviation (input) XIIC_DTR_REG_OFFSET :: addr where "XIIC_DTR_REG_OFFSET \<equiv> 0x108"
abbreviation (input) XIIC_DRR_REG_OFFSET :: addr where "XIIC_DRR_REG_OFFSET \<equiv> 0x10C"
abbreviation (input) XIIC_ADR_REG_OFFSET :: addr where "XIIC_ADR_REG_OFFSET \<equiv> 0x110"
abbreviation (input) XIIC_TFO_REG_OFFSET :: addr where "XIIC_TFO_REG_OFFSET \<equiv> 0x114"
abbreviation (input) XIIC_RFO_REG_OFFSET :: addr where "XIIC_RFO_REG_OFFSET \<equiv> 0x118"
abbreviation (input) XIIC_TBA_REG_OFFSET :: addr where "XIIC_TBA_REG_OFFSET \<equiv> 0x11C"
abbreviation (input) XIIC_RFD_REG_OFFSET :: addr where "XIIC_RFD_REG_OFFSET \<equiv> 0x120"
abbreviation (input) XIIC_GPO_REG_OFFSET :: addr where "XIIC_GPO_REG_OFFSET \<equiv> 0x124"
abbreviation (input) XIIC_GINTR_ENABLE_MASK :: u32 where "XIIC_GINTR_ENABLE_MASK \<equiv> 0x80000000"
abbreviation (input) XIIC_INTR_ARB_LOST_MASK :: u32 where "XIIC_INTR_ARB_LOST_MASK \<equiv> 0x1"
abbreviation (input) XIIC_INTR_TX_ERROR_MASK :: u32 where "XIIC_INTR_TX_ERROR_MASK \<equiv> 0x2"
abbreviation (input) XIIC_INTR_TX_EMPTY_MASK :: u32 where "XIIC_INTR_TX_EMPTY_MASK \<equiv> 0x4"
abbreviation (input) XIIC_INTR_RX_FULL_MASK :: u32 where "XIIC_INTR_RX_FULL_MASK \<equiv> 0x8"
abbreviation (input) XIIC_INTR_BNB_MASK :: u32 where "XIIC_INTR_BNB_MASK \<equiv> 0x10"
abbreviation (input) XIIC_INTR_AAS_MASK :: u32 where "XIIC_INTR_AAS_MASK \<equiv> 0x20"
abbreviation (input) XIIC_INTR_NAAS_MASK :: u32 where "XIIC_INTR_NAAS_MASK \<equiv> 0x40"
abbreviation (input) XIIC_INTR_TX_HALF_MASK :: u32 where "XIIC_INTR_TX_HALF_MASK \<equiv> 0x80"
abbreviation (input) XIIC_TX_INTERRUPTS :: u32 where "XIIC_TX_INTERRUPTS \<equiv> 0x86"
abbreviation (input) XIIC_TX_RX_INTERRUPTS :: u32 where "XIIC_TX_RX_INTERRUPTS \<equiv> 0x8E"
abbreviation (input) XIIC_RESET_MASK :: u32 where "XIIC_RESET_MASK \<equiv> 0xA"
abbreviation (input) XIIC_CR_ENABLE_DEVICE_MASK :: u32 where "XIIC_CR_ENABLE_DEVICE_MASK \<equiv> 0x1"
abbreviation (input) XIIC_CR_TX_FIFO_RESET_MASK :: u32 where "XIIC_CR_TX_FIFO_RESET_MASK \<equiv> 0x2"
abbreviation (input) XIIC_CR_MSMS_MASK :: u32 where "XIIC_CR_MSMS_MASK \<equiv> 0x4"
abbreviation (input) XIIC_CR_DIR_IS_TX_MASK :: u32 where "XIIC_CR_DIR_IS_TX_MASK \<equiv> 0x8"
abbreviation (input) XIIC_CR_NO_ACK_MASK :: u32 where "XIIC_CR_NO_ACK_MASK \<equiv> 0x10"
abbreviation (input) XIIC_CR_REPEATED_START_MASK :: u32 where "XIIC_CR_REPEATED_START_MASK \<equiv> 0x20"
abbreviation (input) XIIC_CR_GENERAL_CALL_MASK :: u32 where "XIIC_CR_GENERAL_CALL_MASK \<equiv> 0x40"
abbreviation (input) XIIC_SR_GEN_CALL_MASK :: u32 where "XIIC_SR_GEN_CALL_MASK \<equiv> 0x1"
abbreviation (input) XIIC_SR_ADDR_AS_SLAVE_MASK :: u32 where "XIIC_SR_ADDR_AS_SLAVE_MASK \<equiv> 0x2"
abbreviation (input) XIIC_SR_BUS_BUSY_MASK :: u32 where "XIIC_SR_BUS_BUSY_MASK \<equiv> 0x4"
abbreviation (input) XIIC_SR_MSTR_RDING_SLAVE_MASK :: u32 where "XIIC_SR_MSTR_RDING_SLAVE_MASK \<equiv> 0x8"
abbreviation (input) XIIC_SR_RX_FIFO_EMPTY_MASK :: u32 where "XIIC_SR_RX_FIFO_EMPTY_MASK \<equiv> 0x40"
abbreviation (input) XIIC_SR_TX_FIFO_EMPTY_MASK :: u32 where "XIIC_SR_TX_FIFO_EMPTY_MASK \<equiv> 0x80"
abbreviation (input) XIIC_TX_DYN_START_MASK :: u32 where "XIIC_TX_DYN_START_MASK \<equiv> 0x100"
abbreviation (input) XIIC_TX_DYN_STOP_MASK :: u32 where "XIIC_TX_DYN_STOP_MASK \<equiv> 0x200"
abbreviation (input) IIC_TX_FIFO_DEPTH :: int where "IIC_TX_FIFO_DEPTH \<equiv> 16"
abbreviation (input) IIC_RX_FIFO_DEPTH :: int where "IIC_RX_FIFO_DEPTH \<equiv> 16"
abbreviation (input) XIIC_TX_ADDR_SENT :: u8 where "XIIC_TX_ADDR_SENT \<equiv> 0"
abbreviation (input) XIIC_TX_ADDR_MSTR_RECV_MASK :: u8 where "XIIC_TX_ADDR_MSTR_RECV_MASK \<equiv> 2"
abbreviation (input) XIIC_READ_OPERATION :: u8 where "XIIC_READ_OPERATION \<equiv> 1"
abbreviation (input) XIIC_WRITE_OPERATION :: u8 where "XIIC_WRITE_OPERATION \<equiv> 0"
abbreviation (input) XII_GENERAL_CALL_OPTION :: u32 where "XII_GENERAL_CALL_OPTION \<equiv> 1"
abbreviation (input) XII_REPEATED_START_OPTION :: u32 where "XII_REPEATED_START_OPTION \<equiv> 2"
abbreviation (input) XII_SEND_10_BIT_OPTION :: u32 where "XII_SEND_10_BIT_OPTION \<equiv> 4"
abbreviation (input) XII_BUS_NOT_BUSY_EVENT :: int where "XII_BUS_NOT_BUSY_EVENT \<equiv> 1"
abbreviation (input) XII_ARB_LOST_EVENT :: int where "XII_ARB_LOST_EVENT \<equiv> 2"
abbreviation (input) XII_SLAVE_NO_ACK_EVENT :: int where "XII_SLAVE_NO_ACK_EVENT \<equiv> 4"
abbreviation (input) XST_IIC_BUS_BUSY :: int where "XST_IIC_BUS_BUSY \<equiv> 1077"
abbreviation (input) XST_IIC_GENERAL_CALL_ADDRESS :: int where "XST_IIC_GENERAL_CALL_ADDRESS \<equiv> 1078"
abbreviation (input) XST_IIC_NOT_SLAVE :: int where "XST_IIC_NOT_SLAVE \<equiv> 1088"
abbreviation (input) IIC_COMPONENT_IS_READY :: u32 where "IIC_COMPONENT_IS_READY \<equiv> 0x11111111"
abbreviation (input) IIC_COMPONENT_IS_STARTED :: u32 where "IIC_COMPONENT_IS_STARTED \<equiv> 0x22222222"

subsection \<open>Register access\<close>

definition XIic_ReadReg :: "addr \<Rightarrow> 'u xiic_sys \<Rightarrow> u32 \<times> 'u xiic_sys" where
  "XIic_ReadReg off s = (let (v, b) = bus_read W32 (IicBase (xi s) + off) (xbus s) in (v, s\<lparr>xbus := b\<rparr>))"

definition XIic_WriteReg :: "addr \<Rightarrow> u32 \<Rightarrow> 'u xiic_sys \<Rightarrow> 'u xiic_sys" where
  "XIic_WriteReg off v s = s\<lparr>xbus := bus_write W32 (IicBase (xi s) + off) v (xbus s)\<rparr>"

definition XIic_IntrGlobalDisable :: "'u xiic_sys \<Rightarrow> 'u xiic_sys" where
  "XIic_IntrGlobalDisable s = XIic_WriteReg XIIC_DGIER_OFFSET 0 s"

definition XIic_IntrGlobalEnable :: "'u xiic_sys \<Rightarrow> 'u xiic_sys" where
  "XIic_IntrGlobalEnable s = XIic_WriteReg XIIC_DGIER_OFFSET XIIC_GINTR_ENABLE_MASK s"

definition XIic_IsIntrGlobalEnabled :: "'u xiic_sys \<Rightarrow> bool \<times> 'u xiic_sys" where
  "XIic_IsIntrGlobalEnabled s = (let (v, s) = XIic_ReadReg XIIC_DGIER_OFFSET s in (v = XIIC_GINTR_ENABLE_MASK, s))"

definition XIic_DisableIntr :: "u32 \<Rightarrow> 'u xiic_sys \<Rightarrow> 'u xiic_sys" where
  "XIic_DisableIntr m s = (let (v, s) = XIic_ReadReg XIIC_IIER_OFFSET s in XIic_WriteReg XIIC_IIER_OFFSET (v AND NOT m) s)"

definition XIic_EnableIntr :: "u32 \<Rightarrow> 'u xiic_sys \<Rightarrow> 'u xiic_sys" where
  "XIic_EnableIntr m s = (let (v, s) = XIic_ReadReg XIIC_IIER_OFFSET s in XIic_WriteReg XIIC_IIER_OFFSET (v OR m) s)"

definition XIic_ClearIntr :: "u32 \<Rightarrow> 'u xiic_sys \<Rightarrow> 'u xiic_sys" where
  "XIic_ClearIntr m s = (let (v, s) = XIic_ReadReg XIIC_IISR_OFFSET s in XIic_WriteReg XIIC_IISR_OFFSET (v AND m) s)"

definition XIic_ClearEnableIntr :: "u32 \<Rightarrow> 'u xiic_sys \<Rightarrow> 'u xiic_sys" where
  "XIic_ClearEnableIntr m s =
     (let (v, s) = XIic_ReadReg XIIC_IISR_OFFSET s;
          s = XIic_WriteReg XIIC_IISR_OFFSET (v AND m) s;
          (v, s) = XIic_ReadReg XIIC_IIER_OFFSET s
      in XIic_WriteReg XIIC_IIER_OFFSET (v OR m) s)"

text \<open>The address byte on the bus: seven bits, or the two bytes of a ten-bit address.\<close>

definition addr7 :: "u32 \<Rightarrow> u8 \<Rightarrow> u8" where
  "addr7 SlaveAddress Operation = (ucast (push_bit 1 SlaveAddress) AND 0xFE) OR Operation"

definition XIic_Send7BitAddr :: "u32 \<Rightarrow> u8 \<Rightarrow> 'u xiic_sys \<Rightarrow> 'u xiic_sys" where
  "XIic_Send7BitAddr SlaveAddress Operation s = XIic_WriteReg XIIC_DTR_REG_OFFSET (ucast (addr7 SlaveAddress Operation)) s"

definition XIic_Send10BitAddrByte1 :: "u32 \<Rightarrow> u8 \<Rightarrow> 'u xiic_sys \<Rightarrow> 'u xiic_sys" where
  "XIic_Send10BitAddrByte1 SlaveAddress Operation s =
     (let LocalAddr = (ucast (drop_bit 7 SlaveAddress) :: u8);
          LocalAddr = (LocalAddr AND 0xF6) OR 0xF0 OR Operation
      in XIic_WriteReg XIIC_DTR_REG_OFFSET (ucast LocalAddr) s)"

definition XIic_Send10BitAddrByte2 :: "u32 \<Rightarrow> 'u xiic_sys \<Rightarrow> 'u xiic_sys" where
  "XIic_Send10BitAddrByte2 SlaveAddress s = XIic_WriteReg XIIC_DTR_REG_OFFSET SlaveAddress s"

definition XIic_DynSend7BitAddress :: "u32 \<Rightarrow> u8 \<Rightarrow> 'u xiic_sys \<Rightarrow> 'u xiic_sys" where
  "XIic_DynSend7BitAddress SlaveAddress Operation s =
     XIic_WriteReg XIIC_DTR_REG_OFFSET (XIIC_TX_DYN_START_MASK OR ucast (addr7 SlaveAddress Operation)) s"

definition XIic_DynSendStop :: "u8 \<Rightarrow> 'u xiic_sys \<Rightarrow> 'u xiic_sys" where
  "XIic_DynSendStop ByteCount s = XIic_WriteReg XIIC_DTR_REG_OFFSET (XIIC_TX_DYN_STOP_MASK OR ucast ByteCount) s"

definition count_iic :: "(XIicStats \<Rightarrow> XIicStats) \<Rightarrow> 'u xiic_sys \<Rightarrow> 'u xiic_sys" where
  "count_iic f s = s\<lparr>xi := (xi s)\<lparr>IicStats := f (IicStats (xi s))\<rparr>\<rparr>"

definition XIic_ReadRecvByte :: "'u xiic_sys \<Rightarrow> 'u xiic_sys" where
  "XIic_ReadRecvByte s =
     (let (v, s) = XIic_ReadReg XIIC_DRR_REG_OFFSET s;
          p = RecvBufferPtr (xi s);
          s = s\<lparr>xmem := (xmem s)(p := ucast v),
                xi := (xi s)\<lparr>RecvBufferPtr := p + 1, RecvByteCount := RecvByteCount (xi s) - 1\<rparr>\<rparr>
      in count_iic (RecvBytes_update (\<lambda>n. n + 1)) s)"

definition XIic_WriteSendByte :: "'u xiic_sys \<Rightarrow> 'u xiic_sys" where
  "XIic_WriteSendByte s =
     (let p = SendBufferPtr (xi s);
          s = XIic_WriteReg XIIC_DTR_REG_OFFSET (ucast (xmem s p)) s;
          s = s\<lparr>xi := (xi s)\<lparr>SendBufferPtr := p + 1, SendByteCount := SendByteCount (xi s) - 1\<rparr>\<rparr>
      in count_iic (SendBytes_update (\<lambda>n. n + 1)) s)"

fun read_bytes :: "nat \<Rightarrow> 'u xiic_sys \<Rightarrow> 'u xiic_sys" where
  "read_bytes 0 s = s"
| "read_bytes (Suc n) s = read_bytes n (XIic_ReadRecvByte s)"

fun write_bytes :: "nat \<Rightarrow> 'u xiic_sys \<Rightarrow> 'u xiic_sys" where
  "write_bytes 0 s = s"
| "write_bytes (Suc n) s = write_bytes n (XIic_WriteSendByte s)"

fun drop_bytes :: "nat \<Rightarrow> 'u xiic_sys \<Rightarrow> 'u xiic_sys" where
  "drop_bytes 0 s = s"
| "drop_bytes (Suc n) s = drop_bytes n (snd (XIic_ReadReg XIIC_DRR_REG_OFFSET s))"

definition XIic_FlushRxFifo :: "'u xiic_sys \<Rightarrow> 'u xiic_sys" where
  "XIic_FlushRxFifo s =
     (let (v, s) = XIic_ReadReg XIIC_RFO_REG_OFFSET s;
          BytesToRead = (ucast (v + 1) :: u8)
      in drop_bytes (unat BytesToRead) s)"

definition XIic_FlushTxFifo :: "'u xiic_sys \<Rightarrow> 'u xiic_sys" where
  "XIic_FlushTxFifo s =
     (let (CntlReg, s) = XIic_ReadReg XIIC_CR_REG_OFFSET s;
          s = XIic_WriteReg XIIC_CR_REG_OFFSET (CntlReg OR XIIC_CR_TX_FIFO_RESET_MASK) s
      in XIic_WriteReg XIIC_CR_REG_OFFSET CntlReg s)"

definition XIic_SetControlRegister :: "u32 \<Rightarrow> int \<Rightarrow> 'u xiic_sys \<Rightarrow> u32" where
  "XIic_SetControlRegister ControlRegister ByteCount s =
     (let c = ControlRegister AND NOT (XIIC_CR_NO_ACK_MASK OR XIIC_CR_DIR_IS_TX_MASK) in
      if IicOptions (xi s) AND XII_SEND_10_BIT_OPTION \<noteq> 0 then c OR XIIC_CR_DIR_IS_TX_MASK
      else if ByteCount = 1 then c OR XIIC_CR_NO_ACK_MASK
      else c)"

subsection \<open>Initialisation, addresses and handlers\<close>

abbreviation (input) no_iic_stats :: XIicStats where
  "no_iic_stats \<equiv> \<lparr>ArbitrationLost = 0, RepeatedStarts = 0, BusBusy = 0, RecvBytes = 0, RecvInterrupts = 0,
     SendBytes = 0, SendInterrupts = 0, TxErrors = 0, IicInterrupts = 0\<rparr>"

definition XIic_StubHandler :: "int \<Rightarrow> 'u \<Rightarrow> 'u option" where
  "XIic_StubHandler ByteCount u = None"

definition XIic_StubStatusHandler :: "int \<Rightarrow> 'u \<Rightarrow> 'u option" where
  "XIic_StubStatusHandler ErrorCode u = None"

definition XIic_Reset :: "'u xiic_sys \<Rightarrow> 'u xiic_sys option" where
  "XIic_Reset s = do {
     configASSERT (IicReady (xi s) = IIC_COMPONENT_IS_READY);
     Some (XIic_WriteReg XIIC_RESETR_OFFSET XIIC_RESET_MASK s)}"

definition XIic_GetStats :: "'u xiic_sys \<Rightarrow> XIicStats option" where
  "XIic_GetStats s = do {
     configASSERT (IicReady (xi s) = IIC_COMPONENT_IS_READY);
     Some (IicStats (xi s))}"

definition XIic_ClearStats :: "'u xiic_sys \<Rightarrow> 'u xiic_sys option" where
  "XIic_ClearStats s = do {
     configASSERT (IicReady (xi s) = IIC_COMPONENT_IS_READY);
     Some (s\<lparr>xi := (xi s)\<lparr>IicStats := no_iic_stats\<rparr>\<rparr>)}"

definition XIic_CfgInitialize :: "XIic_Config \<Rightarrow> addr \<Rightarrow> 'u xiic_sys \<Rightarrow> (int \<times> 'u xiic_sys) option" where
  "XIic_CfgInitialize c EffectiveAddr s = do {
     let s = s\<lparr>xi := (xi s)\<lparr>IicReady := 0\<rparr>\<rparr>;
     if IicStarted (xi s) = IIC_COMPONENT_IS_STARTED then Some (5, s)
     else do {
       let s = s\<lparr>xi := (xi s)\<lparr>IicStarted := 0, IicBase := EffectiveAddr, RecvHandlerF := XIic_StubHandler, RecvBufferPtr := 0,
         SendHandlerF := XIic_StubHandler, SendBufferPtr := 0, StatusHandlerF := XIic_StubStatusHandler,
         Has10BitAddr := CfgHas10BitAddr c, IicReady := IIC_COMPONENT_IS_READY, IicOptions := 0, BNBOnly := False,
         GpOutWidth := CfgGpOutWidth c, IsDynamic := False, IsSlaveSetAckOff := False\<rparr>\<rparr>;
       s \<leftarrow> XIic_Reset s;
       s \<leftarrow> XIic_ClearStats s;
       Some (0, s)}}"

definition XIic_LookupConfig :: "XIic_Config list \<Rightarrow> u16 \<Rightarrow> XIic_Config option" where
  "XIic_LookupConfig table i = find (\<lambda>c. IicDeviceId c = i) table"

definition XIic_Initialize :: "XIic_Config list \<Rightarrow> u16 \<Rightarrow> 'u xiic_sys \<Rightarrow> (int \<times> 'u xiic_sys) option" where
  "XIic_Initialize table i s =
     (case XIic_LookupConfig table i of
        None \<Rightarrow> Some (2, s)
      | Some c \<Rightarrow> XIic_CfgInitialize c (IicCfgBase c) s)"

definition XIic_Start :: "'u xiic_sys \<Rightarrow> (int \<times> 'u xiic_sys) option" where
  "XIic_Start s = do {
     configASSERT (IicReady (xi s) = IIC_COMPONENT_IS_READY);
     let s = XIic_WriteReg XIIC_IIER_OFFSET 0 s;
     let s = XIic_ClearIntr 0xFFFFFFFF s;
     let s = XIic_WriteReg XIIC_CR_REG_OFFSET XIIC_CR_ENABLE_DEVICE_MASK s;
     let s = XIic_WriteReg XIIC_RFD_REG_OFFSET 0 s;
     let s = XIic_ClearEnableIntr (XIIC_INTR_AAS_MASK OR XIIC_INTR_ARB_LOST_MASK) s;
     let s = s\<lparr>xi := (xi s)\<lparr>IicStarted := IIC_COMPONENT_IS_STARTED, IsDynamic := False\<rparr>\<rparr>;
     Some (0, XIic_IntrGlobalEnable s)}"

definition XIic_Stop :: "'u xiic_sys \<Rightarrow> int \<times> 'u xiic_sys" where
  "XIic_Stop s =
     (let s = XIic_IntrGlobalDisable s;
          (CntlReg, s) = XIic_ReadReg XIIC_CR_REG_OFFSET s;
          (Status, s) = XIic_ReadReg XIIC_SR_REG_OFFSET s
      in if CntlReg AND XIIC_CR_MSMS_MASK \<noteq> 0 \<or> Status AND XIIC_SR_ADDR_AS_SLAVE_MASK \<noteq> 0
         then (XST_IIC_BUS_BUSY, XIic_IntrGlobalEnable s)
         else (0, s\<lparr>xi := (xi s)\<lparr>IicStarted := 0\<rparr>\<rparr>))"

definition XIic_SetAddress :: "int \<Rightarrow> u32 \<Rightarrow> 'u xiic_sys \<Rightarrow> (int \<times> 'u xiic_sys) option" where
  "XIic_SetAddress AddressType Address s = do {
     configASSERT (sint Address < 1023);
     if AddressType = 2 then do {
       let s = XIic_WriteReg XIIC_ADR_REG_OFFSET (push_bit 1 (Address AND 0x7F)) s;
       let s = (if Has10BitAddr (xi s) then XIic_WriteReg XIIC_TBA_REG_OFFSET (drop_bit 7 (Address AND 0x380)) s else s);
       Some (0, s)}
     else if AddressType = 1 then Some (0, s\<lparr>xi := (xi s)\<lparr>AddrOfSlave := Address\<rparr>\<rparr>)
     else Some (15, s)}"

definition XIic_GetAddress :: "int \<Rightarrow> 'u xiic_sys \<Rightarrow> u16 \<times> 'u xiic_sys" where
  "XIic_GetAddress AddressType s =
     (if AddressType = 2 then
        let (v, s) = XIic_ReadReg XIIC_ADR_REG_OFFSET s;
            LowAddr = (ucast v :: u8);
            (HighAddr, s) = (if Has10BitAddr (xi s)
              then let (v, s) = XIic_ReadReg XIIC_TBA_REG_OFFSET s in (ucast v :: u16, s) else (0, s))
        in (push_bit 8 HighAddr OR ucast LowAddr, s)
      else (ucast (AddrOfSlave (xi s)), s))"

definition XIic_SetGpOutput :: "u8 \<Rightarrow> 'u xiic_sys \<Rightarrow> int \<times> 'u xiic_sys" where
  "XIic_SetGpOutput OutputValue s =
     (if GpOutWidth (xi s) > 0 then (0, XIic_WriteReg XIIC_GPO_REG_OFFSET (ucast OutputValue) s) else (19, s))"

definition XIic_GetGpOutput :: "'u xiic_sys \<Rightarrow> int \<times> u8 option \<times> 'u xiic_sys" where
  "XIic_GetGpOutput s =
     (if GpOutWidth (xi s) > 0 then let (v, s) = XIic_ReadReg XIIC_GPO_REG_OFFSET s in (0, Some (ucast v), s)
      else (19, None, s))"

definition XIic_IsSlave :: "'u xiic_sys \<Rightarrow> bool \<times> 'u xiic_sys" where
  "XIic_IsSlave s = (let (v, s) = XIic_ReadReg XIIC_SR_REG_OFFSET s in (v AND XIIC_SR_ADDR_AS_SLAVE_MASK \<noteq> 0, s))"

definition XIic_SetRecvHandler :: "(int \<Rightarrow> 'u \<Rightarrow> 'u option) \<Rightarrow> 'u xiic_sys \<Rightarrow> 'u xiic_sys option" where
  "XIic_SetRecvHandler FuncPtr s = do {
     configASSERT (IicReady (xi s) = IIC_COMPONENT_IS_READY);
     Some (s\<lparr>xi := (xi s)\<lparr>RecvHandlerF := FuncPtr\<rparr>\<rparr>)}"

definition XIic_SetSendHandler :: "(int \<Rightarrow> 'u \<Rightarrow> 'u option) \<Rightarrow> 'u xiic_sys \<Rightarrow> 'u xiic_sys option" where
  "XIic_SetSendHandler FuncPtr s = do {
     configASSERT (IicReady (xi s) = IIC_COMPONENT_IS_READY);
     Some (s\<lparr>xi := (xi s)\<lparr>SendHandlerF := FuncPtr\<rparr>\<rparr>)}"

definition XIic_SetStatusHandler :: "(int \<Rightarrow> 'u \<Rightarrow> 'u option) \<Rightarrow> 'u xiic_sys \<Rightarrow> 'u xiic_sys option" where
  "XIic_SetStatusHandler FuncPtr s = do {
     configASSERT (IicReady (xi s) = IIC_COMPONENT_IS_READY);
     Some (s\<lparr>xi := (xi s)\<lparr>StatusHandlerF := FuncPtr\<rparr>\<rparr>)}"

definition XIic_SetOptions :: "u32 \<Rightarrow> 'u xiic_sys \<Rightarrow> 'u xiic_sys" where
  "XIic_SetOptions NewOptions s =
     (let s = XIic_IntrGlobalDisable s;
          s = s\<lparr>xi := (xi s)\<lparr>IicOptions := NewOptions\<rparr>\<rparr>;
          (CntlReg, s) = XIic_ReadReg XIIC_CR_REG_OFFSET s;
          CntlReg = (if NewOptions AND XII_GENERAL_CALL_OPTION \<noteq> 0 then CntlReg OR XIIC_CR_GENERAL_CALL_MASK
                     else CntlReg AND NOT XIIC_CR_GENERAL_CALL_MASK);
          s = XIic_WriteReg XIIC_CR_REG_OFFSET CntlReg s
      in XIic_IntrGlobalEnable s)"

definition XIic_GetOptions :: "'u xiic_sys \<Rightarrow> u32" where
  "XIic_GetOptions s = IicOptions (xi s)"

definition XIic_SelfTest :: "'u xiic_sys \<Rightarrow> (int \<times> 'u xiic_sys) option" where
  "XIic_SelfTest s = do {
     configASSERT (IicReady (xi s) = IIC_COMPONENT_IS_READY);
     let (GlobalIntrStatus, s) = XIic_IsIntrGlobalEnabled s;
     let (IntrEnableStatus, s) = XIic_ReadReg XIIC_IIER_OFFSET s;
     s \<leftarrow> XIic_Reset s;
     let (g, s) = XIic_IsIntrGlobalEnabled s;
     let (e, s) = XIic_ReadReg XIIC_IIER_OFFSET s;
     let s = XIic_WriteReg XIIC_IIER_OFFSET XIIC_TX_RX_INTERRUPTS s;
     let (e2, s) = XIic_ReadReg XIIC_IIER_OFFSET s;
     let Status = (if g \<or> e \<noteq> 0 \<or> e2 \<noteq> XIIC_TX_RX_INTERRUPTS then 1 else 0);
     s \<leftarrow> XIic_Reset s;
     let s = (if GlobalIntrStatus then XIic_IntrGlobalEnable s else s);
     Some (Status, XIic_WriteReg XIIC_IIER_OFFSET IntrEnableStatus s)}"

end
