(* ===== verification/Xiic_Transfer.thy ===== *)
theory Xiic_Transfer
  imports Xiic
begin

section \<open>Transfers and interrupts of the I2C controller driver\<close>

text \<open>
  The operations that start a transfer, the functions that the interrupt handler calls through the global
  function pointers, and the interrupt handler.
\<close>

subsection \<open>Calls of the application\<close>

definition call_status :: "int \<Rightarrow> 'u xiic_sys \<Rightarrow> 'u xiic_sys option" where
  "call_status e s = do {
     u \<leftarrow> StatusHandlerF (xi s) e (xup s);
     Some (s\<lparr>xup := u\<rparr>)}"

definition call_recv :: "int \<Rightarrow> 'u xiic_sys \<Rightarrow> 'u xiic_sys option" where
  "call_recv n s = do {
     u \<leftarrow> RecvHandlerF (xi s) n (xup s);
     Some (s\<lparr>xup := u\<rparr>)}"

definition call_send :: "int \<Rightarrow> 'u xiic_sys \<Rightarrow> 'u xiic_sys option" where
  "call_send n s = do {
     u \<leftarrow> SendHandlerF (xi s) n (xup s);
     Some (s\<lparr>xup := u\<rparr>)}"

subsection \<open>Filling the transmit FIFO\<close>

text \<open>\<open>slave\<close> is the role; the arithmetic on the occupancy is that of bytes.\<close>

definition XIic_TransmitFifoFill :: "bool \<Rightarrow> 'u xiic_sys \<Rightarrow> 'u xiic_sys" where
  "XIic_TransmitFifoFill slave s =
     (let (v, s) = XIic_ReadReg XIIC_TFO_REG_OFFSET s;
          AvailBytes = (16 :: u8) - ucast (v + 1);
          NumBytesToSend =
            (if SendByteCount (xi s) > uint AvailBytes then uint AvailBytes
             else if IicOptions (xi s) AND XII_REPEATED_START_OPTION \<noteq> 0 \<or> slave then SendByteCount (xi s)
             else SendByteCount (xi s) - 1)
      in write_bytes (nat NumBytesToSend) s)"

subsection \<open>Transfers as master\<close>

definition XIic_IsIicBusy :: "'u xiic_sys \<Rightarrow> bool \<times> 'u xiic_sys" where
  "XIic_IsIicBusy s = (let (v, s) = XIic_ReadReg XIIC_SR_REG_OFFSET s in (v AND XIIC_SR_BUS_BUSY_MASK \<noteq> 0, s))"

definition IsBusBusy :: "'u xiic_sys \<Rightarrow> bool \<times> 'u xiic_sys" where
  "IsBusBusy s =
     (let (CntlReg, s) = XIic_ReadReg XIIC_CR_REG_OFFSET s;
          (StatusReg, s) = XIic_ReadReg XIIC_SR_REG_OFFSET s
      in if CntlReg AND XIIC_CR_MSMS_MASK = 0 \<and> StatusReg AND XIIC_SR_BUS_BUSY_MASK \<noteq> 0 then
           let s = s\<lparr>xi := (xi s)\<lparr>BNBOnly := True\<rparr>\<rparr>;
               s = XIic_ClearEnableIntr XIIC_INTR_BNB_MASK s
           in (True, count_iic (BusBusy_update (\<lambda>n. n + 1)) s)
         else (False, s))"

text \<open>The address of a message that is sent.\<close>

definition send_address :: "'u xiic_sys \<Rightarrow> 'u xiic_sys" where
  "send_address s =
     (let a = AddrOfSlave (xi s) in
      if IicOptions (xi s) AND XII_SEND_10_BIT_OPTION \<noteq> 0 \<and> a \<noteq> 0
      then XIic_Send10BitAddrByte2 a (XIic_Send10BitAddrByte1 a XIIC_WRITE_OPERATION s)
      else XIic_Send7BitAddr a XIIC_WRITE_OPERATION s)"

text \<open>The steps of a send: a repeated start when the bus is already owned, the first bytes, and going master.\<close>

definition tx_repeat :: "'u xiic_sys \<Rightarrow> 'u xiic_sys" where
  "tx_repeat s =
     (let (CntlReg, s) = XIic_ReadReg XIIC_CR_REG_OFFSET s in
      if CntlReg AND XIIC_CR_MSMS_MASK \<noteq> 0 then
        let s = XIic_WriteReg XIIC_CR_REG_OFFSET ((CntlReg AND NOT XIIC_CR_NO_ACK_MASK) OR
                  (XIIC_CR_DIR_IS_TX_MASK OR XIIC_CR_REPEATED_START_MASK)) s
        in count_iic (RepeatedStarts_update (\<lambda>n. n + 1)) s
      else s)"

definition tx_begin :: "'u xiic_sys \<Rightarrow> 'u xiic_sys" where
  "tx_begin s =
     (let s = (if SendByteCount (xi s) > 1 then XIic_TransmitFifoFill False s else s);
          s = (if SendByteCount (xi s) > 1 then XIic_ClearEnableIntr XIIC_INTR_TX_HALF_MASK s else s)
      in XIic_ClearEnableIntr (XIIC_INTR_TX_ERROR_MASK OR XIIC_INTR_TX_EMPTY_MASK) s)"

definition tx_go :: "'u xiic_sys \<Rightarrow> 'u xiic_sys" where
  "tx_go s =
     (let (CntlReg, s) = XIic_ReadReg XIIC_CR_REG_OFFSET s in
      if CntlReg AND XIIC_CR_MSMS_MASK = 0
      then XIic_WriteReg XIIC_CR_REG_OFFSET ((CntlReg AND NOT XIIC_CR_NO_ACK_MASK) OR
             (XIIC_CR_MSMS_MASK OR XIIC_CR_DIR_IS_TX_MASK)) s
      else s)"

definition XIic_MasterSend :: "addr \<Rightarrow> int \<Rightarrow> 'u xiic_sys \<Rightarrow> int \<times> 'u xiic_sys" where
  "XIic_MasterSend TxMsgPtr ByteCount s =
     (let s = XIic_IntrGlobalDisable s;
          s = s\<lparr>MasterFuncPtr := MasterData, xi := (xi s)\<lparr>IsDynamic := False\<rparr>\<rparr>;
          (busy, s) = IsBusBusy s
      in if busy then (XST_IIC_BUS_BUSY, XIic_IntrGlobalEnable s)
         else
           let s = tx_repeat s;
               s = s\<lparr>xi := (xi s)\<lparr>SendByteCount := ByteCount, SendBufferPtr := TxMsgPtr, RecvBufferPtr := 0\<rparr>\<rparr>;
               s = send_address s;
               s = s\<lparr>xi := (xi s)\<lparr>TxAddrMode := XIIC_TX_ADDR_SENT\<rparr>\<rparr>;
               s = tx_begin s;
               s = tx_go s
           in (0, XIic_IntrGlobalEnable s))"

text \<open>The occupancy at which the receive FIFO counts as full; the variable is a byte.\<close>

definition recv_depth :: "int \<Rightarrow> u8" where
  "recv_depth ByteCount = (if ByteCount = 1 then 0 else if ByteCount \<le> IIC_RX_FIFO_DEPTH then word_of_int (ByteCount - 2) else 15)"

text \<open>The steps of a receive: a repeated start, the address, and going master.\<close>

definition rx_repeat :: "int \<Rightarrow> 'u xiic_sys \<Rightarrow> 'u xiic_sys" where
  "rx_repeat ByteCount s =
     (let (CntlReg, s) = XIic_ReadReg XIIC_CR_REG_OFFSET s in
      if CntlReg AND XIIC_CR_MSMS_MASK \<noteq> 0 then
        let c = XIic_SetControlRegister (CntlReg OR XIIC_CR_REPEATED_START_MASK) ByteCount s;
            s = count_iic (RepeatedStarts_update (\<lambda>n. n + 1)) s
        in XIic_WriteReg XIIC_CR_REG_OFFSET c s
      else s)"

definition rx_address :: "'u xiic_sys \<Rightarrow> 'u xiic_sys" where
  "rx_address s =
     (let a = AddrOfSlave (xi s) in
      if IicOptions (xi s) AND XII_SEND_10_BIT_OPTION \<noteq> 0 then
        let s = XIic_Send10BitAddrByte2 a (XIic_Send10BitAddrByte1 a XIIC_WRITE_OPERATION s);
            s = s\<lparr>xi := (xi s)\<lparr>TxAddrMode := XIIC_TX_ADDR_MSTR_RECV_MASK\<rparr>\<rparr>
        in XIic_ClearEnableIntr XIIC_INTR_TX_EMPTY_MASK s
      else
        let s = XIic_Send7BitAddr a XIIC_READ_OPERATION s
        in s\<lparr>xi := (xi s)\<lparr>TxAddrMode := XIIC_TX_ADDR_SENT\<rparr>\<rparr>)"

definition rx_go :: "int \<Rightarrow> 'u xiic_sys \<Rightarrow> 'u xiic_sys" where
  "rx_go ByteCount s =
     (let (CntlReg, s) = XIic_ReadReg XIIC_CR_REG_OFFSET s in
      if CntlReg AND XIIC_CR_MSMS_MASK = 0
      then XIic_WriteReg XIIC_CR_REG_OFFSET (XIic_SetControlRegister (CntlReg OR XIIC_CR_MSMS_MASK) ByteCount s) s
      else s)"

definition XIic_MasterRecv :: "addr \<Rightarrow> int \<Rightarrow> 'u xiic_sys \<Rightarrow> int \<times> 'u xiic_sys" where
  "XIic_MasterRecv RxMsgPtr ByteCount s =
     (if AddrOfSlave (xi s) = 0 then (XST_IIC_GENERAL_CALL_ADDRESS, s)
      else
        let s = XIic_IntrGlobalDisable s;
            s = s\<lparr>MasterFuncPtr := MasterData, xi := (xi s)\<lparr>IsDynamic := False\<rparr>\<rparr>;
            (busy, s) = IsBusBusy s
        in if busy then (XST_IIC_BUS_BUSY, XIic_IntrGlobalEnable s)
           else
             let s = s\<lparr>xi := (xi s)\<lparr>RecvByteCount := ByteCount, RecvBufferPtr := RxMsgPtr, SendBufferPtr := 0\<rparr>\<rparr>;
                 s = (if IicOptions (xi s) AND XII_SEND_10_BIT_OPTION = 0
                      then XIic_ClearEnableIntr XIIC_INTR_RX_FULL_MASK s else s);
                 s = rx_repeat ByteCount s;
                 s = XIic_WriteReg XIIC_RFD_REG_OFFSET (ucast (recv_depth ByteCount)) s;
                 s = rx_address s;
                 s = XIic_ClearEnableIntr XIIC_INTR_TX_ERROR_MASK s;
                 s = rx_go ByteCount s
             in (0, XIic_IntrGlobalEnable s))"

definition SendSlaveAddr :: "'u xiic_sys \<Rightarrow> 'u xiic_sys" where
  "SendSlaveAddr s =
     (let (CRreg, s) = XIic_ReadReg XIIC_CR_REG_OFFSET s;
          s = XIic_WriteReg XIIC_CR_REG_OFFSET ((CRreg OR XIIC_CR_REPEATED_START_MASK) AND NOT XIIC_CR_DIR_IS_TX_MASK) s;
          s = XIic_Send10BitAddrByte1 (AddrOfSlave (xi s)) XIIC_READ_OPERATION s
      in XIic_ClearEnableIntr XIIC_INTR_RX_FULL_MASK s)"

definition SendMasterData :: "'u xiic_sys \<Rightarrow> 'u xiic_sys option" where
  "SendMasterData s =
     (if TxAddrMode (xi s) AND XIIC_TX_ADDR_MSTR_RECV_MASK \<noteq> 0 then
        let s = SendSlaveAddr s in Some (s\<lparr>xi := (xi s)\<lparr>TxAddrMode := XIIC_TX_ADDR_SENT\<rparr>\<rparr>)
      else if SendByteCount (xi s) > 1 then
        let s = XIic_TransmitFifoFill False s
        in Some (if SendByteCount (xi s) < 2 then XIic_DisableIntr XIIC_INTR_TX_HALF_MASK s else s)
      else if SendByteCount (xi s) = 1 then
        if IicOptions (xi s) AND XII_REPEATED_START_OPTION \<noteq> 0 then Some (XIic_WriteSendByte s)
        else
          let (CntlReg, s) = XIic_ReadReg XIIC_CR_REG_OFFSET s;
              s = XIic_WriteReg XIIC_CR_REG_OFFSET (CntlReg AND NOT XIIC_CR_MSMS_MASK) s;
              s = XIic_WriteSendByte s;
              s = s\<lparr>xi := (xi s)\<lparr>BNBOnly := False\<rparr>\<rparr>;
              s = XIic_DisableIntr XIIC_TX_INTERRUPTS s
          in Some (XIic_EnableIntr XIIC_INTR_BNB_MASK s)
      else if IicOptions (xi s) AND XII_REPEATED_START_OPTION \<noteq> 0 then
        let (CntlReg, s) = XIic_ReadReg XIIC_CR_REG_OFFSET s;
            s = XIic_WriteReg XIIC_CR_REG_OFFSET (CntlReg OR XIIC_CR_REPEATED_START_MASK) s;
            s = XIic_DisableIntr XIIC_TX_INTERRUPTS s
        in call_send 0 s
      else Some s)"

text \<open>
  Reading what has been received.  The loop variable of the second case is a byte, so that the loop does
  not end when the FIFO claims more than 255 bytes.
\<close>

definition RecvMasterData :: "'u xiic_sys \<Rightarrow> 'u xiic_sys option" where
  "RecvMasterData s =
     (let (CntlReg, s) = XIic_ReadReg XIIC_CR_REG_OFFSET s;
          (v, s) = XIic_ReadReg XIIC_RFO_REG_OFFSET s;
          BytesInFifo = sint (v + 1)
      in if RecvByteCount (xi s) - BytesInFifo = 1 then
           let s = XIic_DisableIntr XIIC_INTR_TX_ERROR_MASK s;
               s = XIic_ClearIntr XIIC_INTR_TX_ERROR_MASK s;
               s = XIic_WriteReg XIIC_CR_REG_OFFSET (CntlReg OR XIIC_CR_NO_ACK_MASK) s
           in Some (XIic_ReadRecvByte s)
         else if RecvByteCount (xi s) - BytesInFifo = 0 then
           let CntlReg = (if IicOptions (xi s) AND XII_REPEATED_START_OPTION = 0 then CntlReg AND NOT XIIC_CR_MSMS_MASK
                          else CntlReg OR XIIC_CR_REPEATED_START_MASK);
               s = XIic_WriteReg XIIC_CR_REG_OFFSET CntlReg s
           in if BytesInFifo > 255 then None
              else
                let s = read_bytes (nat BytesInFifo) s;
                    s = XIic_WriteReg XIIC_RFD_REG_OFFSET 0 s;
                    s = XIic_DisableIntr XIIC_INTR_RX_FULL_MASK s;
                    s = XIic_WriteReg XIIC_CR_REG_OFFSET (CntlReg AND NOT XIIC_CR_NO_ACK_MASK) s
                in call_recv 0 s
         else
           let BytesToRead = RecvByteCount (xi s) - BytesInFifo - 1;
               BytesToRead = (if BytesToRead > IIC_RX_FIFO_DEPTH then IIC_RX_FIFO_DEPTH else BytesToRead)
           in Some (read_bytes (nat BytesToRead) s))"

subsection \<open>Dynamic control\<close>

definition XIic_DynMasterSend :: "addr \<Rightarrow> u8 \<Rightarrow> 'u xiic_sys \<Rightarrow> int \<times> 'u xiic_sys" where
  "XIic_DynMasterSend TxMsgPtr ByteCount s =
     (let s = XIic_IntrGlobalDisable s;
          s = s\<lparr>MasterFuncPtr := DynMasterData, xi := (xi s)\<lparr>IsDynamic := True\<rparr>\<rparr>;
          (busy, s) = IsBusBusy s
      in if busy then (1, XIic_IntrGlobalEnable s)
         else
           let (CntlReg, s) = XIic_ReadReg XIIC_CR_REG_OFFSET s;
               s = (if CntlReg AND XIIC_CR_MSMS_MASK \<noteq> 0 then
                      let s = XIic_WriteReg XIIC_CR_REG_OFFSET ((CntlReg AND NOT XIIC_CR_NO_ACK_MASK) OR XIIC_CR_DIR_IS_TX_MASK) s
                      in count_iic (RepeatedStarts_update (\<lambda>n. n + 1)) s
                    else s);
               s = s\<lparr>xi := (xi s)\<lparr>SendByteCount := uint ByteCount, SendBufferPtr := TxMsgPtr\<rparr>\<rparr>;
               s = XIic_DynSend7BitAddress (AddrOfSlave (xi s)) XIIC_WRITE_OPERATION s;
               s = s\<lparr>xi := (xi s)\<lparr>TxAddrMode := XIIC_TX_ADDR_SENT\<rparr>\<rparr>;
               s = (if SendByteCount (xi s) > 1 then XIic_TransmitFifoFill False s else s);
               s = (if SendByteCount (xi s) > 1 then XIic_ClearEnableIntr XIIC_INTR_TX_HALF_MASK s else s);
               s = XIic_ClearEnableIntr (XIIC_INTR_TX_ERROR_MASK OR XIIC_INTR_TX_EMPTY_MASK) s
           in (0, XIic_IntrGlobalEnable s))"

definition DynSendMasterData :: "'u xiic_sys \<Rightarrow> 'u xiic_sys option" where
  "DynSendMasterData s =
     (if SendByteCount (xi s) > 1 then
        let s = XIic_TransmitFifoFill False s
        in Some (if SendByteCount (xi s) < 2 then XIic_DisableIntr XIIC_INTR_TX_HALF_MASK s else s)
      else if SendByteCount (xi s) = 1 then
        if IicOptions (xi s) AND XII_REPEATED_START_OPTION \<noteq> 0 then Some (XIic_WriteSendByte s)
        else
          let s = XIic_DynSendStop (xmem s (SendBufferPtr (xi s))) s;
              s = s\<lparr>xi := (xi s)\<lparr>BNBOnly := False\<rparr>\<rparr>;
              s = XIic_DisableIntr XIIC_TX_INTERRUPTS s
          in Some (XIic_EnableIntr XIIC_INTR_BNB_MASK s)
      else if IicOptions (xi s) AND XII_REPEATED_START_OPTION \<noteq> 0 then
        let (CntlReg, s) = XIic_ReadReg XIIC_CR_REG_OFFSET s;
            s = XIic_WriteReg XIIC_CR_REG_OFFSET (CntlReg OR XIIC_CR_REPEATED_START_MASK) s;
            s = XIic_DisableIntr XIIC_TX_INTERRUPTS s
        in call_send 0 s
      else Some s)"

definition dyn_recv_depth :: "u8 \<Rightarrow> u32" where
  "dyn_recv_depth ByteCount = (if ByteCount = 1 then 0 else if ByteCount \<le> 16 then ucast ByteCount - 2 else 15)"

definition XIic_DynMasterRecv :: "addr \<Rightarrow> u8 \<Rightarrow> 'u xiic_sys \<Rightarrow> int \<times> 'u xiic_sys" where
  "XIic_DynMasterRecv RxMsgPtr ByteCount s =
     (if AddrOfSlave (xi s) = 0 then (XST_IIC_GENERAL_CALL_ADDRESS, s)
      else
        let s = XIic_IntrGlobalDisable s;
            s = s\<lparr>MasterFuncPtr := DynMasterData, xi := (xi s)\<lparr>IsDynamic := True\<rparr>\<rparr>;
            (busy, s) = IsBusBusy s
        in if busy then (XST_IIC_BUS_BUSY, XIic_IntrGlobalEnable s)
           else
             let s = s\<lparr>xi := (xi s)\<lparr>RecvByteCount := uint ByteCount, RecvBufferPtr := RxMsgPtr\<rparr>\<rparr>;
                 s = XIic_ClearEnableIntr XIIC_INTR_RX_FULL_MASK s;
                 (CntlReg, s) = XIic_ReadReg XIIC_CR_REG_OFFSET s;
                 s = (if CntlReg AND XIIC_CR_MSMS_MASK \<noteq> 0 then
                        let c = XIic_SetControlRegister (CntlReg OR XIIC_CR_REPEATED_START_MASK) (uint ByteCount) s;
                            s = count_iic (RepeatedStarts_update (\<lambda>n. n + 1)) s
                        in XIic_WriteReg XIIC_CR_REG_OFFSET c s
                      else s);
                 s = XIic_WriteReg XIIC_RFD_REG_OFFSET (dyn_recv_depth ByteCount) s;
                 s = XIic_DynSend7BitAddress (AddrOfSlave (xi s)) XIIC_READ_OPERATION s;
                 s = s\<lparr>xi := (xi s)\<lparr>TxAddrMode := XIIC_TX_ADDR_SENT\<rparr>\<rparr>;
                 s = XIic_DynSendStop ByteCount s;
                 s = XIic_ClearEnableIntr XIIC_INTR_TX_ERROR_MASK s
             in (0, XIic_IntrGlobalEnable s))"

text \<open>Here the counts are bytes.\<close>

definition DynRecvMasterData :: "'u xiic_sys \<Rightarrow> 'u xiic_sys option" where
  "DynRecvMasterData s =
     (let (CntlReg, s) = XIic_ReadReg XIIC_CR_REG_OFFSET s;
          (v, s) = XIic_ReadReg XIIC_RFO_REG_OFFSET s;
          BytesInFifo = (ucast v + 1 :: u8)
      in if RecvByteCount (xi s) - uint BytesInFifo = 1 then
           let s = XIic_DisableIntr XIIC_INTR_TX_ERROR_MASK s;
               s = XIic_ClearIntr XIIC_INTR_TX_ERROR_MASK s
           in Some (XIic_ReadRecvByte s)
         else if RecvByteCount (xi s) - uint BytesInFifo = 0 then
           let s = (if IicOptions (xi s) AND XII_REPEATED_START_OPTION \<noteq> 0
                    then XIic_WriteReg XIIC_CR_REG_OFFSET (CntlReg OR XIIC_CR_REPEATED_START_MASK) s else s);
               s = read_bytes (unat BytesInFifo) s;
               s = XIic_WriteReg XIIC_RFD_REG_OFFSET 0 s;
               s = XIic_DisableIntr XIIC_INTR_RX_FULL_MASK s
           in call_recv 0 s
         else
           let BytesToRead = (word_of_int (RecvByteCount (xi s) - uint BytesInFifo - 1) :: u8);
               BytesToRead = (if BytesToRead > 16 then 16 else BytesToRead)
           in Some (read_bytes (unat BytesToRead) s))"

subsection \<open>Transfers as slave\<close>

definition XIic_SlaveInclude :: "'u xiic_sys \<Rightarrow> 'u xiic_sys" where
  "XIic_SlaveInclude s = s\<lparr>SlaveIncluded := True\<rparr>"

definition XIic_SlaveSend :: "addr \<Rightarrow> int \<Rightarrow> 'u xiic_sys \<Rightarrow> int \<times> 'u xiic_sys" where
  "XIic_SlaveSend TxMsgPtr ByteCount s =
     (let (Status, s) = XIic_ReadReg XIIC_SR_REG_OFFSET s in
      if Status AND XIIC_SR_ADDR_AS_SLAVE_MASK = 0 then (XST_IIC_NOT_SLAVE, s)
      else
        let s = XIic_IntrGlobalDisable s;
            s = s\<lparr>xi := (xi s)\<lparr>SendByteCount := ByteCount, SendBufferPtr := TxMsgPtr, RecvBufferPtr := 0\<rparr>\<rparr>;
            s = XIic_TransmitFifoFill True s;
            IntrStatus = XIIC_INTR_TX_EMPTY_MASK OR XIIC_INTR_TX_ERROR_MASK;
            IntrStatus = (if SendByteCount (xi s) > 1 then IntrStatus OR XIIC_INTR_TX_HALF_MASK else IntrStatus);
            s = XIic_ClearEnableIntr IntrStatus s
        in (0, XIic_IntrGlobalEnable s))"

definition XIic_SlaveRecv :: "addr \<Rightarrow> int \<Rightarrow> 'u xiic_sys \<Rightarrow> int \<times> 'u xiic_sys" where
  "XIic_SlaveRecv RxMsgPtr ByteCount s =
     (let (Status, s) = XIic_ReadReg XIIC_SR_REG_OFFSET s in
      if Status AND XIIC_SR_ADDR_AS_SLAVE_MASK = 0 then (XST_IIC_NOT_SLAVE, s)
      else
        let s = XIic_IntrGlobalDisable s;
            s = s\<lparr>xi := (xi s)\<lparr>RecvByteCount := ByteCount, RecvBufferPtr := RxMsgPtr, SendBufferPtr := 0\<rparr>\<rparr>;
            s = XIic_WriteReg XIIC_RFD_REG_OFFSET (if ByteCount > IIC_RX_FIFO_DEPTH then 15 else word_of_int (ByteCount - 1)) s;
            s = (if ByteCount > 1 then XIic_ClearIntr XIIC_INTR_RX_FULL_MASK s else s);
            s = XIic_EnableIntr XIIC_INTR_RX_FULL_MASK s
        in (0, XIic_IntrGlobalEnable s))"

definition AddrAsSlaveHandler :: "'u xiic_sys \<Rightarrow> 'u xiic_sys option" where
  "AddrAsSlaveHandler s =
     (let s = XIic_DisableIntr XIIC_INTR_AAS_MASK s;
          s = XIic_ClearEnableIntr XIIC_INTR_NAAS_MASK s;
          (Status, s) = XIic_ReadReg XIIC_SR_REG_OFFSET s;
          CallValue = (if Status AND XIIC_SR_MSTR_RDING_SLAVE_MASK \<noteq> 0 then 8 else 16);
          CallValue = (if Status AND XIIC_SR_GEN_CALL_MASK \<noteq> 0 then CallValue OR 32 else CallValue)
      in call_status CallValue s)"

definition NotAddrAsSlaveHandler :: "'u xiic_sys \<Rightarrow> 'u xiic_sys option" where
  "NotAddrAsSlaveHandler s = do {
     let s = XIic_DisableIntr XIIC_INTR_NAAS_MASK s;
     let s = XIic_ClearEnableIntr XIIC_INTR_AAS_MASK s;
     let (Status, s) = XIic_ReadReg XIIC_SR_REG_OFFSET s;
     let (TxFifoOcy, s) = XIic_ReadReg XIIC_TFO_REG_OFFSET s;
     let SendBytes = (ucast (SendBytes (IicStats (xi s))) :: u32);
     let s = s\<lparr>xi := (xi s)\<lparr>SendByteCount :=
       (if Status AND XIIC_SR_TX_FIFO_EMPTY_MASK = 0 then sint (SendBytes - (TxFifoOcy + 1)) else sint SendBytes)\<rparr>\<rparr>;
     let s = XIic_FlushTxFifo s;
     let (Status, s) = XIic_ReadReg XIIC_SR_REG_OFFSET s;
     let s = (if Status AND XIIC_SR_RX_FIFO_EMPTY_MASK = 0 then
                let (v, s) = XIic_ReadReg XIIC_RFO_REG_OFFSET s;
                    BytesToRead = (ucast (v + 1) :: u8)
                in if RecvByteCount (xi s) > uint BytesToRead then read_bytes (unat BytesToRead) s else s
              else s);
     let s = XIic_FlushRxFifo s;
     let s = XIic_WriteReg XIIC_RFD_REG_OFFSET 0 s;
     let (CntlReg, s) = XIic_ReadReg XIIC_CR_REG_OFFSET s;
     let s = XIic_WriteReg XIIC_CR_REG_OFFSET (CntlReg AND NOT XIIC_CR_NO_ACK_MASK) s;
     let s = s\<lparr>xi := (xi s)\<lparr>IsSlaveSetAckOff := False\<rparr>\<rparr>;
     let (Status, s) = XIic_ReadReg XIIC_IIER_OFFSET s;
     s \<leftarrow> (if RecvBufferPtr (xi s) = 0
          then call_send (SendByteCount (xi s)) (XIic_WriteReg XIIC_IIER_OFFSET (Status AND NOT XIIC_TX_INTERRUPTS) s)
          else call_recv (RecvByteCount (xi s)) (XIic_WriteReg XIIC_IIER_OFFSET (Status AND NOT XIIC_INTR_RX_FULL_MASK) s));
     Some (s\<lparr>xi := (xi s)\<lparr>RecvByteCount := 0\<rparr>\<rparr>)}"

definition RecvSlaveData :: "'u xiic_sys \<Rightarrow> 'u xiic_sys" where
  "RecvSlaveData s =
     (if RecvByteCount (xi s) = 0 then
        let (CntlReg, s) = XIic_ReadReg XIIC_CR_REG_OFFSET s;
            s = XIic_WriteReg XIIC_CR_REG_OFFSET (CntlReg OR XIIC_CR_NO_ACK_MASK) s;
            s = s\<lparr>xi := (xi s)\<lparr>IsSlaveSetAckOff := True\<rparr>\<rparr>;
            s = XIic_FlushRxFifo s
        in XIic_WriteReg XIIC_RFD_REG_OFFSET 0 s
      else
        let (v, s) = XIic_ReadReg XIIC_RFO_REG_OFFSET s;
            BytesToRead = (ucast (v + 1) :: u8);
            s = read_bytes (unat BytesToRead) s;
            Temp = (if RecvByteCount (xi s) > IIC_RX_FIFO_DEPTH then 15
                    else if RecvByteCount (xi s) = 0 then 0 else (word_of_int (RecvByteCount (xi s) - 1) :: u8))
        in XIic_WriteReg XIIC_RFD_REG_OFFSET (ucast Temp) s)"

definition SendSlaveData :: "'u xiic_sys \<Rightarrow> 'u xiic_sys" where
  "SendSlaveData s =
     (if SendByteCount (xi s) = 0 then XIic_WriteReg XIIC_DTR_REG_OFFSET 0xFF s
      else
        let s = XIic_TransmitFifoFill True s
        in if SendByteCount (xi s) < 1 then XIic_DisableIntr XIIC_INTR_TX_HALF_MASK s else s)"

subsection \<open>Several masters\<close>

definition XIic_MultiMasterInclude :: "'u xiic_sys \<Rightarrow> 'u xiic_sys" where
  "XIic_MultiMasterInclude s = s\<lparr>MultiIncluded := True\<rparr>"

definition BusNotBusyHandler :: "'u xiic_sys \<Rightarrow> 'u xiic_sys option" where
  "BusNotBusyHandler s =
     (let (CntlReg, s) = XIic_ReadReg XIIC_CR_REG_OFFSET s;
          s = XIic_WriteReg XIIC_CR_REG_OFFSET (CntlReg AND NOT XIIC_CR_NO_ACK_MASK) s;
          s = XIic_FlushTxFifo s;
          s = XIic_FlushRxFifo s;
          (Status, s) = XIic_ReadReg XIIC_IIER_OFFSET s;
          s = XIic_WriteReg XIIC_IIER_OFFSET
                (Status AND NOT (if RecvBufferPtr (xi s) = 0 then XIIC_TX_INTERRUPTS else XIIC_INTR_RX_FULL_MASK)) s
      in call_status XII_BUS_NOT_BUSY_EVENT s)"

definition ArbitrationLostHandler :: "'u xiic_sys \<Rightarrow> 'u xiic_sys option" where
  "ArbitrationLostHandler s =
     (let s = XIic_DisableIntr XIIC_TX_INTERRUPTS s;
          s = XIic_ClearIntr XIIC_TX_INTERRUPTS s;
          s = XIic_FlushTxFifo s
      in call_status XII_ARB_LOST_EVENT s)"

subsection \<open>The interrupt handler\<close>

definition TxErrorHandler :: "'u xiic_sys \<Rightarrow> 'u xiic_sys option" where
  "TxErrorHandler s =
     (if RecvBufferPtr (xi s) = 0 then
        let s = XIic_FlushTxFifo s;
            s = XIic_DisableIntr XIIC_TX_RX_INTERRUPTS s;
            (IntrStatus, s) = XIic_ReadReg XIIC_IISR_OFFSET s
        in if IntrStatus AND XIIC_INTR_AAS_MASK = 0 then call_status XII_SLAVE_NO_ACK_EVENT s
           else Some (count_iic (TxErrors_update (\<lambda>n. n - 1)) s)
      else
        let (IntrStatus, s) = XIic_ReadReg XIIC_IISR_OFFSET s in
        if IntrStatus AND XIIC_INTR_RX_FULL_MASK \<noteq> 0 then Some (XIic_DisableIntr XIIC_INTR_TX_ERROR_MASK s)
        else
          let s = XIic_FlushTxFifo s;
              s = XIic_DisableIntr XIIC_TX_RX_INTERRUPTS s;
              s = XIic_ClearIntr XIIC_TX_RX_INTERRUPTS s;
              (CntlReg, s) = XIic_ReadReg XIIC_CR_REG_OFFSET s;
              s = XIic_WriteReg XIIC_CR_REG_OFFSET (CntlReg AND NOT XIIC_CR_MSMS_MASK) s;
              s = XIic_WriteReg XIIC_RFD_REG_OFFSET 0 s
          in call_status XII_SLAVE_NO_ACK_EVENT s)"

text \<open>What the global function pointers point to; a part that is not included fails an assertion.\<close>

definition ArbLostFunction :: "'u xiic_sys \<Rightarrow> 'u xiic_sys" where
  "ArbLostFunction s =
     (let (CntlReg, s) = XIic_ReadReg XIIC_CR_REG_OFFSET s;
          s = XIic_WriteReg XIIC_CR_REG_OFFSET (CntlReg AND NOT XIIC_CR_MSMS_MASK) s;
          (CntlReg, s) = XIic_ReadReg XIIC_IISR_OFFSET s;
          s = XIic_WriteReg XIIC_IISR_OFFSET (CntlReg OR XIIC_INTR_ARB_LOST_MASK) s;
          (CntlReg, s) = XIic_ReadReg XIIC_CR_REG_OFFSET s;
          s = XIic_WriteReg XIIC_CR_REG_OFFSET (CntlReg OR XIIC_CR_TX_FIFO_RESET_MASK) s;
          (CntlReg, s) = XIic_ReadReg XIIC_IISR_OFFSET s
      in XIic_WriteReg XIIC_IISR_OFFSET (CntlReg AND NOT XIIC_INTR_ARB_LOST_MASK) s)"

definition XIic_ArbLostFuncPtr :: "'u xiic_sys \<Rightarrow> 'u xiic_sys option" where
  "XIic_ArbLostFuncPtr s = (if MultiIncluded s then ArbitrationLostHandler s else Some (ArbLostFunction s))"

definition XIic_BusNotBusyFuncPtr :: "'u xiic_sys \<Rightarrow> 'u xiic_sys option" where
  "XIic_BusNotBusyFuncPtr s = (if MultiIncluded s then BusNotBusyHandler s else None)"

definition XIic_AddrAsSlaveFuncPtr :: "'u xiic_sys \<Rightarrow> 'u xiic_sys option" where
  "XIic_AddrAsSlaveFuncPtr s = (if SlaveIncluded s then AddrAsSlaveHandler s else None)"

definition XIic_NotAddrAsSlaveFuncPtr :: "'u xiic_sys \<Rightarrow> 'u xiic_sys option" where
  "XIic_NotAddrAsSlaveFuncPtr s = (if SlaveIncluded s then NotAddrAsSlaveHandler s else None)"

definition XIic_RecvSlaveFuncPtr :: "'u xiic_sys \<Rightarrow> 'u xiic_sys option" where
  "XIic_RecvSlaveFuncPtr s = (if SlaveIncluded s then Some (RecvSlaveData s) else None)"

definition XIic_SendSlaveFuncPtr :: "'u xiic_sys \<Rightarrow> 'u xiic_sys option" where
  "XIic_SendSlaveFuncPtr s = (if SlaveIncluded s then Some (SendSlaveData s) else None)"

definition XIic_RecvMasterFuncPtr :: "'u xiic_sys \<Rightarrow> 'u xiic_sys option" where
  "XIic_RecvMasterFuncPtr s =
     (case MasterFuncPtr s of NoMaster \<Rightarrow> None | MasterData \<Rightarrow> RecvMasterData s | DynMasterData \<Rightarrow> DynRecvMasterData s)"

definition XIic_SendMasterFuncPtr :: "'u xiic_sys \<Rightarrow> 'u xiic_sys option" where
  "XIic_SendMasterFuncPtr s =
     (case MasterFuncPtr s of NoMaster \<Rightarrow> None | MasterData \<Rightarrow> SendMasterData s | DynMasterData \<Rightarrow> DynSendMasterData s)"

text \<open>The service of one interrupt, with the bits to clear.\<close>

definition iic_service :: "u32 \<Rightarrow> u32 \<Rightarrow> 'u xiic_sys \<Rightarrow> (u32 \<times> 'u xiic_sys) option" where
  "iic_service IntrStatus Status s =
     (if IntrStatus AND XIIC_INTR_ARB_LOST_MASK \<noteq> 0 then do {
        s \<leftarrow> XIic_ArbLostFuncPtr (count_iic (ArbitrationLost_update (\<lambda>n. n + 1)) s);
        Some (XIIC_INTR_ARB_LOST_MASK, s)}
      else if IntrStatus AND XIIC_INTR_TX_ERROR_MASK \<noteq> 0 then do {
        s \<leftarrow> TxErrorHandler (count_iic (TxErrors_update (\<lambda>n. n + 1)) s);
        Some (XIIC_INTR_TX_ERROR_MASK, s)}
      else if IntrStatus AND XIIC_INTR_NAAS_MASK \<noteq> 0 then do {
        s \<leftarrow> XIic_NotAddrAsSlaveFuncPtr s;
        Some (XIIC_INTR_NAAS_MASK, s)}
      else if IntrStatus AND XIIC_INTR_RX_FULL_MASK \<noteq> 0 then do {
        let s = count_iic (RecvInterrupts_update (\<lambda>n. n + 1)) s;
        s \<leftarrow> (if Status AND XIIC_SR_ADDR_AS_SLAVE_MASK \<noteq> 0 then XIic_RecvSlaveFuncPtr s else XIic_RecvMasterFuncPtr s);
        Some (XIIC_INTR_RX_FULL_MASK, s)}
      else if IntrStatus AND XIIC_INTR_AAS_MASK \<noteq> 0 then do {
        s \<leftarrow> XIic_AddrAsSlaveFuncPtr s;
        Some (XIIC_INTR_AAS_MASK, s)}
      else if IntrStatus AND XIIC_INTR_BNB_MASK \<noteq> 0 then do {
        s \<leftarrow> (if BNBOnly (xi s) then do {
               s \<leftarrow> XIic_BusNotBusyFuncPtr s;
               Some (s\<lparr>xi := (xi s)\<lparr>BNBOnly := False\<rparr>\<rparr>)}
             else call_send 0 s);
        Some (XIIC_INTR_BNB_MASK, XIic_DisableIntr XIIC_INTR_BNB_MASK s)}
      else if IntrStatus AND XIIC_INTR_TX_EMPTY_MASK \<noteq> 0 \<or> IntrStatus AND XIIC_INTR_TX_HALF_MASK \<noteq> 0 then do {
        let s = count_iic (SendInterrupts_update (\<lambda>n. n + 1)) s;
        s \<leftarrow> (if Status AND XIIC_SR_ADDR_AS_SLAVE_MASK \<noteq> 0 then XIic_SendSlaveFuncPtr s else XIic_SendMasterFuncPtr s);
        let (v, s) = XIic_ReadReg XIIC_IISR_OFFSET s;
        Some (v AND (XIIC_INTR_TX_EMPTY_MASK OR XIIC_INTR_TX_HALF_MASK), s)}
      else Some (0, s))"

definition XIic_InterruptHandler :: "'u xiic_sys \<Rightarrow> 'u xiic_sys option" where
  "XIic_InterruptHandler s = do {
     let (IntrPending, s) = XIic_ReadReg XIIC_IISR_OFFSET s;
     let (IntrEnable, s) = XIic_ReadReg XIIC_IIER_OFFSET s;
     let IntrStatus = IntrPending AND IntrEnable;
     if IntrStatus = 0 then Some s
     else do {
       let (enabled, s) = XIic_IsIntrGlobalEnabled s;
       if \<not> enabled then Some s
       else do {
         let s = count_iic (IicInterrupts_update (\<lambda>n. n + 1)) s;
         let (Status, s) = XIic_ReadReg XIIC_SR_REG_OFFSET s;
         (Clear, s) \<leftarrow> iic_service IntrStatus Status s;
         Some (XIic_WriteReg XIIC_IISR_OFFSET Clear s)}}}"

subsection \<open>The calls of the application as events\<close>

text \<open>
  What the interrupt handler does to the application: it calls one of the three handlers.
\<close>

datatype iic_event = RecvEvent int | SendEvent int | StatusEvent int

end
