(* ===== verification/Xiic_Props.thy ===== *)
theory Xiic_Props
  imports Xiic_Transfer
begin

section \<open>Correctness of the I2C controller driver\<close>

text \<open>
  What is observed of a state: the bytes that were written to the transmit register (\<open>dtr\<close>), and the
  interrupt enable register (\<open>ier\<close>), which is plain storage of the controller: only the driver changes it.  All
  other registers may read as anything at any time.
\<close>

subsection \<open>Observations\<close>

definition dtr :: "'u xiic_sys \<Rightarrow> u32 list" where
  "dtr s = map snd (filter (\<lambda>(a, v). a = IicBase (xi s) + 0x108) (writes_of (events (xbus s))))"

definition ier :: "'u xiic_sys \<Rightarrow> u32" where
  "ier s = cells (xbus s) (IicBase (xi s) + 0x28)"

definition ier_plain :: "'u xiic_sys \<Rightarrow> bool" where
  "ier_plain s \<longleftrightarrow> plain (xbus s) (IicBase (xi s) + 0x28)"

lemmas obs_defs = dtr_def ier_def ier_plain_def

lemma read_reg [simp]:
  "xi (snd (XIic_ReadReg off s)) = xi s" "xmem (snd (XIic_ReadReg off s)) = xmem s" "xup (snd (XIic_ReadReg off s)) = xup s"
  "MasterFuncPtr (snd (XIic_ReadReg off s)) = MasterFuncPtr s" "SlaveIncluded (snd (XIic_ReadReg off s)) = SlaveIncluded s"
  "MultiIncluded (snd (XIic_ReadReg off s)) = MultiIncluded s" "dtr (snd (XIic_ReadReg off s)) = dtr s"
  "ier (snd (XIic_ReadReg off s)) = ier s" "ier_plain s \<Longrightarrow> ier_plain (snd (XIic_ReadReg off s))"
  "ier_plain s \<Longrightarrow> fst (XIic_ReadReg 0x28 s) = ier s"
  by (simp_all add: XIic_ReadReg_def obs_defs Let_def split_beta bus_read_plain) (simp_all add: bus_read_def Let_def)

lemma write_reg [simp]:
  "xi (XIic_WriteReg off v s) = xi s" "xmem (XIic_WriteReg off v s) = xmem s" "xup (XIic_WriteReg off v s) = xup s"
  "MasterFuncPtr (XIic_WriteReg off v s) = MasterFuncPtr s" "SlaveIncluded (XIic_WriteReg off v s) = SlaveIncluded s"
  "MultiIncluded (XIic_WriteReg off v s) = MultiIncluded s"
  "dtr (XIic_WriteReg off v s) = dtr s @ (if off = 0x108 then [v] else [])"
  "ier (XIic_WriteReg off v s) = (if off = 0x28 then v else ier s)"
  "ier_plain (XIic_WriteReg off v s) = ier_plain s"
  by (simp_all add: XIic_WriteReg_def obs_defs)

lemma obs_update [simp]:
  "IicBase x = IicBase (xi s) \<Longrightarrow> dtr (s\<lparr>xi := x\<rparr>) = dtr s" "IicBase x = IicBase (xi s) \<Longrightarrow> ier (s\<lparr>xi := x\<rparr>) = ier s"
  "IicBase x = IicBase (xi s) \<Longrightarrow> ier_plain (s\<lparr>xi := x\<rparr>) = ier_plain s"
  "dtr (s\<lparr>xmem := m\<rparr>) = dtr s" "ier (s\<lparr>xmem := m\<rparr>) = ier s" "ier_plain (s\<lparr>xmem := m\<rparr>) = ier_plain s"
  "dtr (s\<lparr>xup := u\<rparr>) = dtr s" "ier (s\<lparr>xup := u\<rparr>) = ier s" "ier_plain (s\<lparr>xup := u\<rparr>) = ier_plain s"
  "dtr (s\<lparr>MasterFuncPtr := f\<rparr>) = dtr s" "ier (s\<lparr>MasterFuncPtr := f\<rparr>) = ier s" "ier_plain (s\<lparr>MasterFuncPtr := f\<rparr>) = ier_plain s"
  by (simp_all add: obs_defs)

lemma count_iic [simp]:
  "dtr (count_iic f s) = dtr s" "ier (count_iic f s) = ier s" "ier_plain (count_iic f s) = ier_plain s"
  "xmem (count_iic f s) = xmem s" "xup (count_iic f s) = xup s" "MasterFuncPtr (count_iic f s) = MasterFuncPtr s"
  "SlaveIncluded (count_iic f s) = SlaveIncluded s" "MultiIncluded (count_iic f s) = MultiIncluded s"
  by (simp_all add: count_iic_def)

lemma DisableIntr_effect [simp]:
  "xi (XIic_DisableIntr m s) = xi s" "xmem (XIic_DisableIntr m s) = xmem s" "xup (XIic_DisableIntr m s) = xup s"
  "MasterFuncPtr (XIic_DisableIntr m s) = MasterFuncPtr s" "SlaveIncluded (XIic_DisableIntr m s) = SlaveIncluded s"
  "MultiIncluded (XIic_DisableIntr m s) = MultiIncluded s" "dtr (XIic_DisableIntr m s) = dtr s"
  "ier_plain s \<Longrightarrow> ier_plain (XIic_DisableIntr m s)" "ier_plain s \<Longrightarrow> ier (XIic_DisableIntr m s) = ier s AND NOT m"
  by (simp_all add: XIic_DisableIntr_def Let_def split_beta)

lemma EnableIntr_effect [simp]:
  "xi (XIic_EnableIntr m s) = xi s" "xmem (XIic_EnableIntr m s) = xmem s" "xup (XIic_EnableIntr m s) = xup s"
  "MasterFuncPtr (XIic_EnableIntr m s) = MasterFuncPtr s" "SlaveIncluded (XIic_EnableIntr m s) = SlaveIncluded s"
  "MultiIncluded (XIic_EnableIntr m s) = MultiIncluded s" "dtr (XIic_EnableIntr m s) = dtr s"
  "ier_plain s \<Longrightarrow> ier_plain (XIic_EnableIntr m s)" "ier_plain s \<Longrightarrow> ier (XIic_EnableIntr m s) = ier s OR m"
  by (simp_all add: XIic_EnableIntr_def Let_def split_beta)

lemma ClearIntr_effect [simp]:
  "xi (XIic_ClearIntr m s) = xi s" "xmem (XIic_ClearIntr m s) = xmem s" "xup (XIic_ClearIntr m s) = xup s"
  "MasterFuncPtr (XIic_ClearIntr m s) = MasterFuncPtr s" "SlaveIncluded (XIic_ClearIntr m s) = SlaveIncluded s"
  "MultiIncluded (XIic_ClearIntr m s) = MultiIncluded s" "dtr (XIic_ClearIntr m s) = dtr s"
  "ier_plain s \<Longrightarrow> ier_plain (XIic_ClearIntr m s)" "ier_plain s \<Longrightarrow> ier (XIic_ClearIntr m s) = ier s"
  by (simp_all add: XIic_ClearIntr_def Let_def split_beta)

lemma ClearEnableIntr_effect [simp]:
  "xi (XIic_ClearEnableIntr m s) = xi s" "xmem (XIic_ClearEnableIntr m s) = xmem s" "xup (XIic_ClearEnableIntr m s) = xup s"
  "MasterFuncPtr (XIic_ClearEnableIntr m s) = MasterFuncPtr s" "SlaveIncluded (XIic_ClearEnableIntr m s) = SlaveIncluded s"
  "MultiIncluded (XIic_ClearEnableIntr m s) = MultiIncluded s" "dtr (XIic_ClearEnableIntr m s) = dtr s"
  "ier_plain s \<Longrightarrow> ier_plain (XIic_ClearEnableIntr m s)" "ier_plain s \<Longrightarrow> ier (XIic_ClearEnableIntr m s) = ier s OR m"
  by (simp_all add: XIic_ClearEnableIntr_def Let_def split_beta)

lemma FlushTxFifo_effect [simp]:
  "xi (XIic_FlushTxFifo s) = xi s" "xmem (XIic_FlushTxFifo s) = xmem s" "xup (XIic_FlushTxFifo s) = xup s"
  "MasterFuncPtr (XIic_FlushTxFifo s) = MasterFuncPtr s" "SlaveIncluded (XIic_FlushTxFifo s) = SlaveIncluded s"
  "MultiIncluded (XIic_FlushTxFifo s) = MultiIncluded s" "dtr (XIic_FlushTxFifo s) = dtr s"
  "ier_plain s \<Longrightarrow> ier_plain (XIic_FlushTxFifo s)" "ier_plain s \<Longrightarrow> ier (XIic_FlushTxFifo s) = ier s"
  by (simp_all add: XIic_FlushTxFifo_def Let_def split_beta)

text \<open>Writing bytes of the buffer to the transmit register.\<close>

lemma write_byte [simp]:
  "dtr (XIic_WriteSendByte s) = dtr s @ [ucast (xmem s (SendBufferPtr (xi s)))]" "ier (XIic_WriteSendByte s) = ier s"
  "ier_plain (XIic_WriteSendByte s) = ier_plain s" "xmem (XIic_WriteSendByte s) = xmem s" "xup (XIic_WriteSendByte s) = xup s"
  "MasterFuncPtr (XIic_WriteSendByte s) = MasterFuncPtr s" "SlaveIncluded (XIic_WriteSendByte s) = SlaveIncluded s"
  "MultiIncluded (XIic_WriteSendByte s) = MultiIncluded s"
  by (simp_all add: XIic_WriteSendByte_def Let_def)

text \<open>The fields of the instance that a transfer depends on.\<close>

definition same_setup :: "'u XIic \<Rightarrow> 'u XIic \<Rightarrow> bool" where
  "same_setup x y \<longleftrightarrow> IicBase y = IicBase x \<and> IicReady y = IicReady x \<and> AddrOfSlave y = AddrOfSlave x \<and> IicOptions y = IicOptions x \<and>
     TxAddrMode y = TxAddrMode x \<and> BNBOnly y = BNBOnly x \<and> StatusHandlerF y = StatusHandlerF x \<and>
     RecvHandlerF y = RecvHandlerF x \<and> SendHandlerF y = SendHandlerF x"

lemma write_byte_inst:
  "same_setup (xi s) (xi (XIic_WriteSendByte s))" "RecvBufferPtr (xi (XIic_WriteSendByte s)) = RecvBufferPtr (xi s)"
  "RecvByteCount (xi (XIic_WriteSendByte s)) = RecvByteCount (xi s)"
  "SendBufferPtr (xi (XIic_WriteSendByte s)) = SendBufferPtr (xi s) + 1"
  "SendByteCount (xi (XIic_WriteSendByte s)) = SendByteCount (xi s) - 1"
  by (simp_all add: XIic_WriteSendByte_def same_setup_def count_iic_def Let_def)

lemma same_setup_trans: "same_setup x y \<Longrightarrow> same_setup y z \<Longrightarrow> same_setup x z"
  by (simp add: same_setup_def)

lemma write_bytes_effect:
  "dtr (write_bytes n s) = dtr s @ map (\<lambda>i. ucast (xmem s (SendBufferPtr (xi s) + of_nat i))) [0..<n] \<and>
   ier (write_bytes n s) = ier s \<and> ier_plain (write_bytes n s) = ier_plain s \<and> xmem (write_bytes n s) = xmem s \<and>
   xup (write_bytes n s) = xup s \<and> MasterFuncPtr (write_bytes n s) = MasterFuncPtr s \<and>
   SlaveIncluded (write_bytes n s) = SlaveIncluded s \<and> MultiIncluded (write_bytes n s) = MultiIncluded s \<and>
   same_setup (xi s) (xi (write_bytes n s)) \<and> RecvBufferPtr (xi (write_bytes n s)) = RecvBufferPtr (xi s) \<and>
   RecvByteCount (xi (write_bytes n s)) = RecvByteCount (xi s) \<and>
   SendBufferPtr (xi (write_bytes n s)) = SendBufferPtr (xi s) + of_nat n \<and>
   SendByteCount (xi (write_bytes n s)) = SendByteCount (xi s) - int n"
proof (induction n arbitrary: s)
  case 0
  then show ?case
    by (simp add: same_setup_def)
next
  case (Suc n)
  have "map (\<lambda>i. ucast (xmem s (SendBufferPtr (xi s) + of_nat i))) [0..<Suc n] =
    ucast (xmem s (SendBufferPtr (xi s))) # map (\<lambda>i. ucast (xmem s (SendBufferPtr (xi s) + 1 + of_nat i)) :: u32) [0..<n]"
    by (simp add: upt_conv_Cons map_Suc_upt [symmetric] o_def add.assoc del: upt_Suc)
  then show ?case
    using Suc.IH [of "XIic_WriteSendByte s"] write_byte_inst [of s]
    by (auto simp: algebra_simps elim: same_setup_trans simp del: upt_Suc)
qed

subsection \<open>Sending as master\<close>

text \<open>
  An application that records the calls of its handlers, and a controller that may change every register
  except the interrupt enable register before an interrupt.
\<close>

type_synonym iic_app = "iic_event list xiic_sys"

definition logging :: "iic_event list XIic \<Rightarrow> bool" where
  "logging x \<longleftrightarrow> StatusHandlerF x = (\<lambda>e l. Some (l @ [StatusEvent e])) \<and> RecvHandlerF x = (\<lambda>n l. Some (l @ [RecvEvent n])) \<and>
     SendHandlerF x = (\<lambda>n l. Some (l @ [SendEvent n]))"

definition iic_hw :: "(addr \<Rightarrow> u32) \<times> (addr \<Rightarrow> u32 list) \<Rightarrow> 'u xiic_sys \<Rightarrow> 'u xiic_sys" where
  "iic_hw r s = (let a = IicBase (xi s) + 0x28 in
     s\<lparr>xbus := (xbus s)\<lparr>cells := (fst r)(a := cells (xbus s) a), feed := (snd r)(a := [])\<rparr>\<rparr>)"

definition iic_irq :: "iic_app \<Rightarrow> iic_app \<Rightarrow> bool" where
  "iic_irq s t \<longleftrightarrow> (\<exists>r. XIic_InterruptHandler (iic_hw r s) = Some t)"

lemma iic_hw_effect [simp]:
  "xi (iic_hw r s) = xi s" "xmem (iic_hw r s) = xmem s" "xup (iic_hw r s) = xup s" "MasterFuncPtr (iic_hw r s) = MasterFuncPtr s"
  "SlaveIncluded (iic_hw r s) = SlaveIncluded s" "MultiIncluded (iic_hw r s) = MultiIncluded s" "dtr (iic_hw r s) = dtr s"
  "ier (iic_hw r s) = ier s" "ier_plain (iic_hw r s)"
  by (simp_all add: iic_hw_def obs_defs plain_def Let_def)

text \<open>The driver as it is used on the board: no options, only the master functions included.\<close>

definition master_ready :: "iic_app \<Rightarrow> bool" where
  "master_ready s \<longleftrightarrow> ier_plain s \<and> IicOptions (xi s) = 0 \<and> \<not> BNBOnly (xi s) \<and> logging (xi s) \<and> \<not> SlaveIncluded s \<and> \<not> MultiIncluded s"

text \<open>The rest of the message: \<open>n\<close> bytes from \<open>ptr\<close> on; what was written so far is \<open>w\<close> and the other bytes.\<close>

definition send_data :: "addr \<Rightarrow> u32 list \<Rightarrow> u8 list \<Rightarrow> int \<Rightarrow> addr \<Rightarrow> (addr \<Rightarrow> u8) \<Rightarrow> u32 list \<Rightarrow> bool" where
  "send_data buf w p n ptr m d \<longleftrightarrow>
     0 \<le> n \<and> n \<le> int (length p) \<and> ptr = buf + of_nat (length p - nat n) \<and> (\<forall>i<length p. m (buf + of_nat i) = p ! i) \<and>
     d = w @ map ucast (take (length p - nat n) p)"

text \<open>The bus-free interrupt is on, and the end was reported, only when no byte is left.\<close>

definition send_flags :: "int \<Rightarrow> u32 \<Rightarrow> iic_event list \<Rightarrow> bool" where
  "send_flags n e l \<longleftrightarrow> e AND 0x8 = 0 \<and> (e AND 0x10 \<noteq> 0 \<longrightarrow> n = 0) \<and> (\<forall>k. SendEvent k \<in> set l \<longrightarrow> k = 0 \<and> n = 0)"

definition isending :: "addr \<Rightarrow> u32 list \<Rightarrow> u8 list \<Rightarrow> iic_app \<Rightarrow> bool" where
  "isending buf w p s \<longleftrightarrow> master_ready s \<and> MasterFuncPtr s = MasterData \<and> TxAddrMode (xi s) = 0 \<and> RecvBufferPtr (xi s) = 0 \<and>
     send_data buf w p (SendByteCount (xi s)) (SendBufferPtr (xi s)) (xmem s) (dtr s) \<and>
     send_flags (SendByteCount (xi s)) (ier s) (xup s)"

lemma same_setup_ready:
  "same_setup (xi s) (xi t) \<Longrightarrow> ier_plain t = ier_plain s \<Longrightarrow> SlaveIncluded t = SlaveIncluded s \<Longrightarrow> MultiIncluded t = MultiIncluded s \<Longrightarrow>
   master_ready t = master_ready s"
  by (auto simp: master_ready_def same_setup_def logging_def)

lemma send_data_more:
  assumes "send_data buf w p n ptr m d" "0 \<le> k" "k \<le> n"
  shows "send_data buf w p (n - k) (ptr + of_nat (nat k)) m (d @ map (\<lambda>i. ucast (m (ptr + of_nat i))) [0..<nat k])"
proof -
  define j where "j = length p - nat n"
  have i: "0 \<le> n" "n \<le> int (length p)" "ptr = buf + of_nat j" "\<And>i. i < length p \<Longrightarrow> m (buf + of_nat i) = p ! i"
    "d = w @ map ucast (take j p)"
    using assms(1) by (auto simp: send_data_def j_def)
  have len: "length p - nat (n - k) = j + nat k" "j + nat k \<le> length p"
    using i(1,2) assms(2,3) by (auto simp: j_def)
  have "map (\<lambda>i. ucast (m (ptr + of_nat i))) [0..<nat k] = (map ucast (take (nat k) (drop j p)) :: u32 list)"
    using len(2) i(4) by (intro nth_equalityI) (auto simp: i(3) add.assoc simp flip: of_nat_add)
  then show ?thesis
    using i len assms(2,3) by (simp add: send_data_def take_add)
qed

lemma send_flags_more: "send_flags n e l \<Longrightarrow> n \<noteq> 0 \<Longrightarrow> send_flags k e l"
  by (auto simp: send_flags_def)

lemma send_flags_disable: "send_flags n e l \<Longrightarrow> send_flags n (e AND NOT m) l"
proof -
  have "(e AND NOT m) AND b = (e AND b) AND NOT m" for b
    by (simp add: ac_simps)
  then show "send_flags n e l \<Longrightarrow> send_flags n (e AND NOT m) l"
    by (auto simp: send_flags_def)
qed

lemma isending_hw: "isending buf w p s \<Longrightarrow> isending buf w p (iic_hw r s)"
  by (simp add: isending_def master_ready_def)

lemma isending_count: "isending buf w p s \<Longrightarrow> isending buf w p (count_iic f s)"
  using same_setup_ready [of s "count_iic f s"] by (simp add: isending_def count_iic_def same_setup_def)

lemma isending_read: "isending buf w p s \<Longrightarrow> isending buf w p (snd (XIic_ReadReg off s))"
  by (simp add: isending_def master_ready_def)

lemma isending_write: "isending buf w p s \<Longrightarrow> off \<noteq> 0x108 \<Longrightarrow> off \<noteq> 0x28 \<Longrightarrow> isending buf w p (XIic_WriteReg off v s)"
  by (simp add: isending_def master_ready_def)

lemma isending_disable: "isending buf w p s \<Longrightarrow> isending buf w p (XIic_DisableIntr m s)"
  by (simp add: isending_def master_ready_def send_flags_disable)

lemmas isending_intros = isending_hw isending_count isending_read isending_write isending_disable

text \<open>Filling the FIFO sends a part of the rest and leaves at least the last byte.\<close>

lemma fill_effect:
  assumes "IicOptions (xi s) = 0" "SendByteCount (xi s) > 1"
    "k = min (SendByteCount (xi s) - 1) (uint (16 - ucast (fst (XIic_ReadReg 0x114 s) + 1) :: u8))"
  shows "XIic_TransmitFifoFill False s = write_bytes (nat k) (snd (XIic_ReadReg 0x114 s))" "0 \<le> k" "k < SendByteCount (xi s)"
proof -
  define a where "a = uint (16 - ucast (fst (XIic_ReadReg 0x114 s) + 1) :: u8)"
  have e: "k = (if SendByteCount (xi s) > a then a else SendByteCount (xi s) - 1)"
    by (auto simp: assms(3) a_def [symmetric])
  show "XIic_TransmitFifoFill False s = write_bytes (nat k) (snd (XIic_ReadReg 0x114 s))"
    unfolding e XIic_TransmitFifoFill_def using assms(1) by (simp add: split_beta Let_def a_def)
  show "0 \<le> k" "k < SendByteCount (xi s)"
    using assms(2) by (auto simp: assms(3))
qed

lemma fill_sending:
  assumes "isending buf w p s" "SendByteCount (xi s) > 1"
  shows "isending buf w p (XIic_TransmitFifoFill False s)"
proof -
  define k where "k = min (SendByteCount (xi s) - 1) (uint (16 - ucast (fst (XIic_ReadReg 0x114 s) + 1) :: u8))"
  note i = assms(1) [unfolded isending_def]
  have "IicOptions (xi s) = 0"
    using i by (simp add: master_ready_def)
  note f = fill_effect [OF this assms(2) k_def]
  note w = write_bytes_effect [of "nat k" "snd (XIic_ReadReg 0x114 s)", folded f(1), simplified]
  have "send_data buf w p (SendByteCount (xi s) - k) (SendBufferPtr (xi s) + of_nat (nat k)) (xmem s)
      (dtr s @ map (\<lambda>i. ucast (xmem s (SendBufferPtr (xi s) + of_nat i))) [0..<nat k])"
    by (rule send_data_more) (use i f(2,3) in simp_all)
  moreover have "send_flags (SendByteCount (xi s) - k) (ier s) (xup s)"
    using i assms(2) send_flags_more [of "SendByteCount (xi s)" "ier s" "xup s"] by auto
  moreover have "master_ready (XIic_TransmitFifoFill False s)"
    using i by (subst same_setup_ready [of s]) (simp_all add: w master_ready_def)
  moreover have "TxAddrMode (xi (XIic_TransmitFifoFill False s)) = 0"
    using w i by (simp add: same_setup_def)
  ultimately show ?thesis
    unfolding isending_def using i f(2) by (simp add: w)
qed

lemma fill_keeps:
  assumes "isending buf w p s" "SendByteCount (xi s) > 1"
  shows "SendByteCount (xi (XIic_TransmitFifoFill False s)) > 0" "xup (XIic_TransmitFifoFill False s) = xup s"
    "IicBase (xi (XIic_TransmitFifoFill False s)) = IicBase (xi s)" "ier_plain (XIic_TransmitFifoFill False s)"
    "ier (XIic_TransmitFifoFill False s) = ier s"
proof -
  have "IicOptions (xi s) = 0" and pl: "ier_plain s"
    using assms(1) by (simp_all add: isending_def master_ready_def)
  note f = fill_effect [OF this(1) assms(2) refl]
  show "SendByteCount (xi (XIic_TransmitFifoFill False s)) > 0" "xup (XIic_TransmitFifoFill False s) = xup s"
    "IicBase (xi (XIic_TransmitFifoFill False s)) = IicBase (xi s)" "ier_plain (XIic_TransmitFifoFill False s)"
    "ier (XIic_TransmitFifoFill False s) = ier s"
    unfolding f(1) using pl f(2,3) write_bytes_effect [of _ "snd (XIic_ReadReg 0x114 s)"] by (simp_all add: same_setup_def)
qed

text \<open>The last byte: it is sent, and the end of the transfer is awaited.\<close>

lemma last_byte_sending:
  assumes "isending buf w p s" "SendByteCount (xi s) = 1"
  shows "isending buf w p (XIic_EnableIntr 0x10 (XIic_DisableIntr m ((XIic_WriteSendByte s)\<lparr>xi := (xi (XIic_WriteSendByte s))\<lparr>BNBOnly := False\<rparr>\<rparr>)))"
proof -
  note i = assms(1) [unfolded isending_def]
  have "send_data buf w p (SendByteCount (xi s) - 1) (SendBufferPtr (xi s) + of_nat (nat 1)) (xmem s)
      (dtr s @ map (\<lambda>i. ucast (xmem s (SendBufferPtr (xi s) + of_nat i))) [0..<nat 1])"
    by (rule send_data_more) (use i assms(2) in simp_all)
  moreover have "send_flags 0 (ier s AND NOT m OR 0x10) (xup s)"
    using send_flags_disable [of 1 "ier s" "xup s" m] i assms(2) by (auto simp: send_flags_def bit.conj_disj_distrib2)
  ultimately show ?thesis
    using i assms(2) write_byte_inst [of s]
    by (simp add: isending_def master_ready_def same_setup_def logging_def)
qed

lemma SendMasterData_sending:
  assumes "isending buf w p s" "SendMasterData s = Some t"
  shows "isending buf w p t"
proof -
  have i: "TxAddrMode (xi s) = 0" "IicOptions (xi s) = 0"
    using assms(1) by (simp_all add: isending_def master_ready_def)
  consider "SendByteCount (xi s) > 1" | "SendByteCount (xi s) = 1" | "SendByteCount (xi s) < 1"
    by linarith
  then show ?thesis
  proof cases
    case 1
    then show ?thesis
      using assms(2) i fill_sending [OF assms(1) 1]
      by (auto simp: SendMasterData_def Let_def intro: isending_disable split: if_splits)
  next
    case 2
    let ?s = "XIic_WriteReg 0x100 (fst (XIic_ReadReg 0x100 s) AND NOT 0x4) (snd (XIic_ReadReg 0x100 s))"
    have "isending buf w p ?s" "SendByteCount (xi ?s) = 1"
      using assms(1) 2 by (simp_all add: isending_intros)
    from last_byte_sending [OF this, of "0x86"] show ?thesis
      using assms(2) i 2 by (simp add: SendMasterData_def Let_def split_beta)
  qed (use assms i in \<open>simp add: SendMasterData_def\<close>)
qed

lemma ArbLost_sending: "isending buf w p s \<Longrightarrow> isending buf w p (ArbLostFunction s)"
  by (simp add: ArbLostFunction_def Let_def split_beta isending_intros)

lemma FlushTx_sending: "isending buf w p s \<Longrightarrow> isending buf w p (XIic_FlushTxFifo s)"
  by (simp add: XIic_FlushTxFifo_def Let_def split_beta isending_intros)

lemma status_sending: "isending buf w p s \<Longrightarrow> call_status e s = Some t \<Longrightarrow> isending buf w p t"
  by (auto simp: call_status_def isending_def master_ready_def logging_def send_flags_def)

lemma TxError_sending:
  assumes "isending buf w p s" "TxErrorHandler s = Some t"
  shows "isending buf w p t"
proof -
  have "RecvBufferPtr (xi s) = 0"
    using assms(1) by (simp add: isending_def)
  then show ?thesis
    using assms(2) unfolding TxErrorHandler_def Let_def split_beta
    by (auto split: if_splits elim!: status_sending [rotated] intro!: isending_intros FlushTx_sending assms(1))
qed

lemma end_sending:
  assumes "isending buf w p s" "ier s AND 0x10 \<noteq> 0" "call_send 0 s = Some t"
  shows "isending buf w p t"
  using assms by (auto simp: call_send_def isending_def master_ready_def logging_def send_flags_def)

lemma and_and_bit: "(a AND b) AND c \<noteq> 0 \<Longrightarrow> b AND c \<noteq> (0 :: u32)"
  by (auto simp: and.assoc)

lemma service_sending:
  assumes "isending buf w p s" "iic_service (v AND ier s) Status s = Some (Clear, t)"
  shows "isending buf w p t"
proof -
  have i: "ier s AND 8 = 0" "\<not> BNBOnly (xi s)" "\<not> SlaveIncluded s" "\<not> MultiIncluded s" "MasterFuncPtr s = MasterData"
    using assms(1) by (auto simp: isending_def master_ready_def send_flags_def)
  have rx: "(v AND ier s) AND 8 = 0"
    using i(1) by (simp add: and.assoc)
  note defs = XIic_ArbLostFuncPtr_def XIic_NotAddrAsSlaveFuncPtr_def XIic_AddrAsSlaveFuncPtr_def XIic_SendSlaveFuncPtr_def
    XIic_SendMasterFuncPtr_def
  have bnb: "isending buf w p t" if "(v AND ier s) AND 0x10 \<noteq> 0" "call_send 0 s = Some t" for t
    using end_sending [OF assms(1) and_and_bit [OF that(1)] that(2)] .
  show ?thesis
    using assms(2) i rx assms(1) unfolding iic_service_def defs
    by (auto simp: Let_def split_beta bind_eq_Some_conv split: if_splits dest: bnb [rotated]
        intro!: isending_intros ArbLost_sending elim!: TxError_sending [rotated] SendMasterData_sending [rotated])
qed

lemma handler_sending:
  assumes "isending buf w p s" "XIic_InterruptHandler s = Some t"
  shows "isending buf w p t"
proof -
  define s1 where "s1 = snd (XIic_ReadReg 0x28 (snd (XIic_ReadReg 0x20 s)))"
  define s2 where "s2 = snd (XIic_ReadReg 0x104 (count_iic (IicInterrupts_update (\<lambda>n. n + 1)) (snd (XIic_ReadReg 0x1C s1))))"
  have i: "isending buf w p s1" "isending buf w p (snd (XIic_ReadReg 0x1C s1))" "isending buf w p s2" "ier s2 = ier s"
    using assms(1) by (simp_all add: s1_def s2_def isending_intros)
  have p: "fst (XIic_ReadReg 0x28 (snd (XIic_ReadReg 0x20 s))) = ier s"
    using assms(1) by (simp add: isending_def master_ready_def)
  show ?thesis
    using assms(2) i service_sending [OF i(3)] p unfolding XIic_InterruptHandler_def XIic_IsIntrGlobalEnabled_def
    by (auto simp: Let_def split_beta bind_eq_Some_conv s1_def [symmetric] s2_def [symmetric] split: if_splits intro!: isending_intros)
qed

text \<open>A transfer that was accepted is in this state.\<close>

lemma isending_enable: "isending buf w p s \<Longrightarrow> m AND 0x18 = 0 \<Longrightarrow> isending buf w p (XIic_ClearEnableIntr m s)"
proof -
  assume a: "isending buf w p s" "m AND 0x18 = 0"
  have "m AND 8 = 0" "m AND 0x10 = 0"
    using and_sub_zero [OF a(2), of 8] and_sub_zero [OF a(2), of "0x10"] by simp_all
  with a(1) show ?thesis
    by (simp add: isending_def master_ready_def send_flags_def bit.conj_disj_distrib2)
qed

lemma not_busy:
  assumes "IsBusBusy s = (False, t)"
  shows "t = snd (XIic_ReadReg 0x104 (snd (XIic_ReadReg 0x100 s)))"
  using assms by (auto simp: IsBusBusy_def Let_def split_beta split: if_splits)

lemma MasterSend_sending:
  assumes "master_ready s" "p \<noteq> []" "\<forall>i<length p. xmem s (buf + of_nat i) = p ! i" "ier s AND 0x18 = 0" "\<forall>e. SendEvent e \<notin> set (xup s)"
    "XIic_MasterSend buf (int (length p)) s = (r, t)" "r \<noteq> XST_IIC_BUS_BUSY"
  shows "r = 0" "isending buf (dtr s @ [ucast (addr7 (AddrOfSlave (xi s)) 0)]) p t" "ier t AND 4 \<noteq> 0"
    "SendByteCount (xi t) > 0" "xup t = xup s" "IicBase (xi t) = IicBase (xi s)"
proof -
  let ?w = "dtr s @ [ucast (addr7 (AddrOfSlave (xi s)) 0)]"
  define s1 where "s1 = (XIic_IntrGlobalDisable s)\<lparr>MasterFuncPtr := MasterData, xi := (xi (XIic_IntrGlobalDisable s))\<lparr>IsDynamic := False\<rparr>\<rparr>"
  define s2 where "s2 = snd (XIic_ReadReg 0x104 (snd (XIic_ReadReg 0x100 s1)))"
  define s3 where "s3 = tx_repeat s2"
  define s4 where "s4 = send_address (s3\<lparr>xi := (xi s3)\<lparr>SendByteCount := int (length p), SendBufferPtr := buf, RecvBufferPtr := 0\<rparr>\<rparr>)"
  define s5 where "s5 = s4\<lparr>xi := (xi s4)\<lparr>TxAddrMode := 0\<rparr>\<rparr>"
  have nb: "\<not> fst (IsBusBusy s1)"
    using assms(6,7) by (auto simp: XIic_MasterSend_def Let_def split_beta s1_def [symmetric])
  then have "IsBusBusy s1 = (False, s2)"
    using not_busy [of s1] by (metis prod.collapse s2_def)
  then have e: "r = 0" "t = XIic_IntrGlobalEnable (tx_go (tx_begin s5))"
    using assms(6) unfolding XIic_MasterSend_def s1_def [symmetric] Let_def by (simp_all add: s5_def s4_def s3_def)
  have o: "IicOptions (xi s3) = 0" "AddrOfSlave (xi s3) = AddrOfSlave (xi s)" "dtr s3 = dtr s" "ier s3 = ier s" "xmem s3 = xmem s" "xup s3 = xup s"
    "MasterFuncPtr s3 = MasterData" "master_ready s3"
    using assms(1) by (auto simp: s3_def tx_repeat_def s2_def s1_def XIic_IntrGlobalDisable_def master_ready_def count_iic_def logging_def
        split_beta Let_def)
  have "isending buf ?w p s5"
    using o assms(2-5) and_sub_zero [OF assms(4), of 8] and_sub_zero [OF assms(4), of "0x10"]
    by (auto simp: s5_def s4_def send_address_def XIic_Send7BitAddr_def isending_def master_ready_def logging_def send_data_def send_flags_def)
  then have i: "isending buf ?w p (tx_begin s5)"
    by (auto simp: tx_begin_def Let_def intro!: isending_enable fill_sending)
  have pl: "ier_plain (if 1 < SendByteCount (xi s5) then XIic_TransmitFifoFill False s5 else s5)"
    using fill_sending \<open>isending buf ?w p s5\<close> by (auto simp: isending_def master_ready_def)
  have n5: "SendByteCount (xi s5) > 0" "xup s5 = xup s" "IicBase (xi s5) = IicBase (xi s)"
    using o assms(2) by (simp_all add: s5_def s4_def send_address_def XIic_Send7BitAddr_def)
      (auto simp: s3_def tx_repeat_def s2_def s1_def XIic_IntrGlobalDisable_def count_iic_def split_beta Let_def)
  show "SendByteCount (xi t) > 0" "xup t = xup s" "IicBase (xi t) = IicBase (xi s)"
    using n5 fill_keeps [OF \<open>isending buf ?w p s5\<close>]
    by (auto simp: e(2) XIic_IntrGlobalEnable_def tx_go_def tx_begin_def Let_def split_beta)
  show "r = 0"
    by (rule e(1))
  show "isending buf ?w p t"
    using i by (simp add: e(2) XIic_IntrGlobalEnable_def tx_go_def Let_def split_beta isending_intros)
  show "ier t AND 4 \<noteq> 0"
    using pl by (simp add: e(2) XIic_IntrGlobalEnable_def tx_go_def tx_begin_def Let_def split_beta bit.conj_disj_distrib2 or_eq_0_iff)
qed

subsection \<open>Interrupts that the controller raises\<close>

text \<open>A register reads as \<open>v\<close> in a state.\<close>

definition reads_as :: "'u xiic_sys \<Rightarrow> addr \<Rightarrow> u32 \<Rightarrow> bool" where
  "reads_as s off v \<longleftrightarrow> plain (xbus s) (IicBase (xi s) + off) \<and> cells (xbus s) (IicBase (xi s) + off) = v"

lemma reads_asD: "reads_as s off v \<Longrightarrow> fst (XIic_ReadReg off s) = v"
  by (simp add: reads_as_def XIic_ReadReg_def split_beta bus_read_plain)

lemma reads_as_keep [intro]:
  "reads_as s off v \<Longrightarrow> reads_as (snd (XIic_ReadReg o' s)) off v" "reads_as s off v \<Longrightarrow> reads_as (count_iic f s) off v"
  "reads_as s off v \<Longrightarrow> off \<noteq> o' \<Longrightarrow> reads_as (XIic_WriteReg o' x s) off v"
  by (simp_all add: reads_as_def XIic_ReadReg_def XIic_WriteReg_def count_iic_def split_beta)

text \<open>The registers at an interrupt: the status \<open>v\<close>, interrupts on, not addressed as slave.\<close>

definition iic_regs :: "addr \<Rightarrow> u32 \<Rightarrow> (addr \<Rightarrow> u32) \<times> (addr \<Rightarrow> u32 list) \<Rightarrow> bool" where
  "iic_regs base v r \<longleftrightarrow> (\<forall>off\<in>{0x1C, 0x20, 0x104, 0x114, 0x118}. snd r (base + off) = []) \<and> fst r (base + 0x20) = v \<and>
     fst r (base + 0x1C) = 0x80000000 \<and> fst r (base + 0x104) AND 2 = 0"

lemma iic_regs_reads:
  assumes "iic_regs (IicBase (xi s)) v r"
  shows "reads_as (iic_hw r s) 0x20 v" "reads_as (iic_hw r s) 0x1C 0x80000000"
    "\<exists>x. reads_as (iic_hw r s) 0x104 x \<and> x AND 2 = 0" "reads_as (iic_hw r s) 0x114 (fst r (IicBase (xi s) + 0x114))"
    "reads_as (iic_hw r s) 0x118 (fst r (IicBase (xi s) + 0x118))"
  using assms by (simp_all add: iic_regs_def reads_as_def iic_hw_def plain_def Let_def)

text \<open>The state in which the interrupt is served, and what the handler then does.\<close>

definition serving :: "(addr \<Rightarrow> u32) \<times> (addr \<Rightarrow> u32 list) \<Rightarrow> 'u xiic_sys \<Rightarrow> 'u xiic_sys" where
  "serving r s = snd (XIic_ReadReg 0x104 (count_iic (IicInterrupts_update (\<lambda>n. n + 1))
     (snd (XIic_ReadReg 0x1C (snd (XIic_ReadReg 0x28 (snd (XIic_ReadReg 0x20 (iic_hw r s)))))))))"

lemma serving_effect [simp]:
  "xmem (serving r s) = xmem s" "xup (serving r s) = xup s" "MasterFuncPtr (serving r s) = MasterFuncPtr s"
  "SlaveIncluded (serving r s) = SlaveIncluded s" "MultiIncluded (serving r s) = MultiIncluded s" "dtr (serving r s) = dtr s"
  "ier (serving r s) = ier s" "ier_plain (serving r s)"
  "xi (serving r s) = xi (count_iic (IicInterrupts_update (\<lambda>n. n + 1)) s)"
  by (simp_all add: serving_def) (simp add: count_iic_def)

lemma serving_reads:
  "reads_as (iic_hw r s) off v \<Longrightarrow> reads_as (serving r s) off v"
  unfolding serving_def by (intro reads_as_keep)

lemma handler_serves:
  assumes "iic_regs (IicBase (xi s)) v r"
  shows "\<exists>x. x AND 2 = 0 \<and> XIic_InterruptHandler (iic_hw r s) =
    (if v AND ier s = 0 then Some (snd (XIic_ReadReg 0x28 (snd (XIic_ReadReg 0x20 (iic_hw r s)))))
     else do { (Clear, t) \<leftarrow> iic_service (v AND ier s) x (serving r s); Some (XIic_WriteReg 0x20 Clear t) })"
proof -
  note g = iic_regs_reads [OF assms]
  obtain x where x: "reads_as (iic_hw r s) 0x104 x" "x AND 2 = 0"
    using g(3) by blast
  let ?s2 = "snd (XIic_ReadReg 0x28 (snd (XIic_ReadReg 0x20 (iic_hw r s))))"
  have "fst (XIic_ReadReg 0x20 (iic_hw r s)) = v" "fst (XIic_ReadReg 0x28 (snd (XIic_ReadReg 0x20 (iic_hw r s)))) = ier s"
    "fst (XIic_ReadReg 0x1C ?s2) = 0x80000000"
    using g(1,2) by (auto intro: reads_asD)
  moreover have "fst (XIic_ReadReg 0x104 (count_iic (IicInterrupts_update (\<lambda>n. n + 1)) (snd (XIic_ReadReg 0x1C ?s2)))) = x"
    using x(1) by (intro reads_asD reads_as_keep)
  ultimately show ?thesis
    using x(2) by (intro exI [of _ x]) (simp add: XIic_InterruptHandler_def XIic_IsIntrGlobalEnabled_def Let_def split_beta serving_def)
qed

lemma one_bit:
  assumes "(2 ^ k :: u32) AND e \<noteq> 0"
  shows "(2 ^ k :: u32) AND e = 2 ^ k"
proof -
  have "bit e k"
    using assms by (auto simp: and.commute and_exp_eq_0_iff_not_bit)
  then show ?thesis
    by (intro bit_word_eqI) (auto simp: bit_simps)
qed

lemmas status_bits = one_bit [of 2, simplified] one_bit [of 3, simplified] one_bit [of 4, simplified]

subsection \<open>A message is sent to its end\<close>

text \<open>While bytes are left the transmitter interrupt is on, and afterwards the one for the free bus.\<close>

definition tx_live :: "iic_app \<Rightarrow> bool" where
  "tx_live s \<longleftrightarrow> (if SendByteCount (xi s) = 0 then ier s AND 4 = 0 \<and> ier s AND 0x10 \<noteq> 0 else ier s AND 4 \<noteq> 0)"

lemma fill_count:
  assumes "isending buf w p s" "SendByteCount (xi s) > 1" "reads_as s 0x114 x" "x < 15"
  shows "SendByteCount (xi (XIic_TransmitFifoFill False s)) < SendByteCount (xi s)" "SendByteCount (xi (XIic_TransmitFifoFill False s)) > 0"
proof -
  define a where "a = uint (16 - ucast (fst (XIic_ReadReg 0x114 s) + 1) :: u8)"
  define k where "k = min (SendByteCount (xi s) - 1) a"
  have "IicOptions (xi s) = 0"
    using assms(1) by (simp add: isending_def master_ready_def)
  note f = fill_effect [OF this assms(2) k_def [unfolded a_def]]
  note w = write_bytes_effect [of "nat k" "snd (XIic_ReadReg 0x114 s)", folded f(1), simplified]
  have "x + 1 \<le> 15"
    using assms(4) by (simp add: inc_le)
  then have "unat (ucast (x + 1) :: u8) \<le> 15"
    by (simp add: word_le_nat_alt unsigned_ucast_eq unsigned_take_bit_eq take_bit_nat_eq_self)
  then have "(ucast (x + 1) :: u8) \<noteq> 16"
    by auto
  then have "a > 0"
    using reads_asD [OF assms(3)] by (auto simp: a_def order_less_le unsigned_eq_0_iff dest: sym)
  then have "k > 0"
    using assms(2) by (simp add: k_def)
  then show "SendByteCount (xi (XIic_TransmitFifoFill False s)) < SendByteCount (xi s)" "SendByteCount (xi (XIic_TransmitFifoFill False s)) > 0"
    using w f(3) by simp_all
qed

lemma SendMasterData_turn:
  assumes "isending buf w p s" "SendByteCount (xi s) > 0" "ier s AND 4 \<noteq> 0" "reads_as s 0x114 x" "x < 15"
  obtains t where "SendMasterData s = Some t" "SendByteCount (xi t) < SendByteCount (xi s)" "0 \<le> SendByteCount (xi t)" "tx_live t"
    "xup t = xup s" "IicBase (xi t) = IicBase (xi s)"
proof -
  have i: "TxAddrMode (xi s) = 0" "IicOptions (xi s) = 0" "ier_plain s"
    using assms(1) by (simp_all add: isending_def master_ready_def)
  show ?thesis
  proof (cases "SendByteCount (xi s) > 1")
    case True
    define s1 where "s1 = XIic_TransmitFifoFill False s"
    define t where "t = (if SendByteCount (xi s1) < 2 then XIic_DisableIntr 0x80 s1 else s1)"
    note c = fill_count [OF assms(1) True assms(4,5), folded s1_def] and f = fill_keeps [OF assms(1) True, folded s1_def]
    have t: "xi t = xi s1" "xup t = xup s" "ier t AND 4 \<noteq> 0"
      using assms(3) f by (simp_all add: t_def and.assoc)
    have "SendMasterData s = Some t"
      using True i by (simp add: SendMasterData_def s1_def [symmetric] t_def)
    then show ?thesis
      using t c f(3) by (intro that [of t]) (simp_all add: tx_live_def)
  next
    case False
    then have one: "SendByteCount (xi s) = 1"
      using assms(2) by simp
    define s1 where "s1 = XIic_WriteSendByte (XIic_WriteReg 0x100 (fst (XIic_ReadReg 0x100 s) AND NOT 4) (snd (XIic_ReadReg 0x100 s)))"
    define t where "t = XIic_EnableIntr 0x10 (XIic_DisableIntr 0x86 (s1\<lparr>xi := (xi s1)\<lparr>BNBOnly := False\<rparr>\<rparr>))"
    have s1: "SendByteCount (xi s1) = 0" "xup s1 = xup s" "IicBase (xi s1) = IicBase (xi s)" "ier_plain s1"
      using one i(3) by (simp_all add: s1_def write_byte_inst write_byte_inst(1) [unfolded same_setup_def])
    have "tx_live t"
      using s1 by (simp add: t_def tx_live_def bit.conj_disj_distrib2 and.assoc or_eq_0_iff)
    moreover have "SendMasterData s = Some t"
      using one i by (simp add: SendMasterData_def Let_def split_beta t_def s1_def)
    moreover have "SendByteCount (xi t) = 0" "xup t = xup s" "IicBase (xi t) = IicBase (xi s)"
      using s1 by (simp_all add: t_def)
    ultimately show ?thesis
      using one by (intro that [of t]) simp_all
  qed
qed

lemma tx_turn:
  assumes "isending buf w p s" "tx_live s" "iic_regs (IicBase (xi s)) 4 r" "fst r (IicBase (xi s) + 0x114) < 15"
  obtains t where "XIic_InterruptHandler (iic_hw r s) = Some t" "isending buf w p t" "tx_live t" "xup t = xup s"
    "IicBase (xi t) = IicBase (xi s)" "SendByteCount (xi t) \<le> SendByteCount (xi s) - (if SendByteCount (xi s) = 0 then 0 else 1)"
proof -
  obtain x where x: "x AND 2 = 0" "XIic_InterruptHandler (iic_hw r s) =
    (if 4 AND ier s = 0 then Some (snd (XIic_ReadReg 0x28 (snd (XIic_ReadReg 0x20 (iic_hw r s)))))
     else do { (Clear, t) \<leftarrow> iic_service (4 AND ier s) x (serving r s); Some (XIic_WriteReg 0x20 Clear t) })"
    using handler_serves [OF assms(3)] by blast
  note fin = handler_sending [OF isending_hw [OF assms(1)]]
  have n: "0 \<le> SendByteCount (xi s)" "MasterFuncPtr s = MasterData"
    using assms(1) by (simp_all add: isending_def send_data_def)
  show ?thesis
  proof (cases "SendByteCount (xi s) = 0")
    case True
    then have "4 AND ier s = 0"
      using assms(2) by (simp add: tx_live_def and.commute)
    with x(2) have h: "XIic_InterruptHandler (iic_hw r s) = Some (snd (XIic_ReadReg 0x28 (snd (XIic_ReadReg 0x20 (iic_hw r s)))))"
      by simp
    show ?thesis
      by (rule that [OF h fin [OF h]]) (use assms(2) True in \<open>simp_all add: tx_live_def\<close>)
  next
    case False
    then have four: "4 AND ier s = 4" "ier s AND 4 \<noteq> 0"
      using assms(2) status_bits(1) [of "ier s"] by (auto simp: tx_live_def and.commute)
    define s1 where "s1 = count_iic (SendInterrupts_update (\<lambda>n. n + 1)) (serving r s)"
    have i1: "isending buf w p s1"
      using assms(1) unfolding s1_def serving_def by (intro isending_intros)
    have s1: "SendByteCount (xi s1) = SendByteCount (xi s)" "xup s1 = xup s" "IicBase (xi s1) = IicBase (xi s)" "ier s1 = ier s"
      "MasterFuncPtr s1 = MasterData"
      using n(2) by (simp_all add: s1_def) (simp_all add: count_iic_def)
    have r1: "reads_as s1 0x114 (fst r (IicBase (xi s) + 0x114))"
      unfolding s1_def by (intro reads_as_keep serving_reads iic_regs_reads [OF assms(3)])
    obtain t1 where t1: "SendMasterData s1 = Some t1" "SendByteCount (xi t1) < SendByteCount (xi s)" "0 \<le> SendByteCount (xi t1)"
      "tx_live t1" "xup t1 = xup s" "IicBase (xi t1) = IicBase (xi s)"
      using SendMasterData_turn [OF i1 _ _ r1 assms(4)] False n(1) four(2) s1 by (metis order_le_less)
    let ?t = "XIic_WriteReg 0x20 (fst (XIic_ReadReg 0x20 t1) AND (4 OR 0x80)) (snd (XIic_ReadReg 0x20 t1))"
    have "iic_service 4 x (serving r s) = Some (fst (XIic_ReadReg 0x20 t1) AND (4 OR 0x80), snd (XIic_ReadReg 0x20 t1))"
      using x(1) t1(1) s1(5) by (simp add: iic_service_def XIic_SendMasterFuncPtr_def s1_def [symmetric] split_beta Let_def)
    with x(2) four(1) have h: "XIic_InterruptHandler (iic_hw r s) = Some ?t"
      by simp
    show ?thesis
      by (rule that [OF h fin [OF h]]) (use t1 False in \<open>simp_all add: tx_live_def\<close>)
  qed
qed

lemma tx_end:
  assumes "isending buf w p s" "SendByteCount (xi s) = 0" "tx_live s" "iic_regs (IicBase (xi s)) 0x10 r"
  obtains t where "XIic_InterruptHandler (iic_hw r s) = Some t" "isending buf w p t" "SendByteCount (xi t) = 0"
    "xup t = xup s @ [SendEvent 0]"
proof -
  obtain x where x: "XIic_InterruptHandler (iic_hw r s) =
    (if 0x10 AND ier s = 0 then Some (snd (XIic_ReadReg 0x28 (snd (XIic_ReadReg 0x20 (iic_hw r s)))))
     else do { (Clear, t) \<leftarrow> iic_service (0x10 AND ier s) x (serving r s); Some (XIic_WriteReg 0x20 Clear t) })"
    using handler_serves [OF assms(4)] by blast
  have i: "\<not> BNBOnly (xi s)" "SendHandlerF (xi s) = (\<lambda>n l. Some (l @ [SendEvent n]))"
    using assms(1) by (auto simp: isending_def master_ready_def logging_def)
  have "0x10 AND ier s \<noteq> 0"
    using assms(2,3) by (simp add: tx_live_def and.commute)
  then have b: "0x10 AND ier s = 0x10"
    by (rule status_bits(3))
  let ?t = "XIic_WriteReg 0x20 0x10 (XIic_DisableIntr 0x10 ((serving r s)\<lparr>xup := xup s @ [SendEvent 0]\<rparr>))"
  have "iic_service 0x10 x (serving r s) = Some (0x10, XIic_DisableIntr 0x10 ((serving r s)\<lparr>xup := xup s @ [SendEvent 0]\<rparr>))"
    using i by (simp add: iic_service_def call_send_def count_iic_def)
  with x b have h: "XIic_InterruptHandler (iic_hw r s) = Some ?t"
    by simp
  show ?thesis
    by (rule that [OF h handler_sending [OF isending_hw [OF assms(1)] h]]) (use assms(2) in \<open>simp_all add: count_iic_def\<close>)
qed

text \<open>The interrupts of a message: the transmitter has room, and at the end the bus is free.\<close>

fun iic_irqs :: "((addr \<Rightarrow> u32) \<times> (addr \<Rightarrow> u32 list)) list \<Rightarrow> iic_app \<Rightarrow> iic_app option" where
  "iic_irqs [] s = Some s"
| "iic_irqs (r # rs) s = do {s \<leftarrow> XIic_InterruptHandler (iic_hw r s); iic_irqs rs s}"

lemma iic_irqs_append: "iic_irqs (rs @ qs) s = do {s \<leftarrow> iic_irqs rs s; iic_irqs qs s}"
  by (induction rs arbitrary: s) (auto split: bind_split)

definition iic_tx_regs :: "addr \<Rightarrow> (addr \<Rightarrow> u32) \<times> (addr \<Rightarrow> u32 list) \<Rightarrow> bool" where
  "iic_tx_regs base r \<longleftrightarrow> iic_regs base 4 r \<and> fst r (base + 0x114) < 15"

lemma tx_turns:
  assumes "isending buf w p s" "tx_live s" "\<forall>r\<in>set rs. iic_tx_regs (IicBase (xi s)) r" "nat (SendByteCount (xi s)) \<le> length rs"
  obtains t where "iic_irqs rs s = Some t" "isending buf w p t" "tx_live t" "xup t = xup s" "IicBase (xi t) = IicBase (xi s)"
    "SendByteCount (xi t) = 0"
  using assms
proof (induction rs arbitrary: s thesis)
  case Nil
  have "SendByteCount (xi s) = 0"
    using Nil.prems(2,5) by (simp add: isending_def send_data_def)
  then show ?case
    by (intro Nil.prems(1) [of s]) (use Nil.prems(2,3) in simp_all)
next
  case (Cons r rs)
  have g: "iic_regs (IicBase (xi s)) 4 r" "fst r (IicBase (xi s) + 0x114) < 15"
    using Cons.prems(4) by (simp_all add: iic_tx_regs_def)
  obtain t where t: "XIic_InterruptHandler (iic_hw r s) = Some t" "isending buf w p t" "tx_live t" "xup t = xup s"
    "IicBase (xi t) = IicBase (xi s)" "SendByteCount (xi t) \<le> SendByteCount (xi s) - (if SendByteCount (xi s) = 0 then 0 else 1)"
    by (rule tx_turn [OF Cons.prems(2,3) g])
  have n: "nat (SendByteCount (xi t)) \<le> length rs"
    using t(6) Cons.prems(5) by (auto split: if_splits)
  have r: "\<forall>r\<in>set rs. iic_tx_regs (IicBase (xi t)) r"
    using Cons.prems(4) t(5) by simp
  obtain t' where "iic_irqs rs t = Some t'" "isending buf w p t'" "tx_live t'" "xup t' = xup t" "IicBase (xi t') = IicBase (xi t)"
    "SendByteCount (xi t') = 0"
    by (rule Cons.IH [OF _ t(2,3) r n])
  then show ?case
    using Cons.prems(1) [of t'] t by simp
qed

lemma message_sent:
  assumes "isending buf w p s" "ier s AND 4 \<noteq> 0" "SendByteCount (xi s) \<noteq> 0" "\<forall>r\<in>set rs. iic_tx_regs (IicBase (xi s)) r" "length p \<le> length rs"
    "iic_regs (IicBase (xi s)) 0x10 r"
  obtains t where "iic_irqs (rs @ [r]) s = Some t" "dtr t = w @ map ucast p" "xup t = xup s @ [SendEvent 0]" "isending buf w p t"
proof -
  have l: "tx_live s" "nat (SendByteCount (xi s)) \<le> length rs"
    using assms(1-3,5) by (auto simp: tx_live_def isending_def send_data_def)
  obtain t where t: "iic_irqs rs s = Some t" "isending buf w p t" "tx_live t" "xup t = xup s"
    "IicBase (xi t) = IicBase (xi s)" "SendByteCount (xi t) = 0"
    by (rule tx_turns [OF assms(1) l(1) assms(4) l(2)])
  have g: "iic_regs (IicBase (xi t)) 0x10 r"
    using assms(6) t(5) by simp
  obtain u where u: "XIic_InterruptHandler (iic_hw r t) = Some u" "isending buf w p u" "SendByteCount (xi u) = 0" "xup u = xup t @ [SendEvent 0]"
    by (rule tx_end [OF t(2,6,3) g])
  have "dtr u = w @ map ucast p"
    using u(2,3) by (simp add: isending_def send_data_def)
  then show ?thesis
    using that [of u] t(1,4) u by (simp add: iic_irqs_append)
qed

end
