(* ===== verification/Xiic_Recv.thy ===== *)
theory Xiic_Recv
  imports Xiic_Props
begin

section \<open>Receiving as master\<close>

text \<open>
  The words that were read from the receive register (\<open>drr\<close>), and the invariant of a transfer: what was read is
  in the buffer, in order, and nothing outside of the buffer has changed.
\<close>

fun reads_at :: "addr \<Rightarrow> event list \<Rightarrow> u32 list" where
  "reads_at a [] = []"
| "reads_at a (Rd w b v # es) = (if b = a then v # reads_at a es else reads_at a es)"
| "reads_at a (Wr w b v # es) = reads_at a es"

lemma reads_at_append [simp]: "reads_at a (es @ fs) = reads_at a es @ reads_at a fs"
  by (induction a es rule: reads_at.induct) auto

definition drr :: "'u xiic_sys \<Rightarrow> u32 list" where
  "drr s = reads_at (IicBase (xi s) + 0x10C) (events (xbus s))"

definition lay :: "(addr \<Rightarrow> u8) \<Rightarrow> addr \<Rightarrow> u8 list \<Rightarrow> addr \<Rightarrow> u8" where
  "lay m p bs a = (if unat (a - p) < length bs then bs ! unat (a - p) else m a)"

lemma lay_Nil [simp]: "lay m p [] = m"
  by (simp add: lay_def fun_eq_iff)

lemma lay_snoc:
  assumes "length bs < 2 ^ 32"
  shows "(lay m p bs)(p + of_nat (length bs) := b) = lay m p (bs @ [b])"
proof
  fix a
  show "((lay m p bs)(p + of_nat (length bs) := b)) a = lay m p (bs @ [b]) a"
  proof (cases "a = p + of_nat (length bs)")
    case True
    then show ?thesis
      using assms by (simp add: lay_def unat_of_nat_small)
  next
    case False
    have "unat (a - p) \<noteq> length bs"
    proof
      assume "unat (a - p) = length bs"
      then have "a - p = of_nat (length bs)"
        using assms by (simp add: word_unat_eq_iff unat_of_nat_small)
      with False show False
        by (simp add: diff_eq_eq add.commute)
    qed
    with False show ?thesis
      by (auto simp: lay_def nth_append)
  qed
qed

subsection \<open>Reading bytes\<close>

lemma drr_read [simp]:
  "drr (snd (XIic_ReadReg off s)) = drr s @ (if off = 0x10C then [fst (XIic_ReadReg off s)] else [])"
  by (auto simp: drr_def XIic_ReadReg_def bus_read_def Let_def split_beta)

lemma drr_write [simp]: "drr (XIic_WriteReg off v s) = drr s"
  by (simp add: drr_def XIic_WriteReg_def)

lemma drr_update [simp]:
  "IicBase x = IicBase (xi s) \<Longrightarrow> drr (s\<lparr>xi := x\<rparr>) = drr s" "drr (s\<lparr>xmem := m\<rparr>) = drr s" "drr (s\<lparr>xup := u\<rparr>) = drr s"
  "drr (s\<lparr>MasterFuncPtr := f\<rparr>) = drr s" "drr (count_iic g s) = drr s" "drr (iic_hw r s) = drr s"
  by (simp_all add: drr_def count_iic_def iic_hw_def Let_def)

lemma drr_ops [simp]:
  "drr (XIic_DisableIntr m s) = drr s" "drr (XIic_EnableIntr m s) = drr s" "drr (XIic_ClearIntr m s) = drr s"
  "drr (XIic_ClearEnableIntr m s) = drr s" "drr (XIic_FlushTxFifo s) = drr s"
  by (simp_all add: XIic_DisableIntr_def XIic_EnableIntr_def XIic_ClearIntr_def XIic_ClearEnableIntr_def XIic_FlushTxFifo_def
      Let_def split_beta)

lemma read_byte_effect:
  "ier (XIic_ReadRecvByte s) = ier s" "ier_plain s \<Longrightarrow> ier_plain (XIic_ReadRecvByte s)" "xup (XIic_ReadRecvByte s) = xup s"
  "MasterFuncPtr (XIic_ReadRecvByte s) = MasterFuncPtr s" "SlaveIncluded (XIic_ReadRecvByte s) = SlaveIncluded s"
  "MultiIncluded (XIic_ReadRecvByte s) = MultiIncluded s" "same_setup (xi s) (xi (XIic_ReadRecvByte s))"
  "RecvByteCount (xi (XIic_ReadRecvByte s)) = RecvByteCount (xi s) - 1"
  "RecvBufferPtr (xi (XIic_ReadRecvByte s)) = RecvBufferPtr (xi s) + 1"
  "drr (XIic_ReadRecvByte s) = drr s @ [fst (XIic_ReadReg 0x10C s)]"
  "xmem (XIic_ReadRecvByte s) = (xmem s)(RecvBufferPtr (xi s) := ucast (fst (XIic_ReadReg 0x10C s)))"
  by (simp_all add: XIic_ReadRecvByte_def split_beta Let_def) (simp_all add: count_iic_def same_setup_def)

text \<open>\<open>R\<close> of \<open>n\<close> bytes are still to come; \<open>d\<close> was read before the transfer and \<open>m\<close> is the memory before it.\<close>

definition recv_data :: "addr \<Rightarrow> u32 list \<Rightarrow> (addr \<Rightarrow> u8) \<Rightarrow> nat \<Rightarrow> iic_app \<Rightarrow> bool" where
  "recv_data buf d m n s \<longleftrightarrow>
     (\<exists>got. drr s = d @ got \<and> int (length got) = int n - RecvByteCount (xi s) \<and> length got \<le> n \<and> RecvBufferPtr (xi s) = buf + of_nat (length got) \<and>
       xmem s = lay m buf (map ucast got))"

lemma recv_data_byte:
  assumes "recv_data buf d m n s" "RecvByteCount (xi s) > 0" "n < 2 ^ 32"
  shows "recv_data buf d m n (XIic_ReadRecvByte s)"
proof -
  obtain got where g: "drr s = d @ got" "int (length got) = int n - RecvByteCount (xi s)" "RecvBufferPtr (xi s) = buf + of_nat (length got)"
    "xmem s = lay m buf (map ucast got)"
    using assms(1) by (auto simp: recv_data_def)
  have "length got < n"
    using g(2) assms(2) by simp
  then have "xmem (XIic_ReadRecvByte s) = lay m buf (map ucast (got @ [fst (XIic_ReadReg 0x10C s)]))"
    using lay_snoc [of "map ucast got" m buf] assms(3) by (simp add: read_byte_effect g)
  then show ?thesis
    using g \<open>length got < n\<close> unfolding recv_data_def
    by (intro exI [of _ "got @ [fst (XIic_ReadReg 0x10C s)]"]) (auto simp: read_byte_effect)
qed

lemma read_bytes_effect:
  assumes "recv_data buf d m n s" "int k \<le> RecvByteCount (xi s)" "n < 2 ^ 32" "ier_plain s"
  shows "recv_data buf d m n (read_bytes k s) \<and> RecvByteCount (xi (read_bytes k s)) = RecvByteCount (xi s) - int k \<and>
    same_setup (xi s) (xi (read_bytes k s)) \<and> ier (read_bytes k s) = ier s \<and> ier_plain (read_bytes k s) \<and> xup (read_bytes k s) = xup s \<and>
    MasterFuncPtr (read_bytes k s) = MasterFuncPtr s \<and> SlaveIncluded (read_bytes k s) = SlaveIncluded s \<and>
    MultiIncluded (read_bytes k s) = MultiIncluded s"
  using assms
proof (induction k arbitrary: s)
  case 0
  then show ?case
    by (simp add: same_setup_def)
next
  case (Suc k)
  have "recv_data buf d m n (XIic_ReadRecvByte s)" "int k \<le> RecvByteCount (xi (XIic_ReadRecvByte s))" "ier_plain (XIic_ReadRecvByte s)"
    using recv_data_byte [OF Suc.prems(1) _ Suc.prems(3)] Suc.prems(2,4) by (simp_all add: read_byte_effect)
  from Suc.IH [OF this(1,2) Suc.prems(3) this(3)] show ?case
    using same_setup_trans [OF read_byte_effect(7) [of s]] by (simp add: read_byte_effect(1,3-6,8))
qed

subsection \<open>The invariant of a receive transfer\<close>

definition recv_flags :: "int \<Rightarrow> u32 \<Rightarrow> iic_event list \<Rightarrow> bool" where
  "recv_flags n e l \<longleftrightarrow> e AND 0x94 = 0 \<and> (\<forall>k. RecvEvent k \<in> set l \<longrightarrow> k = 0 \<and> n = 0)"

definition ireceiving :: "addr \<Rightarrow> u32 list \<Rightarrow> (addr \<Rightarrow> u8) \<Rightarrow> nat \<Rightarrow> iic_app \<Rightarrow> bool" where
  "ireceiving buf d m n s \<longleftrightarrow> master_ready s \<and> MasterFuncPtr s = MasterData \<and> n < 2 ^ 32 \<and> 0 \<le> RecvByteCount (xi s) \<and>
     recv_data buf d m n s \<and> recv_flags (RecvByteCount (xi s)) (ier s) (xup s)"

lemma recv_flags_disable: "recv_flags n e l \<Longrightarrow> recv_flags n (e AND NOT k) l"
proof -
  have "(e AND NOT k) AND b = (e AND b) AND NOT k" for b
    by (simp add: ac_simps)
  then show "recv_flags n e l \<Longrightarrow> recv_flags n (e AND NOT k) l"
    by (simp add: recv_flags_def)
qed

lemma recv_data_cong:
  "drr t = drr s \<Longrightarrow> RecvByteCount (xi t) = RecvByteCount (xi s) \<Longrightarrow> RecvBufferPtr (xi t) = RecvBufferPtr (xi s) \<Longrightarrow> xmem t = xmem s \<Longrightarrow>
   recv_data buf d m n t = recv_data buf d m n s"
  by (simp add: recv_data_def)

lemma recv_count_data:
  "recv_data buf d m n (count_iic f s) = recv_data buf d m n s" "RecvByteCount (xi (count_iic f s)) = RecvByteCount (xi s)"
  "same_setup (xi s) (xi (count_iic f s))"
  by (simp_all add: recv_data_def) (simp_all add: count_iic_def same_setup_def)

lemma ireceiving_count: "ireceiving buf d m n s \<Longrightarrow> ireceiving buf d m n (count_iic f s)"
  using same_setup_ready [of s "count_iic f s"] by (simp add: ireceiving_def recv_count_data)

lemma ireceiving_read: "ireceiving buf d m n s \<Longrightarrow> off \<noteq> 0x10C \<Longrightarrow> ireceiving buf d m n (snd (XIic_ReadReg off s))"
  by (simp add: ireceiving_def master_ready_def recv_data_def)

lemma ireceiving_write: "ireceiving buf d m n s \<Longrightarrow> off \<noteq> 0x28 \<Longrightarrow> ireceiving buf d m n (XIic_WriteReg off v s)"
  by (simp add: ireceiving_def master_ready_def recv_data_def)

lemma ireceiving_disable: "ireceiving buf d m n s \<Longrightarrow> ireceiving buf d m n (XIic_DisableIntr k s)"
  by (simp add: ireceiving_def master_ready_def recv_data_def recv_flags_disable)

lemma ireceiving_clear: "ireceiving buf d m n s \<Longrightarrow> ireceiving buf d m n (XIic_ClearIntr k s)"
  by (simp add: ireceiving_def master_ready_def recv_data_def)

lemma ireceiving_flush: "ireceiving buf d m n s \<Longrightarrow> ireceiving buf d m n (XIic_FlushTxFifo s)"
  by (simp add: ireceiving_def master_ready_def recv_data_def)

lemma ireceiving_hw: "ireceiving buf d m n s \<Longrightarrow> ireceiving buf d m n (iic_hw r s)"
  by (simp add: ireceiving_def master_ready_def recv_data_def)

lemmas ireceiving_intros = ireceiving_hw ireceiving_count ireceiving_read ireceiving_write ireceiving_disable ireceiving_clear ireceiving_flush

lemma recv_status: "ireceiving buf d m n s \<Longrightarrow> call_status e s = Some t \<Longrightarrow> ireceiving buf d m n t"
  by (auto simp: call_status_def ireceiving_def master_ready_def logging_def recv_flags_def recv_data_def)

lemma recv_ArbLost: "ireceiving buf d m n s \<Longrightarrow> ireceiving buf d m n (ArbLostFunction s)"
  by (simp add: ArbLostFunction_def Let_def split_beta ireceiving_intros)

lemma recv_TxError:
  assumes "ireceiving buf d m n s" "TxErrorHandler s = Some t"
  shows "ireceiving buf d m n t"
  using assms(2) unfolding TxErrorHandler_def Let_def split_beta
  by (auto split: if_splits elim!: recv_status [rotated] intro!: ireceiving_intros assms(1))

lemma read_bytes_receiving:
  assumes "ireceiving buf d m n s" "int k \<le> RecvByteCount (xi s)"
  shows "RecvByteCount (xi (read_bytes k s)) = RecvByteCount (xi s) - int k" "xup (read_bytes k s) = xup s" "ier (read_bytes k s) = ier s"
    "IicBase (xi (read_bytes k s)) = IicBase (xi s)" "ier_plain (read_bytes k s)" "RecvHandlerF (xi (read_bytes k s)) = RecvHandlerF (xi s)"
    "k = 0 \<or> RecvByteCount (xi s) \<noteq> 0 \<Longrightarrow> ireceiving buf d m n (read_bytes k s)"
proof -
  have i: "recv_data buf d m n s" "n < 2 ^ 32" "ier_plain s"
    using assms(1) by (simp_all add: ireceiving_def master_ready_def)
  note w = read_bytes_effect [OF i(1) assms(2) i(2,3)]
  show "RecvByteCount (xi (read_bytes k s)) = RecvByteCount (xi s) - int k" "xup (read_bytes k s) = xup s" "ier (read_bytes k s) = ier s"
    "IicBase (xi (read_bytes k s)) = IicBase (xi s)" "ier_plain (read_bytes k s)" "RecvHandlerF (xi (read_bytes k s)) = RecvHandlerF (xi s)"
    using w by (simp_all add: same_setup_def)
  have "master_ready (read_bytes k s)"
    using assms(1) by (subst same_setup_ready [of s]) (simp_all add: w i(3) ireceiving_def)
  then show "k = 0 \<or> RecvByteCount (xi s) \<noteq> 0 \<Longrightarrow> ireceiving buf d m n (read_bytes k s)"
    using w assms by (auto simp: ireceiving_def recv_flags_def)
qed

lemma recv_end:
  assumes "ireceiving buf d m n s" "RecvByteCount (xi s) = 0"
  shows "call_recv 0 s = Some (s\<lparr>xup := xup s @ [RecvEvent 0]\<rparr>)" "ireceiving buf d m n (s\<lparr>xup := xup s @ [RecvEvent 0]\<rparr>)"
  using assms by (auto simp: call_recv_def ireceiving_def master_ready_def logging_def recv_flags_def recv_data_def)

lemma sint_small_u32:
  assumes "(v :: u32) < 16"
  shows "sint (v + 1) = int (unat v) + 1"
proof -
  have "v + 1 \<le> 16"
    using assms by (simp add: inc_le)
  moreover have "unat (v + 1) = unat v + 1"
    using assms by (subst unat_add_lem [THEN iffD1]) (simp_all add: word_less_nat_alt)
  ultimately show ?thesis
    using sint_unat_small [of "v + 1"] by (simp add: word_le_nat_alt)
qed

text \<open>
  One receive interrupt when the FIFO holds \<open>B\<close> bytes.  One byte before the end the acknowledgement is
  switched off, at the end all is read and reported, and before that the FIFO is read so that a byte is left.
\<close>

lemma RecvMasterData_turn:
  assumes "ireceiving buf d m n s" "fst (XIic_ReadReg 0x118 (snd (XIic_ReadReg 0x100 s))) = v" "v < 16"
    "B = int (unat v) + 1" "R = RecvByteCount (xi s)"
  obtains t where "RecvMasterData s = Some t" "ireceiving buf d m n t" "IicBase (xi t) = IicBase (xi s)"
    "R - B = 1 \<longrightarrow> RecvByteCount (xi t) = R - 1 \<and> xup t = xup s \<and> ier t = ier s AND NOT 2"
    "R = B \<longrightarrow> RecvByteCount (xi t) = 0 \<and> xup t = xup s @ [RecvEvent 0] \<and> ier t = ier s AND NOT 8"
    "R - B \<noteq> 1 \<and> R \<noteq> B \<longrightarrow> RecvByteCount (xi t) = R - max 0 (min 16 (R - B - 1)) \<and> xup t = xup s \<and> ier t = ier s"
proof -
  define c where "c = fst (XIic_ReadReg 0x100 s)"
  define s0 where "s0 = snd (XIic_ReadReg 0x118 (snd (XIic_ReadReg 0x100 s)))"
  have b: "sint (v + 1) = B" "1 \<le> B" "B \<le> 16"
    using assms(3,4) sint_small_u32 [OF assms(3)] by (simp_all add: word_less_def)
  have i: "ireceiving buf d m n s0" "RecvByteCount (xi s0) = R" "xup s0 = xup s" "ier s0 = ier s" "IicBase (xi s0) = IicBase (xi s)" "0 \<le> R"
    "IicOptions (xi s0) = 0" "ier_plain s0"
    using assms(1,5) by (simp_all add: s0_def ireceiving_intros) (simp_all add: ireceiving_def master_ready_def)
  note body = RecvMasterData_def [of s, unfolded Let_def split_beta, folded c_def s0_def, unfolded assms(2) b(1) i(2,7)]
  consider "R - B = 1" | "R = B" | "R - B \<noteq> 1" "R \<noteq> B"
    by blast
  then show ?thesis
  proof cases
    case 1
    let ?s1 = "XIic_WriteReg 0x100 (c OR 0x10) (XIic_ClearIntr 2 (XIic_DisableIntr 2 s0))"
    have s1: "ireceiving buf d m n ?s1" "int 1 \<le> RecvByteCount (xi ?s1)"
      using i(1,2) 1 b by (simp_all add: ireceiving_intros)
    note w = read_bytes_receiving [OF s1, simplified]
    have t: "RecvMasterData s = Some (XIic_ReadRecvByte ?s1)"
      using 1 by (simp add: body)
    show ?thesis
      by (rule that [OF t]) (use 1 w i b in auto)
  next
    case 2
    let ?c = "c AND NOT 4"
    let ?s1 = "XIic_WriteReg 0x100 ?c s0"
    let ?s2 = "XIic_WriteReg 0x100 (?c AND NOT 0x10) (XIic_DisableIntr 8 (XIic_WriteReg 0x120 0 (read_bytes (nat B) ?s1)))"
    have s1: "ireceiving buf d m n ?s1" "int (nat B) \<le> RecvByteCount (xi ?s1)"
      using i(1,2) 2 b by (simp_all add: ireceiving_intros)
    note w = read_bytes_receiving [OF s1]
    have s2: "ireceiving buf d m n ?s2" "RecvByteCount (xi ?s2) = 0"
      using w i(2) 2 b by (auto intro!: ireceiving_intros)
    have t: "RecvMasterData s = Some (?s2\<lparr>xup := xup ?s2 @ [RecvEvent 0]\<rparr>)"
      using 2 b(3) recv_end(1) [OF s2] by (simp add: body)
    show ?thesis
      by (rule that [OF t recv_end(2) [OF s2]]) (use 2 w i b s2(2) in auto)
  next
    case 3
    define k where "k = nat (min 16 (R - B - 1))"
    have k: "int k \<le> RecvByteCount (xi s0)" "k = 0 \<or> RecvByteCount (xi s0) \<noteq> 0" "int k = max 0 (min 16 (R - B - 1))"
      using i(2,6) b by (auto simp: k_def)
    note w = read_bytes_receiving [OF i(1) k(1)]
    have "RecvMasterData s = Some (read_bytes (nat (if R - B - 1 > 16 then 16 else R - B - 1)) s0)"
      using 3 by (simp add: body)
    also have "(if R - B - 1 > 16 then 16 else R - B - 1) = min 16 (R - B - 1)"
      by auto
    finally have t: "RecvMasterData s = Some (read_bytes k s0)"
      by (simp add: k_def)
    show ?thesis
      by (rule that [OF t w(7) [OF k(2)]]) (use 3 w i k(3) in auto)
  qed
qed

subsection \<open>Interrupts during a receive transfer\<close>

text \<open>The occupancy register has four bits.\<close>

definition rfo_ok :: "'u xiic_sys \<Rightarrow> bool" where
  "rfo_ok s \<longleftrightarrow> cells (xbus s) (IicBase (xi s) + 0x118) < 16 \<and> (\<forall>v\<in>set (feed (xbus s) (IicBase (xi s) + 0x118)). v < 16)"

lemma rfo_ok_read: "rfo_ok s \<Longrightarrow> fst (XIic_ReadReg 0x118 s) < 16"
  by (auto simp: rfo_ok_def XIic_ReadReg_def split_beta bus_read_val split: list.splits)

lemma rfo_ok_keep [intro]: "rfo_ok s \<Longrightarrow> rfo_ok (snd (XIic_ReadReg off s))" "rfo_ok s \<Longrightarrow> rfo_ok (count_iic f s)"
  by (cases "feed (xbus s) (IicBase (xi s) + 0x118)"; auto simp: rfo_ok_def XIic_ReadReg_def count_iic_def split_beta)+

definition iic_rx_irq :: "iic_app \<Rightarrow> iic_app \<Rightarrow> bool" where
  "iic_rx_irq s t \<longleftrightarrow> (\<exists>r. rfo_ok (iic_hw r s) \<and> XIic_InterruptHandler (iic_hw r s) = Some t)"

lemma recv_RecvMaster:
  assumes "ireceiving buf d m n s" "rfo_ok s" "RecvMasterData s = Some t"
  shows "ireceiving buf d m n t"
proof -
  have v: "fst (XIic_ReadReg 0x118 (snd (XIic_ReadReg 0x100 s))) < 16"
    using assms(2) by (intro rfo_ok_read rfo_ok_keep)
  obtain t' where "RecvMasterData s = Some t'" "ireceiving buf d m n t'"
    by (rule RecvMasterData_turn [OF assms(1) refl v refl refl])
  with assms(3) show ?thesis
    by simp
qed

lemma service_receiving:
  assumes "ireceiving buf d m n s" "rfo_ok s" "iic_service (v AND ier s) Status s = Some (Clear, t)"
  shows "ireceiving buf d m n t"
proof -
  have i: "ier s AND 0x94 = 0" "\<not> SlaveIncluded s" "\<not> MultiIncluded s" "MasterFuncPtr s = MasterData"
    using assms(1) by (auto simp: ireceiving_def master_ready_def recv_flags_def)
  have off: "(v AND ier s) AND 0x10 = 0" "(v AND ier s) AND 4 = 0" "(v AND ier s) AND 0x80 = 0"
    using and_sub_zero [OF i(1), of "0x10"] and_sub_zero [OF i(1), of 4] and_sub_zero [OF i(1), of "0x80"] by (simp_all add: and.assoc)
  note defs = XIic_ArbLostFuncPtr_def XIic_NotAddrAsSlaveFuncPtr_def XIic_AddrAsSlaveFuncPtr_def XIic_RecvSlaveFuncPtr_def
    XIic_RecvMasterFuncPtr_def
  show ?thesis
    using assms(3) i(2-) off assms(1,2) unfolding iic_service_def defs
    by (auto simp: Let_def split_beta bind_eq_Some_conv split: if_splits intro!: ireceiving_intros recv_ArbLost
        elim!: recv_TxError [rotated] recv_RecvMaster [rotated 2])
qed

lemma handler_receiving:
  assumes "ireceiving buf d m n s" "rfo_ok s" "XIic_InterruptHandler s = Some t"
  shows "ireceiving buf d m n t"
proof -
  define s1 where "s1 = snd (XIic_ReadReg 0x28 (snd (XIic_ReadReg 0x20 s)))"
  define s2 where "s2 = snd (XIic_ReadReg 0x104 (count_iic (IicInterrupts_update (\<lambda>n. n + 1)) (snd (XIic_ReadReg 0x1C s1))))"
  have i: "ireceiving buf d m n s1" "ireceiving buf d m n (snd (XIic_ReadReg 0x1C s1))" "ireceiving buf d m n s2" "ier s2 = ier s"
    using assms(1) by (simp_all add: s1_def s2_def ireceiving_intros)
  have p: "fst (XIic_ReadReg 0x28 (snd (XIic_ReadReg 0x20 s))) = ier s"
    using assms(1) by (simp add: ireceiving_def master_ready_def)
  have r: "rfo_ok s2"
    unfolding s2_def s1_def using assms(2) by (intro rfo_ok_keep)
  show ?thesis
    using assms(3) i service_receiving [OF i(3) r] p unfolding XIic_InterruptHandler_def XIic_IsIntrGlobalEnabled_def
    by (auto simp: Let_def split_beta bind_eq_Some_conv s1_def [symmetric] s2_def [symmetric] split: if_splits intro!: ireceiving_intros)
qed

interpretation iic_receiver: inv_system "ireceiving buf d m n" iic_rx_irq "ireceiving buf d m n"
  by unfold_locales (auto simp: iic_rx_irq_def intro: handler_receiving [OF ireceiving_hw])

interpretation iic_sender: inv_system "isending buf w p" iic_irq "isending buf w p"
  by unfold_locales (auto simp: iic_irq_def intro: handler_sending [OF isending_hw])

subsection \<open>A message is received to its end\<close>

text \<open>A receive interrupt as the driver has set it up: the FIFO holds as many bytes as asked for.\<close>

definition iic_rx_regs :: "addr \<Rightarrow> nat \<Rightarrow> (addr \<Rightarrow> u32) \<times> (addr \<Rightarrow> u32 list) \<Rightarrow> bool" where
  "iic_rx_regs base n r \<longleftrightarrow> iic_regs base 8 r \<and> fst r (base + 0x118) = ucast (recv_depth (int n))"

text \<open>The number of bytes in the FIFO then.\<close>

lemma rx_threshold:
  assumes "n > 0"
  shows "ucast (recv_depth (int n)) < (16 :: u32)" "int (unat (ucast (recv_depth (int n)) :: u32)) + 1 = (if n = 1 then 1 else min 16 (int n - 1))"
proof -
  have "unat (recv_depth (int n)) = (if n = 1 then 0 else if n \<le> 16 then n - 2 else 15)"
  proof (cases "n = 1 \<or> n > 16")
    case False
    then have "word_of_int (int n - 2) = (of_nat (n - 2) :: u8)"
      using assms by (simp add: of_nat_diff)
    then show ?thesis
      using False unat_of_nat_small [of "n - 2", where 'a = 8] by (auto simp: recv_depth_def)
  qed (auto simp: recv_depth_def)
  then have "unat (ucast (recv_depth (int n)) :: u32) = (if n = 1 then 0 else if n \<le> 16 then n - 2 else 15)"
    by (auto simp: unsigned_ucast_eq take_bit_nat_eq_self)
  then show "ucast (recv_depth (int n)) < (16 :: u32)" "int (unat (ucast (recv_depth (int n)) :: u32)) + 1 = (if n = 1 then 1 else min 16 (int n - 1))"
    using assms by (auto simp: word_less_nat_alt of_nat_diff simp del: of_nat_unat)
qed

definition rx_live :: "nat \<Rightarrow> iic_app \<Rightarrow> bool" where
  "rx_live n s \<longleftrightarrow> (if RecvByteCount (xi s) = 0 then ier s AND 8 = 0
     else ier s AND 8 \<noteq> 0 \<and> (if n = 1 then 1 else min 16 (int n - 1)) \<le> RecvByteCount (xi s))"

lemma rx_turn:
  assumes "ireceiving buf d m n s" "rx_live n s" "iic_rx_regs (IicBase (xi s)) n r" "n > 0"
  obtains t where "XIic_InterruptHandler (iic_hw r s) = Some t" "ireceiving buf d m n t" "rx_live n t" "IicBase (xi t) = IicBase (xi s)"
    "RecvByteCount (xi t) \<le> RecvByteCount (xi s) - (if RecvByteCount (xi s) = 0 then 0 else 1)"
    "xup t = xup s @ (if RecvByteCount (xi s) \<noteq> 0 \<and> RecvByteCount (xi t) = 0 then [RecvEvent 0] else [])"
proof -
  have g: "iic_regs (IicBase (xi s)) 8 r"
    using assms(3) by (simp add: iic_rx_regs_def)
  obtain x where x: "x AND 2 = 0" "XIic_InterruptHandler (iic_hw r s) =
    (if 8 AND ier s = 0 then Some (snd (XIic_ReadReg 0x28 (snd (XIic_ReadReg 0x20 (iic_hw r s)))))
     else do { (Clear, t) \<leftarrow> iic_service (8 AND ier s) x (serving r s); Some (XIic_WriteReg 0x20 Clear t) })"
    using handler_serves [OF g] by blast
  have n: "0 \<le> RecvByteCount (xi s)" "MasterFuncPtr s = MasterData"
    using assms(1) by (simp_all add: ireceiving_def)
  show ?thesis
  proof (cases "RecvByteCount (xi s) = 0")
    case True
    then have "8 AND ier s = 0"
      using assms(2) by (simp add: rx_live_def and.commute)
    with x(2) have h: "XIic_InterruptHandler (iic_hw r s) = Some (snd (XIic_ReadReg 0x28 (snd (XIic_ReadReg 0x20 (iic_hw r s)))))"
      by simp
    show ?thesis
      by (rule that [OF h]) (use assms(1,2) True in \<open>simp_all add: rx_live_def ireceiving_intros\<close>)
  next
    case False
    then have eight: "8 AND ier s = 8" "ier s AND 8 \<noteq> 0"
      using assms(2) status_bits(2) [of "ier s"] by (auto simp: rx_live_def and.commute)
    define s1 where "s1 = count_iic (RecvInterrupts_update (\<lambda>n. n + 1)) (serving r s)"
    define B where "B = int (unat (ucast (recv_depth (int n)) :: u32)) + 1"
    have i1: "ireceiving buf d m n s1"
      using assms(1) unfolding s1_def serving_def by (intro ireceiving_intros) simp_all
    have s1: "RecvByteCount (xi s1) = RecvByteCount (xi s)" "xup s1 = xup s" "IicBase (xi s1) = IicBase (xi s)" "ier s1 = ier s"
      "MasterFuncPtr s1 = MasterData"
      using n(2) by (simp_all add: s1_def) (simp_all add: count_iic_def)
    have "reads_as (iic_hw r s) 0x118 (ucast (recv_depth (int n)))"
      using iic_regs_reads(5) [OF g] assms(3) by (simp add: iic_rx_regs_def)
    then have v: "fst (XIic_ReadReg 0x118 (snd (XIic_ReadReg 0x100 s1))) = ucast (recv_depth (int n))"
      unfolding s1_def by (intro reads_asD reads_as_keep serving_reads)
    have B: "B = (if n = 1 then 1 else min 16 (int n - 1))" "B \<le> RecvByteCount (xi s)" "1 \<le> B"
      using rx_threshold(2) [OF assms(4)] assms(2,4) False by (auto simp: B_def rx_live_def)
    obtain t1 where t1: "RecvMasterData s1 = Some t1" "ireceiving buf d m n t1" "IicBase (xi t1) = IicBase (xi s1)"
      "RecvByteCount (xi s1) - B = 1 \<longrightarrow> RecvByteCount (xi t1) = RecvByteCount (xi s1) - 1 \<and> xup t1 = xup s1 \<and> ier t1 = ier s1 AND NOT 2"
      "RecvByteCount (xi s1) = B \<longrightarrow> RecvByteCount (xi t1) = 0 \<and> xup t1 = xup s1 @ [RecvEvent 0] \<and> ier t1 = ier s1 AND NOT 8"
      "RecvByteCount (xi s1) - B \<noteq> 1 \<and> RecvByteCount (xi s1) \<noteq> B \<longrightarrow>
        RecvByteCount (xi t1) = RecvByteCount (xi s1) - max 0 (min 16 (RecvByteCount (xi s1) - B - 1)) \<and> xup t1 = xup s1 \<and> ier t1 = ier s1"
      by (rule RecvMasterData_turn [OF i1 v rx_threshold(1) [OF assms(4)] B_def refl])
    let ?t = "XIic_WriteReg 0x20 8 t1"
    have "iic_service 8 x (serving r s) = Some (8, t1)"
      using x(1) t1(1) s1(5) by (simp add: iic_service_def XIic_RecvMasterFuncPtr_def s1_def [symmetric] Let_def)
    with x(2) eight(1) have h: "XIic_InterruptHandler (iic_hw r s) = Some ?t"
      by simp
    have p: "ireceiving buf d m n ?t" "IicBase (xi ?t) = IicBase (xi s)"
      using t1(2,3) s1(3) by (simp_all add: ireceiving_intros)
    have bits: "(ier s AND NOT 2) AND 8 = ier s AND 8" "(ier s AND NOT 8) AND 8 = 0"
      by (simp_all add: and.assoc)
    have live: "rx_live n ?t \<longleftrightarrow> (if RecvByteCount (xi t1) = 0 then ier t1 AND 8 = 0 else ier t1 AND 8 \<noteq> 0 \<and> B \<le> RecvByteCount (xi t1))"
      by (simp add: rx_live_def B(1))
    have ar: "B < R - max 0 (min 16 (R - B - 1))" if "B < R" for R :: int
      using that by (auto simp: min_def max_def)
    consider "RecvByteCount (xi s) - B = 1" | "RecvByteCount (xi s) = B" | "RecvByteCount (xi s) - B \<noteq> 1" "B < RecvByteCount (xi s)"
      using B(2) by linarith
    then show ?thesis
    proof cases
      case 3
      then show ?thesis
        by (intro that [OF h p(1) _ p(2)]; use t1(6) s1 B(2,3) eight(2) ar in \<open>auto simp: live min_def\<close>)
    qed (rule that [OF h p(1) _ p(2)]; use t1(4,5) s1 B(2,3) False eight(2) bits in \<open>auto simp: live\<close>)+
  qed
qed

lemma rx_turns:
  assumes "ireceiving buf d m n s" "rx_live n s" "n > 0" "\<forall>r\<in>set rs. iic_rx_regs (IicBase (xi s)) n r"
    "nat (RecvByteCount (xi s)) \<le> length rs"
  shows "\<exists>t. iic_irqs rs s = Some t \<and> ireceiving buf d m n t \<and> RecvByteCount (xi t) = 0 \<and>
    xup t = xup s @ (if RecvByteCount (xi s) = 0 then [] else [RecvEvent 0])"
  using assms
proof (induction rs arbitrary: s)
  case Nil
  then show ?case
    by (auto simp: ireceiving_def)
next
  case (Cons r rs)
  have g: "iic_rx_regs (IicBase (xi s)) n r"
    using Cons.prems(4) by simp
  obtain t where t: "XIic_InterruptHandler (iic_hw r s) = Some t" "ireceiving buf d m n t" "rx_live n t" "IicBase (xi t) = IicBase (xi s)"
    "RecvByteCount (xi t) \<le> RecvByteCount (xi s) - (if RecvByteCount (xi s) = 0 then 0 else 1)"
    "xup t = xup s @ (if RecvByteCount (xi s) \<noteq> 0 \<and> RecvByteCount (xi t) = 0 then [RecvEvent 0] else [])"
    by (rule rx_turn [OF Cons.prems(1,2) g Cons.prems(3)])
  have n: "nat (RecvByteCount (xi t)) \<le> length rs" "0 \<le> RecvByteCount (xi t)"
    using t(2,5) Cons.prems(5) by (auto simp: ireceiving_def split: if_splits)
  have "\<forall>r\<in>set rs. iic_rx_regs (IicBase (xi t)) n r"
    using Cons.prems(4) t(4) by simp
  from Cons.IH [OF t(2,3) Cons.prems(3) this n(1)] show ?case
    using t(1,5,6) n(2) by (auto split: if_splits)
qed

lemma MasterRecv_receiving:
  assumes "master_ready s" "AddrOfSlave (xi s) \<noteq> 0" "0 < n" "n < 2 ^ 32" "ier s AND 0x94 = 0" "\<forall>e. RecvEvent e \<notin> set (xup s)"
    "XIic_MasterRecv buf (int n) s = (r, t)" "r \<noteq> XST_IIC_BUS_BUSY"
  shows "r = 0" "ireceiving buf (drr s) (xmem s) n t" "rx_live n t" "RecvByteCount (xi t) = int n" "xup t = xup s" "IicBase (xi t) = IicBase (xi s)"
    "dtr t = dtr s @ [ucast (addr7 (AddrOfSlave (xi s)) 1)]"
proof -
  define s1 where "s1 = (XIic_IntrGlobalDisable s)\<lparr>MasterFuncPtr := MasterData, xi := (xi (XIic_IntrGlobalDisable s))\<lparr>IsDynamic := False\<rparr>\<rparr>"
  define s2 where "s2 = snd (XIic_ReadReg 0x104 (snd (XIic_ReadReg 0x100 s1)))"
  define s3 where "s3 = XIic_ClearEnableIntr 8 (s2\<lparr>xi := (xi s2)\<lparr>RecvByteCount := int n, RecvBufferPtr := buf, SendBufferPtr := 0\<rparr>\<rparr>)"
  define s4 where "s4 = XIic_WriteReg 0x120 (ucast (recv_depth (int n))) (rx_repeat (int n) s3)"
  define s5 where "s5 = XIic_Send7BitAddr (AddrOfSlave (xi s4)) 1 s4"
  define s6 where "s6 = XIic_ClearEnableIntr 2 (s5\<lparr>xi := (xi s5)\<lparr>TxAddrMode := 0\<rparr>\<rparr>)"
  have o: "IicOptions (xi s2) = 0" "IicOptions (xi s4) = 0" "ier_plain s2" "ier_plain s5" "ier_plain s6"
    using assms(1) by (auto simp: s6_def s5_def s4_def s3_def s2_def s1_def XIic_IntrGlobalDisable_def XIic_Send7BitAddr_def master_ready_def
        rx_repeat_def count_iic_def split_beta Let_def)
  have nb: "\<not> fst (IsBusBusy s1)"
    using assms(2,7,8) by (auto simp: XIic_MasterRecv_def Let_def split_beta s1_def [symmetric])
  then have "IsBusBusy s1 = (False, s2)"
    using not_busy [of s1] by (metis prod.collapse s2_def)
  moreover have "rx_address s4 = s5\<lparr>xi := (xi s5)\<lparr>TxAddrMode := 0\<rparr>\<rparr>"
    using o(2) by (simp add: rx_address_def s5_def Let_def)
  ultimately have e: "r = 0" "t = XIic_IntrGlobalEnable (rx_go (int n) s6)"
    using assms(2,7) o(1) unfolding XIic_MasterRecv_def s1_def [symmetric] Let_def by (simp_all add: s6_def s4_def s3_def)
  have f6: "same_setup (xi s) ((xi s6)\<lparr>TxAddrMode := TxAddrMode (xi s)\<rparr>)" "RecvByteCount (xi s6) = int n" "RecvBufferPtr (xi s6) = buf"
    "xmem s6 = xmem s" "xup s6 = xup s" "drr s6 = drr s" "ier s6 = (ier s OR 8) OR 2" "MasterFuncPtr s6 = MasterData"
    "dtr s6 = dtr s @ [ucast (addr7 (AddrOfSlave (xi s)) 1)]" "SlaveIncluded s6 = SlaveIncluded s" "MultiIncluded s6 = MultiIncluded s"
    using o(3,4) by (auto simp: s6_def s5_def s4_def s3_def s2_def s1_def XIic_IntrGlobalDisable_def XIic_Send7BitAddr_def
        rx_repeat_def count_iic_def same_setup_def split_beta Let_def)
  have t: "xi t = xi s6" "xmem t = xmem s6" "xup t = xup s6" "drr t = drr s6" "ier t = ier s6" "MasterFuncPtr t = MasterFuncPtr s6" "dtr t = dtr s6"
    "SlaveIncluded t = SlaveIncluded s6" "MultiIncluded t = MultiIncluded s6" "ier_plain t"
    using o(5) by (auto simp: e(2) XIic_IntrGlobalEnable_def rx_go_def split_beta Let_def)
  have bits: "((ier s OR 8) OR 2) AND 0x94 = 0" "((ier s OR 8) OR 2) AND 8 \<noteq> 0"
    using assms(5) by (simp_all add: bit.conj_disj_distrib2 or_eq_0_iff)
  have "master_ready t"
    using assms(1) f6(1,10,11) t by (auto simp: master_ready_def same_setup_def logging_def)
  then show "ireceiving buf (drr s) (xmem s) n t"
    using f6 t assms(4,6) bits(1) by (auto simp: ireceiving_def recv_data_def recv_flags_def)
  show "r = 0"
    by (rule e(1))
  show "rx_live n t" "RecvByteCount (xi t) = int n" "xup t = xup s" "IicBase (xi t) = IicBase (xi s)"
    "dtr t = dtr s @ [ucast (addr7 (AddrOfSlave (xi s)) 1)]"
    using f6 t assms(3) bits(2) by (auto simp: rx_live_def same_setup_def)
qed

subsection \<open>Transfers from begin to end\<close>

text \<open>A controller at \<open>0x60040000\<close> for the witnesses: the slave \<open>0x50\<close>, an idle bus, the bytes to send at \<open>0x1000\<close>, and
  the registers at an interrupt.\<close>

definition iic_idle :: iic_app where
  "iic_idle = \<lparr>xi = \<lparr>IicStats = \<lparr>ArbitrationLost = 0, RepeatedStarts = 0, BusBusy = 0, RecvBytes = 0, RecvInterrupts = 0, SendBytes = 0,
       SendInterrupts = 0, TxErrors = 0, IicInterrupts = 0\<rparr>, IicBase = 0x60040000, Has10BitAddr = False, IicReady = 0x11111111,
       IicStarted = 0x22222222, AddrOfSlave = 0x50, IicOptions = 0, SendBufferPtr = 0, RecvBufferPtr = 0, TxAddrMode = 0,
       SendByteCount = 0, RecvByteCount = 0, BNBOnly = False, GpOutWidth = 1, StatusHandlerF = (\<lambda>e l. Some (l @ [StatusEvent e])),
       RecvHandlerF = (\<lambda>n l. Some (l @ [RecvEvent n])), SendHandlerF = (\<lambda>n l. Some (l @ [SendEvent n])), IsDynamic = False,
       IsSlaveSetAckOff = False\<rparr>,
     xbus = \<lparr>cells = (\<lambda>a. 0), feed = (\<lambda>a. []), events = []\<rparr>, xmem = (\<lambda>a. if a = 0x1000 then 0xAB else 0xCD), xup = [],
     MasterFuncPtr = NoMaster, SlaveIncluded = False, MultiIncluded = False\<rparr>"

definition iic_shows :: "u32 \<Rightarrow> (addr \<Rightarrow> u32) \<times> (addr \<Rightarrow> u32 list)" where
  "iic_shows v = (\<lambda>a. if a = 0x60040020 then v else if a = 0x6004001C then 0x80000000 else 0, \<lambda>a. [])"

lemma iic_idle_ready: "master_ready iic_idle" "ier iic_idle = 0" "dtr iic_idle = []" "drr iic_idle = []" "xup iic_idle = []"
  "AddrOfSlave (xi iic_idle) = 0x50" "IicBase (xi iic_idle) = 0x60040000"
  by (simp_all add: master_ready_def logging_def iic_idle_def ier_plain_def plain_def ier_def dtr_def drr_def)

lemma iic_idle_accepts: "fst (XIic_MasterSend buf n iic_idle) = 0" "fst (XIic_MasterRecv buf n iic_idle) = 0"
  by (simp_all add: XIic_MasterSend_def XIic_MasterRecv_def IsBusBusy_def XIic_ReadReg_def XIic_IntrGlobalDisable_def XIic_WriteReg_def
      iic_idle_def bus_read_def bus_write_def Let_def split_beta)

lemma iic_shows_regs: "iic_regs 0x60040000 v (iic_shows v)" "iic_tx_regs 0x60040000 (iic_shows 4)" "iic_rx_regs 0x60040000 2 (iic_shows 8)"
  by (simp_all add: iic_regs_def iic_tx_regs_def iic_rx_regs_def iic_shows_def recv_depth_def)

text \<open>C31. Sending as master: a message that is accepted goes out as its address followed by a prefix of the
  buffer, whatever the registers of the controller read at each interrupt, and the application is told of
  the end only when the whole buffer was written.  When the transmitter has room often enough and then the bus
  is free, the whole buffer is sent and the end is reported once.\<close>

theorem xiic_master_send:
  assumes "master_ready s" "p \<noteq> []" "\<forall>i<length p. xmem s (buf + of_nat i) = p ! i" "ier s AND 0x18 = 0" "\<forall>e. SendEvent e \<notin> set (xup s)"
    "XIic_MasterSend buf (int (length p)) s = (r, t)" "r \<noteq> XST_IIC_BUS_BUSY" "head = dtr s @ [ucast (addr7 (AddrOfSlave (xi s)) 0)]"
  shows "r = 0 \<and>
    (\<forall>u. iic_irq\<^sup>*\<^sup>* t u \<longrightarrow> (\<exists>j. dtr u = head @ map ucast (take j p) \<and> (\<forall>e. SendEvent e \<in> set (xup u) \<longrightarrow> e = 0 \<and> length p \<le> j))) \<and>
    (\<forall>rs q. (\<forall>g\<in>set rs. iic_tx_regs (IicBase (xi s)) g) \<and> length p \<le> length rs \<and> iic_regs (IicBase (xi s)) 0x10 q \<longrightarrow>
      (\<exists>u. iic_irqs (rs @ [q]) t = Some u \<and> dtr u = head @ map ucast p \<and> xup u = xup s @ [SendEvent 0]))"
proof -
  note i = MasterSend_sending [OF assms(1-7), folded assms(8)]
  have "\<exists>j. dtr u = head @ map ucast (take j p) \<and> (\<forall>e. SendEvent e \<in> set (xup u) \<longrightarrow> e = 0 \<and> length p \<le> j)" if "iic_irq\<^sup>*\<^sup>* t u" for u
  proof -
    have "isending buf head p u"
      by (rule iic_sender.steps_inv [OF that i(2)])
    then show ?thesis
      by (intro exI [of _ "length p - nat (SendByteCount (xi u))"]) (auto simp: isending_def send_data_def send_flags_def)
  qed
  moreover have "\<exists>u. iic_irqs (rs @ [q]) t = Some u \<and> dtr u = head @ map ucast p \<and> xup u = xup s @ [SendEvent 0]"
    if g: "\<forall>g\<in>set rs. iic_tx_regs (IicBase (xi t)) g" "length p \<le> length rs" "iic_regs (IicBase (xi t)) 0x10 q" for rs q
  proof -
    have n: "SendByteCount (xi t) \<noteq> 0"
      using i(4) by simp
    obtain u where "iic_irqs (rs @ [q]) t = Some u" "dtr u = head @ map ucast p" "xup u = xup t @ [SendEvent 0]"
      by (rule message_sent [OF i(2,3) n g])
    then show ?thesis
      using i(5) by auto
  qed
  ultimately show ?thesis
    using i(1,6) by simp
qed

theorem xiic_master_send_witness:
  "fst (XIic_MasterSend 0x1000 2 iic_idle) = 0 \<and>
   (\<exists>u. iic_irqs [iic_shows 4, iic_shows 4, iic_shows 0x10] (snd (XIic_MasterSend 0x1000 2 iic_idle)) = Some u \<and>
     dtr u = [0xA0, 0xAB, 0xCD] \<and> xup u = [SendEvent 0])"
proof -
  have p: "\<forall>i<length [0xAB, 0xCD :: u8]. xmem iic_idle (0x1000 + of_nat i) = [0xAB, 0xCD] ! i"
    by (auto simp: iic_idle_def less_Suc_eq)
  have c: "XIic_MasterSend 0x1000 (int (length [0xAB, 0xCD :: u8])) iic_idle = (0, snd (XIic_MasterSend 0x1000 2 iic_idle))"
    by (simp add: prod_eq_iff iic_idle_accepts)
  have n: "ier iic_idle AND 0x18 = 0" "\<forall>e. SendEvent e \<notin> set (xup iic_idle)"
    by (simp_all add: iic_idle_ready)
  have g: "(\<forall>g\<in>set [iic_shows 4, iic_shows 4]. iic_tx_regs (IicBase (xi iic_idle)) g) \<and> length [0xAB, 0xCD :: u8] \<le> length [iic_shows 4, iic_shows 4] \<and>
    iic_regs (IicBase (xi iic_idle)) 0x10 (iic_shows 0x10)"
    by (simp add: iic_idle_ready iic_shows_regs)
  have x: "[0xAB, 0xCD :: u8] \<noteq> []" "(0 :: int) \<noteq> XST_IIC_BUS_BUSY"
    by simp_all
  note w = xiic_master_send [OF iic_idle_ready(1) x(1) p n c x(2) refl]
  have "\<exists>u. iic_irqs ([iic_shows 4, iic_shows 4] @ [iic_shows 0x10]) (snd (XIic_MasterSend 0x1000 2 iic_idle)) = Some u \<and>
     dtr u = (dtr iic_idle @ [ucast (addr7 (AddrOfSlave (xi iic_idle)) 0)]) @ map ucast [0xAB, 0xCD :: u8] \<and> xup u = xup iic_idle @ [SendEvent 0]"
    using w g by blast
  then show ?thesis
    by (simp add: iic_idle_ready iic_idle_accepts addr7_def)
qed

text \<open>C32. Receiving as master: the address is sent, and at any time, whatever the interrupts were, the words
  read from the receive register are stored in the buffer in order, no byte outside of the buffer has changed, and
  the application is told of the end only when the buffer is full.  As many interrupts at the programmed depth
  of the FIFO as there are bytes fill the buffer and report it once.\<close>

theorem xiic_master_recv:
  assumes "master_ready s" "AddrOfSlave (xi s) \<noteq> 0" "0 < n" "n < 2 ^ 32" "ier s AND 0x94 = 0" "\<forall>e. RecvEvent e \<notin> set (xup s)"
    "XIic_MasterRecv buf (int n) s = (r, t)" "r \<noteq> XST_IIC_BUS_BUSY"
  shows "r = 0 \<and> dtr t = dtr s @ [ucast (addr7 (AddrOfSlave (xi s)) 1)] \<and>
    (\<forall>u. iic_rx_irq\<^sup>*\<^sup>* t u \<longrightarrow> (\<exists>got. drr u = drr s @ got \<and> length got \<le> n \<and> xmem u = lay (xmem s) buf (map ucast got) \<and>
      (\<forall>e. RecvEvent e \<in> set (xup u) \<longrightarrow> e = 0 \<and> length got = n))) \<and>
    (\<forall>rs. (\<forall>g\<in>set rs. iic_rx_regs (IicBase (xi s)) n g) \<and> n \<le> length rs \<longrightarrow>
      (\<exists>u got. iic_irqs rs t = Some u \<and> drr u = drr s @ got \<and> length got = n \<and> xmem u = lay (xmem s) buf (map ucast got) \<and>
        xup u = xup s @ [RecvEvent 0]))"
proof -
  note i = MasterRecv_receiving [OF assms]
  have data: "\<exists>got. drr u = drr s @ got \<and> length got \<le> n \<and> (RecvByteCount (xi u) = 0 \<longrightarrow> length got = n) \<and>
    xmem u = lay (xmem s) buf (map ucast got) \<and> (\<forall>e. RecvEvent e \<in> set (xup u) \<longrightarrow> e = 0 \<and> length got = n)"
    if "ireceiving buf (drr s) (xmem s) n u" for u
    using that by (auto simp: ireceiving_def recv_data_def recv_flags_def)
  have "\<exists>got. drr u = drr s @ got \<and> length got \<le> n \<and> xmem u = lay (xmem s) buf (map ucast got) \<and>
      (\<forall>e. RecvEvent e \<in> set (xup u) \<longrightarrow> e = 0 \<and> length got = n)" if "iic_rx_irq\<^sup>*\<^sup>* t u" for u
    using data [OF iic_receiver.steps_inv [OF that i(2)]] by blast
  moreover have "\<exists>u got. iic_irqs rs t = Some u \<and> drr u = drr s @ got \<and> length got = n \<and> xmem u = lay (xmem s) buf (map ucast got) \<and>
      xup u = xup s @ [RecvEvent 0]" if g: "\<forall>g\<in>set rs. iic_rx_regs (IicBase (xi t)) n g" "n \<le> length rs" for rs
  proof -
    obtain u where u: "iic_irqs rs t = Some u" "ireceiving buf (drr s) (xmem s) n u" "RecvByteCount (xi u) = 0" "xup u = xup s @ [RecvEvent 0]"
      using rx_turns [OF i(2,3) assms(3) g(1)] g(2) assms(3) i(4,5) by auto
    obtain got where "drr u = drr s @ got" "length got = n" "xmem u = lay (xmem s) buf (map ucast got)"
      using data [OF u(2)] u(3) by blast
    with u show ?thesis
      by blast
  qed
  ultimately show ?thesis
    using i(1,6,7) by simp
qed

theorem xiic_master_recv_witness:
  "fst (XIic_MasterRecv 0x2000 2 iic_idle) = 0 \<and> dtr (snd (XIic_MasterRecv 0x2000 2 iic_idle)) = [0xA1] \<and>
   (\<exists>u got. iic_irqs [iic_shows 8, iic_shows 8] (snd (XIic_MasterRecv 0x2000 2 iic_idle)) = Some u \<and> drr u = got \<and>
     length got = 2 \<and> xmem u = lay (xmem iic_idle) 0x2000 (map ucast got) \<and> xup u = [RecvEvent 0])"
proof -
  have c: "XIic_MasterRecv 0x2000 (int 2) iic_idle = (0, snd (XIic_MasterRecv 0x2000 2 iic_idle))"
    by (simp add: prod_eq_iff iic_idle_accepts)
  have n: "ier iic_idle AND 0x94 = 0" "\<forall>e. RecvEvent e \<notin> set (xup iic_idle)" "AddrOfSlave (xi iic_idle) \<noteq> 0"
    by (simp_all add: iic_idle_ready)
  have g: "(\<forall>g\<in>set [iic_shows 8, iic_shows 8]. iic_rx_regs (IicBase (xi iic_idle)) 2 g) \<and> 2 \<le> length [iic_shows 8, iic_shows 8]"
    by (simp add: iic_idle_ready iic_shows_regs)
  note w = xiic_master_recv [OF iic_idle_ready(1) n(3) _ _ n(1,2) c]
  have "\<exists>u got. iic_irqs [iic_shows 8, iic_shows 8] (snd (XIic_MasterRecv 0x2000 2 iic_idle)) = Some u \<and> drr u = drr iic_idle @ got \<and>
     length got = 2 \<and> xmem u = lay (xmem iic_idle) 0x2000 (map ucast got) \<and> xup u = xup iic_idle @ [RecvEvent 0]"
    using w g by fastforce
  moreover have "dtr (snd (XIic_MasterRecv 0x2000 2 iic_idle)) = dtr iic_idle @ [ucast (addr7 (AddrOfSlave (xi iic_idle)) 1)]"
    using w by simp
  ultimately show ?thesis
    by (simp add: iic_idle_ready iic_idle_accepts addr7_def)
qed

end
