(* ===== verification/Xiic_Low.thy ===== *)
theory Xiic_Low
  imports Xiic_Recv
begin

section \<open>Polled I2C transfers without an instance (bsp/xilinx/iic/xiic_l.c)\<close>

text \<open>
  The functions of \<^verbatim>\<open>xiic_l.c\<close> get the base address of the controller and poll its registers.  Their loops may run
  forever (\<open>poll\<close> and \<open>dyn_wait\<close> are then \<open>None\<close>).  \<^verbatim>\<open>msleep(0.1)\<close> is a delay of zero ticks, so that waiting for
  the bus is a number of reads of the status register.  A count is a natural number below \<open>2 ^ 32\<close>; sending reads
  the memory, receiving returns it changed.
\<close>

abbreviation (input) XIIC_STOP :: u8 where "XIIC_STOP \<equiv> 0"
abbreviation (input) XIIC_REPEATED_START :: u8 where "XIIC_REPEATED_START \<equiv> 1"

subsection \<open>Registers\<close>

definition low_read :: "addr \<Rightarrow> addr \<Rightarrow> bus \<Rightarrow> u32 \<times> bus" where
  "low_read BaseAddress off b = bus_read W32 (BaseAddress + off) b"

definition low_write :: "addr \<Rightarrow> addr \<Rightarrow> u32 \<Rightarrow> bus \<Rightarrow> bus" where
  "low_write BaseAddress off v b = bus_write W32 (BaseAddress + off) v b"

definition XIic_ClearIisr :: "addr \<Rightarrow> u32 \<Rightarrow> bus \<Rightarrow> bus" where
  "XIic_ClearIisr BaseAddress InterruptMask b =
     (let (v, b) = low_read BaseAddress XIIC_IISR_OFFSET b in low_write BaseAddress XIIC_IISR_OFFSET (v AND InterruptMask) b)"

definition XIic_Send7BitAddress :: "addr \<Rightarrow> u8 \<Rightarrow> u8 \<Rightarrow> bus \<Rightarrow> bus" where
  "XIic_Send7BitAddress BaseAddress SlaveAddress Operation b =
     low_write BaseAddress XIIC_DTR_REG_OFFSET (ucast (addr7 (ucast SlaveAddress) Operation)) b"

definition low_DynSend7BitAddress :: "addr \<Rightarrow> u16 \<Rightarrow> u8 \<Rightarrow> bus \<Rightarrow> bus" where
  "low_DynSend7BitAddress BaseAddress SlaveAddress Operation b =
     low_write BaseAddress XIIC_DTR_REG_OFFSET (XIIC_TX_DYN_START_MASK OR ucast (addr7 (ucast SlaveAddress) Operation)) b"

definition XIic_DynSendStartStopAddress :: "addr \<Rightarrow> u16 \<Rightarrow> u8 \<Rightarrow> bus \<Rightarrow> bus" where
  "XIic_DynSendStartStopAddress BaseAddress SlaveAddress Operation b =
     low_write BaseAddress XIIC_DTR_REG_OFFSET
       (XIIC_TX_DYN_START_MASK OR (XIIC_TX_DYN_STOP_MASK OR ucast (addr7 (ucast SlaveAddress) Operation))) b"

definition low_DynSendStop :: "addr \<Rightarrow> u8 \<Rightarrow> bus \<Rightarrow> bus" where
  "low_DynSendStop BaseAddress ByteCount b = low_write BaseAddress XIIC_DTR_REG_OFFSET (XIIC_TX_DYN_STOP_MASK OR ucast ByteCount) b"

text \<open>A loop that reads a register until its value is awaited.\<close>

partial_function (option) poll :: "addr \<Rightarrow> (u32 \<Rightarrow> bool) \<Rightarrow> bus \<Rightarrow> (u32 \<times> bus) option" where
  "poll a stop b = (case bus_read W32 a b of (v, b) \<Rightarrow> if stop v then Some (v, b) else poll a stop b)"

definition await :: "addr \<Rightarrow> addr \<Rightarrow> (u32 \<Rightarrow> bool) \<Rightarrow> bus \<Rightarrow> bus option" where
  "await BaseAddress off stop b = map_option snd (poll (BaseAddress + off) stop b)"

definition bus_busy :: "u32 \<Rightarrow> bool" where
  "bus_busy StatusReg \<longleftrightarrow> StatusReg AND XIIC_SR_BUS_BUSY_MASK \<noteq> 0"

subsection \<open>The bus\<close>

definition XIic_CheckIsBusBusy :: "addr \<Rightarrow> bus \<Rightarrow> bool \<times> bus" where
  "XIic_CheckIsBusBusy BaseAddress b = (let (StatusReg, b) = low_read BaseAddress XIIC_SR_REG_OFFSET b in (bus_busy StatusReg, b))"

function wait_free :: "addr \<Rightarrow> nat \<Rightarrow> bus \<Rightarrow> int \<times> bus" where
  "wait_free BaseAddress BusyCount b =
     (let (busy, b) = XIic_CheckIsBusBusy BaseAddress b
      in if \<not> busy then (0, b) else if BusyCount > 10000 then (1, b) else wait_free BaseAddress (BusyCount + 1) b)"
  by pat_completeness auto
termination
  by (relation "measure (\<lambda>(a, n, b). 10001 - n)") auto

declare wait_free.simps [simp del]

definition XIic_WaitBusFree :: "addr \<Rightarrow> bus \<Rightarrow> int \<times> bus" where
  "XIic_WaitBusFree BaseAddress b = wait_free BaseAddress 0 b"

definition XIic_DynInit :: "addr \<Rightarrow> bus \<Rightarrow> int \<times> bus" where
  "XIic_DynInit BaseAddress b =
     (let b = low_write BaseAddress XIIC_RESETR_OFFSET XIIC_RESET_MASK b;
          b = low_write BaseAddress XIIC_RFD_REG_OFFSET 15 b;
          b = low_write BaseAddress XIIC_CR_REG_OFFSET XIIC_CR_TX_FIFO_RESET_MASK b;
          b = low_write BaseAddress XIIC_CR_REG_OFFSET XIIC_CR_ENABLE_DEVICE_MASK b;
          (Status, b) = low_read BaseAddress XIIC_SR_REG_OFFSET b
      in (if Status = XIIC_SR_RX_FIFO_EMPTY_MASK OR XIIC_SR_TX_FIFO_EMPTY_MASK then 0 else 1, b))"

definition XIic_DynamicInitialize :: "'u xiic_sys \<Rightarrow> int \<times> 'u xiic_sys" where
  "XIic_DynamicInitialize s =
     (let (Status, b) = XIic_DynInit (IicBase (xi s)) (xbus s) in (if Status \<noteq> 0 then 1 else 0, s\<lparr>xbus := b\<rparr>))"

subsection \<open>Sending\<close>

text \<open>The last byte: the stop is set before it, or the repeated start when it has gone.\<close>

definition send_last :: "addr \<Rightarrow> u8 \<Rightarrow> u8 \<Rightarrow> bus \<Rightarrow> bus option" where
  "send_last BaseAddress byte Option b =
     (let b = (if Option = XIIC_STOP
               then low_write BaseAddress XIIC_CR_REG_OFFSET (XIIC_CR_ENABLE_DEVICE_MASK OR XIIC_CR_DIR_IS_TX_MASK) b else b);
          b = low_write BaseAddress XIIC_DTR_REG_OFFSET (ucast byte) b
      in if Option = XIIC_REPEATED_START then do {
           b \<leftarrow> await BaseAddress XIIC_IISR_OFFSET (\<lambda>v. v AND XIIC_INTR_TX_EMPTY_MASK \<noteq> 0) (XIic_ClearIisr BaseAddress XIIC_INTR_TX_EMPTY_MASK b);
           Some (low_write BaseAddress XIIC_CR_REG_OFFSET
             (XIIC_CR_REPEATED_START_MASK OR (XIIC_CR_ENABLE_DEVICE_MASK OR (XIIC_CR_DIR_IS_TX_MASK OR XIIC_CR_MSMS_MASK))) b)
         } else Some b)"

fun SendData_loop :: "addr \<Rightarrow> (addr \<Rightarrow> u8) \<Rightarrow> addr \<Rightarrow> nat \<Rightarrow> u8 \<Rightarrow> bus \<Rightarrow> (nat \<times> bus) option" where
  "SendData_loop BaseAddress m BufferPtr 0 Option b = Some (0, b)"
| "SendData_loop BaseAddress m BufferPtr (Suc n) Option b = do {
     (IntrStatus, b) \<leftarrow> poll (BaseAddress + XIIC_IISR_OFFSET) (\<lambda>v. v AND 0x13 \<noteq> 0 \<or> v AND XIIC_INTR_TX_EMPTY_MASK \<noteq> 0) b;
     if IntrStatus AND 0x13 \<noteq> 0 then Some (Suc n, b)
     else do {
       b \<leftarrow> (if n > 0 then Some (low_write BaseAddress XIIC_DTR_REG_OFFSET (ucast (m BufferPtr)) b)
             else send_last BaseAddress (m BufferPtr) Option b);
       SendData_loop BaseAddress m (BufferPtr + 1) n Option (XIic_ClearIisr BaseAddress XIIC_INTR_TX_EMPTY_MASK b)
     }
   }"

definition SendData :: "addr \<Rightarrow> (addr \<Rightarrow> u8) \<Rightarrow> addr \<Rightarrow> nat \<Rightarrow> u8 \<Rightarrow> bus \<Rightarrow> (nat \<times> bus) option" where
  "SendData BaseAddress m BufferPtr ByteCount Option b = do {
     (n, b) \<leftarrow> SendData_loop BaseAddress m BufferPtr ByteCount Option b;
     if n > 0 then Some (n, b)
     else if Option = XIIC_STOP then do {
       b \<leftarrow> await BaseAddress XIIC_IISR_OFFSET (\<lambda>v. v AND XIIC_INTR_BNB_MASK \<noteq> 0) b;
       Some (n, b)
     } else Some (n, b)
   }"

definition send_start :: "addr \<Rightarrow> u8 \<Rightarrow> bus \<Rightarrow> bus option" where
  "send_start BaseAddress Address b =
     (let (ControlReg, b) = low_read BaseAddress XIIC_CR_REG_OFFSET b
      in if ControlReg AND XIIC_CR_REPEATED_START_MASK = 0 then
           let b = XIic_Send7BitAddress BaseAddress Address XIIC_WRITE_OPERATION b;
               b = XIic_ClearIisr BaseAddress 7 b;
               b = low_write BaseAddress XIIC_CR_REG_OFFSET (XIIC_CR_MSMS_MASK OR (XIIC_CR_DIR_IS_TX_MASK OR XIIC_CR_ENABLE_DEVICE_MASK)) b
           in map_option (XIic_ClearIisr BaseAddress XIIC_INTR_BNB_MASK) (await BaseAddress XIIC_SR_REG_OFFSET bus_busy b)
         else Some (XIic_Send7BitAddress BaseAddress Address XIIC_WRITE_OPERATION b))"

definition send_end :: "addr \<Rightarrow> bus \<Rightarrow> bus option" where
  "send_end BaseAddress b =
     (let (ControlReg, b) = low_read BaseAddress XIIC_CR_REG_OFFSET b
      in if ControlReg AND XIIC_CR_REPEATED_START_MASK = 0 then
           let b = (if ControlReg AND XIIC_CR_MSMS_MASK \<noteq> 0
                    then low_write BaseAddress XIIC_CR_REG_OFFSET (ControlReg AND NOT XIIC_CR_MSMS_MASK) b else b);
               (StatusReg, b) = low_read BaseAddress XIIC_SR_REG_OFFSET b
           in if StatusReg AND XIIC_SR_ADDR_AS_SLAVE_MASK \<noteq> 0 then Some (low_write BaseAddress XIIC_CR_REG_OFFSET 0 b)
              else await BaseAddress XIIC_SR_REG_OFFSET (\<lambda>v. \<not> bus_busy v) b
         else Some b)"

definition XIic_Send :: "addr \<Rightarrow> u8 \<Rightarrow> (addr \<Rightarrow> u8) \<Rightarrow> addr \<Rightarrow> nat \<Rightarrow> u8 \<Rightarrow> bus \<Rightarrow> (nat \<times> bus) option" where
  "XIic_Send BaseAddress Address m BufferPtr ByteCount Option b =
     (let (st, b) = XIic_WaitBusFree BaseAddress b
      in if st \<noteq> 0 then Some (0, b)
         else do {
           b \<leftarrow> send_start BaseAddress Address b;
           (RemainingByteCount, b) \<leftarrow> SendData BaseAddress m BufferPtr ByteCount Option b;
           b \<leftarrow> send_end BaseAddress b;
           Some (ByteCount - RemainingByteCount, b)
         })"

subsection \<open>Receiving\<close>

definition recv_error_mask :: "nat \<Rightarrow> u32" where
  "recv_error_mask ByteCount = (if ByteCount = 1 then 0x11 else 0x13)"

definition recv_control :: "addr \<Rightarrow> nat \<Rightarrow> u8 \<Rightarrow> bus \<Rightarrow> bus" where
  "recv_control BaseAddress ByteCount Option b =
     (let (CntlReg, b) = low_read BaseAddress XIIC_CR_REG_OFFSET b;
          b = (if ByteCount = 1 \<and> Option = XIIC_STOP then low_write BaseAddress XIIC_CR_REG_OFFSET XIIC_CR_ENABLE_DEVICE_MASK b else b)
      in if ByteCount = 2 then low_write BaseAddress XIIC_CR_REG_OFFSET (CntlReg OR XIIC_CR_NO_ACK_MASK) b else b)"

fun RecvData_loop :: "addr \<Rightarrow> addr \<Rightarrow> nat \<Rightarrow> u8 \<Rightarrow> (addr \<Rightarrow> u8) \<times> bus \<Rightarrow> (nat \<times> (addr \<Rightarrow> u8) \<times> bus) option" where
  "RecvData_loop BaseAddress BufferPtr 0 Option (m, b) = Some (0, m, b)"
| "RecvData_loop BaseAddress BufferPtr (Suc n) Option (m, b) = do {
     (IntrStatus, b) \<leftarrow> poll (BaseAddress + XIIC_IISR_OFFSET)
       (\<lambda>v. v AND XIIC_INTR_RX_FULL_MASK \<noteq> 0 \<or> v AND recv_error_mask (Suc n) \<noteq> 0) b;
     if IntrStatus AND XIIC_INTR_RX_FULL_MASK = 0 then Some (Suc n, m, b)
     else
       let b = recv_control BaseAddress (Suc n) Option b;
           (v, b) = low_read BaseAddress XIIC_DRR_REG_OFFSET b;
           m = m(BufferPtr := ucast v);
           b = (if n = 0 \<and> Option = XIIC_REPEATED_START
                then low_write BaseAddress XIIC_CR_REG_OFFSET
                  (XIIC_CR_ENABLE_DEVICE_MASK OR (XIIC_CR_MSMS_MASK OR XIIC_CR_REPEATED_START_MASK)) b else b)
       in RecvData_loop BaseAddress (BufferPtr + 1) n Option (m, XIic_ClearIisr BaseAddress 0xB b)
   }"

definition RecvData :: "addr \<Rightarrow> addr \<Rightarrow> nat \<Rightarrow> u8 \<Rightarrow> (addr \<Rightarrow> u8) \<times> bus \<Rightarrow> (nat \<times> (addr \<Rightarrow> u8) \<times> bus) option" where
  "RecvData BaseAddress BufferPtr ByteCount Option s = do {
     (n, m, b) \<leftarrow> RecvData_loop BaseAddress BufferPtr ByteCount Option s;
     if n > 0 then Some (n, m, b)
     else if Option = XIIC_STOP then do {
       b \<leftarrow> await BaseAddress XIIC_IISR_OFFSET (\<lambda>v. v AND XIIC_INTR_BNB_MASK \<noteq> 0) b;
       Some (n, m, b)
     } else Some (n, m, b)
   }"

definition recv_start :: "addr \<Rightarrow> u8 \<Rightarrow> nat \<Rightarrow> bus \<Rightarrow> bus option" where
  "recv_start BaseAddress Address ByteCount b =
     (let b = XIic_ClearIisr BaseAddress 0xB b;
          b = low_write BaseAddress XIIC_RFD_REG_OFFSET 0 b;
          (CntlReg, b) = low_read BaseAddress XIIC_CR_REG_OFFSET b;
          noack = (if ByteCount = 1 then XIIC_CR_NO_ACK_MASK else 0)
      in if CntlReg AND XIIC_CR_REPEATED_START_MASK = 0 then
           let b = XIic_Send7BitAddress BaseAddress Address XIIC_READ_OPERATION b;
               b = low_write BaseAddress XIIC_CR_REG_OFFSET ((XIIC_CR_MSMS_MASK OR XIIC_CR_ENABLE_DEVICE_MASK) OR noack) b
           in map_option (XIic_ClearIisr BaseAddress XIIC_INTR_BNB_MASK) (await BaseAddress XIIC_SR_REG_OFFSET bus_busy b)
         else
           let b = low_write BaseAddress XIIC_CR_REG_OFFSET ((CntlReg AND NOT XIIC_CR_DIR_IS_TX_MASK) OR noack) b
           in Some (XIic_Send7BitAddress BaseAddress Address XIIC_READ_OPERATION b))"

definition recv_end :: "addr \<Rightarrow> bus \<Rightarrow> bus" where
  "recv_end BaseAddress b =
     (let (CntlReg, b) = low_read BaseAddress XIIC_CR_REG_OFFSET b
      in if CntlReg AND XIIC_CR_REPEATED_START_MASK = 0 then low_write BaseAddress XIIC_CR_REG_OFFSET 0 b else b)"

definition XIic_Recv :: "addr \<Rightarrow> u8 \<Rightarrow> addr \<Rightarrow> nat \<Rightarrow> u8 \<Rightarrow> (addr \<Rightarrow> u8) \<times> bus \<Rightarrow> (nat \<times> (addr \<Rightarrow> u8) \<times> bus) option" where
  "XIic_Recv BaseAddress Address BufferPtr ByteCount Option s = do {
     b \<leftarrow> recv_start BaseAddress Address ByteCount (snd s);
     (RemainingByteCount, m, b) \<leftarrow> RecvData BaseAddress BufferPtr ByteCount Option (fst s, b);
     let (st, b) = XIic_WaitBusFree BaseAddress (recv_end BaseAddress b)
     in Some (if st \<noteq> 0 then 0 else ByteCount - RemainingByteCount, m, b)
   }"

subsection \<open>Dynamic mode\<close>

partial_function (option) dyn_wait :: "addr \<Rightarrow> u32 \<Rightarrow> bus \<Rightarrow> (bool \<times> bus) option" where
  "dyn_wait BaseAddress IntrStatusMask b =
     (let (IntrStatus, b) = low_read BaseAddress XIIC_IISR_OFFSET b;
          (StatusReg, b) = low_read BaseAddress XIIC_SR_REG_OFFSET b
      in if StatusReg AND XIIC_SR_RX_FIFO_EMPTY_MASK \<noteq> XIIC_SR_RX_FIFO_EMPTY_MASK then Some (True, b)
         else if IntrStatus AND IntrStatusMask \<noteq> 0 then Some (False, b)
         else dyn_wait BaseAddress IntrStatusMask b)"

fun DynRecvData :: "addr \<Rightarrow> addr \<Rightarrow> nat \<Rightarrow> (addr \<Rightarrow> u8) \<times> bus \<Rightarrow> (nat \<times> (addr \<Rightarrow> u8) \<times> bus) option" where
  "DynRecvData BaseAddress BufferPtr 0 (m, b) = Some (0, m, b)"
| "DynRecvData BaseAddress BufferPtr (Suc n) (m, b) = do {
     (arrived, b) \<leftarrow> dyn_wait BaseAddress (recv_error_mask (Suc n)) b;
     if \<not> arrived then Some (Suc n, m, b)
     else let (v, b) = low_read BaseAddress XIIC_DRR_REG_OFFSET b
          in DynRecvData BaseAddress (BufferPtr + 1) n (m(BufferPtr := ucast v), b)
   }"

definition XIic_DynRecv :: "addr \<Rightarrow> u8 \<Rightarrow> addr \<Rightarrow> u8 \<Rightarrow> (addr \<Rightarrow> u8) \<times> bus \<Rightarrow> (nat \<times> (addr \<Rightarrow> u8) \<times> bus) option" where
  "XIic_DynRecv BaseAddress Address BufferPtr ByteCount s = do {
     b \<leftarrow> await BaseAddress XIIC_SR_REG_OFFSET bus_busy
       (low_DynSend7BitAddress BaseAddress (ucast Address) XIIC_READ_OPERATION (XIic_ClearIisr BaseAddress 7 (snd s)));
     let b = low_DynSendStop BaseAddress ByteCount (XIic_ClearIisr BaseAddress XIIC_INTR_BNB_MASK b) in do {
       (RemainingByteCount, m, b) \<leftarrow> DynRecvData BaseAddress BufferPtr (unat ByteCount) (fst s, b);
       let (st, b) = XIic_WaitBusFree BaseAddress b
       in Some (if st \<noteq> 0 then 0 else unat ByteCount - RemainingByteCount, m, b)
     }
   }"

fun DynSendData_loop :: "addr \<Rightarrow> (addr \<Rightarrow> u8) \<Rightarrow> addr \<Rightarrow> nat \<Rightarrow> u8 \<Rightarrow> bus \<Rightarrow> (nat \<times> bus) option" where
  "DynSendData_loop BaseAddress m BufferPtr 0 Option b = Some (0, b)"
| "DynSendData_loop BaseAddress m BufferPtr (Suc n) Option b = do {
     (IntrStatus, b) \<leftarrow> poll (BaseAddress + XIIC_IISR_OFFSET) (\<lambda>v. v AND 0x13 \<noteq> 0 \<or> v AND XIIC_INTR_TX_EMPTY_MASK \<noteq> 0) b;
     if IntrStatus AND 0x13 \<noteq> 0
     then Some (Suc n, low_write BaseAddress XIIC_CR_REG_OFFSET 1 (low_write BaseAddress XIIC_CR_REG_OFFSET 3 b))
     else DynSendData_loop BaseAddress m (BufferPtr + 1) n Option
       (low_write BaseAddress XIIC_DTR_REG_OFFSET
         ((if n = 0 \<and> Option = XIIC_STOP then XIIC_TX_DYN_STOP_MASK else 0) OR ucast (m BufferPtr)) b)
   }"

definition DynSendData :: "addr \<Rightarrow> (addr \<Rightarrow> u8) \<Rightarrow> addr \<Rightarrow> nat \<Rightarrow> u8 \<Rightarrow> bus \<Rightarrow> (nat \<times> bus) option" where
  "DynSendData BaseAddress m BufferPtr ByteCount Option b = do {
     (n, b) \<leftarrow> DynSendData_loop BaseAddress m BufferPtr ByteCount Option b;
     if n > 0 then Some (n, b)
     else if Option = XIIC_STOP then do {
       b \<leftarrow> await BaseAddress XIIC_IISR_OFFSET (\<lambda>v. v AND XIIC_INTR_BNB_MASK \<noteq> 0) b;
       Some (n, b)
     } else Some (n, b)
   }"

definition XIic_DynSend :: "addr \<Rightarrow> u16 \<Rightarrow> (addr \<Rightarrow> u8) \<Rightarrow> addr \<Rightarrow> u8 \<Rightarrow> u8 \<Rightarrow> bus \<Rightarrow> (nat \<times> bus) option" where
  "XIic_DynSend BaseAddress Address m BufferPtr ByteCount Option b =
     (let (st, b) = XIic_WaitBusFree BaseAddress b
      in if st \<noteq> 0 then Some (0, b)
         else
           let b = XIic_ClearIisr BaseAddress 7 b;
               b = (if ucast Address AND XIIC_TX_DYN_STOP_MASK = 0
                    then low_DynSend7BitAddress BaseAddress Address XIIC_WRITE_OPERATION b
                    else XIic_DynSendStartStopAddress BaseAddress Address XIIC_WRITE_OPERATION b)
           in do {
             b \<leftarrow> await BaseAddress XIIC_SR_REG_OFFSET bus_busy b;
             (RemainingByteCount, b) \<leftarrow> DynSendData BaseAddress m BufferPtr (unat ByteCount) Option
               (XIic_ClearIisr BaseAddress XIIC_INTR_BNB_MASK b);
             Some (unat ByteCount - RemainingByteCount, b)
           })"

subsection \<open>What passes through the data registers\<close>

definition low_dtr :: "addr \<Rightarrow> bus \<Rightarrow> u32 list" where
  "low_dtr BaseAddress b = map snd (filter (\<lambda>(a, v). a = BaseAddress + 0x108) (writes_of (events b)))"

definition low_drr :: "addr \<Rightarrow> bus \<Rightarrow> u32 list" where
  "low_drr BaseAddress b = reads_at (BaseAddress + 0x10C) (events b)"

lemma low_read_data [simp]:
  "low_dtr BaseAddress (snd (low_read BaseAddress off b)) = low_dtr BaseAddress b"
  "low_drr BaseAddress (snd (low_read BaseAddress off b)) =
     low_drr BaseAddress b @ (if off = 0x10C then [fst (low_read BaseAddress off b)] else [])"
  by (auto simp: low_dtr_def low_drr_def low_read_def bus_read_def Let_def)

lemma low_write_data [simp]:
  "low_dtr BaseAddress (low_write BaseAddress off v b) = low_dtr BaseAddress b @ (if off = 0x108 then [v] else [])"
  "low_drr BaseAddress (low_write BaseAddress off v b) = low_drr BaseAddress b"
  by (auto simp: low_dtr_def low_drr_def low_write_def)

lemma clear_iisr_data [simp]:
  "low_dtr BaseAddress (XIic_ClearIisr BaseAddress m b) = low_dtr BaseAddress b"
  "low_drr BaseAddress (XIic_ClearIisr BaseAddress m b) = low_drr BaseAddress b"
  by (simp_all add: XIic_ClearIisr_def split_beta)

lemma poll_data:
  assumes "poll a stop b = Some (v, b')"
  shows "stop v" "a \<noteq> BaseAddress + 0x10C \<Longrightarrow> low_drr BaseAddress b' = low_drr BaseAddress b" "low_dtr BaseAddress b' = low_dtr BaseAddress b"
proof -
  have "stop (fst r) \<and> (a \<noteq> BaseAddress + 0x10C \<longrightarrow> low_drr BaseAddress (snd r) = low_drr BaseAddress b) \<and> low_dtr BaseAddress (snd r) = low_dtr BaseAddress b"
    if "poll a stop b = Some r" for r
  proof (rule poll.raw_induct [where P = "\<lambda>a stop b r. stop (fst r) \<and> (a \<noteq> BaseAddress + 0x10C \<longrightarrow> low_drr BaseAddress (snd r) = low_drr BaseAddress b) \<and>
      low_dtr BaseAddress (snd r) = low_dtr BaseAddress b", OF _ that])
    fix poll a stop b r
    assume h: "\<And>a stop b r. poll a stop b = Some r \<Longrightarrow> stop (fst r) \<and> (a \<noteq> BaseAddress + 0x10C \<longrightarrow> low_drr BaseAddress (snd r) = low_drr BaseAddress b) \<and>
      low_dtr BaseAddress (snd r) = low_dtr BaseAddress b"
      "(case bus_read W32 a b of (v, b) \<Rightarrow> if stop v then Some (v, b) else poll a stop b) = Some r"
    have e: "low_dtr BaseAddress (snd (bus_read W32 a b)) = low_dtr BaseAddress b"
      "a \<noteq> BaseAddress + 0x10C \<longrightarrow> low_drr BaseAddress (snd (bus_read W32 a b)) = low_drr BaseAddress b"
      by (auto simp: low_dtr_def low_drr_def bus_read_def Let_def)
    show "stop (fst r) \<and> (a \<noteq> BaseAddress + 0x10C \<longrightarrow> low_drr BaseAddress (snd r) = low_drr BaseAddress b) \<and> low_dtr BaseAddress (snd r) = low_dtr BaseAddress b"
      using h(2) h(1) [of a stop "snd (bus_read W32 a b)" r] e by (auto simp: split_beta split: if_splits)
  qed
  from this [OF assms] show "stop v" "a \<noteq> BaseAddress + 0x10C \<Longrightarrow> low_drr BaseAddress b' = low_drr BaseAddress b"
    "low_dtr BaseAddress b' = low_dtr BaseAddress b"
    by auto
qed

lemma await_data:
  assumes "await BaseAddress off stop b = Some b'" "off \<noteq> 0x10C"
  shows "low_drr BaseAddress b' = low_drr BaseAddress b" "low_dtr BaseAddress b' = low_dtr BaseAddress b"
  using assms poll_data [of "BaseAddress + off" stop b _ b'] by (auto simp: await_def)

lemma wait_free_data [simp]:
  "low_drr BaseAddress (snd (wait_free BaseAddress n b)) = low_drr BaseAddress b"
  "low_dtr BaseAddress (snd (wait_free BaseAddress n b)) = low_dtr BaseAddress b"
  by (induction BaseAddress n b rule: wait_free.induct; subst wait_free.simps; simp add: XIic_CheckIsBusBusy_def split_beta Let_def)+

subsection \<open>What is sent\<close>

definition bytes_from :: "(addr \<Rightarrow> u8) \<Rightarrow> addr \<Rightarrow> nat \<Rightarrow> u8 list" where
  "bytes_from m p n = map (\<lambda>i. m (p + of_nat i)) [0..<n]"

lemma bytes_from_simps [simp]: "bytes_from m p 0 = []" "bytes_from m p (Suc n) = m p # bytes_from m (p + 1) n"
  by (auto simp: bytes_from_def upt_conv_Cons map_Suc_upt [symmetric] add.assoc simp del: upt_Suc)

lemma send_last_data:
  assumes "send_last BaseAddress byte Option b = Some b'"
  shows "low_dtr BaseAddress b' = low_dtr BaseAddress b @ [ucast byte]"
  using assms await_data(2) [of BaseAddress "0x20"] by (fastforce simp: send_last_def Let_def split: if_splits bind_splits)

lemma SendData_loop_data:
  assumes "SendData_loop BaseAddress m p n Option b = Some (k, b')"
  shows "k \<le> n \<and> low_dtr BaseAddress b' = low_dtr BaseAddress b @ map ucast (bytes_from m p (n - k))"
  using assms
proof (induction BaseAddress m p n Option b rule: SendData_loop.induct)
  case (2 BaseAddress m p n Option b)
  obtain v b1 where p: "poll (BaseAddress + 0x20) (\<lambda>v. v AND 0x13 \<noteq> 0 \<or> v AND 4 \<noteq> 0) b = Some (v, b1)"
    using 2(2) by (auto split: bind_splits)
  have e: "SendData_loop BaseAddress m p (Suc n) Option b = (if v AND 0x13 \<noteq> 0 then Some (Suc n, b1) else do {
      b \<leftarrow> (if n > 0 then Some (low_write BaseAddress 0x108 (ucast (m p)) b1) else send_last BaseAddress (m p) Option b1);
      SendData_loop BaseAddress m (p + 1) n Option (XIic_ClearIisr BaseAddress 4 b)})"
    by (simp only: SendData_loop.simps p bind.bind_lunit prod.case)
  note d = poll_data(3) [OF p, of BaseAddress]
  show ?case
  proof (cases "v AND 0x13 = 0")
    case False
    then show ?thesis
      using 2(2) d unfolding e by auto
  next
    case True
    obtain b2 where b2: "(if n > 0 then Some (low_write BaseAddress 0x108 (ucast (m p)) b1) else send_last BaseAddress (m p) Option b1) = Some b2"
      "SendData_loop BaseAddress m (p + 1) n Option (XIic_ClearIisr BaseAddress 4 b2) = Some (k, b')"
      using 2(2) True unfolding e by (auto simp del: SendData_loop.simps split: bind_splits)
    have "low_dtr BaseAddress b2 = low_dtr BaseAddress b1 @ [ucast (m p)]"
      using b2(1) send_last_data by (auto split: if_splits)
    moreover have "k \<le> n \<and> low_dtr BaseAddress b' = low_dtr BaseAddress (XIic_ClearIisr BaseAddress 4 b2) @ map ucast (bytes_from m (p + 1) (n - k))"
      using 2(1) [OF p refl] True b2 by blast
    ultimately show ?thesis
      using d by (simp add: Suc_diff_le)
  qed
qed simp

lemma SendData_data:
  assumes "SendData BaseAddress m p n Option b = Some (k, b')"
  shows "k \<le> n" "low_dtr BaseAddress b' = low_dtr BaseAddress b @ map ucast (bytes_from m p (n - k))"
  using assms SendData_loop_data [of BaseAddress m p n Option b k] await_data(2) [of BaseAddress "0x20"]
  by (fastforce simp: SendData_def split: bind_splits if_splits)+

lemma send_start_data:
  assumes "send_start BaseAddress Address b = Some b'"
  shows "low_dtr BaseAddress b' = low_dtr BaseAddress b @ [ucast (addr7 (ucast Address) 0)]"
  using assms await_data(2) [of BaseAddress "0x104"]
  by (fastforce simp: send_start_def XIic_Send7BitAddress_def Let_def split_beta split: if_splits)

lemma send_end_data:
  assumes "send_end BaseAddress b = Some b'"
  shows "low_dtr BaseAddress b' = low_dtr BaseAddress b"
  using assms await_data(2) [of BaseAddress "0x104"]
  by (fastforce simp: send_end_def Let_def split_beta split: if_splits)

subsection \<open>What is received\<close>

lemma unat_pred: "w \<noteq> 0 \<Longrightarrow> Suc (unat (w - 1 :: u32)) = unat w"
  by (metis One_nat_def Suc_pred unat_minus_one unat_gt_0)

lemma lay_Cons:
  assumes "length bs < 2 ^ 32"
  shows "lay (m(p := x)) (p + 1) bs = lay m p (x # bs)"
proof
  fix a
  show "lay (m(p := x)) (p + 1) bs a = lay m p (x # bs) a"
  proof (cases "a = p")
    case True
    have "p - (p + 1) = (0xFFFFFFFF :: u32)"
      by simp
    then have "unat (p - (p + 1)) = 0xFFFFFFFF"
      by (simp only:) simp
    with True assms show ?thesis
      by (simp add: lay_def)
  next
    case False
    then have "Suc (unat (a - (p + 1))) = unat (a - p)"
      using unat_pred [of "a - p"] by (simp add: diff_diff_eq)
    with False show ?thesis
      by (auto simp: lay_def simp flip: \<open>Suc (unat (a - (p + 1))) = unat (a - p)\<close>)
  qed
qed

definition received :: "addr \<Rightarrow> addr \<Rightarrow> nat \<Rightarrow> (addr \<Rightarrow> u8) \<times> bus \<Rightarrow> nat \<times> (addr \<Rightarrow> u8) \<times> bus \<Rightarrow> bool" where
  "received BaseAddress p n s r \<longleftrightarrow> (\<exists>got. low_drr BaseAddress (snd (snd r)) = low_drr BaseAddress (snd s) @ got \<and> fst r + length got = n \<and>
     fst (snd r) = lay (fst s) p (map ucast got)) \<and> low_dtr BaseAddress (snd (snd r)) = low_dtr BaseAddress (snd s)"

lemma received_none: "low_drr BaseAddress b' = low_drr BaseAddress b \<Longrightarrow> low_dtr BaseAddress b' = low_dtr BaseAddress b \<Longrightarrow>
    received BaseAddress p n (m, b) (n, m, b')"
  by (simp add: received_def)

lemma received_more:
  assumes "received BaseAddress (p + 1) n (m(p := ucast v), b1) (k, m', b')" "low_drr BaseAddress b1 = low_drr BaseAddress b @ [v]"
    "low_dtr BaseAddress b1 = low_dtr BaseAddress b" "n < 2 ^ 32"
  shows "received BaseAddress p (Suc n) (m, b) (k, m', b')"
proof -
  obtain got where "low_drr BaseAddress b' = low_drr BaseAddress b1 @ got" "k + length got = n" "m' = lay (m(p := ucast v)) (p + 1) (map ucast got)"
    using assms(1) by (auto simp: received_def)
  then show ?thesis
    using assms lay_Cons [of "map ucast got" m p "ucast v"] by (auto simp: received_def intro!: exI [of _ "v # got"])
qed

lemma recv_control_data [simp]:
  "low_drr BaseAddress (recv_control BaseAddress n Option b) = low_drr BaseAddress b"
  "low_dtr BaseAddress (recv_control BaseAddress n Option b) = low_dtr BaseAddress b"
  by (simp_all add: recv_control_def Let_def split_beta)

lemma RecvData_loop_data:
  assumes "RecvData_loop BaseAddress p n Option (m, b) = Some (k, m', b')" "n < 2 ^ 32"
  shows "received BaseAddress p n (m, b) (k, m', b')"
  using assms
proof (induction n arbitrary: p m b)
  case (Suc n)
  obtain v b1 where p: "poll (BaseAddress + 0x20) (\<lambda>v. v AND 8 \<noteq> 0 \<or> v AND recv_error_mask (Suc n) \<noteq> 0) b = Some (v, b1)"
    using Suc.prems(1) by (auto split: bind_splits)
  define b2 where "b2 = recv_control BaseAddress (Suc n) Option b1"
  define w where "w = fst (low_read BaseAddress 0x10C b2)"
  define b3 where "b3 = XIic_ClearIisr BaseAddress 0xB (if n = 0 \<and> Option = 1 then low_write BaseAddress 0x100 (1 OR (4 OR 0x20)) (snd (low_read BaseAddress 0x10C b2))
     else snd (low_read BaseAddress 0x10C b2))"
  have e: "RecvData_loop BaseAddress p (Suc n) Option (m, b) = (if v AND 8 = 0 then Some (Suc n, m, b1)
      else RecvData_loop BaseAddress (p + 1) n Option (m(p := ucast w), b3))"
    by (simp only: RecvData_loop.simps p bind.bind_lunit prod.case b3_def w_def b2_def Let_def split_beta fst_conv snd_conv)
  have d: "low_drr BaseAddress b1 = low_drr BaseAddress b" "low_dtr BaseAddress b1 = low_dtr BaseAddress b"
    using poll_data(2,3) [OF p, of BaseAddress] by auto
  then have "low_drr BaseAddress b3 = low_drr BaseAddress b @ [w]" "low_dtr BaseAddress b3 = low_dtr BaseAddress b"
    by (auto simp: b3_def w_def b2_def)
  note r = received_more [OF _ this]
  show ?case
  proof (cases "v AND 8 = 0")
    case True
    then show ?thesis
      using Suc.prems(1) d unfolding e by (auto intro: received_none)
  next
    case False
    then have "RecvData_loop BaseAddress (p + 1) n Option (m(p := ucast w), b3) = Some (k, m', b')"
      using Suc.prems(1) unfolding e by simp
    then have "received BaseAddress (p + 1) n (m(p := ucast w), b3) (k, m', b')"
      by (rule Suc.IH) (use Suc.prems(2) in simp)
    with Suc.prems(2) show ?thesis
      by (intro r) auto
  qed
qed (auto intro: received_none)

lemma RecvData_data:
  assumes "RecvData BaseAddress p n Option (m, b) = Some (k, m', b')" "n < 2 ^ 32"
  shows "received BaseAddress p n (m, b) (k, m', b')"
proof -
  obtain j mj bj where l: "RecvData_loop BaseAddress p n Option (m, b) = Some (j, mj, bj)"
    using assms(1) by (auto simp: RecvData_def split: bind_splits)
  have "k = j \<and> m' = mj \<and> low_drr BaseAddress b' = low_drr BaseAddress bj \<and> low_dtr BaseAddress b' = low_dtr BaseAddress bj"
    using assms(1) await_data [of BaseAddress "0x20"] by (fastforce simp: RecvData_def l split: bind_splits if_splits)
  with RecvData_loop_data [OF l assms(2)] show ?thesis
    by (simp add: received_def)
qed

lemma recv_start_data:
  assumes "recv_start BaseAddress Address n b = Some b'"
  shows "low_drr BaseAddress b' = low_drr BaseAddress b" "low_dtr BaseAddress b' = low_dtr BaseAddress b @ [ucast (addr7 (ucast Address) 1)]"
  using assms await_data [of BaseAddress "0x104"]
  by (fastforce simp: recv_start_def XIic_Send7BitAddress_def Let_def split_beta split: if_splits)+

lemma recv_end_data [simp]:
  "low_drr BaseAddress (recv_end BaseAddress b) = low_drr BaseAddress b" "low_dtr BaseAddress (recv_end BaseAddress b) = low_dtr BaseAddress b"
  by (simp_all add: recv_end_def Let_def split_beta)

subsection \<open>Dynamic mode\<close>

lemma dyn_wait_data:
  assumes "dyn_wait BaseAddress msk b = Some (ok, b')"
  shows "low_drr BaseAddress b' = low_drr BaseAddress b" "low_dtr BaseAddress b' = low_dtr BaseAddress b"
proof -
  have "low_drr BaseAddress (snd r) = low_drr BaseAddress b \<and> low_dtr BaseAddress (snd r) = low_dtr BaseAddress b"
    if "dyn_wait BaseAddress msk b = Some r" for r
    by (rule dyn_wait.raw_induct [where P = "\<lambda>base msk b r. low_drr base (snd r) = low_drr base b \<and> low_dtr base (snd r) = low_dtr base b", OF _ that])
      (fastforce simp: split_beta Let_def split: if_splits)
  from this [OF assms] show "low_drr BaseAddress b' = low_drr BaseAddress b" "low_dtr BaseAddress b' = low_dtr BaseAddress b"
    by auto
qed

lemma DynRecvData_data:
  assumes "DynRecvData BaseAddress p n (m, b) = Some (k, m', b')" "n < 2 ^ 32"
  shows "received BaseAddress p n (m, b) (k, m', b')"
  using assms
proof (induction n arbitrary: p m b)
  case (Suc n)
  obtain ok b1 where w: "dyn_wait BaseAddress (recv_error_mask (Suc n)) b = Some (ok, b1)"
    using Suc.prems(1) by (auto split: bind_splits)
  define b2 where "b2 = snd (low_read BaseAddress 0x10C b1)"
  define v where "v = fst (low_read BaseAddress 0x10C b1)"
  have "low_drr BaseAddress b2 = low_drr BaseAddress b @ [v]" "low_dtr BaseAddress b2 = low_dtr BaseAddress b"
    using dyn_wait_data [OF w] by (auto simp: b2_def v_def)
  note r = received_more [OF _ this]
  have e: "DynRecvData BaseAddress p (Suc n) (m, b) = (if \<not> ok then Some (Suc n, m, b1) else DynRecvData BaseAddress (p + 1) n (m(p := ucast v), b2))"
    by (simp add: w b2_def v_def split_beta)
  show ?case
  proof (cases ok)
    case False
    then show ?thesis
      using Suc.prems(1) dyn_wait_data [OF w] unfolding e by (auto intro: received_none)
  next
    case True
    then have "DynRecvData BaseAddress (p + 1) n (m(p := ucast v), b2) = Some (k, m', b')"
      using Suc.prems(1) unfolding e by simp
    then have "received BaseAddress (p + 1) n (m(p := ucast v), b2) (k, m', b')"
      by (rule Suc.IH) (use Suc.prems(2) in simp)
    with Suc.prems(2) show ?thesis
      by (intro r) auto
  qed
qed (auto intro: received_none)

text \<open>The words of a message: the last one carries the stop.\<close>

definition dyn_words :: "u8 \<Rightarrow> u8 list \<Rightarrow> u32 list" where
  "dyn_words Option bs = (if Option = 0 \<and> bs \<noteq> [] then map ucast (butlast bs) @ [0x200 OR ucast (last bs)] else map ucast bs)"

lemma DynSendData_loop_data:
  assumes "DynSendData_loop BaseAddress m p n Option b = Some (k, b')"
  shows "k \<le> n \<and> low_dtr BaseAddress b' = low_dtr BaseAddress b @
    (if k = 0 then dyn_words Option (bytes_from m p n) else map ucast (bytes_from m p (n - k)))"
  using assms
proof (induction BaseAddress m p n Option b rule: DynSendData_loop.induct)
  case (1 BaseAddress m p Option b)
  then show ?case
    by (simp add: dyn_words_def)
next
  case (2 BaseAddress m p n Option b)
  obtain v b1 where p: "poll (BaseAddress + 0x20) (\<lambda>v. v AND 0x13 \<noteq> 0 \<or> v AND 4 \<noteq> 0) b = Some (v, b1)"
    using 2(2) by (auto split: bind_splits)
  define b2 where "b2 = low_write BaseAddress 0x108 ((if n = 0 \<and> Option = 0 then 0x200 else 0) OR ucast (m p)) b1"
  have e: "DynSendData_loop BaseAddress m p (Suc n) Option b = (if v AND 0x13 \<noteq> 0
      then Some (Suc n, low_write BaseAddress 0x100 1 (low_write BaseAddress 0x100 3 b1)) else DynSendData_loop BaseAddress m (p + 1) n Option b2)"
    by (simp only: DynSendData_loop.simps p bind.bind_lunit prod.case b2_def)
  have d: "low_dtr BaseAddress b1 = low_dtr BaseAddress b"
    "low_dtr BaseAddress b2 = low_dtr BaseAddress b @ [(if n = 0 \<and> Option = 0 then 0x200 else 0) OR ucast (m p)]"
    using poll_data(3) [OF p, of BaseAddress] by (simp_all add: b2_def)
  show ?case
  proof (cases "v AND 0x13 = 0")
    case False
    then show ?thesis
      using 2(2) d unfolding e by auto
  next
    case True
    then have "k \<le> n \<and> low_dtr BaseAddress b' = low_dtr BaseAddress b2 @
        (if k = 0 then dyn_words Option (bytes_from m (p + 1) n) else map ucast (bytes_from m (p + 1) (n - k)))"
      using 2(1) [OF p refl] 2(2) unfolding e b2_def by simp
    then show ?thesis
      using d(2) by (cases n) (auto simp: dyn_words_def Suc_diff_le)
  qed
qed

lemma DynSendData_data:
  assumes "DynSendData BaseAddress m p n Option b = Some (k, b')"
  shows "k \<le> n" "low_dtr BaseAddress b' = low_dtr BaseAddress b @
    (if k = 0 then dyn_words Option (bytes_from m p n) else map ucast (bytes_from m p (n - k)))"
  using assms DynSendData_loop_data [of BaseAddress m p n Option b k] await_data(2) [of BaseAddress "0x20"]
  by (fastforce simp: DynSendData_def split: bind_splits if_splits)+

subsection \<open>A working controller\<close>

text \<open>What the registers deliver during a transfer that succeeds: the bus gets busy and free again, and the
  interrupt status asks for each byte, without an error, and reports a free bus in the end.\<close>

definition tx_works :: "addr \<Rightarrow> nat \<Rightarrow> bus \<Rightarrow> bool" where
  "tx_works base n b \<longleftrightarrow> (\<exists>u v xs y ys f1 f2 f3 f4 fs. feed b (base + 0x20) = u # v # xs @ y # ys \<and> length xs = 2 * n \<and>
     (\<forall>x\<in>set xs. x AND 0x13 = 0 \<and> x AND 4 \<noteq> 0) \<and> y AND 0x10 \<noteq> 0 \<and> feed b (base + 0x104) = f1 # f2 # f3 # f4 # fs \<and>
     \<not> bus_busy f1 \<and> bus_busy f2 \<and> f3 AND 2 = 0 \<and> \<not> bus_busy f4 \<and> feed b (base + 0x100) = [] \<and> cells b (base + 0x100) AND 0x20 = 0)"

definition rx_works :: "addr \<Rightarrow> nat \<Rightarrow> bus \<Rightarrow> bool" where
  "rx_works base n b \<longleftrightarrow> (\<exists>u v xs y ys f1 f2 fs. feed b (base + 0x20) = u # v # xs @ y # ys \<and> length xs = 2 * n \<and>
     (\<forall>x\<in>set xs. x AND 8 \<noteq> 0) \<and> y AND 0x10 \<noteq> 0 \<and> feed b (base + 0x104) = f1 # f2 # fs \<and>
     bus_busy f1 \<and> \<not> bus_busy f2 \<and> feed b (base + 0x100) = [] \<and> cells b (base + 0x100) AND 0x20 = 0)"

lemma poll_hd: "feed b a = v # vs \<Longrightarrow> stop v \<Longrightarrow> poll a stop b = Some (v, snd (bus_read W32 a b))"
  by (subst poll.simps) (simp add: bus_read_def Let_def)

lemma await_hd: "feed b (base + off) = v # vs \<Longrightarrow> stop v \<Longrightarrow> await base off stop b = Some (snd (low_read base off b))"
  by (simp add: await_def poll_hd low_read_def)

lemma low_feed [simp]:
  "feed (snd (low_read base off b)) = (feed b)(base + off := tl (feed b (base + off)))" "feed (low_write base off v b) = feed b"
  "feed (XIic_ClearIisr base m b) = (feed b)(base + 0x20 := tl (feed b (base + 0x20)))"
  by (simp_all add: low_read_def low_write_def XIic_ClearIisr_def split_beta)

lemma low_cells [simp]:
  "cells (snd (low_read base off b)) = cells b" "cells (low_write base off v b) = (cells b)(base + off := v)"
  "off \<noteq> 0x20 \<Longrightarrow> cells (XIic_ClearIisr base m b) (base + off) = cells b (base + off)"
  by (simp_all add: low_read_def low_write_def XIic_ClearIisr_def split_beta)

lemma low_read_hd: "feed b (base + off) = v # vs \<Longrightarrow> fst (low_read base off b) = v" "feed b (base + off) = [] \<Longrightarrow> fst (low_read base off b) = cells b (base + off)"
  by (simp_all add: low_read_def bus_read_val)

lemma bus_free_hd: "feed b (base + 0x104) = v # vs \<Longrightarrow> \<not> bus_busy v \<Longrightarrow> XIic_WaitBusFree base b = (0, snd (low_read base 0x104 b))"
  by (subst XIic_WaitBusFree_def, subst wait_free.simps) (simp add: XIic_CheckIsBusBusy_def split_beta low_read_hd)

lemma SendData_loop_works:
  assumes "feed b (base + 0x20) = xs @ ys" "length xs = 2 * n" "\<forall>x\<in>set xs. x AND 0x13 = 0 \<and> x AND 4 \<noteq> 0"
  shows "\<exists>b'. SendData_loop base m p n 0 b = Some (0, b') \<and> feed b' = (feed b)(base + 0x20 := ys) \<and>
    cells b' (base + 0x100) = (if n = 0 then cells b (base + 0x100) else 9)"
  using assms
proof (induction n arbitrary: p b xs)
  case (Suc n)
  obtain x z xs' where xs: "xs = x # z # xs'" "length xs' = 2 * n"
    using Suc.prems(2) by (auto simp: length_Suc_conv)
  have x: "x AND 0x13 = 0" "x AND 4 \<noteq> 0"
    using Suc.prems(3) xs by auto
  define b1 where "b1 = snd (bus_read W32 (base + 0x20) b)"
  define b2 where "b2 = low_write base 0x108 (ucast (m p)) (if n > 0 then b1 else low_write base 0x100 9 b1)"
  have "poll (base + 0x20) (\<lambda>v. v AND 0x13 \<noteq> 0 \<or> v AND 4 \<noteq> 0) b = Some (x, b1)"
    using Suc.prems(1) xs x by (simp add: poll_hd b1_def)
  then have e: "SendData_loop base m p (Suc n) 0 b = SendData_loop base m (p + 1) n 0 (XIic_ClearIisr base 4 b2)"
    using x(1) by (simp only: SendData_loop.simps bind.bind_lunit prod.case) (simp add: b2_def send_last_def Let_def)
  have f: "feed (XIic_ClearIisr base 4 b2) = (feed b)(base + 0x20 := xs' @ ys)"
    "cells (XIic_ClearIisr base 4 b2) (base + 0x100) = (if n > 0 then cells b (base + 0x100) else 9)"
    using Suc.prems(1) xs by (simp_all add: b2_def b1_def)
  from Suc.IH [of "XIic_ClearIisr base 4 b2" xs' "p + 1"] show ?case
    using Suc.prems(3) xs f unfolding e by fastforce
qed auto

lemma RecvData_loop_works:
  assumes "feed b (base + 0x20) = xs @ ys" "length xs = 2 * n" "\<forall>x\<in>set xs. x AND 8 \<noteq> 0"
  shows "\<exists>m' b'. RecvData_loop base p n 0 (m, b) = Some (0, m', b') \<and> feed b' (base + 0x20) = ys \<and> feed b' (base + 0x104) = feed b (base + 0x104)"
  using assms
proof (induction n arbitrary: p m b xs)
  case (Suc n)
  obtain x z xs' where xs: "xs = x # z # xs'" "length xs' = 2 * n"
    using Suc.prems(2) by (auto simp: length_Suc_conv)
  have x: "x AND 8 \<noteq> 0"
    using Suc.prems(3) xs by auto
  define b1 where "b1 = recv_control base (Suc n) 0 (snd (bus_read W32 (base + 0x20) b))"
  define b2 where "b2 = XIic_ClearIisr base 0xB (snd (low_read base 0x10C b1))"
  define m2 where "m2 = m(p := ucast (fst (low_read base 0x10C b1)))"
  have "poll (base + 0x20) (\<lambda>v. v AND 8 \<noteq> 0 \<or> v AND recv_error_mask (Suc n) \<noteq> 0) b = Some (x, snd (bus_read W32 (base + 0x20) b))"
    using Suc.prems(1) xs x by (simp add: poll_hd)
  then have e: "RecvData_loop base p (Suc n) 0 (m, b) = RecvData_loop base (p + 1) n 0 (m2, b2)"
    using x by (simp only: RecvData_loop.simps bind.bind_lunit prod.case) (simp add: b1_def b2_def m2_def Let_def split_beta)
  have f: "feed b2 (base + 0x20) = xs' @ ys" "feed b2 (base + 0x104) = feed b (base + 0x104)"
    using Suc.prems(1) xs by (simp_all add: b2_def b1_def recv_control_def Let_def split_beta)
  have g: "\<forall>x\<in>set xs'. x AND 8 \<noteq> 0"
    using Suc.prems(3) xs by simp
  show ?case
    using Suc.IH [OF f(1) xs(2) g, of "p + 1" m2] f(2) unfolding e by auto
qed simp

lemma send_works:
  assumes "tx_works base n b"
  shows "\<exists>b'. XIic_Send base Address m p n 0 b = Some (n, b')"
proof -
  obtain u v xs y ys f1 f2 f3 f4 fs where w: "feed b (base + 0x20) = u # v # xs @ y # ys" "length xs = 2 * n"
    "\<forall>x\<in>set xs. x AND 0x13 = 0 \<and> x AND 4 \<noteq> 0" "y AND 0x10 \<noteq> 0" "feed b (base + 0x104) = f1 # f2 # f3 # f4 # fs"
    "\<not> bus_busy f1" "bus_busy f2" "f3 AND 2 = 0" "\<not> bus_busy f4" "feed b (base + 0x100) = []" "cells b (base + 0x100) AND 0x20 = 0"
    using assms unfolding tx_works_def by blast
  define b1 where "b1 = snd (low_read base 0x104 b)"
  define b2 where "b2 = low_write base 0x100 0xD (XIic_ClearIisr base 7 (XIic_Send7BitAddress base Address 0 (snd (low_read base 0x100 b1))))"
  define b3 where "b3 = XIic_ClearIisr base 0x10 (snd (low_read base 0x104 b2))"
  have 1: "XIic_WaitBusFree base b = (0, b1)"
    using w(5,6) by (simp add: bus_free_hd b1_def)
  have f2: "feed b2 (base + 0x104) = f2 # f3 # f4 # fs" "feed b2 (base + 0x20) = v # xs @ y # ys" "feed b2 (base + 0x100) = []"
    using w(1,5,10) by (simp_all add: b2_def b1_def XIic_Send7BitAddress_def)
  have 2: "send_start base Address b1 = Some b3"
    using w(7,10,11) await_hd [OF f2(1), of bus_busy]
    by (simp add: send_start_def split_beta low_read_hd b1_def [symmetric] b2_def [symmetric] b3_def) (simp add: b1_def low_read_hd)
  have f3: "feed b3 (base + 0x20) = xs @ y # ys" "feed b3 (base + 0x104) = f3 # f4 # fs" "feed b3 (base + 0x100) = []" "cells b3 (base + 0x100) = 0xD"
    using f2 by (simp_all add: b3_def) (simp add: b2_def)
  obtain b4 where b4: "SendData_loop base m p n 0 b3 = Some (0, b4)" "feed b4 = (feed b3)(base + 0x20 := y # ys)"
    "cells b4 (base + 0x100) = (if n = 0 then cells b3 (base + 0x100) else 9)"
    using SendData_loop_works [OF f3(1) w(2,3)] by blast
  define b5 where "b5 = snd (low_read base 0x20 b4)"
  have 3: "SendData base m p n 0 b3 = Some (0, b5)"
    using w(4) b4 by (simp add: SendData_def await_hd b5_def)
  have f5: "feed b5 (base + 0x104) = f3 # f4 # fs" "feed b5 (base + 0x100) = []" "cells b5 (base + 0x100) = (if n = 0 then 0xD else 9)"
    using b4(2,3) f3 by (simp_all add: b5_def)
  have "\<exists>b6. send_end base b5 = Some b6"
    using f5 w(8,9) by (auto simp: send_end_def split_beta low_read_hd await_hd Let_def)
  then show ?thesis
    by (auto simp: XIic_Send_def 1 2 3)
qed

lemma recv_works:
  assumes "rx_works base n b"
  shows "\<exists>m' b'. XIic_Recv base Address p n 0 (m, b) = Some (n, m', b')"
proof -
  obtain u v xs y ys f1 f2 fs where w: "feed b (base + 0x20) = u # v # xs @ y # ys" "length xs = 2 * n"
    "\<forall>x\<in>set xs. x AND 8 \<noteq> 0" "y AND 0x10 \<noteq> 0" "feed b (base + 0x104) = f1 # f2 # fs"
    "bus_busy f1" "\<not> bus_busy f2" "feed b (base + 0x100) = []" "cells b (base + 0x100) AND 0x20 = 0"
    using assms unfolding rx_works_def by blast
  define b1 where "b1 = low_write base 0x120 0 (XIic_ClearIisr base 0xB b)"
  define b2 where "b2 = low_write base 0x100 (5 OR (if n = 1 then 0x10 else 0)) (XIic_Send7BitAddress base Address 1 (snd (low_read base 0x100 b1)))"
  define b3 where "b3 = XIic_ClearIisr base 0x10 (snd (low_read base 0x104 b2))"
  have f2: "feed b2 (base + 0x104) = f1 # f2 # fs" "feed b2 (base + 0x20) = v # xs @ y # ys"
    using w(1,5) by (simp_all add: b2_def b1_def XIic_Send7BitAddress_def)
  have c: "fst (low_read base 0x100 b1) AND 0x20 = 0"
    using w(8,9) by (simp add: b1_def low_read_hd)
  have 1: "recv_start base Address n b = Some b3"
    using c await_hd [OF f2(1), of bus_busy] w(6)
    by (cases "n = 1") (simp_all add: recv_start_def split_beta Let_def b1_def [symmetric] b3_def b2_def)
  have f3: "feed b3 (base + 0x20) = xs @ y # ys" "feed b3 (base + 0x104) = f2 # fs"
    using f2 by (simp_all add: b3_def)
  obtain m' b4 where b4: "RecvData_loop base p n 0 (m, b3) = Some (0, m', b4)" "feed b4 (base + 0x20) = y # ys" "feed b4 (base + 0x104) = f2 # fs"
    using RecvData_loop_works [OF f3(1) w(2,3)] f3(2) by metis
  define b5 where "b5 = snd (low_read base 0x20 b4)"
  have 2: "RecvData base p n 0 (m, b3) = Some (0, m', b5)"
    using w(4) b4 by (simp add: RecvData_def await_hd b5_def)
  have "feed (recv_end base b5) (base + 0x104) = f2 # fs"
    using b4 by (simp add: recv_end_def b5_def split_beta Let_def)
  then have 3: "\<exists>b6. XIic_WaitBusFree base (recv_end base b5) = (0, b6)"
    using w(7) by (simp add: bus_free_hd)
  then show ?thesis
    by (auto simp: XIic_Recv_def 1 2)
qed

text \<open>C33. Polled sending: whatever the controller does, a send that returns has written the address and then exactly the
  reported number of bytes of the buffer, in order (nothing, when the bus did not get free); and with a controller that
  takes the bytes it returns, and all bytes are sent.\<close>

theorem xiic_polled_send:
  "(XIic_Send base Address m p n Option b = Some (k, b') \<longrightarrow> k \<le> n \<and>
     low_dtr base b' = low_dtr base b @
       (if fst (XIic_WaitBusFree base b) \<noteq> 0 then [] else ucast (addr7 (ucast Address) 0) # map ucast (bytes_from m p k))) \<and>
   (tx_works base n b \<longrightarrow> (\<exists>b'. XIic_Send base Address m p n 0 b = Some (n, b')))"
proof -
  have "k \<le> n \<and> low_dtr base b' = low_dtr base b @
       (if fst (XIic_WaitBusFree base b) \<noteq> 0 then [] else ucast (addr7 (ucast Address) 0) # map ucast (bytes_from m p k))"
    if s: "XIic_Send base Address m p n Option b = Some (k, b')"
  proof -
    obtain st b1 where w: "XIic_WaitBusFree base b = (st, b1)"
      by fastforce
    have d: "low_dtr base b1 = low_dtr base b"
      using wait_free_data(2) [of base 0 b] w unfolding XIic_WaitBusFree_def by (metis snd_conv)
    show ?thesis
    proof (cases "st = 0")
      case True
      then obtain b2 r b3 where "send_start base Address b1 = Some b2" "SendData base m p n Option b2 = Some (r, b3)"
        "send_end base b3 = Some b'" "k = n - r"
        using s by (auto simp: XIic_Send_def w split: bind_splits)
      then show ?thesis
        using send_start_data SendData_data send_end_data d True w by fastforce
    qed (use s w d in \<open>auto simp: XIic_Send_def\<close>)
  qed
  then show ?thesis
    using send_works by blast
qed

definition tx_demo :: bus where
  "tx_demo = \<lparr>cells = (\<lambda>a. 0), feed = (\<lambda>a. if a = 0x60040020 then [0, 0, 4, 4, 4, 4, 0x10] else if a = 0x60040104 then [0, 4, 0, 0] else []),
     events = []\<rparr>"

lemma tx_demo_works: "tx_works 0x60040000 2 tx_demo"
  unfolding tx_works_def
  by (intro exI [of _ 0] exI [of _ "[4, 4, 4, 4]"] exI [of _ "0x10"] exI [of _ 4] exI [of _ "[]"]) (simp add: tx_demo_def bus_busy_def)

theorem xiic_polled_send_witness:
  "\<exists>b'. XIic_Send 0x60040000 0x50 (\<lambda>a. ucast a) 0x10AB 2 0 tx_demo = Some (2, b') \<and> low_dtr 0x60040000 b' = [0xA0, 0xAB, 0xAC]"
proof -
  obtain b' where b: "XIic_Send 0x60040000 0x50 (\<lambda>a. ucast a) 0x10AB 2 0 tx_demo = Some (2, b')"
    using xiic_polled_send tx_demo_works by blast
  have "fst (XIic_WaitBusFree 0x60040000 tx_demo) = 0"
    by (subst bus_free_hd [of _ _ 0]) (simp_all add: tx_demo_def bus_busy_def)
  moreover have "low_dtr 0x60040000 tx_demo = []"
    by (simp add: tx_demo_def low_dtr_def)
  ultimately have "low_dtr 0x60040000 b' = [0xA0, 0xAB, 0xAC]"
    using xiic_polled_send [of "0x60040000" "0x50" "\<lambda>a. ucast a" "0x10AB" 2 0 tx_demo 2 b', THEN conjunct1] b by (simp add: addr7_def bytes_from_def upt_rec)
  with b show ?thesis
    by blast
qed

text \<open>C34. Polled receiving: whatever the controller does, a receive that returns has stored the words it read from the receive
  register in the buffer, in order, no more than asked for, and changed nothing else; it reports their
  number, or zero when the bus did not get free afterwards.  With a controller that delivers the bytes it returns, with all of them.\<close>

theorem xiic_polled_recv:
  assumes "n < 2 ^ 32"
  shows "(XIic_Recv base Address p n Option (m, b) = Some (k, m', b') \<longrightarrow>
     (\<exists>got. low_drr base b' = low_drr base b @ got \<and> length got \<le> n \<and> m' = lay m p (map ucast got) \<and> (k = length got \<or> k = 0)) \<and>
     low_dtr base b' = low_dtr base b @ [ucast (addr7 (ucast Address) 1)]) \<and>
   (rx_works base n b \<longrightarrow> (\<exists>m' b'. XIic_Recv base Address p n 0 (m, b) = Some (n, m', b')))"
proof -
  have "(\<exists>got. low_drr base b' = low_drr base b @ got \<and> length got \<le> n \<and> m' = lay m p (map ucast got) \<and> (k = length got \<or> k = 0)) \<and>
     low_dtr base b' = low_dtr base b @ [ucast (addr7 (ucast Address) 1)]"
    if s: "XIic_Recv base Address p n Option (m, b) = Some (k, m', b')"
  proof -
    obtain b1 r b2 where c: "recv_start base Address n b = Some b1" "RecvData base p n Option (m, b1) = Some (r, m', b2)"
      "b' = snd (XIic_WaitBusFree base (recv_end base b2))" "k = n - r \<or> k = 0"
      using s by (auto simp: XIic_Recv_def split_beta Let_def split: bind_splits if_splits)
    obtain got where "low_drr base b2 = low_drr base b1 @ got" "r + length got = n" "m' = lay m p (map ucast got)" "low_dtr base b2 = low_dtr base b1"
      using RecvData_data [OF c(2) assms] by (auto simp: received_def)
    then show ?thesis
      using recv_start_data [OF c(1)] c(3,4) by (auto simp: XIic_WaitBusFree_def intro!: exI [of _ got])
  qed
  then show ?thesis
    using recv_works by blast
qed

definition rx_demo :: bus where
  "rx_demo = \<lparr>cells = (\<lambda>a. 0), feed = (\<lambda>a. if a = 0x60040020 then [0, 0, 8, 8, 8, 8, 0x10] else if a = 0x60040104 then [4, 0] else []),
     events = []\<rparr>"

lemma rx_demo_works: "rx_works 0x60040000 2 rx_demo"
  unfolding rx_works_def
  by (intro exI [of _ 0] exI [of _ "[8, 8, 8, 8]"] exI [of _ "0x10"] exI [of _ 4] exI [of _ "[]"]) (simp add: rx_demo_def bus_busy_def)

theorem xiic_polled_recv_witness:
  "\<exists>m' b' got. XIic_Recv 0x60040000 0x50 0x2000 2 0 (\<lambda>a. 7, rx_demo) = Some (2, m', b') \<and> low_drr 0x60040000 b' = got \<and> length got = 2 \<and>
     m' = lay (\<lambda>a. 7) 0x2000 (map ucast got) \<and> low_dtr 0x60040000 b' = [0xA1]"
proof -
  obtain m' b' where b: "XIic_Recv 0x60040000 0x50 0x2000 2 0 (\<lambda>a. 7, rx_demo) = Some (2, m', b')"
    using xiic_polled_recv [of 2 "0x60040000" "0x50" "0x2000" 0 "\<lambda>a. 7" rx_demo, THEN conjunct2] rx_demo_works by auto
  have "low_drr 0x60040000 rx_demo = []" "low_dtr 0x60040000 rx_demo = []"
    by (simp_all add: low_drr_def low_dtr_def rx_demo_def)
  then obtain got where "low_drr 0x60040000 b' = got" "length got = 2" "m' = lay (\<lambda>a. 7) 0x2000 (map ucast got)" "low_dtr 0x60040000 b' = [0xA1]"
    using xiic_polled_recv [of 2 "0x60040000" "0x50" "0x2000" 0 "\<lambda>a. 7" rx_demo 2 m' b'] b by (auto simp: addr7_def)
  with b show ?thesis
    by blast
qed

end
