(* ===== verification/BdRing.thy ===== *)
theory BdRing
  imports Mmio
begin

section \<open>The DMA buffer-descriptor ring (bsp/xilinx/axidma/xaxidma\_bdring.c)\<close>

text \<open>
  The control structure of a ring is the record \<open>XAxiDma_BdRing\<close>, with the fields of
  \<^verbatim>\<open>xaxidma_bdring.h\<close>; C \<^verbatim>\<open>int\<close> counters are integers, addresses and register values 32-bit
  words.  The descriptors are memory that the driver and the DMA engine share, so every
  descriptor access (\<open>XAxiDma_BdRead\<close>, \<open>XAxiDma_BdWrite\<close>) is an access of the \<open>bus\<close>, as the
  channel registers are.  The cache macros are empty in this build and \<^verbatim>\<open>printf\<close> output is
  not modelled.  Functions return the status code of the source beside the new ring and bus.
\<close>

record XAxiDma_BdRing =
  ChanBase :: addr
  IsRxChannel :: int
  RunState :: int
  HasStsCntrlStrm :: int
  HasDRE :: int
  DataWidth :: int
  Addr_ext :: int
  MaxTransferLen :: u32
  FirstBdPhysAddr :: addr
  FirstBdAddr :: addr
  LastBdAddr :: addr
  Length :: u32
  Separation :: addr
  FreeHead :: addr
  PreHead :: addr
  HwHead :: addr
  HwTail :: addr
  PostHead :: addr
  BdaRestart :: addr
  CyclicBd :: addr
  FreeCnt :: int
  PreCnt :: int
  HwCnt :: int
  PostCnt :: int
  AllCnt :: int
  RingIndex :: int
  Cyclic :: int

type_synonym bdring = XAxiDma_BdRing

subsection \<open>Constants of xstatus.h, xaxidma\_hw.h and xaxidma\_bdring.h\<close>

abbreviation (input) XST_SUCCESS :: int where "XST_SUCCESS \<equiv> 0"
abbreviation (input) XST_FAILURE :: int where "XST_FAILURE \<equiv> 1"
abbreviation (input) XST_DEVICE_IS_STARTED :: int where "XST_DEVICE_IS_STARTED \<equiv> 5"
abbreviation (input) XST_DMA_ERROR :: int where "XST_DMA_ERROR \<equiv> 9"
abbreviation (input) XST_INVALID_PARAM :: int where "XST_INVALID_PARAM \<equiv> 15"
abbreviation (input) XST_IS_STARTED :: int where "XST_IS_STARTED \<equiv> 23"
abbreviation (input) XST_DMA_SG_NO_LIST :: int where "XST_DMA_SG_NO_LIST \<equiv> 523"
abbreviation (input) XST_DMA_SG_LIST_ERROR :: int where "XST_DMA_SG_LIST_ERROR \<equiv> 526"

abbreviation (input) AXIDMA_CHANNEL_NOT_HALTED :: int where "AXIDMA_CHANNEL_NOT_HALTED \<equiv> 1"
abbreviation (input) AXIDMA_CHANNEL_HALTED :: int where "AXIDMA_CHANNEL_HALTED \<equiv> 2"
abbreviation (input) XAXIDMA_NO_CHANGE :: u32 where "XAXIDMA_NO_CHANGE \<equiv> 0xFFFFFFFF"

abbreviation (input) XAXIDMA_BD_MINIMUM_ALIGNMENT :: u32 where "XAXIDMA_BD_MINIMUM_ALIGNMENT \<equiv> 0x40"
abbreviation (input) XAXIDMA_CR_OFFSET :: addr where "XAXIDMA_CR_OFFSET \<equiv> 0x00"
abbreviation (input) XAXIDMA_SR_OFFSET :: addr where "XAXIDMA_SR_OFFSET \<equiv> 0x04"
abbreviation (input) XAXIDMA_CDESC_OFFSET :: addr where "XAXIDMA_CDESC_OFFSET \<equiv> 0x08"
abbreviation (input) XAXIDMA_CDESC_MSB_OFFSET :: addr where "XAXIDMA_CDESC_MSB_OFFSET \<equiv> 0x0C"
abbreviation (input) XAXIDMA_TDESC_OFFSET :: addr where "XAXIDMA_TDESC_OFFSET \<equiv> 0x10"
abbreviation (input) XAXIDMA_TDESC_MSB_OFFSET :: addr where "XAXIDMA_TDESC_MSB_OFFSET \<equiv> 0x14"
abbreviation (input) XAXIDMA_RX_CDESC0_OFFSET :: addr where "XAXIDMA_RX_CDESC0_OFFSET \<equiv> 0x40"
abbreviation (input) XAXIDMA_RX_CDESC0_MSB_OFFSET :: addr where "XAXIDMA_RX_CDESC0_MSB_OFFSET \<equiv> 0x44"
abbreviation (input) XAXIDMA_RX_TDESC0_OFFSET :: addr where "XAXIDMA_RX_TDESC0_OFFSET \<equiv> 0x48"
abbreviation (input) XAXIDMA_RX_TDESC0_MSB_OFFSET :: addr where "XAXIDMA_RX_TDESC0_MSB_OFFSET \<equiv> 0x4C"
abbreviation (input) XAXIDMA_RX_NDESC_OFFSET :: int where "XAXIDMA_RX_NDESC_OFFSET \<equiv> 0x20"
abbreviation (input) XAXIDMA_CR_RUNSTOP_MASK :: u32 where "XAXIDMA_CR_RUNSTOP_MASK \<equiv> 0x1"
abbreviation (input) XAXIDMA_HALTED_MASK :: u32 where "XAXIDMA_HALTED_MASK \<equiv> 0x1"
abbreviation (input) XAXIDMA_DELAY_MASK :: u32 where "XAXIDMA_DELAY_MASK \<equiv> 0xFF000000"
abbreviation (input) XAXIDMA_COALESCE_MASK :: u32 where "XAXIDMA_COALESCE_MASK \<equiv> 0x00FF0000"
abbreviation (input) XAXIDMA_DELAY_SHIFT :: nat where "XAXIDMA_DELAY_SHIFT \<equiv> 24"
abbreviation (input) XAXIDMA_COALESCE_SHIFT :: nat where "XAXIDMA_COALESCE_SHIFT \<equiv> 16"

abbreviation (input) XAXIDMA_BD_NDESC_OFFSET :: addr where "XAXIDMA_BD_NDESC_OFFSET \<equiv> 0x00"
abbreviation (input) XAXIDMA_BD_NDESC_MSB_OFFSET :: addr where "XAXIDMA_BD_NDESC_MSB_OFFSET \<equiv> 0x04"
abbreviation (input) XAXIDMA_BD_BUFA_OFFSET :: addr where "XAXIDMA_BD_BUFA_OFFSET \<equiv> 0x08"
abbreviation (input) XAXIDMA_BD_CTRL_LEN_OFFSET :: addr where "XAXIDMA_BD_CTRL_LEN_OFFSET \<equiv> 0x18"
abbreviation (input) XAXIDMA_BD_STS_OFFSET :: addr where "XAXIDMA_BD_STS_OFFSET \<equiv> 0x1C"
abbreviation (input) XAXIDMA_BD_USR0_OFFSET :: addr where "XAXIDMA_BD_USR0_OFFSET \<equiv> 0x20"
abbreviation (input) XAXIDMA_BD_HAS_STSCNTRL_OFFSET :: addr where "XAXIDMA_BD_HAS_STSCNTRL_OFFSET \<equiv> 0x38"
abbreviation (input) XAXIDMA_BD_HAS_DRE_OFFSET :: addr where "XAXIDMA_BD_HAS_DRE_OFFSET \<equiv> 0x3C"
abbreviation (input) XAXIDMA_BD_HAS_DRE_SHIFT :: nat where "XAXIDMA_BD_HAS_DRE_SHIFT \<equiv> 8"
abbreviation (input) XAXIDMA_BD_HAS_DRE_MASK :: u32 where "XAXIDMA_BD_HAS_DRE_MASK \<equiv> 0xF00"
abbreviation (input) XAXIDMA_BD_WORDLEN_MASK :: u32 where "XAXIDMA_BD_WORDLEN_MASK \<equiv> 0xFF"
abbreviation (input) XAXIDMA_LAST_APPWORD :: int where "XAXIDMA_LAST_APPWORD \<equiv> 4"
abbreviation (input) XAXIDMA_MICROMODE_MIN_BUF_ALIGN :: u32 where "XAXIDMA_MICROMODE_MIN_BUF_ALIGN \<equiv> 0xFFF"
abbreviation (input) XAXIDMA_BD_START_CLEAR :: addr where "XAXIDMA_BD_START_CLEAR \<equiv> 8"
abbreviation (input) XAXIDMA_DESC_LSB_MASK :: u32 where "XAXIDMA_DESC_LSB_MASK \<equiv> 0xFFFFFFC0"
abbreviation (input) XAXIDMA_BD_CTRL_TXSOF_MASK :: u32 where "XAXIDMA_BD_CTRL_TXSOF_MASK \<equiv> 0x08000000"
abbreviation (input) XAXIDMA_BD_CTRL_TXEOF_MASK :: u32 where "XAXIDMA_BD_CTRL_TXEOF_MASK \<equiv> 0x04000000"
abbreviation (input) XAXIDMA_BD_CTRL_ALL_MASK :: u32 where "XAXIDMA_BD_CTRL_ALL_MASK \<equiv> 0x0C000000"
abbreviation (input) XAXIDMA_BD_STS_COMPLETE_MASK :: u32 where "XAXIDMA_BD_STS_COMPLETE_MASK \<equiv> 0x80000000"
abbreviation (input) XAXIDMA_BD_STS_RXEOF_MASK :: u32 where "XAXIDMA_BD_STS_RXEOF_MASK \<equiv> 0x04000000"
abbreviation (input) XAXIDMA_BD_STS_ALL_MASK :: u32 where "XAXIDMA_BD_STS_ALL_MASK \<equiv> 0xFC000000"

text \<open>\<^verbatim>\<open>sizeof(XAxiDma_Bd)\<close>: sixteen 32-bit words.\<close>

abbreviation (input) sizeof_XAxiDma_Bd :: u32 where "sizeof_XAxiDma_Bd \<equiv> 64"

subsection \<open>Register and descriptor accessors, ring traversal macros\<close>

definition XAxiDma_ReadReg :: "addr \<Rightarrow> addr \<Rightarrow> bus \<Rightarrow> u32 \<times> bus" where
  "XAxiDma_ReadReg base off b = bus_read W32 (base + off) b"

definition XAxiDma_WriteReg :: "addr \<Rightarrow> addr \<Rightarrow> u32 \<Rightarrow> bus \<Rightarrow> bus" where
  "XAxiDma_WriteReg base off v b = bus_write W32 (base + off) v b"

definition XAxiDma_BdRead :: "addr \<Rightarrow> addr \<Rightarrow> bus \<Rightarrow> u32 \<times> bus" where
  "XAxiDma_BdRead bd off b = bus_read W32 (bd + off) b"

definition XAxiDma_BdWrite :: "addr \<Rightarrow> addr \<Rightarrow> u32 \<Rightarrow> bus \<Rightarrow> bus" where
  "XAxiDma_BdWrite bd off v b = bus_write W32 (bd + off) v b"

definition XAxiDma_BdGetCtrl :: "addr \<Rightarrow> bus \<Rightarrow> u32 \<times> bus" where
  "XAxiDma_BdGetCtrl bd b =
     (let (v, b) = XAxiDma_BdRead bd XAXIDMA_BD_CTRL_LEN_OFFSET b in (v AND XAXIDMA_BD_CTRL_ALL_MASK, b))"

definition XAxiDma_BdGetSts :: "addr \<Rightarrow> bus \<Rightarrow> u32 \<times> bus" where
  "XAxiDma_BdGetSts bd b =
     (let (v, b) = XAxiDma_BdRead bd XAXIDMA_BD_STS_OFFSET b in (v AND XAXIDMA_BD_STS_ALL_MASK, b))"

definition XAxiDma_BdGetLength :: "addr \<Rightarrow> u32 \<Rightarrow> bus \<Rightarrow> u32 \<times> bus" where
  "XAxiDma_BdGetLength bd LengthMask b =
     (let (v, b) = XAxiDma_BdRead bd XAXIDMA_BD_CTRL_LEN_OFFSET b in (v AND LengthMask, b))"

definition XAxiDma_BdHwCompleted :: "addr \<Rightarrow> bus \<Rightarrow> bool \<times> bus" where
  "XAxiDma_BdHwCompleted bd b =
     (let (v, b) = XAxiDma_BdRead bd XAXIDMA_BD_STS_OFFSET b
      in (v AND XAXIDMA_BD_STS_COMPLETE_MASK \<noteq> 0, b))"

definition XAXIDMA_VIRT_TO_PHYS :: "bdring \<Rightarrow> addr \<Rightarrow> addr" where
  "XAXIDMA_VIRT_TO_PHYS R bd = bd + (FirstBdPhysAddr R - FirstBdAddr R)"

definition UPPER_32_BITS :: "addr \<Rightarrow> u32" where
  "UPPER_32_BITS n = drop_bit 16 (drop_bit 16 n)"

definition XAXIDMA_RING_SEEKAHEAD :: "bdring \<Rightarrow> addr \<Rightarrow> int \<Rightarrow> addr" where
  "XAXIDMA_RING_SEEKAHEAD R bd NumBd =
     (let Addr = bd + Separation R * of_int NumBd
      in if Addr > LastBdAddr R \<or> bd > Addr then Addr - Length R else Addr)"

definition XAXIDMA_RING_SEEKBACK :: "bdring \<Rightarrow> addr \<Rightarrow> int \<Rightarrow> addr" where
  "XAXIDMA_RING_SEEKBACK R bd NumBd =
     (let Addr = bd - Separation R * of_int NumBd
      in if Addr < FirstBdAddr R \<or> bd < Addr then Addr + Length R else Addr)"

definition XAxiDma_BdRingNext :: "bdring \<Rightarrow> addr \<Rightarrow> addr" where
  "XAxiDma_BdRingNext R bd = (if bd \<ge> LastBdAddr R then FirstBdAddr R else bd + Separation R)"

definition XAxiDma_BdRingHwIsStarted :: "bdring \<Rightarrow> bus \<Rightarrow> bool \<times> bus" where
  "XAxiDma_BdRingHwIsStarted R b =
     (let (v, b) = XAxiDma_ReadReg (ChanBase R) XAXIDMA_SR_OFFSET b
      in (\<not> (v AND XAXIDMA_HALTED_MASK \<noteq> 0), b))"

subsection \<open>Starting a channel\<close>

text \<open>
  The block that puts the physical address of a descriptor into the current-descriptor
  register of the channel occurs twice in \<^verbatim>\<open>XAxiDma_UpdateBdRingCDesc\<close> and is named here.
\<close>

definition write_cdesc :: "bdring \<Rightarrow> addr \<Rightarrow> bus \<Rightarrow> bus" where
  "write_cdesc R BdPtr b =
     (let phys = XAXIDMA_VIRT_TO_PHYS R BdPtr; RegBase = ChanBase R;
          k = of_int ((RingIndex R - 1) * XAXIDMA_RX_NDESC_OFFSET) in
      if IsRxChannel R \<noteq> 0 then
        if RingIndex R = 0 then
          let b = XAxiDma_WriteReg RegBase XAXIDMA_CDESC_OFFSET (phys AND XAXIDMA_DESC_LSB_MASK) b in
          if Addr_ext R \<noteq> 0
          then XAxiDma_WriteReg RegBase XAXIDMA_CDESC_MSB_OFFSET (UPPER_32_BITS phys) b else b
        else
          let b = XAxiDma_WriteReg RegBase (XAXIDMA_RX_CDESC0_OFFSET + k)
                    (phys AND XAXIDMA_DESC_LSB_MASK) b in
          if Addr_ext R \<noteq> 0
          then XAxiDma_WriteReg RegBase (XAXIDMA_RX_CDESC0_MSB_OFFSET + k) (UPPER_32_BITS phys) b
          else b
      else
        let b = XAxiDma_WriteReg RegBase XAXIDMA_CDESC_OFFSET (phys AND XAXIDMA_DESC_LSB_MASK) b in
        if Addr_ext R \<noteq> 0
        then XAxiDma_WriteReg RegBase XAXIDMA_CDESC_MSB_OFFSET (UPPER_32_BITS phys) b else b)"

text \<open>
  The loop that looks for a descriptor the hardware has not completed.  It has a step bound;
  \<open>None\<close> is running out of it.  A ring of \<open>AllCnt\<close> descriptors is walked in at most that many
  steps when \<open>BdaRestart\<close> is one of them (\<open>update_cdesc_terminates\<close> below).
\<close>

fun cdesc_search :: "nat \<Rightarrow> bdring \<Rightarrow> addr \<Rightarrow> bus \<Rightarrow> (int \<times> bus) option" where
  "cdesc_search 0 R BdPtr b = None"
| "cdesc_search (Suc k) R BdPtr b =
     (let (done, b) = XAxiDma_BdHwCompleted BdPtr b in
      if \<not> done then Some (XST_SUCCESS, b)
      else
        let BdPtr = XAxiDma_BdRingNext R BdPtr in
        if BdPtr = BdaRestart R then Some (XST_DMA_ERROR, b)
        else
          let (done, b) = XAxiDma_BdHwCompleted BdPtr b in
          if \<not> done then Some (XST_SUCCESS, write_cdesc R BdPtr b)
          else cdesc_search k R BdPtr b)"

definition XAxiDma_UpdateBdRingCDesc :: "bdring \<Rightarrow> bus \<Rightarrow> (int \<times> bus) option" where
  "XAxiDma_UpdateBdRingCDesc R b =
     (if AllCnt R = 0 then Some (XST_DMA_SG_NO_LIST, b)
      else if RunState R = AXIDMA_CHANNEL_NOT_HALTED then Some (XST_SUCCESS, b)
      else
        let (started, b) = XAxiDma_BdRingHwIsStarted R b in
        if \<not> started then
          let BdPtr = BdaRestart R;
              (done, b) = XAxiDma_BdHwCompleted BdPtr b in
          if \<not> done then Some (XST_SUCCESS, write_cdesc R BdPtr b)
          else cdesc_search (nat (AllCnt R)) R BdPtr b
        else Some (XST_SUCCESS, b))"

definition write_tdesc :: "bdring \<Rightarrow> bus \<Rightarrow> bus" where
  "write_tdesc R b =
     (let phys = XAXIDMA_VIRT_TO_PHYS R (HwTail R);
          k = of_int ((RingIndex R - 1) * XAXIDMA_RX_NDESC_OFFSET) in
      if IsRxChannel R \<noteq> 0 then
        if RingIndex R = 0 then
          let b = XAxiDma_WriteReg (ChanBase R) XAXIDMA_TDESC_OFFSET
                    (phys AND XAXIDMA_DESC_LSB_MASK) b in
          if Addr_ext R \<noteq> 0
          then XAxiDma_WriteReg (ChanBase R) XAXIDMA_TDESC_MSB_OFFSET (UPPER_32_BITS phys) b else b
        else
          let b = XAxiDma_WriteReg (ChanBase R) (XAXIDMA_RX_TDESC0_OFFSET + k)
                    (phys AND XAXIDMA_DESC_LSB_MASK) b in
          if Addr_ext R \<noteq> 0
          then XAxiDma_WriteReg (ChanBase R) (XAXIDMA_RX_TDESC0_MSB_OFFSET + k) (UPPER_32_BITS phys) b
          else b
      else
        let b = XAxiDma_WriteReg (ChanBase R) XAXIDMA_TDESC_OFFSET
                  (phys AND XAXIDMA_DESC_LSB_MASK) b in
        if Addr_ext R \<noteq> 0
        then XAxiDma_WriteReg (ChanBase R) XAXIDMA_TDESC_MSB_OFFSET (UPPER_32_BITS phys) b else b)"

definition write_tdesc_cyclic :: "bdring \<Rightarrow> bus \<Rightarrow> bus" where
  "write_tdesc_cyclic R b =
     (let phys = XAXIDMA_VIRT_TO_PHYS R (CyclicBd R);
          b = XAxiDma_WriteReg (ChanBase R) XAXIDMA_TDESC_OFFSET phys b in
      if Addr_ext R \<noteq> 0
      then XAxiDma_WriteReg (ChanBase R) XAXIDMA_TDESC_MSB_OFFSET (UPPER_32_BITS phys) b else b)"

definition XAxiDma_StartBdRingHw :: "bdring \<Rightarrow> bus \<Rightarrow> int \<times> bdring \<times> bus" where
  "XAxiDma_StartBdRingHw R b =
     (let (started, b) = XAxiDma_BdRingHwIsStarted R b;
          b = (if \<not> started then
                 let (cr, b) = XAxiDma_ReadReg (ChanBase R) XAXIDMA_CR_OFFSET b
                 in XAxiDma_WriteReg (ChanBase R) XAXIDMA_CR_OFFSET (cr OR XAXIDMA_CR_RUNSTOP_MASK) b
               else b);
          (started, b) = XAxiDma_BdRingHwIsStarted R b in
      if started then
        let R = R\<lparr>RunState := AXIDMA_CHANNEL_NOT_HALTED\<rparr> in
        if HwCnt R > 0 then
          if Cyclic R \<noteq> 0 then (XST_SUCCESS, R, write_tdesc_cyclic R b)
          else
            let (sts, b) = XAxiDma_BdRead (HwTail R) XAXIDMA_BD_STS_OFFSET b in
            if sts AND XAXIDMA_BD_STS_COMPLETE_MASK = 0 then (XST_SUCCESS, R, write_tdesc R b)
            else (XST_SUCCESS, R, b)
        else (XST_SUCCESS, R, b)
      else (XST_DMA_ERROR, R, b))"

definition XAxiDma_BdRingStart :: "bdring \<Rightarrow> bus \<Rightarrow> (int \<times> bdring \<times> bus) option" where
  "XAxiDma_BdRingStart R b =
     do {
       (Status, b) \<leftarrow> XAxiDma_UpdateBdRingCDesc R b;
       if Status \<noteq> XST_SUCCESS then Some (Status, R, b)
       else
         let (Status, R, b) = XAxiDma_StartBdRingHw R b in
         if Status \<noteq> XST_SUCCESS then Some (Status, R, b) else Some (XST_SUCCESS, R, b)
     }"

subsection \<open>Creating a ring\<close>

text \<open>\<^verbatim>\<open>memset(p, 0, 4 * n)\<close>, a word at a time.\<close>

definition mem_zero :: "addr \<Rightarrow> nat \<Rightarrow> bus \<Rightarrow> bus" where
  "mem_zero a n b = fold (\<lambda>i. bus_write W32 (a + 4 * of_nat i) 0) [0..<n] b"

text \<open>The hardware information that \<^verbatim>\<open>XAxiDma_BdRingCreate\<close> puts into one descriptor.\<close>

definition bd_setup :: "bdring \<Rightarrow> addr \<Rightarrow> addr \<Rightarrow> bus \<Rightarrow> bus" where
  "bd_setup R BdVirtAddr next_phys b =
     (let b = XAxiDma_BdWrite BdVirtAddr XAXIDMA_BD_NDESC_OFFSET (next_phys AND XAXIDMA_DESC_LSB_MASK) b;
          b = XAxiDma_BdWrite BdVirtAddr XAXIDMA_BD_NDESC_MSB_OFFSET (UPPER_32_BITS next_phys) b;
          b = XAxiDma_BdWrite BdVirtAddr XAXIDMA_BD_HAS_STSCNTRL_OFFSET (of_int (HasStsCntrlStrm R)) b
      in XAxiDma_BdWrite BdVirtAddr XAXIDMA_BD_HAS_DRE_OFFSET
           (push_bit XAXIDMA_BD_HAS_DRE_SHIFT (of_int (HasDRE R)) OR of_int (DataWidth R)) b)"

fun link_bds :: "nat \<Rightarrow> bdring \<Rightarrow> addr \<Rightarrow> addr \<Rightarrow> bus \<Rightarrow> addr \<times> bus" where
  "link_bds 0 R BdVirtAddr BdPhysAddr b = (BdVirtAddr, b)"
| "link_bds (Suc k) R BdVirtAddr BdPhysAddr b =
     link_bds k R (BdVirtAddr + Separation R) (BdPhysAddr + Separation R)
       (bd_setup R BdVirtAddr BdPhysAddr b)"

definition XAxiDma_BdRingCreate ::
  "addr \<Rightarrow> bdring \<Rightarrow> addr \<Rightarrow> addr \<Rightarrow> u32 \<Rightarrow> int \<Rightarrow> bus \<Rightarrow> int \<times> bdring \<times> bus" where
  "XAxiDma_BdRingCreate malloced R PhysAddr VirtAddr Alignment BdCount b =
     (if BdCount \<le> 0 then (XST_INVALID_PARAM, R, b)
      else
        let R = R\<lparr>AllCnt := 0, FreeCnt := 0, HwCnt := 0, PreCnt := 0, PostCnt := 0, Cyclic := 0\<rparr> in
        if Alignment < XAXIDMA_BD_MINIMUM_ALIGNMENT then (XST_INVALID_PARAM, R, b)
        else if (Alignment - 1) AND Alignment \<noteq> 0 then (XST_INVALID_PARAM, R, b)
        else if PhysAddr mod Alignment \<noteq> 0 \<or> VirtAddr mod Alignment \<noteq> 0
        then (XST_INVALID_PARAM, R, b)
        else
          let R = R\<lparr>Separation := (sizeof_XAxiDma_Bd + (Alignment - 1)) AND NOT (Alignment - 1)\<rparr> in
          if VirtAddr > VirtAddr + Separation R * of_int BdCount - 1
          then (XST_DMA_SG_LIST_ERROR, R, b)
          else
            let b = mem_zero VirtAddr (unat (Separation R * of_int BdCount) div 4) b;
                (LastVirt, b) = link_bds (nat (BdCount - 1)) R VirtAddr (PhysAddr + Separation R) b;
                b = bd_setup R LastVirt PhysAddr b
            in (XST_SUCCESS,
                R\<lparr>RunState := AXIDMA_CHANNEL_HALTED, FirstBdAddr := VirtAddr,
                  FirstBdPhysAddr := PhysAddr, LastBdAddr := LastVirt,
                  Length := LastVirt - VirtAddr + Separation R,
                  AllCnt := BdCount, FreeCnt := BdCount, FreeHead := VirtAddr,
                  PreHead := VirtAddr, HwHead := VirtAddr, HwTail := VirtAddr,
                  PostHead := VirtAddr, BdaRestart := VirtAddr, CyclicBd := malloced\<rparr>, b))"

text \<open>
  The template passed to \<^verbatim>\<open>XAxiDma_BdRingClone\<close> is copied to the stack, where the copy is
  sixteen words; words 2 to 13 (bytes 8 to 55) are then stored into every descriptor.
\<close>

definition copy_bd_words :: "u32 list \<Rightarrow> addr \<Rightarrow> bus \<Rightarrow> bus" where
  "copy_bd_words tmp CurBd b =
     fold (\<lambda>i. bus_write W32 (CurBd + XAXIDMA_BD_START_CLEAR + 4 * of_nat i) (tmp ! (i + 2))) [0..<12] b"

fun clone_loop :: "nat \<Rightarrow> bdring \<Rightarrow> u32 list \<Rightarrow> addr \<Rightarrow> bus \<Rightarrow> bus" where
  "clone_loop 0 R tmp CurBd b = b"
| "clone_loop (Suc k) R tmp CurBd b = clone_loop k R tmp (CurBd + Separation R) (copy_bd_words tmp CurBd b)"

definition XAxiDma_BdRingClone :: "bdring \<Rightarrow> u32 list \<Rightarrow> bus \<Rightarrow> int \<times> bus" where
  "XAxiDma_BdRingClone R SrcBd b =
     (if AllCnt R = 0 then (XST_DMA_SG_NO_LIST, b)
      else if RunState R = AXIDMA_CHANNEL_NOT_HALTED then (XST_DEVICE_IS_STARTED, b)
      else if FreeCnt R \<noteq> AllCnt R then (XST_DMA_SG_LIST_ERROR, b)
      else
        let TmpBd = SrcBd[7 := SrcBd ! 7 AND NOT XAXIDMA_BD_STS_COMPLETE_MASK]
        in (XST_SUCCESS, clone_loop (nat (AllCnt R)) R TmpBd (FirstBdAddr R) b))"

subsection \<open>Interrupt coalescing\<close>

definition XAxiDma_BdRingSetCoalesce :: "bdring \<Rightarrow> u32 \<Rightarrow> u32 \<Rightarrow> bus \<Rightarrow> int \<times> bus" where
  "XAxiDma_BdRingSetCoalesce R Counter Timer b =
     (let (Cr, b) = XAxiDma_ReadReg (ChanBase R) XAXIDMA_CR_OFFSET b in
      if Counter \<noteq> XAXIDMA_NO_CHANGE \<and> (Counter = 0 \<or> Counter > 0xFF) then (XST_FAILURE, b)
      else
        let Cr = (if Counter \<noteq> XAXIDMA_NO_CHANGE
                  then (Cr AND NOT XAXIDMA_COALESCE_MASK) OR push_bit XAXIDMA_COALESCE_SHIFT Counter
                  else Cr) in
        if Timer \<noteq> XAXIDMA_NO_CHANGE \<and> Timer > 0xFF then (XST_FAILURE, b)
        else
          let Cr = (if Timer \<noteq> XAXIDMA_NO_CHANGE
                    then (Cr AND NOT XAXIDMA_DELAY_MASK) OR push_bit XAXIDMA_DELAY_SHIFT Timer
                    else Cr)
          in (XST_SUCCESS, XAxiDma_WriteReg (ChanBase R) XAXIDMA_CR_OFFSET Cr b))"

definition XAxiDma_BdRingGetCoalesce :: "bdring \<Rightarrow> bus \<Rightarrow> (u32 \<times> u32) \<times> bus" where
  "XAxiDma_BdRingGetCoalesce R b =
     (let (Cr, b) = XAxiDma_ReadReg (ChanBase R) XAXIDMA_CR_OFFSET b
      in ((drop_bit XAXIDMA_COALESCE_SHIFT (Cr AND XAXIDMA_COALESCE_MASK),
           drop_bit XAXIDMA_DELAY_SHIFT (Cr AND XAXIDMA_DELAY_MASK)), b))"

subsection \<open>Moving descriptors between the groups\<close>

text \<open>The out-parameter \<^verbatim>\<open>*BdSetPtr\<close> is the middle component of the result.\<close>

definition XAxiDma_BdRingAlloc :: "bdring \<Rightarrow> int \<Rightarrow> int \<times> addr option \<times> bdring" where
  "XAxiDma_BdRingAlloc R NumBd =
     (if NumBd \<le> 0 then (XST_INVALID_PARAM, None, R)
      else if FreeCnt R < NumBd then (XST_FAILURE, None, R)
      else (XST_SUCCESS, Some (FreeHead R),
            R\<lparr>FreeHead := XAXIDMA_RING_SEEKAHEAD R (FreeHead R) NumBd,
              FreeCnt := FreeCnt R - NumBd, PreCnt := PreCnt R + NumBd\<rparr>))"

definition XAxiDma_BdRingUnAlloc :: "bdring \<Rightarrow> int \<Rightarrow> addr \<Rightarrow> int \<times> bdring" where
  "XAxiDma_BdRingUnAlloc R NumBd BdSetPtr =
     (if NumBd \<le> 0 then (XST_INVALID_PARAM, R)
      else if PreCnt R < NumBd then (XST_FAILURE, R)
      else if XAXIDMA_RING_SEEKAHEAD R BdSetPtr NumBd \<noteq> FreeHead R then (XST_FAILURE, R)
      else (XST_SUCCESS,
            R\<lparr>FreeHead := XAXIDMA_RING_SEEKBACK R (FreeHead R) NumBd,
              FreeCnt := FreeCnt R + NumBd, PreCnt := PreCnt R - NumBd\<rparr>))"

text \<open>
  The loop of \<^verbatim>\<open>XAxiDma_BdRingToHw\<close> over all descriptors of the set but the last: \<open>None\<close> is
  its early return with \<^verbatim>\<open>XST_FAILURE\<close>, otherwise the loop variables at its end.
\<close>

fun ToHw_loop :: "nat \<Rightarrow> bdring \<Rightarrow> addr \<Rightarrow> u32 \<Rightarrow> u32 \<Rightarrow> bus \<Rightarrow> (addr \<times> u32 \<times> u32) option \<times> bus" where
  "ToHw_loop 0 R CurBdPtr BdCr BdSts b = (Some (CurBdPtr, BdCr, BdSts), b)"
| "ToHw_loop (Suc k) R CurBdPtr BdCr BdSts b =
     (let (len, b) = XAxiDma_BdGetLength CurBdPtr (MaxTransferLen R) b in
      if len = 0 then (None, b)
      else
        let BdSts = BdSts AND NOT XAXIDMA_BD_STS_COMPLETE_MASK;
            b = XAxiDma_BdWrite CurBdPtr XAXIDMA_BD_STS_OFFSET BdSts b;
            CurBdPtr = XAxiDma_BdRingNext R CurBdPtr;
            (BdCr, b) = XAxiDma_BdRead CurBdPtr XAXIDMA_BD_CTRL_LEN_OFFSET b;
            (BdSts, b) = XAxiDma_BdRead CurBdPtr XAXIDMA_BD_STS_OFFSET b
        in ToHw_loop k R CurBdPtr BdCr BdSts b)"

definition XAxiDma_BdRingToHw :: "bdring \<Rightarrow> int \<Rightarrow> addr \<Rightarrow> bus \<Rightarrow> int \<times> bdring \<times> bus" where
  "XAxiDma_BdRingToHw R NumBd BdSetPtr b =
     (if NumBd < 0 then (XST_INVALID_PARAM, R, b)
      else if NumBd = 0 then (XST_SUCCESS, R, b)
      else if PreCnt R < NumBd \<or> PreHead R \<noteq> BdSetPtr then (XST_DMA_SG_LIST_ERROR, R, b)
      else
        let (BdCr, b) = XAxiDma_BdGetCtrl BdSetPtr b;
            (BdSts, b) = XAxiDma_BdGetSts BdSetPtr b in
        if IsRxChannel R = 0 \<and> BdCr AND XAXIDMA_BD_CTRL_TXSOF_MASK = 0 then (XST_FAILURE, R, b)
        else
          (case ToHw_loop (nat (NumBd - 1)) R BdSetPtr BdCr BdSts b of
             (None, b) \<Rightarrow> (XST_FAILURE, R, b)
           | (Some (CurBdPtr, BdCr, BdSts), b) \<Rightarrow>
               if IsRxChannel R = 0 \<and> BdCr AND XAXIDMA_BD_CTRL_TXEOF_MASK = 0 then (XST_FAILURE, R, b)
               else
                 let (len, b) = XAxiDma_BdGetLength CurBdPtr (MaxTransferLen R) b in
                 if len = 0 then (XST_FAILURE, R, b)
                 else
                   let BdSts = BdSts AND NOT XAXIDMA_BD_STS_COMPLETE_MASK;
                       b = XAxiDma_BdWrite CurBdPtr XAXIDMA_BD_STS_OFFSET BdSts b;
                       R = R\<lparr>PreHead := XAXIDMA_RING_SEEKAHEAD R (PreHead R) NumBd,
                             PreCnt := PreCnt R - NumBd, HwTail := CurBdPtr,
                             HwCnt := HwCnt R + NumBd\<rparr> in
                   if RunState R = AXIDMA_CHANNEL_NOT_HALTED then
                     if Cyclic R \<noteq> 0 then (XST_SUCCESS, R, write_tdesc_cyclic R b)
                     else (XST_SUCCESS, R, write_tdesc R b)
                   else (XST_SUCCESS, R, b)))"

text \<open>
  The loop of \<^verbatim>\<open>XAxiDma_BdRingFromHw\<close>; its first argument is \<^verbatim>\<open>BdLimit - BdCount\<close>, the
  result the final \<^verbatim>\<open>BdCount\<close> and \<^verbatim>\<open>BdPartialCount\<close>.
\<close>

fun FromHw_loop :: "nat \<Rightarrow> bdring \<Rightarrow> addr \<Rightarrow> int \<Rightarrow> int \<Rightarrow> bus \<Rightarrow> int \<times> int \<times> bus" where
  "FromHw_loop 0 R CurBdPtr BdCount BdPartialCount b = (BdCount, BdPartialCount, b)"
| "FromHw_loop (Suc k) R CurBdPtr BdCount BdPartialCount b =
     (let (BdSts, b) = XAxiDma_BdRead CurBdPtr XAXIDMA_BD_STS_OFFSET b;
          (BdCr, b) = XAxiDma_BdRead CurBdPtr XAXIDMA_BD_CTRL_LEN_OFFSET b in
      if \<not> (BdSts AND XAXIDMA_BD_STS_COMPLETE_MASK \<noteq> 0) then (BdCount, BdPartialCount, b)
      else
        let BdCount = BdCount + 1;
            BdPartialCount =
              (if IsRxChannel R = 0 \<and> BdCr AND XAXIDMA_BD_CTRL_TXEOF_MASK \<noteq> 0 \<or>
                  IsRxChannel R \<noteq> 0 \<and> BdSts AND XAXIDMA_BD_STS_RXEOF_MASK \<noteq> 0
               then 0 else BdPartialCount + 1);
            b = (if Cyclic R \<noteq> 0
                 then XAxiDma_BdWrite CurBdPtr XAXIDMA_BD_STS_OFFSET
                        (BdSts AND NOT XAXIDMA_BD_STS_COMPLETE_MASK) b
                 else b) in
        if CurBdPtr = HwTail R then (BdCount, BdPartialCount, b)
        else FromHw_loop k R (XAxiDma_BdRingNext R CurBdPtr) BdCount BdPartialCount b)"

definition XAxiDma_BdRingFromHw :: "bdring \<Rightarrow> int \<Rightarrow> bus \<Rightarrow> int \<times> addr \<times> bdring \<times> bus" where
  "XAxiDma_BdRingFromHw R BdLimit b =
     (if HwCnt R = 0 then (0, 0, R, b)
      else
        let BdLimit = (if BdLimit > HwCnt R then HwCnt R else BdLimit);
            (BdCount, BdPartialCount, b) = FromHw_loop (nat BdLimit) R (HwHead R) 0 0 b;
            BdCount = BdCount - BdPartialCount in
        if BdCount \<noteq> 0 then
          let BdSet = HwHead R;
              R = (if Cyclic R = 0
                   then R\<lparr>HwCnt := HwCnt R - BdCount, PostCnt := PostCnt R + BdCount\<rparr> else R);
              R = R\<lparr>HwHead := XAXIDMA_RING_SEEKAHEAD R (HwHead R) BdCount\<rparr>
          in (BdCount, BdSet, R, b)
        else (0, 0, R, b))"

definition XAxiDma_BdRingFree :: "bdring \<Rightarrow> int \<Rightarrow> addr \<Rightarrow> int \<times> bdring" where
  "XAxiDma_BdRingFree R NumBd BdSetPtr =
     (if NumBd < 0 then (XST_INVALID_PARAM, R)
      else if NumBd = 0 then (XST_SUCCESS, R)
      else if PostCnt R < NumBd \<or> PostHead R \<noteq> BdSetPtr then (XST_DMA_SG_LIST_ERROR, R)
      else (XST_SUCCESS,
            R\<lparr>FreeCnt := FreeCnt R + NumBd, PostCnt := PostCnt R - NumBd,
              PostHead := XAXIDMA_RING_SEEKAHEAD R (PostHead R) NumBd\<rparr>))"

subsection \<open>The self check\<close>

fun check_links :: "nat \<Rightarrow> bdring \<Rightarrow> addr \<Rightarrow> addr \<Rightarrow> bus \<Rightarrow> addr option \<times> bus" where
  "check_links 0 R AddrV AddrP b = (Some AddrV, b)"
| "check_links (Suc k) R AddrV AddrP b =
     (let (v, b) = XAxiDma_BdRead AddrV XAXIDMA_BD_NDESC_OFFSET b in
      if v \<noteq> AddrP then (None, b)
      else check_links k R (AddrV + Separation R) (AddrP + Separation R) b)"

definition out_of_ring :: "bdring \<Rightarrow> addr \<Rightarrow> bool" where
  "out_of_ring R AddrV \<longleftrightarrow> AddrV < FirstBdAddr R \<or> AddrV > LastBdAddr R"

definition XAxiDma_BdRingCheck :: "bdring \<Rightarrow> bus \<Rightarrow> int \<times> bus" where
  "XAxiDma_BdRingCheck R b =
     (if AllCnt R = 0 then (XST_DMA_SG_NO_LIST, b)
      else if RunState R = AXIDMA_CHANNEL_NOT_HALTED then (XST_IS_STARTED, b)
      else if RunState R \<noteq> AXIDMA_CHANNEL_HALTED then (XST_DMA_SG_LIST_ERROR, b)
      else if out_of_ring R (FreeHead R) then (XST_DMA_SG_LIST_ERROR, b)
      else if out_of_ring R (PreHead R) then (XST_DMA_SG_LIST_ERROR, b)
      else if out_of_ring R (HwHead R) then (XST_DMA_SG_LIST_ERROR, b)
      else if out_of_ring R (HwTail R) then (XST_DMA_SG_LIST_ERROR, b)
      else if out_of_ring R (PostHead R) then (XST_DMA_SG_LIST_ERROR, b)
      else if HwCnt R + PreCnt R + FreeCnt R + PostCnt R \<noteq> AllCnt R then (XST_DMA_SG_LIST_ERROR, b)
      else
        (case check_links (nat (AllCnt R - 1)) R (FirstBdAddr R)
                (FirstBdPhysAddr R + Separation R) b of
           (None, b) \<Rightarrow> (XST_DMA_SG_LIST_ERROR, b)
         | (Some AddrV, b) \<Rightarrow>
             let (v, b) = XAxiDma_BdRead AddrV XAXIDMA_BD_NDESC_OFFSET b in
             if v \<noteq> FirstBdPhysAddr R then (XST_DMA_SG_LIST_ERROR, b) else (XST_SUCCESS, b)))"

subsection \<open>Descriptor fields (xaxidma\_bd.c)\<close>

definition XAxiDma_BdSetLength :: "addr \<Rightarrow> u32 \<Rightarrow> u32 \<Rightarrow> bus \<Rightarrow> int \<times> bus" where
  "XAxiDma_BdSetLength BdPtr LenBytes LengthMask b =
     (if LenBytes \<le> 0 \<or> LenBytes > LengthMask then (XST_INVALID_PARAM, b)
      else
        let (v, b) = XAxiDma_BdRead BdPtr XAXIDMA_BD_CTRL_LEN_OFFSET b
        in (XST_SUCCESS, XAxiDma_BdWrite BdPtr XAXIDMA_BD_CTRL_LEN_OFFSET
              ((v AND NOT LengthMask) OR LenBytes) b))"

text \<open>\<^verbatim>\<open>WordLen\<close> is a \<^verbatim>\<open>u8\<close>; \<^verbatim>\<open>WordLen - 1\<close> is computed in \<^verbatim>\<open>int\<close> and converted back, so a word
  length of 0 gives the mask of all ones.\<close>

definition XAxiDma_BdSetBufAddr :: "addr \<Rightarrow> addr \<Rightarrow> bus \<Rightarrow> int \<times> bus" where
  "XAxiDma_BdSetBufAddr BdPtr Addr b =
     (let (HasDre, b) = XAxiDma_BdRead BdPtr XAXIDMA_BD_HAS_DRE_OFFSET b;
          WordLen = HasDre AND XAXIDMA_BD_WORDLEN_MASK in
      if Addr AND (WordLen - 1) \<noteq> 0 \<and> HasDre AND XAXIDMA_BD_HAS_DRE_MASK = 0
      then (XST_INVALID_PARAM, b)
      else (XST_SUCCESS, XAxiDma_BdWrite BdPtr XAXIDMA_BD_BUFA_OFFSET Addr b))"

definition XAxiDma_BdSetBufAddrMicroMode :: "addr \<Rightarrow> addr \<Rightarrow> bus \<Rightarrow> int \<times> bus" where
  "XAxiDma_BdSetBufAddrMicroMode BdPtr Addr b =
     (if Addr AND XAXIDMA_MICROMODE_MIN_BUF_ALIGN \<noteq> 0 then (XST_INVALID_PARAM, b)
      else (XST_SUCCESS, XAxiDma_BdWrite BdPtr XAXIDMA_BD_BUFA_OFFSET Addr b))"

definition XAxiDma_BdSetAppWord :: "addr \<Rightarrow> int \<Rightarrow> u32 \<Rightarrow> bus \<Rightarrow> int \<times> bus" where
  "XAxiDma_BdSetAppWord BdPtr Offset Word b =
     (let (v, b) = XAxiDma_BdRead BdPtr XAXIDMA_BD_HAS_STSCNTRL_OFFSET b in
      if v = 0 then (XST_INVALID_PARAM, b)
      else if Offset < 0 \<or> Offset > XAXIDMA_LAST_APPWORD then (XST_INVALID_PARAM, b)
      else (XST_SUCCESS, XAxiDma_BdWrite BdPtr (XAXIDMA_BD_USR0_OFFSET + of_int (Offset * 4)) Word b))"

definition XAxiDma_BdGetAppWord :: "addr \<Rightarrow> int \<Rightarrow> bus \<Rightarrow> (u32 \<times> int) \<times> bus" where
  "XAxiDma_BdGetAppWord BdPtr Offset b =
     (let (v, b) = XAxiDma_BdRead BdPtr XAXIDMA_BD_HAS_STSCNTRL_OFFSET b in
      if v = 0 then ((0, 0), b)
      else if Offset < 0 \<or> Offset > XAXIDMA_LAST_APPWORD then ((0, 0), b)
      else
        let (v, b) = XAxiDma_BdRead BdPtr (XAXIDMA_BD_USR0_OFFSET + of_int (Offset * 4)) b
        in ((v, 1), b))"

definition XAxiDma_BdSetCtrl :: "addr \<Rightarrow> u32 \<Rightarrow> bus \<Rightarrow> bus" where
  "XAxiDma_BdSetCtrl BdPtr Data b =
     (let (RegValue, b) = XAxiDma_BdRead BdPtr XAXIDMA_BD_CTRL_LEN_OFFSET b;
          RegValue = RegValue AND NOT XAXIDMA_BD_CTRL_ALL_MASK;
          RegValue = RegValue OR (Data AND XAXIDMA_BD_CTRL_ALL_MASK)
      in XAxiDma_BdWrite BdPtr XAXIDMA_BD_CTRL_LEN_OFFSET RegValue b)"

end
