(* ===== verification/BdRing_Inv.thy ===== *)
theory BdRing_Inv
  imports BdRing
begin

section \<open>Correctness of the buffer-descriptor ring\<close>

text \<open>
  A ring of \<open>n\<close> descriptors is a contiguous block of memory; slot \<open>i\<close> is the address of the
  \<open>i\<close>-th descriptor.  The first part shows that the traversal macros are arithmetic modulo
  \<open>n\<close> on slots, whatever 32-bit wrap-around their intermediate addresses go through.  The
  second part is the abstract specification: four queues of slots (post, hw, pre, free), and
  the moves between them.  The third shows that every ring operation keeps the invariant and
  implements a move.
\<close>

subsection \<open>Slots\<close>

definition bd_count :: "bdring \<Rightarrow> nat" where
  "bd_count R = nat (AllCnt R)"

definition slot :: "bdring \<Rightarrow> nat \<Rightarrow> addr" where
  "slot R i = FirstBdAddr R + of_nat i * Separation R"

definition geom :: "bdring \<Rightarrow> bool" where
  "geom R \<longleftrightarrow> 0 < AllCnt R \<and> 0 < unat (Separation R) \<and>
     bd_count R * unat (Separation R) < 2 ^ 32 \<and>
     unat (FirstBdAddr R) + bd_count R * unat (Separation R) \<le> 2 ^ 32 \<and>
     LastBdAddr R = slot R (bd_count R - 1) \<and>
     Length R = of_nat (bd_count R) * Separation R"

lemma geomD:
  assumes "geom R"
  shows "0 < bd_count R" and "0 < unat (Separation R)"
    and "bd_count R * unat (Separation R) < 2 ^ 32"
    and "unat (FirstBdAddr R) + bd_count R * unat (Separation R) \<le> 2 ^ 32"
    and "LastBdAddr R = slot R (bd_count R - 1)"
    and "Length R = of_nat (bd_count R) * Separation R"
  using assms by (auto simp: geom_def bd_count_def)

lemma mult_mono_sep:
  assumes "k \<le> (n::nat)" "n * s < m"
  shows "k * s < m"
  using assms mult_le_mono1 [of k n s] by linarith

lemma unat_times_sep:
  assumes "geom R" and "k \<le> bd_count R"
  shows "unat (of_nat k * Separation R) = k * unat (Separation R)"
proof -
  have lt: "k * unat (Separation R) < 2 ^ 32"
    using mult_mono_sep [OF assms(2)] geomD(3) [OF assms(1)] .
  have "0 < unat (Separation R)"
    using geomD(2) [OF assms(1)] .
  then have "k \<le> k * unat (Separation R)"
    by simp
  then have "k < 2 ^ 32"
    using lt by linarith
  then have "unat (of_nat k :: u32) = k"
    by (simp add: unat_of_nat_small)
  then show ?thesis
    using lt by (simp add: unat_word_ariths)
qed

lemma unat_slot:
  assumes "geom R" and "i < bd_count R"
  shows "unat (slot R i) = unat (FirstBdAddr R) + i * unat (Separation R)"
proof -
  let ?S = "unat (Separation R)"
  have "(i + 1) * ?S \<le> bd_count R * ?S"
    using assms(2) by (intro mult_le_mono1) simp
  then have "unat (FirstBdAddr R) + i * ?S < 2 ^ 32"
    using geomD(2,4) [OF assms(1)] by (simp add: algebra_simps)
  then show ?thesis
    using unat_times_sep [OF assms(1), of i] assms(2)
    by (simp add: slot_def unat_word_ariths)
qed

lemma slot_inj:
  assumes "geom R" "i < bd_count R" "j < bd_count R" "slot R i = slot R j"
  shows "i = j"
proof -
  have "i * unat (Separation R) = j * unat (Separation R)"
    using unat_slot [OF assms(1,2)] unat_slot [OF assms(1,3)] assms(4) by auto
  then show ?thesis
    using geomD(2) [OF assms(1)] by simp
qed

lemma slot_le_Last:
  assumes "geom R" "i < bd_count R"
  shows "slot R i \<le> LastBdAddr R" and "FirstBdAddr R \<le> slot R i"
proof -
  have "i * unat (Separation R) \<le> (bd_count R - 1) * unat (Separation R)"
    using assms(2) by (intro mult_le_mono1) simp
  then show "slot R i \<le> LastBdAddr R" "FirstBdAddr R \<le> slot R i"
    using unat_slot [OF assms] unat_slot [OF assms(1), of "bd_count R - 1"] assms
      geomD(1,5) [OF assms(1)]
    by (simp_all add: word_le_nat_alt)
qed

lemma SEEKAHEAD_slot:
  assumes g: "geom R" and i: "i < bd_count R" and k: "k \<le> bd_count R"
  shows "XAXIDMA_RING_SEEKAHEAD R (slot R i) (int k) = slot R ((i + k) mod bd_count R)"
proof -
  let ?n = "bd_count R" and ?S = "unat (Separation R)" and ?F = "unat (FirstBdAddr R)"
  define Addr where "Addr = slot R i + Separation R * of_nat k"
  have Addr_eq: "Addr = slot R (i + k)"
    by (simp add: Addr_def slot_def algebra_simps)
  have kS: "unat (Separation R * of_nat k) = k * ?S"
    using unat_times_sep [OF g k] by (simp add: mult.commute)
  show ?thesis
  proof (cases "i + k < ?n")
    case True
    then have "Addr \<le> LastBdAddr R" "slot R i \<le> Addr"
      using slot_le_Last [OF g True] unat_slot [OF g True] unat_slot [OF g i]
      by (simp_all add: Addr_eq word_le_nat_alt algebra_simps)
    then show ?thesis
      using True
      by (simp add: XAXIDMA_RING_SEEKAHEAD_def Let_def flip: Addr_def)
         (simp add: Addr_eq not_less [symmetric] leD)
  next
    case False
    then have jn: "i + k - ?n < ?n"
      using i k by simp
    have wrap: "Addr > LastBdAddr R \<or> slot R i > Addr"
    proof (cases "?F + (i + k) * ?S < 2 ^ 32")
      case True
      then have "unat (slot R i) + unat (Separation R * of_nat k) < 2 ^ 32"
        unfolding unat_slot [OF g i] kS by (simp add: algebra_simps)
      then have "unat Addr = unat (slot R i) + unat (Separation R * of_nat k)"
        unfolding Addr_def by (subst unat_add_lem [THEN iffD1]) auto
      then have "unat Addr = ?F + (i + k) * ?S"
        unfolding unat_slot [OF g i] kS by (simp add: algebra_simps)
      moreover have "(?n - 1) * ?S < (i + k) * ?S"
        using False geomD(1,2) [OF g] by (intro mult_less_mono1) auto
      moreover have "unat (LastBdAddr R) = ?F + (?n - 1) * ?S"
        using unat_slot [OF g, of "?n - 1"] geomD(1,5) [OF g] by simp
      ultimately have "Addr > LastBdAddr R"
        by (simp add: word_less_nat_alt)
      then show ?thesis by simp
    next
      case False
      have "k * ?S < 2 ^ 32"
        using mult_mono_sep [OF k geomD(3) [OF g]] .
      moreover have "2 ^ 32 \<le> unat (slot R i) + k * ?S"
        using False unfolding unat_slot [OF g i] by (simp add: algebra_simps)
      ultimately have "unat Addr < unat (slot R i)"
        unfolding Addr_def by (rule unat_add_wraps [OF _ _ kS])
      then show ?thesis
        by (simp add: word_less_nat_alt)
    qed
    have "(of_nat (i + k) :: u32) = of_nat (i + k - ?n) + of_nat ?n"
      using False by (simp flip: of_nat_add)
    then have "Addr - Length R = slot R (i + k - ?n)"
      by (simp add: Addr_eq slot_def geomD(6) [OF g] algebra_simps del: of_nat_add)
    moreover have "(i + k) mod ?n = i + k - ?n"
      using False jn by (simp add: mod_if)
    ultimately show ?thesis
      using wrap by (simp add: XAXIDMA_RING_SEEKAHEAD_def Let_def flip: Addr_def)
  qed
qed

lemma SEEKBACK_slot:
  assumes g: "geom R" and i: "i < bd_count R" and k: "k \<le> bd_count R"
  shows "XAXIDMA_RING_SEEKBACK R (slot R i) (int k) = slot R ((i + bd_count R - k) mod bd_count R)"
proof -
  let ?n = "bd_count R" and ?S = "unat (Separation R)" and ?F = "unat (FirstBdAddr R)"
  define Addr where "Addr = slot R i - Separation R * of_nat k"
  have kS: "unat (Separation R * of_nat k) = k * ?S"
    using unat_times_sep [OF g k] by (simp add: mult.commute)
  have lt: "k * ?S < 2 ^ 32"
    using mult_mono_sep [OF k geomD(3) [OF g]] .
  show ?thesis
  proof (cases "k \<le> i")
    case True
    have Addr_eq: "Addr = slot R (i - k)"
      using True by (simp add: Addr_def slot_def of_nat_diff algebra_simps)
    have "i - k < ?n"
      using i by simp
    then have "FirstBdAddr R \<le> Addr" "Addr \<le> slot R i"
      using slot_le_Last(2) [OF g] unat_slot [OF g] i
      by (simp_all add: Addr_eq word_le_nat_alt algebra_simps)
    moreover have "(i + ?n - k) mod ?n = i - k"
      using True \<open>i - k < ?n\<close> by (metis Nat.add_diff_assoc2 mod_add_self2 mod_less)
    ultimately show ?thesis
      by (simp add: XAXIDMA_RING_SEEKBACK_def Let_def flip: Addr_def)
         (simp add: Addr_eq leD)
  next
    case False
    have wrap: "Addr < FirstBdAddr R \<or> slot R i < Addr"
    proof (cases "k * ?S \<le> unat (slot R i)")
      case True
      then have "unat Addr = unat (slot R i) - k * ?S"
        unfolding Addr_def using kS by (simp add: unat_sub word_le_nat_alt)
      moreover have "i * ?S < k * ?S"
        using False geomD(2) [OF g] by (intro mult_less_mono1) auto
      ultimately have "Addr < FirstBdAddr R"
        using unat_slot [OF g i] True unfolding word_less_nat_alt by linarith
      then show ?thesis by simp
    next
      case False
      then have "unat (slot R i) < unat Addr"
        unfolding Addr_def by (intro unat_sub_wraps [OF lt _ kS]) simp
      then show ?thesis
        by (simp add: word_less_nat_alt)
    qed
    have "(of_nat (i + ?n - k) :: u32) = of_nat i + of_nat ?n - of_nat k"
      using k by (simp add: of_nat_diff)
    then have "Addr + Length R = slot R (i + ?n - k)"
      by (simp only: Addr_def slot_def geomD(6) [OF g]) (simp add: algebra_simps)
    moreover have "(i + ?n - k) mod ?n = i + ?n - k"
      using False k by simp
    ultimately show ?thesis
      using wrap by (simp add: XAXIDMA_RING_SEEKBACK_def Let_def flip: Addr_def)
  qed
qed

lemma Next_slot:
  assumes g: "geom R" and i: "i < bd_count R"
  shows "XAxiDma_BdRingNext R (slot R i) = slot R ((i + 1) mod bd_count R)"
proof (cases "i = bd_count R - 1")
  case True
  then show ?thesis
    using geomD(1,5) [OF g] by (simp add: XAxiDma_BdRingNext_def slot_def)
next
  case False
  then have lt: "i + 1 < bd_count R"
    using i by simp
  then have "i * unat (Separation R) < (bd_count R - 1) * unat (Separation R)"
    using geomD(2) [OF g] by (intro mult_less_mono1) simp_all
  then have "slot R i < LastBdAddr R"
    using unat_slot [OF g i] unat_slot [OF g, of "bd_count R - 1"] geomD(1,5) [OF g]
    unfolding word_less_nat_alt by simp
  then have "XAxiDma_BdRingNext R (slot R i) = slot R i + Separation R"
    by (auto simp: XAxiDma_BdRingNext_def)
  then show ?thesis
    using lt by (simp add: slot_def algebra_simps)
qed

subsection \<open>The abstract specification: four queues of slots\<close>

record bd_groups =
  post :: "nat list"
  hw :: "nat list"
  pre :: "nat list"
  free :: "nat list"

definition all_slots :: "bd_groups \<Rightarrow> nat list" where
  "all_slots G = post G @ hw G @ pre G @ free G"

text \<open>
  The moves between the queues.  Descriptors enter the preprocessing queue from the front of the
  free queue, go on to the hardware and to the postprocessing queue in order and come back to the
  end of the free queue; the end of the preprocessing queue can be given back to the front of the
  free queue.
\<close>

definition move_alloc :: "nat \<Rightarrow> bd_groups \<Rightarrow> bd_groups" where
  "move_alloc k G = G\<lparr>pre := pre G @ take k (free G), free := drop k (free G)\<rparr>"

definition move_unalloc :: "nat \<Rightarrow> bd_groups \<Rightarrow> bd_groups" where
  "move_unalloc k G = (let j = length (pre G) - k
     in G\<lparr>pre := take j (pre G), free := drop j (pre G) @ free G\<rparr>)"

definition move_to_hw :: "nat \<Rightarrow> bd_groups \<Rightarrow> bd_groups" where
  "move_to_hw k G = G\<lparr>hw := hw G @ take k (pre G), pre := drop k (pre G)\<rparr>"

definition move_from_hw :: "nat \<Rightarrow> bd_groups \<Rightarrow> bd_groups" where
  "move_from_hw k G = G\<lparr>post := post G @ take k (hw G), hw := drop k (hw G)\<rparr>"

definition move_free :: "nat \<Rightarrow> bd_groups \<Rightarrow> bd_groups" where
  "move_free k G = G\<lparr>post := drop k (post G), free := free G @ take k (post G)\<rparr>"

lemmas move_defs = move_alloc_def move_unalloc_def move_to_hw_def move_from_hw_def move_free_def

text \<open>
  What a client sees of a pool: each call with its arguments, its status and the pointer it hands
  out.  \<open>Ev_Memory\<close> is any change of the descriptors in memory, by the client or the hardware.
\<close>

datatype ring_event =
    Ev_Alloc int int "addr option"
  | Ev_UnAlloc int addr int
  | Ev_ToHw int addr int
  | Ev_FromHw int int addr
  | Ev_Free int addr int
  | Ev_Start int
  | Ev_Memory

text \<open>
  The specification: four queues of slots, where slot \<open>i\<close> is the descriptor at address \<open>A i\<close>.
  Each event fixes the arguments for which the call succeeds, the pointer it returns and the
  queues after it; a refused call leaves them alone.  \<^verbatim>\<open>ToHw\<close> may also be refused because of the
  contents of the descriptors (status 1), and \<^verbatim>\<open>FromHw\<close> returns as many descriptors as the
  hardware has finished.
\<close>

inductive queue_step :: "(nat \<Rightarrow> addr) \<Rightarrow> bd_groups \<Rightarrow> ring_event \<Rightarrow> bd_groups \<Rightarrow> bool" for A where
  q_alloc: "0 < n \<Longrightarrow> nat n \<le> length (free G) \<Longrightarrow>
     queue_step A G (Ev_Alloc n XST_SUCCESS (Some (A (hd (free G))))) (move_alloc (nat n) G)"
| q_alloc_refused: "\<not> (0 < n \<and> nat n \<le> length (free G)) \<Longrightarrow>
     st = (if n \<le> 0 then XST_INVALID_PARAM else XST_FAILURE) \<Longrightarrow> queue_step A G (Ev_Alloc n st None) G"
| q_unalloc: "0 < n \<Longrightarrow> nat n \<le> length (pre G) \<Longrightarrow>
     (bd \<in> A ` set (all_slots G) \<Longrightarrow> bd = A (pre G ! (length (pre G) - nat n))) \<Longrightarrow>
     queue_step A G (Ev_UnAlloc n bd XST_SUCCESS) (move_unalloc (nat n) G)"
| q_unalloc_refused: "\<not> (0 < n \<and> nat n \<le> length (pre G) \<and> bd = A (pre G ! (length (pre G) - nat n))) \<Longrightarrow>
     st = (if n \<le> 0 then XST_INVALID_PARAM else XST_FAILURE) \<Longrightarrow> queue_step A G (Ev_UnAlloc n bd st) G"
| q_to_hw: "0 < n \<Longrightarrow> nat n \<le> length (pre G) \<Longrightarrow> bd = A (hd (pre G)) \<Longrightarrow>
     queue_step A G (Ev_ToHw n bd XST_SUCCESS) (move_to_hw (nat n) G)"
| q_to_hw_refused: "st = (if n < 0 then XST_INVALID_PARAM else if n = 0 then XST_SUCCESS
       else if nat n \<le> length (pre G) \<and> bd = A (hd (pre G)) then XST_FAILURE else XST_DMA_SG_LIST_ERROR) \<Longrightarrow>
     queue_step A G (Ev_ToHw n bd st) G"
| q_from_hw: "0 < c \<Longrightarrow> c \<le> lim \<Longrightarrow> nat c \<le> length (hw G) \<Longrightarrow>
     queue_step A G (Ev_FromHw lim c (A (hd (hw G)))) (move_from_hw (nat c) G)"
| q_from_hw_none: "queue_step A G (Ev_FromHw lim 0 0) G"
| q_free: "0 < n \<Longrightarrow> nat n \<le> length (post G) \<Longrightarrow> bd = A (hd (post G)) \<Longrightarrow>
     queue_step A G (Ev_Free n bd XST_SUCCESS) (move_free (nat n) G)"
| q_free_refused: "\<not> (0 < n \<and> nat n \<le> length (post G) \<and> bd = A (hd (post G))) \<Longrightarrow>
     st = (if n < 0 then XST_INVALID_PARAM else if n = 0 then XST_SUCCESS else XST_DMA_SG_LIST_ERROR) \<Longrightarrow>
     queue_step A G (Ev_Free n bd st) G"
| q_start: "queue_step A G (Ev_Start st) G"
| q_memory: "queue_step A G Ev_Memory G"

inductive_cases queue_stepE: "queue_step A G e G'"

text \<open>Sequences of labelled steps.\<close>

inductive trace :: "('s \<Rightarrow> 'e \<Rightarrow> 's \<Rightarrow> bool) \<Rightarrow> 's \<Rightarrow> 'e list \<Rightarrow> 's \<Rightarrow> bool" for step where
  trace_nil: "trace step s [] s"
| trace_cons: "step s e t \<Longrightarrow> trace step t es u \<Longrightarrow> trace step s (e # es) u"

inductive_simps trace_simps [simp]: "trace step s [] t" "trace step s (e # es) t"

subsection \<open>Who owns a descriptor\<close>

text \<open>
  The owners of the descriptors, computed from the calls and their results alone.  A successful
  call moves the set of \<open>k\<close> descriptors that starts at its pointer from one owner to the next;
  the set is what a client gets by walking the ring, \<open>walk k bd\<close>.
\<close>

datatype bd_owner = In_Free | In_Pre | In_Hw | In_Post

fun ev_moves :: "ring_event \<Rightarrow> (nat \<times> addr \<times> bd_owner \<times> bd_owner) option" where
  "ev_moves (Ev_Alloc n st (Some bd)) = (if st = XST_SUCCESS then Some (nat n, bd, In_Free, In_Pre) else None)"
| "ev_moves (Ev_UnAlloc n bd st) = (if st = XST_SUCCESS then Some (nat n, bd, In_Pre, In_Free) else None)"
| "ev_moves (Ev_ToHw n bd st) = (if st = XST_SUCCESS then Some (nat n, bd, In_Pre, In_Hw) else None)"
| "ev_moves (Ev_FromHw lim c bd) = (if c \<noteq> 0 then Some (nat c, bd, In_Hw, In_Post) else None)"
| "ev_moves (Ev_Free n bd st) = (if st = XST_SUCCESS then Some (nat n, bd, In_Post, In_Free) else None)"
| "ev_moves _ = None"

definition owner_after :: "(nat \<Rightarrow> addr \<Rightarrow> addr list) \<Rightarrow> ring_event \<Rightarrow> (addr \<Rightarrow> bd_owner) \<Rightarrow> addr \<Rightarrow> bd_owner" where
  "owner_after walk e own a =
     (case ev_moves e of None \<Rightarrow> own a
      | Some (k, bd, old, new) \<Rightarrow> if a \<in> set (walk k bd) then new else own a)"

text \<open>
  A call respects the owners, among the descriptors \<open>D\<close> of the pool: the set it moves consists of
  as many different descriptors as the call says, all of the pool and all with the owner the call
  takes them from; and an allocation of a positive number is refused only when fewer are free.
\<close>

definition owner_respected :: "(nat \<Rightarrow> addr \<Rightarrow> addr list) \<Rightarrow> addr set \<Rightarrow> (addr \<Rightarrow> bd_owner) \<Rightarrow> ring_event \<Rightarrow> bool" where
  "owner_respected walk D own e \<longleftrightarrow>
     (case ev_moves e of None \<Rightarrow> True
      | Some (k, bd, old, new) \<Rightarrow> length (walk k bd) = k \<and> distinct (walk k bd) \<and> set (walk k bd) \<subseteq> D \<and>
          (\<forall>a \<in> set (walk k bd). own a = old)) \<and>
     (\<forall>n st. e = Ev_Alloc n st None \<longrightarrow> 0 < n \<longrightarrow> card {a \<in> D. own a = In_Free} < nat n)"

fun all_respect :: "(nat \<Rightarrow> addr \<Rightarrow> addr list) \<Rightarrow> addr set \<Rightarrow> (addr \<Rightarrow> bd_owner) \<Rightarrow> ring_event list \<Rightarrow> bool" where
  "all_respect walk D own [] \<longleftrightarrow> True"
| "all_respect walk D own (e # es) \<longleftrightarrow>
     owner_respected walk D own e \<and> all_respect walk D (owner_after walk e own) es"

text \<open>The owner of a slot in the four queues, and how a step of the specification changes it.\<close>

definition owner_in :: "bd_groups \<Rightarrow> nat \<Rightarrow> bd_owner" where
  "owner_in G i = (if i \<in> set (free G) then In_Free else if i \<in> set (pre G) then In_Pre
     else if i \<in> set (hw G) then In_Hw else In_Post)"

definition ring_pointers :: "addr set \<Rightarrow> ring_event \<Rightarrow> bool" where
  "ring_pointers D e \<longleftrightarrow> (\<forall>n bd st. e = Ev_UnAlloc n bd st \<longrightarrow> bd \<in> D)"

lemma queue_step_kept: "queue_step A G e G' \<Longrightarrow> ev_moves e = None \<or> ev_moves e = Some (0, bd, old, new) \<Longrightarrow> G' = G"
  by (erule queue_stepE) (auto split: if_splits)

lemma split_at: "k \<le> length q \<Longrightarrow> \<exists>xs ys. q = xs @ ys \<and> length xs = k"
  by (metis append_take_drop_id length_take min_absorb2)

lemma owner_in_moved:
  assumes "distinct (all_slots G)"
  shows "free G = M @ ys \<Longrightarrow> (\<forall>i \<in> set M. owner_in G i = In_Free) \<and>
      (\<forall>i \<in> set (all_slots G). owner_in (G\<lparr>pre := pre G @ M, free := ys\<rparr>) i = (if i \<in> set M then In_Pre else owner_in G i))"
    and "pre G = xs @ M \<Longrightarrow> (\<forall>i \<in> set M. owner_in G i = In_Pre) \<and>
      (\<forall>i \<in> set (all_slots G). owner_in (G\<lparr>pre := xs, free := M @ free G\<rparr>) i = (if i \<in> set M then In_Free else owner_in G i))"
    and "pre G = M @ ys \<Longrightarrow> (\<forall>i \<in> set M. owner_in G i = In_Pre) \<and>
      (\<forall>i \<in> set (all_slots G). owner_in (G\<lparr>hw := hw G @ M, pre := ys\<rparr>) i = (if i \<in> set M then In_Hw else owner_in G i))"
    and "hw G = M @ ys \<Longrightarrow> (\<forall>i \<in> set M. owner_in G i = In_Hw) \<and>
      (\<forall>i \<in> set (all_slots G). owner_in (G\<lparr>post := post G @ M, hw := ys\<rparr>) i = (if i \<in> set M then In_Post else owner_in G i))"
    and "post G = M @ ys \<Longrightarrow> (\<forall>i \<in> set M. owner_in G i = In_Post) \<and>
      (\<forall>i \<in> set (all_slots G). owner_in (G\<lparr>post := ys, free := free G @ M\<rparr>) i = (if i \<in> set M then In_Free else owner_in G i))"
  using assms by (auto simp: owner_in_def all_slots_def)

text \<open>The part \<open>M\<close> of a queue that a successful call moves.\<close>

definition moved_part :: "(nat \<Rightarrow> addr) \<Rightarrow> bd_groups \<Rightarrow> bd_groups \<Rightarrow> nat \<Rightarrow> addr \<Rightarrow> bd_owner \<Rightarrow> bd_owner \<Rightarrow>
  nat list \<Rightarrow> nat list \<Rightarrow> nat list \<Rightarrow> bool" where
  "moved_part A G G' k bd old new xs M ys \<longleftrightarrow>
     xs @ M @ ys \<in> {post G, hw G, pre G, free G} \<and> length M = k \<and> bd = A (hd M) \<and>
     (\<forall>i \<in> set M. owner_in G i = old) \<and>
     (\<forall>i \<in> set (all_slots G). owner_in G' i = (if i \<in> set M then new else owner_in G i))"

lemma queue_step_moved:
  assumes "queue_step A G e G'" "distinct (all_slots G)" "ring_pointers (A ` set (all_slots G)) e"
    and "ev_moves e = Some (k, bd, old, new)" "0 < k"
  shows "\<exists>xs M ys. moved_part A G G' k bd old new xs M ys"
  using assms(1)
proof (cases rule: queue_step.cases)
  case (q_alloc n)
  then have n: "k = nat n" "bd = A (hd (free G))" "old = In_Free" "new = In_Pre"
    using assms(4) by auto
  then obtain M ys where M: "free G = M @ ys" "length M = k" "M \<noteq> []"
    using split_at [of k "free G"] q_alloc(4) assms(5) by fastforce
  then have "moved_part A G G' k bd old new [] M ys"
    using owner_in_moved(1) [OF assms(2) M(1)] q_alloc(2) by (simp add: moved_part_def n move_alloc_def)
  then show ?thesis
    by blast
next
  case (q_unalloc n bd')
  then have n: "k = nat n" "bd = bd'" "old = In_Pre" "new = In_Free"
    using assms(4) by auto
  obtain xs M where M: "pre G = xs @ M" "length xs = length (pre G) - k"
    using split_at [of "length (pre G) - k" "pre G"] diff_le_self by blast
  have "length (pre G) = length xs + length M" "k \<le> length (pre G)"
    using M(1) q_unalloc(4) n(1) by simp_all
  then have lM: "length M = k" "length (pre G) - k = length xs"
    using M(2) by linarith+
  then have "M \<noteq> []"
    using assms(5) by auto
  have "bd = A (pre G ! length xs)"
    using q_unalloc(1,5) assms(3) lM(2) by (simp add: ring_pointers_def n)
  then have "bd = A (hd M)"
    using \<open>M \<noteq> []\<close> by (simp add: M(1) hd_conv_nth nth_append)
  moreover have "G' = G\<lparr>pre := xs, free := M @ free G\<rparr>"
    using q_unalloc(2) lM(2) by (simp add: move_unalloc_def M(1) flip: n(1))
  ultimately have "moved_part A G G' k bd old new xs M []"
    using owner_in_moved(2) [OF assms(2) M(1)] lM(1) M(1) by (simp add: moved_part_def n)
  then show ?thesis
    by blast
next
  case (q_to_hw n bd')
  then have n: "k = nat n" "bd = A (hd (pre G))" "old = In_Pre" "new = In_Hw"
    using assms(4) by auto
  then obtain M ys where M: "pre G = M @ ys" "length M = k" "M \<noteq> []"
    using split_at [of k "pre G"] q_to_hw(4) assms(5) by fastforce
  then have "moved_part A G G' k bd old new [] M ys"
    using owner_in_moved(3) [OF assms(2) M(1)] q_to_hw(2) by (simp add: moved_part_def n move_to_hw_def)
  then show ?thesis
    by blast
next
  case (q_from_hw c lim)
  then have n: "k = nat c" "bd = A (hd (hw G))" "old = In_Hw" "new = In_Post"
    using assms(4) by auto
  then obtain M ys where M: "hw G = M @ ys" "length M = k" "M \<noteq> []"
    using split_at [of k "hw G"] q_from_hw(5) assms(5) by fastforce
  then have "moved_part A G G' k bd old new [] M ys"
    using owner_in_moved(4) [OF assms(2) M(1)] q_from_hw(2) by (simp add: moved_part_def n move_from_hw_def)
  then show ?thesis
    by blast
next
  case (q_free n bd')
  then have n: "k = nat n" "bd = A (hd (post G))" "old = In_Post" "new = In_Free"
    using assms(4) by auto
  then obtain M ys where M: "post G = M @ ys" "length M = k" "M \<noteq> []"
    using split_at [of k "post G"] q_free(4) assms(5) by fastforce
  then have "moved_part A G G' k bd old new [] M ys"
    using owner_in_moved(5) [OF assms(2) M(1)] q_free(2) by (simp add: moved_part_def n move_free_def)
  then show ?thesis
    by blast
qed (use assms(4,5) in \<open>auto split: if_splits\<close>)

text \<open>
  What a client of a descriptor pool relies on: an invariant, the queues a pool represents, and
  labelled steps each of which is a step of the specification.
\<close>

locale bd_pool =
  fixes inv :: "'r \<Rightarrow> bool"
    and groups :: "'r \<Rightarrow> bd_groups"
    and step :: "'r \<Rightarrow> ring_event \<Rightarrow> 'r \<Rightarrow> bool"
    and addr_of :: "'r \<Rightarrow> nat \<Rightarrow> addr"
    and total :: "'r \<Rightarrow> nat"
    and walk :: "'r \<Rightarrow> nat \<Rightarrow> addr \<Rightarrow> addr list"
  assumes step_inv: "inv r \<Longrightarrow> step r e r' \<Longrightarrow> inv r'"
    and step_queue: "inv r \<Longrightarrow> step r e r' \<Longrightarrow> queue_step (addr_of r) (groups r) e (groups r')"
    and step_frame: "inv r \<Longrightarrow> step r e r' \<Longrightarrow>
      addr_of r' = addr_of r \<and> total r' = total r \<and> walk r' = walk r"
    and partition: "inv r \<Longrightarrow> distinct (all_slots (groups r)) \<and> set (all_slots (groups r)) = {..<total r}"
    and addr_inj: "inv r \<Longrightarrow> inj_on (addr_of r) {..<total r}"
    and walk_queue: "inv r \<Longrightarrow> q \<in> {post (groups r), hw (groups r), pre (groups r), free (groups r)} \<Longrightarrow>
      j + k \<le> length q \<Longrightarrow> 0 < k \<Longrightarrow> walk r k (addr_of r (q ! j)) = map (addr_of r) (take k (drop j q))"
    and walk_0: "walk r 0 bd = []"
begin

lemma trace_queue:
  "trace step r es r' \<Longrightarrow> inv r \<Longrightarrow>
     inv r' \<and> addr_of r' = addr_of r \<and> trace (queue_step (addr_of r)) (groups r) es (groups r')"
proof (induction rule: trace.induct)
  case (trace_cons s e t es u)
  then show ?case
    using step_inv [OF trace_cons.prems trace_cons.hyps(1)] step_queue [OF trace_cons.prems trace_cons.hyps(1)]
      step_frame [OF trace_cons.prems trace_cons.hyps(1)] by auto
qed simp

definition owners :: "'r \<Rightarrow> (addr \<Rightarrow> bd_owner) \<Rightarrow> bool" where
  "owners r own \<longleftrightarrow> (\<forall>i < total r. own (addr_of r i) = owner_in (groups r) i)"

lemma free_count:
  assumes "inv r" "owners r own"
  shows "card {a \<in> addr_of r ` {..<total r}. own a = In_Free} = length (free (groups r))"
proof -
  have d: "distinct (free (groups r))" and s: "set (free (groups r)) \<subseteq> {..<total r}"
    using partition [OF assms(1)] by (auto simp: all_slots_def)
  have "{a \<in> addr_of r ` {..<total r}. own a = In_Free} = addr_of r ` set (free (groups r))"
  proof -
    have "own (addr_of r i) = In_Free \<longleftrightarrow> i \<in> set (free (groups r))" if "i < total r" for i
      using assms(2) that by (simp add: owners_def owner_in_def)
    then show ?thesis
      using s by blast
  qed
  then show ?thesis
    using card_image [OF inj_on_subset [OF addr_inj [OF assms(1)] s]] distinct_card [OF d] by simp
qed

lemma step_owners:
  assumes "inv r" "step r e r'" "owners r own" "ring_pointers (addr_of r ` {..<total r}) e"
  shows "owner_respected (walk r) (addr_of r ` {..<total r}) own e"
    and "owners r' (owner_after (walk r) e own)"
proof -
  note q = step_queue [OF assms(1,2)] and p = partition [OF assms(1)] and f = step_frame [OF assms(1,2)]
  have short: "card {a \<in> addr_of r ` {..<total r}. own a = In_Free} < nat n"
    if "e = Ev_Alloc n st None" "0 < n" for n st
    using q that free_count [OF assms(1,3)] by (auto elim!: queue_stepE)
  consider "ev_moves e = None" | bd old new where "ev_moves e = Some (0, bd, old, new)"
    | k bd old new where "ev_moves e = Some (k, bd, old, new)" "0 < k"
    by (metis gr0I not_None_eq prod_cases4)
  then have "owner_respected (walk r) (addr_of r ` {..<total r}) own e \<and> owners r' (owner_after (walk r) e own)"
  proof cases
    case 1
    then show ?thesis
      using short queue_step_kept [OF q] assms(3) f by (auto simp: owner_respected_def owner_after_def owners_def)
  next
    case 2
    then show ?thesis
      using short queue_step_kept [OF q] assms(3) f
      by (auto simp: owner_respected_def owner_after_def owners_def walk_0)
  next
    case 3
    obtain xs M ys where "moved_part (addr_of r) (groups r) (groups r') k bd old new xs M ys"
      using queue_step_moved [OF q _ _ 3] p assms(4) by metis
    then have qu: "xs @ M @ ys \<in> {post (groups r), hw (groups r), pre (groups r), free (groups r)}" "length M = k"
      "bd = addr_of r (hd M)" and old: "\<forall>i \<in> set M. owner_in (groups r) i = old"
      and new: "\<forall>i \<in> set (all_slots (groups r)). owner_in (groups r') i = (if i \<in> set M then new else owner_in (groups r) i)"
      unfolding moved_part_def by blast+
    have w: "walk r k bd = map (addr_of r) M"
      using walk_queue [OF assms(1) qu(1), of "length xs" k] qu(2,3) 3(2)
      by (cases M) (auto simp: nth_append)
    have "distinct (xs @ M @ ys) \<and> set (xs @ M @ ys) \<subseteq> {..<total r}"
      using qu(1) p unfolding all_slots_def by (elim insertE) (auto simp del: append_assoc)
    then have M: "distinct M" "set M \<subseteq> {..<total r}"
      by auto
    have i: "inj_on (addr_of r) (set M)" "addr_of r i \<in> addr_of r ` set M \<longleftrightarrow> i \<in> set M" if "i < total r" for i
      using addr_inj [OF assms(1)] M that by (auto simp: inj_on_def)
    have "owner_respected (walk r) (addr_of r ` {..<total r}) own e"
      using 3 w qu(2) M old short assms(3) inj_on_subset [OF addr_inj [OF assms(1)] M(2)]
      by (auto simp: owner_respected_def owners_def distinct_map)
    moreover have "owners r' (owner_after (walk r) e own)"
      using 3 w new p assms(3) f i(2) by (auto simp: owners_def owner_after_def)
    ultimately show ?thesis ..
  qed
  then show "owner_respected (walk r) (addr_of r ` {..<total r}) own e"
    and "owners r' (owner_after (walk r) e own)" by auto
qed

lemma trace_owners:
  "trace step r es r' \<Longrightarrow> inv r \<Longrightarrow> owners r own \<Longrightarrow>
     \<forall>e \<in> set es. ring_pointers (addr_of r ` {..<total r}) e \<Longrightarrow>
     all_respect (walk r) (addr_of r ` {..<total r}) own es"
proof (induction arbitrary: own rule: trace.induct)
  case (trace_cons s e t es u)
  have "ring_pointers (addr_of s ` {..<total s}) e"
    using trace_cons.prems(3) by simp
  note so = step_owners [OF trace_cons.prems(1) trace_cons.hyps(1) trace_cons.prems(2) this]
  show ?case
    using so(1) trace_cons.IH [OF step_inv [OF trace_cons.prems(1) trace_cons.hyps(1)] so(2)]
      step_frame [OF trace_cons.prems(1) trace_cons.hyps(1)] trace_cons.prems(3)
    by simp
qed simp

end

subsection \<open>The invariant of a ring and its abstraction\<close>

definition slot_of :: "bdring \<Rightarrow> addr \<Rightarrow> nat" where
  "slot_of R a = unat (a - FirstBdAddr R) div unat (Separation R)"

definition grp :: "nat \<Rightarrow> nat \<Rightarrow> nat \<Rightarrow> nat list" where
  "grp n s c = map (\<lambda>j. (s + j) mod n) [0..<c]"

text \<open>
  Four groups of given sizes that follow each other around a ring of \<open>n\<close> slots from slot \<open>p\<close>.
  The groups of a ring start each at its own head pointer and have the length of its counter.
\<close>

definition ringG :: "nat \<Rightarrow> nat \<Rightarrow> nat \<Rightarrow> nat \<Rightarrow> nat \<Rightarrow> nat \<Rightarrow> bd_groups" where
  "ringG n p po h pr f = \<lparr>post = grp n p po, hw = grp n (p + po) h,
     pre = grp n (p + po + h) pr, free = grp n (p + po + h + pr) f\<rparr>"

definition groups :: "bdring \<Rightarrow> bd_groups" where
  "groups R = (let n = bd_count R in
     \<lparr>post = grp n (slot_of R (PostHead R)) (nat (PostCnt R)),
      hw = grp n (slot_of R (HwHead R)) (nat (HwCnt R)),
      pre = grp n (slot_of R (PreHead R)) (nat (PreCnt R)),
      free = grp n (slot_of R (FreeHead R)) (nat (FreeCnt R))\<rparr>)"

definition ring_inv :: "bdring \<Rightarrow> bool" where
  "ring_inv R \<longleftrightarrow>
     (let n = bd_count R; p = slot_of R (PostHead R);
          po = nat (PostCnt R); h = nat (HwCnt R); pr = nat (PreCnt R) in
      geom R \<and> Cyclic R = 0 \<and>
      0 \<le> PostCnt R \<and> 0 \<le> HwCnt R \<and> 0 \<le> PreCnt R \<and> 0 \<le> FreeCnt R \<and>
      PostCnt R + HwCnt R + PreCnt R + FreeCnt R = AllCnt R \<and>
      p < n \<and> slot R p = PostHead R \<and>
      HwHead R = slot R ((p + po) mod n) \<and>
      PreHead R = slot R ((p + po + h) mod n) \<and>
      FreeHead R = slot R ((p + po + h + pr) mod n) \<and>
      slot R (slot_of R (HwTail R)) = HwTail R \<and> slot_of R (HwTail R) < n \<and>
      (0 < h \<longrightarrow> HwTail R = slot R ((p + po + h - 1) mod n)))"

lemma slot_of_slot [simp]: "geom R \<Longrightarrow> i < bd_count R \<Longrightarrow> slot_of R (slot R i) = i"
  using unat_times_sep [of R i] geomD(2) [of R] by (simp add: slot_of_def slot_def)

lemma grp_add: "grp n s (a + b) = grp n s a @ grp n (s + a) b"
  by (rule nth_equalityI) (auto simp: grp_def nth_append add.assoc)

lemma grp_mod [simp]: "grp n (s mod n) c = grp n s c"
  by (simp add: grp_def mod_add_left_eq)

lemma grp_wrap: "grp n (s + n) c = grp n s c"
  by (subst grp_mod [symmetric], subst (2) grp_mod [symmetric]) simp

lemma grp_full: "0 < n \<Longrightarrow> grp n s n = rotate s [0..<n]"
  by (rule nth_equalityI) (auto simp: grp_def nth_rotate)

lemma grp_split: "k \<le> c \<Longrightarrow> grp n s c = grp n s k @ grp n (s + k) (c - k)"
  using grp_add [of n s k "c - k"] by simp

lemma ringG_all:
  assumes "po + h + pr + f = n" "0 < n"
  shows "all_slots (ringG n p po h pr f) = rotate p [0..<n]"
proof -
  have "all_slots (ringG n p po h pr f) = grp n p (po + (h + (pr + f)))"
    unfolding all_slots_def ringG_def grp_add by (simp add: add.assoc)
  then show ?thesis
    using assms by (simp add: grp_full add.assoc)
qed

lemma grp_Cons: "grp n s (Suc k) = (s mod n) # grp n (Suc s) k"
  using grp_add [of n s 1 k] by (simp add: grp_def)

lemma length_grp [simp]: "length (grp n s c) = c"
  by (simp add: grp_def)

lemma take_grp: "take k (grp n s c) = grp n s (min k c)"
  by (rule nth_equalityI) (auto simp: grp_def)

lemma drop_grp: "k \<le> c \<Longrightarrow> drop k (grp n s c) = grp n (s + k) (c - k)"
  using grp_split [of k c n s] by (simp add: grp_def)

lemma hd_grp: "0 < c \<Longrightarrow> hd (grp n s c) = s mod n"
  by (cases c) (simp_all add: grp_Cons)

lemma nth_grp: "j < c \<Longrightarrow> grp n s c ! j = (s + j) mod n"
  by (simp add: grp_def)

lemmas grp_simps = take_grp drop_grp hd_grp nth_grp min_absorb1

lemma ringG_alloc: "k \<le> f \<Longrightarrow> move_alloc k (ringG n p po h pr f) = ringG n p po h (pr + k) (f - k)"
  by (simp add: ringG_def move_alloc_def grp_simps grp_add add.assoc)

lemma ringG_unalloc: "k \<le> pr \<Longrightarrow> move_unalloc k (ringG n p po h pr f) = ringG n p po h (pr - k) (f + k)"
  by (simp add: ringG_def move_unalloc_def Let_def grp_simps)
    (simp add: grp_add [of _ _ k] add.commute [of f k])

lemma ringG_to_hw: "k \<le> pr \<Longrightarrow> move_to_hw k (ringG n p po h pr f) = ringG n p po (h + k) (pr - k) f"
  by (simp add: ringG_def move_to_hw_def grp_simps grp_add add.assoc)

lemma ringG_from_hw: "k \<le> h \<Longrightarrow> move_from_hw k (ringG n p po h pr f) = ringG n p (po + k) (h - k) pr f"
  by (simp add: ringG_def move_from_hw_def grp_simps grp_add add.assoc)

lemma ringG_free:
  assumes "k \<le> po" "po + h + pr + f = n"
  shows "move_free k (ringG n p po h pr f) = ringG n ((p + k) mod n) (po - k) h pr (f + k)"
proof -
  have m: "grp n ((p + k) mod n + (po - k) + a) c = grp n (p + po + a) c" for a c
    using assms(1) by (subst grp_mod [symmetric], subst (2) grp_mod [symmetric])
      (metis (no_types) add.assoc le_add_diff_inverse mod_add_left_eq)
  have w: "grp n (p + po + h + pr + f) k = grp n p k"
    using grp_wrap [of n p k] assms(2) by (simp add: add.assoc)
  show ?thesis
    using assms(1) m [of 0] m [of h] m [of "h + pr"] m [of "h + pr + f"]
    by (simp add: ringG_def move_free_def grp_simps grp_add [of _ _ f k] w flip: add.assoc)
qed

text \<open>Updates of heads, counters and run state do not move the slots.\<close>

lemma slot_upd [simp]:
  "slot (R\<lparr>FreeHead := x\<rparr>) = slot R"
  "slot (R\<lparr>PreHead := x\<rparr>) = slot R"
  "slot (R\<lparr>HwHead := x\<rparr>) = slot R"
  "slot (R\<lparr>HwTail := x\<rparr>) = slot R"
  "slot (R\<lparr>PostHead := x\<rparr>) = slot R"
  "slot (R\<lparr>FreeCnt := c\<rparr>) = slot R"
  "slot (R\<lparr>PreCnt := c\<rparr>) = slot R"
  "slot (R\<lparr>HwCnt := c\<rparr>) = slot R"
  "slot (R\<lparr>PostCnt := c\<rparr>) = slot R"
  "slot (R\<lparr>RunState := c\<rparr>) = slot R"
  "slot (R\<lparr>BdaRestart := x\<rparr>) = slot R"
  by (simp_all add: slot_def fun_eq_iff)

lemma bd_count_upd [simp]:
  "bd_count (R\<lparr>FreeHead := x\<rparr>) = bd_count R"
  "bd_count (R\<lparr>PreHead := x\<rparr>) = bd_count R"
  "bd_count (R\<lparr>HwHead := x\<rparr>) = bd_count R"
  "bd_count (R\<lparr>HwTail := x\<rparr>) = bd_count R"
  "bd_count (R\<lparr>PostHead := x\<rparr>) = bd_count R"
  "bd_count (R\<lparr>FreeCnt := c\<rparr>) = bd_count R"
  "bd_count (R\<lparr>PreCnt := c\<rparr>) = bd_count R"
  "bd_count (R\<lparr>HwCnt := c\<rparr>) = bd_count R"
  "bd_count (R\<lparr>PostCnt := c\<rparr>) = bd_count R"
  "bd_count (R\<lparr>RunState := c\<rparr>) = bd_count R"
  "bd_count (R\<lparr>BdaRestart := x\<rparr>) = bd_count R"
  by (simp_all add: bd_count_def)

lemma geom_upd [simp]:
  "geom (R\<lparr>FreeHead := x\<rparr>) = geom R"
  "geom (R\<lparr>PreHead := x\<rparr>) = geom R"
  "geom (R\<lparr>HwHead := x\<rparr>) = geom R"
  "geom (R\<lparr>HwTail := x\<rparr>) = geom R"
  "geom (R\<lparr>PostHead := x\<rparr>) = geom R"
  "geom (R\<lparr>FreeCnt := c\<rparr>) = geom R"
  "geom (R\<lparr>PreCnt := c\<rparr>) = geom R"
  "geom (R\<lparr>HwCnt := c\<rparr>) = geom R"
  "geom (R\<lparr>PostCnt := c\<rparr>) = geom R"
  "geom (R\<lparr>RunState := c\<rparr>) = geom R"
  "geom (R\<lparr>BdaRestart := x\<rparr>) = geom R"
  by (simp_all add: geom_def)

lemma SEEKAHEAD_upd:
  "XAXIDMA_RING_SEEKAHEAD (R\<lparr>HwCnt := c, PostCnt := d\<rparr>) = XAXIDMA_RING_SEEKAHEAD R"
  by (simp add: fun_eq_iff XAXIDMA_RING_SEEKAHEAD_def Let_def)

text \<open>
  The invariant with the sizes of the groups and the position of \<open>PostHead\<close> as parameters.
\<close>

definition ring_at :: "bdring \<Rightarrow> nat \<Rightarrow> nat \<Rightarrow> nat \<Rightarrow> nat \<Rightarrow> nat \<Rightarrow> bool" where
  "ring_at R p po h pr f \<longleftrightarrow>
     geom R \<and> Cyclic R = 0 \<and> PostCnt R = int po \<and> HwCnt R = int h \<and> PreCnt R = int pr \<and>
     FreeCnt R = int f \<and> po + h + pr + f = bd_count R \<and> p < bd_count R \<and>
     PostHead R = slot R p \<and>
     HwHead R = slot R ((p + po) mod bd_count R) \<and>
     PreHead R = slot R ((p + po + h) mod bd_count R) \<and>
     FreeHead R = slot R ((p + po + h + pr) mod bd_count R) \<and>
     (\<exists>t < bd_count R. HwTail R = slot R t) \<and>
     (0 < h \<longrightarrow> HwTail R = slot R ((p + po + h - 1) mod bd_count R))"

lemma ring_atI:
  "ring_inv R \<Longrightarrow> ring_at R (slot_of R (PostHead R)) (nat (PostCnt R)) (nat (HwCnt R))
     (nat (PreCnt R)) (nat (FreeCnt R))"
  unfolding ring_inv_def ring_at_def Let_def
  by (elim conjE, intro conjI exI [of _ "slot_of R (HwTail R)"])
     (simp_all add: bd_count_def flip: nat_add_distrib)

lemma ring_at_inv:
  assumes "ring_at R p po h pr f"
  shows "ring_inv R" and "groups R = ringG (bd_count R) p po h pr f"
proof -
  have p: "slot_of R (PostHead R) = p"
    using assms by (simp add: ring_at_def)
  show "ring_inv R"
    unfolding ring_inv_def Let_def p
    using assms by (auto simp: ring_at_def bd_count_def)
  show "groups R = ringG (bd_count R) p po h pr f"
    using assms geomD(1) [of R] unfolding groups_def p Let_def ringG_def
    by (auto simp: ring_at_def)
qed

lemma ring_partition:
  assumes "ring_inv R"
  shows "distinct (all_slots (groups R)) \<and> set (all_slots (groups R)) = {..<bd_count R}"
proof -
  note at = ring_atI [OF assms]
  have "nat (PostCnt R) + nat (HwCnt R) + nat (PreCnt R) + nat (FreeCnt R) = bd_count R" "0 < bd_count R"
    using at geomD(1) by (auto simp: ring_at_def)
  then show ?thesis
    by (auto simp: ring_at_inv(2) [OF at] ringG_all)
qed

lemma SEEKAHEAD_at:
  assumes "geom R" "k \<le> bd_count R"
  shows "XAXIDMA_RING_SEEKAHEAD R (slot R (s mod bd_count R)) (int k) = slot R ((s + k) mod bd_count R)"
  using SEEKAHEAD_slot [OF assms(1) _ assms(2), of "s mod bd_count R"] geomD(1) [OF assms(1)]
  by (simp add: mod_add_left_eq)

lemma SEEKBACK_at:
  assumes "geom R" "k \<le> bd_count R" "k \<le> s"
  shows "XAXIDMA_RING_SEEKBACK R (slot R (s mod bd_count R)) (int k) = slot R ((s - k) mod bd_count R)"
proof -
  let ?n = "bd_count R"
  have "(s mod ?n + ?n - k) mod ?n = (s mod ?n + (?n - k)) mod ?n"
    using assms(2) by simp
  also have "\<dots> = (s + (?n - k)) mod ?n"
    by (simp add: mod_add_left_eq)
  also have "s + (?n - k) = s - k + ?n"
    using assms(2,3) by simp
  finally show ?thesis
    using SEEKBACK_slot [OF assms(1) _ assms(2), of "s mod ?n"] geomD(1) [OF assms(1)] by simp
qed

subsection \<open>Every operation implements a move\<close>

lemma Alloc_at:
  assumes "ring_at R p po h pr f" "0 < k" "k \<le> f"
  shows "XAxiDma_BdRingAlloc R (int k) =
     (XST_SUCCESS, Some (slot R ((p + po + h + pr) mod bd_count R)), snd (snd (XAxiDma_BdRingAlloc R (int k))))"
    and "ring_at (snd (snd (XAxiDma_BdRingAlloc R (int k)))) p po h (pr + k) (f - k)"
proof -
  have k: "k \<le> bd_count R"
    using assms by (simp add: ring_at_def)
  note sk = SEEKAHEAD_at [OF _ k, of "p + po + h + pr"]
  show "XAxiDma_BdRingAlloc R (int k) =
     (XST_SUCCESS, Some (slot R ((p + po + h + pr) mod bd_count R)), snd (snd (XAxiDma_BdRingAlloc R (int k))))"
    using assms by (auto simp: ring_at_def XAxiDma_BdRingAlloc_def)
  show "ring_at (snd (snd (XAxiDma_BdRingAlloc R (int k)))) p po h (pr + k) (f - k)"
    using assms sk unfolding ring_at_def XAxiDma_BdRingAlloc_def
    by (elim conjE, intro conjI) (simp_all add: of_nat_diff add.assoc)
qed

lemma UnAlloc_at:
  assumes "ring_at R p po h pr f" "0 < k" "XAxiDma_BdRingUnAlloc R (int k) bd = (XST_SUCCESS, R')"
  shows "k \<le> pr" and "ring_at R' p po h (pr - k) (f + k)"
proof -
  show k: "k \<le> pr"
    using assms by (auto simp: ring_at_def XAxiDma_BdRingUnAlloc_def split: if_splits)
  then have "k \<le> bd_count R" "k \<le> p + po + h + pr"
    using assms by (auto simp: ring_at_def)
  note sk = SEEKBACK_at [OF _ this]
  have R': "R' = R\<lparr>FreeHead := XAXIDMA_RING_SEEKBACK R (FreeHead R) (int k),
      FreeCnt := FreeCnt R + int k, PreCnt := PreCnt R - int k\<rparr>"
    using assms(2,3) by (auto simp: XAxiDma_BdRingUnAlloc_def split: if_splits)
  show "ring_at R' p po h (pr - k) (f + k)"
    using assms(1) sk k unfolding ring_at_def R'
    by (elim conjE, intro conjI) (simp_all add: of_nat_diff)
qed

lemma Free_at:
  assumes "ring_at R p po h pr f" "0 < k" "XAxiDma_BdRingFree R (int k) bd = (XST_SUCCESS, R')"
  shows "k \<le> po" and "bd = slot R p" and "ring_at R' ((p + k) mod bd_count R) (po - k) h pr (f + k)"
proof -
  show k: "k \<le> po" and "bd = slot R p"
    using assms by (auto simp: ring_at_def XAxiDma_BdRingFree_def split: if_splits)
  have kn: "k \<le> bd_count R" and pn: "p mod bd_count R = p" and n: "0 < bd_count R"
    using assms k by (auto simp: ring_at_def)
  have R': "R' = R\<lparr>FreeCnt := FreeCnt R + int k, PostCnt := PostCnt R - int k,
      PostHead := XAXIDMA_RING_SEEKAHEAD R (PostHead R) (int k)\<rparr>"
    using assms(2,3) by (auto simp: XAxiDma_BdRingFree_def split: if_splits)
  have sk: "geom R \<Longrightarrow> XAXIDMA_RING_SEEKAHEAD R (slot R p) (int k) = slot R ((p + k) mod bd_count R)"
    using SEEKAHEAD_at [OF _ kn, of p] pn by simp
  define p' where "p' = (p + k) mod bd_count R"
  have m: "(p' + (po - k) + a) mod bd_count R = (p + po + a) mod bd_count R" for a
    using k by (metis (no_types) add.assoc le_add_diff_inverse mod_add_left_eq p'_def)
  have "p' < bd_count R"
    using n by (simp add: p'_def)
  moreover have "(p' + (po - k)) mod bd_count R = (p + po) mod bd_count R"
    "(p' + (po - k) + h) mod bd_count R = (p + po + h) mod bd_count R"
    "(p' + (po - k) + h + pr) mod bd_count R = (p + po + h + pr) mod bd_count R"
    "0 < h \<Longrightarrow> (p' + (po - k) + h - 1) mod bd_count R = (p + po + h - 1) mod bd_count R"
    using m [of 0] m [of h] m [of "h + pr"] m [of "h - 1"] by (simp_all add: add.assoc)
  moreover have "PostHead R' = slot R p'"
    using sk assms(1) by (simp add: R' p'_def ring_at_def)
  ultimately have "ring_at R' p' (po - k) h pr (f + k)"
    using assms(1) k unfolding ring_at_def R' by (simp add: of_nat_diff)
  then show "ring_at R' ((p + k) mod bd_count R) (po - k) h pr (f + k)"
    by (simp add: p'_def)
qed

lemma Next_at:
  assumes "geom R"
  shows "XAxiDma_BdRingNext R (slot R (s mod bd_count R)) = slot R (Suc s mod bd_count R)"
  using Next_slot [OF assms, of "s mod bd_count R"] geomD(1) [OF assms] by (simp add: mod_Suc_eq)

lemma ToHw_loop_at:
  assumes "geom R" "ToHw_loop k R (slot R (s mod bd_count R)) cr sts b = (Some (c, cr', sts'), b')"
  shows "c = slot R ((s + k) mod bd_count R)"
  using assms(2)
proof (induction k arbitrary: s cr sts b)
  case (Suc k)
  from Suc.prems Suc.IH [of "Suc s"] show ?case
    by (auto simp: Let_def Next_at [OF assms(1)] split: prod.splits if_splits)
qed simp

lemma ToHw_at:
  assumes "ring_at R p po h pr f" "0 < k" "XAxiDma_BdRingToHw R (int k) bd b = (XST_SUCCESS, R', b')"
  shows "k \<le> pr" and "bd = PreHead R" and "ring_at R' p po (h + k) (pr - k) f"
proof -
  show k: "k \<le> pr" and bd: "bd = PreHead R"
    using assms by (auto simp: ring_at_def XAxiDma_BdRingToHw_def split: if_splits)
  have g: "geom R" and pre: "PreHead R = slot R ((p + po + h) mod bd_count R)" and kn: "k \<le> bd_count R"
    using assms(1) k by (auto simp: ring_at_def)
  obtain cr sts b1 cr' sts' b2 c where
    loop: "ToHw_loop (nat (int k - 1)) R bd cr sts b1 = (Some (c, cr', sts'), b2)"
    and R': "R' = R\<lparr>PreHead := XAXIDMA_RING_SEEKAHEAD R (PreHead R) (int k),
        PreCnt := PreCnt R - int k, HwTail := c, HwCnt := HwCnt R + int k\<rparr>"
    using assms(2,3) by (auto simp: XAxiDma_BdRingToHw_def Let_def split: if_splits prod.splits option.splits)
  have "c = slot R ((p + po + h + (k - 1)) mod bd_count R)"
    using ToHw_loop_at [OF g loop [unfolded bd pre]] assms(2) by (simp add: nat_diff_distrib)
  then have c: "c = slot R ((p + po + (h + k) - 1) mod bd_count R)"
    using assms(2) by (simp add: add.assoc)
  have "\<exists>t < bd_count R. c = slot R t"
    using geomD(1) [OF g] by (intro exI [of _ "(p + po + (h + k) - 1) mod bd_count R"]) (simp add: c)
  moreover note SEEKAHEAD_at [OF g kn, of "p + po + h", folded pre]
  ultimately show "ring_at R' p po (h + k) (pr - k) f"
    using assms(1) k c unfolding ring_at_def R'
    by (elim conjE, intro conjI) (simp_all add: of_nat_diff add.assoc)
qed

lemma FromHw_loop_bounds:
  assumes "FromHw_loop k R cur c pc b = (c', pc', b')" "0 \<le> pc"
  shows "c' \<le> c + int k" and "c - pc \<le> c' - pc'" and "0 \<le> pc'" and "pc' \<le> pc + (c' - c)"
proof -
  have "c' \<le> c + int k \<and> c - pc \<le> c' - pc' \<and> 0 \<le> pc' \<and> pc' \<le> pc + (c' - c)"
    using assms
  proof (induction k arbitrary: cur c pc b)
    case (Suc k)
    show ?case
      using Suc.prems
      by (auto simp: Let_def split: prod.splits if_splits dest!: Suc.IH)
  qed auto
  then show "c' \<le> c + int k" and "c - pc \<le> c' - pc'" and "0 \<le> pc'" and "pc' \<le> pc + (c' - c)"
    by auto
qed

lemma FromHw_at:
  assumes "ring_at R p po h pr f" "XAxiDma_BdRingFromHw R lim b = (c, bd, R', b')"
  shows "0 \<le> c" and "nat c \<le> h" and "c \<le> max 0 lim" and "0 < c \<Longrightarrow> bd = HwHead R"
    and "ring_at R' p (po + nat c) (h - nat c) pr f"
proof -
  have at: "HwCnt R = int h" "Cyclic R = 0" "geom R" "h \<le> bd_count R"
    "HwHead R = slot R ((p + po) mod bd_count R)"
    using assms(1) by (auto simp: ring_at_def)
  consider (none) "c = 0" "R' = R" | (some) "0 < c" "nat c \<le> h" "c \<le> lim" "bd = HwHead R"
    "R' = R\<lparr>HwCnt := HwCnt R - c, PostCnt := PostCnt R + c,
            HwHead := slot R ((p + po + nat c) mod bd_count R)\<rparr>"
  proof (cases "h = 0 \<or> c = 0")
    case True
    then show ?thesis
      using assms(2) at none by (auto simp: XAxiDma_BdRingFromHw_def Let_def split: prod.splits if_splits)
  next
    case False
    define L where "L = (if int h < lim then int h else lim)"
    obtain n pc where
      loop: "FromHw_loop (nat L) R (HwHead R) 0 0 b = (n, pc, b')" and c: "c = n - pc" and bd: "bd = HwHead R"
      and R': "R' = R\<lparr>HwCnt := HwCnt R - c, PostCnt := PostCnt R + c,
        HwHead := XAXIDMA_RING_SEEKAHEAD (R\<lparr>HwCnt := HwCnt R - c, PostCnt := PostCnt R + c\<rparr>) (HwHead R) c\<rparr>"
      using assms(2) at False
      by (auto simp: XAxiDma_BdRingFromHw_def Let_def L_def split: prod.splits if_splits)
    have b: "0 < c" "c \<le> L" "0 \<le> L"
      using FromHw_loop_bounds [OF loop] c False by (auto split: if_splits)
    then have "nat c \<le> bd_count R" "nat c \<le> h" "c \<le> lim"
      using at by (auto simp: L_def split: if_splits)
    then show ?thesis
      using SEEKAHEAD_at [OF at(3), of "nat c" "p + po"] b(1) at(5)
      by (intro some) (simp_all add: bd R' SEEKAHEAD_upd)
  qed
  then show "0 \<le> c" "nat c \<le> h" "c \<le> max 0 lim" "0 < c \<Longrightarrow> bd = HwHead R"
    "ring_at R' p (po + nat c) (h - nat c) pr f"
    using assms(1) unfolding ring_at_def by (cases; auto simp: add.assoc of_nat_diff)+
qed

end
