(* ===== verification/BdRing_Spec.thy ===== *)
theory BdRing_Spec
  imports BdRing_Inv
begin

section \<open>The descriptor ring implements the four queues\<close>

text \<open>
  Every operation of \<^verbatim>\<open>xaxidma_bdring.c\<close> on an initialised ring keeps the invariant of
  \<open>BdRing_Inv\<close> and is a step of the four-queue specification with the same label: the same
  arguments, status and pointer.  The step relation \<open>ring_do\<close> collects the operations with the
  accesses that do not touch the control structure (descriptor setters, the hardware itself), and
  is an instance of the locale \<open>bd_pool\<close>.
\<close>

text \<open>The block of descriptors a control structure describes; no operation changes it.\<close>

definition same_block :: "bdring \<Rightarrow> bdring \<Rightarrow> bool" where
  "same_block R R' \<longleftrightarrow> FirstBdAddr R' = FirstBdAddr R \<and> LastBdAddr R' = LastBdAddr R \<and>
     Separation R' = Separation R \<and> AllCnt R' = AllCnt R"

lemma same_block_ops:
  "same_block R (snd (snd (XAxiDma_BdRingAlloc R n)))"
  "same_block R (snd (XAxiDma_BdRingUnAlloc R n bd))"
  "same_block R (snd (XAxiDma_BdRingFree R n bd))"
  "same_block R (fst (snd (XAxiDma_BdRingToHw R n bd b)))"
  "same_block R (fst (snd (snd (XAxiDma_BdRingFromHw R n b))))"
  by (auto simp: same_block_def XAxiDma_BdRingAlloc_def XAxiDma_BdRingUnAlloc_def XAxiDma_BdRingFree_def
      XAxiDma_BdRingToHw_def XAxiDma_BdRingFromHw_def Let_def split: prod.splits option.splits)

text \<open>The \<open>k\<close> descriptors from \<open>bd\<close> on, as a client walks them with \<^verbatim>\<open>XAxiDma_BdRingNext\<close>.\<close>

definition bd_walk :: "bdring \<Rightarrow> nat \<Rightarrow> addr \<Rightarrow> addr list" where
  "bd_walk R k bd = map (\<lambda>i. (XAxiDma_BdRingNext R ^^ i) bd) [0..<k]"

lemma same_blockD:
  assumes "same_block R R'"
  shows "slot R' = slot R" and "bd_count R' = bd_count R" and "bd_walk R' = bd_walk R"
proof -
  have nx: "XAxiDma_BdRingNext R' = XAxiDma_BdRingNext R"
    using assms by (simp add: fun_eq_iff same_block_def XAxiDma_BdRingNext_def)
  show "bd_walk R' = bd_walk R"
    by (intro ext) (simp only: bd_walk_def nx)
  show "slot R' = slot R" and "bd_count R' = bd_count R"
    using assms by (simp_all add: fun_eq_iff same_block_def slot_def bd_count_def)
qed

lemma bd_walk_slot:
  assumes "geom R"
  shows "bd_walk R k (slot R (s mod bd_count R)) = map (slot R) (grp (bd_count R) s k)"
proof -
  have "(XAxiDma_BdRingNext R ^^ i) (slot R (s mod bd_count R)) = slot R ((s + i) mod bd_count R)" for i
    by (induction i) (simp_all add: Next_at [OF assms])
  then show ?thesis
    by (simp add: bd_walk_def grp_def)
qed

text \<open>What one operation guarantees.\<close>

definition refines :: "bdring \<Rightarrow> ring_event \<Rightarrow> bdring \<Rightarrow> bool" where
  "refines R e R' \<longleftrightarrow> ring_inv R' \<and> same_block R R' \<and> queue_step (slot R) (groups R) e (groups R')"

lemma refines_kept: "ring_inv R \<Longrightarrow> queue_step (slot R) (groups R) e (groups R) \<Longrightarrow> refines R e R"
  by (simp add: refines_def same_block_def)

lemma refinesI:
  assumes "ring_at R p po h pr f" "ring_at R' p' po' h' pr' f'" "same_block R R'"
    and "queue_step (slot R) (ringG (bd_count R) p po h pr f) e (ringG (bd_count R) p' po' h' pr' f')"
  shows "refines R e R'"
  using assms ring_at_inv [OF assms(1)] ring_at_inv [OF assms(2)] same_blockD(2) [OF assms(3)]
  by (simp add: refines_def)

text \<open>The sizes of the queues and their first slots.\<close>

lemma ringG_sel [simp]:
  "post (ringG n p po h pr f) = grp n p po"
  "hw (ringG n p po h pr f) = grp n (p + po) h"
  "pre (ringG n p po h pr f) = grp n (p + po + h) pr"
  "free (ringG n p po h pr f) = grp n (p + po + h + pr) f"
  by (simp_all add: ringG_def)

lemma Alloc_refines:
  assumes "ring_inv R" "XAxiDma_BdRingAlloc R n = (st, bd, R')"
  shows "refines R (Ev_Alloc n st bd) R'"
proof (cases "0 < n \<and> n \<le> FreeCnt R")
  case True
  define k where "k = nat n"
  have k: "0 < k" "k \<le> nat (FreeCnt R)" and n: "int k = n"
    using True by (auto simp: k_def)
  note at = ring_atI [OF assms(1)]
  have "same_block R R'"
    using same_block_ops(1) [of R n] assms(2) by simp
  moreover have "st = XST_SUCCESS" "bd = Some (slot R (hd (free (groups R))))"
    "ring_at R' (slot_of R (PostHead R)) (nat (PostCnt R)) (nat (HwCnt R)) (nat (PreCnt R) + k) (nat (FreeCnt R) - k)"
    using Alloc_at [OF at k] assms(2) k by (simp_all add: n ring_at_inv(2) [OF at] hd_grp)
  ultimately show ?thesis
    using True k ringG_alloc [OF k(2)] q_alloc [of n "groups R"]
    by (intro refinesI [OF at]) (simp_all add: ring_at_inv(2) [OF at] flip: k_def)
next
  case False
  note at = ring_atI [OF assms(1)]
  have "R' = R" "bd = None" "st = (if n \<le> 0 then XST_INVALID_PARAM else XST_FAILURE)"
    using assms(2) False by (auto simp: XAxiDma_BdRingAlloc_def split: if_splits)
  then show ?thesis
    using assms(1) False by (auto intro!: refines_kept q_alloc_refused simp: ring_at_inv(2) [OF at])
qed

lemma mod_add_cancel:
  assumes "(i + k) mod n = (s + k) mod (n::nat)"
  shows "i mod n = s mod n"
proof -
  have "(int (i + k) - int k) mod int n = (int (s + k) - int k) mod int n"
    using assms by (intro mod_diff_cong) (simp_all only: zmod_int [symmetric])
  then show ?thesis
    by (simp flip: zmod_int)
qed

lemma UnAlloc_pointer:
  assumes "ring_at R p po h pr f" "0 < k" "k \<le> pr" "i < bd_count R"
  shows "XAXIDMA_RING_SEEKAHEAD R (slot R i) (int k) = FreeHead R \<longleftrightarrow>
    slot R i = slot R ((p + po + h + (pr - k)) mod bd_count R)"
proof -
  let ?n = "bd_count R" and ?s = "p + po + h + (pr - k)"
  have g: "geom R" "k \<le> ?n" "0 < ?n" and f: "FreeHead R = slot R ((?s + k) mod ?n)"
    using assms(1,3,4) by (auto simp: ring_at_def add.assoc)
  have "XAXIDMA_RING_SEEKAHEAD R (slot R i) (int k) = FreeHead R \<longleftrightarrow> (i + k) mod ?n = (?s + k) mod ?n"
    unfolding f SEEKAHEAD_slot [OF g(1) assms(4) g(2)] using slot_inj [OF g(1)] g(3) by auto
  also have "\<dots> \<longleftrightarrow> i mod ?n = ?s mod ?n"
    by (metis mod_add_cancel mod_add_left_eq)
  also have "\<dots> \<longleftrightarrow> slot R i = slot R (?s mod ?n)"
    using slot_inj [OF g(1), of i "?s mod ?n"] g(3) assms(4) by auto
  finally show ?thesis .
qed

lemma all_slots_lt: "ring_inv R \<Longrightarrow> slot R ` set (all_slots (groups R)) = slot R ` {..<bd_count R}"
  using ring_partition by simp

lemma UnAlloc_refines:
  assumes "ring_inv R" "XAxiDma_BdRingUnAlloc R n bd = (st, R')"
  shows "refines R (Ev_UnAlloc n bd st) R'"
proof (cases "st = XST_SUCCESS")
  case True
  note at = ring_atI [OF assms(1)]
  have st: "XAxiDma_BdRingUnAlloc R (int (nat n)) bd = (XST_SUCCESS, R')" and n: "0 < nat n"
    and sk: "XAXIDMA_RING_SEEKAHEAD R bd (int (nat n)) = FreeHead R"
    using assms(2) True by (auto simp: XAxiDma_BdRingUnAlloc_def split: if_splits)
  note k = UnAlloc_at(1) [OF at n st]
  have "bd = slot R (pre (groups R) ! (length (pre (groups R)) - nat n))"
    if "bd \<in> slot R ` set (all_slots (groups R))"
    using that sk UnAlloc_pointer [OF at n k] k n unfolding all_slots_lt [OF assms(1)]
    by (auto simp: ring_at_inv(2) [OF at] nth_grp)
  then have "queue_step (slot R) (groups R) (Ev_UnAlloc n bd st) (move_unalloc (nat n) (groups R))"
    using n k True by (auto intro!: q_unalloc simp: ring_at_inv(2) [OF at])
  moreover have "same_block R R'"
    using same_block_ops(2) [of R n bd] assms(2) by simp
  ultimately show ?thesis
    using UnAlloc_at(2) [OF at n st] ringG_unalloc [OF k]
    by (intro refinesI [OF at]) (auto simp: ring_at_inv(2) [OF at])
next
  case False
  note at = ring_atI [OF assms(1)]
  have R': "R' = R" and st: "st = (if n \<le> 0 then XST_INVALID_PARAM else XST_FAILURE)"
    using assms(2) False by (auto simp: XAxiDma_BdRingUnAlloc_def split: if_splits)
  have "\<not> (0 < n \<and> nat n \<le> length (pre (groups R)) \<and>
      bd = slot R (pre (groups R) ! (length (pre (groups R)) - nat n)))"
  proof
    assume a: "0 < n \<and> nat n \<le> length (pre (groups R)) \<and>
      bd = slot R (pre (groups R) ! (length (pre (groups R)) - nat n))"
    then have k: "0 < nat n" "nat n \<le> nat (PreCnt R)" "int (nat n) = n"
      by (auto simp: ring_at_inv(2) [OF at])
    have "0 < bd_count R"
      using at by (simp add: ring_at_def)
    then have "XAXIDMA_RING_SEEKAHEAD R bd (int (nat n)) = FreeHead R"
      using a k UnAlloc_pointer [OF at k(1,2)] by (simp add: ring_at_inv(2) [OF at] nth_grp)
    then show False
      using assms(2) False k by (auto simp: XAxiDma_BdRingUnAlloc_def split: if_splits)
  qed
  then show ?thesis
    using assms(1) st unfolding R' by (intro refines_kept q_unalloc_refused)
qed

lemma Free_refines:
  assumes "ring_inv R" "XAxiDma_BdRingFree R n bd = (st, R')"
  shows "refines R (Ev_Free n bd st) R'"
proof (cases "st = XST_SUCCESS \<and> n \<noteq> 0")
  case True
  then have st: "XAxiDma_BdRingFree R (int (nat n)) bd = (XST_SUCCESS, R')" and n: "0 < nat n"
    using assms(2) by (auto simp: XAxiDma_BdRingFree_def split: if_splits)
  note at = ring_atI [OF assms(1)]
  note k = Free_at(1) [OF at n st]
  have pn: "slot_of R (PostHead R) mod bd_count R = slot_of R (PostHead R)"
    and sum: "nat (PostCnt R) + nat (HwCnt R) + nat (PreCnt R) + nat (FreeCnt R) = bd_count R"
    using at by (simp_all add: ring_at_def)
  have "queue_step (slot R) (groups R) (Ev_Free n bd st) (move_free (nat n) (groups R))"
    using n k True Free_at(2) [OF at n st] pn by (auto intro!: q_free simp: ring_at_inv(2) [OF at] hd_grp)
  moreover have "same_block R R'"
    using same_block_ops(3) [of R n bd] assms(2) by simp
  ultimately show ?thesis
    using Free_at(3) [OF at n st] ringG_free [OF k sum]
    by (intro refinesI [OF at]) (auto simp: ring_at_inv(2) [OF at])
next
  case False
  note at = ring_atI [OF assms(1)]
  have "R' = R" and st: "st = (if n < 0 then XST_INVALID_PARAM else if n = 0 then XST_SUCCESS else XST_DMA_SG_LIST_ERROR)"
    and no: "n \<le> 0 \<or> PostCnt R < n \<or> PostHead R \<noteq> bd"
    using assms(2) False by (auto simp: XAxiDma_BdRingFree_def split: if_splits)
  moreover have "slot R (slot_of R (PostHead R) mod bd_count R) = PostHead R"
    using at by (simp add: ring_at_def)
  ultimately show ?thesis
    using assms(1) by (auto intro!: refines_kept q_free_refused simp: ring_at_inv(2) [OF at] hd_grp)
qed

lemma ToHw_refines:
  assumes "ring_inv R" "XAxiDma_BdRingToHw R n bd b = (st, R', b')"
  shows "refines R (Ev_ToHw n bd st) R'"
proof (cases "st = XST_SUCCESS \<and> n \<noteq> 0")
  case True
  then have n: "0 < n"
    using assms(2) by (auto simp: XAxiDma_BdRingToHw_def split: if_splits)
  then have st: "XAxiDma_BdRingToHw R (int (nat n)) bd b = (XST_SUCCESS, R', b')" and n': "0 < nat n"
    using assms(2) True by auto
  note at = ring_atI [OF assms(1)]
  note k = ToHw_at(1) [OF at n' st]
  have "queue_step (slot R) (groups R) (Ev_ToHw n bd st) (move_to_hw (nat n) (groups R))"
    using n n' k True ToHw_at(2) [OF at n' st] at
    by (auto intro!: q_to_hw simp: ring_at_inv(2) [OF at] hd_grp) (simp add: ring_at_def)
  moreover have "same_block R R'"
    using same_block_ops(4) [of R n bd b] assms(2) by simp
  ultimately show ?thesis
    using ToHw_at(3) [OF at n' st] ringG_to_hw [OF k]
    by (intro refinesI [OF at]) (auto simp: ring_at_inv(2) [OF at])
next
  case False
  note at = ring_atI [OF assms(1)]
  have "R' = R"
    using assms(2) False by (auto simp: XAxiDma_BdRingToHw_def Let_def split: if_splits prod.splits option.splits)
  moreover have "st = (if n < 0 then XST_INVALID_PARAM else if n = 0 then XST_SUCCESS
       else if n \<le> PreCnt R \<and> bd = PreHead R then XST_FAILURE else XST_DMA_SG_LIST_ERROR)"
    using assms(2) False by (auto simp: XAxiDma_BdRingToHw_def Let_def split: if_splits prod.splits option.splits)
  moreover have "slot R ((slot_of R (PostHead R) + nat (PostCnt R) + nat (HwCnt R)) mod bd_count R) = PreHead R"
    using at by (simp add: ring_at_def)
  ultimately show ?thesis
    using assms(1) by (auto intro!: refines_kept q_to_hw_refused simp: ring_at_inv(2) [OF at] hd_grp)
qed

lemma FromHw_refines:
  assumes "ring_inv R" "XAxiDma_BdRingFromHw R lim b = (c, bd, R', b')"
  shows "refines R (Ev_FromHw lim c bd) R'"
proof -
  note at = ring_atI [OF assms(1)]
  note fh = FromHw_at [OF at assms(2)]
  have blk: "same_block R R'"
    using same_block_ops(5) [of R lim b] assms(2) by simp
  have "queue_step (slot R) (groups R) (Ev_FromHw lim c bd) (move_from_hw (nat c) (groups R))"
  proof (cases "c = 0")
    case True
    then have "bd = 0"
      using assms(2) by (auto simp: XAxiDma_BdRingFromHw_def Let_def split: if_splits prod.splits)
    then show ?thesis
      using True q_from_hw_none by (simp add: move_from_hw_def)
  next
    case False
    then have "0 < c" "c \<le> lim" "bd = slot R (hd (hw (groups R)))" "nat c \<le> length (hw (groups R))"
      using fh(1-4) at by (auto simp: ring_at_inv(2) [OF at] hd_grp ring_at_def)
    then show ?thesis
      using q_from_hw by simp
  qed
  then show ?thesis
    using refinesI [OF at fh(5) blk] ringG_from_hw [OF fh(2)] by (simp add: ring_at_inv(2) [OF at])
qed

lemma RunState_refines:
  assumes "ring_inv R"
  shows "refines R (Ev_Start st) (R\<lparr>RunState := s\<rparr>)"
proof -
  have "ring_at (R\<lparr>RunState := s\<rparr>) p po h pr f = ring_at R p po h pr f" for p po h pr f
    by (simp add: ring_at_def)
  with ring_atI [OF assms] show ?thesis
    by (intro refinesI [OF ring_atI [OF assms]]) (auto intro: q_start simp: same_block_def)
qed

lemma Start_refines:
  assumes "ring_inv R" "XAxiDma_BdRingStart R b = Some (st, R', b')"
  shows "refines R (Ev_Start st) R'"
proof -
  have "R' = R \<or> R' = R\<lparr>RunState := AXIDMA_CHANNEL_NOT_HALTED\<rparr>"
    using assms(2)
    by (auto simp: XAxiDma_BdRingStart_def XAxiDma_StartBdRingHw_def Let_def
        split: bind_splits if_splits prod.splits)
  then show ?thesis
    using RunState_refines refines_kept q_start assms(1) by auto
qed

subsection \<open>The step relation and the interpretation\<close>

text \<open>A call of the driver with its arguments and what it returns, or a change of memory.\<close>

inductive ring_do :: "bdring \<times> bus \<Rightarrow> ring_event \<Rightarrow> bdring \<times> bus \<Rightarrow> bool" where
  do_alloc: "XAxiDma_BdRingAlloc R n = (st, bd, R') \<Longrightarrow> ring_do (R, b) (Ev_Alloc n st bd) (R', b)"
| do_unalloc: "XAxiDma_BdRingUnAlloc R n bd = (st, R') \<Longrightarrow> ring_do (R, b) (Ev_UnAlloc n bd st) (R', b)"
| do_to_hw: "XAxiDma_BdRingToHw R n bd b = (st, R', b') \<Longrightarrow> ring_do (R, b) (Ev_ToHw n bd st) (R', b')"
| do_from_hw: "XAxiDma_BdRingFromHw R lim b = (c, bd, R', b') \<Longrightarrow> ring_do (R, b) (Ev_FromHw lim c bd) (R', b')"
| do_free: "XAxiDma_BdRingFree R n bd = (st, R') \<Longrightarrow> ring_do (R, b) (Ev_Free n bd st) (R', b)"
| do_start: "XAxiDma_BdRingStart R b = Some (st, R', b') \<Longrightarrow> ring_do (R, b) (Ev_Start st) (R', b')"
| do_memory: "ring_do (R, b) Ev_Memory (R, b')"

inductive_cases ring_doE: "ring_do s e t"

lemma ring_do_refines:
  assumes "ring_do s e t" "ring_inv (fst s)"
  shows "refines (fst s) e (fst t)"
  using assms
  by (elim ring_doE) (auto intro: Alloc_refines UnAlloc_refines ToHw_refines FromHw_refines
      Free_refines Start_refines refines_kept q_memory)

lemma ring_slot_inj: "ring_inv R \<Longrightarrow> inj_on (slot R) {..<bd_count R}"
  using slot_inj by (auto simp: ring_inv_def Let_def intro!: inj_onI)

lemma ring_walk_queue:
  assumes "ring_inv R" "q \<in> {post (groups R), hw (groups R), pre (groups R), free (groups R)}"
    and "j + k \<le> length q" "0 < k"
  shows "bd_walk R k (slot R (q ! j)) = map (slot R) (take k (drop j q))"
proof -
  note at = ring_atI [OF assms(1)]
  have g: "geom R"
    using at by (simp add: ring_at_def)
  obtain s c where q: "q = grp (bd_count R) s c"
    using assms(2) unfolding ring_at_inv(2) [OF at] by auto
  then show ?thesis
    using assms(3,4) bd_walk_slot [OF g, of k "s + j"] by (simp add: grp_simps)
qed

interpretation ring: bd_pool "ring_inv \<circ> fst" "groups \<circ> fst" ring_do "slot \<circ> fst" "bd_count \<circ> fst" "bd_walk \<circ> fst"
proof unfold_locales
  show "(bd_walk \<circ> fst) r 0 bd = []" for r bd
    by (simp add: bd_walk_def)
qed (use ring_do_refines ring_partition same_blockD ring_slot_inj ring_walk_queue in
  \<open>(auto simp: refines_def)\<close>)

end
