(* ===== verification/BdRing_Create.thy ===== *)
theory BdRing_Create
  imports BdRing_Spec
begin

section \<open>Creating and checking a ring\<close>

text \<open>
  What a successful \<^verbatim>\<open>XAxiDma_BdRingCreate\<close> leaves behind: a control structure that satisfies
  the invariant with every descriptor in the free group, and descriptors linked into a cycle,
  which is what \<^verbatim>\<open>XAxiDma_BdRingCheck\<close> looks for.  The overflow test of the source compares
  the first address with the last one modulo \<open>2 ^ 32\<close>, so a size that exceeds the address space
  by a multiple of it passes; the results on created rings have the size as a hypothesis.
\<close>

subsection \<open>The control structure\<close>

lemma sep_pow2_all: "\<forall>k \<in> set [6..<32]. ((64::u32) + (2 ^ k - 1)) AND NOT (2 ^ k - 1) = 2 ^ k"
  by code_simp

lemma sep_pow2: "6 \<le> k \<Longrightarrow> k < 32 \<Longrightarrow> ((64::u32) + (2 ^ k - 1)) AND NOT (2 ^ k - 1) = 2 ^ k"
  using sep_pow2_all [THEN bspec, of k] by (simp only: set_upt atLeastLessThan_iff)

lemma link_bds_fst: "fst (link_bds k R V P b) = V + of_nat k * Separation R"
  by (induction k arbitrary: V P b) (simp_all add: algebra_simps)

text \<open>A successful creation: the alignment is a power of two, and is also the separation.\<close>

lemma Create_success:
  assumes "XAxiDma_BdRingCreate m R P V A n b = (XST_SUCCESS, R', b')"
  obtains k R1 where "6 \<le> k" "k < 32" "A = 2 ^ k" "unat A = 2 ^ k" "0 < n"
    "P mod A = 0" "V mod A = 0" "\<not> V + A * of_int n - 1 < V"
    "R1 = R\<lparr>AllCnt := 0, FreeCnt := 0, HwCnt := 0, PreCnt := 0, PostCnt := 0, Cyclic := 0, Separation := A\<rparr>"
    "R' = R1\<lparr>RunState := AXIDMA_CHANNEL_HALTED, FirstBdAddr := V,
        FirstBdPhysAddr := P, LastBdAddr := V + of_nat (nat (n - 1)) * A,
        Length := V + of_nat (nat (n - 1)) * A - V + A,
        AllCnt := n, FreeCnt := n, FreeHead := V, PreHead := V, HwHead := V, HwTail := V,
        PostHead := V, BdaRestart := V, CyclicBd := m\<rparr>"
    "b' = bd_setup R1 (V + of_nat (nat (n - 1)) * A) P
       (snd (link_bds (nat (n - 1)) R1 V (P + A) (mem_zero V (unat (A * of_int n) div 4) b)))"
proof -
  have A: "\<not> A < 64" "(A - 1) AND A = 0"
    using assms by (auto simp: XAxiDma_BdRingCreate_def Let_def split: if_splits)
  then have "A \<noteq> 0" by auto
  then obtain k where k: "k < 32" "A = 2 ^ k" "unat A = 2 ^ k"
    using word_pow2 [OF A(2)] by blast
  have "(2::nat) ^ 6 \<le> 2 ^ k"
    using A(1) k(3) by (simp add: word_less_nat_alt)
  then have k6: "6 \<le> k"
    by (rule power_le_imp_le_exp [rotated]) simp
  have sep: "(64 + (A - 1)) AND NOT (A - 1) = A"
    using sep_pow2 [OF k6 k(1)] k(2) by simp
  have g: "\<not> n \<le> 0" "\<not> (P mod A \<noteq> 0 \<or> V mod A \<noteq> 0)" "\<not> V + A * of_int n - 1 < V"
    using assms A sep by (auto simp: XAxiDma_BdRingCreate_def Let_def split: if_splits)
  define R1 where "R1 = R\<lparr>AllCnt := 0, FreeCnt := 0, HwCnt := 0, PreCnt := 0, PostCnt := 0, Cyclic := 0, Separation := A\<rparr>"
  define L where "L = V + of_nat (nat (n - 1)) * A"
  define b1 where "b1 = snd (link_bds (nat (n - 1)) R1 V (P + A) (mem_zero V (unat (A * of_int n) div 4) b))"
  have S: "Separation R1 = A"
    by (simp add: R1_def)
  then have lk: "link_bds (nat (n - 1)) R1 V (P + A) (mem_zero V (unat (A * of_int n) div 4) b) = (L, b1)"
    using link_bds_fst [of "nat (n - 1)" R1 V "P + A"] unfolding L_def b1_def by (metis prod.collapse)
  have "XAxiDma_BdRingCreate m R P V A n b =
     (XST_SUCCESS, R1\<lparr>RunState := AXIDMA_CHANNEL_HALTED, FirstBdAddr := V,
        FirstBdPhysAddr := P, LastBdAddr := L, Length := L - V + A,
        AllCnt := n, FreeCnt := n, FreeHead := V, PreHead := V, HwHead := V, HwTail := V,
        PostHead := V, BdaRestart := V, CyclicBd := m\<rparr>, bd_setup R1 L P b1)"
    unfolding XAxiDma_BdRingCreate_def Let_def sep
    using g A lk unfolding R1_def by simp
  with assms show ?thesis
    using g by (intro that [OF k6 k _ _ _ _ R1_def]) (auto simp: b1_def L_def)
qed

lemma Create_at:
  assumes "XAxiDma_BdRingCreate m R P V A n b = (XST_SUCCESS, R', b')"
    and small: "nat n * unat A < 2 ^ 32"
  shows "ring_at R' 0 0 0 0 (nat n)" and "bd_count R' = nat n"
proof -
  obtain k R1 where A: "unat A = 2 ^ k" "0 < n" and ov: "\<not> V + A * of_int n - 1 < V"
    and R1: "R1 = R\<lparr>AllCnt := 0, FreeCnt := 0, HwCnt := 0, PreCnt := 0, PostCnt := 0, Cyclic := 0, Separation := A\<rparr>"
    and R': "R' = R1\<lparr>RunState := AXIDMA_CHANNEL_HALTED, FirstBdAddr := V,
        FirstBdPhysAddr := P, LastBdAddr := V + of_nat (nat (n - 1)) * A,
        Length := V + of_nat (nat (n - 1)) * A - V + A,
        AllCnt := n, FreeCnt := n, FreeHead := V, PreHead := V, HwHead := V, HwTail := V,
        PostHead := V, BdaRestart := V, CyclicBd := m\<rparr>"
    using Create_success [OF assms(1)] by metis
  define N where "N = nat n"
  have n: "n = int N" "0 < N"
    using A(2) by (auto simp: N_def)
  show c: "bd_count R' = nat n"
    by (simp add: bd_count_def R')
  have "N * 1 \<le> N * unat A"
    using A(1) by (intro mult_le_mono2) simp
  then have "N < 2 ^ 32" and pos: "0 < N * unat A"
    using small n(2) unfolding N_def by linarith+
  then have sz: "unat (A * of_nat N) = N * unat A"
    using small unfolding N_def [symmetric]
    by (simp add: unat_word_ariths unat_of_nat_small mult.commute)
  have "unat V + N * unat A \<le> 2 ^ 32"
  proof (rule ccontr)
    assume "\<not> unat V + N * unat A \<le> 2 ^ 32"
    then have "2 ^ 32 \<le> unat V + (N * unat A - 1)" "N * unat A - 1 < 2 ^ 32"
      using small by (auto simp: N_def)
    moreover have "A * of_nat N \<noteq> 0"
      using sz pos by (metis unat_0 less_irrefl)
    then have "unat (A * of_nat N - 1) = N * unat A - 1"
      using sz by (simp add: unat_minus_one)
    ultimately have "unat (V + (A * of_nat N - 1)) < unat V"
      by (intro unat_add_wraps)
    then show False
      using ov by (simp add: n word_less_nat_alt add_diff_eq)
  qed
  moreover have "of_nat (nat (n - 1)) * A + A = of_nat N * A"
    using n by (simp add: nat_diff_distrib of_nat_diff algebra_simps)
  ultimately have "geom R'"
    using small A n(2) by (auto simp: geom_def bd_count_def slot_def R' R1 N_def nat_diff_distrib)
  then show "ring_at R' 0 0 0 0 (nat n)"
    using A(2) c by (auto simp: ring_at_def R' R1 slot_def intro!: exI [of _ 0])
qed

lemma Create_inv:
  assumes "XAxiDma_BdRingCreate m R P V A n b = (XST_SUCCESS, R', b')" "nat n * unat A < 2 ^ 32"
  shows "ring_inv R'" and "groups R' = \<lparr>post = [], hw = [], pre = [], free = [0..<nat n]\<rparr>"
proof -
  note at = Create_at [OF assms]
  show "ring_inv R'"
    using ring_at_inv(1) [OF at(1)] .
  have "0 < nat n"
    using Create_success [OF assms(1)] by auto
  then show "groups R' = \<lparr>post = [], hw = [], pre = [], free = [0..<nat n]\<rparr>"
    using ring_at_inv(2) [OF at(1)] at(2) by (simp add: ringG_def grp_full) (simp add: grp_def)
qed

lemma Create_slots:
  assumes "XAxiDma_BdRingCreate m R P V A n b = (XST_SUCCESS, R', b')"
  shows "slot R' = (\<lambda>i. V + of_nat i * A)"
proof -
  have "FirstBdAddr R' = V \<and> Separation R' = A"
    by (rule Create_success [OF assms]) simp
  then show ?thesis
    by (simp add: fun_eq_iff slot_def)
qed

subsection \<open>The descriptors in memory\<close>

lemma feed_fold_write [simp]: "feed (fold (\<lambda>i. bus_write w (f i) (v i)) xs b) = feed b"
  by (induction xs arbitrary: b) simp_all

lemma feed_mem_zero [simp]: "feed (mem_zero a n b) = feed b"
  by (simp add: mem_zero_def)

lemma feed_bd_setup [simp]: "feed (bd_setup R a p b) = feed b"
  by (simp add: bd_setup_def XAxiDma_BdWrite_def Let_def)

lemma feed_link_bds [simp]: "feed (snd (link_bds k R V P b)) = feed b"
  by (induction k arbitrary: V P b) simp_all

lemma cells_bd_setup:
  "cells (bd_setup R a p b) a = p AND 0xFFFFFFC0"
  "x \<notin> {a, a + 4, a + 0x34, a + 0x38, a + 0x3C} \<Longrightarrow> cells (bd_setup R a p b) x = cells b x"
  by (auto simp: bd_setup_def XAxiDma_BdWrite_def Let_def)

lemma desc_aligned: "6 \<le> k \<Longrightarrow> (2 ^ k * w :: u32) AND 0xFFFFFFC0 = 2 ^ k * w"
proof -
  assume "6 \<le> k"
  have m: "(0xFFFFFFC0 :: u32) = NOT (mask 6)"
    by (simp add: mask_eq_exp_minus_1)
  have p: "2 ^ k * w = push_bit k w"
    by (simp add: push_bit_eq_mult mult.commute)
  show ?thesis
    unfolding m p using \<open>6 \<le> k\<close> by (intro bit_word_eqI) (auto simp: bit_simps)
qed

lemma slot_offset:
  assumes g: "geom R" and S: "64 \<le> unat (Separation R)" and ij: "i < bd_count R" "j < bd_count R"
    and off: "unat off < 64" and eq: "slot R j = slot R i + off"
  shows "i = j" and "off = 0"
proof -
  let ?S = "unat (Separation R)"
  have "(i + 1) * ?S \<le> bd_count R * ?S"
    using ij(1) by (intro mult_le_mono1) simp
  then have "unat (slot R i) + unat off < 2 ^ 32"
    using unat_slot [OF g ij(1)] geomD(4) [OF g] S off by (simp add: algebra_simps)
  then have "unat (slot R j) = unat (slot R i) + unat off"
    unfolding eq by (subst unat_add_lem [THEN iffD1]) auto
  then have e: "j * ?S = i * ?S + unat off"
    using unat_slot [OF g ij(1)] unat_slot [OF g ij(2)] by simp
  have "j = (i * ?S + unat off) div ?S"
    using S by (simp flip: e)
  then have "j = i"
    using S off by simp
  then show "i = j" "off = 0"
    using e by (simp_all add: unat_eq_0)
qed

lemma cells_bd_setup_slot:
  assumes "geom R" "64 \<le> unat (Separation R)" "i < bd_count R" "j < bd_count R"
  shows "cells (bd_setup R1 (slot R i) p b) (slot R j) = (if j = i then p AND 0xFFFFFFC0 else cells b (slot R j))"
proof (cases "j = i")
  case False
  have *: "slot R j \<noteq> slot R i + off" if "unat off < 64" for off
    using slot_offset(1) [OF assms that] False by auto
  from * [of 0] * [of 4] * [of 52] * [of 56] * [of 60] show ?thesis
    using False by (simp add: cells_bd_setup(2))
qed (simp add: cells_bd_setup(1))

lemma slot_Suc: "slot R i + Separation R = slot R (Suc i)"
  by (simp add: slot_def algebra_simps)

lemma cells_link_bds:
  assumes "geom R" "64 \<le> unat (Separation R)" "Separation R1 = Separation R" "i + k < bd_count R" "j < bd_count R"
  shows "cells (snd (link_bds k R1 (slot R i) P b)) (slot R j) =
    (if i \<le> j \<and> j < i + k then (P + of_nat (j - i) * Separation R) AND 0xFFFFFFC0 else cells b (slot R j))"
  using assms(4)
proof (induction k arbitrary: i P b)
  case (Suc k)
  have i: "i < bd_count R" and le: "Suc i + k < bd_count R"
    using Suc.prems by auto
  have "P + Separation R + of_nat (j - Suc i) * Separation R = P + of_nat (j - i) * Separation R"
    if "Suc i \<le> j"
    using that by (simp add: of_nat_diff algebra_simps)
  then show ?case
    using Suc.IH [OF le, of "P + Separation R"] cells_bd_setup_slot [OF assms(1,2) i assms(5)]
    by (cases "j = i") (auto simp: assms(3) slot_Suc add.assoc)
qed auto

lemma check_links_ok:
  assumes "\<And>a. plain b a" "\<And>j. j < k \<Longrightarrow> cells b (slot R (i + j)) = P + of_nat j * Separation R"
  shows "\<exists>b'. check_links k R (slot R i) P b = (Some (slot R (i + k)), b') \<and> cells b' = cells b \<and> feed b' = feed b"
  using assms
proof (induction k arbitrary: i P b)
  case (Suc k)
  let ?b = "b\<lparr>events := events b @ [Rd W32 (slot R i) (cells b (slot R i))]\<rparr>"
  have "cells ?b (slot R (Suc i + j)) = (P + Separation R) + of_nat j * Separation R" if "j < k" for j
    using Suc.prems(2) [of "Suc j"] that by (simp add: algebra_simps)
  moreover have "plain ?b a" for a
    using Suc.prems(1) by (simp add: plain_def)
  ultimately obtain b' where
    "check_links k R (slot R (Suc i)) (P + Separation R) ?b = (Some (slot R (Suc i + k)), b')"
    "cells b' = cells ?b" "feed b' = feed ?b"
    using Suc.IH [of ?b "Suc i"] by blast
  then show ?case
    using Suc.prems(1) Suc.prems(2) [of 0] by (simp add: XAxiDma_BdRead_def bus_read_plain slot_Suc)
qed simp

lemma Create_links:
  assumes cr: "XAxiDma_BdRingCreate m R P V A n b = (XST_SUCCESS, R', b')"
    and small: "nat n * unat A < 2 ^ 32" and j: "j < nat n"
  shows "cells b' (slot R' j) = (if j = nat n - 1 then P else P + of_nat (Suc j) * A)"
proof -
  define N where "N = nat (n - 1)"
  obtain k R1 where k: "6 \<le> k" "A = 2 ^ k" "unat A = 2 ^ k" "P mod A = 0"
    and R1: "R1 = R\<lparr>AllCnt := 0, FreeCnt := 0, HwCnt := 0, PreCnt := 0, PostCnt := 0, Cyclic := 0, Separation := A\<rparr>"
    and R': "R' = R1\<lparr>RunState := AXIDMA_CHANNEL_HALTED, FirstBdAddr := V,
        FirstBdPhysAddr := P, LastBdAddr := V + of_nat N * A,
        Length := V + of_nat N * A - V + A,
        AllCnt := n, FreeCnt := n, FreeHead := V, PreHead := V, HwHead := V, HwTail := V,
        PostHead := V, BdaRestart := V, CyclicBd := m\<rparr>"
    and b': "b' = bd_setup R1 (V + of_nat N * A) P
       (snd (link_bds N R1 V (P + A) (mem_zero V (unat (A * of_int n) div 4) b)))"
    unfolding N_def using Create_success [OF cr] by metis
  have S: "Separation R1 = Separation R'" "Separation R' = A" and V: "slot R' 0 = V" "V + of_nat N * A = slot R' N"
    by (simp_all add: R' R1 slot_def)
  have g: "geom R'" and c: "bd_count R' = nat n"
    using Create_at [OF cr small] by (auto simp: ring_at_def)
  have N: "N = nat n - 1" "N < bd_count R'" "0 + N < bd_count R'"
    using j c by (auto simp: N_def nat_diff_distrib)
  have "(2::nat) ^ 6 \<le> 2 ^ k"
    using k(1) by (intro power_increasing) auto
  then have S64: "64 \<le> unat (Separation R')"
    using k(3) S by simp
  have P: "P = 2 ^ k * (P div A)"
    using k(4) by (metis k(2) add.right_neutral mult_div_mod_eq)
  have al: "(P + of_nat i * A) AND 0xFFFFFFC0 = P + of_nat i * A" for i
    using desc_aligned [OF k(1), of "P div A + of_nat i"] P by (simp add: k(2) algebra_simps)
  have al': "(P + A + of_nat i * A) AND 0xFFFFFFC0 = P + A + of_nat i * A" for i
    using al [of "Suc i"] by (simp add: algebra_simps)
  show ?thesis
    unfolding b' V(2) cells_bd_setup_slot [OF g S64 N(2) j [folded c]]
    using cells_link_bds [OF g S64 S(1) N(3) j [folded c], unfolded V(1) S(2)] al [of 0] al' j N(1)
    by (auto simp: algebra_simps)
qed

lemma Check_created:
  assumes cr: "XAxiDma_BdRingCreate m R P V A n b = (XST_SUCCESS, R', b')"
    and small: "nat n * unat A < 2 ^ 32" and pl: "\<And>a. plain b a"
  shows "fst (XAxiDma_BdRingCheck R' b') = XST_SUCCESS"
proof -
  obtain N where n: "n = int (Suc N)"
    using Create_success [OF cr] by (metis Suc_diff_1 int_nat_eq less_imp_le zero_less_nat_eq)
  have nn: "nat n = Suc N"
    using n by (simp only: nat_int)
  have at: "ring_at R' 0 0 0 0 (nat n)" and c: "bd_count R' = Suc N"
    using Create_at [OF cr small] n by auto
  then have g: "geom R'"
    by (simp add: ring_at_def)
  have f: "RunState R' = AXIDMA_CHANNEL_HALTED" "FirstBdPhysAddr R' = P" "Separation R' = A" "AllCnt R' = n"
     "FirstBdAddr R' = slot R' 0" "feed b' = feed b"
    by (rule Create_success [OF cr], simp add: slot_def)+
  have in_ring: "\<not> out_of_ring R' (slot R' i)" if "i < bd_count R'" for i
    using slot_le_Last [OF g that] by (auto simp: out_of_ring_def not_less)
  have "plain b' a" for a
    using pl f(6) by (simp add: plain_def)
  moreover have "cells b' (slot R' (0 + j)) = P + A + of_nat j * Separation R'" if "j < N" for j
    using Create_links [OF cr small, of j] that f(3) by (simp add: nn algebra_simps)
  ultimately obtain b'' where lk: "check_links N R' (slot R' 0) (P + A) b' = (Some (slot R' N), b'')"
    "cells b'' = cells b'" "feed b'' = feed b'"
    using check_links_ok [of b' N R' 0 "P + A"] f(3) by auto
  have "cells b'' (slot R' N) = P" "plain b'' (slot R' N)"
    using Create_links [OF cr small, of N] nn lk pl f(6) by (auto simp: plain_def)
  then show ?thesis
    using at in_ring c lk(1) f n
    by (auto simp: XAxiDma_BdRingCheck_def ring_at_def XAxiDma_BdRead_def bus_read_plain nat_diff_distrib)
qed

end
