(* ===== verification/BdRing_Props.thy ===== *)
theory BdRing_Props
  imports BdRing_Create
begin

section \<open>Properties of the descriptor ring\<close>

text \<open>
  The properties of the buffer-descriptor ring: what \<^verbatim>\<open>XAxiDma_BdRingFromHw\<close> returns, that the
  restart search ends, the interrupt-coalescing registers, and the refinement of the four-queue
  specification by every sequence of calls.
\<close>

subsection \<open>What the hardware has finished\<close>

definition bd_complete :: "(addr \<Rightarrow> u32) \<Rightarrow> addr \<Rightarrow> bool" where
  "bd_complete m a \<longleftrightarrow> m (a + XAXIDMA_BD_STS_OFFSET) AND XAXIDMA_BD_STS_COMPLETE_MASK \<noteq> 0"

definition bd_eof :: "bdring \<Rightarrow> (addr \<Rightarrow> u32) \<Rightarrow> addr \<Rightarrow> bool" where
  "bd_eof R m a \<longleftrightarrow>
     (if IsRxChannel R = 0 then m (a + XAXIDMA_BD_CTRL_LEN_OFFSET) AND XAXIDMA_BD_CTRL_TXEOF_MASK \<noteq> 0
      else m (a + XAXIDMA_BD_STS_OFFSET) AND XAXIDMA_BD_STS_RXEOF_MASK \<noteq> 0)"

text \<open>
  The completed descriptors at the front of the hardware group, at most \<open>lim\<close> of them, up to
  and including the last one that ends a packet.
\<close>

definition finished_packets :: "bdring \<Rightarrow> (addr \<Rightarrow> u32) \<Rightarrow> int \<Rightarrow> nat list" where
  "finished_packets R m lim =
     (let xs = takeWhile (\<lambda>i. bd_complete m (slot R i)) (take (nat lim) (hw (groups R)))
      in rev (dropWhile (\<lambda>i. \<not> bd_eof R m (slot R i)) (rev xs)))"

definition partial_count :: "bdring \<Rightarrow> (addr \<Rightarrow> u32) \<Rightarrow> int \<Rightarrow> nat list \<Rightarrow> int" where
  "partial_count R m = foldl (\<lambda>p i. if bd_eof R m (slot R i) then 0 else p + 1)"

lemma FromHw_loop_finished:
  assumes "geom R" "Cyclic R = 0" "\<And>a. plain b a" "k \<le> Suc m" "m < bd_count R"
    and "HwTail R = slot R ((s + m) mod bd_count R)"
  shows "\<exists>es. FromHw_loop k R (slot R (s mod bd_count R)) c pc b =
    (let xs = takeWhile (\<lambda>i. bd_complete (cells b) (slot R i)) (grp (bd_count R) s k)
     in (c + int (length xs), partial_count R (cells b) pc xs, b\<lparr>events := es\<rparr>))"
  using assms(3-6)
proof (induction k arbitrary: s c pc b m)
  case 0
  show ?case
    by (auto simp: grp_def partial_count_def intro!: exI [of _ "events b"])
next
  case (Suc k)
  let ?n = "bd_count R"
  let ?a = "slot R (s mod ?n)"
  define b1 where "b1 = b\<lparr>events := events b @ [Rd W32 (?a + XAXIDMA_BD_STS_OFFSET) (cells b (?a + XAXIDMA_BD_STS_OFFSET)),
      Rd W32 (?a + XAXIDMA_BD_CTRL_LEN_OFFSET) (cells b (?a + XAXIDMA_BD_CTRL_LEN_OFFSET))]\<rparr>"
  have pl: "plain b1 a" for a
    using Suc.prems(1) by (simp add: b1_def plain_def)
  have cb: "cells b1 = cells b" and ub: "b1\<lparr>events := es\<rparr> = b\<lparr>events := es\<rparr>" for es
    by (simp_all add: b1_def)
  have pe: "plain (b\<lparr>events := es\<rparr>) a" for es a
    using Suc.prems(1) by (simp add: plain_def)
  let ?pc = "if bd_eof R (cells b) ?a then 0 else pc + 1"
  have step: "FromHw_loop (Suc k) R ?a c pc b =
    (if \<not> bd_complete (cells b) ?a then (c, pc, b1)
     else if ?a = HwTail R then (c + 1, ?pc, b1)
     else FromHw_loop k R (slot R (Suc s mod ?n)) (c + 1) ?pc b1)"
    using Suc.prems(1) pe
    by (simp add: XAxiDma_BdRead_def bus_read_plain Let_def bd_complete_def bd_eof_def assms(2)
        Next_at [OF assms(1)] flip: b1_def)
  show ?case
  proof (cases "bd_complete (cells b) ?a")
    case False
    then show ?thesis
      unfolding step by (auto simp: grp_Cons partial_count_def b1_def Let_def)
  next
    case True
    show ?thesis
    proof (cases m)
      case 0
      then have "k = 0" "?a = HwTail R"
        using Suc.prems by auto
      then show ?thesis
        unfolding step using True by (auto simp: grp_Cons grp_def partial_count_def b1_def Let_def)
    next
      case (Suc m')
      have "(s + m) mod ?n \<noteq> s mod ?n"
        using Suc Suc.prems(3) by (auto simp: mod_eq_dvd_iff_nat dest: nat_dvd_not_less [rotated])
      then have ne: "?a \<noteq> HwTail R"
        using slot_inj [OF assms(1)] geomD(1) [OF assms(1)] Suc.prems(4) by force
      have "k \<le> Suc m'" "m' < ?n" "HwTail R = slot R ((Suc s + m') mod ?n)"
        using Suc Suc.prems by auto
      then obtain es where "FromHw_loop k R (slot R (Suc s mod ?n)) (c + 1) ?pc b1 =
        (let xs = takeWhile (\<lambda>i. bd_complete (cells b) (slot R i)) (grp ?n (Suc s) k)
         in (c + 1 + int (length xs), partial_count R (cells b) ?pc xs, b\<lparr>events := es\<rparr>))"
        using Suc.IH [OF pl, of m' "Suc s" "c + 1" ?pc] unfolding cb ub by blast
      then show ?thesis
        unfolding step using True ne by (auto simp: grp_Cons partial_count_def Let_def)
    qed
  qed
qed

lemma partial_count_rev:
  "int (length xs) - partial_count R m 0 xs = int (length (dropWhile (\<lambda>i. \<not> bd_eof R m (slot R i)) (rev xs)))"
  by (induction xs rule: rev_induct) (auto simp: partial_count_def)

lemma rev_dropWhile_rev: "rev (dropWhile P (rev ys)) = take (length (dropWhile P (rev ys))) ys"
proof -
  have "ys = rev (dropWhile P (rev ys)) @ rev (takeWhile P (rev ys))"
    by (simp flip: rev_append)
  then show ?thesis
    by (metis append_eq_conv_conj length_rev)
qed

lemma finished_packets_take:
  "finished_packets R m lim = take (length (finished_packets R m lim)) (hw (groups R))"
proof -
  define xs where "xs = hw (groups R)"
  define ys where "ys = takeWhile (\<lambda>i. bd_complete m (slot R i)) (take (nat lim) xs)"
  define F where "F = finished_packets R m lim"
  have F: "F = rev (dropWhile (\<lambda>i. \<not> bd_eof R m (slot R i)) (rev ys))"
    by (simp add: F_def ys_def xs_def finished_packets_def)
  have len: "length F \<le> length ys" "length ys \<le> nat lim"
    using length_dropWhile_le [of _ "rev ys"] length_takeWhile_le [of _ "take (nat lim) xs"]
    by (auto simp: F ys_def)
  have "F = take (length F) ys"
    unfolding F length_rev by (rule rev_dropWhile_rev)
  moreover have "ys = take (length ys) (take (nat lim) xs)"
    unfolding ys_def by (rule takeWhile_eq_take)
  ultimately have "F = take (length F) (take (length ys) (take (nat lim) xs))"
    by simp
  then show ?thesis
    using len by (simp add: F_def [symmetric] xs_def [symmetric])
qed

lemma FromHw_finished:
  assumes inv: "ring_inv R" and pl: "\<And>a. plain b a"
    and fh: "XAxiDma_BdRingFromHw R lim b = (c, bd, R', b')"
  shows "c = int (length (finished_packets R (cells b) lim))"
proof -
  let ?n = "bd_count R" and ?h = "nat (HwCnt R)" and ?s = "slot_of R (PostHead R) + nat (PostCnt R)"
  note at = ring_atI [OF inv]
  show ?thesis
  proof (cases "HwCnt R = 0")
    case True
    then show ?thesis
      using fh by (simp add: XAxiDma_BdRingFromHw_def finished_packets_def groups_def grp_def Let_def)
  next
    case False
    then have pos: "0 < ?h"
      using inv by (auto simp: ring_inv_def Let_def)
    then have "?s + (?h - 1) = slot_of R (PostHead R) + nat (PostCnt R) + ?h - 1"
      by simp
    then have h: "?h \<le> ?n" "geom R" "Cyclic R = 0" "HwHead R = slot R (?s mod ?n)"
      "HwTail R = slot R ((?s + (?h - 1)) mod ?n)"
      using at pos unfolding ring_at_def by (simp_all only:, linarith?)
    define L where "L = (if lim > HwCnt R then HwCnt R else lim)"
    define xs where "xs = takeWhile (\<lambda>i. bd_complete (cells b) (slot R i)) (grp ?n ?s (nat L))"
    have "nat L \<le> Suc (?h - 1)" "?h - 1 < ?n"
      using h(1) pos by (auto simp: L_def)
    then obtain es where "FromHw_loop (nat L) R (HwHead R) 0 0 b =
        (int (length xs), partial_count R (cells b) 0 xs, b\<lparr>events := es\<rparr>)"
      using FromHw_loop_finished [OF h(2,3) pl _ _ h(5), of "nat L" 0 0] h(4) by (auto simp: xs_def Let_def)
    then have "c = int (length xs) - partial_count R (cells b) 0 xs"
      using fh False h(3) by (auto simp: XAxiDma_BdRingFromHw_def Let_def simp flip: L_def split: if_splits)
    moreover have "grp ?n ?s (nat L) = take (nat lim) (hw (groups R))"
      by (auto simp: ring_at_inv(2) [OF at] take_grp L_def min_def)
    ultimately show ?thesis
      unfolding partial_count_rev by (simp add: finished_packets_def xs_def)
  qed
qed

subsection \<open>The restart search\<close>

lemma cdesc_search_ends:
  assumes g: "geom R" and r: "BdaRestart R = slot R (r mod bd_count R)"
  shows "j < bd_count R \<Longrightarrow> bd_count R - j \<le> k \<Longrightarrow>
    \<exists>st b'. cdesc_search k R (slot R ((r + j) mod bd_count R)) b = Some (st, b') \<and>
      st \<in> {XST_SUCCESS, XST_DMA_ERROR}"
proof (induction k arbitrary: j b)
  case (Suc k)
  have nx: "XAxiDma_BdRingNext R (slot R ((r + j) mod bd_count R)) = slot R ((r + Suc j) mod bd_count R)"
    using Next_at [OF g] by simp
  show ?case
  proof (cases "Suc j < bd_count R")
    case True
    then have "bd_count R - Suc j \<le> k"
      using Suc.prems by simp
    from Suc.IH [OF True this] show ?thesis
      by (auto simp: Let_def nx split: prod.splits)
  next
    case False
    then have "slot R ((r + Suc j) mod bd_count R) = BdaRestart R"
      using Suc.prems(1) r by (metis Suc_lessI mod_add_self2)
    then show ?thesis
      by (auto simp: Let_def nx split: prod.splits)
  qed
qed auto

subsection \<open>Interrupt coalescing\<close>

lemma coalesce_fields:
  assumes "Counter \<le> (0xFF :: u32)" "Timer \<le> 0xFF"
    and Cr': "Cr' = ((Cr AND NOT 0x00FF0000 OR push_bit 16 Counter) AND NOT 0xFF000000) OR push_bit 24 Timer"
  shows "drop_bit 16 (Cr' AND 0x00FF0000) = Counter" and "drop_bit 24 (Cr' AND 0xFF000000) = Timer"
    and "Cr' AND 0xFFFF = Cr AND 0xFFFF"
proof -
  have m: "(0x00FF0000 :: u32) = push_bit 16 (mask 8)" "(0xFF000000 :: u32) = push_bit 24 (mask 8)" "(0xFFFF :: u32) = mask 16"
    by (simp_all add: mask_eq_exp_minus_1 push_bit_eq_mult)
  have hi: "i < 8" if "x \<le> 0xFF" "bit x i" for x :: u32 and i
    using that bit_beyond [of x 8 i] by (cases "8 \<le> i") (simp_all add: word_le_nat_alt)
  note hi' = hi [OF assms(1)] hi [OF assms(2)]
  show "drop_bit 16 (Cr' AND 0x00FF0000) = Counter"
    unfolding Cr' m by (rule bit_word_eqI) (auto simp: bit_simps dest: hi')
  show "drop_bit 24 (Cr' AND 0xFF000000) = Timer"
    unfolding Cr' m by (rule bit_word_eqI) (auto simp: bit_simps dest: hi')
  show "Cr' AND 0xFFFF = Cr AND 0xFFFF"
    unfolding Cr' m by (rule bit_word_eqI) (auto simp: bit_simps dest: hi')
qed

subsection \<open>The properties\<close>

text \<open>A ring to evaluate the properties on: the control structure and a memory of zeros.\<close>

definition demo_ring :: bdring where
  "demo_ring = \<lparr>ChanBase = 0x40400000, IsRxChannel = 0, RunState = 0, HasStsCntrlStrm = 0, HasDRE = 0,
     DataWidth = 4, Addr_ext = 0, MaxTransferLen = 0x3FFF, FirstBdPhysAddr = 0, FirstBdAddr = 0,
     LastBdAddr = 0, Length = 0, Separation = 0, FreeHead = 0, PreHead = 0, HwHead = 0, HwTail = 0,
     PostHead = 0, BdaRestart = 0, CyclicBd = 0, FreeCnt = 0, PreCnt = 0, HwCnt = 0, PostCnt = 0,
     AllCnt = 0, RingIndex = 0, Cyclic = 0\<rparr>"

definition demo_mem :: bus where
  "demo_mem = \<lparr>cells = (\<lambda>_. 0), feed = (\<lambda>_. []), events = []\<rparr>"

abbreviation demo_created :: "int \<times> bdring \<times> bus" where
  "demo_created \<equiv> XAxiDma_BdRingCreate 0 demo_ring 0x1000 0x1000 64 4 demo_mem"

lemma demo_created: "demo_created = (XST_SUCCESS, fst (snd demo_created), snd (snd demo_created))"
  by (auto simp: XAxiDma_BdRingCreate_def Let_def split: prod.splits)

lemma demo_plain: "plain demo_mem a"
  by (simp add: demo_mem_def plain_def)

lemma demo_created_ring: "fst (snd demo_created) = demo_ring\<lparr>RunState := 2, FirstBdPhysAddr := 0x1000,
    FirstBdAddr := 0x1000, LastBdAddr := 0x10C0, Length := 0x100, Separation := 64, FreeHead := 0x1000,
    PreHead := 0x1000, HwHead := 0x1000, HwTail := 0x1000, PostHead := 0x1000, BdaRestart := 0x1000,
    FreeCnt := 4, AllCnt := 4\<rparr>"
  by (rule Create_success [OF demo_created]) (simp add: demo_ring_def)

text \<open>Calls on this ring: everything is allocated, one more is refused, the last one goes back.\<close>

definition demo_calls :: "ring_event list" where
  "demo_calls = [Ev_Alloc 3 0 (Some 0x1000), Ev_Alloc 1 0 (Some 0x10C0), Ev_Alloc 1 1 None,
     Ev_UnAlloc 1 0x10C0 0, Ev_Alloc 1 0 (Some 0x10C0)]"

lemma demo_trace: "\<exists>t. trace ring_do (fst (snd demo_created), snd (snd demo_created)) demo_calls t"
  unfolding demo_created_ring demo_calls_def
  by (rule exI, (rule trace_cons, rule do_alloc do_unalloc,
    simp add: XAxiDma_BdRingAlloc_def XAxiDma_BdRingUnAlloc_def XAXIDMA_RING_SEEKAHEAD_def
      XAXIDMA_RING_SEEKBACK_def demo_ring_def Let_def)+, rule trace_nil)

text \<open>
  C1.  The ring refines its specification, call by call.  From a ring of \<open>n\<close> descriptors that
  \<^verbatim>\<open>XAxiDma_BdRingCreate\<close> has set up at address \<open>V\<close> with alignment \<open>A\<close>, every sequence of \<^verbatim>\<open>Alloc\<close>,
  \<^verbatim>\<open>UnAlloc\<close>, \<^verbatim>\<open>ToHw\<close>, \<^verbatim>\<open>FromHw\<close>, \<^verbatim>\<open>Free\<close> and \<^verbatim>\<open>Start\<close> calls, with whatever arguments and whatever the
  hardware writes into the descriptors, together with the status and the pointer each call
  returns, is a sequence of steps of four queues of slots that starts with every slot free and
  ends in the groups of the ring.  In it an allocation succeeds exactly when enough descriptors
  are free and returns the address of the first of them, \<^verbatim>\<open>ToHw\<close>, \<^verbatim>\<open>Free\<close> and \<^verbatim>\<open>UnAlloc\<close> succeed only
  for the descriptors at the front (for \<^verbatim>\<open>UnAlloc\<close> the end) of their queue, \<^verbatim>\<open>FromHw\<close> returns the
  address of the first descriptor of the hardware, and a refused call changes no queue.
\<close>

theorem ring_refines_queues:
  assumes "XAxiDma_BdRingCreate m R0 P V A n b0 = (XST_SUCCESS, R1, b1)"
    and "nat n * unat A < 2 ^ 32" and "trace ring_do (R1, b1) es (R, b)"
  shows "trace (queue_step (\<lambda>i. V + of_nat i * A))
    \<lparr>post = [], hw = [], pre = [], free = [0..<nat n]\<rparr> es (groups R)"
  using ring.trace_queue [OF assms(3)] Create_inv [OF assms(1,2)] Create_slots [OF assms(1)] by simp

theorem ring_refines_queues_witness:
  "\<exists>G. trace (queue_step (\<lambda>i. 0x1000 + of_nat i * 64))
    \<lparr>post = [], hw = [], pre = [], free = [0..<4]\<rparr> demo_calls G"
proof -
  obtain R b where "trace ring_do (fst (snd demo_created), snd (snd demo_created)) demo_calls (R, b)"
    using demo_trace by auto
  then show ?thesis
    using ring_refines_queues [OF demo_created] by auto
qed

text \<open>
  C6.  No descriptor is lost or owned twice, as far as a client can see.  The owner of every
  descriptor of a created ring (free, preprocessing, hardware, postprocessing) is computed from
  the calls and their results alone: a successful call moves the descriptors one gets by walking
  the ring with \<^verbatim>\<open>XAxiDma_BdRingNext\<close> from its pointer.  For every sequence of calls, in which
  \<^verbatim>\<open>UnAlloc\<close> is given pointers to descriptors of the ring, each successful call moves as many
  different descriptors of the ring as it says, all of them with the owner it takes them from: an
  allocation hands out only descriptors that nobody holds, the hardware returns only what was
  handed to it, and only finished descriptors are freed.  An allocation of a positive number is
  refused only when fewer descriptors are free.
\<close>

theorem ring_ownership:
  assumes "XAxiDma_BdRingCreate m R0 P V A n b0 = (XST_SUCCESS, R1, b1)"
    and "nat n * unat A < 2 ^ 32" and "trace ring_do (R1, b1) es (R, b)"
    and "D = (\<lambda>i. V + of_nat i * A) ` {..<nat n}"
    and "\<forall>k bd st. Ev_UnAlloc k bd st \<in> set es \<longrightarrow> bd \<in> D"
  shows "all_respect (bd_walk R1) D (\<lambda>_. In_Free) es"
proof -
  have i: "ring_inv R1" and s: "slot R1 = (\<lambda>i. V + of_nat i * A)" and c: "bd_count R1 = nat n"
    and g: "free (groups R1) = [0..<nat n]"
    using Create_inv [OF assms(1,2)] Create_slots [OF assms(1)] Create_at(2) [OF assms(1,2)] by simp_all
  have "ring.owners (R1, b1) (\<lambda>_. In_Free)"
    using g c by (simp add: ring.owners_def owner_in_def)
  moreover have "\<forall>e \<in> set es. ring_pointers D e"
    using assms(5) by (auto simp: ring_pointers_def)
  ultimately show ?thesis
    using ring.trace_owners [OF assms(3)] i assms(4) by (simp add: s c)
qed

theorem ring_ownership_witness:
  "all_respect (bd_walk (fst (snd demo_created))) ((\<lambda>i. 0x1000 + of_nat i * 64) ` {..<4}) (\<lambda>_. In_Free) demo_calls"
proof -
  obtain R b where t: "trace ring_do (fst (snd demo_created), snd (snd demo_created)) demo_calls (R, b)"
    using demo_trace by auto
  have "\<forall>k bd st. Ev_UnAlloc k bd st \<in> set demo_calls \<longrightarrow> bd \<in> (\<lambda>i. 0x1000 + of_nat i * 64 :: addr) ` {..<nat 4}"
    by (auto simp: demo_calls_def intro: image_eqI [of _ _ 3])
  then show ?thesis
    using ring_ownership [OF demo_created _ t refl] by simp
qed

text \<open>
  C7.  \<^verbatim>\<open>XAxiDma_BdRingFromHw\<close> hands back whole packets only.  With descriptors that do not change
  during the call it returns exactly the longest run at the front of the hardware group, within
  the limit the caller gives, in which every descriptor is completed and the last one ends a
  packet; those descriptors move to the end of the postprocessing group in order, and a
  completed but unfinished packet stays with the hardware.
\<close>

theorem from_hw_whole_packets:
  assumes "ring_inv R" and "\<And>a. plain b a"
    and "XAxiDma_BdRingFromHw R lim b = (c, bd, R', b')"
  shows "let F = finished_packets R (cells b) lim in
    c = int (length F) \<and> hw (groups R) = F @ hw (groups R') \<and>
    post (groups R') = post (groups R) @ F \<and> pre (groups R') = pre (groups R) \<and>
    free (groups R') = free (groups R) \<and> (c \<noteq> 0 \<longrightarrow> bd = slot R (hd F))"
proof -
  define F where "F = finished_packets R (cells b) lim"
  let ?n = "bd_count R" and ?p = "slot_of R (PostHead R)" and ?po = "nat (PostCnt R)" and ?h = "nat (HwCnt R)"
  note at = ring_atI [OF assms(1)]
  have c: "c = int (length F)" "nat c = length F"
    using FromHw_finished [OF assms] by (simp_all add: F_def)
  have le: "length F \<le> ?h" and bd: "0 < c \<Longrightarrow> bd = HwHead R"
    and at': "ring_at R' ?p (?po + length F) (?h - length F) (nat (PreCnt R)) (nat (FreeCnt R))"
    using FromHw_at [OF at assms(3)] c by auto
  have n: "bd_count R' = ?n"
    using FromHw_refines [OF assms(1,3)] same_blockD(2) by (simp add: refines_def)
  have F: "F = grp ?n (?p + ?po) (length F)"
    using finished_packets_take [of R "cells b" lim] le
    by (simp add: F_def [symmetric] ring_at_inv(2) [OF at] take_grp min_absorb1)
  have "hd F = (?p + ?po) mod ?n" if "F \<noteq> []"
    using F that by (metis grp_Cons length_0_conv list.sel(1) not0_implies_Suc)
  then have "c \<noteq> 0 \<longrightarrow> bd = slot R (hd F)"
    using bd c at by (auto simp: ring_at_def)
  moreover have "groups R' = ringG ?n ?p (?po + length F) (?h - length F) (nat (PreCnt R)) (nat (FreeCnt R))"
    using ring_at_inv(2) [OF at'] n by simp
  moreover have "grp ?n (?p + ?po) ?h = F @ grp ?n (?p + ?po + length F) (?h - length F)"
    using grp_split [OF le] F by metis
  ultimately show ?thesis
    unfolding F_def [symmetric] Let_def
    using c F le by (simp add: ring_at_inv(2) [OF at] grp_add add.assoc)
qed

text \<open>
  Three descriptors with the hardware: the first is completed and ends a packet, the second is
  completed and does not, the third is not completed.
\<close>

definition demo_busy :: bdring where
  "demo_busy = demo_ring\<lparr>RunState := 1, FirstBdPhysAddr := 0x1000, FirstBdAddr := 0x1000,
     LastBdAddr := 0x10C0, Length := 0x100, Separation := 64, FreeHead := 0x10C0, PreHead := 0x10C0,
     HwHead := 0x1000, HwTail := 0x1080, PostHead := 0x1000, BdaRestart := 0x1000,
     FreeCnt := 1, HwCnt := 3, AllCnt := 4\<rparr>"

definition demo_done :: bus where
  "demo_done = demo_mem\<lparr>cells := (\<lambda>_. 0)(0x101C := 0x80000000, 0x1018 := 0x04000000, 0x105C := 0x80000000)\<rparr>"

lemma demo_busy_inv: "ring_inv demo_busy"
  by (simp add: ring_inv_def Let_def geom_def bd_count_def slot_def slot_of_def demo_busy_def demo_ring_def)

lemma demo_finished: "finished_packets demo_busy (cells demo_done) 8 = [0]"
  by code_simp

theorem from_hw_whole_packets_witness:
  "fst (XAxiDma_BdRingFromHw demo_busy 8 demo_done) = 1 \<and>
   hw (groups (fst (snd (snd (XAxiDma_BdRingFromHw demo_busy 8 demo_done))))) = [1, 2]"
proof -
  obtain c bd R' b' where fh: "XAxiDma_BdRingFromHw demo_busy 8 demo_done = (c, bd, R', b')"
    by (metis prod_cases4)
  have pl: "plain demo_done a" for a
    by (simp add: demo_done_def demo_mem_def plain_def)
  have "hw (groups demo_busy) = [0, 1, 2]"
    by code_simp
  with from_hw_whole_packets [OF demo_busy_inv pl fh] fh show ?thesis
    by (simp add: demo_finished Let_def)
qed

text \<open>
  A ring that \<^verbatim>\<open>XAxiDma_BdRingCreate\<close> has set up passes \<^verbatim>\<open>XAxiDma_BdRingCheck\<close>: all heads lie
  in the ring, the counters agree, and the descriptors in memory are linked into a cycle.
\<close>

theorem create_passes_check:
  assumes "XAxiDma_BdRingCreate m R P V A n b = (XST_SUCCESS, R', b')"
    and "nat n * unat A < 2 ^ 32" and "\<And>a. plain b a"
  shows "fst (XAxiDma_BdRingCheck R' b') = XST_SUCCESS"
  by (rule Check_created [OF assms])

theorem create_passes_check_witness:
  "fst (XAxiDma_BdRingCheck (fst (snd demo_created)) (snd (snd demo_created))) = XST_SUCCESS"
  using create_passes_check [OF demo_created _ demo_plain] by simp

text \<open>
   \<^verbatim>\<open>XAxiDma_UpdateBdRingCDesc\<close> returns, whatever the hardware reports on each status read:
  the search for a descriptor to restart from visits no more descriptors than the ring has, when
  it starts on one of them.
\<close>

theorem update_cdesc_returns:
  assumes "geom R" and "i < bd_count R" and "BdaRestart R = slot R i"
  shows "\<exists>st b'. XAxiDma_UpdateBdRingCDesc R b = Some (st, b') \<and>
    st \<in> {XST_SUCCESS, XST_DMA_ERROR}"
proof -
  have c: "nat (AllCnt R) = bd_count R" and "AllCnt R \<noteq> 0"
    using geomD(1) [OF assms(1)] by (auto simp: bd_count_def)
  moreover have "\<exists>st b'. cdesc_search (bd_count R) R (slot R i) b = Some (st, b') \<and>
      st \<in> {XST_SUCCESS, XST_DMA_ERROR}" for b
    using cdesc_search_ends [OF assms(1), of i 0] geomD(1) [OF assms(1)] assms(2,3) by simp
  ultimately show ?thesis
    by (auto simp: XAxiDma_UpdateBdRingCDesc_def Let_def assms(3) split: prod.splits)
qed

theorem update_cdesc_returns_witness:
  "\<exists>st b'. XAxiDma_UpdateBdRingCDesc (demo_busy\<lparr>RunState := 2\<rparr>) demo_done = Some (st, b') \<and>
    st \<in> {XST_SUCCESS, XST_DMA_ERROR}"
proof -
  have "geom (demo_busy\<lparr>RunState := 2\<rparr>)" "BdaRestart (demo_busy\<lparr>RunState := 2\<rparr>) = slot (demo_busy\<lparr>RunState := 2\<rparr>) 0"
    by (simp_all add: geom_def bd_count_def slot_def demo_busy_def)
  then show ?thesis
    by (intro update_cdesc_returns [of _ 0]) (simp_all add: bd_count_def demo_busy_def)
qed

text \<open>
  Round trip of the interrupt-coalescing settings: on a control register that is plain
  storage, the counter (1 to 255) and timer (0 to 255) that \<^verbatim>\<open>XAxiDma_BdRingSetCoalesce\<close> stores are
  those \<^verbatim>\<open>XAxiDma_BdRingGetCoalesce\<close> returns, the low half of the control register is kept, and
  values out of range are refused without a write.
\<close>

theorem coalesce_roundtrip:
  assumes "plain b (ChanBase R)" and "Counter \<noteq> XAXIDMA_NO_CHANGE" and "Timer \<noteq> XAXIDMA_NO_CHANGE"
    and "XAxiDma_BdRingSetCoalesce R Counter Timer b = (st, b')"
  shows "if 0 < Counter \<and> Counter \<le> 0xFF \<and> Timer \<le> 0xFF
    then st = XST_SUCCESS \<and> fst (XAxiDma_BdRingGetCoalesce R b') = (Counter, Timer) \<and>
         cells b' (ChanBase R) AND 0xFFFF = cells b (ChanBase R) AND 0xFFFF
    else st = XST_FAILURE \<and> cells b' = cells b"
proof -
  define b1 where "b1 = b\<lparr>events := events b @ [Rd W32 (ChanBase R) (cells b (ChanBase R))]\<rparr>"
  define Cr' where "Cr' = ((cells b (ChanBase R) AND NOT 0x00FF0000 OR push_bit 16 Counter) AND NOT 0xFF000000)
    OR push_bit 24 Timer"
  have set: "XAxiDma_BdRingSetCoalesce R Counter Timer b =
    (if Counter = 0 \<or> 0xFF < Counter then (XST_FAILURE, b1)
     else if 0xFF < Timer then (XST_FAILURE, b1) else (XST_SUCCESS, bus_write W32 (ChanBase R) Cr' b1))"
    using assms(1-3)
    by (simp add: XAxiDma_BdRingSetCoalesce_def XAxiDma_ReadReg_def XAxiDma_WriteReg_def bus_read_plain
        Let_def Cr'_def flip: b1_def)
  show ?thesis
  proof (cases "0 < Counter \<and> Counter \<le> 0xFF \<and> Timer \<le> 0xFF")
    case True
    then have "st = XST_SUCCESS" "b' = bus_write W32 (ChanBase R) Cr' b1"
      using assms(4) unfolding set by (auto simp: not_less [symmetric] split: if_splits)
    moreover have "plain (bus_write W32 (ChanBase R) Cr' b1) (ChanBase R)"
      using assms(1) by (simp add: b1_def plain_def)
    ultimately show ?thesis
      using True coalesce_fields [of Counter Timer, OF _ _ Cr'_def]
      by (simp add: XAxiDma_BdRingGetCoalesce_def XAxiDma_ReadReg_def bus_read_plain)
  next
    case False
    then show ?thesis
      using assms(4) unfolding set by (auto simp: b1_def word_neq_0_conv not_le split: if_splits)
  qed
qed

theorem coalesce_roundtrip_witness:
  "fst (XAxiDma_BdRingGetCoalesce demo_ring (snd (XAxiDma_BdRingSetCoalesce demo_ring 4 20 demo_mem))) = (4, 20)"
proof -
  obtain st b' where sc: "XAxiDma_BdRingSetCoalesce demo_ring 4 20 demo_mem = (st, b')"
    by fastforce
  then show ?thesis
    using coalesce_roundtrip [OF demo_plain _ _ sc] by simp
qed

end
