(* ===== verification/AxiDma.thy ===== *)
theory AxiDma
  imports BdRing_Props
begin

section \<open>The DMA engine (bsp/xilinx/axidma/xaxidma.c)\<close>

text \<open>
  The driver of the DMA engine above its descriptor rings: initialisation and reset, start, pause and resume, transfers
  without descriptors, and the interrupt macros of \<^verbatim>\<open>xaxidma.h\<close>; the self-test and the configuration lookup of
  \<^verbatim>\<open>xaxidma_selftest.c\<close> and \<^verbatim>\<open>xaxidma_sinit.c\<close>.  The instance holds one transmit ring and an array of 16 receive
  rings; an index outside of the array is \<open>None\<close>, and so is a ring start whose search does not end.  Messages are left
  out.
\<close>

subsection \<open>Instance and configuration\<close>

record XAxiDma =
  RegBase :: addr
  HasMm2S :: int
  HasS2Mm :: int
  Initialized :: int
  HasSg :: int
  TxBdRing :: bdring
  RxBdRing :: "bdring list"
  TxNumChannels :: int
  RxNumChannels :: int
  MicroDmaMode :: int
  AddrWidth :: int

record XAxiDma_Config =
  CfgDeviceId :: u32
  CfgBaseAddr :: addr
  CfgHasStsCntrlStrm :: int
  CfgHasMm2S :: int
  CfgHasMm2SDRE :: int
  Mm2SDataWidth :: int
  CfgHasS2Mm :: int
  CfgHasS2MmDRE :: int
  S2MmDataWidth :: int
  CfgHasSg :: int
  Mm2sNumChannels :: int
  S2MmNumChannels :: int
  Mm2SBurstSize :: int
  S2MmBurstSize :: int
  CfgMicroDmaMode :: int
  CfgAddrWidth :: int
  SgLengthWidth :: int

abbreviation (input) XST_NOT_SGDMA :: int where "XST_NOT_SGDMA \<equiv> 16"
abbreviation (input) XAXIDMA_TX_OFFSET :: addr where "XAXIDMA_TX_OFFSET \<equiv> 0x0"
abbreviation (input) XAXIDMA_RX_OFFSET :: addr where "XAXIDMA_RX_OFFSET \<equiv> 0x30"
abbreviation (input) XAXIDMA_SRCADDR_OFFSET :: addr where "XAXIDMA_SRCADDR_OFFSET \<equiv> 0x18"
abbreviation (input) XAXIDMA_SRCADDR_MSB_OFFSET :: addr where "XAXIDMA_SRCADDR_MSB_OFFSET \<equiv> 0x1C"
abbreviation (input) XAXIDMA_BUFFLEN_OFFSET :: addr where "XAXIDMA_BUFFLEN_OFFSET \<equiv> 0x28"
abbreviation (input) XAXIDMA_CR_RESET_MASK :: u32 where "XAXIDMA_CR_RESET_MASK \<equiv> 0x4"
abbreviation (input) XAXIDMA_CR_KEYHOLE_MASK :: u32 where "XAXIDMA_CR_KEYHOLE_MASK \<equiv> 0x8"
abbreviation (input) XAXIDMA_CR_CYCLIC_MASK :: u32 where "XAXIDMA_CR_CYCLIC_MASK \<equiv> 0x10"
abbreviation (input) XAXIDMA_IDLE_MASK :: u32 where "XAXIDMA_IDLE_MASK \<equiv> 0x2"
abbreviation (input) XAXIDMA_IRQ_ALL_MASK :: u32 where "XAXIDMA_IRQ_ALL_MASK \<equiv> 0x7000"
abbreviation (input) XAXIDMA_MCHAN_MAX_TRANSFER_LEN :: u32 where "XAXIDMA_MCHAN_MAX_TRANSFER_LEN \<equiv> 0xFFFF"

definition XAXIDMA_RESET_TIMEOUT :: nat where
  "XAXIDMA_RESET_TIMEOUT = 500"

text \<open>What \<^verbatim>\<open>memset\<close> leaves of the instance.\<close>

definition zero_ring :: bdring where
  "zero_ring = \<lparr>ChanBase = 0, IsRxChannel = 0, RunState = 0, HasStsCntrlStrm = 0, HasDRE = 0, DataWidth = 0, Addr_ext = 0,
     MaxTransferLen = 0, FirstBdPhysAddr = 0, FirstBdAddr = 0, LastBdAddr = 0, Length = 0, Separation = 0, FreeHead = 0,
     PreHead = 0, HwHead = 0, HwTail = 0, PostHead = 0, BdaRestart = 0, CyclicBd = 0, FreeCnt = 0, PreCnt = 0, HwCnt = 0,
     PostCnt = 0, AllCnt = 0, RingIndex = 0, Cyclic = 0\<rparr>"

definition zero_dma :: XAxiDma where
  "zero_dma = \<lparr>RegBase = 0, HasMm2S = 0, HasS2Mm = 0, Initialized = 0, HasSg = 0, TxBdRing = zero_ring,
     RxBdRing = replicate 16 zero_ring, TxNumChannels = 0, RxNumChannels = 0, MicroDmaMode = 0, AddrWidth = 0\<rparr>"

subsection \<open>The receive rings\<close>

definition XAxiDma_GetRxIndexRing :: "XAxiDma \<Rightarrow> nat \<Rightarrow> bdring option" where
  "XAxiDma_GetRxIndexRing d i = (if i < length (RxBdRing d) then Some (RxBdRing d ! i) else None)"

definition XAxiDma_GetRxRing :: "XAxiDma \<Rightarrow> bdring" where
  "XAxiDma_GetRxRing d = RxBdRing d ! 0"

text \<open>
  The loops over the receive rings.  The body gets the index, the ring and the bus; besides the ring and the bus it yields
  the value of a \<^verbatim>\<open>return\<close> in the loop, or \<open>None\<close> to go on.
\<close>

fun for_rx :: "(nat \<Rightarrow> bdring \<Rightarrow> bus \<Rightarrow> (int option \<times> bdring \<times> bus) option) \<Rightarrow> nat list \<Rightarrow> XAxiDma \<Rightarrow> bus
    \<Rightarrow> (int option \<times> XAxiDma \<times> bus) option" where
  "for_rx body [] d b = Some (None, d, b)"
| "for_rx body (i # is) d b = do {
     R \<leftarrow> XAxiDma_GetRxIndexRing d i;
     (ret, R, b) \<leftarrow> body i R b;
     let d = d\<lparr>RxBdRing := (RxBdRing d)[i := R]\<rparr>;
     if ret = None then for_rx body is d b else Some (ret, d, b)}"

definition rx_rings :: "XAxiDma \<Rightarrow> nat list" where
  "rx_rings d = [0..<nat (RxNumChannels d)]"

subsection \<open>Reset and initialisation\<close>

definition XAxiDma_BdRingSnapShotCurrBd :: "bdring \<Rightarrow> bus \<Rightarrow> bdring \<times> bus" where
  "XAxiDma_BdRingSnapShotCurrBd R b =
     (let (v, b) = XAxiDma_ReadReg (ChanBase R)
            (if IsRxChannel R = 0 \<or> RingIndex R = 0 then XAXIDMA_CDESC_OFFSET
             else XAXIDMA_RX_CDESC0_OFFSET + of_int ((RingIndex R - 1) * XAXIDMA_RX_NDESC_OFFSET)) b
      in (R\<lparr>BdaRestart := v\<rparr>, b))"

definition XAxiDma_Reset :: "XAxiDma \<Rightarrow> bus \<Rightarrow> (XAxiDma \<times> bus) option" where
  "XAxiDma_Reset d b = do {
     (d, b) \<leftarrow>
       (if HasMm2S d \<noteq> 0 \<and> HasSg d \<noteq> 0 then do {
          let (R, b) = XAxiDma_BdRingSnapShotCurrBd (TxBdRing d) b;
          (_, d, b) \<leftarrow> for_rx (\<lambda>_ R b. let (R, b) = XAxiDma_BdRingSnapShotCurrBd R b in Some (None, R, b)) (rx_rings d)
            (d\<lparr>TxBdRing := R\<rparr>) b;
          Some (d, b)}
        else Some (d, b));
     let b = XAxiDma_WriteReg (RegBase d + (if HasMm2S d \<noteq> 0 then XAXIDMA_TX_OFFSET else XAXIDMA_RX_OFFSET))
       XAXIDMA_CR_OFFSET XAXIDMA_CR_RESET_MASK b;
     let d = (if HasMm2S d \<noteq> 0 then d\<lparr>TxBdRing := (TxBdRing d)\<lparr>RunState := AXIDMA_CHANNEL_HALTED\<rparr>\<rparr> else d);
     (_, d, b) \<leftarrow>
       (if HasS2Mm d \<noteq> 0
        then for_rx (\<lambda>_ R b. Some (None, R\<lparr>RunState := AXIDMA_CHANNEL_HALTED\<rparr>, b)) (rx_rings d) d b
        else Some (None, d, b));
     Some (d, b)}"

text \<open>A channel that is present is out of reset when the reset bit of its control register reads 0.\<close>

definition channel_reset :: "bool \<Rightarrow> bdring \<Rightarrow> bus \<Rightarrow> bool \<times> bus" where
  "channel_reset present R b =
     (if present then
        let (RegisterValue, b) = XAxiDma_ReadReg (ChanBase R) XAXIDMA_CR_OFFSET b
        in (RegisterValue AND XAXIDMA_CR_RESET_MASK = 0, b)
      else (True, b))"

definition XAxiDma_ResetIsDone :: "XAxiDma \<Rightarrow> bus \<Rightarrow> bool \<times> bus" where
  "XAxiDma_ResetIsDone d b =
     (let (ok, b) = channel_reset (HasMm2S d \<noteq> 0) (TxBdRing d) b
      in if \<not> ok then (False, b) else channel_reset (HasS2Mm d \<noteq> 0) (XAxiDma_GetRxRing d) b)"

text \<open>The loop that waits for the end of the reset: the value left in \<^verbatim>\<open>TimeOut\<close>.\<close>

fun reset_wait :: "nat \<Rightarrow> XAxiDma \<Rightarrow> bus \<Rightarrow> nat \<times> bus" where
  "reset_wait 0 d b = (0, b)"
| "reset_wait (Suc TimeOut) d b =
     (let (ok, b) = XAxiDma_ResetIsDone d b in if ok then (Suc TimeOut, b) else reset_wait TimeOut d b)"

definition max_transfer :: "XAxiDma_Config \<Rightarrow> XAxiDma \<Rightarrow> u32" where
  "max_transfer c d =
     (if RxNumChannels d > 1 \<or> TxNumChannels d > 1 then XAXIDMA_MCHAN_MAX_TRANSFER_LEN
      else push_bit (nat (SgLengthWidth c)) 1 - 1)"

text \<open>The limit of a channel: in micro mode it comes from the data width and the burst size (C division truncates).\<close>

definition channel_limit :: "XAxiDma_Config \<Rightarrow> XAxiDma \<Rightarrow> int \<Rightarrow> int \<Rightarrow> u32" where
  "channel_limit c d width burst =
     (if MicroDmaMode d = 0 then max_transfer c d else of_int (sgn width * (\<bar>width\<bar> div 4) * burst))"

definition setup_channel :: "XAxiDma_Config \<Rightarrow> XAxiDma \<Rightarrow> addr \<Rightarrow> int \<Rightarrow> int \<Rightarrow> bdring \<Rightarrow> bdring" where
  "setup_channel c d base dre width R =
     R\<lparr>ChanBase := base, HasStsCntrlStrm := CfgHasStsCntrlStrm c, Addr_ext := (if AddrWidth d > 32 then 1 else 0), HasDRE := dre,
       DataWidth := uint (drop_bit 3 (of_int width :: u32))\<rparr>"

definition XAxiDma_CfgInitialize :: "XAxiDma \<Rightarrow> XAxiDma_Config option \<Rightarrow> bus \<Rightarrow> (int \<times> XAxiDma \<times> bus) option" where
  "XAxiDma_CfgInitialize d Config b =
     (case Config of
        None \<Rightarrow> Some (XST_INVALID_PARAM, d\<lparr>Initialized := 0\<rparr>, b)
      | Some c \<Rightarrow> do {
          let BaseAddr = CfgBaseAddr c;
          let d = zero_dma\<lparr>RegBase := BaseAddr, HasMm2S := CfgHasMm2S c, HasS2Mm := CfgHasS2Mm c, HasSg := CfgHasSg c,
            MicroDmaMode := CfgMicroDmaMode c, AddrWidth := CfgAddrWidth c,
            TxNumChannels := (if Mm2sNumChannels c = 0 then 1 else Mm2sNumChannels c),
            RxNumChannels := (if S2MmNumChannels c = 0 then 1 else S2MmNumChannels c)\<rparr>;
          let d = d\<lparr>TxBdRing := (TxBdRing d)\<lparr>RunState := AXIDMA_CHANNEL_HALTED, IsRxChannel := 0,
            MaxTransferLen := channel_limit c d (Mm2SDataWidth c) (Mm2SBurstSize c), RingIndex := 0\<rparr>\<rparr>;
          (_, d, b) \<leftarrow> for_rx (\<lambda>i R b. Some (None, R\<lparr>RunState := AXIDMA_CHANNEL_HALTED, IsRxChannel := 1, RingIndex := int i\<rparr>, b))
            (rx_rings d) d b;
          let d = (if HasMm2S d \<noteq> 0
                   then d\<lparr>TxBdRing := setup_channel c d (BaseAddr + XAXIDMA_TX_OFFSET) (CfgHasMm2SDRE c) (Mm2SDataWidth c) (TxBdRing d)\<rparr>
                   else d);
          (_, d, b) \<leftarrow>
            (if HasS2Mm d \<noteq> 0 then
               for_rx (\<lambda>_ R b. Some (None, (setup_channel c d (BaseAddr + XAXIDMA_RX_OFFSET) (CfgHasS2MmDRE c) (S2MmDataWidth c) R)
                   \<lparr>MaxTransferLen := channel_limit c d (S2MmDataWidth c) (S2MmBurstSize c)\<rparr>, b)) (rx_rings d) d b
             else Some (None, d, b));
          (d, b) \<leftarrow> XAxiDma_Reset d b;
          let (TimeOut, b) = reset_wait XAXIDMA_RESET_TIMEOUT d b;
          if TimeOut = 0 then Some (XST_DMA_ERROR, d\<lparr>Initialized := 0\<rparr>, b)
          else Some (XST_SUCCESS, d\<lparr>Initialized := 1\<rparr>, b)})"

definition XAxiDma_Selftest :: "XAxiDma \<Rightarrow> bus \<Rightarrow> (int \<times> XAxiDma \<times> bus) option" where
  "XAxiDma_Selftest d b = do {
     (d, b) \<leftarrow> XAxiDma_Reset d b;
     let (TimeOut, b) = reset_wait XAXIDMA_RESET_TIMEOUT d b;
     Some (if TimeOut = 0 then XST_FAILURE else XST_SUCCESS, d, b)}"

definition XAxiDma_LookupConfig :: "XAxiDma_Config list \<Rightarrow> u32 \<Rightarrow> XAxiDma_Config option" where
  "XAxiDma_LookupConfig table DeviceId = find (\<lambda>c. CfgDeviceId c = DeviceId) table"

definition XAxiDma_LookupConfigBaseAddr :: "XAxiDma_Config list \<Rightarrow> addr \<Rightarrow> XAxiDma_Config option" where
  "XAxiDma_LookupConfigBaseAddr table Baseaddr = find (\<lambda>c. CfgBaseAddr c = Baseaddr) table"

subsection \<open>Start, pause and resume\<close>

text \<open>Setting and clearing the run bit of a channel, and starting a channel with or without descriptors.\<close>

definition set_run :: "bdring \<Rightarrow> bus \<Rightarrow> bus" where
  "set_run R b =
     (let (v, b) = XAxiDma_ReadReg (ChanBase R) XAXIDMA_CR_OFFSET b
      in XAxiDma_WriteReg (ChanBase R) XAXIDMA_CR_OFFSET (v OR XAXIDMA_CR_RUNSTOP_MASK) b)"

definition clear_run :: "bdring \<Rightarrow> bus \<Rightarrow> bus" where
  "clear_run R b =
     (let (v, b) = XAxiDma_ReadReg (ChanBase R) XAXIDMA_CR_OFFSET b
      in XAxiDma_WriteReg (ChanBase R) XAXIDMA_CR_OFFSET (v AND NOT XAXIDMA_CR_RUNSTOP_MASK) b)"

definition start_channel :: "XAxiDma \<Rightarrow> bdring \<Rightarrow> bus \<Rightarrow> (int option \<times> bdring \<times> bus) option" where
  "start_channel d R b =
     (if HasSg d \<noteq> 0 then do {
        (Status, R, b) \<leftarrow> XAxiDma_BdRingStart R b;
        if Status \<noteq> XST_SUCCESS then Some (Some XST_DMA_ERROR, R, b)
        else Some (None, R\<lparr>RunState := AXIDMA_CHANNEL_NOT_HALTED\<rparr>, b)}
      else Some (None, R\<lparr>RunState := AXIDMA_CHANNEL_NOT_HALTED\<rparr>, set_run R b))"

definition XAxiDma_Start :: "XAxiDma \<Rightarrow> bus \<Rightarrow> (int \<times> XAxiDma \<times> bus) option" where
  "XAxiDma_Start d b =
     (if Initialized d = 0 then Some (XST_NOT_SGDMA, d, b)
      else do {
        (ret, R, b) \<leftarrow>
          (if HasMm2S d \<noteq> 0 \<and> RunState (TxBdRing d) = AXIDMA_CHANNEL_HALTED then start_channel d (TxBdRing d) b
           else Some (None, TxBdRing d, b));
        let d = d\<lparr>TxBdRing := R\<rparr>;
        if ret \<noteq> None then Some (the ret, d, b)
        else if HasS2Mm d \<noteq> 0 then do {
          (ret, d, b) \<leftarrow> for_rx (\<lambda>_ R b. if RunState R \<noteq> AXIDMA_CHANNEL_HALTED then Some (Some XST_SUCCESS, R, b) else start_channel d R b)
            (rx_rings d) d b;
          Some (case ret of None \<Rightarrow> XST_SUCCESS | Some st \<Rightarrow> st, d, b)}
        else Some (XST_SUCCESS, d, b)})"

text \<open>
  \<^verbatim>\<open>!XAxiDma_HasSg(InstancePtr) && !RingIndex\<close> is, the macro having no outer parentheses,
  \<^verbatim>\<open>!HasSg ? TRUE : FALSE && !RingIndex\<close>: the index plays no part.
\<close>

definition XAxiDma_Pause :: "XAxiDma \<Rightarrow> bus \<Rightarrow> (int \<times> XAxiDma \<times> bus) option" where
  "XAxiDma_Pause d b =
     (if Initialized d = 0 then Some (XST_NOT_SGDMA, d, b)
      else do {
        let (d, b) = (if HasMm2S d \<noteq> 0
          then (d\<lparr>TxBdRing := (TxBdRing d)\<lparr>RunState := AXIDMA_CHANNEL_HALTED\<rparr>\<rparr>, if HasSg d = 0 then clear_run (TxBdRing d) b else b)
          else (d, b));
        (_, d, b) \<leftarrow>
          (if HasS2Mm d \<noteq> 0
           then for_rx (\<lambda>_ R b. Some (None, R\<lparr>RunState := AXIDMA_CHANNEL_HALTED\<rparr>, if HasSg d = 0 then clear_run R b else b)) (rx_rings d) d b
           else Some (None, d, b));
        Some (XST_SUCCESS, d, b)})"

definition XAxiDma_Started :: "XAxiDma \<Rightarrow> bus \<Rightarrow> bool \<times> bus" where
  "XAxiDma_Started d b =
     (if Initialized d = 0 then (False, b)
      else
        let (ok, b) = (if HasMm2S d \<noteq> 0 then XAxiDma_BdRingHwIsStarted (TxBdRing d) b else (True, b))
        in if \<not> ok then (False, b)
           else if HasS2Mm d \<noteq> 0 then XAxiDma_BdRingHwIsStarted (XAxiDma_GetRxRing d) b else (True, b))"

definition resume_channel :: "XAxiDma \<Rightarrow> bdring \<Rightarrow> bus \<Rightarrow> (int option \<times> bdring \<times> bus) option" where
  "resume_channel d R b =
     (if HasSg d \<noteq> 0 then start_channel d R b else Some (None, R\<lparr>RunState := AXIDMA_CHANNEL_NOT_HALTED\<rparr>, b))"

definition XAxiDma_Resume :: "XAxiDma \<Rightarrow> bus \<Rightarrow> (int \<times> XAxiDma \<times> bus) option" where
  "XAxiDma_Resume d b =
     (if Initialized d = 0 then Some (XST_NOT_SGDMA, d, b)
      else do {
        let (started, b) = XAxiDma_Started d b;
        (Status, d, b) \<leftarrow> (if \<not> started then XAxiDma_Start d b else Some (XST_SUCCESS, d, b));
        if Status \<noteq> XST_SUCCESS then Some (Status, d, b)
        else do {
          (ret, R, b) \<leftarrow> (if HasMm2S d \<noteq> 0 then resume_channel d (TxBdRing d) b else Some (None, TxBdRing d, b));
          let d = d\<lparr>TxBdRing := R\<rparr>;
          if ret \<noteq> None then Some (the ret, d, b)
          else if HasS2Mm d \<noteq> 0 then do {
            (ret, d, b) \<leftarrow> for_rx (\<lambda>_. resume_channel d) (rx_rings d) d b;
            Some (case ret of None \<Rightarrow> XST_SUCCESS | Some st \<Rightarrow> st, d, b)}
          else Some (XST_SUCCESS, d, b)}})"

subsection \<open>Registers by direction\<close>

text \<open>\<^verbatim>\<open>XAXIDMA_DMA_TO_DEVICE\<close> is 0 and \<^verbatim>\<open>XAXIDMA_DEVICE_TO_DMA\<close> is 1.\<close>

definition dir_base :: "XAxiDma \<Rightarrow> int \<Rightarrow> addr" where
  "dir_base d Direction = RegBase d + XAXIDMA_RX_OFFSET * of_int Direction"

definition XAxiDma_Busy :: "XAxiDma \<Rightarrow> int \<Rightarrow> bus \<Rightarrow> bool \<times> bus" where
  "XAxiDma_Busy d Direction b =
     (let (v, b) = XAxiDma_ReadReg (dir_base d Direction) XAXIDMA_SR_OFFSET b in (v AND XAXIDMA_IDLE_MASK = 0, b))"

definition select_bit :: "u32 \<Rightarrow> XAxiDma \<Rightarrow> int \<Rightarrow> int \<Rightarrow> bus \<Rightarrow> int \<times> bus" where
  "select_bit msk d Direction Select b =
     (let (Value, b) = XAxiDma_ReadReg (dir_base d Direction) XAXIDMA_CR_OFFSET b
      in (XST_SUCCESS, XAxiDma_WriteReg (dir_base d Direction) XAXIDMA_CR_OFFSET
            (if Select \<noteq> 0 then Value OR msk else Value AND NOT msk) b))"

definition XAxiDma_SelectKeyHole :: "XAxiDma \<Rightarrow> int \<Rightarrow> int \<Rightarrow> bus \<Rightarrow> int \<times> bus" where
  "XAxiDma_SelectKeyHole = select_bit XAXIDMA_CR_KEYHOLE_MASK"

definition XAxiDma_SelectCyclicMode :: "XAxiDma \<Rightarrow> int \<Rightarrow> int \<Rightarrow> bus \<Rightarrow> int \<times> bus" where
  "XAxiDma_SelectCyclicMode = select_bit XAXIDMA_CR_CYCLIC_MASK"

definition XAxiDma_IntrEnable :: "XAxiDma \<Rightarrow> u32 \<Rightarrow> int \<Rightarrow> bus \<Rightarrow> bus" where
  "XAxiDma_IntrEnable d Mask Direction b =
     (let (v, b) = XAxiDma_ReadReg (dir_base d Direction) XAXIDMA_CR_OFFSET b
      in XAxiDma_WriteReg (dir_base d Direction) XAXIDMA_CR_OFFSET (v OR (Mask AND XAXIDMA_IRQ_ALL_MASK)) b)"

definition XAxiDma_IntrDisable :: "XAxiDma \<Rightarrow> u32 \<Rightarrow> int \<Rightarrow> bus \<Rightarrow> bus" where
  "XAxiDma_IntrDisable d Mask Direction b =
     (let (v, b) = XAxiDma_ReadReg (dir_base d Direction) XAXIDMA_CR_OFFSET b
      in XAxiDma_WriteReg (dir_base d Direction) XAXIDMA_CR_OFFSET (v AND NOT (Mask AND XAXIDMA_IRQ_ALL_MASK)) b)"

definition XAxiDma_IntrGetIrq :: "XAxiDma \<Rightarrow> int \<Rightarrow> bus \<Rightarrow> u32 \<times> bus" where
  "XAxiDma_IntrGetIrq d Direction b =
     (let (v, b) = XAxiDma_ReadReg (dir_base d Direction) XAXIDMA_SR_OFFSET b in (v AND XAXIDMA_IRQ_ALL_MASK, b))"

definition XAxiDma_IntrAckIrq :: "XAxiDma \<Rightarrow> u32 \<Rightarrow> int \<Rightarrow> bus \<Rightarrow> bus" where
  "XAxiDma_IntrAckIrq d Mask Direction b =
     XAxiDma_WriteReg (dir_base d Direction) XAXIDMA_SR_OFFSET (Mask AND XAXIDMA_IRQ_ALL_MASK) b"

subsection \<open>Transfers without descriptors\<close>

definition channel_busy :: "XAxiDma \<Rightarrow> bdring \<Rightarrow> int \<Rightarrow> bus \<Rightarrow> bool \<times> bus" where
  "channel_busy d R Direction b =
     (let (v, b) = XAxiDma_ReadReg (ChanBase R) XAXIDMA_SR_OFFSET b
      in if v AND XAXIDMA_HALTED_MASK = 0 then XAxiDma_Busy d Direction b else (False, b))"

definition word_bits :: "XAxiDma \<Rightarrow> bdring \<Rightarrow> u32" where
  "word_bits d R = (if MicroDmaMode d = 0 then of_int (DataWidth R - 1) else XAXIDMA_MICROMODE_MIN_BUF_ALIGN)"

text \<open>The two branches of \<^verbatim>\<open>XAxiDma_SimpleTransfer\<close> differ in the ring, the channel that must be present and the direction.\<close>

definition transfer_on :: "XAxiDma \<Rightarrow> bdring \<Rightarrow> bool \<Rightarrow> int \<Rightarrow> addr \<Rightarrow> u32 \<Rightarrow> bus \<Rightarrow> int \<times> bus" where
  "transfer_on d R present Direction BuffAddr len b =
     (if len < 1 \<or> len > MaxTransferLen R then (XST_INVALID_PARAM, b)
      else if \<not> present then (XST_FAILURE, b)
      else
        let (busy, b) = channel_busy d R Direction b
        in if busy then (XST_FAILURE, b)
           else if BuffAddr AND word_bits d R \<noteq> 0 \<and> HasDRE R = 0 then (XST_INVALID_PARAM, b)
           else
             let b = XAxiDma_WriteReg (ChanBase R) XAXIDMA_SRCADDR_OFFSET BuffAddr b;
                 b = (if AddrWidth d > 32 then XAxiDma_WriteReg (ChanBase R) XAXIDMA_SRCADDR_MSB_OFFSET (UPPER_32_BITS BuffAddr) b else b);
                 b = set_run R b
             in (XST_SUCCESS, XAxiDma_WriteReg (ChanBase R) XAXIDMA_BUFFLEN_OFFSET len b))"

definition XAxiDma_SimpleTransfer :: "XAxiDma \<Rightarrow> addr \<Rightarrow> u32 \<Rightarrow> int \<Rightarrow> bus \<Rightarrow> int \<times> bus" where
  "XAxiDma_SimpleTransfer d BuffAddr len Direction b =
     (if HasSg d \<noteq> 0 then (XST_FAILURE, b)
      else if Direction = 0 then transfer_on d (TxBdRing d) (HasMm2S d \<noteq> 0) Direction BuffAddr len b
      else if Direction = 1 then transfer_on d (XAxiDma_GetRxRing d) (HasS2Mm d \<noteq> 0) Direction BuffAddr len b
      else (XST_SUCCESS, b))"

end
