(* ===== verification/AxiDma_Props.thy ===== *)
theory AxiDma_Props
  imports AxiDma
begin

section \<open>Initialisation and transfers of the DMA engine\<close>

text \<open>
  What an initialisation leaves in the instance, when it succeeds, and the transfers of an engine without descriptors in
  terms of its configuration; pausing and resuming an engine with descriptor rings.
\<close>

subsection \<open>The loops over the receive rings\<close>

definition upd_rings :: "(nat \<Rightarrow> bdring \<Rightarrow> bdring) \<Rightarrow> nat list \<Rightarrow> bdring list \<Rightarrow> bdring list" where
  "upd_rings f is xs = fold (\<lambda>i xs. xs[i := f i (xs ! i)]) is xs"

lemma length_upd_rings [simp]: "length (upd_rings f is xs) = length xs"
  unfolding upd_rings_def by (induction "is" arbitrary: xs) simp_all

lemma nth_upd_rings:
  "distinct is \<Longrightarrow> j < length xs \<Longrightarrow> upd_rings f is xs ! j = (if j \<in> set is then f j (xs ! j) else xs ! j)"
  unfolding upd_rings_def by (induction "is" arbitrary: xs) (simp_all, metis nth_list_update_eq nth_list_update_neq)

lemma for_rx_pure:
  assumes "\<forall>i\<in>set is. i < length (RxBdRing d)"
  shows "for_rx (\<lambda>i R b. Some (None, f i R, b)) is d b = Some (None, d\<lparr>RxBdRing := upd_rings f is (RxBdRing d)\<rparr>, b)"
  using assms
proof (induction "is" arbitrary: d)
  case (Cons i "is")
  then show ?case
    by (simp add: XAxiDma_GetRxIndexRing_def upd_rings_def)
qed (simp add: upd_rings_def)

text \<open>A body that only reads: the rings change as the body says, the registers keep their values.\<close>

definition reads_only :: "bus \<Rightarrow> bus \<Rightarrow> bool" where
  "reads_only b b' \<longleftrightarrow> cells b' = cells b \<and> writes_of (events b') = writes_of (events b)"

lemma reads_only_refl [simp]: "reads_only b b"
  by (simp add: reads_only_def)

lemma reads_only_trans: "reads_only b c \<Longrightarrow> reads_only c e \<Longrightarrow> reads_only b e"
  by (simp add: reads_only_def)

lemma reads_only_read [simp]: "reads_only b (snd (bus_read w a b))"
  by (simp add: reads_only_def bus_read_def Let_def)


definition same_ring :: "bdring \<Rightarrow> bdring \<Rightarrow> bool" where
  "same_ring R R' \<longleftrightarrow> R'\<lparr>BdaRestart := 0\<rparr> = R\<lparr>BdaRestart := 0\<rparr>"

lemma same_ring_refl [simp]: "same_ring R R"
  by (simp add: same_ring_def)

lemma same_ring_trans: "same_ring R S \<Longrightarrow> same_ring S T \<Longrightarrow> same_ring R T"
  by (simp add: same_ring_def)

text \<open>The addresses of the current-descriptor registers of a ring.\<close>

definition cdesc_at :: "bdring \<Rightarrow> addr" where
  "cdesc_at R = ChanBase R + (if IsRxChannel R = 0 \<or> RingIndex R = 0 then 8 else 0x40 + of_int ((RingIndex R - 1) * 32))"

lemma same_ring_fields:
  assumes "same_ring R R'"
  shows "ChanBase R' = ChanBase R" "IsRxChannel R' = IsRxChannel R" "RunState R' = RunState R" "HasDRE R' = HasDRE R"
    "DataWidth R' = DataWidth R" "MaxTransferLen R' = MaxTransferLen R" "RingIndex R' = RingIndex R" "Addr_ext R' = Addr_ext R"
    "HasStsCntrlStrm R' = HasStsCntrlStrm R"
  using assms by (cases R; cases R'; simp add: same_ring_def)+

lemma cdesc_at_same: "same_ring R R' \<Longrightarrow> cdesc_at R' = cdesc_at R"
  by (simp add: cdesc_at_def same_ring_fields)

lemma snapshot_eq:
  "XAxiDma_BdRingSnapShotCurrBd R b =
     (R\<lparr>BdaRestart := fst (bus_read W32 (cdesc_at R) b)\<rparr>, snd (bus_read W32 (cdesc_at R) b))"
  by (simp add: XAxiDma_BdRingSnapShotCurrBd_def XAxiDma_ReadReg_def cdesc_at_def split_beta)

lemma length_events_read [simp]: "length (events (snd (bus_read w a b))) = Suc (length (events b))"
  by (simp add: bus_read_def Let_def)

lemma for_rx_snapshot:
  assumes "\<forall>i\<in>set is. i < length (RxBdRing d)" and "distinct is"
  shows "\<exists>xs b'. for_rx (\<lambda>_ R b. let (R, b) = XAxiDma_BdRingSnapShotCurrBd R b in Some (None, R, b)) is d b
      = Some (None, d\<lparr>RxBdRing := xs\<rparr>, b') \<and> length xs = length (RxBdRing d) \<and>
      (\<forall>i<length xs. same_ring (RxBdRing d ! i) (xs ! i)) \<and> reads_only b b' \<and>
      length (events b') = length (events b) + length is \<and>
      (\<forall>a. (\<forall>i\<in>set is. a \<noteq> cdesc_at (RxBdRing d ! i)) \<longrightarrow> feed b' a = feed b a)"
  using assms
proof (induction "is" arbitrary: d b)
  case (Cons i "is")
  let ?v = "fst (bus_read W32 (cdesc_at (RxBdRing d ! i)) b)" and ?b = "snd (bus_read W32 (cdesc_at (RxBdRing d ! i)) b)"
  let ?d = "d\<lparr>RxBdRing := (RxBdRing d)[i := (RxBdRing d ! i)\<lparr>BdaRestart := ?v\<rparr>]\<rparr>"
  have i: "i < length (RxBdRing d)" "i \<notin> set is" "distinct is" "\<forall>j\<in>set is. j < length (RxBdRing ?d)"
    using Cons.prems by auto
  obtain xs b' where IH: "for_rx (\<lambda>_ R b. let (R, b) = XAxiDma_BdRingSnapShotCurrBd R b in Some (None, R, b)) is ?d ?b
      = Some (None, ?d\<lparr>RxBdRing := xs\<rparr>, b')" "length xs = length (RxBdRing ?d)"
      "\<forall>i<length xs. same_ring (RxBdRing ?d ! i) (xs ! i)" "reads_only ?b b'"
      "length (events b') = length (events ?b) + length is"
      "\<forall>a. (\<forall>i\<in>set is. a \<noteq> cdesc_at (RxBdRing ?d ! i)) \<longrightarrow> feed b' a = feed ?b a"
    using Cons.IH [OF i(4) i(3)] by metis
  have same: "same_ring (RxBdRing d ! j) (RxBdRing ?d ! j)" for j
    using i(1) by (cases "j = i") (simp_all add: same_ring_def)
  have rings: "\<forall>j<length xs. same_ring (RxBdRing d ! j) (xs ! j)"
    using IH(3) same same_ring_trans by blast
  have feeds: "feed b' a = feed b a" if "\<forall>j\<in>set (i # is). a \<noteq> cdesc_at (RxBdRing d ! j)" for a
  proof -
    have "\<forall>j\<in>set is. a \<noteq> cdesc_at (RxBdRing ?d ! j)"
      using that cdesc_at_same [OF same] by simp
    then have "feed b' a = feed ?b a"
      using IH(6) by blast
    then show ?thesis
      using that by simp
  qed
  have "for_rx (\<lambda>_ R b. let (R, b) = XAxiDma_BdRingSnapShotCurrBd R b in Some (None, R, b)) (i # is) d b
      = Some (None, d\<lparr>RxBdRing := xs\<rparr>, b')"
    using i(1) IH(1) by (simp add: XAxiDma_GetRxIndexRing_def snapshot_eq)
  moreover have "reads_only b b'"
    using IH(4) reads_only_trans reads_only_read by blast
  ultimately show ?case
    using rings feeds IH(2,5) by (intro exI [of _ xs] exI [of _ b']) simp
next
  case Nil
  then show ?case
    by (intro exI [of _ "RxBdRing d"] exI [of _ b]) simp
qed

subsection \<open>Reset\<close>

definition rings_fit :: "XAxiDma \<Rightarrow> bool" where
  "rings_fit d \<longleftrightarrow> nat (RxNumChannels d) \<le> length (RxBdRing d)"

lemma rings_fit_rx: "rings_fit d \<Longrightarrow> \<forall>i\<in>set (rx_rings d). i < length (RxBdRing d)"
  by (auto simp: rings_fit_def rx_rings_def)

text \<open>The current-descriptor registers that a reset reads.\<close>

definition snapshot_at :: "XAxiDma \<Rightarrow> addr \<Rightarrow> bool" where
  "snapshot_at d a \<longleftrightarrow> HasMm2S d \<noteq> 0 \<and> HasSg d \<noteq> 0 \<and> (a = cdesc_at (TxBdRing d) \<or> (\<exists>i\<in>set (rx_rings d). a = cdesc_at (RxBdRing d ! i)))"

definition halt :: "bdring \<Rightarrow> bdring" where
  "halt R = R\<lparr>RunState := AXIDMA_CHANNEL_HALTED\<rparr>"

lemma same_ring_halt: "same_ring R R' \<Longrightarrow> same_ring (halt R) (halt R')"
  by (cases R; cases R') (simp add: same_ring_def halt_def)

definition reset_base :: "XAxiDma \<Rightarrow> addr" where
  "reset_base d = RegBase d + (if HasMm2S d \<noteq> 0 then XAXIDMA_TX_OFFSET else XAXIDMA_RX_OFFSET)"

text \<open>What a reset leaves: rings halted, one register written.\<close>

definition reset_to :: "XAxiDma \<Rightarrow> bus \<Rightarrow> XAxiDma \<Rightarrow> bus \<Rightarrow> bool" where
  "reset_to d b d' b' \<longleftrightarrow>
     d' = d\<lparr>TxBdRing := TxBdRing d', RxBdRing := RxBdRing d'\<rparr> \<and> length (RxBdRing d') = length (RxBdRing d) \<and>
     same_ring (if HasMm2S d \<noteq> 0 then halt (TxBdRing d) else TxBdRing d) (TxBdRing d') \<and>
     (\<forall>i<length (RxBdRing d). same_ring (if HasS2Mm d \<noteq> 0 \<and> i \<in> set (rx_rings d) then halt (RxBdRing d ! i) else RxBdRing d ! i)
        (RxBdRing d' ! i)) \<and>
     cells b' = (cells b)(reset_base d := 4) \<and> writes_of (events b') = writes_of (events b) @ [(reset_base d, 4)] \<and>
     length (events b') \<le> length (events b) + nat (RxNumChannels d) + 2 \<and>
     (\<exists>pre. events b' = pre @ [Wr W32 (reset_base d) 4]) \<and>
     (\<forall>a. \<not> snapshot_at d a \<longrightarrow> feed b' a = feed b a)"

lemma snapshots_result:
  assumes "rings_fit d"
  shows "\<exists>tx xs b'. (if HasMm2S d \<noteq> 0 \<and> HasSg d \<noteq> 0 then do {
          let (R, b) = XAxiDma_BdRingSnapShotCurrBd (TxBdRing d) b;
          (_, d, b) \<leftarrow> for_rx (\<lambda>_ R b. let (R, b) = XAxiDma_BdRingSnapShotCurrBd R b in Some (None, R, b)) (rx_rings d)
            (d\<lparr>TxBdRing := R\<rparr>) b;
          Some (d, b)} else Some (d, b)) = Some (d\<lparr>TxBdRing := tx, RxBdRing := xs\<rparr>, b') \<and>
      same_ring (TxBdRing d) tx \<and> length xs = length (RxBdRing d) \<and> (\<forall>i<length xs. same_ring (RxBdRing d ! i) (xs ! i)) \<and>
      reads_only b b' \<and> length (events b') \<le> length (events b) + nat (RxNumChannels d) + 1 \<and>
      (\<forall>a. \<not> snapshot_at d a \<longrightarrow> feed b' a = feed b a)" (is "\<exists>tx xs b'. ?run = _ \<and> _")
proof (cases "HasMm2S d \<noteq> 0 \<and> HasSg d \<noteq> 0")
  case True
  let ?a = "cdesc_at (TxBdRing d)"
  let ?tx = "(TxBdRing d)\<lparr>BdaRestart := fst (bus_read W32 ?a b)\<rparr>" and ?b = "snd (bus_read W32 ?a b)"
  have d: "\<forall>i\<in>set (rx_rings d). i < length (RxBdRing (d\<lparr>TxBdRing := ?tx\<rparr>))" "distinct (rx_rings d)"
    using rings_fit_rx [OF assms] by (simp_all add: rx_rings_def)
  obtain xs b' where R: "for_rx (\<lambda>_ R b. let (R, b) = XAxiDma_BdRingSnapShotCurrBd R b in Some (None, R, b)) (rx_rings d)
      (d\<lparr>TxBdRing := ?tx\<rparr>) ?b = Some (None, d\<lparr>TxBdRing := ?tx, RxBdRing := xs\<rparr>, b')" "length xs = length (RxBdRing d)"
      "\<forall>i<length xs. same_ring (RxBdRing d ! i) (xs ! i)" "reads_only ?b b'"
      "length (events b') = length (events ?b) + length (rx_rings d)"
      "\<forall>a. (\<forall>i\<in>set (rx_rings d). a \<noteq> cdesc_at (RxBdRing d ! i)) \<longrightarrow> feed b' a = feed ?b a"
    using for_rx_snapshot [OF d, of ?b] by auto
  have "?run = Some (d\<lparr>TxBdRing := ?tx, RxBdRing := xs\<rparr>, b')"
    using True R(1) by (simp add: snapshot_eq)
  moreover have "reads_only b b'"
    using R(4) reads_only_trans reads_only_read by blast
  moreover have "\<forall>a. \<not> snapshot_at d a \<longrightarrow> feed b' a = feed b a"
    using R(6) True by (simp add: snapshot_at_def)
  ultimately show ?thesis
    using R(2,3,5) by (intro exI [of _ ?tx] exI [of _ xs] exI [of _ b']) (simp add: same_ring_def rx_rings_def)
next
  case False
  show ?thesis
    unfolding if_not_P [OF False]
    by (intro exI [of _ "TxBdRing d"] exI [of _ "RxBdRing d"] exI [of _ b]) simp
qed

lemma reset_result:
  assumes "rings_fit d"
  shows "\<exists>d' b'. XAxiDma_Reset d b = Some (d', b') \<and> reset_to d b d' b'"
proof -
  obtain tx xs b1 where S: "(if HasMm2S d \<noteq> 0 \<and> HasSg d \<noteq> 0 then do {
          let (R, b) = XAxiDma_BdRingSnapShotCurrBd (TxBdRing d) b;
          (_, d, b) \<leftarrow> for_rx (\<lambda>_ R b. let (R, b) = XAxiDma_BdRingSnapShotCurrBd R b in Some (None, R, b)) (rx_rings d)
            (d\<lparr>TxBdRing := R\<rparr>) b;
          Some (d, b)} else Some (d, b)) = Some (d\<lparr>TxBdRing := tx, RxBdRing := xs\<rparr>, b1)"
      "same_ring (TxBdRing d) tx" "length xs = length (RxBdRing d)" "\<forall>i<length xs. same_ring (RxBdRing d ! i) (xs ! i)"
      "reads_only b b1" "length (events b1) \<le> length (events b) + nat (RxNumChannels d) + 1"
      "\<forall>a. \<not> snapshot_at d a \<longrightarrow> feed b1 a = feed b a"
    using snapshots_result [OF assms, of b] by blast
  let ?tx = "if HasMm2S d \<noteq> 0 then halt tx else tx"
  let ?xs = "if HasS2Mm d \<noteq> 0 then upd_rings (\<lambda>_. halt) (rx_rings d) xs else xs"
  let ?b = "XAxiDma_WriteReg (reset_base d) XAXIDMA_CR_OFFSET 4 b1"
  have rx: "for_rx (\<lambda>_ R b. Some (None, R\<lparr>RunState := AXIDMA_CHANNEL_HALTED\<rparr>, b)) (rx_rings d) (d\<lparr>TxBdRing := t, RxBdRing := xs\<rparr>) c
      = Some (None, d\<lparr>TxBdRing := t, RxBdRing := upd_rings (\<lambda>_. halt) (rx_rings d) xs\<rparr>, c)" for t c
    using for_rx_pure [of "rx_rings d" "d\<lparr>TxBdRing := t, RxBdRing := xs\<rparr>" "\<lambda>_. halt" c] rings_fit_rx [OF assms] S(3)
    by (simp add: halt_def [abs_def])
  have swap: "d\<lparr>RxBdRing := ys, TxBdRing := t\<rparr> = d\<lparr>TxBdRing := t, RxBdRing := ys\<rparr>" for t ys
    by simp
  have rr: "rx_rings (d\<lparr>TxBdRing := t, RxBdRing := ys\<rparr>) = rx_rings d" for t ys
    by (simp add: rx_rings_def)
  have "XAxiDma_Reset d b = Some (d\<lparr>TxBdRing := ?tx, RxBdRing := ?xs\<rparr>, ?b)"
    unfolding XAxiDma_Reset_def S(1) by (simp add: Let_def rx rr reset_base_def) (simp add: halt_def rx rr swap)
  moreover have "same_ring (if HasMm2S d \<noteq> 0 then halt (TxBdRing d) else TxBdRing d) ?tx"
    using S(2) by (simp add: same_ring_halt)
  moreover have "same_ring (if HasS2Mm d \<noteq> 0 \<and> i \<in> set (rx_rings d) then halt (RxBdRing d ! i) else RxBdRing d ! i) (?xs ! i)"
    if "i < length (RxBdRing d)" for i
    using S(3,4) that by (simp add: nth_upd_rings same_ring_halt) (simp add: rx_rings_def nth_upd_rings same_ring_halt)
  ultimately show ?thesis
    using S(3,5-7)
    by (intro exI [of _ "d\<lparr>TxBdRing := ?tx, RxBdRing := ?xs\<rparr>"] exI [of _ ?b])
      (simp add: reset_to_def XAxiDma_WriteReg_def reads_only_def)
qed

subsection \<open>Waiting for the end of a reset\<close>

lemma channel_reset_reads:
  "reads_only b (snd (channel_reset p R b)) \<and> length (events (snd (channel_reset p R b))) \<le> Suc (length (events b))"
  by (simp add: channel_reset_def XAxiDma_ReadReg_def split_beta)

lemma reset_is_done_reads:
  "reads_only b (snd (XAxiDma_ResetIsDone d b)) \<and> length (events (snd (XAxiDma_ResetIsDone d b))) \<le> length (events b) + 2"
proof -
  obtain ok c where c: "channel_reset (HasMm2S d \<noteq> 0) (TxBdRing d) b = (ok, c)"
    by fastforce
  have "reads_only b c" "length (events c) \<le> Suc (length (events b))"
    using channel_reset_reads [of b "HasMm2S d \<noteq> 0" "TxBdRing d"] c by simp_all
  moreover from this have "reads_only b (snd (channel_reset p R c)) \<and> length (events (snd (channel_reset p R c))) \<le> length (events b) + 2"
    for p R
    using channel_reset_reads [of c p R] reads_only_trans by fastforce
  ultimately show ?thesis
    by (simp add: XAxiDma_ResetIsDone_def c)
qed

lemma reset_wait_result:
  assumes "reset_wait n d b = (t, b')"
  shows "reads_only b b' \<and> length (events b') \<le> length (events b) + 2 * n"
  using assms
proof (induction n arbitrary: b)
  case (Suc n)
  let ?r = "XAxiDma_ResetIsDone d b"
  have r: "reads_only b (snd ?r)" "length (events (snd ?r)) \<le> length (events b) + 2"
    using reset_is_done_reads by blast+
  show ?case
  proof (cases "fst ?r")
    case True
    then have "?r = (True, b')"
      using Suc.prems by (simp add: split_beta prod_eq_iff)
    with r show ?thesis
      by auto
  next
    case False
    then have "reset_wait n d (snd ?r) = (t, b')"
      using Suc.prems by (simp add: split_beta)
    from Suc.IH [OF this] r show ?thesis
      using reads_only_trans by fastforce
  qed
qed simp

text \<open>
  The polls of the reset, on the log of register accesses.  A poll passes when the control register
  of every present channel (\<open>a\<close> of the transmit, \<open>r\<close> of the receive channel) is read with the reset
  bit clear; it fails when one of them is read with the bit set, after a clear one.
\<close>

definition passed_poll :: "bool \<Rightarrow> bool \<Rightarrow> addr \<Rightarrow> addr \<Rightarrow> event list \<Rightarrow> bool" where
  "passed_poll tx rx a r p \<longleftrightarrow> (\<exists>u v. p = (if tx then [Rd W32 a u] else []) @ (if rx then [Rd W32 r v] else []) \<and>
     (tx \<longrightarrow> u AND 4 = 0) \<and> (rx \<longrightarrow> v AND 4 = 0))"

definition failed_poll :: "bool \<Rightarrow> bool \<Rightarrow> addr \<Rightarrow> addr \<Rightarrow> event list \<Rightarrow> bool" where
  "failed_poll tx rx a r p \<longleftrightarrow>
     tx \<and> (\<exists>u. p = [Rd W32 a u] \<and> u AND 4 \<noteq> 0) \<or>
     rx \<and> (\<exists>u v. p = (if tx then [Rd W32 a u] else []) @ [Rd W32 r v] \<and> (tx \<longrightarrow> u AND 4 = 0) \<and> v AND 4 \<noteq> 0)"

text \<open>The log \<open>es\<close> of a reset that is polled at most \<open>n\<close> times: it ends with the first poll that passes, or after \<open>n\<close> failed ones.\<close>

definition polls_end :: "nat \<Rightarrow> bool \<Rightarrow> bool \<Rightarrow> addr \<Rightarrow> addr \<Rightarrow> event list \<Rightarrow> bool" where
  "polls_end n tx rx a r es \<longleftrightarrow>
     (\<exists>fs p. es = concat fs @ p \<and> length fs < n \<and> (\<forall>f \<in> set fs. failed_poll tx rx a r f) \<and> passed_poll tx rx a r p)"

definition polls_fail :: "nat \<Rightarrow> bool \<Rightarrow> bool \<Rightarrow> addr \<Rightarrow> addr \<Rightarrow> event list \<Rightarrow> bool" where
  "polls_fail n tx rx a r es \<longleftrightarrow>
     (\<exists>fs. es = concat fs \<and> length fs = n \<and> (\<forall>f \<in> set fs. failed_poll tx rx a r f))"

lemma polls_cong:
  assumes "tx \<Longrightarrow> a = a'" "rx \<Longrightarrow> r = r'"
  shows "polls_end n tx rx a r = polls_end n tx rx a' r'" and "polls_fail n tx rx a r = polls_fail n tx rx a' r'"
proof -
  have "failed_poll tx rx a r = failed_poll tx rx a' r'" "passed_poll tx rx a r = passed_poll tx rx a' r'"
    using assms by (cases tx; cases rx; simp add: fun_eq_iff failed_poll_def passed_poll_def)+
  then show "polls_end n tx rx a r = polls_end n tx rx a' r'" and "polls_fail n tx rx a r = polls_fail n tx rx a' r'"
    by (simp_all add: fun_eq_iff polls_end_def polls_fail_def)
qed

lemma polls_fail_cons: "failed_poll tx rx a r p \<Longrightarrow> polls_fail n tx rx a r es \<Longrightarrow> polls_fail (Suc n) tx rx a r (p @ es)"
  unfolding polls_fail_def by (elim exE conjE, rule_tac x = "p # fs" in exI) simp

lemma polls_end_cons: "failed_poll tx rx a r p \<Longrightarrow> polls_end n tx rx a r es \<Longrightarrow> polls_end (Suc n) tx rx a r (p @ es)"
  unfolding polls_end_def by (elim exE conjE, rule_tac x = "p # fs" in exI) auto

lemma events_read: "events (snd (bus_read w a b)) = events b @ [Rd w a (fst (bus_read w a b))]"
  by (simp add: bus_read_def Let_def)

lemma reset_poll:
  "\<exists>p. events (snd (XAxiDma_ResetIsDone d b)) = events b @ p \<and>
     (if fst (XAxiDma_ResetIsDone d b)
      then passed_poll (HasMm2S d \<noteq> 0) (HasS2Mm d \<noteq> 0) (ChanBase (TxBdRing d)) (ChanBase (XAxiDma_GetRxRing d)) p
      else failed_poll (HasMm2S d \<noteq> 0) (HasS2Mm d \<noteq> 0) (ChanBase (TxBdRing d)) (ChanBase (XAxiDma_GetRxRing d)) p)"
  by (auto simp: XAxiDma_ResetIsDone_def channel_reset_def XAxiDma_ReadReg_def split_beta passed_poll_def
      failed_poll_def events_read)

lemma reset_wait_polls:
  assumes "reset_wait n d b = (t, b')"
  shows "\<exists>es. events b' = events b @ es \<and>
     (if t = 0 then polls_fail else polls_end) n (HasMm2S d \<noteq> 0) (HasS2Mm d \<noteq> 0)
       (ChanBase (TxBdRing d)) (ChanBase (XAxiDma_GetRxRing d)) es"
  using assms
proof (induction n arbitrary: b)
  case 0
  then show ?case
    by (simp add: polls_fail_def)
next
  case (Suc n)
  let ?r = "XAxiDma_ResetIsDone d b" and ?tx = "HasMm2S d \<noteq> 0" and ?rx = "HasS2Mm d \<noteq> 0"
    and ?a = "ChanBase (TxBdRing d)" and ?c = "ChanBase (XAxiDma_GetRxRing d)"
  obtain p where p: "events (snd ?r) = events b @ p"
    "if fst ?r then passed_poll ?tx ?rx ?a ?c p else failed_poll ?tx ?rx ?a ?c p"
    using reset_poll [of d b] by blast
  show ?case
  proof (cases "fst ?r")
    case True
    then have "t = Suc n" "b' = snd ?r"
      using Suc.prems by (simp_all add: split_beta)
    moreover have "polls_end (Suc n) ?tx ?rx ?a ?c p"
      using p(2) True unfolding polls_end_def by (intro exI [of _ "[]"] exI [of _ p]) simp
    ultimately show ?thesis
      using p(1) by auto
  next
    case False
    then obtain es where "events b' = events (snd ?r) @ es" "(if t = 0 then polls_fail else polls_end) n ?tx ?rx ?a ?c es"
      using Suc.IH [of "snd ?r"] Suc.prems by (auto simp: split_beta)
    moreover have "failed_poll ?tx ?rx ?a ?c p"
      using p(2) False by simp
    ultimately show ?thesis
      using p(1) polls_fail_cons polls_end_cons by (intro exI [of _ "p @ es"]) auto
  qed
qed

text \<open>
  The hardware leaves the reset: the register at \<open>a\<close> reads with the reset bit set at most \<open>m\<close> times, and
  then without it for as long as the driver can poll.
\<close>

definition clears :: "addr \<Rightarrow> nat \<Rightarrow> nat \<Rightarrow> bus \<Rightarrow> bool" where
  "clears a m n b \<longleftrightarrow> n \<le> length (drop m (feed b a)) \<and> (\<forall>v\<in>set (drop m (feed b a)). v AND XAXIDMA_CR_RESET_MASK = 0)"

lemma clears_read_other: "a \<noteq> c \<Longrightarrow> clears a m n (snd (bus_read w c b)) = clears a m n b"
  by (simp add: clears_def)

lemma clears_mono: "clears a m n b \<Longrightarrow> k \<le> n \<Longrightarrow> clears a m k b"
  by (simp add: clears_def)

lemma clears_read:
  assumes "clears a m (Suc n) b"
  shows "clears a (m - 1) n (snd (bus_read W32 a b))" "m = 0 \<Longrightarrow> fst (bus_read W32 a b) AND 4 = 0"
    "clears a m n (snd (bus_read W32 a b))"
proof -
  have d: "drop (m - 1) (tl (feed b a)) = drop m (feed b a) \<or> m = 0 \<and> drop (m - 1) (tl (feed b a)) = tl (feed b a)"
    by (cases m) (simp_all add: drop_Suc)
  then show "clears a (m - 1) n (snd (bus_read W32 a b))"
    using assms by (cases "feed b a") (auto simp: clears_def)
  show "fst (bus_read W32 a b) AND 4 = 0" if "m = 0"
    using assms that by (cases "feed b a") (auto simp: clears_def bus_read_val)
  have "set (drop m (tl (feed b a))) \<subseteq> set (drop m (feed b a))"
    using set_drop_subset_set_drop [of m "Suc m" "feed b a"] by (simp add: drop_Suc)
  then show "clears a m n (snd (bus_read W32 a b))"
    using assms by (auto simp: clears_def)
qed

lemma reset_wait_succeeds:
  assumes "HasMm2S d \<noteq> 0 \<longrightarrow> clears (ChanBase (TxBdRing d)) m (n + k) b"
    and "HasS2Mm d \<noteq> 0 \<longrightarrow> clears (ChanBase (XAxiDma_GetRxRing d)) k (n + k) b"
    and "HasMm2S d \<noteq> 0 \<longrightarrow> HasS2Mm d \<noteq> 0 \<longrightarrow> ChanBase (TxBdRing d) \<noteq> ChanBase (XAxiDma_GetRxRing d)" and "m + k < n"
  shows "0 < fst (reset_wait n d b)"
  using assms
proof (induction n arbitrary: m k b)
  case (Suc n)
  let ?t = "ChanBase (TxBdRing d)" and ?r = "ChanBase (XAxiDma_GetRxRing d)"
  let ?c = "if HasMm2S d \<noteq> 0 then snd (bus_read W32 ?t b) else b"
  let ?ok = "HasMm2S d \<noteq> 0 \<longrightarrow> fst (bus_read W32 ?t b) AND 4 = 0"
  show ?case
  proof (cases ?ok)
    case False
    then have tx: "HasMm2S d \<noteq> 0" "clears ?t m (Suc (n + k)) b"
      using Suc.prems(1) by simp_all
    have m: "m \<noteq> 0"
      using clears_read(2) [OF tx(2)] False by blast
    have "0 < fst (reset_wait n d ?c)"
    proof (rule Suc.IH [of "m - 1" k])
      show "HasMm2S d \<noteq> 0 \<longrightarrow> clears ?t (m - 1) (n + k) ?c"
        using clears_read(1) [OF tx(2)] tx(1) by simp
      show "HasS2Mm d \<noteq> 0 \<longrightarrow> clears ?r k (n + k) ?c"
        using Suc.prems(2,3) clears_mono [of ?r k "Suc (n + k)" b "n + k"] by (auto simp: clears_read_other)
    qed (use Suc.prems m in simp_all)
    then show ?thesis
      using False by (simp add: XAxiDma_ResetIsDone_def channel_reset_def XAxiDma_ReadReg_def split_beta)
  next
    case ok: True
    show ?thesis
    proof (cases "HasS2Mm d \<noteq> 0 \<longrightarrow> fst (bus_read W32 ?r ?c) AND 4 = 0")
      case True
      then show ?thesis
        using ok by (auto simp: XAxiDma_ResetIsDone_def channel_reset_def XAxiDma_ReadReg_def split_beta)
    next
      case False
      let ?e = "snd (bus_read W32 ?r ?c)"
      have rx: "HasS2Mm d \<noteq> 0" "clears ?r k (Suc (n + k)) ?c"
        using False Suc.prems(2,3) by (auto simp: clears_read_other)
      have k: "k \<noteq> 0"
        using clears_read(2) [OF rx(2)] False by blast
      have "0 < fst (reset_wait n d ?e)"
      proof (rule Suc.IH [of m "k - 1"])
        show "HasMm2S d \<noteq> 0 \<longrightarrow> clears ?t m (n + (k - 1)) ?e"
          using Suc.prems(1,3) rx(1) clears_read(3) [of ?t m "n + k" b] clears_mono [of ?t m "n + k" _ "n + (k - 1)"]
          by (auto simp: clears_read_other)
        show "HasS2Mm d \<noteq> 0 \<longrightarrow> clears ?r (k - 1) (n + (k - 1)) ?e"
          using clears_read(1) [OF rx(2)] clears_mono [of ?r "k - 1" "n + k" ?e "n + (k - 1)"] by simp
      qed (use Suc.prems k in simp_all)
      then show ?thesis
        using ok False by (auto simp: XAxiDma_ResetIsDone_def channel_reset_def XAxiDma_ReadReg_def split_beta)
    qed
  qed
qed simp

subsection \<open>Initialisation\<close>

text \<open>The instance of a configuration, before the reset.\<close>

definition cfg_base :: "XAxiDma_Config \<Rightarrow> XAxiDma" where
  "cfg_base c = zero_dma\<lparr>RegBase := CfgBaseAddr c, HasMm2S := CfgHasMm2S c, HasS2Mm := CfgHasS2Mm c, HasSg := CfgHasSg c,
     MicroDmaMode := CfgMicroDmaMode c, AddrWidth := CfgAddrWidth c,
     TxNumChannels := (if Mm2sNumChannels c = 0 then 1 else Mm2sNumChannels c),
     RxNumChannels := (if S2MmNumChannels c = 0 then 1 else S2MmNumChannels c)\<rparr>"

definition cfg_tx :: "XAxiDma_Config \<Rightarrow> bdring" where
  "cfg_tx c =
     (let R = zero_ring\<lparr>RunState := AXIDMA_CHANNEL_HALTED, IsRxChannel := 0,
            MaxTransferLen := channel_limit c (cfg_base c) (Mm2SDataWidth c) (Mm2SBurstSize c), RingIndex := 0\<rparr>
      in if CfgHasMm2S c \<noteq> 0 then setup_channel c (cfg_base c) (CfgBaseAddr c) (CfgHasMm2SDRE c) (Mm2SDataWidth c) R else R)"

definition cfg_rx :: "XAxiDma_Config \<Rightarrow> nat \<Rightarrow> bdring" where
  "cfg_rx c i =
     (let R = zero_ring\<lparr>RunState := AXIDMA_CHANNEL_HALTED, IsRxChannel := 1, RingIndex := int i\<rparr>
      in if CfgHasS2Mm c \<noteq> 0
         then (setup_channel c (cfg_base c) (CfgBaseAddr c + 0x30) (CfgHasS2MmDRE c) (S2MmDataWidth c) R)
           \<lparr>MaxTransferLen := channel_limit c (cfg_base c) (S2MmDataWidth c) (S2MmBurstSize c)\<rparr>
         else R)"

definition cfg_dma :: "XAxiDma_Config \<Rightarrow> XAxiDma" where
  "cfg_dma c = (cfg_base c)\<lparr>TxBdRing := cfg_tx c,
     RxBdRing := map (\<lambda>i. if i \<in> set (rx_rings (cfg_base c)) then cfg_rx c i else zero_ring) [0..<16]\<rparr>"

lemma channel_setup_rings [simp]:
  "channel_limit c (d\<lparr>TxBdRing := R\<rparr>) = channel_limit c d" "channel_limit c (d\<lparr>RxBdRing := xs\<rparr>) = channel_limit c d"
  "setup_channel c (d\<lparr>TxBdRing := R\<rparr>) = setup_channel c d" "setup_channel c (d\<lparr>RxBdRing := xs\<rparr>) = setup_channel c d"
  by (simp_all add: channel_limit_def max_transfer_def setup_channel_def fun_eq_iff)

lemma upd_rings_replicate:
  assumes "distinct is"
  shows "upd_rings g is (map h [0..<n]) = map (\<lambda>i. if i \<in> set is then g i (h i) else h i) [0..<n]"
  using assms by (intro nth_equalityI) (simp_all add: nth_upd_rings)

lemma cfg_initialize_eq:
  assumes "S2MmNumChannels c \<le> 16"
  shows "XAxiDma_CfgInitialize d (Some c) b = do {
     (d, b) \<leftarrow> XAxiDma_Reset (cfg_dma c) b;
     let (TimeOut, b) = reset_wait XAXIDMA_RESET_TIMEOUT d b;
     if TimeOut = 0 then Some (XST_DMA_ERROR, d\<lparr>Initialized := 0\<rparr>, b) else Some (XST_SUCCESS, d\<lparr>Initialized := 1\<rparr>, b)}"
proof -
  let ?is = "rx_rings (cfg_base c)"
  have fit: "\<forall>i\<in>set ?is. i < 16"
    using assms by (auto simp: rx_rings_def cfg_base_def)
  have base: "RxBdRing (cfg_base c) = map (\<lambda>_. zero_ring) [0..<16]" "TxBdRing (cfg_base c) = zero_ring"
    by (simp_all add: cfg_base_def zero_dma_def map_replicate_const)
  have is_eq: "rx_rings e = ?is" if "RxNumChannels e = RxNumChannels (cfg_base c)" for e
    using that by (simp add: rx_rings_def)
  have loop: "for_rx (\<lambda>i R b. Some (None, g i R, b)) (rx_rings e) e b =
      Some (None, e\<lparr>RxBdRing := map (\<lambda>i. if i \<in> set ?is then g i (h i) else h i) [0..<16]\<rparr>, b)"
    if "RxBdRing e = map h [0..<16]" "RxNumChannels e = RxNumChannels (cfg_base c)" for g h e b
  proof -
    have "distinct ?is"
      by (simp add: rx_rings_def)
    then show ?thesis
      using that fit by (simp add: is_eq [OF that(2)] for_rx_pure upd_rings_replicate)
  qed
  have flags: "HasMm2S (cfg_base c) = CfgHasMm2S c" "HasS2Mm (cfg_base c) = CfgHasS2Mm c"
    by (simp_all add: cfg_base_def)
  let ?h = "\<lambda>i. if i \<in> set ?is then zero_ring\<lparr>RunState := 2, IsRxChannel := 1, RingIndex := int i\<rparr> else zero_ring"
  let ?d = "(cfg_base c)\<lparr>TxBdRing := zero_ring\<lparr>RunState := 2, IsRxChannel := 0,
     MaxTransferLen := channel_limit c (cfg_base c) (Mm2SDataWidth c) (Mm2SBurstSize c), RingIndex := 0\<rparr>\<rparr>"
  have l1: "for_rx (\<lambda>i R b. Some (None, R\<lparr>RunState := 2, IsRxChannel := 1, RingIndex := int i\<rparr>, b)) (rx_rings ?d) ?d b
      = Some (None, ?d\<lparr>RxBdRing := map ?h [0..<16]\<rparr>, b)"
    by (subst loop [where h = "\<lambda>_. zero_ring"]) (simp_all add: base)
  let ?e = "(cfg_base c)\<lparr>TxBdRing := cfg_tx c, RxBdRing := map ?h [0..<16]\<rparr>"
  have e: "(if HasMm2S (?d\<lparr>RxBdRing := map ?h [0..<16]\<rparr>) \<noteq> 0
      then ?d\<lparr>RxBdRing := map ?h [0..<16], TxBdRing := setup_channel c (?d\<lparr>RxBdRing := map ?h [0..<16]\<rparr>) (CfgBaseAddr c + 0)
        (CfgHasMm2SDRE c) (Mm2SDataWidth c) (TxBdRing (?d\<lparr>RxBdRing := map ?h [0..<16]\<rparr>))\<rparr>
      else ?d\<lparr>RxBdRing := map ?h [0..<16]\<rparr>) = ?e"
    by (simp add: flags cfg_tx_def Let_def)
  let ?g = "\<lambda>i R. (setup_channel c ?e (CfgBaseAddr c + 0x30) (CfgHasS2MmDRE c) (S2MmDataWidth c) R)
      \<lparr>MaxTransferLen := channel_limit c ?e (S2MmDataWidth c) (S2MmBurstSize c)\<rparr>"
  have l2: "(if HasS2Mm ?e \<noteq> 0 then for_rx (\<lambda>i R b. Some (None, ?g i R, b)) (rx_rings ?e) ?e b else Some (None, ?e, b))
      = Some (None, cfg_dma c, b)"
  proof (cases "CfgHasS2Mm c = 0")
    case True
    then show ?thesis
      by (simp add: flags cfg_dma_def cfg_rx_def)
  next
    case False
    then show ?thesis
      by (subst loop [where h = ?h]) (simp_all add: flags cfg_dma_def cfg_rx_def)
  qed
  show ?thesis
    unfolding XAxiDma_CfgInitialize_def option.case Let_def cfg_base_def [symmetric] base
    by (simp only: l1 e l2 bind.bind_lunit prod.case)
qed

lemma reset_wait_stuck:
  assumes "HasMm2S d \<noteq> 0" and "\<forall>v\<in>set (feed b (ChanBase (TxBdRing d))). v AND 4 \<noteq> 0" and "cells b (ChanBase (TxBdRing d)) AND 4 \<noteq> 0"
  shows "fst (reset_wait n d b) = 0"
  using assms
proof (induction n arbitrary: b)
  case (Suc n)
  let ?a = "ChanBase (TxBdRing d)"
  let ?b = "snd (bus_read W32 ?a b)"
  have "fst (bus_read W32 ?a b) AND 4 \<noteq> 0"
    using Suc.prems(2,3) by (simp add: bus_read_val split: list.split)
  moreover have "\<forall>v\<in>set (feed ?b ?a). v AND 4 \<noteq> 0"
    using Suc.prems(2) by (cases "feed b ?a") auto
  ultimately show ?case
    using Suc.IH [of ?b] Suc.prems(1,3)
    by (simp add: XAxiDma_ResetIsDone_def channel_reset_def XAxiDma_ReadReg_def split_beta)
qed simp

lemma reset_wait_stuck_rx:
  assumes "HasS2Mm d \<noteq> 0" and "HasMm2S d \<noteq> 0 \<longrightarrow> ChanBase (TxBdRing d) \<noteq> ChanBase (XAxiDma_GetRxRing d)"
    and "\<forall>v\<in>set (feed b (ChanBase (XAxiDma_GetRxRing d))). v AND 4 \<noteq> 0" and "cells b (ChanBase (XAxiDma_GetRxRing d)) AND 4 \<noteq> 0"
  shows "fst (reset_wait n d b) = 0"
  using assms(3,4)
proof (induction n arbitrary: b)
  case (Suc n)
  let ?t = "ChanBase (TxBdRing d)" and ?a = "ChanBase (XAxiDma_GetRxRing d)"
  let ?b = "snd (bus_read W32 ?t b)"
  have r: "fst (bus_read W32 ?a c) AND 4 \<noteq> 0" "\<forall>v\<in>set (feed (snd (bus_read W32 ?a c)) ?a). v AND 4 \<noteq> 0"
    if "\<forall>v\<in>set (feed c ?a). v AND 4 \<noteq> 0" "cells c ?a AND 4 \<noteq> 0" for c
    using that by (simp add: bus_read_val split: list.split) (use that in \<open>cases "feed c ?a"; auto\<close>)
  have t: "HasMm2S d \<noteq> 0 \<longrightarrow> (\<forall>v\<in>set (feed ?b ?a). v AND 4 \<noteq> 0)"
    using Suc.prems(1) assms(2) by auto
  let ?c = "if HasMm2S d \<noteq> 0 then ?b else b"
  have c: "\<forall>v\<in>set (feed ?c ?a). v AND 4 \<noteq> 0" "cells ?c ?a AND 4 \<noteq> 0"
    using t Suc.prems by simp_all
  have "XAxiDma_ResetIsDone d b = (False, snd (bus_read W32 ?a ?c)) \<or> XAxiDma_ResetIsDone d b = (False, ?c)"
    using r(1) [OF c] assms(1)
    by (auto simp: XAxiDma_ResetIsDone_def channel_reset_def XAxiDma_ReadReg_def split_beta)
  then show ?case
    using Suc.IH [OF c] Suc.IH [OF r(2) [OF c]] c(2) by (auto simp: split_beta)
qed simp

text \<open>The longest transfer a configuration allows on a channel of the given width and burst size.\<close>

definition transfer_limit :: "XAxiDma_Config \<Rightarrow> int \<Rightarrow> int \<Rightarrow> u32" where
  "transfer_limit c width burst =
     (if CfgMicroDmaMode c \<noteq> 0 then of_int (sgn width * (\<bar>width\<bar> div 4) * burst)
      else if S2MmNumChannels c > 1 \<or> Mm2sNumChannels c > 1 then 0xFFFF
      else 2 ^ nat (SgLengthWidth c) - 1)"

lemma channel_limit_cfg: "channel_limit c (cfg_base c) w n = transfer_limit c w n"
  by (simp add: channel_limit_def max_transfer_def cfg_base_def transfer_limit_def push_bit_eq_mult)

text \<open>A channel set up for transfers: where its registers are, that it is halted, its alignment and its limit.\<close>

definition channel_of :: "XAxiDma_Config \<Rightarrow> addr \<Rightarrow> int \<Rightarrow> int \<Rightarrow> int \<Rightarrow> bdring \<Rightarrow> bool" where
  "channel_of c base dre width burst R \<longleftrightarrow>
     ChanBase R = base \<and> RunState R = AXIDMA_CHANNEL_HALTED \<and> HasDRE R = dre \<and> DataWidth R = uint (drop_bit 3 (of_int width :: u32)) \<and>
     MaxTransferLen R = transfer_limit c width burst"

definition configured :: "XAxiDma_Config \<Rightarrow> XAxiDma \<Rightarrow> bool" where
  "configured c d \<longleftrightarrow>
     RegBase d = CfgBaseAddr c \<and> HasMm2S d = CfgHasMm2S c \<and> HasS2Mm d = CfgHasS2Mm c \<and> HasSg d = CfgHasSg c \<and>
     MicroDmaMode d = CfgMicroDmaMode c \<and> AddrWidth d = CfgAddrWidth c \<and> length (RxBdRing d) = 16 \<and>
     TxNumChannels d = (if Mm2sNumChannels c = 0 then 1 else Mm2sNumChannels c) \<and>
     RxNumChannels d = (if S2MmNumChannels c = 0 then 1 else S2MmNumChannels c) \<and>
     (CfgHasMm2S c \<noteq> 0 \<longrightarrow>
        IsRxChannel (TxBdRing d) = 0 \<and> channel_of c (CfgBaseAddr c) (CfgHasMm2SDRE c) (Mm2SDataWidth c) (Mm2SBurstSize c) (TxBdRing d)) \<and>
     (CfgHasS2Mm c \<noteq> 0 \<longrightarrow> (\<forall>i<nat (RxNumChannels d).
        IsRxChannel (RxBdRing d ! i) = 1 \<and> RingIndex (RxBdRing d ! i) = int i \<and>
        channel_of c (CfgBaseAddr c + 0x30) (CfgHasS2MmDRE c) (S2MmDataWidth c) (S2MmBurstSize c) (RxBdRing d ! i)))"

lemma cfg_dma_fields:
  "RegBase (cfg_dma c) = CfgBaseAddr c" "HasMm2S (cfg_dma c) = CfgHasMm2S c" "HasS2Mm (cfg_dma c) = CfgHasS2Mm c"
  "HasSg (cfg_dma c) = CfgHasSg c" "MicroDmaMode (cfg_dma c) = CfgMicroDmaMode c" "AddrWidth (cfg_dma c) = CfgAddrWidth c"
  "length (RxBdRing (cfg_dma c)) = 16" "TxBdRing (cfg_dma c) = cfg_tx c"
  "TxNumChannels (cfg_dma c) = (if Mm2sNumChannels c = 0 then 1 else Mm2sNumChannels c)"
  "RxNumChannels (cfg_dma c) = (if S2MmNumChannels c = 0 then 1 else S2MmNumChannels c)"
  by (simp_all add: cfg_dma_def cfg_base_def)

lemma cfg_dma_rx: "i < nat (RxNumChannels (cfg_dma c)) \<Longrightarrow> i < 16 \<Longrightarrow> RxBdRing (cfg_dma c) ! i = cfg_rx c i"
  by (simp add: cfg_dma_def rx_rings_def)

lemma reset_configured:
  assumes "reset_to (cfg_dma c) b d' b'" and "S2MmNumChannels c \<le> 16"
  shows "configured c (d'\<lparr>Initialized := k\<rparr>)"
proof -
  have d': "d' = (cfg_dma c)\<lparr>TxBdRing := TxBdRing d', RxBdRing := RxBdRing d'\<rparr>" "length (RxBdRing d') = 16"
    using assms(1) by (simp_all add: reset_to_def cfg_dma_fields)
  then have f: "RegBase d' = CfgBaseAddr c" "HasMm2S d' = CfgHasMm2S c" "HasS2Mm d' = CfgHasS2Mm c" "HasSg d' = CfgHasSg c"
      "MicroDmaMode d' = CfgMicroDmaMode c" "AddrWidth d' = CfgAddrWidth c" "TxNumChannels d' = TxNumChannels (cfg_dma c)"
      "RxNumChannels d' = RxNumChannels (cfg_dma c)"
    by (metis XAxiDma.surjective XAxiDma.update_convs XAxiDma.select_convs cfg_dma_fields)+
  have tx: "same_ring (halt (cfg_tx c)) (TxBdRing d')" if "CfgHasMm2S c \<noteq> 0"
    using assms(1) that by (simp add: reset_to_def cfg_dma_fields)
  have rx: "same_ring (halt (cfg_rx c i)) (RxBdRing d' ! i)" if "CfgHasS2Mm c \<noteq> 0" "i < nat (RxNumChannels (cfg_dma c))" for i
  proof -
    have i: "i < 16" "i \<in> set (rx_rings (cfg_dma c))"
      using that(2) assms(2) by (auto simp: cfg_dma_fields rx_rings_def split: if_splits)
    then show ?thesis
      using assms(1) that by (auto simp: reset_to_def cfg_dma_fields cfg_dma_rx)
  qed
  show ?thesis
    unfolding configured_def
    using d'(2) by (auto simp: f cfg_dma_fields(9,10) channel_of_def same_ring_fields [OF tx] same_ring_fields [OF rx])
      (simp_all add: channel_limit_cfg halt_def cfg_tx_def cfg_rx_def setup_channel_def zero_ring_def Let_def)
qed

text \<open>With both channels present, or without descriptors, the reset reads neither control register early.\<close>

lemma cdesc_offsets:
  "list_all (\<lambda>i. 0x30 + (if i = 0 then 8 else 0x40 + of_int ((int i - 1) * 32)) \<noteq> (0 :: u32) \<and>
     0x30 + (if i = 0 then 8 else 0x40 + of_int ((int i - 1) * 32)) \<noteq> (0x30 :: u32)) [0..<16]"
  by code_simp

lemma no_early_read:
  assumes "CfgHasSg c = 0 \<or> CfgHasS2Mm c \<noteq> 0" and "S2MmNumChannels c \<le> 16" and "a = CfgBaseAddr c \<or> a = CfgBaseAddr c + 0x30"
  shows "\<not> snapshot_at (cfg_dma c) a"
proof
  assume s: "snapshot_at (cfg_dma c) a"
  then have sg: "CfgHasSg c \<noteq> 0" "CfgHasMm2S c \<noteq> 0" "CfgHasS2Mm c \<noteq> 0"
    using assms(1) by (auto simp: snapshot_at_def cfg_dma_fields)
  have "cdesc_at (cfg_tx c) = CfgBaseAddr c + 8"
    using sg by (simp add: cdesc_at_def cfg_tx_def setup_channel_def zero_ring_def)
  moreover have "CfgBaseAddr c + 0x30 \<noteq> CfgBaseAddr c + 8"
    by simp
  ultimately obtain i where i: "i \<in> set (rx_rings (cfg_dma c))" "a = cdesc_at (RxBdRing (cfg_dma c) ! i)"
    using s assms(3) by (auto simp: snapshot_at_def cfg_dma_fields)
  have r: "i < nat (RxNumChannels (cfg_dma c))" "i < 16"
    using i(1) assms(2) by (auto simp: rx_rings_def cfg_dma_fields split: if_splits)
  have a: "a = CfgBaseAddr c + (0x30 + (if i = 0 then 8 else 0x40 + of_int ((int i - 1) * 32)))"
    using sg i(2) cfg_dma_rx [OF r] by (simp add: cdesc_at_def cfg_rx_def setup_channel_def Let_def)
  have "0x30 + (if i = 0 then 8 else 0x40 + of_int ((int i - 1) * 32)) \<noteq> (0 :: u32)"
      "0x30 + (if i = 0 then 8 else 0x40 + of_int ((int i - 1) * 32)) \<noteq> (0x30 :: u32)"
    using cdesc_offsets r(2) unfolding list_all_iff by (metis atLeastLessThan_iff atLeastLessThan_upt zero_le)+
  with a assms(3) show False
    by (metis add.right_neutral add_left_cancel)
qed

text \<open>C24. The initialisation returns for every behaviour of the hardware, with success or \<open>XST_DMA_ERROR\<close>; the instance is then
  set up as the configuration says, with every channel halted, and is marked as initialised exactly on success.  It
  writes one register, the reset request, and makes at most 1018 accesses.  What follows the request on the bus are polls of
  the control registers: on success fewer than 500 polls that saw a reset bit set, and then one that saw the bit of the
  transmit and of the receive channel clear, as far as they are present; on an error exactly 500 polls that each saw a set
  bit.  An engine that clears the bits within 500 polls is initialised, one that never clears the bit of a present channel
  is reported.\<close>

theorem axidma_initialize:
  assumes "0 \<le> S2MmNumChannels c" and "S2MmNumChannels c \<le> 16"
  shows "\<exists>st d' b'. XAxiDma_CfgInitialize d (Some c) b = Some (st, d', b') \<and> (st = 0 \<or> st = 9) \<and> (Initialized d' = 1 \<longleftrightarrow> st = 0) \<and>
     configured c d' \<and>
     writes_of (events b') = writes_of (events b) @ [(CfgBaseAddr c + (if CfgHasMm2S c \<noteq> 0 then 0 else 0x30), 4)] \<and>
     length (events b') \<le> length (events b) + 1018 \<and>
     (\<exists>pre es. events b' = pre @ [Wr W32 (CfgBaseAddr c + (if CfgHasMm2S c \<noteq> 0 then 0 else 0x30)) 4] @ es \<and>
        (if st = 0 then polls_end else polls_fail) 500 (CfgHasMm2S c \<noteq> 0) (CfgHasS2Mm c \<noteq> 0) (CfgBaseAddr c) (CfgBaseAddr c + 0x30) es) \<and>
     (\<forall>m k. m + k < 500 \<and> (CfgHasSg c = 0 \<or> CfgHasS2Mm c \<noteq> 0) \<and>
        (CfgHasMm2S c \<noteq> 0 \<longrightarrow> clears (CfgBaseAddr c) m (500 + k) b) \<and>
        (CfgHasS2Mm c \<noteq> 0 \<longrightarrow> clears (CfgBaseAddr c + 0x30) k (500 + k) b) \<longrightarrow> st = 0) \<and>
     (CfgHasMm2S c \<noteq> 0 \<and> (CfgHasSg c = 0 \<or> CfgHasS2Mm c \<noteq> 0) \<and> (\<forall>v\<in>set (feed b (CfgBaseAddr c)). v AND 4 \<noteq> 0) \<longrightarrow> st = 9) \<and>
     (CfgHasS2Mm c \<noteq> 0 \<and> (\<forall>v\<in>set (feed b (CfgBaseAddr c + 0x30)). v AND 4 \<noteq> 0) \<and> cells b (CfgBaseAddr c + 0x30) AND 4 \<noteq> 0 \<longrightarrow> st = 9)"
proof -
  have "rings_fit (cfg_dma c)"
    using assms(2) by (auto simp: rings_fit_def cfg_dma_fields)
  then obtain d1 b1 where r: "XAxiDma_Reset (cfg_dma c) b = Some (d1, b1)" "reset_to (cfg_dma c) b d1 b1"
    using reset_result by blast
  obtain t b' where w: "reset_wait 500 d1 b1 = (t, b')"
    by fastforce
  let ?st = "if t = 0 then 9 else 0 :: int" and ?d = "d1\<lparr>Initialized := if t = 0 then 0 else 1\<rparr>"
  have run: "XAxiDma_CfgInitialize d (Some c) b = Some (?st, ?d, b')"
    by (simp add: cfg_initialize_eq [OF assms(2)] r(1) w XAXIDMA_RESET_TIMEOUT_def)
  have conf: "configured c (d1\<lparr>Initialized := i\<rparr>)" for i
    using reset_configured [OF r(2) assms(2)] .
  from conf [of "Initialized d1"] have f: "HasMm2S d1 = CfgHasMm2S c" "HasS2Mm d1 = CfgHasS2Mm c"
      "CfgHasMm2S c \<noteq> 0 \<Longrightarrow> ChanBase (TxBdRing d1) = CfgBaseAddr c"
      "CfgHasS2Mm c \<noteq> 0 \<Longrightarrow> ChanBase (XAxiDma_GetRxRing d1) = CfgBaseAddr c + 0x30"
    using assms(1) by (auto simp: configured_def channel_of_def XAxiDma_GetRxRing_def)
  note W = reset_wait_result [OF w]
  have writes: "writes_of (events b') = writes_of (events b) @ [(CfgBaseAddr c + (if CfgHasMm2S c \<noteq> 0 then 0 else 0x30), 4)]"
    using W r(2) by (simp add: reads_only_def reset_to_def reset_base_def cfg_dma_fields)
  have "nat (RxNumChannels (cfg_dma c)) \<le> 16"
    using assms(2) by (simp add: cfg_dma_fields nat_le_iff)
  then have len: "length (events b') \<le> length (events b) + 1018"
    using W r(2) by (simp add: reset_to_def)
  obtain pre where pre: "events b1 = pre @ [Wr W32 (CfgBaseAddr c + (if CfgHasMm2S c \<noteq> 0 then 0 else 0x30)) 4]"
    using r(2) by (auto simp: reset_to_def reset_base_def cfg_dma_fields)
  have polls_eq: "(if t = 0 then polls_fail else polls_end) 500 (HasMm2S d1 \<noteq> 0) (HasS2Mm d1 \<noteq> 0)
       (ChanBase (TxBdRing d1)) (ChanBase (XAxiDma_GetRxRing d1)) es =
     (if ?st = 0 then polls_end else polls_fail) 500 (CfgHasMm2S c \<noteq> 0) (CfgHasS2Mm c \<noteq> 0) (CfgBaseAddr c) (CfgBaseAddr c + 0x30) es" for es
    using polls_cong [of "CfgHasMm2S c \<noteq> 0" "ChanBase (TxBdRing d1)" "CfgBaseAddr c" "CfgHasS2Mm c \<noteq> 0"
      "ChanBase (XAxiDma_GetRxRing d1)" "CfgBaseAddr c + 0x30" 500] f(3,4) unfolding f(1,2) by (cases "t = 0") simp_all
  obtain es where es: "events b' = events b1 @ es"
    "(if ?st = 0 then polls_end else polls_fail) 500 (CfgHasMm2S c \<noteq> 0) (CfgHasS2Mm c \<noteq> 0) (CfgBaseAddr c) (CfgBaseAddr c + 0x30) es"
    using reset_wait_polls [OF w] unfolding polls_eq by blast
  have polls: "\<exists>pre es. events b' = pre @ [Wr W32 (CfgBaseAddr c + (if CfgHasMm2S c \<noteq> 0 then 0 else 0x30)) 4] @ es \<and>
     (if ?st = 0 then polls_end else polls_fail) 500 (CfgHasMm2S c \<noteq> 0) (CfgHasS2Mm c \<noteq> 0) (CfgBaseAddr c) (CfgBaseAddr c + 0x30) es"
    by (intro exI [of _ pre] exI [of _ es] conjI es(2)) (simp add: es(1) pre)
  have feeds: "feed b1 a = feed b a" if "CfgHasSg c = 0 \<or> CfgHasS2Mm c \<noteq> 0" "a = CfgBaseAddr c \<or> a = CfgBaseAddr c + 0x30" for a
    using r(2) no_early_read [OF that(1) assms(2) that(2)] by (simp add: reset_to_def)
  have live: "t \<noteq> 0" if "m + k < 500" "CfgHasSg c = 0 \<or> CfgHasS2Mm c \<noteq> 0" "CfgHasMm2S c \<noteq> 0 \<longrightarrow> clears (CfgBaseAddr c) m (500 + k) b"
      "CfgHasS2Mm c \<noteq> 0 \<longrightarrow> clears (CfgBaseAddr c + 0x30) k (500 + k) b" for m k
    using reset_wait_succeeds [of d1 m 500 k b1] that f w feeds [OF that(2)] by (simp add: clears_def)
  have stuck: "t = 0" if "CfgHasMm2S c \<noteq> 0" "CfgHasSg c = 0 \<or> CfgHasS2Mm c \<noteq> 0" "\<forall>v\<in>set (feed b (CfgBaseAddr c)). v AND 4 \<noteq> 0"
    using reset_wait_stuck [of d1 b1 500] that f w feeds [OF that(2)] r(2) by (simp add: reset_to_def reset_base_def cfg_dma_fields)
  have stuck_rx: "t = 0" if "CfgHasS2Mm c \<noteq> 0" "\<forall>v\<in>set (feed b (CfgBaseAddr c + 0x30)). v AND 4 \<noteq> 0"
      "cells b (CfgBaseAddr c + 0x30) AND 4 \<noteq> 0"
    using reset_wait_stuck_rx [of d1 b1 500] that f w feeds [of "CfgBaseAddr c + 0x30"] r(2)
    by (simp add: reset_to_def reset_base_def cfg_dma_fields)
  show ?thesis
    by (rule exI [of _ ?st], rule exI [of _ ?d], rule exI [of _ b'], intro conjI run conf writes len polls)
      (use stuck stuck_rx live in auto)
qed

subsection \<open>Transfers without descriptors\<close>

lemma aligned_iff:
  assumes "k < 29"
  shows "(a :: u32) AND of_int (uint (drop_bit 3 (of_int (8 * 2 ^ k) :: u32)) - 1) = 0 \<longleftrightarrow> unat a mod 2 ^ k = 0"
proof -
  have "2 ^ k < (2 :: int) ^ 29"
    using assms power_strict_increasing [of k 29 "2 :: int"] by simp
  then have "uint (of_int (8 * 2 ^ k) :: u32) = 8 * 2 ^ k"
    by (subst uint_word_of_int_eq) (simp add: take_bit_int_eq_self)
  moreover have "uint (drop_bit 3 w) = uint w div 8" for w :: u32
    by (subst unsigned_drop_bit_eq) (use uint_bounded [of w] in \<open>simp add: drop_bit_eq_div take_bit_int_eq_self\<close>)
  ultimately have "uint (drop_bit 3 (of_int (8 * 2 ^ k) :: u32)) = 2 ^ k"
    by (metis nonzero_mult_div_cancel_left zero_neq_numeral)
  then have "of_int (uint (drop_bit 3 (of_int (8 * 2 ^ k) :: u32)) - 1) = (mask k :: u32)"
    by (simp add: mask_eq_exp_minus_1)
  then have "a AND of_int (uint (drop_bit 3 (of_int (8 * 2 ^ k) :: u32)) - 1) = take_bit k a"
    by (simp add: take_bit_eq_mask)
  then show ?thesis
    by (metis take_bit_eq_mod unat_eq_zero unsigned_take_bit_eq)
qed

lemma within_limit_iff:
  assumes "n < 32"
  shows "(len :: u32) \<le> push_bit n 1 - 1 \<longleftrightarrow> unat len < 2 ^ n"
proof -
  have "(2 :: nat) ^ n < 2 ^ 32"
    using assms by (rule power_strict_increasing) simp
  then have "unat (of_nat (2 ^ n) :: u32) = 2 ^ n"
    by (intro unat_of_nat_small) simp
  then have p: "unat (push_bit n 1 :: u32) = 2 ^ n"
    by simp
  have "(1 :: u32) \<le> push_bit n 1"
    by (simp only: word_le_nat_alt p) simp
  then have q: "unat (push_bit n 1 - 1 :: u32) = 2 ^ n - 1"
    by (simp only: of_nat_unat_sub p) simp
  show ?thesis
    unfolding word_le_nat_alt q by (metis Suc_diff_1 less_Suc_eq_le zero_less_numeral zero_less_power)
qed

lemma initialize_configured:
  assumes "XAxiDma_CfgInitialize d (Some c) b = Some (st, d', b')" and "S2MmNumChannels c \<le> 16"
  shows "configured c d'"
proof -
  have "rings_fit (cfg_dma c)"
    using assms(2) by (auto simp: rings_fit_def cfg_dma_fields)
  then obtain d1 b1 where r: "XAxiDma_Reset (cfg_dma c) b = Some (d1, b1)" "reset_to (cfg_dma c) b d1 b1"
    using reset_result by blast
  obtain k where "d' = d1\<lparr>Initialized := k\<rparr>"
    using assms(1) unfolding cfg_initialize_eq [OF assms(2)] by (auto simp: r(1) split_beta split: if_splits)
  then show ?thesis
    using reset_configured [OF r(2) assms(2)] by simp
qed

text \<open>A channel takes a transfer when it is halted, or idle at the second look at its status register \<open>a\<close>.\<close>

definition channel_free :: "addr \<Rightarrow> bus \<Rightarrow> bool" where
  "channel_free a b \<longleftrightarrow> fst (bus_read W32 a b) AND 1 \<noteq> 0 \<or> fst (bus_read W32 a (snd (bus_read W32 a b))) AND 2 \<noteq> 0"

lemma channel_busy_free:
  assumes "ChanBase R = dir_base d dir"
  shows "\<exists>b'. channel_busy d R dir b = (\<not> channel_free (ChanBase R + 4) b, b') \<and> reads_only b b'"
  using assms reads_only_trans [OF reads_only_read reads_only_read]
  by (auto simp: channel_busy_def XAxiDma_Busy_def XAxiDma_ReadReg_def channel_free_def split_beta)

text \<open>The registers a started transfer writes, the length last.\<close>

definition transfer_writes :: "addr \<Rightarrow> addr \<Rightarrow> u32 \<Rightarrow> u32 \<Rightarrow> (addr \<times> u32) list" where
  "transfer_writes base buf cr len = [(base + 0x18, buf), (base, cr OR 1), (base + 0x28, len)]"

lemma transfer_started:
  assumes "AddrWidth d \<le> 32"
  shows "\<exists>cr b'. (let b = XAxiDma_WriteReg (ChanBase R) XAXIDMA_SRCADDR_OFFSET buf b;
      b = (if AddrWidth d > 32 then XAxiDma_WriteReg (ChanBase R) XAXIDMA_SRCADDR_MSB_OFFSET (UPPER_32_BITS buf) b else b);
      b = set_run R b
    in (XST_SUCCESS, XAxiDma_WriteReg (ChanBase R) XAXIDMA_BUFFLEN_OFFSET len b)) = (0, b') \<and>
    writes_of (events b') = writes_of (events b) @ transfer_writes (ChanBase R) buf cr len"
  using assms by (simp add: set_run_def XAxiDma_WriteReg_def XAxiDma_ReadReg_def transfer_writes_def bus_read_def Let_def) blast

lemma transfer_on_result:
  assumes "present \<longrightarrow> ChanBase R = dir_base d dir" and "AddrWidth d \<le> 32"
  shows "\<exists>st b'. transfer_on d R present dir buf len b = (st, b') \<and>
    (st = 0 \<longleftrightarrow> 1 \<le> len \<and> len \<le> MaxTransferLen R \<and> present \<and> channel_free (ChanBase R + 4) b \<and> (buf AND word_bits d R = 0 \<or> HasDRE R \<noteq> 0)) \<and>
    (if st = 0 then \<exists>cr. writes_of (events b') = writes_of (events b) @ transfer_writes (ChanBase R) buf cr len
     else writes_of (events b') = writes_of (events b))"
proof (cases "1 \<le> len \<and> len \<le> MaxTransferLen R \<and> present")
  case True
  obtain b1 where b1: "channel_busy d R dir b = (\<not> channel_free (ChanBase R + 4) b, b1)" "writes_of (events b1) = writes_of (events b)"
    using channel_busy_free [of R d dir b] True assms(1) by (auto simp: reads_only_def)
  have e: "transfer_on d R present dir buf len b =
      (if \<not> channel_free (ChanBase R + 4) b then (1, b1) else if buf AND word_bits d R \<noteq> 0 \<and> HasDRE R = 0 then (15, b1)
       else let b = XAxiDma_WriteReg (ChanBase R) XAXIDMA_SRCADDR_OFFSET buf b1;
              b = (if AddrWidth d > 32 then XAxiDma_WriteReg (ChanBase R) XAXIDMA_SRCADDR_MSB_OFFSET (UPPER_32_BITS buf) b else b);
              b = set_run R b
            in (XST_SUCCESS, XAxiDma_WriteReg (ChanBase R) XAXIDMA_BUFFLEN_OFFSET len b))"
  proof -
    have "\<not> (len < 1 \<or> len > MaxTransferLen R)" "\<not> \<not> present"
      using True by (auto simp: not_less)
    then show ?thesis
      unfolding transfer_on_def by (simp only: if_False b1(1) Let_def prod.case)
  qed
  show ?thesis
  proof (cases "channel_free (ChanBase R + 4) b \<and> (buf AND word_bits d R = 0 \<or> HasDRE R \<noteq> 0)")
    case ok: True
    obtain cr b' where "transfer_on d R present dir buf len b = (0, b')"
        "writes_of (events b') = writes_of (events b) @ transfer_writes (ChanBase R) buf cr len"
      using transfer_started [OF assms(2), of R buf b1 len] ok unfolding e by (auto simp: b1(2))
    then show ?thesis
      using True ok by auto
  next
    case False
    then show ?thesis
      using b1(2) unfolding e by auto
  qed
next
  case False
  then have "\<exists>st. transfer_on d R present dir buf len b = (st, b) \<and> st \<noteq> 0"
    by (auto simp: transfer_on_def not_le)
  then show ?thesis
    using False by auto
qed

text \<open>C25. A transfer on an engine without descriptors, in terms of the configuration it was initialised with: whatever the bus
  has become since, it starts exactly if the length is positive and fits in the length register, the channel exists, is
  halted or idle, and the buffer is aligned to the width of the data bus or the engine realigns.  Then address, run bit and
  length are written in this order; the length, which starts the engine, comes last.  A transfer that is refused writes
  no register.\<close>

theorem axidma_simple_transfer:
  assumes "XAxiDma_CfgInitialize d0 (Some c) b0 = Some (0, d, b1)" and "CfgHasSg c = 0" and "CfgMicroDmaMode c = 0" and "CfgAddrWidth c \<le> 32"
    and "S2MmNumChannels c \<in> {0, 1}" and "Mm2sNumChannels c \<in> {0, 1}" and "SgLengthWidth c = int n" and "n < 32"
    and "(dir, has, dre, width) \<in> {(0, CfgHasMm2S c, CfgHasMm2SDRE c, Mm2SDataWidth c), (1, CfgHasS2Mm c, CfgHasS2MmDRE c, S2MmDataWidth c)}"
    and "width = 8 * 2 ^ k" and "k < 29" and "base = CfgBaseAddr c + 0x30 * of_int dir"
  shows "\<exists>st b'. XAxiDma_SimpleTransfer d buf len dir b = (st, b') \<and>
    (st = 0 \<longleftrightarrow> 0 < unat len \<and> unat len < 2 ^ n \<and> has \<noteq> 0 \<and> channel_free (base + 4) b \<and> (unat buf mod 2 ^ k = 0 \<or> dre \<noteq> 0)) \<and>
    (if st = 0 then \<exists>cr. writes_of (events b') = writes_of (events b) @ transfer_writes base buf cr len
     else writes_of (events b') = writes_of (events b))"
proof -
  have conf: "configured c d"
    using initialize_configured [OF assms(1)] assms(5) by auto
  let ?R = "if dir = 0 then TxBdRing d else XAxiDma_GetRxRing d"
  have run: "XAxiDma_SimpleTransfer d buf len dir b = transfer_on d ?R (has \<noteq> 0) dir buf len b"
    using conf assms(2,9) by (auto simp: XAxiDma_SimpleTransfer_def configured_def)
  have lim: "transfer_limit c w m = push_bit n 1 - 1" for w m
    using assms(3,5-7) by (auto simp: transfer_limit_def push_bit_eq_mult)
  have R: "ChanBase ?R = base" "HasDRE ?R = dre" "MaxTransferLen ?R = push_bit n 1 - 1"
      "word_bits d ?R = of_int (uint (drop_bit 3 (of_int width :: u32)) - 1)" if "has \<noteq> 0"
    using conf assms(3,5,9,12) that lim
    by (auto simp: configured_def channel_of_def XAxiDma_GetRxRing_def word_bits_def)
  have d: "dir_base d dir = base" "AddrWidth d \<le> 32"
    using conf assms(4,12) by (simp_all add: configured_def dir_base_def)
  have len: "0 < unat len \<longleftrightarrow> 1 \<le> len"
    by (simp add: word_le_nat_alt Suc_le_eq)
  show ?thesis
  proof (cases "has = 0")
    case True
    then show ?thesis
      using transfer_on_result [of "has \<noteq> 0" ?R d dir buf len b] d(2) unfolding run by auto
  next
    case False
    then show ?thesis
      using transfer_on_result [of "has \<noteq> 0" ?R d dir buf len b] d
      unfolding run R [OF False] assms(10) within_limit_iff [OF assms(8)] aligned_iff [OF assms(11)] len by simp
  qed
qed

text \<open>An engine with a transmit channel of 32 bits and a length register of 23 bits; its reset ends at the first poll.\<close>

definition dma_cfg :: XAxiDma_Config where
  "dma_cfg = \<lparr>CfgDeviceId = 0, CfgBaseAddr = 0x62200000, CfgHasStsCntrlStrm = 1, CfgHasMm2S = 1, CfgHasMm2SDRE = 0, Mm2SDataWidth = 32,
     CfgHasS2Mm = 0, CfgHasS2MmDRE = 0, S2MmDataWidth = 32, CfgHasSg = 0, Mm2sNumChannels = 1, S2MmNumChannels = 1, Mm2SBurstSize = 16,
     S2MmBurstSize = 16, CfgMicroDmaMode = 0, CfgAddrWidth = 32, SgLengthWidth = 23\<rparr>"

definition dma_bus :: bus where
  "dma_bus = \<lparr>cells = (\<lambda>_. 1), feed = (\<lambda>_. [])(0x62200000 := 4 # replicate 600 0), events = []\<rparr>"

lemma dma_cfg_fields [simp]:
  "CfgBaseAddr dma_cfg = 0x62200000" "CfgHasMm2S dma_cfg = 1" "CfgHasMm2SDRE dma_cfg = 0" "Mm2SDataWidth dma_cfg = 32" "CfgHasS2Mm dma_cfg = 0"
  "CfgHasSg dma_cfg = 0" "Mm2sNumChannels dma_cfg = 1" "S2MmNumChannels dma_cfg = 1" "CfgMicroDmaMode dma_cfg = 0" "CfgAddrWidth dma_cfg = 32"
  "SgLengthWidth dma_cfg = 23"
  by (simp_all add: dma_cfg_def)

theorem axidma_initialize_witness:
  "\<exists>d' b'. XAxiDma_CfgInitialize zero_dma (Some dma_cfg) dma_bus = Some (0, d', b') \<and> Initialized d' = 1 \<and> configured dma_cfg d'"
proof -
  have c: "clears 0x62200000 1 500 dma_bus"
    by (simp add: clears_def dma_bus_def)
  have "0 \<le> S2MmNumChannels dma_cfg" "S2MmNumChannels dma_cfg \<le> 16"
    by simp_all
  from axidma_initialize [OF this, of zero_dma dma_bus]
  obtain st d' b' where w: "XAxiDma_CfgInitialize zero_dma (Some dma_cfg) dma_bus = Some (st, d', b')" "Initialized d' = 1 \<longleftrightarrow> st = 0"
      "configured dma_cfg d'" and live: "\<forall>m k. m + k < 500 \<and> (CfgHasSg dma_cfg = 0 \<or> CfgHasS2Mm dma_cfg \<noteq> 0) \<and>
        (CfgHasMm2S dma_cfg \<noteq> 0 \<longrightarrow> clears (CfgBaseAddr dma_cfg) m (500 + k) dma_bus) \<and>
        (CfgHasS2Mm dma_cfg \<noteq> 0 \<longrightarrow> clears (CfgBaseAddr dma_cfg + 0x30) k (500 + k) dma_bus) \<longrightarrow> st = 0"
    by (elim exE conjE) (rule that)
  have "st = 0"
    using live [rule_format, of 1 0] c by simp
  with w show ?thesis
    by blast
qed

theorem axidma_simple_transfer_witness:
  "\<exists>d b1 b'. XAxiDma_CfgInitialize zero_dma (Some dma_cfg) dma_bus = Some (0, d, b1) \<and>
     XAxiDma_SimpleTransfer d 0x80001000 1500 0 dma_bus = (0, b') \<and>
     (\<exists>cr. writes_of (events b') = [(0x62200018, 0x80001000), (0x62200000, cr OR 1), (0x62200028, 1500)])"
proof -
  have "map_option fst (XAxiDma_CfgInitialize zero_dma (Some dma_cfg) dma_bus) = Some 0"
    by code_simp
  then obtain d b1 where i: "XAxiDma_CfgInitialize zero_dma (Some dma_cfg) dma_bus = Some (0, d, b1)"
    by auto
  have free: "channel_free (0x62200000 + 4) dma_bus"
    by (simp add: channel_free_def dma_bus_def bus_read_val)
  have "\<exists>st b'. XAxiDma_SimpleTransfer d 0x80001000 1500 0 dma_bus = (st, b') \<and>
    (st = 0 \<longleftrightarrow> 0 < unat (1500 :: u32) \<and> unat (1500 :: u32) < 2 ^ 23 \<and> (1 :: int) \<noteq> 0 \<and> channel_free (0x62200000 + 4) dma_bus \<and>
       (unat (0x80001000 :: u32) mod 2 ^ 2 = 0 \<or> (0 :: int) \<noteq> 0)) \<and>
    (if st = 0 then \<exists>cr. writes_of (events b') = writes_of (events dma_bus) @ transfer_writes 0x62200000 0x80001000 cr 1500
     else writes_of (events b') = writes_of (events dma_bus))"
    by (rule axidma_simple_transfer [OF i, where width = 32]) simp_all
  then obtain st b' where t: "XAxiDma_SimpleTransfer d 0x80001000 1500 0 dma_bus = (st, b')" "st = 0"
      "\<exists>cr. writes_of (events b') = writes_of (events dma_bus) @ transfer_writes 0x62200000 0x80001000 cr 1500"
    using free by auto
  have "writes_of (events dma_bus) = []"
    by (simp add: dma_bus_def)
  with i t show ?thesis
    by (simp add: transfer_writes_def)
qed

end
