(* ===== verification/AxiDma_Resume.thy ===== *)
theory AxiDma_Resume
  imports AxiDma_Props
begin

section \<open>Pausing and resuming the DMA engine\<close>

text \<open>
  While the engine is paused its rings take descriptors without telling the hardware; resuming catches up.  The
  property joins the engine (\<open>XAxiDma_Pause\<close>, \<open>XAxiDma_Resume\<close>) with the ring operation \<open>XAxiDma_BdRingToHw\<close>.
\<close>

subsection \<open>Handing over descriptors on a paused ring\<close>

text \<open>The descriptors from \<open>bd\<close> on, and what handing them over writes: status words without the completion bit.\<close>

definition bd_from :: "bdring \<Rightarrow> addr \<Rightarrow> nat \<Rightarrow> addr" where
  "bd_from R bd i = (XAxiDma_BdRingNext R ^^ i) bd"

definition status_writes :: "bdring \<Rightarrow> addr \<Rightarrow> nat \<Rightarrow> (addr \<times> u32) list \<Rightarrow> bool" where
  "status_writes R bd n ws \<longleftrightarrow> length ws = n \<and>
     (\<forall>i<n. fst (ws ! i) = bd_from R bd i + XAXIDMA_BD_STS_OFFSET \<and> snd (ws ! i) AND XAXIDMA_BD_STS_COMPLETE_MASK = 0)"

lemma status_writes_Cons:
  assumes "status_writes R (XAxiDma_BdRingNext R bd) n ws" and "v AND XAXIDMA_BD_STS_COMPLETE_MASK = 0"
  shows "status_writes R bd (Suc n) ((bd + XAXIDMA_BD_STS_OFFSET, v) # ws)"
  using assms by (auto simp: status_writes_def bd_from_def nth_Cons funpow_swap1 split: nat.split)

lemma status_writes_snoc:
  assumes "status_writes R bd n ws" and "v AND XAXIDMA_BD_STS_COMPLETE_MASK = 0"
  shows "status_writes R bd (Suc n) (ws @ [(bd_from R bd n + XAXIDMA_BD_STS_OFFSET, v)])"
  using assms by (auto simp: status_writes_def nth_append less_Suc_eq)

lemma no_complete_bit: "(v AND NOT (m :: u32)) AND m = 0"
  by (metis and.assoc and.left_neutral bit.conj_cancel_left bit.conj_zero_right)

lemma ToHw_loop_writes:
  assumes "ToHw_loop k R bd cr sts b = (Some (c, cr', sts'), b')"
  shows "c = bd_from R bd k \<and> (\<exists>ws. writes_of (events b') = writes_of (events b) @ ws \<and> status_writes R bd k ws)"
  using assms
proof (induction k arbitrary: bd cr sts b)
  case 0
  then show ?case
    by (simp add: bd_from_def status_writes_def)
next
  case (Suc k)
  let ?b1 = "snd (bus_read W32 (bd + 0x18) b)" and ?v = "sts AND NOT XAXIDMA_BD_STS_COMPLETE_MASK"
  let ?b2 = "bus_write W32 (bd + 0x1C) ?v ?b1" and ?n = "XAxiDma_BdRingNext R bd"
  let ?b3 = "snd (bus_read W32 (?n + 0x18) ?b2)"
  let ?b4 = "snd (bus_read W32 (?n + 0x1C) ?b3)"
  have "ToHw_loop k R ?n (fst (bus_read W32 (?n + 0x18) ?b2)) (fst (bus_read W32 (?n + 0x1C) ?b3)) ?b4 = (Some (c, cr', sts'), b')"
    using Suc.prems
    by (simp add: XAxiDma_BdGetLength_def XAxiDma_BdRead_def XAxiDma_BdWrite_def split_beta Let_def split: if_splits)
  from Suc.IH [OF this] obtain ws where IH: "c = bd_from R ?n k" "writes_of (events b') = writes_of (events ?b4) @ ws"
      "status_writes R ?n k ws"
    by blast
  have "writes_of (events ?b4) = writes_of (events b) @ [(bd + 0x1C, ?v)]"
    by (simp add: bus_read_def Let_def)
  then show ?case
    using IH status_writes_Cons [OF IH(3) no_complete_bit]
    by (intro conjI exI [of _ "(bd + 0x1C, ?v) # ws"]) (simp_all add: bd_from_def funpow_swap1)
qed

text \<open>A paused ring takes \<open>n\<close> descriptors without a write to its channel; the last one is the new tail, not completed.\<close>

lemma ToHw_paused:
  assumes "XAxiDma_BdRingToHw R (int n) bd b = (XST_SUCCESS, R', b')" and "0 < n" and "RunState R \<noteq> AXIDMA_CHANNEL_NOT_HALTED"
  shows "\<exists>ws. writes_of (events b') = writes_of (events b) @ ws \<and> status_writes R bd n ws"
    and "HwTail R' = bd_from R bd (n - 1)" and "HwCnt R' = HwCnt R + int n"
    and "R' = R\<lparr>PreHead := PreHead R', PreCnt := PreCnt R', HwTail := HwTail R', HwCnt := HwCnt R'\<rparr>"
    and "cells b' (HwTail R' + XAXIDMA_BD_STS_OFFSET) AND XAXIDMA_BD_STS_COMPLETE_MASK = 0"
proof -
  let ?x = "XAxiDma_BdGetCtrl bd b"
  let ?y = "XAxiDma_BdGetSts bd (snd ?x)"
  obtain r b2 where l: "ToHw_loop (nat (int n - 1)) R bd (fst ?x) (fst ?y) (snd ?y) = (r, b2)"
    by fastforce
  have "r \<noteq> None"
  proof
    assume "r = None"
    with l assms(1,2) show False
      unfolding XAxiDma_BdRingToHw_def by (auto simp: split_beta split: if_splits)
  qed
  then obtain c cr sts where r: "r = Some (c, cr, sts)"
    by (cases r) auto
  let ?b3 = "snd (XAxiDma_BdGetLength c (MaxTransferLen R) b2)" and ?v = "sts AND NOT XAXIDMA_BD_STS_COMPLETE_MASK"
  have R': "R' = R\<lparr>PreHead := XAXIDMA_RING_SEEKAHEAD R (PreHead R) (int n), PreCnt := PreCnt R - int n, HwTail := c, HwCnt := HwCnt R + int n\<rparr>"
    and b': "b' = bus_write W32 (c + 0x1C) ?v ?b3"
    using assms unfolding XAxiDma_BdRingToHw_def by (auto simp: r l split_beta XAxiDma_BdWrite_def Let_def split: if_splits)
  obtain ws where c: "c = bd_from R bd (n - 1)" and ws: "writes_of (events b2) = writes_of (events (snd ?y)) @ ws" "status_writes R bd (n - 1) ws"
    using ToHw_loop_writes [OF l [unfolded r]] assms(2) by (auto simp: nat_diff_distrib)
  have "writes_of (events b') = writes_of (events b) @ ws @ [(bd_from R bd (n - 1) + 0x1C, ?v)]"
    using ws(1) by (simp add: b' c XAxiDma_BdGetLength_def XAxiDma_BdGetCtrl_def XAxiDma_BdGetSts_def XAxiDma_BdRead_def split_beta bus_read_def Let_def)
  then show "\<exists>ws. writes_of (events b') = writes_of (events b) @ ws \<and> status_writes R bd n ws"
    using status_writes_snoc [OF ws(2) no_complete_bit] assms(2) by auto
  show "HwTail R' = bd_from R bd (n - 1)" "HwCnt R' = HwCnt R + int n"
    "R' = R\<lparr>PreHead := PreHead R', PreCnt := PreCnt R', HwTail := HwTail R', HwCnt := HwCnt R'\<rparr>"
    using c by (simp_all add: R')
  show "cells b' (HwTail R' + XAXIDMA_BD_STS_OFFSET) AND XAXIDMA_BD_STS_COMPLETE_MASK = 0"
    using no_complete_bit [of sts XAXIDMA_BD_STS_COMPLETE_MASK] by (simp add: b' R')
qed

subsection \<open>Starting a ring whose channel runs\<close>

text \<open>The channel with base \<open>a\<close> runs: its status register keeps reading as not halted.\<close>

definition running :: "addr \<Rightarrow> bus \<Rightarrow> bool" where
  "running a b \<longleftrightarrow> plain b (a + XAXIDMA_SR_OFFSET) \<and> cells b (a + XAXIDMA_SR_OFFSET) AND XAXIDMA_HALTED_MASK = 0"

lemma running_read [simp]: "running a b \<Longrightarrow> running a (snd (bus_read w x b))"
  by (simp add: running_def)

lemma running_write [simp]: "x \<noteq> a + 4 \<Longrightarrow> running a (bus_write w x v b) = running a b"
  by (simp add: running_def)

lemma hw_started: "running (ChanBase R) b \<Longrightarrow> XAxiDma_BdRingHwIsStarted R b = (True, snd (bus_read W32 (ChanBase R + 4) b))"
  by (simp add: XAxiDma_BdRingHwIsStarted_def XAxiDma_ReadReg_def running_def bus_read_val plain_def split_beta)

text \<open>A ring that can be started: it has descriptors, is not cyclic and uses the plain registers of a 32-bit channel.\<close>

definition startable :: "bdring \<Rightarrow> bool" where
  "startable R \<longleftrightarrow> AllCnt R \<noteq> 0 \<and> Cyclic R = 0 \<and> Addr_ext R = 0 \<and> (IsRxChannel R = 0 \<or> RingIndex R = 0) \<and> RunState R \<noteq> AXIDMA_CHANNEL_NOT_HALTED"

definition tail_write :: "bdring \<Rightarrow> addr \<times> u32" where
  "tail_write R = (ChanBase R + XAXIDMA_TDESC_OFFSET, XAXIDMA_VIRT_TO_PHYS R (HwTail R) AND XAXIDMA_DESC_LSB_MASK)"

lemma start_running:
  assumes "startable R" and "running (ChanBase R) b"
  shows "\<exists>b' ws. XAxiDma_BdRingStart R b = Some (XST_SUCCESS, R\<lparr>RunState := AXIDMA_CHANNEL_NOT_HALTED\<rparr>, b') \<and>
     writes_of (events b') = writes_of (events b) @ ws \<and> ws \<in> {[], [tail_write R]} \<and>
     (HwCnt R > 0 \<and> plain b (HwTail R + XAXIDMA_BD_STS_OFFSET) \<and>
        cells b (HwTail R + XAXIDMA_BD_STS_OFFSET) AND XAXIDMA_BD_STS_COMPLETE_MASK = 0 \<longrightarrow> ws = [tail_write R]) \<and>
     (\<forall>a. a + XAXIDMA_SR_OFFSET \<noteq> ChanBase R + XAXIDMA_TDESC_OFFSET \<longrightarrow> running a b \<longrightarrow> running a b')"
proof -
  let ?s = "\<lambda>b. snd (bus_read W32 (ChanBase R + 4) b)"
  let ?b = "?s (?s (?s b))" and ?R = "R\<lparr>RunState := AXIDMA_CHANNEL_NOT_HALTED\<rparr>"
  let ?t = "bus_read W32 (HwTail R + 0x1C) ?b"
  have t: "write_tdesc ?R c = bus_write W32 (fst (tail_write R)) (snd (tail_write R)) c" for c
    using assms(1) by (auto simp: write_tdesc_def startable_def tail_write_def XAxiDma_WriteReg_def XAXIDMA_VIRT_TO_PHYS_def Let_def)
  have "XAxiDma_UpdateBdRingCDesc R b = Some (0, ?s b)"
    using assms by (simp add: XAxiDma_UpdateBdRingCDesc_def startable_def hw_started)
  moreover have "XAxiDma_StartBdRingHw R (?s b) =
      (0, ?R, if HwCnt R > 0 then if fst ?t AND XAXIDMA_BD_STS_COMPLETE_MASK = 0 then write_tdesc ?R (snd ?t) else snd ?t else ?b)"
    using assms by (simp add: XAxiDma_StartBdRingHw_def startable_def hw_started XAxiDma_BdRead_def split_beta Let_def)
  ultimately have "XAxiDma_BdRingStart R b =
      Some (0, ?R, if HwCnt R > 0 then if fst ?t AND XAXIDMA_BD_STS_COMPLETE_MASK = 0 then write_tdesc ?R (snd ?t) else snd ?t else ?b)"
    by (simp add: XAxiDma_BdRingStart_def)
  moreover have "fst ?t = cells b (HwTail R + 0x1C)" if "plain b (HwTail R + 0x1C)"
  proof -
    have "plain ?b (HwTail R + 0x1C)"
      using that by simp
    then show ?thesis
      by (simp only: bus_read_plain fst_conv cells_bus_read)
  qed
  moreover have "writes_of (events ?b) = writes_of (events b)" "writes_of (events (snd ?t)) = writes_of (events b)"
    by (simp_all add: bus_read_def Let_def)
  ultimately show ?thesis
    by (auto simp: t tail_write_def)
qed

subsection \<open>Pause and resume\<close>

text \<open>An initialised engine with descriptors and two channels, both running.\<close>

definition two_channels :: "XAxiDma \<Rightarrow> bool" where
  "two_channels d \<longleftrightarrow> Initialized d \<noteq> 0 \<and> HasSg d \<noteq> 0 \<and> HasMm2S d \<noteq> 0 \<and> HasS2Mm d \<noteq> 0 \<and> RxNumChannels d = 1 \<and>
     RxBdRing d \<noteq> [] \<and> ChanBase (TxBdRing d) = RegBase d \<and> ChanBase (XAxiDma_GetRxRing d) = RegBase d + 0x30 \<and>
     startable (halt (TxBdRing d)) \<and> startable (halt (XAxiDma_GetRxRing d))"

lemma pause_result:
  assumes "two_channels d"
  shows "XAxiDma_Pause d b = Some (0, d\<lparr>TxBdRing := halt (TxBdRing d), RxBdRing := (RxBdRing d)[0 := halt (XAxiDma_GetRxRing d)]\<rparr>, b)"
  using assms by (simp add: XAxiDma_Pause_def two_channels_def rx_rings_def XAxiDma_GetRxIndexRing_def XAxiDma_GetRxRing_def halt_def)

lemma resume_result:
  assumes d: "two_channels d" "startable (TxBdRing d)" "startable (XAxiDma_GetRxRing d)" and run: "running (RegBase d) b" "running (RegBase d + 0x30) b"
    and tail: "HwCnt (TxBdRing d) > 0" "plain b (HwTail (TxBdRing d) + XAXIDMA_BD_STS_OFFSET)"
      "cells b (HwTail (TxBdRing d) + XAXIDMA_BD_STS_OFFSET) AND XAXIDMA_BD_STS_COMPLETE_MASK = 0"
  shows "\<exists>b' ws. XAxiDma_Resume d b = Some (0, d\<lparr>TxBdRing := (TxBdRing d)\<lparr>RunState := 1\<rparr>,
      RxBdRing := (RxBdRing d)[0 := (XAxiDma_GetRxRing d)\<lparr>RunState := 1\<rparr>]\<rparr>, b') \<and>
    writes_of (events b') = writes_of (events b) @ tail_write (TxBdRing d) # ws \<and> ws \<in> {[], [tail_write (XAxiDma_GetRxRing d)]}"
proof -
  define c where "c = snd (bus_read W32 (RegBase d + 0x30 + 4) (snd (bus_read W32 (RegBase d + 4) b)))"
  have base: "ChanBase (TxBdRing d) = RegBase d" "ChanBase (XAxiDma_GetRxRing d) = RegBase d + 0x30"
    using d(1) by (simp_all add: two_channels_def)
  have started: "XAxiDma_Started d b = (True, c)"
    using d(1) run by (simp add: XAxiDma_Started_def two_channels_def hw_started base c_def)
  have w: "writes_of (events c) = writes_of (events b)" and c: "running (RegBase d) c" "running (RegBase d + 0x30) c"
    using run by (simp_all add: c_def) (simp add: bus_read_def Let_def)
  have "plain c (HwTail (TxBdRing d) + XAXIDMA_BD_STS_OFFSET)"
      "cells c (HwTail (TxBdRing d) + XAXIDMA_BD_STS_OFFSET) AND XAXIDMA_BD_STS_COMPLETE_MASK = 0"
    using tail by (simp_all add: c_def)
  then obtain b1 where tx: "XAxiDma_BdRingStart (TxBdRing d) c = Some (0, (TxBdRing d)\<lparr>RunState := 1\<rparr>, b1)"
      "writes_of (events b1) = writes_of (events b) @ [tail_write (TxBdRing d)]" "running (RegBase d + 0x30) b1"
    using start_running [OF d(2), of c] c tail(1) base w by auto
  obtain b2 ws where rx: "XAxiDma_BdRingStart (XAxiDma_GetRxRing d) b1 = Some (0, (XAxiDma_GetRxRing d)\<lparr>RunState := 1\<rparr>, b2)"
      "writes_of (events b2) = writes_of (events b1) @ ws" "ws \<in> {[], [tail_write (XAxiDma_GetRxRing d)]}"
    using start_running [OF d(3), of b1] tx(3) base by auto
  have "XAxiDma_Resume d b = Some (0, d\<lparr>TxBdRing := (TxBdRing d)\<lparr>RunState := 1\<rparr>,
      RxBdRing := (RxBdRing d)[0 := (XAxiDma_GetRxRing d)\<lparr>RunState := 1\<rparr>]\<rparr>, b2)"
    using d(1) rx(1) by (simp add: XAxiDma_Resume_def started two_channels_def resume_channel_def start_channel_def tx(1)
        rx_rings_def XAxiDma_GetRxIndexRing_def XAxiDma_GetRxRing_def)
  then show ?thesis
    using tx(2) rx(2,3) by auto
qed

text \<open>C23. Pausing an engine with descriptors touches no register.  The transmit ring can then be handed \<open>n\<close> descriptors: only
  their status words are written, the engine is not told.  Resuming sets both rings running again and writes the tail
  register of the transmit channel with the last of these descriptors, so that none of them is left behind; besides
  that it writes at most the tail register of the receive channel.\<close>

theorem axidma_pause_resume:
  assumes "two_channels d" and "XAxiDma_Pause d b = Some (st, d1, b1)"
    and "XAxiDma_BdRingToHw (TxBdRing d1) (int n) bd b1 = (0, R, b2)" and "0 < n" and "0 \<le> HwCnt (TxBdRing d)"
    and "running (RegBase d) b2" and "running (RegBase d + 0x30) b2"
    and "plain b2 (bd_from (TxBdRing d) bd (n - 1) + XAXIDMA_BD_STS_OFFSET)"
  shows "st = 0 \<and> b1 = b \<and> (\<exists>ws. writes_of (events b2) = writes_of (events b) @ ws \<and> status_writes (TxBdRing d) bd n ws) \<and>
    (\<exists>d2 b3 ws. XAxiDma_Resume (d1\<lparr>TxBdRing := R\<rparr>) b2 = Some (0, d2, b3) \<and>
       TxBdRing d2 = R\<lparr>RunState := AXIDMA_CHANNEL_NOT_HALTED\<rparr> \<and> RunState (XAxiDma_GetRxRing d2) = AXIDMA_CHANNEL_NOT_HALTED \<and>
       writes_of (events b3) = writes_of (events b2) @
         (RegBase d + 0x10, XAXIDMA_VIRT_TO_PHYS (TxBdRing d) (bd_from (TxBdRing d) bd (n - 1)) AND XAXIDMA_DESC_LSB_MASK) # ws \<and>
       length ws \<le> 1 \<and> set ws \<subseteq> {tail_write (XAxiDma_GetRxRing d)})"
proof -
  have p: "st = 0" "b1 = b" "d1 = d\<lparr>TxBdRing := halt (TxBdRing d), RxBdRing := (RxBdRing d)[0 := halt (XAxiDma_GetRxRing d)]\<rparr>"
    using assms(2) by (simp_all add: pause_result [OF assms(1)])
  have "XAxiDma_BdRingNext (halt (TxBdRing d)) = XAxiDma_BdRingNext (TxBdRing d)"
    by (simp add: fun_eq_iff halt_def XAxiDma_BdRingNext_def)
  then have nxt: "bd_from (halt (TxBdRing d)) = bd_from (TxBdRing d)" "status_writes (halt (TxBdRing d)) = status_writes (TxBdRing d)"
    by (simp_all add: bd_from_def [abs_def] status_writes_def [abs_def])
  have h: "RunState (halt (TxBdRing d)) \<noteq> AXIDMA_CHANNEL_NOT_HALTED"
    by (simp add: halt_def)
  have "XAxiDma_BdRingToHw (halt (TxBdRing d)) (int n) bd b = (XST_SUCCESS, R, b2)"
    using assms(3) by (simp add: p)
  note T = ToHw_paused [OF this assms(4) h, unfolded nxt]
  let ?d = "d1\<lparr>TxBdRing := R\<rparr>"
  have rx: "XAxiDma_GetRxRing ?d = halt (XAxiDma_GetRxRing d)"
    using assms(1) by (simp add: p(3) XAxiDma_GetRxRing_def two_channels_def)
  obtain x1 x2 x3 x4 where Req: "R = (halt (TxBdRing d))\<lparr>PreHead := x1, PreCnt := x2, HwTail := x3, HwCnt := x4\<rparr>"
    using T(4) by blast
  have R: "startable R" "ChanBase R = RegBase d" "halt R = R" "XAXIDMA_VIRT_TO_PHYS R x = XAXIDMA_VIRT_TO_PHYS (TxBdRing d) x" for x
    using assms(1) by (simp_all add: Req startable_def two_channels_def halt_def XAXIDMA_VIRT_TO_PHYS_def)
  have "two_channels ?d" "startable (TxBdRing ?d)" "startable (XAxiDma_GetRxRing ?d)"
    using assms(1) R unfolding two_channels_def rx by (simp_all add: p(3) halt_def)
  moreover have "0 < HwCnt R"
    using T(3) assms(4,5) by (simp add: halt_def)
  ultimately obtain b3 ws where r: "XAxiDma_Resume ?d b2 = Some (0, ?d\<lparr>TxBdRing := R\<lparr>RunState := 1\<rparr>,
      RxBdRing := (RxBdRing ?d)[0 := (XAxiDma_GetRxRing ?d)\<lparr>RunState := 1\<rparr>]\<rparr>, b3)"
      "writes_of (events b3) = writes_of (events b2) @ tail_write R # ws" "ws \<in> {[], [tail_write (XAxiDma_GetRxRing ?d)]}"
    using resume_result [of ?d b2] assms(6-8) T(2,5) by (auto simp: p(3))
  let ?d2 = "?d\<lparr>TxBdRing := R\<lparr>RunState := 1\<rparr>, RxBdRing := (RxBdRing ?d)[0 := (XAxiDma_GetRxRing ?d)\<lparr>RunState := 1\<rparr>]\<rparr>"
  have tx: "tail_write R = (RegBase d + 0x10, XAXIDMA_VIRT_TO_PHYS (TxBdRing d) (bd_from (TxBdRing d) bd (n - 1)) AND XAXIDMA_DESC_LSB_MASK)"
    using R(2,4) T(2) by (simp add: tail_write_def)
  have "tail_write (XAxiDma_GetRxRing ?d) = tail_write (XAxiDma_GetRxRing d)"
    by (simp add: rx tail_write_def halt_def XAXIDMA_VIRT_TO_PHYS_def)
  then have ws: "length ws \<le> 1" "set ws \<subseteq> {tail_write (XAxiDma_GetRxRing d)}"
    using r(3) by auto
  have d2: "TxBdRing ?d2 = R\<lparr>RunState := 1\<rparr>" "RunState (XAxiDma_GetRxRing ?d2) = 1"
    using assms(1) by (simp_all add: p(3) XAxiDma_GetRxRing_def two_channels_def)
  show ?thesis
    using p(1,2) r(1) r(2) [unfolded tx] ws d2 by (intro conjI T(1) exI [of _ ?d2] exI [of _ b3] exI [of _ ws])
qed

text \<open>A running engine; its transmit ring has one prepared descriptor, a packet of 64 bytes.\<close>

definition dma_ring :: bdring where
  "dma_ring = zero_ring\<lparr>ChanBase := 0x62200000, RunState := 1, MaxTransferLen := 0x7FFFFF, FirstBdPhysAddr := 0x10000, FirstBdAddr := 0x10000,
     LastBdAddr := 0x10000, Length := 64, Separation := 64, PreHead := 0x10000, PreCnt := 1, AllCnt := 1\<rparr>"

definition dma_engine :: XAxiDma where
  "dma_engine = zero_dma\<lparr>RegBase := 0x62200000, HasMm2S := 1, HasS2Mm := 1, Initialized := 1, HasSg := 1, RxNumChannels := 1,
     TxBdRing := dma_ring, RxBdRing := (replicate 16 zero_ring)[0 := dma_ring\<lparr>ChanBase := 0x62200030, IsRxChannel := 1, PreCnt := 0, FreeCnt := 1\<rparr>]\<rparr>"

definition dma_mem :: bus where
  "dma_mem = \<lparr>cells = (\<lambda>_. 0)(0x10018 := 0x0C000040), feed = (\<lambda>_. []), events = []\<rparr>"

lemma dma_engine_two: "two_channels dma_engine"
  by (simp add: two_channels_def dma_engine_def zero_dma_def dma_ring_def zero_ring_def startable_def halt_def XAxiDma_GetRxRing_def)

theorem axidma_pause_resume_witness:
  "\<exists>d1 R b2 d2 b3 ws. XAxiDma_Pause dma_engine dma_mem = Some (0, d1, dma_mem) \<and>
     XAxiDma_BdRingToHw (TxBdRing d1) 1 0x10000 dma_mem = (0, R, b2) \<and> XAxiDma_Resume (d1\<lparr>TxBdRing := R\<rparr>) b2 = Some (0, d2, b3) \<and>
     writes_of (events b3) = writes_of (events b2) @ (0x62200010, 0x10000) # ws"
proof -
  let ?d1 = "dma_engine\<lparr>TxBdRing := halt (TxBdRing dma_engine), RxBdRing := (RxBdRing dma_engine)[0 := halt (XAxiDma_GetRxRing dma_engine)]\<rparr>"
  let ?R = "(halt dma_ring)\<lparr>PreCnt := 0, HwTail := 0x10000, HwCnt := 1\<rparr>"
  note p = pause_result [OF dma_engine_two, of dma_mem]
  obtain b2 where t: "XAxiDma_BdRingToHw (TxBdRing ?d1) (int 1) 0x10000 dma_mem = (0, ?R, b2)" and "feed b2 = (\<lambda>_. [])"
      and "cells b2 = (cells dma_mem)(0x1001C := 0)"
    by (simp add: XAxiDma_BdRingToHw_def dma_engine_def dma_ring_def zero_ring_def halt_def dma_mem_def XAxiDma_BdGetCtrl_def
        XAxiDma_BdGetSts_def XAxiDma_BdGetLength_def XAxiDma_BdRead_def XAxiDma_BdWrite_def bus_read_def XAXIDMA_RING_SEEKAHEAD_def Let_def fun_upd_idem)
  then have run: "running 0x62200000 b2" "running (0x62200000 + 0x30) b2" "plain b2 x" for x
    by (simp_all add: running_def plain_def dma_mem_def)
  have e: "RegBase dma_engine = 0x62200000" "HwCnt (TxBdRing dma_engine) = 0"
      "XAXIDMA_VIRT_TO_PHYS (TxBdRing dma_engine) (bd_from (TxBdRing dma_engine) 0x10000 (1 - 1)) AND XAXIDMA_DESC_LSB_MASK = 0x10000"
    by (simp_all add: dma_engine_def dma_ring_def zero_ring_def XAXIDMA_VIRT_TO_PHYS_def bd_from_def)
  then show ?thesis
    using axidma_pause_resume [OF dma_engine_two p t, unfolded e] run p t by auto
qed

end
