(* ===== verification/Plic.thy ===== *)
theory Plic
  imports Mmio
begin

section \<open>The interrupt controller driver (bsp/plic\_driver.c) and its dispatcher (bsp/bsp.c)\<close>

text \<open>
  \<^verbatim>\<open>plic_instance_t\<close> is a record; the handler table is a list of 16 entries; a function
  pointer is the address of the function, \<open>0\<close> being \<^verbatim>\<open>NULL\<close>.  Calling a \<^verbatim>\<open>NULL\<close> handler is
  undefined in C; the model does not return (\<open>None\<close>).  The handlers themselves are a
  parameter \<open>call\<close> of the dispatcher: \<open>call h ref\<close> is what the function at address \<open>h\<close>
  does to the driver state and the hardware when it gets \<open>ref\<close>.
\<close>

record plic_VectorTableEntry =
  Handler :: addr
  CallBackRef :: addr

record plic_instance_t =
  base_addr :: addr
  num_sources :: u32
  num_priorities :: u32
  HandlerTable :: "plic_VectorTableEntry list"

abbreviation (input) PLIC_PRIORITY_OFFSET :: addr where "PLIC_PRIORITY_OFFSET \<equiv> 0x0000"
abbreviation (input) PLIC_PRIORITY_SHIFT_PER_SOURCE :: nat where "PLIC_PRIORITY_SHIFT_PER_SOURCE \<equiv> 2"
abbreviation (input) PLIC_ENABLE_OFFSET :: addr where "PLIC_ENABLE_OFFSET \<equiv> 0x2000"
abbreviation (input) PLIC_THRESHOLD_OFFSET :: addr where "PLIC_THRESHOLD_OFFSET \<equiv> 0x200000"
abbreviation (input) PLIC_CLAIM_OFFSET :: addr where "PLIC_CLAIM_OFFSET \<equiv> 0x200004"
abbreviation (input) PLIC_NUM_INTERRUPTS :: u32 where "PLIC_NUM_INTERRUPTS \<equiv> 16"
abbreviation (input) PLIC_MAX_SOURCE :: u32 where "PLIC_MAX_SOURCE \<equiv> 1023"
abbreviation (input) MCAUSE_EXTERNAL_INTERRUPT :: u32 where "MCAUSE_EXTERNAL_INTERRUPT \<equiv> 0x8000000b"

subsection \<open>Operations\<close>

definition volatile_memzero32 :: "addr \<Rightarrow> u32 \<Rightarrow> bus \<Rightarrow> bus" where
  "volatile_memzero32 base nbytes b =
     (let words = (nbytes + 4 - 1) div 4
      in fold (\<lambda>i. bus_write W32 (base + 4 * of_nat i) 0) [0..<unat words] b)"

definition PLIC_init ::
  "plic_instance_t \<Rightarrow> addr \<Rightarrow> u32 \<Rightarrow> u32 \<Rightarrow> bus \<Rightarrow> plic_instance_t \<times> bus" where
  "PLIC_init this base nsrc nprio b =
     (let this = this\<lparr>base_addr := base, num_sources := nsrc, num_priorities := nprio,
                      HandlerTable := map (\<lambda>e. e\<lparr>Handler := 0\<rparr>) (HandlerTable this)\<rparr>;
          b = volatile_memzero32 (base_addr this + PLIC_ENABLE_OFFSET) ((nsrc + 7) div 8) b;
          b = volatile_memzero32
                (base_addr this + PLIC_PRIORITY_OFFSET + push_bit PLIC_PRIORITY_SHIFT_PER_SOURCE 1)
                (push_bit PLIC_PRIORITY_SHIFT_PER_SOURCE (nsrc - 1)) b;
          b = bus_write W32 (base_addr this + PLIC_THRESHOLD_OFFSET) 0 b
      in (this, b))"

definition PLIC_set_threshold :: "plic_instance_t \<Rightarrow> u32 \<Rightarrow> bus \<Rightarrow> bus" where
  "PLIC_set_threshold this threshold b =
     bus_write W32 (base_addr this + PLIC_THRESHOLD_OFFSET) threshold b"

definition PLIC_enable_interrupt :: "plic_instance_t \<Rightarrow> u32 \<Rightarrow> bus \<Rightarrow> bus" where
  "PLIC_enable_interrupt this source b =
     (let current_ptr = base_addr this + PLIC_ENABLE_OFFSET + drop_bit 5 source;
          (current, b) = bus_read W32 current_ptr b;
          current = current OR push_bit (unat (source AND 0x1f)) 1
      in bus_write W32 current_ptr current b)"

definition PLIC_disable_interrupt :: "plic_instance_t \<Rightarrow> u32 \<Rightarrow> bus \<Rightarrow> bus" where
  "PLIC_disable_interrupt this source b =
     (let current_ptr = base_addr this + PLIC_ENABLE_OFFSET + drop_bit 5 source;
          (current, b) = bus_read W32 current_ptr b;
          current = current AND NOT (push_bit (unat (source AND 0x1f)) 1)
      in bus_write W32 current_ptr current b)"

definition PLIC_set_priority :: "plic_instance_t \<Rightarrow> u32 \<Rightarrow> u32 \<Rightarrow> bus \<Rightarrow> bus" where
  "PLIC_set_priority this source priority b =
     (if num_priorities this > 0
      then bus_write W32 (base_addr this + PLIC_PRIORITY_OFFSET +
             push_bit PLIC_PRIORITY_SHIFT_PER_SOURCE source) priority b
      else b)"

definition PLIC_claim_interrupt :: "plic_instance_t \<Rightarrow> bus \<Rightarrow> u32 \<times> bus" where
  "PLIC_claim_interrupt this b = bus_read W32 (base_addr this + PLIC_CLAIM_OFFSET) b"

definition PLIC_complete_interrupt :: "plic_instance_t \<Rightarrow> u32 \<Rightarrow> bus \<Rightarrow> bus" where
  "PLIC_complete_interrupt this source b =
     bus_write W32 (base_addr this + PLIC_CLAIM_OFFSET) source b"

definition PLIC_register_interrupt_handler ::
  "plic_instance_t \<Rightarrow> u32 \<Rightarrow> addr \<Rightarrow> addr \<Rightarrow> bus \<Rightarrow> u32 \<times> plic_instance_t \<times> bus" where
  "PLIC_register_interrupt_handler this source_id handler ref b =
     (if source_id \<ge> 1 \<and> source_id < PLIC_NUM_INTERRUPTS then
        let entry = HandlerTable this ! unat source_id in
        if Handler entry = 0 then
          let this = this\<lparr>HandlerTable := (HandlerTable this)
                [unat source_id := entry\<lparr>Handler := handler, CallBackRef := ref\<rparr>]\<rparr>;
              b = PLIC_enable_interrupt this source_id b
          in (source_id, this, b)
        else (0, this, b)
      else (0, this, b))"

definition PLIC_unregister_interrupt_handler ::
  "plic_instance_t \<Rightarrow> u32 \<Rightarrow> bus \<Rightarrow> plic_instance_t \<times> bus" where
  "PLIC_unregister_interrupt_handler this source_id b =
     (if source_id \<ge> 1 \<and> source_id < PLIC_NUM_INTERRUPTS then
        let b = PLIC_disable_interrupt this source_id b;
            this = this\<lparr>HandlerTable := (HandlerTable this)
              [unat source_id := (HandlerTable this ! unat source_id)\<lparr>Handler := 0\<rparr>]\<rparr>
        in (this, b)
      else (this, b))"

type_synonym plic_world = "plic_instance_t \<times> bus"
type_synonym handler_code = "addr \<Rightarrow> addr \<Rightarrow> plic_world \<Rightarrow> plic_world option"

definition external_interrupt_handler ::
  "handler_code \<Rightarrow> u32 \<Rightarrow> plic_world \<Rightarrow> plic_world option" where
  "external_interrupt_handler call cause w =
     do {
       configASSERT (cause = MCAUSE_EXTERNAL_INTERRUPT);
       let (p, b) = w;
       let (source_id, b) = PLIC_claim_interrupt p b;
       (p, b) \<leftarrow> (if source_id \<ge> 1 \<and> source_id < PLIC_NUM_INTERRUPTS
                 then let e = HandlerTable p ! unat source_id in
                      if Handler e = 0 then None else call (Handler e) (CallBackRef e) (p, b)
                 else Some (p, b));
       Some (p, PLIC_complete_interrupt p source_id b)
     }"

subsection \<open>Effect of the register operations\<close>

definition enable_reg :: "plic_instance_t \<Rightarrow> addr" where
  "enable_reg p = base_addr p + PLIC_ENABLE_OFFSET"

lemma source_word:
  assumes "(source :: u32) < 32"
  shows "drop_bit 5 source = 0" and "source AND 0x1f = source"
proof -
  have u: "unat source < 32"
    using assms by (simp add: word_less_nat_alt)
  show "drop_bit 5 source = 0"
    by (rule word_unat_eq_iff [THEN iffD2])
       (use u in \<open>simp add: unat_drop_bit_eq drop_bit_eq_div unat_div\<close>)
  have "source AND mask 5 = take_bit 5 source"
    by (simp only: take_bit_eq_mask)
  also have "take_bit 5 source = source"
    by (rule word_unat_eq_iff [THEN iffD2])
       (use u in \<open>simp add: unsigned_take_bit_eq take_bit_nat_eq_self\<close>)
  finally show "source AND 0x1f = source"
    by (simp add: mask_eq_exp_minus_1)
qed

lemma unat_source: "(source :: u32) < 16 \<Longrightarrow> unat source < 16"
  by (simp add: word_less_nat_alt)

lemma source_ge1: "(1 :: u32) \<le> source \<Longrightarrow> 1 \<le> unat source"
  by (simp add: word_le_nat_alt)

lemma PLIC_enable_plain:
  assumes "source < 32" and "plain b (enable_reg p)"
  shows "cells (PLIC_enable_interrupt p source b) =
           (cells b)(enable_reg p := cells b (enable_reg p) OR push_bit (unat source) 1)"
    and "feed (PLIC_enable_interrupt p source b) = feed b"
  using assms by (simp_all add: PLIC_enable_interrupt_def source_word enable_reg_def bus_read_plain Let_def)

lemma PLIC_disable_plain:
  assumes "source < 32" and "plain b (enable_reg p)"
  shows "cells (PLIC_disable_interrupt p source b) =
           (cells b)(enable_reg p := cells b (enable_reg p) AND NOT (push_bit (unat source) 1))"
    and "feed (PLIC_disable_interrupt p source b) = feed b"
  using assms by (simp_all add: PLIC_disable_interrupt_def source_word enable_reg_def bus_read_plain Let_def)

lemma cells_memzero:
  "cells (fold (\<lambda>i. bus_write W32 (base + 4 * of_nat i) 0) is b) a =
     (if \<exists>i \<in> set is. a = base + 4 * of_nat i then 0 else cells b a)"
  by (induction "is" arbitrary: b) auto

lemma feed_memzero [simp]:
  "feed (fold (\<lambda>i. bus_write W32 (base + 4 * of_nat i) 0) is b) = feed b"
  by (induction "is" arbitrary: b) auto

lemma feed_volatile_memzero32 [simp]: "feed (volatile_memzero32 base n b) = feed b"
  by (simp add: volatile_memzero32_def Let_def)

lemma cells_volatile_memzero32:
  "cells (volatile_memzero32 base n b) a =
     (if \<exists>i < unat ((n + 3) div 4). a = base + 4 * of_nat i then 0 else cells b a)"
proof -
  have "n + 4 - 1 = n + 3"
    by simp
  then show ?thesis
    by (simp only: volatile_memzero32_def Let_def cells_memzero) auto
qed

subsection \<open>Invariant: an enabled source has a handler\<close>

definition plic_inv :: "plic_world \<Rightarrow> bool" where
  "plic_inv w \<longleftrightarrow> (case w of (p, b) \<Rightarrow>
     length (HandlerTable p) = 16 \<and> plain b (enable_reg p) \<and>
     (\<forall>i. bit (cells b (enable_reg p)) i \<longrightarrow>
        1 \<le> i \<and> i < 16 \<and> Handler (HandlerTable p ! i) \<noteq> 0))"

lemma plic_invI:
  assumes "length (HandlerTable p) = 16" and "plain b (enable_reg p)"
    and "\<And>i. bit (cells b (enable_reg p)) i \<Longrightarrow>
           1 \<le> i \<and> i < 16 \<and> Handler (HandlerTable p ! i) \<noteq> 0"
  shows "plic_inv (p, b)"
  using assms by (simp add: plic_inv_def)

lemma plic_invD:
  assumes "plic_inv (p, b)"
  shows "length (HandlerTable p) = 16" and "plain b (enable_reg p)"
    and "bit (cells b (enable_reg p)) i \<Longrightarrow>
           1 \<le> i \<and> i < 16 \<and> Handler (HandlerTable p ! i) \<noteq> 0"
  using assms by (simp_all add: plic_inv_def)

text \<open>A write elsewhere than to the enable register keeps the invariant.\<close>

lemma plic_inv_write_other:
  assumes "plic_inv (p, b)" and "a \<noteq> enable_reg p"
  shows "plic_inv (p, bus_write w a v b)"
  using assms by (simp add: plic_inv_def)

lemma plic_inv_read:
  assumes "plic_inv (p, b)"
  shows "plic_inv (p, snd (bus_read w a b))"
  using assms by (simp add: plic_inv_def)

lemma priority_not_enable:
  assumes "(source :: u32) \<le> PLIC_MAX_SOURCE"
  shows "base_addr p + PLIC_PRIORITY_OFFSET + push_bit 2 source \<noteq> enable_reg p"
proof
  assume "base_addr p + PLIC_PRIORITY_OFFSET + push_bit 2 source = enable_reg p"
  then have "push_bit 2 source = (0x2000 :: u32)"
    by (simp add: enable_reg_def)
  moreover have "unat (push_bit 2 source) = 4 * unat source"
    using assms by (simp add: push_bit_eq_mult unat_word_ariths word_le_nat_alt)
  ultimately have "4 * unat source = unat (0x2000 :: u32)"
    by metis
  with assms show False
    by (simp add: word_le_nat_alt)
qed

lemma plic_inv_register:
  assumes inv: "plic_inv (p, b)" and h: "h \<noteq> 0"
  shows "plic_inv (snd (PLIC_register_interrupt_handler p source h ref b))"
proof (cases "source \<ge> 1 \<and> source < 16 \<and> Handler (HandlerTable p ! unat source) = 0")
  case False
  with inv show ?thesis
    by (auto simp: PLIC_register_interrupt_handler_def Let_def)
next
  case True
  let ?e = "(HandlerTable p ! unat source)\<lparr>Handler := h, CallBackRef := ref\<rparr>"
  let ?p = "p\<lparr>HandlerTable := (HandlerTable p)[unat source := ?e]\<rparr>"
  have lt: "unat source < 16" and s32: "source < 32" and ge: "1 \<le> unat source"
    using True by (auto simp: unat_source word_less_nat_alt word_le_nat_alt)
  have reg: "enable_reg ?p = enable_reg p"
    by (simp add: enable_reg_def)
  have "plic_inv (?p, PLIC_enable_interrupt ?p source b)"
  proof (rule plic_invI)
    show "length (HandlerTable ?p) = 16"
      using inv by (simp add: plic_inv_def)
    show "plain (PLIC_enable_interrupt ?p source b) (enable_reg ?p)"
      using inv s32 by (simp add: plain_def PLIC_enable_plain reg plic_inv_def)
    fix i
    assume "bit (cells (PLIC_enable_interrupt ?p source b) (enable_reg ?p)) i"
    then have "bit (cells b (enable_reg p)) i \<or> i = unat source"
      using inv s32 lt by (simp add: PLIC_enable_plain reg plic_inv_def bit_set_or [simplified])
    then show "1 \<le> i \<and> i < 16 \<and> Handler (HandlerTable ?p ! i) \<noteq> 0"
      using inv h lt ge by (auto simp: plic_inv_def nth_list_update)
  qed
  with True show ?thesis
    by (simp add: PLIC_register_interrupt_handler_def Let_def)
qed

lemma plic_inv_unregister:
  assumes inv: "plic_inv (p, b)"
  shows "plic_inv (PLIC_unregister_interrupt_handler p source b)"
proof (cases "source \<ge> 1 \<and> source < 16")
  case False
  with inv show ?thesis
    by (auto simp: PLIC_unregister_interrupt_handler_def)
next
  case True
  let ?p = "p\<lparr>HandlerTable := (HandlerTable p)
              [unat source := (HandlerTable p ! unat source)\<lparr>Handler := 0\<rparr>]\<rparr>"
  have lt: "unat source < 16" and s32: "source < 32"
    using True by (auto simp: unat_source word_less_nat_alt)
  have reg: "enable_reg ?p = enable_reg p"
    by (simp add: enable_reg_def)
  have "plic_inv (?p, PLIC_disable_interrupt p source b)"
  proof (rule plic_invI)
    show "length (HandlerTable ?p) = 16"
      using inv by (simp add: plic_inv_def)
    show "plain (PLIC_disable_interrupt p source b) (enable_reg ?p)"
      using inv s32 by (simp add: plain_def PLIC_disable_plain reg plic_inv_def)
    fix i
    assume "bit (cells (PLIC_disable_interrupt p source b) (enable_reg ?p)) i"
    then have "bit (cells b (enable_reg p)) i \<and> i \<noteq> unat source"
      using inv s32 lt by (simp add: PLIC_disable_plain reg plic_inv_def bit_clear_and [simplified])
    then show "1 \<le> i \<and> i < 16 \<and> Handler (HandlerTable ?p ! i) \<noteq> 0"
      using inv by (auto simp: plic_inv_def nth_list_update)
  qed
  with True show ?thesis
    by (simp add: PLIC_unregister_interrupt_handler_def Let_def)
qed

lemma PLIC_init_inv:
  assumes len: "length (HandlerTable p) = 16" and reg: "plain b (base + PLIC_ENABLE_OFFSET)"
    and n: "1 \<le> nsrc" "nsrc \<le> 1024"
  shows "plic_inv (PLIC_init p base nsrc nprio b)"
proof -
  have "unat (nsrc + 7) = unat nsrc + 7"
    using n by (simp add: unat_word_ariths word_le_nat_alt)
  then have "unat ((nsrc + 7) div 8) = (unat nsrc + 7) div 8"
    by (simp add: unat_div)
  then have "unat ((nsrc + 7) div 8 + 3) = (unat nsrc + 7) div 8 + 3"
    using n by (simp add: unat_word_ariths word_le_nat_alt)
  then have "0 < unat (((nsrc + 7) div 8 + 3) div 4)"
    using n by (simp add: unat_div word_le_nat_alt)
  then have zero: "cells (volatile_memzero32 (base + PLIC_ENABLE_OFFSET) ((nsrc + 7) div 8) b)
                     (base + PLIC_ENABLE_OFFSET) = 0"
    by (auto simp: cells_volatile_memzero32 intro: exI [of _ 0])
  then have "cells (snd (PLIC_init p base nsrc nprio b)) (base + PLIC_ENABLE_OFFSET) = 0"
    by (simp add: PLIC_init_def Let_def cells_volatile_memzero32)
  moreover have "feed (snd (PLIC_init p base nsrc nprio b)) = feed b"
    by (simp add: PLIC_init_def Let_def)
  moreover have "base_addr (fst (PLIC_init p base nsrc nprio b)) = base"
    "length (HandlerTable (fst (PLIC_init p base nsrc nprio b))) = 16"
    using len by (simp_all add: PLIC_init_def Let_def)
  ultimately show ?thesis
    using reg by (simp add: plic_inv_def enable_reg_def plain_def split_beta)
qed

subsection \<open>The driver as a step relation\<close>

text \<open>
  The start states are those \<^verbatim>\<open>prvSetupHardware\<close> makes with its call of \<open>PLIC_init\<close>; a step
  is any call of the driver's interface (priorities of sources the controller has, handlers
  that are functions).
\<close>

abbreviation (input) PLIC_BASE_ADDR :: addr where "PLIC_BASE_ADDR \<equiv> 0xC000000"
abbreviation (input) PLIC_NUM_SOURCES :: u32 where "PLIC_NUM_SOURCES \<equiv> 16"
abbreviation (input) PLIC_NUM_PRIORITIES :: u32 where "PLIC_NUM_PRIORITIES \<equiv> 16"

definition plic_start :: "plic_world \<Rightarrow> bool" where
  "plic_start w \<longleftrightarrow> (\<exists>p b. length (HandlerTable p) = 16 \<and>
     plain b (PLIC_BASE_ADDR + PLIC_ENABLE_OFFSET) \<and>
     w = PLIC_init p PLIC_BASE_ADDR PLIC_NUM_SOURCES PLIC_NUM_PRIORITIES b)"

inductive plic_step :: "plic_world \<Rightarrow> plic_world \<Rightarrow> bool" where
  set_priority: "source \<le> PLIC_MAX_SOURCE \<Longrightarrow>
     plic_step (p, b) (p, PLIC_set_priority p source priority b)"
| set_threshold: "plic_step (p, b) (p, PLIC_set_threshold p threshold b)"
| register: "h \<noteq> 0 \<Longrightarrow>
     plic_step (p, b) (snd (PLIC_register_interrupt_handler p source h ref b))"
| unregister: "plic_step (p, b) (PLIC_unregister_interrupt_handler p source b)"
| claim: "plic_step (p, b) (p, snd (PLIC_claim_interrupt p b))"
| complete: "plic_step (p, b) (p, PLIC_complete_interrupt p source b)"

inductive_cases plic_stepE: "plic_step w w'"

lemma plic_inv_step: "plic_inv w \<Longrightarrow> plic_step w w' \<Longrightarrow> plic_inv w'"
proof (erule plic_stepE)
  fix source p b priority
  assume "plic_inv w" "w = (p, b)" "w' = (p, PLIC_set_priority p source priority b)"
    "source \<le> PLIC_MAX_SOURCE"
  then show "plic_inv w'"
    using priority_not_enable [of source p]
    by (auto simp: PLIC_set_priority_def intro: plic_inv_write_other)
next
  fix p b threshold
  assume "plic_inv w" "w = (p, b)" "w' = (p, PLIC_set_threshold p threshold b)"
  then show "plic_inv w'"
    by (auto simp: PLIC_set_threshold_def enable_reg_def intro: plic_inv_write_other)
next
  fix p b source
  assume "plic_inv w" "w = (p, b)" "w' = (p, PLIC_complete_interrupt p source b)"
  then show "plic_inv w'"
    by (auto simp: PLIC_complete_interrupt_def enable_reg_def intro: plic_inv_write_other)
qed (auto simp: PLIC_claim_interrupt_def intro: plic_inv_register plic_inv_unregister plic_inv_read)

interpretation plic: inv_system plic_start plic_step plic_inv
proof unfold_locales
  fix s
  assume "plic_start s"
  then show "plic_inv s"
    by (auto simp: plic_start_def intro: PLIC_init_inv)
qed (rule plic_inv_step)

subsection \<open>Properties\<close>

lemma register_effect:
  assumes "length (HandlerTable p) = 16" and "plain b (enable_reg p)"
    and "1 \<le> source" and "source < PLIC_NUM_INTERRUPTS"
    and "Handler (HandlerTable p ! unat source) = 0"
    and "PLIC_register_interrupt_handler p source h ref b = (r, p', b')"
  shows "r = source" and "Handler (HandlerTable p' ! unat source) = h"
    and "CallBackRef (HandlerTable p' ! unat source) = ref"
    and "base_addr p' = base_addr p" and "feed b' = feed b"
    and "k \<noteq> unat source \<Longrightarrow> HandlerTable p' ! k = HandlerTable p ! k"
    and "bit (cells b' (enable_reg p)) j \<longleftrightarrow> bit (cells b (enable_reg p)) j \<or> j = unat source"
proof -
  let ?p = "p\<lparr>HandlerTable := (HandlerTable p)[unat source :=
     (HandlerTable p ! unat source)\<lparr>Handler := h, CallBackRef := ref\<rparr>]\<rparr>"
  have lt: "unat source < 16" and s32: "source < 32"
    using assms(4) by (auto simp: unat_source word_less_nat_alt)
  have eq: "r = source" "p' = ?p" "b' = PLIC_enable_interrupt ?p source b"
    using assms(3-6) by (auto simp: PLIC_register_interrupt_handler_def Let_def)
  have reg: "enable_reg ?p = enable_reg p"
    by (simp add: enable_reg_def)
  show "r = source" "Handler (HandlerTable p' ! unat source) = h"
    "CallBackRef (HandlerTable p' ! unat source) = ref" "base_addr p' = base_addr p"
    "k \<noteq> unat source \<Longrightarrow> HandlerTable p' ! k = HandlerTable p ! k"
    using eq lt assms(1) by simp_all
  show "feed b' = feed b"
    using eq assms(2) s32 by (simp add: PLIC_enable_plain reg)
  show "bit (cells b' (enable_reg p)) j \<longleftrightarrow> bit (cells b (enable_reg p)) j \<or> j = unat source"
    using eq assms(2) s32 lt by (simp add: PLIC_enable_plain reg bit_set_or [simplified])
qed

text \<open>
  C2.  In every state the driver can reach from \<^verbatim>\<open>prvSetupHardware\<close>, when the controller
  claims a source it has enabled (or none), the dispatcher never calls a \<^verbatim>\<open>NULL\<close> handler:
  it calls exactly the handler registered for the claimed source, with the callback
  reference registered with it, and then, if that handler returns, writes the claimed source
  to the completion register and returns.
\<close>

theorem dispatch_safe:
  assumes "reach plic_start plic_step (p, b)"
    and "PLIC_claim_interrupt p b = (source, b1)"
    and "source = 0 \<or> bit (cells b (enable_reg p)) (unat source)"
  shows "(source \<noteq> 0 \<longrightarrow> Handler (HandlerTable p ! unat source) \<noteq> 0) \<and>
         external_interrupt_handler call MCAUSE_EXTERNAL_INTERRUPT (p, b) =
           (if source = 0 then Some (p, PLIC_complete_interrupt p 0 b1)
            else do {
              (p', b') \<leftarrow> call (Handler (HandlerTable p ! unat source))
                              (CallBackRef (HandlerTable p ! unat source)) (p, b1);
              Some (p', PLIC_complete_interrupt p' source b')
            })"
proof -
  have "plic_inv (p, b)"
    using assms(1) by (rule plic.reach_inv)
  then have "1 \<le> source \<and> source < 16 \<and> Handler (HandlerTable p ! unat source) \<noteq> 0"
    if "source \<noteq> 0"
    using plic_invD(3) [of p b "unat source"] assms(3) that
    by (auto simp: word_less_nat_alt word_le_nat_alt)
  then show ?thesis
    using assms(2) by (auto simp: external_interrupt_handler_def Let_def)
qed

definition demo_plic :: plic_instance_t where
  "demo_plic = \<lparr>base_addr = 0, num_sources = 0, num_priorities = 0,
     HandlerTable = replicate 16 \<lparr>Handler = 0, CallBackRef = 0\<rparr>\<rparr>"

definition demo_bus :: bus where
  "demo_bus = \<lparr>cells = (\<lambda>_. 0xffffffff), feed = (\<lambda>_. [])(0xC200004 := [1]), events = []\<rparr>"

definition demo_world :: plic_world where
  "demo_world = (case PLIC_init demo_plic 0xC000000 16 16 demo_bus of
     (p, b) \<Rightarrow> snd (PLIC_register_interrupt_handler p 1 0x80001000 0x80002000 b))"

lemma demo_world_reach: "reach plic_start plic_step demo_world"
proof -
  obtain p b where pb: "PLIC_init demo_plic 0xC000000 16 16 demo_bus = (p, b)"
    by fastforce
  have "plic_start (p, b)"
    unfolding plic_start_def pb [symmetric]
    by (intro exI [of _ demo_plic] exI [of _ demo_bus])
       (simp add: demo_plic_def demo_bus_def plain_def)
  then have "reach plic_start plic_step (p, b)"
    by (rule reach_init)
  moreover have "plic_step (p, b) demo_world"
    unfolding demo_world_def pb prod.case by (rule plic_step.register) simp
  ultimately show ?thesis
    by (rule reach_step)
qed

theorem dispatch_safe_witness:
  "external_interrupt_handler (\<lambda>h ref w. Some w) MCAUSE_EXTERNAL_INTERRUPT demo_world =
     Some (fst demo_world, PLIC_complete_interrupt (fst demo_world) 1
       (snd (PLIC_claim_interrupt (fst demo_world) (snd demo_world))))"
proof -
  have claim: "PLIC_claim_interrupt (fst demo_world) (snd demo_world) =
      (1, snd (PLIC_claim_interrupt (fst demo_world) (snd demo_world)))"
    by (rule prod_eqI) (code_simp, simp)
  have enabled: "(1 :: u32) = 0 \<or>
      bit (cells (snd demo_world) (enable_reg (fst demo_world))) (unat (1 :: u32))"
    by code_simp
  show ?thesis
    using dispatch_safe [of "fst demo_world" "snd demo_world" 1 _ "\<lambda>h ref w. Some w",
        OF _ claim enabled] demo_world_reach
    by simp
qed

text \<open>
  Registering a handler is exclusive: on a free source in range it stores the handler and
  its callback reference, sets exactly that source's enable bit and returns the source; on a
  source that is out of range or already has a handler it returns 0 and changes nothing.
\<close>

theorem register_exclusive:
  assumes "length (HandlerTable p) = 16" and "plain b (enable_reg p)"
    and "PLIC_register_interrupt_handler p source h ref b = (r, p', b')"
  shows "if 1 \<le> source \<and> source < PLIC_NUM_INTERRUPTS \<and> Handler (HandlerTable p ! unat source) = 0
         then r = source \<and> Handler (HandlerTable p' ! unat source) = h \<and>
              CallBackRef (HandlerTable p' ! unat source) = ref \<and>
              (\<forall>k. k \<noteq> unat source \<longrightarrow> HandlerTable p' ! k = HandlerTable p ! k) \<and>
              (\<forall>j. bit (cells b' (enable_reg p')) j \<longleftrightarrow>
                     bit (cells b (enable_reg p)) j \<or> j = unat source)
         else r = 0 \<and> p' = p \<and> b' = b"
proof (cases "1 \<le> source \<and> source < 16 \<and> Handler (HandlerTable p ! unat source) = 0")
  case True
  then have "enable_reg p' = enable_reg p"
    using register_effect(4) [OF assms(1,2) _ _ _ assms(3)] by (simp add: enable_reg_def)
  with True show ?thesis
    using register_effect [OF assms(1,2) _ _ _ assms(3)] by simp
next
  case False
  then show ?thesis
    using assms(3) by (auto simp: PLIC_register_interrupt_handler_def Let_def split: if_splits)
qed

theorem register_exclusive_witness:
  "fst (PLIC_register_interrupt_handler demo_plic 5 0x80001000 7 demo_bus) = 5 \<and>
   CallBackRef (HandlerTable (fst (snd
     (PLIC_register_interrupt_handler demo_plic 5 0x80001000 7 demo_bus))) ! 5) = 7"
proof -
  obtain r p' b' where eq:
    "PLIC_register_interrupt_handler demo_plic 5 0x80001000 7 demo_bus = (r, p', b')"
    by (metis prod_cases3)
  have "length (HandlerTable demo_plic) = 16" "plain demo_bus (enable_reg demo_plic)"
    "Handler (HandlerTable demo_plic ! 5) = 0"
    by (simp_all add: demo_plic_def demo_bus_def plain_def enable_reg_def)
  then show ?thesis
    using register_exclusive [OF _ _ eq] by (simp add: eq)
qed

end
