(* ===== verification/Tftp.thy ===== *)
theory Tftp
  imports Prelude "HOL-Library.Char_ord"
begin

section \<open>The TFTP client of the network boot loader (demo/main\_netboot.c)\<close>

text \<open>
  \<^verbatim>\<open>prvTftpReceive\<close> downloads a file over UDP with the block-size and window-size options of
  RFC 2348 and RFC 7440.  The model has

  \<^item> the client state \<^verbatim>\<open>struct tftp_client_state\<close> as a record, with its 16-bit fields as
    16-bit words;
  \<^item> \<open>tftp_io\<close>: the memory the file is stored in and a log of the calls into the network stack
    (datagrams sent, payload buffers released, socket closed);
  \<^item> the network stack, which is not part of this repository, as a record of parameters
    \<open>netapi\<close>: \<^verbatim>\<open>FreeRTOS_htons\<close>, \<^verbatim>\<open>FreeRTOS_ntohs\<close>, \<^verbatim>\<open>FreeRTOS_inet_addr\<close>, \<^verbatim>\<open>FreeRTOS_socket\<close>, and
    the result of \<^verbatim>\<open>FreeRTOS_sendto\<close> as a function of the log and the length;
  \<^item> the results of \<^verbatim>\<open>FreeRTOS_recvfrom\<close> as a list that the receive loop consumes, one element an
    iteration; a loop that has used up the list is still waiting.

  \<^verbatim>\<open>pvPortMalloc\<close> is taken to succeed, as the code does, and progress messages (with the clock
  they read) are left out.
\<close>

subsection \<open>Bytes and C strings\<close>

definition bytes_of :: "string \<Rightarrow> u8 list" where
  "bytes_of s = map of_char s"

definition le16 :: "u16 \<Rightarrow> u8 list" where
  "le16 w = [ucast w, ucast (drop_bit 8 w)]"

text \<open>A 16-bit load from a byte buffer; reading past the end gives zeros.\<close>

definition byte_at :: "u8 list \<Rightarrow> nat \<Rightarrow> u8" where
  "byte_at bs i = (if i < length bs then bs ! i else 0)"

definition load16 :: "u8 list \<Rightarrow> nat \<Rightarrow> u16" where
  "load16 bs i = ucast (byte_at bs i) OR push_bit 8 (ucast (byte_at bs (i + 1)))"

text \<open>The NUL-terminated string at an offset.\<close>

definition cstr_at :: "u8 list \<Rightarrow> nat \<Rightarrow> u8 list" where
  "cstr_at bs i = takeWhile (\<lambda>c. c \<noteq> 0) (drop i bs)"

definition mem_write :: "addr \<Rightarrow> u8 list \<Rightarrow> (addr \<Rightarrow> u8) \<Rightarrow> (addr \<Rightarrow> u8)" where
  "mem_write a bs m = (\<lambda>x. if unat (x - a) < length bs then bs ! unat (x - a) else m x)"

subsection \<open>State\<close>

record tftp_client_state =
  sock :: u32
  dst_addr :: u32
  dst_port :: u16
  dstaddrlen :: u32
  winbuf :: addr
  recvpacket :: "u8 list option"
  winprev :: u16
  winstart :: u16
  winsize :: u16
  winbits :: u16
  blksize :: u16
  lastblock :: u16
  lastsize :: u16
  retries :: u8
  havetid :: bool
  pastrrq :: bool

datatype tftp_event = Sent u32 u16 "u8 list" | Released | Closed

record tftp_io =
  mem :: "addr \<Rightarrow> u8"
  log :: "tftp_event list"

record netapi =
  htons :: "u16 \<Rightarrow> u16"
  ntohs :: "u16 \<Rightarrow> u16"
  inet_addr :: "string \<Rightarrow> u32"
  socket :: u32
  sendto :: "tftp_event list \<Rightarrow> nat \<Rightarrow> int"

text \<open>
  What \<^verbatim>\<open>FreeRTOS_recvfrom\<close> gives: a negative error code, or the source address and port and the
  payload.  \<open>slack\<close> is what lies in the network buffer after the payload up to the next zero
  byte: the strings of an option acknowledgement are read without a terminator having been
  written behind the payload.
\<close>

datatype recv_result = RecvError int | Packet u32 u16 (payload: "u8 list") (slack: "u8 list")

abbreviation (input) EWOULDBLOCK :: int where "EWOULDBLOCK \<equiv> 11"
abbreviation (input) INVALID_SOCKET :: u32 where "INVALID_SOCKET \<equiv> 0xffffffff"
abbreviation (input) TFTP_OP_RRQ :: u16 where "TFTP_OP_RRQ \<equiv> 1"
abbreviation (input) TFTP_OP_DATA :: u16 where "TFTP_OP_DATA \<equiv> 3"
abbreviation (input) TFTP_OP_ACK :: u16 where "TFTP_OP_ACK \<equiv> 4"
abbreviation (input) TFTP_OP_ERROR :: u16 where "TFTP_OP_ERROR \<equiv> 5"
abbreviation (input) TFTP_OP_OACK :: u16 where "TFTP_OP_OACK \<equiv> 6"
abbreviation (input) TFTP_MAX_BLKSIZE :: u16 where "TFTP_MAX_BLKSIZE \<equiv> 1024"
abbreviation (input) TFTP_MAX_WINSIZE :: u16 where "TFTP_MAX_WINSIZE \<equiv> 16"
abbreviation (input) TFTP_MAX_RETRIES :: u8 where "TFTP_MAX_RETRIES \<equiv> 5"

type_synonym tftp = "tftp_client_state \<times> tftp_io"

subsection \<open>Sending\<close>

definition release :: "tftp_io \<Rightarrow> tftp_io" where
  "release io = io\<lparr>log := log io @ [Released]\<rparr>"

definition closesocket :: "tftp_io \<Rightarrow> tftp_io" where
  "closesocket io = io\<lparr>log := log io @ [Closed]\<rparr>"

definition send :: "netapi \<Rightarrow> tftp_client_state \<Rightarrow> u8 list \<Rightarrow> tftp_io \<Rightarrow> int \<times> tftp_io" where
  "send N st pkt io =
     (sendto N (log io) (length pkt), io\<lparr>log := log io @ [Sent (dst_addr st) (dst_port st) pkt]\<rparr>)"

definition error_packet :: "netapi \<Rightarrow> u16 \<Rightarrow> string \<Rightarrow> u8 list" where
  "error_packet N code message =
     le16 (htons N TFTP_OP_ERROR) @ le16 (htons N code) @ bytes_of message @ [0]"

definition prvTftpTerminate :: "netapi \<Rightarrow> u16 \<Rightarrow> string \<Rightarrow> tftp \<Rightarrow> tftp" where
  "prvTftpTerminate N code message = (\<lambda>(st, io).
     let (st, io) = (case recvpacket st of None \<Rightarrow> (st, io)
                     | Some _ \<Rightarrow> (st\<lparr>recvpacket := None\<rparr>, release io));
         (_, io) = send N st (error_packet N code message) io
     in (st, closesocket io))"

definition rrq_options :: "u8 list" where
  "rrq_options = bytes_of ''blksize'' @ [0] @ bytes_of ''1024'' @ [0] @
     bytes_of ''windowsize'' @ [0] @ bytes_of ''16'' @ [0]"

definition rrq_packet :: "netapi \<Rightarrow> bool \<Rightarrow> string \<Rightarrow> u8 list" where
  "rrq_packet N with_options name =
     le16 (htons N TFTP_OP_RRQ) @ bytes_of name @ [0] @ bytes_of ''octet'' @ [0] @
     (if with_options then rrq_options else [])"

definition prvTftpRrq :: "netapi \<Rightarrow> string \<Rightarrow> tftp \<Rightarrow> int \<times> tftp" where
  "prvTftpRrq N name = (\<lambda>(st, io).
     if retries st = TFTP_MAX_RETRIES
     then (1, prvTftpTerminate N 0 ''Retry limit exceeded'' (st, io))
     else
       let st = st\<lparr>retries := retries st + 1\<rparr>;
           packet = rrq_packet N (winsize st = 0) name;
           (err, io) = send N st packet io
       in if err \<noteq> int (length packet) then (1, st, io) else (0, st, io))"

text \<open>The loop of \<^verbatim>\<open>prvTftpAck\<close> that advances \<^verbatim>\<open>winlast\<close> over the low one bits.\<close>

function count_acked :: "u16 \<Rightarrow> u16 \<Rightarrow> u16" where
  "count_acked bits winlast =
     (if bits AND 1 \<noteq> 0 then count_acked (drop_bit 1 bits) (winlast + 1) else winlast)"
  by auto

termination
proof (relation "measure (\<lambda>(bits, _). unat bits)")
  fix bits winlast :: u16
  assume "bits AND 1 \<noteq> 0"
  then have "0 < unat bits"
    by (cases "bits = 0") (auto simp: unat_gt_0)
  moreover have "unat (drop_bit 1 bits) = unat bits div 2"
    by (simp add: drop_bit_Suc unat_div)
  ultimately show "((drop_bit 1 bits, winlast + 1), bits, winlast) \<in> measure (\<lambda>(bits, _). unat bits)"
    by simp
qed simp

declare count_acked.simps [simp del]

definition ack_packet :: "netapi \<Rightarrow> u16 \<Rightarrow> u8 list" where
  "ack_packet N block = le16 (htons N TFTP_OP_ACK) @ le16 (htons N block)"

text \<open>
  \<^verbatim>\<open>winlast != state->winstart - 1\<close> compares in \<^verbatim>\<open>int\<close>: for \<open>winstart = 0\<close> the right side is
  \<open>-1\<close>, which no 16-bit \<^verbatim>\<open>winlast\<close> equals.
\<close>

definition prvTftpAck :: "netapi \<Rightarrow> tftp \<Rightarrow> int \<times> tftp" where
  "prvTftpAck N = (\<lambda>(st, io).
     let winlast = count_acked (winbits st) (winstart st - 1);
         send_ack = (\<lambda>st.
           let packet = ack_packet N winlast;
               (err, io) = send N st packet io
           in if err \<noteq> int (length packet)
              then (1, prvTftpTerminate N 0 ''Failed to send ACK'' (st, io)) else (0, st, io)) in
     if uint winlast \<noteq> uint (winstart st) - 1 then
       let numack = winlast - winstart st + 1;
           wb = winbuf st + of_int ((uint numack - 1) * uint (blksize st));
           wb = (if winlast = lastblock st then wb + ucast (lastsize st) else wb + ucast (blksize st))
       in send_ack (st\<lparr>winbits := 0, winstart := winstart st + numack, winbuf := wb, retries := 0\<rparr>)
     else if retries st = TFTP_MAX_RETRIES
     then (1, prvTftpTerminate N 0 ''Retry limit exceeded'' (st, io))
     else send_ack (st\<lparr>retries := retries st + 1\<rparr>))"

subsection \<open>Parsing an option acknowledgement\<close>

fun parse_num :: "u16 \<Rightarrow> u8 list \<Rightarrow> u16 \<Rightarrow> u16 option" where
  "parse_num limit [] acc = Some acc"
| "parse_num limit (v # vs) acc =
     (if v < 48 \<or> v > 57 then None
      else
        let acc = acc * 10 + (ucast v - 48)
        in if acc > limit then None else parse_num limit vs acc)"

datatype oack_error = MissingValue | BadValue

text \<open>
  The \<^verbatim>\<open>while\<close> loop over the options: \<open>bs\<close> is the buffer, \<open>fromlen\<close> the number of bytes received,
  \<open>opt\<close> the offset of the next option; \<open>ws\<close> and \<open>bz\<close> are the sizes seen so far.
\<close>

function parse_oack ::
  "u8 list \<Rightarrow> nat \<Rightarrow> nat \<Rightarrow> u16 \<Rightarrow> u16 \<Rightarrow> oack_error + (u16 \<times> u16)" where
  "parse_oack bs fromlen opt ws bz =
     (if \<not> opt < fromlen then Inr (ws, bz)
      else
        let name = cstr_at bs opt;
            val = opt + length name + 1 in
        if val \<ge> fromlen then Inl MissingValue
        else
          let str = cstr_at bs val;
              next = val + length str + 1 in
          if name = bytes_of ''windowsize'' then
            (case parse_num TFTP_MAX_WINSIZE str 0 of
               None \<Rightarrow> Inl BadValue
             | Some v \<Rightarrow> if v = 0 then Inl BadValue else parse_oack bs fromlen next v bz)
          else if name = bytes_of ''blksize'' then
            (case parse_num TFTP_MAX_BLKSIZE str 0 of
               None \<Rightarrow> Inl BadValue
             | Some v \<Rightarrow> if v < 8 then Inl BadValue else parse_oack bs fromlen next ws v)
          else parse_oack bs fromlen next ws bz)"
  by auto

termination
  by (relation "measure (\<lambda>(_, fromlen, opt, _, _). fromlen - opt)") auto

declare parse_oack.simps [simp del]

subsection \<open>The packet handlers\<close>

text \<open>
  What the body of the receive loop does next: go on with the loop, or return with a status and
  the value stored through \<^verbatim>\<open>size\<close>, if any.
\<close>

datatype outcome = Continue | Return int "u32 option"

text \<open>The common end of an iteration: the payload buffer is given back.\<close>

definition release_recv :: "tftp \<Rightarrow> outcome \<times> tftp" where
  "release_recv = (\<lambda>(st, io). (Continue, st\<lparr>recvpacket := None\<rparr>, release io))"

definition handle_error :: "netapi \<Rightarrow> u16 \<Rightarrow> string \<Rightarrow> nat \<Rightarrow> tftp \<Rightarrow> outcome \<times> tftp" where
  "handle_error N port name fromlen = (\<lambda>(st, io).
     if fromlen < 4 then (Return 1 None, prvTftpTerminate N 0 ''Error packet too short'' (st, io))
     else if winsize st = 0 then
       let st = st\<lparr>winsize := 1, blksize := 512, retries := 0, havetid := False, pastrrq := False,
                   dst_port := htons N port\<rparr>;
           (r, st, io) = prvTftpRrq N name (st, io)
       in if r \<noteq> 0 then (Return 1 None, st, io) else release_recv (st, io)
     else (Return 1 None, st, io))"

definition handle_oack :: "netapi \<Rightarrow> u8 list \<Rightarrow> nat \<Rightarrow> tftp \<Rightarrow> outcome \<times> tftp" where
  "handle_oack N bs fromlen = (\<lambda>(st, io).
     if winbuf st \<noteq> 0 then release_recv (st, io)
     else
       let (r, st, io) = (if winsize st \<noteq> 0 then prvTftpAck N (st, io) else (0, st, io)) in
       if r \<noteq> 0 then (Return 1 None, st, io)
       else
         (case parse_oack bs fromlen 2 1 512 of
            Inl MissingValue \<Rightarrow> (Return 1 None, prvTftpTerminate N 0 ''Option missing value'' (st, io))
          | Inl BadValue \<Rightarrow> (Return 1 None, prvTftpTerminate N 0 ''Option has bad value'' (st, io))
          | Inr (ws, bz) \<Rightarrow>
              let st = st\<lparr>winsize := 1, winstart := 0, winbits := 1, lastblock := 0, lastsize := 0,
                          retries := 0\<rparr>;
                  (r, st, io) = prvTftpAck N (st, io) in
              if r \<noteq> 0 then (Return 1 None, st, io)
              else release_recv (st\<lparr>pastrrq := True, winsize := ws, blksize := bz\<rparr>, io)))"

text \<open>
  A data packet, in the order of the source: the start of the transfer; the repeated
  acknowledgement for the last packet of the previous window; storing the data and the window
  bookkeeping; the acknowledgement of a whole window and the end of the transfer.
\<close>

definition data_start :: "addr \<Rightarrow> u16 \<Rightarrow> tftp_client_state \<Rightarrow> tftp_client_state" where
  "data_start buf winoff st =
     (if (winoff < winsize st \<or> winoff = 0 \<and> winsize st = 0) \<and> winbuf st = 0 then
        let st = st\<lparr>winbuf := buf, pastrrq := True\<rparr>
        in if winsize st = 0 then st\<lparr>winsize := 1, blksize := 512\<rparr> else st
      else st)"

definition data_store :: "u16 \<Rightarrow> u16 \<Rightarrow> u8 list \<Rightarrow> tftp \<Rightarrow> tftp" where
  "data_store block winoff dat = (\<lambda>(st, io).
     let io = io\<lparr>mem := mem_write (winbuf st + of_int (uint winoff * uint (blksize st))) dat (mem io)\<rparr>;
         lastoff = lastblock st - winstart st;
         st = (if winoff > lastoff \<or> lastoff \<ge> winsize st
               then st\<lparr>lastblock := block, lastsize := of_nat (length dat)\<rparr> else st);
         st = (if lastsize st < blksize st then st\<lparr>winsize := winoff + 1\<rparr> else st)
     in (st\<lparr>winbits := winbits st OR push_bit (unat winoff) 1\<rparr>, io))"

definition window_complete :: "tftp_client_state \<Rightarrow> bool" where
  "window_complete st \<longleftrightarrow> uint (winbits st) = 0xffff div 2 ^ nat (16 - uint (winsize st))"

definition handle_data :: "netapi \<Rightarrow> addr \<Rightarrow> u8 list \<Rightarrow> tftp \<Rightarrow> outcome \<times> tftp" where
  "handle_data N buf bs = (\<lambda>(st, io).
     if length bs < 4 then (Return 1 None, prvTftpTerminate N 0 ''Data packet too short'' (st, io))
     else
       let block = ntohs N (load16 bs 2);
           winoff = block - winstart st;
           st = data_start buf winoff st;
           (r, st, io) = (if winoff = 0xffff \<and> winbits st = 0 then prvTftpAck N (st, io) else (0, st, io)) in
       if r \<noteq> 0 then (Return 1 None, st, io)
       else if winoff \<ge> winsize st then release_recv (st, io)
       else
         let size = of_nat (length bs - 4) in
         if size > blksize st
         then (Return 1 None, prvTftpTerminate N 0 ''Data packet exceeds blksize'' (st, io))
         else
           let (st, io) = data_store block winoff (take (unat size) (drop 4 bs)) (st, io) in
           if window_complete st then
             let (r, st, io) = prvTftpAck N (st, io) in
             if r \<noteq> 0 then (Return 1 None, st, io)
             else if lastsize st < blksize st
             then (Return 0 (Some (winbuf st - buf)), st, closesocket (release io))
             else release_recv (st, io)
           else release_recv (st, io))"

subsection \<open>The receive loop\<close>

definition handle_packet ::
  "netapi \<Rightarrow> u16 \<Rightarrow> string \<Rightarrow> addr \<Rightarrow> u8 list \<Rightarrow> u8 list \<Rightarrow> tftp \<Rightarrow> outcome \<times> tftp" where
  "handle_packet N port name buf bs slk = (\<lambda>(st, io).
     let st = st\<lparr>recvpacket := Some bs\<rparr>;
         fromlen = length bs in
     if fromlen < 2 then (Return 1 None, prvTftpTerminate N 0 ''Packet missing header'' (st, io))
     else
       let io = io\<lparr>mem := (mem io)(buf + of_nat fromlen := 0)\<rparr>;
           op = ntohs N (load16 bs 0) in
       if op = TFTP_OP_ERROR then handle_error N port name fromlen (st, io)
       else if op = TFTP_OP_OACK then handle_oack N (bs @ slk) fromlen (st, io)
       else if op = TFTP_OP_DATA then handle_data N buf bs (st, io)
       else release_recv (st, io))"

fun receive_step :: "netapi \<Rightarrow> u16 \<Rightarrow> string \<Rightarrow> addr \<Rightarrow> recv_result \<Rightarrow> tftp \<Rightarrow> outcome \<times> tftp" where
  "receive_step N port name buf (RecvError e) (st, io) =
     (if e \<noteq> - EWOULDBLOCK
      then (Return 1 None, prvTftpTerminate N 0 ''Error in FreeRTOS_recvfrom'' (st, io))
      else
        let (r, st, io) = (if \<not> pastrrq st then prvTftpRrq N name (st, io) else prvTftpAck N (st, io))
        in if r \<noteq> 0 then (Return 1 None, st, io) else (Continue, st, io))"
| "receive_step N port name buf (Packet sa sp bs slk) (st, io) =
     (if sa \<noteq> dst_addr st then (Continue, st, release io)
      else if \<not> havetid st
      then handle_packet N port name buf bs slk (st\<lparr>havetid := True, dst_port := sp\<rparr>, io)
      else if sp \<noteq> dst_port st then (Continue, st, release io)
      else handle_packet N port name buf bs slk (st, io))"

fun receive_loop ::
  "netapi \<Rightarrow> u16 \<Rightarrow> string \<Rightarrow> addr \<Rightarrow> recv_result list \<Rightarrow> tftp \<Rightarrow> outcome \<times> tftp" where
  "receive_loop N port name buf [] s = (Continue, s)"
| "receive_loop N port name buf (r # rs) s =
     (case receive_step N port name buf r s of
        (Continue, s) \<Rightarrow> receive_loop N port name buf rs s
      | (Return v sz, s) \<Rightarrow> (Return v sz, s))"

definition zero_state :: tftp_client_state where
  "zero_state = \<lparr>sock = 0, dst_addr = 0, dst_port = 0, dstaddrlen = 0, winbuf = 0, recvpacket = None, winprev = 0, winstart = 0,
     winsize = 0, winbits = 0, blksize = 0, lastblock = 0, lastsize = 0, retries = 0,
     havetid = False, pastrrq = False\<rparr>"

definition prvTftpReceive ::
  "netapi \<Rightarrow> string \<Rightarrow> u16 \<Rightarrow> string \<Rightarrow> addr \<Rightarrow> recv_result list \<Rightarrow> tftp_io \<Rightarrow> outcome \<times> tftp_io" where
  "prvTftpReceive N host port name buf rs io =
     (let st = zero_state\<lparr>dst_addr := inet_addr N host\<rparr> in
      if dst_addr st = 0 then (Return 1 None, io)
      else
        let st = st\<lparr>dst_port := htons N port, dstaddrlen := 8, sock := socket N\<rparr> in
        if sock st = INVALID_SOCKET then (Return 1 None, io)
        else
          let st = st\<lparr>winstart := 1\<rparr>;
              (r, st, io) = prvTftpRrq N name (st, io) in
          if r \<noteq> 0 then (Return 1 None, io)
          else let (out, st, io) = receive_loop N port name buf rs (st, io) in (out, io))"

end
