(* ===== verification/Tftp_Props.thy ===== *)
theory Tftp_Props
  imports Tftp
begin

section \<open>Properties of the TFTP client\<close>

text \<open>
  First the effect of an acknowledgement, then a transfer whose blocks arrive in order, for files
  of any number of blocks (block numbers and the window start are 16 bits wide and wrap), then
  bounds and resource properties for arbitrary packet sequences.
\<close>

subsection \<open>Words and the acknowledgement count\<close>

lemma load16_le16_0: "load16 (le16 w @ xs) 0 = w"
  unfolding load16_def le16_def byte_at_def
  by (rule bit_word_eqI) (auto simp: bit_simps)

lemma load16_le16_2: "load16 (le16 v @ le16 w @ xs) 2 = w"
  unfolding load16_def le16_def byte_at_def
  by (rule bit_word_eqI) (auto simp: bit_simps)

lemma count_acked_mask: "k \<le> 16 \<Longrightarrow> count_acked (mask k) s = s + of_nat k"
proof (induction k arbitrary: s)
  case 0
  show ?case by (subst count_acked.simps) simp
next
  case (Suc k)
  have "bit ((mask (Suc k) :: u16) AND 1) 0"
    by (simp add: bit_simps)
  then have "(mask (Suc k) :: u16) AND 1 \<noteq> 0"
    by (metis bit_0_eq bot_apply bot_bool_def)
  moreover have "drop_bit 1 (mask (Suc k) :: u16) = mask k"
    using Suc.prems by (intro bit_word_eqI) (auto simp: bit_simps)
  ultimately show ?case
    using Suc.IH [of "s + 1"] Suc.prems by (subst count_acked.simps) (simp add: algebra_simps)
qed

lemma mask_or_next: "(mask j :: u16) OR push_bit j 1 = mask (Suc j)"
  by (rule bit_word_eqI) (auto simp: bit_simps)

lemma uint_mask16: "j \<le> 16 \<Longrightarrow> uint (mask j :: u16) = 2 ^ j - 1"
proof -
  assume "j \<le> 16"
  then have "uint (mask j :: u16) = mask j"
    by (intro bit_eqI) (auto simp: bit_simps)
  then show ?thesis
    by (simp add: mask_eq_exp_minus_1)
qed

lemma full_window_all: "\<forall>k \<in> set [1..<17]. (0xffff :: int) div 2 ^ (16 - k) = 2 ^ k - 1"
  by code_simp

lemma window_mask:
  assumes "1 \<le> k" "k \<le> 16" "j \<le> 16"
  shows "uint (mask j :: u16) = 0xffff div 2 ^ nat (16 - uint (of_nat k :: u16)) \<longleftrightarrow> j = k"
proof -
  have "uint (of_nat k :: u16) = int k"
    using assms(2) by (simp add: unsigned_of_nat take_bit_nat_eq_self)
  moreover have "(0xffff :: int) div 2 ^ (16 - k) = 2 ^ k - 1"
    using full_window_all [THEN bspec, of k] assms by simp
  moreover have "nat (16 - int k) = 16 - k"
    by simp
  ultimately show ?thesis
    using uint_mask16 [OF assms(3)] by simp
qed

subsection \<open>The network stack\<close>

text \<open>
  What the in-order theorem relies on: \<^verbatim>\<open>FreeRTOS_ntohs\<close> undoes \<^verbatim>\<open>FreeRTOS_htons\<close>, and
  \<^verbatim>\<open>FreeRTOS_sendto\<close> accepts every datagram, returning its length.
\<close>

definition net_ok :: "netapi \<Rightarrow> bool" where
  "net_ok N \<longleftrightarrow> (\<forall>w. ntohs N (htons N w) = w) \<and> (\<forall>l n. sendto N l n = int n)"

lemma send_ok: "net_ok N \<Longrightarrow> send N st pkt io =
    (int (length pkt), io\<lparr>log := log io @ [Sent (dst_addr st) (dst_port st) pkt]\<rparr>)"
  by (simp add: send_def net_ok_def)

text \<open>The acknowledgement of \<open>k\<close> received blocks at the start of the window.\<close>

lemma Ack_window:
  assumes "net_ok N" "winbits st = mask k" "1 \<le> k" "k \<le> 16"
  shows "prvTftpAck N (st, io) =
    (let winlast = winstart st - 1 + of_nat k in
     (0, st\<lparr>winbits := 0, winstart := winstart st + of_nat k,
           winbuf := winbuf st + of_nat ((k - 1) * unat (blksize st)) +
             (if winlast = lastblock st then ucast (lastsize st) else ucast (blksize st)),
           retries := 0\<rparr>,
      io\<lparr>log := log io @ [Sent (dst_addr st) (dst_port st) (ack_packet N winlast)]\<rparr>))"
proof -
  define s where "s = winstart st"
  have ca: "count_acked (winbits st) (s - 1) = s - 1 + of_nat k"
    using assms by (simp add: count_acked_mask)
  have "(of_nat k :: u16) \<noteq> 0"
    using assms(3,4) by (auto simp: word_of_nat_eq_0_iff dest: dvd_imp_le)
  then have "s - 1 + of_nat k \<noteq> s - 1"
    by simp
  have ne: "uint (s - 1 + of_nat k) \<noteq> uint s - 1"
  proof (cases "s = 0")
    case True
    then have "uint s - 1 < 0"
      by simp
    moreover have "0 \<le> uint (s - 1 + of_nat k)"
      by (rule unsigned_greater_eq)
    ultimately show ?thesis
      by linarith
  next
    case False
    then have "unat (s - 1) = unat s - 1" "0 < unat s"
      by (simp_all add: unat_minus_one unat_gt_0)
    then have "uint (s - 1) = uint s - 1"
      by (simp only: uint_nat)
    then show ?thesis
      using \<open>s - 1 + of_nat k \<noteq> s - 1\<close> by (metis unsigned_word_eqI)
  qed
  have num: "s - 1 + of_nat k - s + 1 = (of_nat k :: u16)"
    by simp
  have "uint (of_nat k :: u16) = int k"
    using assms(4) by (simp add: unsigned_of_nat take_bit_nat_eq_self)
  then have "of_int ((uint (of_nat k :: u16) - 1) * uint (blksize st)) = (of_nat ((k - 1) * unat (blksize st)) :: u32)"
    using assms(3) by (simp add: of_nat_diff)
  then show ?thesis
    using ca ne num assms(1)
    by (simp add: prvTftpAck_def Let_def send_ok s_def)
qed

subsection \<open>A transfer in order\<close>

text \<open>Block \<open>i\<close> (from 0) of a file, and the datagram that carries it, numbered from 1.\<close>

definition chunk :: "u8 list \<Rightarrow> nat \<Rightarrow> nat \<Rightarrow> u8 list" where
  "chunk F B i = take B (drop (i * B) F)"

definition data_bytes :: "netapi \<Rightarrow> u8 list \<Rightarrow> nat \<Rightarrow> nat \<Rightarrow> u8 list" where
  "data_bytes N F B i = le16 (htons N TFTP_OP_DATA) @ le16 (htons N (of_nat (Suc i))) @ chunk F B i"

text \<open>The memory after the first \<open>k\<close> blocks: each packet stores a zero behind its length, then its data.\<close>

fun block_mem :: "addr \<Rightarrow> u8 list \<Rightarrow> nat \<Rightarrow> nat \<Rightarrow> (addr \<Rightarrow> u8) \<Rightarrow> (addr \<Rightarrow> u8)" where
  "block_mem buf F B 0 m = m"
| "block_mem buf F B (Suc k) m =
     mem_write (buf + of_nat (k * B)) (chunk F B k)
       ((block_mem buf F B k m)(buf + of_nat (4 + length (chunk F B k)) := 0))"

text \<open>
  The state after \<open>k\<close> full blocks have arrived in order, with a window of \<open>W\<close> blocks of \<open>B\<close> bytes:
  \<open>k div W\<close> windows are acknowledged and \<open>k mod W\<close> blocks of the current one have arrived.
\<close>

definition in_order :: "addr \<Rightarrow> u32 \<Rightarrow> u16 \<Rightarrow> nat \<Rightarrow> nat \<Rightarrow> nat \<Rightarrow> tftp_client_state \<Rightarrow> bool" where
  "in_order buf sa sp W B k st \<longleftrightarrow>
     dst_addr st = sa \<and> dst_port st = sp \<and> havetid st \<and> pastrrq st \<and>
     winsize st = of_nat W \<and> blksize st = of_nat B \<and>
     winstart st = of_nat (k div W * W + 1) \<and> winbits st = mask (k mod W) \<and>
     winbuf st = (if k = 0 then 0 else buf + of_nat (k div W * W * B)) \<and>
     lastblock st = of_nat k \<and> (0 < k \<longrightarrow> lastsize st = of_nat B)"

lemma data_header:
  assumes "net_ok N" "bs = data_bytes N F B i"
  shows "ntohs N (load16 bs 0) = TFTP_OP_DATA" "ntohs N (load16 bs 2) = of_nat (Suc i)"
    "length bs = 4 + length (chunk F B i)" "drop 4 bs = chunk F B i"
  using assms by (simp_all add: net_ok_def data_bytes_def load16_le16_0 load16_le16_2)
    (simp_all add: le16_def)

lemma unat_of_nat16: "n < 65536 \<Longrightarrow> unat (of_nat n :: u16) = n"
  by (simp add: unat_of_nat_small)

lemma ucast16_32: "n < 65536 \<Longrightarrow> ucast (of_nat n :: u16) = (of_nat n :: u32)"
  by (metis of_nat_unat unat_of_nat16)

lemma window_offsets:
  fixes W k :: nat
  assumes "1 \<le> W" "W \<le> 16"
  defines "j \<equiv> k mod W" and "s \<equiv> of_nat (k div W * W + 1) :: u16"
  shows "(of_nat (Suc k) :: u16) - s = of_nat j"
    and "of_nat j < (of_nat W :: u16)" and "of_nat j \<noteq> (0xffff :: u16)"
    and "of_nat k - s < of_nat j \<or> (of_nat W :: u16) \<le> of_nat k - s"
proof -
  have k: "k = k div W * W + j"
    by (simp add: j_def)
  have jW: "j < W"
    using assms(1) by (simp add: j_def)
  have "(of_nat k :: u16) = of_nat (k div W * W) + of_nat j"
    by (subst k) (simp only: of_nat_add)
  then have off: "(of_nat k :: u16) - s = of_nat j - 1"
    by (simp add: s_def)
  show "(of_nat (Suc k) :: u16) - s = of_nat j"
    using off by (simp add: algebra_simps)
  show "of_nat j < (of_nat W :: u16)"
    using jW assms(2) by (simp add: word_less_nat_alt unat_of_nat16)
  have "unat (of_nat j :: u16) = j"
    using jW assms(2) by (simp add: unat_of_nat16)
  then show "of_nat j \<noteq> (0xffff :: u16)"
    using jW assms(2) by auto
  show "of_nat k - s < of_nat j \<or> (of_nat W :: u16) \<le> of_nat k - s"
  proof (cases j)
    case 0
    then show ?thesis
      unfolding off using assms(2)
      by (simp add: word_le_nat_alt unat_of_nat16 unsigned_minus_1_eq_mask mask_eq_exp_minus_1)
  next
    case (Suc i)
    then have "(of_nat j - 1 :: u16) = of_nat i"
      by simp
    moreover have "(of_nat i :: u16) < of_nat j"
      using Suc jW assms(2) unat_of_nat16 [of i] unat_of_nat16 [of j] unfolding word_less_nat_alt by simp
    ultimately show ?thesis
      unfolding off by simp
  qed
qed

lemma store_step:
  assumes W: "1 \<le> W" "W \<le> 16" and B: "8 \<le> B" "B \<le> 1024"
    and st: "in_order buf sa sp W B k st" and nz: "k = 0 \<or> winbuf st \<noteq> 0"
    and dat: "length dat \<le> B"
  shows "data_store (of_nat (Suc k)) (of_nat (k mod W)) dat (data_start buf (of_nat (k mod W)) st, io) =
    (st\<lparr>winbuf := buf + of_nat (k div W * W * B), pastrrq := True, lastblock := of_nat (Suc k),
        lastsize := of_nat (length dat),
        winsize := of_nat (if length dat < B then Suc (k mod W) else W),
        winbits := mask (Suc (k mod W))\<rparr>,
     io\<lparr>mem := mem_write (buf + of_nat (k * B)) dat (mem io)\<rparr>)"
proof -
  define j where "j = k mod W"
  note off = window_offsets [OF W, of k, folded j_def]
  have jW: "j < W"
    using W by (simp add: j_def)
  have u: "unat (of_nat j :: u16) = j" "unat (of_nat B :: u16) = B" "unat (of_nat (length dat) :: u16) = length dat"
    "unat (of_nat W :: u16) = W"
    using jW W B dat by (auto simp: unat_of_nat16)
  have ds: "data_start buf (of_nat j) st =
      st\<lparr>winbuf := buf + of_nat (k div W * W * B), pastrrq := True\<rparr>"
    using st nz off(2) W u(4) by (auto simp: data_start_def in_order_def Let_def)
  have "k div W * W * B + j * B = k * B"
    by (simp add: j_def flip: add_mult_distrib)
  then have "(of_nat (k div W * W * B) :: u32) + of_nat (j * B) = of_nat (k * B)"
    by (metis of_nat_add)
  moreover have "of_int (uint (of_nat j :: u16) * uint (of_nat B :: u16)) = (of_nat (j * B) :: u32)"
    using u by (simp add: uint_nat)
  ultimately have ad: "buf + of_nat (k div W * W * B) + of_int (uint (of_nat j :: u16) * uint (of_nat B :: u16)) =
      buf + of_nat (k * B)"
    by (simp add: add.assoc)
  have ls: "(of_nat (length dat) :: u16) < of_nat B \<longleftrightarrow> length dat < B"
    using u by (simp add: word_less_nat_alt)
  show ?thesis
    unfolding j_def [symmetric] ds data_store_def
    using st off(4) ad ls u(1) mask_or_next [of j]
    by (simp add: in_order_def Let_def not_le add.assoc flip: j_def)
qed

lemma step_data:
  assumes N: "net_ok N" and st: "in_order buf sa sp W B k st"
    and bs: "bs = data_bytes N F B k" and B: "B \<le> 1024" and W: "1 \<le> W" "W \<le> 16"
  shows "receive_step N port name buf (Packet sa sp bs slk) (st, io) =
    (let (st, io) = data_store (of_nat (Suc k)) (of_nat (k mod W)) (chunk F B k)
           (data_start buf (of_nat (k mod W)) (st\<lparr>recvpacket := Some bs\<rparr>),
            io\<lparr>mem := (mem io)(buf + of_nat (4 + length (chunk F B k)) := 0)\<rparr>) in
     if window_complete st then
       let (r, st, io) = prvTftpAck N (st, io) in
       if r \<noteq> 0 then (Return 1 None, st, io)
       else if lastsize st < blksize st
       then (Return 0 (Some (winbuf st - buf)), st, closesocket (release io))
       else release_recv (st, io)
     else release_recv (st, io))"
proof -
  note h = data_header [OF N bs]
  note off = window_offsets [OF W, of k]
  have len: "length (chunk F B k) \<le> B"
    by (simp add: chunk_def)
  have sz: "unat (of_nat (length (chunk F B k)) :: u16) = length (chunk F B k)"
    "\<not> (of_nat B :: u16) < of_nat (length (chunk F B k))"
    using len B by (auto simp: word_less_nat_alt unat_of_nat16)
  have ds: "winsize (data_start buf (of_nat (k mod W)) (st\<lparr>recvpacket := Some bs\<rparr>)) = of_nat W"
    "blksize (data_start buf (of_nat (k mod W)) (st\<lparr>recvpacket := Some bs\<rparr>)) = of_nat B"
    using st off(2) by (auto simp: data_start_def in_order_def Let_def)
  have "\<not> (of_nat W :: u16) \<le> of_nat (k mod W)"
    using off(2) by simp
  moreover have "(of_nat (Suc k) :: u16) - winstart st = of_nat (k mod W)"
    using st off(1) by (simp add: in_order_def)
  ultimately show ?thesis
    using st off(3) h sz ds
    by (simp add: in_order_def handle_packet_def handle_data_def Let_def del: of_nat_Suc)
qed

lemma in_order_recvpacket [simp]: "in_order buf sa sp W B k (st\<lparr>recvpacket := r\<rparr>) = in_order buf sa sp W B k st"
  by (simp add: in_order_def)

lemma window_arith:
  assumes "1 \<le> (W::nat)"
  shows "Suc (k mod W) \<noteq> W \<Longrightarrow> Suc k div W = k div W \<and> Suc k mod W = Suc (k mod W)"
    and "Suc (k mod W) = W \<Longrightarrow> Suc k div W = Suc (k div W) \<and> Suc k mod W = 0"
  using assms by (auto simp: div_Suc mod_Suc)

lemma step_full:
  assumes N: "net_ok N" and W: "1 \<le> W" "W \<le> 16" and B: "8 \<le> B" "B \<le> 1024"
    and st: "in_order buf sa sp W B k st" and nz: "k = 0 \<or> winbuf st \<noteq> 0"
    and full: "length (chunk F B k) = B"
  shows "\<exists>st' io'. receive_step N port name buf (Packet sa sp (data_bytes N F B k) slk) (st, io) =
      (Continue, st', io') \<and> in_order buf sa sp W B (Suc k) st' \<and>
      mem io' = mem_write (buf + of_nat (k * B)) (chunk F B k) ((mem io)(buf + of_nat (4 + B) := 0))"
proof -
  define io1 where "io1 = io\<lparr>mem := (mem io)(buf + of_nat (4 + B) := 0)\<rparr>"
  define st1 where "st1 = st\<lparr>recvpacket := Some (data_bytes N F B k), winbuf := buf + of_nat (k div W * W * B),
      pastrrq := True, lastblock := of_nat (Suc k), lastsize := of_nat B, winsize := of_nat W,
      winbits := mask (Suc (k mod W))\<rparr>"
  define io2 where "io2 = io1\<lparr>mem := mem_write (buf + of_nat (k * B)) (chunk F B k) (mem io1)\<rparr>"
  have "data_store (of_nat (Suc k)) (of_nat (k mod W)) (chunk F B k)
      (data_start buf (of_nat (k mod W)) (st\<lparr>recvpacket := Some (data_bytes N F B k)\<rparr>), io1) = (st1, io2)"
    using store_step [OF W B, of buf sa sp k "st\<lparr>recvpacket := Some (data_bytes N F B k)\<rparr>"] st nz full
    by (simp add: st1_def io2_def)
  then have step: "receive_step N port name buf (Packet sa sp (data_bytes N F B k) slk) (st, io) =
    (if window_complete st1 then
       let (r, st, io) = prvTftpAck N (st1, io2) in
       if r \<noteq> 0 then (Return 1 None, st, io)
       else if lastsize st < blksize st
       then (Return 0 (Some (winbuf st - buf)), st, closesocket (release io))
       else release_recv (st, io)
     else release_recv (st1, io2))"
    unfolding step_data [OF N st refl B(2) W] full io1_def [symmetric] by simp
  have jW: "Suc (k mod W) \<le> W"
    using W by (simp add: Suc_leI)
  then have wc: "window_complete st1 \<longleftrightarrow> Suc (k mod W) = W"
    using window_mask [of W "Suc (k mod W)"] W by (simp add: window_complete_def st1_def)
  have m: "mem io2 = mem_write (buf + of_nat (k * B)) (chunk F B k) ((mem io)(buf + of_nat (4 + B) := 0))"
    by (simp add: io2_def io1_def)
  show ?thesis
  proof (cases "Suc (k mod W) = W")
    case False
    have "in_order buf sa sp W B (Suc k) (st1\<lparr>recvpacket := None\<rparr>)"
      using st window_arith(1) [OF W(1) False] by (simp add: in_order_def st1_def)
    then show ?thesis
      unfolding step using False wc m by (auto simp: release_recv_def release_def)
  next
    case True
    define st2 where "st2 = st1\<lparr>winbits := 0, winstart := of_nat (Suc k div W * W + 1),
        winbuf := buf + of_nat (Suc k div W * W * B), retries := 0\<rparr>"
    have k: "k div W * W + W = Suc k div W * W" "Suc k div W * W = Suc k"
      using window_arith(2) [OF W(1) True] by (simp, metis add.right_neutral div_mult_mod_eq)
    have "winstart st1 = of_nat (k div W * W) + 1"
      using st by (simp add: st1_def in_order_def)
    then have "winstart st1 - 1 + of_nat W = of_nat (k div W * W + W)"
      "winstart st1 + of_nat W = of_nat (k div W * W + W + 1)"
      by simp_all
    then have ws: "winstart st1 - 1 + of_nat W = of_nat (Suc k)"
        "winstart st1 + of_nat W = of_nat (Suc k div W * W + 1)"
      unfolding k by simp_all
    have "(W - 1) * B + B = W * B"
      using W(1) by (cases W) simp_all
    then have wb: "k div W * W * B + (W - 1) * B + B = Suc k div W * W * B"
      unfolding k(1) [symmetric] add_mult_distrib by simp
    have B': "unat (of_nat B :: u16) = B"
      using B by (simp add: unat_of_nat16)
    moreover have "ucast (of_nat B :: u16) = (of_nat B :: u32)"
      using B by (simp add: ucast16_32)
    ultimately have "winbuf st1 + of_nat ((W - 1) * unat (blksize st1)) + ucast (lastsize st1) =
        buf + of_nat (Suc k div W * W * B)"
      using st by (simp add: st1_def in_order_def add.assoc flip: wb)
    moreover have "winstart st1 - 1 + of_nat W = lastblock st1" "winbits st1 = mask W"
      using ws(1) True by (simp_all add: st1_def)
    ultimately have ack: "prvTftpAck N (st1, io2) = (0, st2,
        io2\<lparr>log := log io2 @ [Sent (dst_addr st1) (dst_port st1) (ack_packet N (lastblock st1))]\<rparr>)"
      using Ack_window [OF N, of st1 W io2] W ws(2) by (simp only: Let_def st2_def if_True refl)
    have "in_order buf sa sp W B (Suc k) (st2\<lparr>recvpacket := None\<rparr>)" "\<not> lastsize st2 < blksize st2"
      using st window_arith(2) [OF W(1) True] by (simp_all add: in_order_def st1_def st2_def)
    then show ?thesis
      unfolding step using True wc m ack by (auto simp: release_recv_def release_def)
  qed
qed

lemma step_last:
  assumes N: "net_ok N" and W: "1 \<le> W" "W \<le> 16" and B: "8 \<le> B" "B \<le> 1024"
    and st: "in_order buf sa sp W B k st" and nz: "k = 0 \<or> winbuf st \<noteq> 0"
    and short: "length (chunk F B k) < B"
  defines "l \<equiv> length (chunk F B k)"
  shows "\<exists>st' io'. receive_step N port name buf (Packet sa sp (data_bytes N F B k) slk) (st, io) =
      (Return 0 (Some (of_nat (k * B + l))), st', io') \<and>
      mem io' = mem_write (buf + of_nat (k * B)) (chunk F B k) ((mem io)(buf + of_nat (4 + l) := 0)) \<and>
      log io' = log io @ [Sent sa sp (ack_packet N (of_nat (Suc k))), Released, Closed]"
proof -
  define j where "j = k mod W"
  define io1 where "io1 = io\<lparr>mem := (mem io)(buf + of_nat (4 + l) := 0)\<rparr>"
  define st1 where "st1 = st\<lparr>recvpacket := Some (data_bytes N F B k), winbuf := buf + of_nat (k div W * W * B),
      pastrrq := True, lastblock := of_nat (Suc k), lastsize := of_nat l, winsize := of_nat (Suc j),
      winbits := mask (Suc j)\<rparr>"
  define io2 where "io2 = io1\<lparr>mem := mem_write (buf + of_nat (k * B)) (chunk F B k) (mem io1)\<rparr>"
  have "data_store (of_nat (Suc k)) (of_nat (k mod W)) (chunk F B k)
      (data_start buf (of_nat (k mod W)) (st\<lparr>recvpacket := Some (data_bytes N F B k)\<rparr>), io1) = (st1, io2)"
    using store_step [OF W B, of buf sa sp k "st\<lparr>recvpacket := Some (data_bytes N F B k)\<rparr>"] st nz short
    by (simp add: st1_def io2_def j_def l_def)
  then have step: "receive_step N port name buf (Packet sa sp (data_bytes N F B k) slk) (st, io) =
    (if window_complete st1 then
       let (r, st, io) = prvTftpAck N (st1, io2) in
       if r \<noteq> 0 then (Return 1 None, st, io)
       else if lastsize st < blksize st
       then (Return 0 (Some (winbuf st - buf)), st, closesocket (release io))
       else release_recv (st, io)
     else release_recv (st1, io2))"
    unfolding step_data [OF N st refl B(2) W] l_def [symmetric] io1_def [symmetric] by simp
  have j: "1 \<le> Suc j" "Suc j \<le> 16"
    using W by (auto simp: j_def Suc_le_eq intro: order_less_le_trans [OF mod_less_divisor])
  then have wc: "window_complete st1"
    using window_mask [of "Suc j" "Suc j"] by (simp add: window_complete_def st1_def del: of_nat_Suc)
  have l: "l < 65536" "unat (of_nat B :: u16) = B" "unat (of_nat l :: u16) = l"
    using short B by (auto simp: unat_of_nat16 l_def)
  have k: "k div W * W + j = k"
    by (simp add: j_def)
  have "winstart st1 = of_nat (k div W * W) + 1"
    using st by (simp add: st1_def in_order_def)
  then have "winstart st1 - 1 + of_nat (Suc j) = of_nat (k div W * W + j) + 1"
    by simp
  then have ws: "winstart st1 - 1 + of_nat (Suc j) = of_nat (Suc k)"
    unfolding k by simp
  have "k * B = k div W * W * B + j * B"
    by (metis k add_mult_distrib)
  then have "winbuf st1 + of_nat (j * unat (blksize st1)) + ucast (lastsize st1) = buf + of_nat (k * B + l)"
    using st l ucast16_32 [OF l(1)] by (simp add: st1_def in_order_def add.assoc)
  moreover have lb: "winstart st1 - 1 + of_nat (Suc j) = lastblock st1" "winbits st1 = mask (Suc j)"
    "Suc j - 1 = j" "dst_addr st1 = sa" "dst_port st1 = sp" "lastblock st1 = of_nat (Suc k)"
    using ws st by (simp_all add: st1_def in_order_def)
  ultimately have "prvTftpAck N (st1, io2) = (0, st1\<lparr>winbits := 0, winstart := winstart st1 + of_nat (Suc j),
        winbuf := buf + of_nat (k * B + l), retries := 0\<rparr>,
        io2\<lparr>log := log io2 @ [Sent sa sp (ack_packet N (of_nat (Suc k)))]\<rparr>)"
    using Ack_window [OF N lb(2) j, of io2] by (simp only: Let_def if_True refl)
  then obtain st2 where ack: "prvTftpAck N (st1, io2) = (0, st2,
        io2\<lparr>log := log io2 @ [Sent sa sp (ack_packet N (of_nat (Suc k)))]\<rparr>)"
      "winbuf st2 = buf + of_nat (k * B + l)" "lastsize st2 = of_nat l" "blksize st2 = of_nat B"
    using st by (auto simp: st1_def in_order_def)
  moreover have "lastsize st2 < blksize st2"
    using ack l short by (simp add: word_less_nat_alt l_def)
  ultimately show ?thesis
    unfolding step using wc by (simp add: release_def closesocket_def io2_def io1_def)
qed

lemma length_chunk:
  assumes "0 < B"
  shows "k < length F div B \<Longrightarrow> length (chunk F B k) = B"
    and "length (chunk F B (length F div B)) = length F mod B"
proof -
  show "length (chunk F B k) = B" if "k < length F div B"
  proof -
    have "Suc k * B \<le> length F"
      using that assms by (metis Suc_leI less_eq_div_iff_mult_less_eq)
    then show ?thesis
      by (simp add: chunk_def)
  qed
  show "length (chunk F B (length F div B)) = length F mod B"
    using assms by (simp add: chunk_def modulo_nat_def [symmetric] minus_div_mult_eq_mod)
qed

text \<open>The addresses the transfer touches do not wrap around.\<close>

definition fits :: "addr \<Rightarrow> nat \<Rightarrow> bool" where
  "fits buf len \<longleftrightarrow> 0 < unat buf \<and> unat buf + len + 2048 < 2 ^ 32"

lemma winbuf_nz:
  assumes "fits buf (length F)" "in_order buf sa sp W B k st" "k * B \<le> length F"
  shows "k = 0 \<or> winbuf st \<noteq> 0"
proof -
  have "k div W * W * B \<le> k * B"
    by (intro mult_le_mono1) simp
  then have lt: "unat buf + k div W * W * B < 2 ^ 32"
    using assms(1,3) unfolding fits_def by linarith
  then have "unat (buf + of_nat (k div W * W * B)) = unat buf + k div W * W * B"
    by (subst unat_add_lem [THEN iffD1]) (simp_all add: unat_of_nat_small del: of_nat_mult)
  then show ?thesis
    using assms(1,2) by (auto simp: fits_def in_order_def simp del: of_nat_mult)
qed

lemma loop_in_order:
  assumes N: "net_ok N" and W: "1 \<le> W" "W \<le> 16" and B: "8 \<le> B" "B \<le> 1024" and ft: "fits buf (length F)"
    and "in_order buf sa sp W B k st" "mem io = block_mem buf F B k m0" "k \<le> length F div B"
  shows "\<exists>st' io'. receive_loop N port name buf
      (map (\<lambda>i. Packet sa sp (data_bytes N F B i) slk) [k..<Suc (length F div B)]) (st, io) =
      (Return 0 (Some (of_nat (length F))), st', io') \<and>
      mem io' = block_mem buf F B (Suc (length F div B)) m0"
  using assms(7-9)
proof (induction "length F div B - k" arbitrary: k st io)
  case 0
  then have k: "k = length F div B"
    by simp
  have short: "length (chunk F B k) < B" and l: "k * B + length (chunk F B k) = length F"
    using length_chunk(2) [of B F] B k by simp_all
  have "k * B \<le> length F"
    using l by linarith
  from step_last [OF N W B 0(2) winbuf_nz [OF ft 0(2) this] short] obtain st' io' where
    "receive_step N port name buf (Packet sa sp (data_bytes N F B k) slk) (st, io) =
      (Return 0 (Some (of_nat (length F))), st', io')"
    "mem io' = mem_write (buf + of_nat (k * B)) (chunk F B k) ((mem io)(buf + of_nat (4 + length (chunk F B k)) := 0))"
    unfolding l by blast
  then show ?case
    using 0(3) k by simp
next
  case (Suc x)
  then have k: "k < length F div B"
    by simp
  then have full: "length (chunk F B k) = B"
    using length_chunk(1) [of B k F] B by simp
  have "k * B \<le> length F div B * B" "length F div B * B \<le> length F"
    using k by (auto intro: mult_le_mono1)
  then have "k * B \<le> length F"
    by (rule order_trans)
  from step_full [OF N W B Suc.prems(1) winbuf_nz [OF ft Suc.prems(1) this] full] obtain st' io' where
    st: "receive_step N port name buf (Packet sa sp (data_bytes N F B k) slk) (st, io) = (Continue, st', io')"
    "in_order buf sa sp W B (Suc k) st'"
    "mem io' = mem_write (buf + of_nat (k * B)) (chunk F B k) ((mem io)(buf + of_nat (4 + B) := 0))"
    by blast
  have "mem io' = block_mem buf F B (Suc k) m0" "Suc k \<le> length F div B" "x = length F div B - Suc k"
    using st(3) Suc.prems(2) full k Suc.hyps(2) by auto
  with Suc.hyps(1) [OF _ st(2)] st(1) show ?case
    using k by (simp add: upt_conv_Cons del: upt_Suc)
qed

subsection \<open>What is in memory afterwards\<close>

lemma mem_write_at:
  assumes "i < 2 ^ 32" "a + length bs < 2 ^ 32"
  shows "mem_write (buf + of_nat a) bs m (buf + of_nat i) =
    (if a \<le> i \<and> i < a + length bs then bs ! (i - a) else m (buf + of_nat i))"
proof (cases "a \<le> i")
  case True
  then have "(of_nat i :: u32) - of_nat a = of_nat (i - a)"
    by (simp add: of_nat_diff)
  then have "unat (buf + of_nat i - (buf + of_nat a)) = i - a"
    using assms(1) by (simp add: unat_of_nat_small)
  then show ?thesis
    using True by (auto simp: mem_write_def)
next
  case False
  have "unat (of_nat i :: u32) < a" "unat (of_nat a :: u32) = a" "unat (of_nat i :: u32) = i"
    using False assms by (auto simp: unat_of_nat_small)
  then have "unat (of_nat i - of_nat a :: u32) = i + 2 ^ 32 - a"
    using False by (simp add: unat_sub_if_size word_size)
  moreover have "\<not> i + 2 ^ 32 - a < length bs"
    using assms(2) by linarith
  ultimately show ?thesis
    using False by (simp add: mem_write_def)
qed

lemma upd_at:
  "i < 2 ^ 32 \<Longrightarrow> j < 2 ^ 32 \<Longrightarrow> (m(buf + of_nat j := v)) (buf + of_nat i :: u32) = (if i = j then v else m (buf + of_nat i))"
  by (auto dest: arg_cong [of _ _ unat] simp: unat_of_nat_small)

lemma chunk_bounds:
  assumes "0 < B" "k \<le> length F div B"
  shows "length (chunk F B k) = B \<or> length (chunk F B k) = length F mod B"
    and "length (chunk F B k) \<le> B" and "k * B + length (chunk F B k) \<le> length F"
    and "i < length F \<Longrightarrow> i < Suc k * B \<Longrightarrow> i < k * B + length (chunk F B k)"
proof -
  consider (full) "k < length F div B" "length (chunk F B k) = B"
    | (last) "k = length F div B" "length (chunk F B k) = length F mod B"
    using length_chunk(1) [OF assms(1), of k F] length_chunk(2) [OF assms(1), of F] assms(2) by fastforce
  then have "(length (chunk F B k) = B \<or> length (chunk F B k) = length F mod B) \<and>
    length (chunk F B k) \<le> B \<and> k * B + length (chunk F B k) \<le> length F \<and>
    (i < length F \<longrightarrow> i < Suc k * B \<longrightarrow> i < k * B + length (chunk F B k))"
  proof cases
    case full
    then have "Suc k * B \<le> length F"
      using assms(1) by (metis Suc_leI less_eq_div_iff_mult_less_eq)
    then show ?thesis
      using full by simp
  next
    case last
    then show ?thesis
      using assms(1) by (simp add: less_imp_le)
  qed
  then show "length (chunk F B k) = B \<or> length (chunk F B k) = length F mod B"
    and "length (chunk F B k) \<le> B" and "k * B + length (chunk F B k) \<le> length F"
    and "i < length F \<Longrightarrow> i < Suc k * B \<Longrightarrow> i < k * B + length (chunk F B k)"
    by auto
qed

lemma block_mem_Suc_at:
  assumes "0 < B" "length F + B + 4 < 2 ^ 32" "k \<le> length F div B" "i < 2 ^ 32"
  shows "block_mem buf F B (Suc k) m (buf + of_nat i) =
    (if k * B \<le> i \<and> i < k * B + length (chunk F B k) then F ! i
     else if i = 4 + length (chunk F B k) then 0 else block_mem buf F B k m (buf + of_nat i))"
proof -
  note c = chunk_bounds [OF assms(1,3)]
  have "chunk F B k ! (i - k * B) = F ! i" if "k * B \<le> i" "i < k * B + length (chunk F B k)"
    using that by (simp add: chunk_def)
  moreover have "k * B + length (chunk F B k) < 2 ^ 32" "4 + length (chunk F B k) < 2 ^ 32"
    using c(2,3) assms(2) by linarith+
  ultimately show ?thesis
    using assms(4) by (simp add: mem_write_at upd_at del: of_nat_mult of_nat_add fun_upd_apply)
qed

declare block_mem.simps(2) [simp del]

lemma block_mem_content:
  assumes "0 < B" "length F + B + 4 < 2 ^ 32" "k \<le> Suc (length F div B)"
    and "i < length F" "i < k * B" "i \<noteq> B + 4" "i \<noteq> length F mod B + 4"
  shows "block_mem buf F B k m (buf + of_nat i) = F ! i"
  using assms(3,5)
proof (induction k)
  case (Suc k)
  have k: "k \<le> length F div B" and i: "i < 2 ^ 32"
    using Suc.prems assms(2,4) by auto
  note c = chunk_bounds [OF assms(1) k]
  show ?case
    unfolding block_mem_Suc_at [OF assms(1,2) k i]
    using c(1) c(4) [OF assms(4)] Suc assms(6,7) by (auto simp: not_le)
qed simp

lemma block_mem_zeroed:
  assumes "8 \<le> B" "length F + B + 4 < 2 ^ 32" "2 \<le> k" "k < length F div B"
  shows "block_mem buf F B (Suc k) m (buf + of_nat (B + 4)) = 0"
proof -
  have "2 * B \<le> k * B"
    using assms(3) by (rule mult_le_mono1)
  moreover have "length (chunk F B k) = B"
    using length_chunk(1) [OF _ assms(4)] assms(1) by simp
  moreover have "\<not> k * B \<le> B + 4"
    using calculation(1) assms(1) by linarith
  ultimately show ?thesis
    using block_mem_Suc_at [of B F k "B + 4" buf m] assms by simp
qed

lemma block_mem_final:
  fixes buf :: addr and m :: "addr \<Rightarrow> u8"
  assumes "8 \<le> B" "length F + B + 4 < 2 ^ 32"
  defines "M \<equiv> block_mem buf F B (Suc (length F div B)) m"
  shows "i < length F \<Longrightarrow> i \<noteq> B + 4 \<Longrightarrow> i \<noteq> length F mod B + 4 \<Longrightarrow> M (buf + of_nat i) = F ! i"
    and "3 \<le> length F div B \<Longrightarrow> M (buf + of_nat (B + 4)) = 0"
proof -
  have "i < Suc (length F div B) * B" if "i < length F"
    using that assms(1) dividend_less_div_times [of B "length F"] by simp
  then show "i < length F \<Longrightarrow> i \<noteq> B + 4 \<Longrightarrow> i \<noteq> length F mod B + 4 \<Longrightarrow> M (buf + of_nat i) = F ! i"
    unfolding M_def using assms(1,2) by (intro block_mem_content) auto
  show "M (buf + of_nat (B + 4)) = 0" if "3 \<le> length F div B"
  proof -
    obtain k where k: "length F div B = Suc k" "2 \<le> k"
      using \<open>3 \<le> length F div B\<close> by (cases "length F div B") auto
    have "\<not> Suc k * B \<le> B + 4"
      using assms(1) mult_le_mono1 [OF k(2), of B] unfolding mult_Suc by linarith
    then show ?thesis
      unfolding M_def
      using block_mem_Suc_at [of B F "length F div B" "B + 4" buf m] block_mem_zeroed [OF assms(1,2) k(2)] k(1) assms(1,2)
      by (simp del: of_nat_add)
  qed
qed

subsection \<open>Negotiating the options\<close>

lemma parse_num_le: "parse_num limit str acc = Some v \<Longrightarrow> acc \<le> limit \<Longrightarrow> v \<le> limit"
  by (induction limit str acc rule: parse_num.induct) (auto simp: Let_def split: if_splits)

lemma parse_oack_bounds:
  "parse_oack bs n opt ws bz = Inr (ws', bz') \<Longrightarrow> 1 \<le> ws \<and> ws \<le> 16 \<Longrightarrow> 8 \<le> bz \<and> bz \<le> 1024 \<Longrightarrow>
   (1 \<le> ws' \<and> ws' \<le> 16) \<and> 8 \<le> bz' \<and> bz' \<le> 1024"
proof (induction bs n opt ws bz rule: parse_oack.induct)
  case (1 bs n opt ws bz)
  have nz: "1 \<le> v" if "v \<noteq> 0" for v :: u16
    using that by (simp add: word_le_nat_alt unat_gt_0 Suc_leI)
  define nm where "nm = cstr_at bs opt"
  define str where "str = cstr_at bs (opt + length nm + 1)"
  note unf = parse_oack.simps [of bs n opt ws bz, unfolded Let_def, folded nm_def, folded str_def]
  note IH = 1(1-3) [unfolded Let_def, folded nm_def, folded str_def]
  show ?case
  proof (cases "opt < n \<and> opt + length nm + 1 < n")
    case False
    then show ?thesis
      using 1(4-) by (auto simp: unf split: if_splits)
  next
    case True
    then have nx: "\<not> \<not> opt < n" "\<not> n \<le> opt + length nm + 1"
      by simp_all
    consider (win) "nm = bytes_of ''windowsize''" | (blk) "nm \<noteq> bytes_of ''windowsize''" "nm = bytes_of ''blksize''"
      | (other) "nm \<noteq> bytes_of ''windowsize''" "nm \<noteq> bytes_of ''blksize''"
      by blast
    then show ?thesis
    proof cases
      case win
      with 1(4) nx obtain v where v: "parse_num 16 str 0 = Some v" "v \<noteq> 0"
        "parse_oack bs n (opt + length nm + 1 + length str + 1) v bz = Inr (ws', bz')"
        unfolding unf by (simp split: option.splits if_splits)
      then show ?thesis
        using IH(1) [OF nx(1) refl refl nx(2) str_def refl win v(1,2,3)] parse_num_le [OF v(1)] nz [OF v(2)] 1(6) by simp
    next
      case blk
      with 1(4) nx obtain v where v: "parse_num 1024 str 0 = Some v" "\<not> v < 8"
        "parse_oack bs n (opt + length nm + 1 + length str + 1) ws v = Inr (ws', bz')"
        unfolding unf by (simp split: option.splits if_splits)
      then show ?thesis
        using IH(2) [OF nx(1) refl refl nx(2) str_def refl blk v(1,2,3)] parse_num_le [OF v(1)] 1(5) by (simp add: not_less)
    next
      case other
      with 1(4) nx have "parse_oack bs n (opt + length nm + 1 + length str + 1) ws bz = Inr (ws', bz')"
        unfolding unf by simp
      then show ?thesis
        using IH(3) [OF nx(1) refl refl nx(2) str_def refl other] 1(5,6) by simp
    qed
  qed
qed

end
