(* ===== verification/Tftp_Spec.thy ===== *)
theory Tftp_Spec
  imports Tftp_Props
begin

section \<open>Properties of the TFTP client\<close>

text \<open>
  The properties of \<^verbatim>\<open>prvTftpReceive\<close>: a whole transfer in order, giving up after repeated
  timeouts, the window invariant and the memory it bounds, payload buffers, a transfer that leaves
  a stray terminator in the file, and which orders of the last window the client can finish.
\<close>

subsection \<open>From the request to the first block\<close>

lemma Rrq_first:
  assumes "net_ok N" "retries st = 0"
  shows "prvTftpRrq N name (st, io) = (0, st\<lparr>retries := 1\<rparr>,
    io\<lparr>log := log io @ [Sent (dst_addr st) (dst_port st) (rrq_packet N (winsize st = 0) name)]\<rparr>)"
  using assms by (simp add: prvTftpRrq_def send_ok Let_def)

lemma oack_step:
  assumes N: "net_ok N" and st: "dst_addr st = sa" "\<not> havetid st" "winbuf st = 0" "winsize st = 0" "blksize st = 0"
    and op: "ntohs N (load16 oack 0) = TFTP_OP_OACK" "2 \<le> length oack"
    and parse: "parse_oack (oack @ slk) (length oack) 2 1 512 = Inr (of_nat W, of_nat B)"
  shows "\<exists>st' io'. receive_step N port name buf (Packet sa sp oack slk) (st, io) = (Continue, st', io') \<and>
    in_order buf sa sp W B 0 st' \<and> mem io' = (mem io)(buf + of_nat (length oack) := 0)"
proof -
  define st1 where "st1 = st\<lparr>havetid := True, dst_port := sp, recvpacket := Some oack, winsize := 1, winstart := 0,
      winbits := 1, lastblock := 0, lastsize := 0, retries := 0\<rparr>"
  define io1 where "io1 = io\<lparr>mem := (mem io)(buf + of_nat (length oack) := 0)\<rparr>"
  have ack: "prvTftpAck N (st1, io1) = (0, st1\<lparr>winbits := 0, winstart := 1, winbuf := 0, retries := 0\<rparr>,
      io1\<lparr>log := log io1 @ [Sent sa sp (ack_packet N 0)]\<rparr>)"
    using Ack_window [OF N, of st1 1 io1] st by (simp add: st1_def)
  have "receive_step N port name buf (Packet sa sp oack slk) (st, io) =
    release_recv (st1\<lparr>winbits := 0, winstart := 1, winbuf := 0, retries := 0, pastrrq := True,
        winsize := of_nat W, blksize := of_nat B\<rparr>, io1\<lparr>log := log io1 @ [Sent sa sp (ack_packet N 0)]\<rparr>)"
    using st op parse ack
    by (simp add: handle_packet_def handle_oack_def Let_def io1_def st1_def)
  then show ?thesis
    using st by (auto simp: release_recv_def release_def in_order_def st1_def io1_def)
qed

lemma in_order_run:
  assumes "net_ok N" and "inet_addr N host \<noteq> 0" and "socket N \<noteq> INVALID_SOCKET"
    and "ntohs N (load16 oack 0) = TFTP_OP_OACK" and "2 \<le> length oack"
    and "parse_oack (oack @ slk) (length oack) 2 1 512 = Inr (ws, bz)"
    and "fits buf (length F)" and sa: "sa = inet_addr N host" and B_def: "B = unat bz"
  shows "\<exists>io' m0. prvTftpReceive N host port name buf (Packet sa sp oack slk #
        map (\<lambda>i. Packet sa sp (data_bytes N F B i) []) [0..<Suc (length F div B)]) io =
      (Return 0 (Some (of_nat (length F))), io') \<and>
    mem io' = block_mem buf F B (Suc (length F div B)) m0 \<and> 8 \<le> B \<and> length F + B + 4 < 2 ^ 32"
proof -
  define W where "W = unat ws"
  have WB: "1 \<le> W" "W \<le> 16" "8 \<le> B" "B \<le> 1024"
    using parse_oack_bounds [OF assms(6)] by (simp_all add: W_def B_def word_le_nat_alt)
  have of: "ws = of_nat W" "bz = of_nat B"
    by (simp_all add: W_def B_def)
  define st0 where "st0 = zero_state\<lparr>dst_addr := sa, dst_port := htons N port, dstaddrlen := 8,
      sock := socket N, winstart := 1, retries := 1\<rparr>"
  define io0 where "io0 = io\<lparr>log := log io @ [Sent sa (htons N port) (rrq_packet N True name)]\<rparr>"
  define rs where "rs = map (\<lambda>i. Packet sa sp (data_bytes N F B i) []) [0..<Suc (length F div B)]"
  have rrq: "prvTftpRrq N name (st0\<lparr>retries := 0\<rparr>, io) = (0, st0, io0)"
    using Rrq_first [OF assms(1), of "st0\<lparr>retries := 0\<rparr>" name io] by (simp add: st0_def io0_def zero_state_def)
  have "dst_addr st0 = sa" "\<not> havetid st0" "winbuf st0 = 0" "winsize st0 = 0" "blksize st0 = 0"
    by (simp_all add: st0_def zero_state_def)
  from oack_step [OF assms(1) this assms(4,5) assms(6) [unfolded of]]
  obtain st1 io1 where s1: "receive_step N port name buf (Packet sa sp oack slk) (st0, io0) = (Continue, st1, io1)"
    "in_order buf sa sp W B 0 st1"
    by blast
  obtain st' io' where s2: "receive_loop N port name buf rs (st1, io1) = (Return 0 (Some (of_nat (length F))), st', io')"
    "mem io' = block_mem buf F B (Suc (length F div B)) (mem io1)"
    unfolding rs_def using loop_in_order [OF assms(1) WB assms(7) s1(2)] by force
  have "prvTftpReceive N host port name buf (Packet sa sp oack slk # rs) io =
      (Return 0 (Some (of_nat (length F))), io')"
    using assms(2,3) rrq s1(1) s2(1)
    by (simp add: prvTftpReceive_def Let_def st0_def sa zero_state_def)
  moreover have "length F + B + 4 < 2 ^ 32"
    using assms(7) WB(4) by (simp add: fits_def)
  ultimately show ?thesis
    using s2(2) WB(3) unfolding rs_def by blast
qed

text \<open>A network stack and an option acknowledgement to evaluate the properties with.\<close>

definition swap16 :: "u16 \<Rightarrow> u16" where
  "swap16 w = push_bit 8 w OR drop_bit 8 w"

definition demo_net :: netapi where
  "demo_net = \<lparr>htons = swap16, ntohs = swap16, inet_addr = (\<lambda>_. 0x0A000001), socket = 1,
     sendto = (\<lambda>_ n. int n)\<rparr>"

definition demo_oack :: "u8 list" where
  "demo_oack = [0, 6] @ bytes_of ''blksize'' @ [0] @ bytes_of ''8'' @ [0] @
     bytes_of ''windowsize'' @ [0] @ bytes_of ''4'' @ [0]"

definition demo_io :: tftp_io where
  "demo_io = \<lparr>mem = (\<lambda>_. 0), log = []\<rparr>"

lemma demo_net_ok: "net_ok demo_net"
proof -
  have "swap16 (swap16 w) = w" for w
    unfolding swap16_def by (rule bit_word_eqI) (auto simp: bit_simps)
  then show ?thesis
    by (simp add: net_ok_def demo_net_def)
qed

lemma demo_oack_parses:
  "ntohs demo_net (load16 demo_oack 0) = TFTP_OP_OACK" "2 \<le> length demo_oack"
  "parse_oack (demo_oack @ []) (length demo_oack) 2 1 512 = Inr (4, 8)"
  by (code_simp, simp add: demo_oack_def, code_simp)

text \<open>
  C3.  A transfer in order.  The server accepts the options with any window and block size the
  client's parser admits and sends the blocks of a file of any length, each once and in order;
  the network stack accepts what the client sends.  Then \<^verbatim>\<open>prvTftpReceive\<close> returns success with the length of
  the file, and every byte of the file is in memory at its place, with the possible exception of
  two: the offsets \<open>blksize + 4\<close> and \<open>length mod blksize + 4\<close>, at which
  \<^verbatim>\<open>buf[fromlen] = '\0'\<close> stores a zero.  Block numbers may wrap around any number of times.
\<close>

theorem tftp_in_order_transfer:
  assumes "net_ok N" and "inet_addr N host \<noteq> 0" and "socket N \<noteq> INVALID_SOCKET"
    and "ntohs N (load16 oack 0) = TFTP_OP_OACK" and "2 \<le> length oack"
    and "parse_oack (oack @ slk) (length oack) 2 1 512 = Inr (ws, bz)"
    and "fits buf (length F)"
  shows "let sa = inet_addr N host; B = unat bz;
      (out, io') = prvTftpReceive N host port name buf (Packet sa sp oack slk #
        map (\<lambda>i. Packet sa sp (data_bytes N F B i) []) [0..<Suc (length F div B)]) io in
    out = Return 0 (Some (of_nat (length F))) \<and>
    (\<forall>i < length F. i \<noteq> B + 4 \<longrightarrow> i \<noteq> length F mod B + 4 \<longrightarrow> mem io' (buf + of_nat i) = F ! i)"
proof -
  define B sa where "B = unat bz" and "sa = inet_addr N host"
  obtain io' m0 where r: "prvTftpReceive N host port name buf (Packet sa sp oack slk #
        map (\<lambda>i. Packet sa sp (data_bytes N F B i) []) [0..<Suc (length F div B)]) io =
      (Return 0 (Some (of_nat (length F))), io')"
    "mem io' = block_mem buf F B (Suc (length F div B)) m0" "8 \<le> B" "length F + B + 4 < 2 ^ 32"
    using in_order_run [OF assms sa_def B_def] by metis
  then show ?thesis
    using block_mem_final(1) [OF r(3,4)] unfolding Let_def B_def [symmetric] sa_def [symmetric] by simp
qed

theorem tftp_in_order_transfer_witness:
  "fst (prvTftpReceive demo_net ''10.0.0.1'' 69 ''kernel'' 0x1000
     (Packet 0x0A000001 99 demo_oack [] # map (\<lambda>i. Packet 0x0A000001 99
        (data_bytes demo_net [1, 2, 3, 4, 5, 6, 7, 8, 9, 10, 11] 8 i) []) [0..<Suc 1]) demo_io) =
   Return 0 (Some 11)"
  using tftp_in_order_transfer [OF demo_net_ok _ _ demo_oack_parses, of "''10.0.0.1''" "0x1000"
      "[1, 2, 3, 4, 5, 6, 7, 8, 9, 10, 11]" 69 "''kernel''" 99 demo_io]
  by (auto simp: demo_net_def fits_def Let_def split: prod.splits)

text \<open>
   The zero that is stored behind every packet goes into the downloaded file, not behind the
  packet: after an in-order transfer of at least three full blocks the byte at offset
  \<open>blksize + 4\<close> is zero, whatever the file has there.
\<close>

theorem tftp_terminator_corrupts:
  assumes "net_ok N" and "inet_addr N host \<noteq> 0" and "socket N \<noteq> INVALID_SOCKET"
    and "ntohs N (load16 oack 0) = TFTP_OP_OACK" and "2 \<le> length oack"
    and "parse_oack (oack @ slk) (length oack) 2 1 512 = Inr (ws, bz)"
    and "fits buf (length F)" and "3 \<le> length F div unat bz"
  shows "let sa = inet_addr N host; B = unat bz;
      (out, io') = prvTftpReceive N host port name buf (Packet sa sp oack slk #
        map (\<lambda>i. Packet sa sp (data_bytes N F B i) []) [0..<Suc (length F div B)]) io in
    out = Return 0 (Some (of_nat (length F))) \<and> mem io' (buf + of_nat (B + 4)) = 0"
proof -
  define B sa where "B = unat bz" and "sa = inet_addr N host"
  obtain io' m0 where r: "prvTftpReceive N host port name buf (Packet sa sp oack slk #
        map (\<lambda>i. Packet sa sp (data_bytes N F B i) []) [0..<Suc (length F div B)]) io =
      (Return 0 (Some (of_nat (length F))), io')"
    "mem io' = block_mem buf F B (Suc (length F div B)) m0" "8 \<le> B" "length F + B + 4 < 2 ^ 32"
    using in_order_run [OF assms(1-7) sa_def B_def] by metis
  then show ?thesis
    using block_mem_final(2) [OF r(3,4)] assms(8)
    unfolding Let_def B_def [symmetric] sa_def [symmetric] by simp
qed

theorem tftp_terminator_corrupts_witness:
  "\<exists>io'. prvTftpReceive demo_net ''10.0.0.1'' 69 ''kernel'' 0x1000
     (Packet 0x0A000001 99 demo_oack [] # map (\<lambda>i. Packet 0x0A000001 99
        (data_bytes demo_net (replicate 25 7) 8 i) []) [0..<4]) demo_io =
     (Return 0 (Some 25), io') \<and> mem io' 0x100C = 0"
proof -
  have "3 \<le> length (replicate 25 (7 :: u8)) div unat (8 :: u16)" "fits 0x1000 (length (replicate 25 (7 :: u8)))"
    and l: "[0..<Suc (length (replicate 25 (7 :: u8)) div unat (8 :: u16))] = [0..<4]"
    by (simp_all add: fits_def)
  then show ?thesis
    using tftp_terminator_corrupts [OF demo_net_ok _ _ demo_oack_parses, of "''10.0.0.1''" "0x1000"
        "replicate 25 7" 69 "''kernel''" 99 demo_io]
    unfolding Let_def l by (auto simp: demo_net_def split: prod.splits)
qed

subsection \<open>Giving up\<close>

abbreviation (input) Timeout :: recv_result where "Timeout \<equiv> RecvError (- EWOULDBLOCK)"

text \<open>Nothing has arrived at the start of the window.\<close>

definition quiet :: "tftp_client_state \<Rightarrow> bool" where
  "quiet st \<longleftrightarrow> (pastrrq st \<longrightarrow> winstart st \<noteq> 0 \<and> winbits st AND 1 = 0)"

lemma uint_pred: "s \<noteq> 0 \<Longrightarrow> uint (s - 1) = uint s - 1" for s :: u16
proof -
  assume "s \<noteq> 0"
  then have "unat (s - 1) = unat s - 1" "0 < unat s"
    by (simp_all add: unat_minus_one unat_gt_0)
  then show ?thesis
    by (simp only: uint_nat)
qed

lemma count_acked_none: "bits AND 1 = 0 \<Longrightarrow> count_acked bits s = s"
  by (subst count_acked.simps) simp

lemma timeout_step:
  assumes "quiet st"
  shows "(\<exists>s'. receive_step N port name buf Timeout (st, io) = (Return 1 None, s')) \<or>
    retries st \<noteq> 5 \<and>
    (\<exists>io'. receive_step N port name buf Timeout (st, io) = (Continue, st\<lparr>retries := retries st + 1\<rparr>, io'))"
proof (cases "pastrrq st")
  case True
  then have "uint (winstart st - 1) = uint (winstart st) - 1"
    "count_acked (winbits st) (winstart st - 1) = winstart st - 1"
    using assms by (auto simp: quiet_def uint_pred count_acked_none)
  then show ?thesis
    using True by (auto simp: prvTftpAck_def Let_def split: prod.splits)
next
  case False
  then show ?thesis
    by (auto simp: prvTftpRrq_def Let_def split: prod.splits)
qed

lemma timeouts_end:
  "quiet st \<Longrightarrow> unat (retries st) \<le> 5 \<Longrightarrow> 6 - unat (retries st) \<le> n \<Longrightarrow>
   fst (receive_loop N port name buf (replicate n Timeout) (st, io)) = Return 1 None"
proof (induction n arbitrary: st io)
  case (Suc n)
  from timeout_step [OF Suc.prems(1), of N port name buf io] show ?case
  proof (elim disjE exE conjE)
    fix io'
    assume r: "retries st \<noteq> 5"
      "receive_step N port name buf Timeout (st, io) = (Continue, st\<lparr>retries := retries st + 1\<rparr>, io')"
    have "unat (retries st) \<noteq> unat (5 :: u8)"
      using r(1) by (metis unsigned_word_eqI)
    then have lt: "unat (retries st) < 5"
      using Suc.prems(2) by simp
    then have u: "unat (retries st + 1) = Suc (unat (retries st))"
      by (simp add: unat_word_ariths)
    have "fst (receive_loop N port name buf (replicate n Timeout) (st\<lparr>retries := retries st + 1\<rparr>, io')) = Return 1 None"
      using Suc.prems lt u by (intro Suc.IH) (auto simp: quiet_def)
    then show ?thesis
      using r(2) by simp
  qed (auto split: prod.splits)
qed simp

text \<open>
  C12.  The client does not wait for a silent server for ever: when nothing has arrived at the
  start of the window, six receive timeouts in a row make \<^verbatim>\<open>prvTftpReceive\<close> return an error,
  whatever \<^verbatim>\<open>FreeRTOS_sendto\<close> answers.  (The window must not start at block 0 of the 16-bit
  numbering.)
\<close>

theorem tftp_timeouts_give_up:
  assumes "pastrrq st \<longrightarrow> winstart st \<noteq> 0 \<and> winbits st AND 1 = 0"
    and "retries st \<le> TFTP_MAX_RETRIES"
  shows "fst (receive_loop N port name buf (replicate 6 Timeout) (st, io)) = Return 1 None"
  using timeouts_end [of st 6] assms by (simp add: quiet_def word_le_nat_alt)

theorem tftp_timeouts_give_up_witness:
  "fst (receive_loop demo_net 69 ''kernel'' 0x1000 (replicate 6 Timeout)
     (zero_state\<lparr>pastrrq := True, winstart := 17, winsize := 16\<rparr>, demo_io)) = Return 1 None"
  by (rule tftp_timeouts_give_up) (simp_all add: zero_state_def)

text \<open>
  C14.  The retry limit does not work at block 0: the acknowledgement compares \<^verbatim>\<open>winlast\<close> with
  \<^verbatim>\<open>winstart - 1\<close> in \<^verbatim>\<open>int\<close>, where \<open>0xffff\<close> and \<open>-1\<close> differ, so with a window that starts at block
  0 (after the block number has wrapped) and a network stack that accepts what is sent, no number
  of timeouts ends the transfer.
\<close>

theorem tftp_no_give_up_at_block_0:
  assumes "net_ok N" and "pastrrq st" and "winstart st = 0" and "winbits st = 0"
  shows "fst (receive_loop N port name buf (replicate n Timeout) (st, io)) = Continue"
  using assms
proof (induction n arbitrary: st io)
  case (Suc n)
  define wb where "wb = winbuf st - ucast (blksize st) +
    (if - 1 = lastblock st then ucast (lastsize st) else ucast (blksize st))"
  have "uint (- 1 :: u16) \<noteq> - 1"
    by (simp add: unsigned_minus_1_eq_mask mask_eq_exp_minus_1)
  then have "prvTftpAck N (st, io) =
    (0, st\<lparr>winbits := 0, winstart := 0, winbuf := wb, retries := 0\<rparr>,
     io\<lparr>log := log io @ [Sent (dst_addr st) (dst_port st) (ack_packet N (- 1))]\<rparr>)"
    using Suc.prems by (simp add: prvTftpAck_def Let_def count_acked_none send_ok wb_def)
  then show ?case
    using Suc.prems Suc.IH [of "st\<lparr>winbits := 0, winstart := 0, winbuf := wb, retries := 0\<rparr>"] by simp
qed simp

theorem tftp_no_give_up_at_block_0_witness:
  "fst (receive_loop demo_net 69 ''kernel'' 0x1000 (replicate 1000 Timeout)
     (zero_state\<lparr>pastrrq := True, winsize := 1\<rparr>, demo_io)) = Continue"
  by (rule tftp_no_give_up_at_block_0 [OF demo_net_ok]) (simp_all add: zero_state_def)

subsection \<open>The window invariant and the memory it bounds\<close>

definition tftp_inv :: "tftp_client_state \<Rightarrow> bool" where
  "tftp_inv st \<longleftrightarrow> winsize st \<le> TFTP_MAX_WINSIZE \<and> blksize st \<le> TFTP_MAX_BLKSIZE \<and> retries st \<le> TFTP_MAX_RETRIES"

lemma retries_bump: "retries st \<le> 5 \<Longrightarrow> retries st \<noteq> 5 \<Longrightarrow> retries st + 1 \<le> (5 :: u8)"
  by (metis add.commute inc_le order_le_imp_less_or_eq)

lemma Terminate_frame:
  assumes "prvTftpTerminate N c m (st, io) = (st', io')"
  shows "st' = st\<lparr>recvpacket := None\<rparr> \<and> mem io' = mem io"
  using assms by (auto simp: prvTftpTerminate_def send_def release_def closesocket_def Let_def split: option.splits)

definition one_sent :: "tftp_io \<Rightarrow> tftp_io \<Rightarrow> bool" where
  "one_sent io io' \<longleftrightarrow> (\<exists>d p b. log io' = log io @ [Sent d p b])"

lemma Ack_frame:
  assumes "prvTftpAck N (st, io) = (r, st', io')" "tftp_inv st"
  shows "tftp_inv st' \<and> mem io' = mem io \<and> winsize st' = winsize st \<and> blksize st' = blksize st \<and>
    (r = 0 \<longrightarrow> recvpacket st' = recvpacket st \<and> lastsize st' = lastsize st \<and> one_sent io io')"
  using assms retries_bump [of st]
  by (auto simp: prvTftpAck_def tftp_inv_def one_sent_def Let_def send_def split: if_splits dest!: Terminate_frame)

lemma Rrq_frame:
  assumes "prvTftpRrq N name (st, io) = (r, st', io')" "tftp_inv st"
  shows "tftp_inv st' \<and> mem io' = mem io \<and> (r = 0 \<longrightarrow> recvpacket st' = recvpacket st \<and> one_sent io io')"
  using assms retries_bump [of st]
  by (auto simp: prvTftpRrq_def tftp_inv_def one_sent_def Let_def send_def split: if_splits dest!: Terminate_frame)

lemma tftp_inv_upd [simp]:
  "tftp_inv (st\<lparr>recvpacket := x\<rparr>) = tftp_inv st" "tftp_inv (st\<lparr>winbuf := w\<rparr>) = tftp_inv st"
  "tftp_inv (st\<lparr>havetid := b\<rparr>) = tftp_inv st" "tftp_inv (st\<lparr>dst_port := p\<rparr>) = tftp_inv st"
  "tftp_inv (st\<lparr>pastrrq := b\<rparr>) = tftp_inv st"
  by (simp_all add: tftp_inv_def)

lemma release_recv_frame:
  "release_recv (st, io) = (out, st', io') \<Longrightarrow>
   out = Continue \<and> st' = st\<lparr>recvpacket := None\<rparr> \<and> mem io' = mem io \<and> log io' = log io @ [Released]"
  by (auto simp: release_recv_def release_def)

lemma data_start_inv: "tftp_inv st \<Longrightarrow> tftp_inv (data_start buf winoff st)"
  by (auto simp: data_start_def tftp_inv_def Let_def)

lemma succ_le: "w < x \<Longrightarrow> x \<le> y \<Longrightarrow> w + 1 \<le> (y :: u16)"
  by (metis add.commute inc_le order.trans)

lemma data_store_inv:
  assumes "tftp_inv st" "winoff < winsize st" "data_store block winoff dat (st, io) = (st', io')"
  shows "tftp_inv st'"
  using assms succ_le [OF assms(2), of 16] by (auto simp: data_store_def tftp_inv_def Let_def)

text \<open>
  What every handler guarantees, from a state that holds one received packet: the invariant, no
  change of memory beyond a set of addresses, and, unless it returns an error, that the packet
  has been given back exactly once and the socket closed exactly on success.
\<close>

definition handled :: "addr set \<Rightarrow> tftp_io \<Rightarrow> outcome \<times> tftp \<Rightarrow> bool" where
  "handled A io res = (case res of (out, st', io') \<Rightarrow>
     tftp_inv st' \<and> (\<forall>x. x \<notin> A \<longrightarrow> mem io' x = mem io x) \<and>
     (out = Continue \<longrightarrow> recvpacket st' = None) \<and>
     (case out of Continue \<Rightarrow> filter (\<lambda>e. e = Released \<or> e = Closed) (log io') =
                    filter (\<lambda>e. e = Released \<or> e = Closed) (log io) @ [Released]
      | Return v sz \<Rightarrow> v = 0 \<longrightarrow> sz \<noteq> None \<and> filter (\<lambda>e. e = Released \<or> e = Closed) (log io') =
                    filter (\<lambda>e. e = Released \<or> e = Closed) (log io) @ [Released, Closed]))"

lemma handled_fail: "tftp_inv st' \<Longrightarrow> mem io' = mem io \<Longrightarrow> handled A io (Return 1 None, st', io')"
  by (simp add: handled_def)

lemma handled_Terminate:
  "tftp_inv st \<Longrightarrow> mem io = mem io0 \<Longrightarrow> handled A io0 (Return 1 None, prvTftpTerminate N c m (st, io))"
  by (cases "prvTftpTerminate N c m (st, io)") (frule Terminate_frame, simp add: handled_def)

lemma handled_release:
  "tftp_inv st \<Longrightarrow> \<forall>x. x \<notin> A \<longrightarrow> mem io x = mem io0 x \<Longrightarrow>
   filter (\<lambda>e. e = Released \<or> e = Closed) (log io) = filter (\<lambda>e. e = Released \<or> e = Closed) (log io0) \<Longrightarrow>
   handled A io0 (release_recv (st, io))"
  by (simp add: handled_def release_recv_def release_def)

lemma one_sent_filter: "one_sent io io' \<Longrightarrow>
    filter (\<lambda>e. e = Released \<or> e = Closed) (log io') = filter (\<lambda>e. e = Released \<or> e = Closed) (log io)"
  by (auto simp: one_sent_def)

lemma handle_error_handled:
  assumes "tftp_inv st"
  shows "handled A io (handle_error N port name n (st, io))"
proof -
  define st1 where "st1 = st\<lparr>winsize := 1, blksize := 512, retries := 0, havetid := False, pastrrq := False,
      dst_port := htons N port\<rparr>"
  obtain r st' io' where rrq: "prvTftpRrq N name (st1, io) = (r, st', io')"
    by (metis prod_cases3)
  have "tftp_inv st1"
    by (simp add: st1_def tftp_inv_def)
  note f = Rrq_frame [OF rrq this]
  then show ?thesis
    using assms rrq one_sent_filter [of io io']
    by (auto simp: handle_error_def Let_def simp flip: st1_def
        intro!: handled_fail handled_Terminate handled_release)
qed

lemma handle_oack_handled:
  assumes "tftp_inv st"
  shows "handled A io (handle_oack N bs n (st, io))"
proof -
  obtain r st1 io1 where a1: "(if winsize st \<noteq> 0 then prvTftpAck N (st, io) else (0, st, io)) = (r, st1, io1)"
    by (metis prod_cases3)
  then have f1: "tftp_inv st1" "mem io1 = mem io" "r = 0 \<Longrightarrow>
      filter (\<lambda>e. e = Released \<or> e = Closed) (log io1) = filter (\<lambda>e. e = Released \<or> e = Closed) (log io)"
    using Ack_frame [of N st io r st1 io1] assms one_sent_filter by (auto split: if_splits)
  show ?thesis
  proof (cases "winbuf st \<noteq> 0 \<or> r \<noteq> 0")
    case True
    then show ?thesis
      using assms a1 f1 by (auto simp: handle_oack_def intro!: handled_fail handled_release)
  next
    case False
    then have h: "handle_oack N bs n (st, io) = (case parse_oack bs n 2 1 512 of
            Inl MissingValue \<Rightarrow> (Return 1 None, prvTftpTerminate N 0 ''Option missing value'' (st1, io1))
          | Inl BadValue \<Rightarrow> (Return 1 None, prvTftpTerminate N 0 ''Option has bad value'' (st1, io1))
          | Inr (ws, bz) \<Rightarrow>
              let st = st1\<lparr>winsize := 1, winstart := 0, winbits := 1, lastblock := 0, lastsize := 0,
                          retries := 0\<rparr>;
                  (r, st, io) = prvTftpAck N (st, io1) in
              if r \<noteq> 0 then (Return 1 None, st, io)
              else release_recv (st\<lparr>pastrrq := True, winsize := ws, blksize := bz\<rparr>, io))"
      using a1 by (simp add: handle_oack_def)
    show ?thesis
    proof (cases "parse_oack bs n 2 1 512")
      case (Inl e)
      then show ?thesis
        unfolding h using f1 by (cases e) (auto intro!: handled_Terminate)
    next
      case (Inr v)
      obtain ws bz where v: "v = (ws, bz)"
        by fastforce
      define st2 where "st2 = st1\<lparr>winsize := 1, winstart := 0, winbits := 1, lastblock := 0, lastsize := 0,
                          retries := 0\<rparr>"
      obtain r3 st3 io3 where a3: "prvTftpAck N (st2, io1) = (r3, st3, io3)"
        by (metis prod_cases3)
      have "tftp_inv st2"
        using f1(1) by (simp add: st2_def tftp_inv_def)
      note f3 = Ack_frame [OF a3 this]
      have "ws \<le> 16" "bz \<le> 1024"
        using parse_oack_bounds [OF Inr [unfolded v]] by auto
      then have "tftp_inv (st3\<lparr>pastrrq := True, winsize := ws, blksize := bz\<rparr>)"
        using f3 by (simp add: tftp_inv_def)
      then show ?thesis
        unfolding h Inr v using f1 f3 a3 False one_sent_filter [of io1 io3]
        by (auto simp: Let_def simp flip: st2_def intro!: handled_fail handled_release)
    qed
  qed
qed

lemma mem_write_frame: "unat (x - a) \<ge> length bs \<Longrightarrow> mem_write a bs m x = m x"
  by (simp add: mem_write_def)

text \<open>The bytes of the current window: at most sixteen blocks of at most 1024 bytes.\<close>

definition window_bytes :: "addr \<Rightarrow> tftp_client_state \<Rightarrow> addr set" where
  "window_bytes buf st = {x. unat (x - (if winbuf st = 0 then buf else winbuf st)) < 16 * 1024}"

lemma window_store:
  fixes x w :: addr
  assumes "off < 16" "len \<le> bz" "bz \<le> 1024" "unat (x - w) \<ge> 16 * 1024"
  shows "len \<le> unat (x - (w + of_nat (off * bz)))"
proof -
  have "off * bz + len \<le> 15 * 1024 + 1024"
    using assms(1-3) by (intro add_mono mult_le_mono) auto
  then have le: "off * bz + len \<le> unat (x - w)" and "off * bz \<le> 16384"
    using assms(4) by linarith+
  then have lt: "off * bz < 2 ^ 32"
    by simp
  have u: "unat (of_nat (off * bz) :: u32) = off * bz"
    by (rule unat_of_nat_small) (use lt in simp)
  then have "(of_nat (off * bz) :: u32) \<le> x - w"
    using le by (simp only: word_le_nat_alt)
  then have "unat (x - w - of_nat (off * bz)) = unat (x - w) - off * bz"
    by (simp only: of_nat_unat_sub u)
  moreover have "x - (w + of_nat (off * bz)) = x - w - of_nat (off * bz)"
    by (rule diff_diff_eq [symmetric])
  ultimately show ?thesis
    using le by (simp only:)
qed

lemma data_store_frame:
  assumes "tftp_inv st" "winoff < winsize st" "length dat \<le> unat (blksize st)"
    "data_store block winoff dat (st, io) = (st', io')" "unat (x - winbuf st) \<ge> 16 * 1024"
  shows "mem io' x = mem io x"
proof -
  have "unat winoff < 16" "unat (blksize st) \<le> 1024"
    using assms(1,2) by (auto simp: tftp_inv_def word_le_nat_alt word_less_nat_alt)
  from window_store [OF this(1) assms(3) this(2) assms(5)]
  have "length dat \<le> unat (x - (winbuf st + of_int (uint winoff * uint (blksize st))))"
    by simp
  moreover have "io' = io\<lparr>mem := mem_write (winbuf st + of_int (uint winoff * uint (blksize st))) dat (mem io)\<rparr>"
    using assms(4) by (simp add: data_store_def Let_def)
  ultimately show ?thesis
    by (simp add: mem_write_frame)
qed

lemma handle_data_handled:
  assumes inv: "tftp_inv st"
  shows "handled (window_bytes buf st) io (handle_data N buf bs (st, io))"
proof (cases "length bs < 4")
  case True
  then show ?thesis
    using inv by (auto simp: handle_data_def intro!: handled_Terminate)
next
  case len: False
  define block where "block = ntohs N (load16 bs 2)"
  define winoff where "winoff = block - winstart st"
  define st1 where "st1 = data_start buf winoff st"
  have inv1: "tftp_inv st1"
    using inv by (simp add: st1_def data_start_inv)
  obtain r st2 io2 where a: "(if winoff = 0xffff \<and> winbits st1 = 0 then prvTftpAck N (st1, io) else (0, st1, io)) = (r, st2, io2)"
    by (metis prod_cases3)
  then have f: "tftp_inv st2" "mem io2 = mem io" "winsize st2 = winsize st1" "r = 0 \<Longrightarrow>
      filter (\<lambda>e. e = Released \<or> e = Closed) (log io2) = filter (\<lambda>e. e = Released \<or> e = Closed) (log io)"
    using Ack_frame [of N st1 io r st2 io2] inv1 one_sent_filter by (auto split: if_splits)
  define sz where "sz = (of_nat (length bs - 4) :: u16)"
  have h: "handle_data N buf bs (st, io) =
     (if r \<noteq> 0 then (Return 1 None, st2, io2)
      else if winoff \<ge> winsize st2 then release_recv (st2, io2)
      else if sz > blksize st2
      then (Return 1 None, prvTftpTerminate N 0 ''Data packet exceeds blksize'' (st2, io2))
      else
           let (st, io) = data_store block winoff (take (unat sz) (drop 4 bs)) (st2, io2) in
           if window_complete st then
             let (r, st, io) = prvTftpAck N (st, io) in
             if r \<noteq> 0 then (Return 1 None, st, io)
             else if lastsize st < blksize st
             then (Return 0 (Some (winbuf st - buf)), st, closesocket (release io))
             else release_recv (st, io)
           else release_recv (st, io))"
    unfolding handle_data_def prod.case Let_def block_def [symmetric] winoff_def [symmetric]
      st1_def [symmetric] sz_def [symmetric] a using len by simp
  consider (early) "r \<noteq> 0 \<or> winoff \<ge> winsize st2 \<or> sz > blksize st2"
    | (store) "r = 0" "winoff < winsize st2" "sz \<le> blksize st2"
    by fastforce
  then show ?thesis
  proof cases
    case early
    then show ?thesis
      unfolding h using f by (auto intro!: handled_fail handled_release handled_Terminate)
  next
    case store
    have "winoff \<noteq> 0xffff"
      using store(2) f(1) by (auto simp: tftp_inv_def word_le_nat_alt word_less_nat_alt)
    then have st2: "st2 = st1" "io2 = io"
      using a by auto
    obtain st3 io3 where d: "data_store block winoff (take (unat sz) (drop 4 bs)) (st2, io2) = (st3, io3)"
      by fastforce
    have inv3: "tftp_inv st3"
      using data_store_inv [OF f(1) store(2) d] .
    have dl: "length (take (unat sz) (drop 4 bs)) \<le> unat (blksize st2)"
      using store(3) by (simp add: word_le_nat_alt)
    have wb: "winbuf st2 = (if winbuf st = 0 then buf else winbuf st)"
      using store(2) unfolding st2 st1_def data_start_def by (auto simp: Let_def split: if_splits)
    have "mem io3 x = mem io x" if "x \<notin> window_bytes buf st" for x
      using data_store_frame [OF f(1) store(2) dl d, of x] that wb st2
      by (auto simp: window_bytes_def not_less)
    moreover have "log io3 = log io"
      using d st2 by (auto simp: data_store_def Let_def)
    moreover obtain r4 st4 io4 where a4: "prvTftpAck N (st3, io3) = (r4, st4, io4)"
      by (metis prod_cases3)
    note f4 = Ack_frame [OF a4 inv3]
    ultimately show ?thesis
      unfolding h using store d a4 f4 inv3 one_sent_filter [of io3 io4]
      by (auto simp: handled_def release_recv_def release_def closesocket_def)
  qed
qed

lemma handle_packet_handled:
  assumes "tftp_inv st"
  shows "handled (insert (buf + of_nat (length bs)) (window_bytes buf st)) io
    (handle_packet N port name buf bs slk (st, io))"
proof -
  define st1 where "st1 = st\<lparr>recvpacket := Some bs\<rparr>"
  define io1 where "io1 = io\<lparr>mem := (mem io)(buf + of_nat (length bs) := 0)\<rparr>"
  have inv: "tftp_inv st1"
    using assms by (simp add: st1_def)
  have wb: "window_bytes buf st1 = window_bytes buf st"
    by (simp add: window_bytes_def st1_def)
  have weaken: "handled (insert (buf + of_nat (length bs)) (window_bytes buf st)) io res"
    if "handled (window_bytes buf st1) io1 res" for res
    using that unfolding handled_def wb io1_def by (cases res) (auto split: outcome.splits)
  show ?thesis
  proof (cases "length bs < 2")
    case True
    then show ?thesis
      using inv by (auto simp: handle_packet_def st1_def intro!: handled_Terminate)
  next
    case False
    then show ?thesis
      using handle_error_handled [OF inv] handle_oack_handled [OF inv] handle_data_handled [OF inv] inv
      by (auto simp: handle_packet_def Let_def simp flip: st1_def io1_def intro!: weaken handled_release)
  qed
qed

lemma receive_step_handled:
  assumes inv: "tftp_inv st" and "recvpacket st = None"
    and step: "receive_step N port name buf r (st, io) = (out, st', io')"
  shows "tftp_inv st' \<and> (out = Continue \<longrightarrow> recvpacket st' = None)"
    and "\<And>sa sp bs slk. r = Packet sa sp bs slk \<Longrightarrow>
      handled (insert (buf + of_nat (length bs)) (window_bytes buf st)) io (out, st', io')"
    and "\<And>e. r = RecvError e \<Longrightarrow> mem io' = mem io"
proof -
  have "handled (insert (buf + of_nat (length bs)) (window_bytes buf st)) io (out, st', io')"
    if r: "r = Packet sa sp bs slk" for sa sp bs slk
  proof -
    have "window_bytes buf (st\<lparr>havetid := True, dst_port := sp\<rparr>) = window_bytes buf st"
      by (simp add: window_bytes_def)
    then show ?thesis
      using step assms(2) inv handle_packet_handled [OF inv, of buf bs io N port name slk]
        handle_packet_handled [of "st\<lparr>havetid := True, dst_port := sp\<rparr>" buf bs io N port name slk]
      unfolding r by (auto simp: handled_def release_def split: if_splits)
  qed
  moreover have "tftp_inv st' \<and> (out = Continue \<longrightarrow> recvpacket st' = None) \<and> mem io' = mem io"
    if r: "r = RecvError e" for e
    using step assms(2) Ack_frame [OF _ inv] Rrq_frame [OF _ inv] inv
    unfolding r by (auto split: if_splits prod.splits dest!: Terminate_frame)
  ultimately show "tftp_inv st' \<and> (out = Continue \<longrightarrow> recvpacket st' = None)"
    and "\<And>sa sp bs slk. r = Packet sa sp bs slk \<Longrightarrow>
      handled (insert (buf + of_nat (length bs)) (window_bytes buf st)) io (out, st', io')"
    and "\<And>e. r = RecvError e \<Longrightarrow> mem io' = mem io"
    by (cases r; force simp: handled_def)+
qed

text \<open>The states of the receive loop, from the first request on.\<close>

definition tftp_start :: "netapi \<Rightarrow> string \<Rightarrow> u16 \<Rightarrow> string \<Rightarrow> tftp \<Rightarrow> bool" where
  "tftp_start N host port name s \<longleftrightarrow> (\<exists>io. prvTftpRrq N name
     (zero_state\<lparr>dst_addr := inet_addr N host, dst_port := htons N port, dstaddrlen := 8,
        sock := socket N, winstart := 1\<rparr>, io) = (0, s))"

inductive tftp_step :: "netapi \<Rightarrow> u16 \<Rightarrow> string \<Rightarrow> addr \<Rightarrow> tftp \<Rightarrow> tftp \<Rightarrow> bool" for N port name buf where
  receive: "receive_step N port name buf r s = (Continue, s') \<Longrightarrow> tftp_step N port name buf s s'"

interpretation tftp: inv_system "tftp_start N host port name" "tftp_step N port name buf"
    "\<lambda>s. tftp_inv (fst s) \<and> recvpacket (fst s) = None" for N host port name buf
proof
  fix s :: tftp
  assume "tftp_start N host port name s"
  then obtain io where r: "prvTftpRrq N name (zero_state\<lparr>dst_addr := inet_addr N host, dst_port := htons N port,
      dstaddrlen := 8, sock := socket N, winstart := 1\<rparr>, io) = (0, fst s, snd s)"
    by (auto simp: tftp_start_def)
  show "tftp_inv (fst s) \<and> recvpacket (fst s) = None"
    using Rrq_frame [OF r] by (simp add: tftp_inv_def zero_state_def)
next
  fix s t :: tftp
  assume "tftp_inv (fst s) \<and> recvpacket (fst s) = None" "tftp_step N port name buf s t"
  then show "tftp_inv (fst t) \<and> recvpacket (fst t) = None"
    by (cases s; cases t) (auto elim!: tftp_step.cases dest: receive_step_handled(1) [rotated -1])
qed

definition demo_start :: tftp where
  "demo_start = snd (prvTftpRrq demo_net ''kernel'' (zero_state\<lparr>dst_addr := inet_addr demo_net ''10.0.0.1'',
     dst_port := htons demo_net 69, dstaddrlen := 8, sock := socket demo_net, winstart := 1\<rparr>, demo_io))"

lemma demo_start_reach:
  "reach (tftp_start demo_net ''10.0.0.1'' 69 ''kernel'') (tftp_step demo_net 69 ''kernel'' 0x1000) demo_start"
proof (rule reach.reach_init)
  show "tftp_start demo_net ''10.0.0.1'' 69 ''kernel'' demo_start"
    using Rrq_first [OF demo_net_ok] unfolding tftp_start_def demo_start_def
    by (intro exI [of _ demo_io]) (simp add: zero_state_def)
qed

text \<open>
  C8.  Memory safety of the download: in every state the receive loop can reach, whatever
  arrives, an iteration changes no byte outside the current window (sixteen blocks of 1024
  bytes from the write position) except the one at \<open>buf + fromlen\<close>; and an iteration without a
  packet changes none.
\<close>

theorem tftp_stores_in_window:
  assumes "reach (tftp_start N host port name) (tftp_step N port name buf) (st, io)"
    and "receive_step N port name buf r (st, io) = (out, st', io')"
  shows "case r of RecvError e \<Rightarrow> mem io' = mem io
    | Packet sa sp bs slk \<Rightarrow> \<forall>x. x \<noteq> buf + of_nat (length bs) \<longrightarrow>
        16 * 1024 \<le> unat (x - (if winbuf st = 0 then buf else winbuf st)) \<longrightarrow> mem io' x = mem io x"
proof -
  have "tftp_inv st" "recvpacket st = None"
    using tftp.reach_inv [OF assms(1)] by simp_all
  from receive_step_handled(2,3) [OF this assms(2)] show ?thesis
    by (cases r) (auto simp: handled_def window_bytes_def not_less)
qed

theorem tftp_stores_in_window_witness:
  "mem (snd (snd (receive_step demo_net 69 ''kernel'' 0x1000
     (Packet 0x0A000001 99 [0, 3, 0, 1, 42, 43] []) demo_start))) 0x5000 = mem (snd demo_start) 0x5000"
proof -
  obtain out st' io' where s: "receive_step demo_net 69 ''kernel'' 0x1000
     (Packet 0x0A000001 99 [0, 3, 0, 1, 42, 43] []) (fst demo_start, snd demo_start) = (out, st', io')"
    by (metis prod_cases3)
  have "winbuf (fst demo_start) = 0"
    by (simp add: demo_start_def Rrq_first [OF demo_net_ok] zero_state_def)
  then show ?thesis
    using tftp_stores_in_window [OF _ s] demo_start_reach s by simp
qed

text \<open>
  C9.  Payload buffers are given back exactly once: in every reachable state, an iteration that
  receives a packet and goes on with the loop calls \<^verbatim>\<open>FreeRTOS_ReleaseUDPPayloadBuffer\<close> once and
  leaves the socket open, and the iteration that returns success releases the packet once and
  closes the socket once.
\<close>

theorem tftp_buffers_released_once:
  assumes "reach (tftp_start N host port name) (tftp_step N port name buf) (st, io)"
    and "receive_step N port name buf (Packet sa sp bs slk) (st, io) = (out, st', io')"
  shows "case out of
      Continue \<Rightarrow> filter (\<lambda>e. e = Released \<or> e = Closed) (log io') =
        filter (\<lambda>e. e = Released \<or> e = Closed) (log io) @ [Released]
    | Return v sz \<Rightarrow> v = 0 \<longrightarrow> sz \<noteq> None \<and>
        filter (\<lambda>e. e = Released \<or> e = Closed) (log io') =
        filter (\<lambda>e. e = Released \<or> e = Closed) (log io) @ [Released, Closed]"
proof -
  have "tftp_inv st" "recvpacket st = None"
    using tftp.reach_inv [OF assms(1)] by simp_all
  from receive_step_handled(2) [OF this assms(2) refl] show ?thesis
    by (simp add: handled_def)
qed

theorem tftp_buffers_released_once_witness:
  "filter (\<lambda>e. e = Released \<or> e = Closed) (log (snd (snd (receive_step demo_net 69 ''kernel'' 0x1000
     (Packet 7 99 [0, 3, 0, 1, 42, 43] []) demo_start)))) =
   filter (\<lambda>e. e = Released \<or> e = Closed) (log (snd demo_start)) @ [Released]"
proof -
  have "dst_addr (fst demo_start) = 0x0A000001"
    by (simp add: demo_start_def Rrq_first [OF demo_net_ok] zero_state_def) (simp add: demo_net_def)
  then have s: "receive_step demo_net 69 ''kernel'' 0x1000
     (Packet 7 99 [0, 3, 0, 1, 42, 43] []) (fst demo_start, snd demo_start) =
     (Continue, fst demo_start, release (snd demo_start))"
    by (simp only: receive_step.simps) simp
  then show ?thesis
    using tftp_buffers_released_once [OF _ s] demo_start_reach by simp
qed

subsection \<open>The last window, in any order\<close>

lemma data_arrives:
  assumes N: "net_ok N" and st: "dst_addr st = sa" "dst_port st = sp" "havetid st"
    and off: "winoff = of_nat (Suc i) - winstart st" "winoff \<noteq> 0xffff" "winsize st \<noteq> 0"
    and sz: "length (chunk F B i) \<le> unat (blksize st)"
  shows "receive_step N port name buf (Packet sa sp (data_bytes N F B i) slk) (st, io) =
    (let st = data_start buf winoff (st\<lparr>recvpacket := Some (data_bytes N F B i)\<rparr>);
         io = io\<lparr>mem := (mem io)(buf + of_nat (4 + length (chunk F B i)) := 0)\<rparr> in
     if winsize st \<le> winoff then release_recv (st, io)
     else
       let (st, io) = data_store (of_nat (Suc i)) winoff (chunk F B i) (st, io) in
       if window_complete st then
         let (r, st, io) = prvTftpAck N (st, io) in
         if r \<noteq> 0 then (Return 1 None, st, io)
         else if lastsize st < blksize st
         then (Return 0 (Some (winbuf st - buf)), st, closesocket (release io))
         else release_recv (st, io)
       else release_recv (st, io))"
proof -
  note h = data_header [OF N refl, of F B i]
  have bz: "unat (blksize st) < 65536"
    using unsigned_less [of "blksize st", where ?'a = nat] by simp
  then have s: "unat (of_nat (length (chunk F B i)) :: u16) = length (chunk F B i)"
    using sz by (intro unat_of_nat16) simp
  have d: "winsize (data_start buf winoff (st\<lparr>recvpacket := x\<rparr>)) = winsize st"
      "blksize (data_start buf winoff (st\<lparr>recvpacket := x\<rparr>)) = blksize st" for x
    using off(3) by (auto simp: data_start_def Let_def)
  have "\<not> blksize st < of_nat (length (chunk F B i))"
    using sz s by (auto simp: word_less_nat_alt)
  then show ?thesis
    using st h d s off(2)
    by (simp add: handle_packet_def handle_data_def Let_def off(1) [symmetric] del: of_nat_Suc)
qed

text \<open>What stays the same while the blocks of a window that starts behind \<open>k\<close> blocks arrive.\<close>

definition window_at :: "addr \<Rightarrow> u32 \<Rightarrow> u16 \<Rightarrow> nat \<Rightarrow> nat \<Rightarrow> tftp_client_state \<Rightarrow> bool" where
  "window_at buf sa sp B k st \<longleftrightarrow>
     dst_addr st = sa \<and> dst_port st = sp \<and> havetid st \<and> pastrrq st \<and> blksize st = of_nat B \<and>
     winstart st = of_nat (Suc k) \<and> retries st \<le> 5 \<and>
     (winbuf st = buf + of_nat (k * B) \<or> k = 0 \<and> winbuf st = 0) \<and>
     (k = 0 \<or> buf + of_nat (k * B) \<noteq> 0)"

text \<open>The state after the block at offset \<open>j\<close> with \<open>l\<close> bytes has been stored.\<close>

definition stored :: "nat \<Rightarrow> nat \<Rightarrow> nat \<Rightarrow> tftp_client_state \<Rightarrow> tftp_client_state" where
  "stored k j l st =
     (let lastoff = lastblock st - winstart st;
          new = (lastoff < of_nat j \<or> winsize st \<le> lastoff);
          ls = (if new then of_nat l else lastsize st)
      in st\<lparr>lastblock := if new then of_nat (Suc (k + j)) else lastblock st, lastsize := ls,
            winsize := if ls < blksize st then of_nat (Suc j) else winsize st,
            winbits := winbits st OR push_bit j 1\<rparr>)"

lemma data_store_stored:
  assumes "j < 16"
  shows "\<exists>io'. data_store (of_nat (Suc (k + j))) (of_nat j) dat (st, io) = (stored k j (length dat) st, io')"
proof -
  have u: "unat (of_nat j :: u16) = j"
    using assms by (simp add: unat_of_nat16)
  show ?thesis
    by (cases "lastblock st - winstart st < of_nat j \<or> winsize st \<le> lastblock st - winstart st";
        cases "of_nat (length dat) < blksize st"; cases "lastsize st < blksize st")
       (auto simp: data_store_def stored_def Let_def u algebra_simps)
qed

lemma window_step:
  assumes N: "net_ok N" and st: "window_at buf sa sp B k st" and B: "B \<le> 1024"
    and j: "j < 16" and w: "winsize st \<noteq> 0"
  shows "\<exists>io2. receive_step N port name buf (Packet sa sp (data_bytes N F B (k + j)) slk) (st, io) =
    (if winsize st \<le> of_nat j then release_recv (data_start buf (of_nat j) (st\<lparr>recvpacket := Some (data_bytes N F B (k + j))\<rparr>), io2)
     else
       let st = stored k j (length (chunk F B (k + j)))
           (st\<lparr>recvpacket := Some (data_bytes N F B (k + j)), winbuf := buf + of_nat (k * B)\<rparr>) in
       if window_complete st then
         let (r, st, io) = prvTftpAck N (st, io2) in
         if r \<noteq> 0 then (Return 1 None, st, io)
         else if lastsize st < blksize st
         then (Return 0 (Some (winbuf st - buf)), st, closesocket (release io))
         else release_recv (st, io)
       else release_recv (st, io2))"
proof -
  let ?bs = "data_bytes N F B (k + j)"
  have c: "length (chunk F B (k + j)) \<le> B"
    by (simp add: chunk_def)
  have u: "unat (of_nat j :: u16) = j" "unat (blksize st) = B"
    using j B st by (auto simp: unat_of_nat16 window_at_def)
  have off: "of_nat j = of_nat (Suc (k + j)) - winstart st" "(of_nat j :: u16) \<noteq> 0xffff"
    using st u(1) j by (auto simp: window_at_def)
  have ws: "winsize (data_start buf (of_nat j) (st\<lparr>recvpacket := Some ?bs\<rparr>)) = winsize st"
    using w by (auto simp: data_start_def Let_def)
  have ds: "data_start buf (of_nat j) (st\<lparr>recvpacket := Some ?bs\<rparr>) =
      st\<lparr>recvpacket := Some ?bs, winbuf := buf + of_nat (k * B)\<rparr>" if "\<not> winsize st \<le> of_nat j"
    using st w that by (auto simp: data_start_def Let_def window_at_def not_le)
  define io1 where "io1 = io\<lparr>mem := (mem io)(buf + of_nat (4 + length (chunk F B (k + j))) := 0)\<rparr>"
  define st1 where "st1 = st\<lparr>recvpacket := Some ?bs, winbuf := buf + of_nat (k * B)\<rparr>"
  obtain io2 where store: "data_store (of_nat (Suc (k + j))) (of_nat j) (chunk F B (k + j)) (st1, io1) =
      (stored k j (length (chunk F B (k + j))) st1, io2)"
    using data_store_stored [OF j] by blast
  have "dst_addr st = sa" "dst_port st = sp" "havetid st" "length (chunk F B (k + j)) \<le> unat (blksize st)"
    using st c u(2) by (simp_all add: window_at_def)
  note r = data_arrives [OF N this(1-3) off w this(4), of port name buf slk io, folded io1_def, unfolded Let_def ws]
  show ?thesis
  proof (cases "winsize st \<le> of_nat j")
    case True
    then show ?thesis
      unfolding r by auto
  next
    case False
    show ?thesis
      unfolding r ds [OF False] st1_def [symmetric] store using False by (intro exI [of _ io2]) (simp add: Let_def)
  qed
qed


lemma window_incomplete:
  assumes "bit (winbits st) m" "winsize st \<le> of_nat m" "m < 16"
  shows "\<not> window_complete st"
proof -
  let ?w = "unat (winsize st)"
  have w: "?w \<le> m"
    using assms(2,3) by (simp add: word_le_nat_alt unat_of_nat16)
  have "(0xffff :: int) div 2 ^ (16 - ?w) < 2 ^ ?w"
    using full_window_all [THEN bspec, of ?w] w assms(3) by (cases "?w = 0") simp_all
  also have "\<dots> \<le> 2 ^ m"
    using w by simp
  also have "2 ^ m \<le> uint (winbits st)"
  proof (rule ccontr)
    assume "\<not> 2 ^ m \<le> uint (winbits st)"
    then have "take_bit m (uint (winbits st)) = uint (winbits st)"
      by (simp add: take_bit_int_eq_self_iff)
    then have "\<not> bit (uint (winbits st)) m"
      by (metis bit_take_bit_iff less_irrefl)
    then show False
      using assms(1,3) by (simp add: bit_uint_iff)
  qed
  finally have "uint (winbits st) \<noteq> 0xffff div 2 ^ (16 - ?w)"
    by simp
  moreover have "nat (16 - uint (winsize st)) = 16 - ?w"
    unfolding uint_nat [of "winsize st"] by (simp only: nat_diff_distrib' of_nat_0_le_iff nat_int nat_numeral)
  ultimately show ?thesis
    by (simp only: window_complete_def not_False_eq_True simp_thms)
qed

lemma window_full:
  assumes "window_complete st" "winsize st = of_nat w" "1 \<le> w" "w \<le> 16"
  shows "winbits st = mask w"
proof -
  have "uint (mask w :: u16) = 0xffff div 2 ^ nat (16 - uint (of_nat w :: u16))"
    using window_mask [OF assms(3,4,4)] by blast
  then show ?thesis
    using assms(1,2) unfolding window_complete_def by (metis unsigned_word_eqI)
qed

text \<open>
  Before the last block of the file, at offset \<open>m\<close>, has come: the full blocks at the offsets in \<open>S\<close>
  have arrived.
\<close>

definition early :: "nat \<Rightarrow> nat \<Rightarrow> nat \<Rightarrow> nat set \<Rightarrow> tftp_client_state \<Rightarrow> bool" where
  "early m W B S st \<longleftrightarrow> winsize st = of_nat W \<and> (\<forall>i. bit (winbits st) i \<longleftrightarrow> i \<in> S) \<and>
     (of_nat W \<le> lastblock st - winstart st \<or>
      lastblock st - winstart st < of_nat m \<and> lastsize st = of_nat B)"

text \<open>After the last block and another one behind it: the window has been cut short.\<close>

definition cut :: "nat \<Rightarrow> tftp_client_state \<Rightarrow> bool" where
  "cut m st \<longleftrightarrow> winsize st \<noteq> 0 \<and> winsize st \<le> of_nat m \<and> bit (winbits st) m"

lemma window_at_stored:
  "window_at buf sa sp B k st \<Longrightarrow> window_at buf sa sp B k (stored k j l
     (st\<lparr>recvpacket := r, winbuf := buf + of_nat (k * B)\<rparr>)\<lparr>recvpacket := None\<rparr>)"
  by (simp add: window_at_def stored_def Let_def)

lemma step_incomplete:
  fixes N F B k j
  assumes N: "net_ok N" and B: "B \<le> 1024" and st: "window_at buf sa sp B k st" and j: "j < 16"
    and w: "winsize st \<noteq> 0" "of_nat j < winsize st"
  defines "st' \<equiv> stored k j (length (chunk F B (k + j)))
      (st\<lparr>recvpacket := Some (data_bytes N F B (k + j)), winbuf := buf + of_nat (k * B)\<rparr>)"
  assumes nc: "\<not> window_complete st'"
  shows "\<exists>io'. receive_step N port name buf (Packet sa sp (data_bytes N F B (k + j)) slk) (st, io) =
    (Continue, st'\<lparr>recvpacket := None\<rparr>, io') \<and> window_at buf sa sp B k (st'\<lparr>recvpacket := None\<rparr>)"
proof -
  have "\<not> winsize st \<le> of_nat j"
    using w(2) by simp
  then obtain io2 where "receive_step N port name buf (Packet sa sp (data_bytes N F B (k + j)) slk) (st, io) =
      release_recv (st', io2)"
    using window_step [OF N st B j w(1), of port name F slk io] nc unfolding st'_def
    by (simp add: Let_def del: receive_step.simps of_nat_mult) blast
  then show ?thesis
    using window_at_stored [OF st] by (simp add: release_recv_def st'_def)
qed

lemma less16: "a < 65536 \<Longrightarrow> b < 65536 \<Longrightarrow> ((of_nat a :: u16) < of_nat b) = (a < b)"
  "a < 65536 \<Longrightarrow> b < 65536 \<Longrightarrow> ((of_nat a :: u16) \<le> of_nat b) = (a \<le> b)"
  by (simp_all add: word_less_nat_alt word_le_nat_alt unat_of_nat16)

lemma pos16: "a < 65535 \<Longrightarrow> (of_nat (Suc a) :: u16) \<noteq> 0"
  using unat_of_nat16 [of "Suc a"] by (force simp del: of_nat_Suc)

lemma early_stored:
  assumes "window_at buf sa sp B k st" "early m W B S st" "j < m" "m < W" "W \<le> 16" "S \<subseteq> {..<m}"
  shows "early m W B (insert j S) (stored k j B (st\<lparr>recvpacket := r, winbuf := w\<rparr>)\<lparr>recvpacket := None\<rparr>)"
proof -
  have o: "of_nat (Suc (k + j)) - winstart st = (of_nat j :: u16)" "blksize st = of_nat B"
    using assms(1) by (simp_all add: window_at_def)
  have "bit (winbits st OR push_bit j 1) i \<longleftrightarrow> i = j \<or> i \<in> S" for i
    using assms(2-5) by (auto simp: early_def bit_simps)
  then show ?thesis
    using assms(2-5) o less16 [of j m]
    by (auto simp: early_def stored_def Let_def simp del: of_nat_Suc of_nat_add)
qed

lemma early_step:
  assumes N: "net_ok N" and B: "B \<le> 1024" and st: "window_at buf sa sp B k st" "early m W B S st"
    and j: "j < m" "m < W" "W \<le> 16" "S \<subseteq> {..<m}" and full: "length (chunk F B (k + j)) = B"
  shows "\<exists>st' io'. receive_step N port name buf (Packet sa sp (data_bytes N F B (k + j)) slk) (st, io) =
    (Continue, st', io') \<and> window_at buf sa sp B k st' \<and> early m W B (insert j S) st'"
proof -
  let ?st = "stored k j B (st\<lparr>recvpacket := Some (data_bytes N F B (k + j)), winbuf := buf + of_nat (k * B)\<rparr>)"
  have w: "winsize st = of_nat W"
    using st(2) by (simp add: early_def)
  have w': "winsize st \<noteq> 0" "\<not> winsize st \<le> of_nat j"
    using less16 [of 0 W] less16 [of W j] j unfolding w by auto
  note e = early_stored [OF st j, where r = "Some (data_bytes N F B (k + j))" and w = "buf + of_nat (k * B)"]
  have "\<not> bit (winbits ?st) m" "winsize ?st = of_nat W"
    using e j by (auto simp: early_def)
  then have "\<not> window_complete ?st"
    using window_full [of ?st W] j by (auto simp: bit_simps)
  then show ?thesis
    using step_incomplete [OF N B st(1) _ w'(1), of j F port name slk io] j w'(2) full e
    by (auto simp del: receive_step.simps of_nat_mult simp: not_le)
qed

lemma last_stored:
  assumes st: "window_at buf sa sp B k st" "early m W B S st" and m: "m < W" "W \<le> 16"
    and short: "l < B" "B \<le> 1024"
  shows "stored k m l (st\<lparr>recvpacket := r, winbuf := w\<rparr>) =
    st\<lparr>recvpacket := r, winbuf := w, lastblock := of_nat (Suc (k + m)), lastsize := of_nat l,
       winsize := of_nat (Suc m), winbits := winbits st OR push_bit m 1\<rparr>"
proof -
  have "lastblock st - winstart st < of_nat m \<or> winsize st \<le> lastblock st - winstart st"
    "(of_nat l :: u16) < blksize st"
    using st less16(1) [of l B] short by (auto simp: early_def window_at_def)
  then show ?thesis
    by (simp add: stored_def Let_def del: of_nat_Suc of_nat_add)
qed

lemma last_step_complete:
  assumes N: "net_ok N" and B: "B \<le> 1024" and st: "window_at buf sa sp B k st" "early m W B {..<m} st"
    and m: "m < W" "W \<le> 16" and short: "length (chunk F B (k + m)) < B"
  shows "\<exists>s'. receive_step N port name buf (Packet sa sp (data_bytes N F B (k + m)) slk) (st, io) =
    (Return 0 (Some (of_nat ((k + m) * B + length (chunk F B (k + m))))), s')"
proof -
  let ?l = "length (chunk F B (k + m))"
  define st' where "st' = st\<lparr>recvpacket := Some (data_bytes N F B (k + m)), winbuf := buf + of_nat (k * B),
      lastblock := of_nat (Suc (k + m)), lastsize := of_nat ?l, winsize := of_nat (Suc m), winbits := mask (Suc m)\<rparr>"
  have b: "bit (winbits st) i \<longleftrightarrow> i < m" for i
    using st(2) by (simp add: early_def)
  have "winbits st OR push_bit m 1 = mask (Suc m)"
  proof (rule bit_word_eqI)
    fix i
    assume "i < LENGTH(16)"
    then show "bit (winbits st OR push_bit m 1) i \<longleftrightarrow> bit (mask (Suc m) :: u16) i"
      using m by (auto simp: b bit_simps)
  qed
  note stored = last_stored [OF st m short B, unfolded this, where r = "Some (data_bytes N F B (k + m))" and w = "buf + of_nat (k * B)",
      folded st'_def]
  have w: "winsize st = of_nat W"
    using st(2) by (simp add: early_def)
  have w': "winsize st \<noteq> 0" "\<not> winsize st \<le> of_nat m"
    using less16 [of 0 W] less16 [of W m] m unfolding w by auto
  have complete: "window_complete st'"
    using window_mask [of "Suc m" "Suc m"] m by (simp add: window_complete_def st'_def del: of_nat_Suc)
  have u: "unat (blksize st) = B" "blksize st = of_nat B" "winstart st = of_nat (Suc k)"
    using st(1) B by (simp_all add: window_at_def unat_of_nat16)
  have lt: "(of_nat ?l :: u16) < of_nat B" "ucast (of_nat ?l :: u16) = (of_nat ?l :: u32)"
    using less16(1) [of ?l B] short B ucast16_32 [of ?l] by auto
  have st': "winbits st' = mask (Suc m)" "winstart st' - 1 + of_nat (Suc m) = lastblock st'" "lastsize st' < blksize st'"
    using u lt(1) by (simp_all add: st'_def)
  have wb: "winbuf st' + of_nat (m * unat (blksize st')) + ucast (lastsize st') - buf =
      of_nat ((k + m) * B + ?l)"
    using u lt(2) by (simp add: st'_def add_mult_distrib)
  obtain io2 where r: "receive_step N port name buf (Packet sa sp (data_bytes N F B (k + m)) slk) (st, io) =
      (let (r, st, io) = prvTftpAck N (st', io2) in
       if r \<noteq> 0 then (Return 1 None, st, io)
       else if lastsize st < blksize st
       then (Return 0 (Some (winbuf st - buf)), st, closesocket (release io))
       else release_recv (st, io))"
    using window_step [OF N st(1) B _ w'(1), of m port name F slk io] m w'(2) complete
    unfolding stored by (auto simp del: receive_step.simps)
  show ?thesis
    unfolding r using Ack_window [OF N st'(1), of io2] m st'(2,3) wb by (simp add: Let_def del: of_nat_Suc of_nat_mult of_nat_add)
qed

text \<open>After the last block: the window ends with it, but not all of its blocks are there.\<close>

definition ended :: "nat \<Rightarrow> tftp_client_state \<Rightarrow> bool" where
  "ended m st \<longleftrightarrow> winsize st = of_nat (Suc m) \<and> bit (winbits st) m \<and>
     lastblock st - winstart st = of_nat m \<and> lastsize st < blksize st"

lemma last_step_incomplete:
  assumes N: "net_ok N" and B: "B \<le> 1024" and st: "window_at buf sa sp B k st" "early m W B S st"
    and m: "m < W" "W \<le> 16" and S: "i < m" "i \<notin> S" and short: "length (chunk F B (k + m)) < B"
  shows "\<exists>st' io'. receive_step N port name buf (Packet sa sp (data_bytes N F B (k + m)) slk) (st, io) =
    (Continue, st', io') \<and> window_at buf sa sp B k st' \<and> ended m st'"
proof -
  let ?l = "length (chunk F B (k + m))"
  define st' where "st' = stored k m ?l
      (st\<lparr>recvpacket := Some (data_bytes N F B (k + m)), winbuf := buf + of_nat (k * B)\<rparr>)"
  have w: "winsize st = of_nat W" and b: "bit (winbits st) n \<longleftrightarrow> n \<in> S" for n
    using st(2) by (simp_all add: early_def)
  have w': "winsize st \<noteq> 0" "of_nat m < winsize st"
    using less16 [of 0 W] less16 [of m W] m unfolding w by auto
  have "\<not> bit (winbits st') i" "bit (winbits st') m" "winsize st' = of_nat (Suc m)"
    using S m unfolding st'_def last_stored [OF st m short B] by (simp_all add: b bit_simps)
  moreover from this(1) have "winbits st' \<noteq> mask (Suc m)"
    using S(1) m by (auto simp: bit_simps)
  ultimately have "\<not> window_complete st'"
    using window_full [of st' "Suc m"] m by (auto simp del: of_nat_Suc)
  moreover have "ended m (st'\<lparr>recvpacket := None\<rparr>)"
    using m st(1) less16(1) [of ?l B] short B unfolding st'_def last_stored [OF st m short B]
    by (simp add: ended_def window_at_def bit_simps)
  ultimately show ?thesis
    using step_incomplete [OF N B st(1) _ w', of F port name slk io, folded st'_def] m by (auto simp del: receive_step.simps)
qed

lemma late_first:
  assumes N: "net_ok N" and B: "B \<le> 1024" and st: "window_at buf sa sp B k st" "ended m st"
    and m: "j < m" "m < 16"
  shows "\<exists>st' io'. receive_step N port name buf (Packet sa sp (data_bytes N F B (k + j)) slk) (st, io) =
    (Continue, st', io') \<and> window_at buf sa sp B k st' \<and> cut m st'"
proof -
  define st' where "st' = stored k j (length (chunk F B (k + j)))
      (st\<lparr>recvpacket := Some (data_bytes N F B (k + j)), winbuf := buf + of_nat (k * B)\<rparr>)"
  have lt: "\<not> (of_nat m :: u16) < of_nat j" "\<not> (of_nat (Suc m) :: u16) \<le> of_nat m"
    "(of_nat (Suc j) :: u16) \<le> of_nat m" "(of_nat j :: u16) < of_nat (Suc m)"
    "(of_nat (Suc j) :: u16) \<noteq> 0" "(of_nat (Suc m) :: u16) \<noteq> 0"
    using m by (simp_all add: less16 pos16 del: of_nat_Suc)
  have w: "winsize st \<noteq> 0" "of_nat j < winsize st"
    using st(2) lt by (auto simp: ended_def simp del: of_nat_Suc)
  have "bit (winbits st') m" "winsize st' = of_nat (Suc j)"
    using st(2) lt(1,2) by (simp_all add: st'_def stored_def Let_def ended_def bit_or_iff del: of_nat_Suc of_nat_add)
  moreover from this have "\<not> window_complete st'"
    using window_incomplete [of st' m] lt(3) m by simp
  ultimately show ?thesis
    using step_incomplete [OF N B st(1) _ w, of F port name slk io, folded st'_def] m lt(3,5)
    by (auto simp: cut_def simp del: receive_step.simps of_nat_Suc)
qed

lemma late_step:
  assumes N: "net_ok N" and B: "B \<le> 1024" and st: "window_at buf sa sp B k st" "cut m st"
    and m: "j < m" "m < 16"
  shows "\<exists>st' io'. receive_step N port name buf (Packet sa sp (data_bytes N F B (k + j)) slk) (st, io) =
    (Continue, st', io') \<and> window_at buf sa sp B k st' \<and> cut m st'"
proof (cases "winsize st \<le> of_nat j")
  case True
  then have "\<exists>io2. receive_step N port name buf (Packet sa sp (data_bytes N F B (k + j)) slk) (st, io) =
      release_recv (st\<lparr>recvpacket := Some (data_bytes N F B (k + j))\<rparr>, io2)"
    using window_step [OF N st(1) B, of j port name F slk io] m st(2)
    by (auto simp: cut_def data_start_def simp del: receive_step.simps)
  then show ?thesis
    using st by (auto simp: release_recv_def cut_def window_at_def simp del: receive_step.simps)
next
  case False
  define st' where "st' = stored k j (length (chunk F B (k + j)))
      (st\<lparr>recvpacket := Some (data_bytes N F B (k + j)), winbuf := buf + of_nat (k * B)\<rparr>)"
  have lt: "(of_nat (Suc j) :: u16) \<le> of_nat m" "(of_nat (Suc j) :: u16) \<noteq> 0"
    using m by (simp_all add: less16 pos16 del: of_nat_Suc)
  have "cut m st'"
    using st(2) lt by (auto simp: st'_def stored_def Let_def cut_def bit_or_iff simp del: of_nat_Suc)
  moreover from this have "\<not> window_complete st'"
    using window_incomplete [of st' m] m by (simp add: cut_def)
  ultimately show ?thesis
    using step_incomplete [OF N B st(1) _ _ _, of j F port name slk io, folded st'_def] m st(2) False
    by (auto simp: cut_def not_le simp del: receive_step.simps)
qed

lemma count_acked_up: "\<exists>c \<le> 16. count_acked bits s = s + of_nat c \<and> (c = 0 \<longrightarrow> bits AND 1 = 0)"
proof -
  have "\<exists>c \<le> n. count_acked bits s = s + of_nat c \<and> (c = 0 \<longrightarrow> bits AND 1 = 0)" if "unat bits < 2 ^ n" for n
    using that
  proof (induction n arbitrary: bits s)
    case 0
    then have "bits = 0"
      by (simp add: unat_eq_0)
    then show ?case
      by (simp add: count_acked_none)
  next
    case (Suc n)
    have "unat (drop_bit 1 bits) < 2 ^ n"
      using Suc.prems by (simp add: drop_bit_Suc unat_div) 
    then obtain c where "c \<le> n" "count_acked (drop_bit 1 bits) (s + 1) = s + 1 + of_nat c"
      using Suc.IH by blast
    then show ?case
      by (cases "bits AND 1 = 0")
        (subst count_acked.simps; force intro: exI [of _ "Suc c"] simp: algebra_simps)+
  qed
  from this [of 16] show ?thesis
    using unsigned_less [of bits, where ?'a = nat] by simp
qed

lemma waiting_gives_up:
  assumes N: "net_ok N" and st: "window_at buf sa sp B k st" and k: "k < 65519"
  shows "fst (receive_loop N port name buf (replicate 7 Timeout) (st, io)) = Return 1 None"
proof -
  have seven: "replicate 7 Timeout = Timeout # replicate 6 Timeout"
    by (simp add: numeral_eq_Suc)
  have u: "unat (winstart st) = Suc k" "winstart st \<noteq> 0" "winstart st - 1 = of_nat k" "pastrrq st" "retries st \<le> 5"
    using st k unat_of_nat16 [of "Suc k"] by (auto simp: window_at_def)
  obtain c where c: "c \<le> 16" "count_acked (winbits st) (winstart st - 1) = of_nat (k + c)" "c = 0 \<longrightarrow> winbits st AND 1 = 0"
    using count_acked_up [of "winbits st" "winstart st - 1"] u(3) by auto
  show ?thesis
  proof (cases "c = 0")
    case True
    then have "quiet st"
      using c u by (simp add: quiet_def)
    then show ?thesis
      using timeouts_end [of st 7 N port name buf io] u(5) by (simp add: word_le_nat_alt)
  next
    case False
    have "uint (of_nat (k + c) :: u16) = int (k + c)" "uint (winstart st) = int (Suc k)"
      using u(1) k c(1) by (simp_all only: uint_nat) (simp add: unat_of_nat16 del: of_nat_add)
    then have ne: "uint (of_nat (k + c) :: u16) \<noteq> uint (winstart st) - 1"
      using False by simp
    have "winstart st + (of_nat (k + c) - winstart st + 1) = of_nat (Suc (k + c))"
      by simp
    moreover have "unat (of_nat (Suc (k + c)) :: u16) = Suc (k + c)"
      using k c(1) by (simp add: unat_of_nat16 del: of_nat_Suc)
    ultimately have "winstart st + (of_nat (k + c) - winstart st + 1) \<noteq> 0"
      by (metis nat.simps(3) unat_0)
    then obtain st3 io3 where "receive_step N port name buf Timeout (st, io) = (Continue, st3, io3)" "quiet st3" "retries st3 = 0"
      using ne c(2) u(4) by (auto simp: prvTftpAck_def Let_def send_ok [OF N] quiet_def simp del: of_nat_add)
    then show ?thesis
      unfolding seven using timeouts_end [of st3 6 N port name buf io3] by simp
  qed
qed

text \<open>The packets that carry the blocks at some offsets of the window.\<close>

abbreviation (input) blocks :: "netapi \<Rightarrow> u32 \<Rightarrow> u16 \<Rightarrow> u8 list \<Rightarrow> nat \<Rightarrow> nat list \<Rightarrow> recv_result list" where
  "blocks N sa sp F B is \<equiv> map (\<lambda>i. Packet sa sp (data_bytes N F B i) []) is"

lemma early_run:
  assumes "net_ok N" "B \<le> 1024" "m < W" "W \<le> 16" "\<And>j. j < m \<Longrightarrow> length (chunk F B (k + j)) = B"
  shows "window_at buf sa sp B k st \<Longrightarrow> early m W B S st \<Longrightarrow> S \<subseteq> {..<m} \<Longrightarrow> set js \<subseteq> {..<m} \<Longrightarrow>
    \<exists>st' io'. window_at buf sa sp B k st' \<and> early m W B (S \<union> set js) st' \<and>
      (\<forall>rs. receive_loop N port name buf (blocks N sa sp F B (map (\<lambda>j. k + j) js) @ rs) (st, io) =
         receive_loop N port name buf rs (st', io'))"
proof (induction js arbitrary: S st io)
  case (Cons j js)
  have "j < m"
    using Cons.prems(4) by simp
  from early_step [OF assms(1,2) Cons.prems(1,2) this assms(3,4) Cons.prems(3) assms(5) [OF this], of port name "[]" io]
  obtain st1 io1 where s1: "receive_step N port name buf (Packet sa sp (data_bytes N F B (k + j)) []) (st, io) = (Continue, st1, io1)"
    "window_at buf sa sp B k st1" "early m W B (insert j S) st1"
    by blast
  from Cons.IH [OF s1(2,3), of io1] show ?case
    using Cons.prems(3,4) s1(1) by (simp del: receive_step.simps)
qed auto

lemma late_run:
  assumes "net_ok N" "B \<le> 1024" "m < 16"
  shows "window_at buf sa sp B k st \<Longrightarrow> cut m st \<Longrightarrow> set js \<subseteq> {..<m} \<Longrightarrow>
    \<exists>st' io'. window_at buf sa sp B k st' \<and>
      (\<forall>rs. receive_loop N port name buf (blocks N sa sp F B (map (\<lambda>j. k + j) js) @ rs) (st, io) =
         receive_loop N port name buf rs (st', io'))"
proof (induction js arbitrary: st io)
  case (Cons j js)
  have "j < m"
    using Cons.prems(3) by simp
  from late_step [OF assms(1,2) Cons.prems(1,2) this assms(3), of port name F "[]" io]
  obtain st1 io1 where s1: "receive_step N port name buf (Packet sa sp (data_bytes N F B (k + j)) []) (st, io) = (Continue, st1, io1)"
    "window_at buf sa sp B k st1" "cut m st1"
    by blast
  from Cons.IH [OF s1(2,3), of io1] show ?case
    using Cons.prems(3) s1(1) by (simp del: receive_step.simps)
qed auto

text \<open>The last block comes before another one.\<close>

lemma reordered_run:
  assumes N: "net_ok N" and B: "B \<le> 1024" and m: "m < W" "W \<le> 16" and k: "k < 65519"
    and full: "\<And>j. j < m \<Longrightarrow> length (chunk F B (k + j)) = B" and short: "length (chunk F B (k + m)) < B"
    and st: "window_at buf sa sp B k st" "early m W B {} st"
    and js: "set js1 \<subseteq> {..<m}" "set (j # js2) \<subseteq> {..<m}" "j \<notin> set js1"
  shows "fst (receive_loop N port name buf
    (blocks N sa sp F B (map (\<lambda>j. k + j) (js1 @ m # j # js2)) @ replicate 7 Timeout) (st, io)) = Return 1 None"
proof -
  have j: "j < m" "m < 16" "set js2 \<subseteq> {..<m}"
    using js(2) m by auto
  obtain st1 io1 where r1: "window_at buf sa sp B k st1" "early m W B (set js1) st1"
    "\<And>rs. receive_loop N port name buf (blocks N sa sp F B (map (\<lambda>j. k + j) js1) @ rs) (st, io) =
       receive_loop N port name buf rs (st1, io1)"
    using early_run [OF N B m full st _ js(1), of port name io] by auto
  obtain st2 io2 where r2: "receive_step N port name buf (Packet sa sp (data_bytes N F B (k + m)) []) (st1, io1) = (Continue, st2, io2)"
    "window_at buf sa sp B k st2" "ended m st2"
    using last_step_incomplete [OF N B r1(1,2) m j(1) js(3) short] by blast
  obtain st3 io3 where r3: "receive_step N port name buf (Packet sa sp (data_bytes N F B (k + j)) []) (st2, io2) = (Continue, st3, io3)"
    "window_at buf sa sp B k st3" "cut m st3"
    using late_first [OF N B r2(2,3) j(1,2)] by blast
  obtain st4 io4 where r4: "window_at buf sa sp B k st4"
    "\<And>rs. receive_loop N port name buf (blocks N sa sp F B (map (\<lambda>j. k + j) js2) @ rs) (st3, io3) =
       receive_loop N port name buf rs (st4, io4)"
    using late_run [OF N B j(2) r3(2,3) j(3), of port name F io3] by auto
  show ?thesis
    using r1(3) r2(1) r3(1) r4(2) waiting_gives_up [OF N r4(1) k] by (simp del: receive_step.simps)
qed

lemma in_order_early:
  assumes "in_order buf sa sp W B k st" "k mod W = 0" "k = 0 \<or> winbuf st \<noteq> 0" "retries st \<le> 5" "W \<le> 16"
  shows "window_at buf sa sp B k st" "early m W B {} st"
proof -
  have k: "k div W * W = k"
    using assms(2) by (metis add.right_neutral div_mult_mod_eq)
  show "window_at buf sa sp B k st"
    using assms(1,3,4) k by (auto simp: in_order_def window_at_def)
  have "lastblock st - winstart st = - 1"
    using assms(1) k by (simp add: in_order_def)
  moreover have "(of_nat W :: u16) \<le> - 1"
    by (rule word_order.extremum)
  ultimately show "early m W B {} st"
    using assms(1,2) by (simp add: in_order_def early_def)
qed

text \<open>
  C13.  The order of the last window decides whether a transfer ends.  After any number of whole
  windows in order, let every block of the last window arrive exactly once, in some order, and
  nothing more.  When the last block of the file comes last, \<^verbatim>\<open>prvTftpReceive\<close> returns success
  with the size of the file, however the blocks before it are ordered.  When any other block comes
  last, the window has been cut at a block that arrived behind the last one although a later one
  has been seen; it never counts as complete, and the client returns an error after its timeouts.
\<close>

theorem tftp_last_window_order:
  assumes "net_ok N" and "in_order buf sa sp W B k st" and "k mod W = 0" and "k = 0 \<or> winbuf st \<noteq> 0"
    and "retries st \<le> 5" and "1 \<le> W" and "W \<le> 16" and "8 \<le> B" and "B \<le> 1024"
    and "k \<le> length F div B" and "length F div B < k + W" and "length F div B < 65519"
    and "distinct ps" and "set ps = {k..length F div B}"
  shows "fst (receive_loop N port name buf
      (map (\<lambda>i. Packet sa sp (data_bytes N F B i) []) ps @ replicate 7 Timeout) (st, io)) =
    (if last ps = length F div B then Return 0 (Some (of_nat (length F))) else Return 1 None)"
proof -
  define L m where "L = length F div B" and "m = L - k"
  have m: "m < W" "L = k + m" "k < 65519"
    using assms(6,10,11,12) by (auto simp: m_def L_def)
  have full: "length (chunk F B (k + j)) = B" if "j < m" for j
    using length_chunk(1) [of B "k + j" F] that assms(8) m(2) by (simp add: L_def)
  have short: "length (chunk F B (k + m)) < B" "(k + m) * B + length (chunk F B (k + m)) = length F"
    using length_chunk(2) [of B F] assms(8) unfolding m(2) [symmetric] L_def by simp_all
  note st = in_order_early(1) [OF assms(2-5,7)] in_order_early(2) [OF assms(2-5,7), of m]
  obtain a b where ps: "ps = a @ L # b" "L \<notin> set a" "L \<notin> set b"
    using split_list [of L ps] assms(10,13,14) by (force simp: L_def)
  let ?off = "map (\<lambda>i. i - k)"
  have range: "k \<le> i \<and> i < L" if "i \<in> set a \<union> set b" for i
  proof -
    have "i \<in> {k..L}" "i \<noteq> L"
      using that ps unfolding L_def assms(14) [symmetric] by auto
    then show ?thesis
      by simp
  qed
  then have offs: "a = map (\<lambda>j. k + j) (?off a)" "b = map (\<lambda>j. k + j) (?off b)"
    by (auto simp: o_def intro!: map_idI [symmetric])
  have sub: "set (?off a) \<subseteq> {..<m}" "set (?off b) \<subseteq> {..<m}"
    using range by (fastforce simp: m_def)+
  show ?thesis
  proof (cases b)
    case Nil
    have "{..<m} \<subseteq> set (?off a)"
    proof
      fix j
      assume "j \<in> {..<m}"
      then have "k + j \<in> set ps" "k + j \<noteq> L"
        unfolding assms(14) L_def [symmetric] using m(2) by simp_all
      then have "k + j \<in> set a"
        using ps(1) Nil by simp
      then show "j \<in> set (?off a)"
        by (force simp: image_iff)
    qed
    then have "set (?off a) = {..<m}"
      using sub(1) by blast
    then obtain st1 io1 where r1: "window_at buf sa sp B k st1" "early m W B {..<m} st1"
      "\<And>rs. receive_loop N port name buf (blocks N sa sp F B a @ rs) (st, io) = receive_loop N port name buf rs (st1, io1)"
      using early_run [OF assms(1,9) m(1) assms(7) full st _ sub(1), of port name io] unfolding offs(1) [symmetric] by auto
    obtain s' where "receive_step N port name buf (Packet sa sp (data_bytes N F B L) []) (st1, io1) = (Return 0 (Some (of_nat (length F))), s')"
      using last_step_complete [OF assms(1,9) r1(1,2) m(1) assms(7) short(1), of port name "[]" io1] short(2) m(2) by auto
    then show ?thesis
      using r1(3) ps(1) Nil by (simp add: L_def [symmetric] del: receive_step.simps split: prod.splits)
  next
    case (Cons x c)
    then have "last ps \<noteq> L"
      using ps by (auto simp: last_append)
    moreover have "x - k \<notin> set (?off a)"
      using assms(13) ps(1) Cons range by (fastforce simp: image_iff dest!: eq_diff_iff [THEN iffD1, rotated 2])
    moreover have "ps = map (\<lambda>j. k + j) (?off a @ m # (x - k) # ?off c)"
      using offs ps(1) Cons m(2) by simp
    ultimately show ?thesis
      using reordered_run [OF assms(1,9) m(1) assms(7) m(3) full short(1) st sub(1), of "x - k" "?off c" port name io] sub(2) Cons
      by (simp add: L_def)
  qed
qed

theorem tftp_last_window_order_witness:
  "fst (receive_loop demo_net 69 ''kernel'' 0x1000
     (map (\<lambda>i. Packet 9 99 (data_bytes demo_net (replicate 20 7) 8 i) []) [1, 0, 2] @ replicate 7 Timeout)
     (zero_state\<lparr>dst_addr := 9, dst_port := 99, havetid := True, pastrrq := True, winsize := 4,
        blksize := 8, winstart := 1\<rparr>, demo_io)) = Return 0 (Some 20) \<and>
   fst (receive_loop demo_net 69 ''kernel'' 0x1000
     (map (\<lambda>i. Packet 9 99 (data_bytes demo_net (replicate 20 7) 8 i) []) [0, 2, 1] @ replicate 7 Timeout)
     (zero_state\<lparr>dst_addr := 9, dst_port := 99, havetid := True, pastrrq := True, winsize := 4,
        blksize := 8, winstart := 1\<rparr>, demo_io)) = Return 1 None"
proof -
  let ?st = "zero_state\<lparr>dst_addr := 9, dst_port := 99, havetid := True, pastrrq := True, winsize := 4,
        blksize := 8, winstart := 1\<rparr>"
  have "in_order 0x1000 9 99 4 8 0 ?st" "retries ?st \<le> 5"
    by (simp_all add: in_order_def zero_state_def)
  note st = this
  have "set [1, 0, 2] = {0..length (replicate 20 (7 :: u8)) div 8}" "set [0, 2, 1] = {0..length (replicate 20 (7 :: u8)) div 8}"
    by auto
  then show ?thesis
    using tftp_last_window_order [of demo_net "0x1000" 9 99 4 8 0 ?st "replicate 20 7" "[1, 0, 2]" 69 "''kernel''" demo_io]
      tftp_last_window_order [of demo_net "0x1000" 9 99 4 8 0 ?st "replicate 20 7" "[0, 2, 1]" 69 "''kernel''" demo_io]
      demo_net_ok st by simp
qed

end
