(* ===== verification/ElfLoader.thy ===== *)
theory ElfLoader
  imports Tftp
begin

section \<open>The ELF loader of the network boot loader (demo/main\_netboot.c, demo/netboot.S)\<close>

text \<open>
  \<^verbatim>\<open>prvGetLoadCommands\<close> checks the header of a downloaded ELF file and turns its loadable segments
  into load commands, \<^verbatim>\<open>prvLoadAndBoot\<close> does so for every file, and the trampoline of
  \<^verbatim>\<open>demo/netboot.S\<close> carries the commands out and jumps to the entry point.

  Memory is a function from addresses to bytes; the ELF structures are read from it with
  little-endian loads at the offsets of the 32-bit ELF format, as the casts of the source do on
  this target.  The command array grows downwards from \<^verbatim>\<open>STAGING_ADDR\<close>; its model is the list of
  commands from the lowest address up, so that \<^verbatim>\<open>--*commands\<close> with the stores after it is a
  cons.  Messages are not modelled.
\<close>

type_synonym memory = "addr \<Rightarrow> u8"

definition ld16 :: "memory \<Rightarrow> addr \<Rightarrow> u16" where
  "ld16 m a = ucast (m a) OR push_bit 8 (ucast (m (a + 1)))"

definition ld32 :: "memory \<Rightarrow> addr \<Rightarrow> u32" where
  "ld32 m a = ucast (m a) OR push_bit 8 (ucast (m (a + 1))) OR push_bit 16 (ucast (m (a + 2))) OR
     push_bit 24 (ucast (m (a + 3)))"

definition st32 :: "memory \<Rightarrow> addr \<Rightarrow> u32 \<Rightarrow> memory" where
  "st32 m a v = m(a := ucast v, a + 1 := ucast (drop_bit 8 v), a + 2 := ucast (drop_bit 16 v),
     a + 3 := ucast (drop_bit 24 v))"

abbreviation (input) STAGING_ADDR :: addr where "STAGING_ADDR \<equiv> 0xE0000000"
abbreviation (input) PT_LOAD :: u32 where "PT_LOAD \<equiv> 1"
abbreviation (input) ET_EXEC :: u16 where "ET_EXEC \<equiv> 2"
abbreviation (input) ET_DYN :: u16 where "ET_DYN \<equiv> 3"
abbreviation (input) EM_RISCV :: u16 where "EM_RISCV \<equiv> 243"

record load_command =
  src :: addr
  dst :: addr
  copysz :: u32
  zerosz :: u32

record Elf_Phdr =
  p_type :: u32
  p_offset :: u32
  p_vaddr :: u32
  p_paddr :: u32
  p_filesz :: u32
  p_memsz :: u32

text \<open>\<^verbatim>\<open>phdrs[i]\<close>: the program headers are 32 bytes each.\<close>

definition phdr_at :: "memory \<Rightarrow> addr \<Rightarrow> nat \<Rightarrow> Elf_Phdr" where
  "phdr_at m phdrs i =
     (let a = phdrs + 32 * of_nat i
      in \<lparr>p_type = ld32 m a, p_offset = ld32 m (a + 4), p_vaddr = ld32 m (a + 8), p_paddr = ld32 m (a + 12),
          p_filesz = ld32 m (a + 16), p_memsz = ld32 m (a + 20)\<rparr>)"

text \<open>The header checks, in the order of the source: \<open>False\<close> is the return with 1.\<close>

definition elf_header_ok :: "memory \<Rightarrow> addr \<Rightarrow> bool" where
  "elf_header_ok m buf \<longleftrightarrow>
     \<not> (m buf \<noteq> 0x7f \<or> m (buf + 1) \<noteq> of_char (CHR ''E'') \<or> m (buf + 2) \<noteq> of_char (CHR ''L'') \<or>
        m (buf + 2) \<noteq> of_char (CHR ''L'')) \<and>
     m (buf + 4) = 1 \<and> m (buf + 5) = 1 \<and> m (buf + 6) = 1 \<and>
     \<not> (ld16 m (buf + 16) \<noteq> ET_EXEC \<and> ld16 m (buf + 16) \<noteq> ET_DYN) \<and>
     ld16 m (buf + 18) = EM_RISCV \<and> ld16 m (buf + 42) = 32"

definition seg_out_of_bounds :: "Elf_Phdr \<Rightarrow> bool" where
  "seg_out_of_bounds ph \<longleftrightarrow> p_paddr ph < 0x80000000 \<or> p_paddr ph + p_memsz ph > 0xE0000000"

definition seg_command :: "addr \<Rightarrow> Elf_Phdr \<Rightarrow> load_command" where
  "seg_command buf ph = \<lparr>src = buf + p_offset ph, dst = p_paddr ph, copysz = p_filesz ph,
     zerosz = p_memsz ph - p_filesz ph\<rparr>"

definition seg_entry :: "u32 \<Rightarrow> Elf_Phdr \<Rightarrow> u32 \<Rightarrow> u32" where
  "seg_entry e_entry ph entry =
     (if e_entry \<ge> p_vaddr ph \<and> e_entry < p_vaddr ph + p_memsz ph
      then p_paddr ph + (e_entry - p_vaddr ph) else entry)"

text \<open>The loop over the program headers, from the last to the first.\<close>

fun seg_loop ::
  "nat \<Rightarrow> memory \<Rightarrow> addr \<Rightarrow> addr \<Rightarrow> u32 \<Rightarrow> load_command list \<Rightarrow> u32 \<Rightarrow> bool \<times> load_command list \<times> u32" where
  "seg_loop 0 m buf phdrs e_entry cmds entry = (True, cmds, entry)"
| "seg_loop (Suc i) m buf phdrs e_entry cmds entry =
     (let ph = phdr_at m phdrs i in
      if p_type ph \<noteq> PT_LOAD then seg_loop i m buf phdrs e_entry cmds entry
      else if seg_out_of_bounds ph then (False, cmds, entry)
      else seg_loop i m buf phdrs e_entry (seg_command buf ph # cmds) (seg_entry e_entry ph entry))"

text \<open>
  The result is the return value, the command list and the value stored through \<^verbatim>\<open>pentry\<close>, if the
  function stores one.
\<close>

definition prvGetLoadCommands ::
  "memory \<Rightarrow> load_command list \<Rightarrow> addr \<Rightarrow> bool \<Rightarrow> int \<times> load_command list \<times> u32 option" where
  "prvGetLoadCommands m cmds buf pentry =
     (if \<not> elf_header_ok m buf then (1, cmds, None)
      else
        let e_entry = ld32 m (buf + 24);
            phdrs = buf + ld32 m (buf + 28);
            (ok, cmds, entry) = seg_loop (unat (ld16 m (buf + 44))) m buf phdrs e_entry cmds 0 in
        if \<not> ok then (1, cmds, None)
        else if pentry then if entry = 0 then (1, cmds, None) else (0, cmds, Some entry)
        else (0, cmds, None))"

text \<open>
  The loop over the files, from the last to the first; only the first file gives the entry point.
\<close>

fun file_loop :: "nat \<Rightarrow> memory \<Rightarrow> addr list \<Rightarrow> load_command list \<Rightarrow> u32 option \<Rightarrow> (load_command list \<times> u32 option) option" where
  "file_loop 0 m bufs cmds entry = Some (cmds, entry)"
| "file_loop (Suc i) m bufs cmds entry =
     (case prvGetLoadCommands m cmds (bufs ! i) (i = 0) of
        (r, cmds, e) \<Rightarrow> if r \<noteq> 0 then None
                       else file_loop i m bufs cmds (if i = 0 then e else entry))"

text \<open>
  What \<^verbatim>\<open>prvLoadAndBoot\<close> comes to: a return to the shell, or the jump into the copy of the
  trampoline, which lies right below the command array, with its arguments.
\<close>

datatype boot = Refused | Jump "load_command list" u32 bool addr

definition null_command :: load_command where
  "null_command = \<lparr>src = 0, dst = 0, copysz = 0, zerosz = 0\<rparr>"

definition prvLoadAndBoot :: "u32 \<Rightarrow> memory \<Rightarrow> addr list \<Rightarrow> bool \<Rightarrow> boot" where
  "prvLoadAndBoot trampoline_size m bufs hlt =
     (case file_loop (length bufs) m bufs [null_command] None of
        None \<Rightarrow> Refused
      | Some (cmds, e) \<Rightarrow>
          Jump cmds (the e) hlt (STAGING_ADDR - 16 * of_nat (length cmds) - trampoline_size))"

subsection \<open>The trampoline\<close>

text \<open>
  The loops of \<^verbatim>\<open>netboot.S\<close> for one command, with the registers as arguments: \<^verbatim>\<open>t0\<close> source, \<^verbatim>\<open>t1\<close>
  destination, \<^verbatim>\<open>t2\<close> bytes left to copy, \<^verbatim>\<open>t3\<close> bytes left to zero.  \<open>copy_align\<close> is the first loop
  at label 2, which stops at an aligned pair of addresses (going on at 3) or at the end;
  \<open>copy_blocks\<close> is loop 3 and \<open>copy_bytes\<close> loop 4; the zeroing loops have the same shape.
\<close>

function copy_bytes :: "u32 \<Rightarrow> addr \<Rightarrow> addr \<Rightarrow> memory \<Rightarrow> addr \<times> memory" where
  "copy_bytes t2 t0 t1 m =
     (if t2 = 0 then (t1, m) else copy_bytes (t2 - 1) (t0 + 1) (t1 + 1) (m(t1 := m t0)))"
  by auto

termination
  by (relation "measure (\<lambda>(t2, _). unat t2)") (auto simp: unat_minus_one unat_gt_0)

function copy_blocks :: "u32 \<Rightarrow> addr \<Rightarrow> addr \<Rightarrow> memory \<Rightarrow> addr \<times> memory" where
  "copy_blocks t2 t0 t1 m =
     (if t2 \<le> 3 then copy_bytes t2 t0 t1 m
      else copy_blocks (t2 - 4) (t0 + 4) (t1 + 4) (st32 m t1 (ld32 m t0)))"
  by auto

termination
proof (relation "measure (\<lambda>(t2, _). unat t2)")
  fix t2 t0 t1 :: u32 and m :: memory
  assume "\<not> t2 \<le> 3"
  then have "4 \<le> t2"
    by (simp add: word_le_nat_alt)
  then have "unat (t2 - 4) = unat t2 - 4" "4 \<le> unat t2"
    by (simp_all add: of_nat_unat_sub word_le_nat_alt)
  then show "((t2 - 4, t0 + 4, t1 + 4, st32 m t1 (ld32 m t0)), t2, t0, t1, m) \<in> measure (\<lambda>(t2, _). unat t2)"
    by simp
qed simp

function copy_align :: "u32 \<Rightarrow> addr \<Rightarrow> addr \<Rightarrow> memory \<Rightarrow> addr \<times> memory" where
  "copy_align t2 t0 t1 m =
     (if t2 = 0 then (t1, m)
      else if (t0 OR t1) AND 3 = 0 then copy_blocks t2 t0 t1 m
      else copy_align (t2 - 1) (t0 + 1) (t1 + 1) (m(t1 := m t0)))"
  by auto

termination
  by (relation "measure (\<lambda>(t2, _). unat t2)") (auto simp: unat_minus_one unat_gt_0)

function zero_bytes :: "u32 \<Rightarrow> addr \<Rightarrow> memory \<Rightarrow> memory" where
  "zero_bytes t3 t1 m = (if t3 = 0 then m else zero_bytes (t3 - 1) (t1 + 1) (m(t1 := 0)))"
  by auto

termination
  by (relation "measure (\<lambda>(t3, _). unat t3)") (auto simp: unat_minus_one unat_gt_0)

function zero_blocks :: "u32 \<Rightarrow> addr \<Rightarrow> memory \<Rightarrow> memory" where
  "zero_blocks t3 t1 m =
     (if t3 \<le> 3 then zero_bytes t3 t1 m else zero_blocks (t3 - 4) (t1 + 4) (st32 m t1 0))"
  by auto

termination
proof (relation "measure (\<lambda>(t3, _). unat t3)")
  fix t3 t1 :: u32 and m :: memory
  assume "\<not> t3 \<le> 3"
  then have "4 \<le> t3"
    by (simp add: word_le_nat_alt)
  then have "unat (t3 - 4) = unat t3 - 4" "4 \<le> unat t3"
    by (simp_all add: of_nat_unat_sub word_le_nat_alt)
  then show "((t3 - 4, t1 + 4, st32 m t1 0), t3, t1, m) \<in> measure (\<lambda>(t3, _). unat t3)"
    by simp
qed simp

function zero_align :: "u32 \<Rightarrow> addr \<Rightarrow> memory \<Rightarrow> memory" where
  "zero_align t3 t1 m =
     (if t3 = 0 then m
      else if t1 AND 3 = 0 then zero_blocks t3 t1 m
      else zero_align (t3 - 1) (t1 + 1) (m(t1 := 0)))"
  by auto

termination
  by (relation "measure (\<lambda>(t3, _). unat t3)") (auto simp: unat_minus_one unat_gt_0)

lemmas [simp del] = copy_bytes.simps copy_blocks.simps copy_align.simps zero_bytes.simps zero_blocks.simps
  zero_align.simps

definition run_command :: "load_command \<Rightarrow> memory \<Rightarrow> memory" where
  "run_command c m =
     (let (t1, m) = copy_align (copysz c) (src c) (dst c) m in zero_align (zerosz c) t1 m)"

text \<open>
  The outer loop over the command list, which ends at the command with the null source.  The
  commands are those of the list, so the model is right for segments that do not overwrite the
  command array and the trampoline (see \<open>prvLoadAndBoot\<close> for where they are).
\<close>

fun run_commands :: "load_command list \<Rightarrow> memory \<Rightarrow> memory" where
  "run_commands [] m = m"
| "run_commands (c # cs) m = (if src c = 0 then m else run_commands cs (run_command c m))"

end
