(* ===== verification/ElfLoader_Props.thy ===== *)
theory ElfLoader_Props
  imports ElfLoader
begin

section \<open>Properties of the ELF loader\<close>

text \<open>
  What the load commands of a file are, which files are accepted, and that the block-wise copying
  and zeroing loops of the trampoline do what a byte-wise copy does and put every segment in
  place.
\<close>

subsection \<open>Load commands\<close>

definition phdrs_of :: "memory \<Rightarrow> addr \<Rightarrow> Elf_Phdr list" where
  "phdrs_of m buf = map (phdr_at m (buf + ld32 m (buf + 28))) [0..<unat (ld16 m (buf + 44))]"

definition loads :: "Elf_Phdr list \<Rightarrow> Elf_Phdr list" where
  "loads phs = filter (\<lambda>ph. p_type ph = PT_LOAD) phs"

text \<open>The entry point: in the first loadable segment that contains the virtual entry address.\<close>

definition entry_of :: "u32 \<Rightarrow> Elf_Phdr list \<Rightarrow> u32" where
  "entry_of e phs = foldr (seg_entry e) phs 0"

lemma loads_snoc: "loads (phs @ [ph]) = loads phs @ (if p_type ph = PT_LOAD then [ph] else [])"
  by (simp add: loads_def)

lemma seg_loop_ok:
  assumes "\<forall>ph \<in> set (loads (map (phdr_at m phdrs) [0..<n])). \<not> seg_out_of_bounds ph"
  shows "seg_loop n m buf phdrs e cmds ent =
    (True, map (seg_command buf) (loads (map (phdr_at m phdrs) [0..<n])) @ cmds,
     foldr (seg_entry e) (loads (map (phdr_at m phdrs) [0..<n])) ent)"
  using assms
proof (induction n arbitrary: cmds ent)
  case (Suc n)
  then show ?case
    by (cases "p_type (phdr_at m phdrs n) = PT_LOAD") (simp_all add: loads_snoc Let_def)
qed (simp add: loads_def)

lemma seg_loop_bad:
  assumes "\<not> (\<forall>ph \<in> set (loads (map (phdr_at m phdrs) [0..<n])). \<not> seg_out_of_bounds ph)"
  shows "\<not> fst (seg_loop n m buf phdrs e cmds ent)"
  using assms
proof (induction n arbitrary: cmds ent)
  case (Suc n)
  then show ?case
    by (cases "p_type (phdr_at m phdrs n) = PT_LOAD") (auto simp: loads_snoc Let_def)
qed (simp add: loads_def)

lemma GetLoadCommands_eq:
  "let phs = loads (phdrs_of m buf); e = entry_of (ld32 m (buf + 24)) phs in
   if elf_header_ok m buf \<and> (\<forall>ph \<in> set phs. \<not> seg_out_of_bounds ph) \<and> (pe \<longrightarrow> e \<noteq> 0)
   then prvGetLoadCommands m cmds buf pe =
     (0, map (seg_command buf) phs @ cmds, if pe then Some e else None)
   else fst (prvGetLoadCommands m cmds buf pe) = 1 \<and> snd (snd (prvGetLoadCommands m cmds buf pe)) = None"
proof (cases "\<forall>ph \<in> set (loads (phdrs_of m buf)). \<not> seg_out_of_bounds ph")
  case True
  then show ?thesis
    using seg_loop_ok [OF True [unfolded phdrs_of_def]]
    by (simp add: prvGetLoadCommands_def Let_def entry_of_def phdrs_of_def)
next
  case False
  then show ?thesis
    using seg_loop_bad [OF False [unfolded phdrs_of_def], of buf "ld32 m (buf + 24)" cmds 0]
    by (auto simp: prvGetLoadCommands_def Let_def split: prod.splits)
qed

subsection \<open>Copying and zeroing\<close>

definition memcpy :: "u32 \<Rightarrow> addr \<Rightarrow> addr \<Rightarrow> memory \<Rightarrow> memory" where
  "memcpy n s d m = (\<lambda>x. if x - d < n then m (s + (x - d)) else m x)"

definition memzero :: "u32 \<Rightarrow> addr \<Rightarrow> memory \<Rightarrow> memory" where
  "memzero n d m = (\<lambda>x. if x - d < n then 0 else m x)"

text \<open>No byte of the source lies in the destination.\<close>

definition disjoint_src :: "u32 \<Rightarrow> addr \<Rightarrow> addr \<Rightarrow> bool" where
  "disjoint_src n s d \<longleftrightarrow> (\<forall>i < n. \<not> s + i - d < n)"

lemma sub_less_sub: "k \<le> n \<Longrightarrow> e - k < n - k \<longleftrightarrow> k \<le> e \<and> e < (n :: u32)"
  using unsigned_less [of e, where ?'a = nat] unsigned_less [of n, where ?'a = nat]
  by (simp add: word_less_nat_alt word_le_nat_alt unat_sub_if_size word_size) arith

lemma memcpy_split:
  assumes "k \<le> n" "disjoint_src n s d"
  shows "memcpy (n - k) (s + k) (d + k) (memcpy k s d m) = memcpy n s d m"
proof
  fix x
  define e where "e = x - d"
  have e: "x - (d + k) = e - k" "s + k + (e - k) = s + e"
    by (simp_all add: e_def)
  have "memcpy k s d m (s + e) = m (s + e)" if "e < n"
    using assms that by (auto simp: disjoint_src_def memcpy_def dest: order_less_le_trans)
  then show "memcpy (n - k) (s + k) (d + k) (memcpy k s d m) x = memcpy n s d m x"
    using assms(1) sub_less_sub [OF assms(1), of e]
    by (auto simp: memcpy_def e simp flip: e_def dest: order_less_le_trans)
qed

lemma memzero_split:
  assumes "k \<le> n"
  shows "memzero (n - k) (d + k) (memzero k d m) = memzero n d m"
proof
  fix x
  have eq: "x - (d + k) = x - d - k"
    by (rule diff_diff_eq [symmetric])
  show "memzero (n - k) (d + k) (memzero k d m) x = memzero n d m x"
    unfolding memzero_def eq sub_less_sub [OF assms] using assms by (auto dest: order_less_le_trans)
qed

lemma disjoint_src_step:
  assumes "k \<le> n" "disjoint_src n s d"
  shows "disjoint_src (n - k) (s + k) (d + k)"
  unfolding disjoint_src_def
proof (intro allI impI notI)
  fix i
  assume i: "i < n - k" "s + k + i - (d + k) < n - k"
  have le: "n - k \<le> n"
    using assms(1) by (simp add: word_le_nat_alt of_nat_unat_sub)
  have "s + k + i - (d + k) = s + i - d"
    by simp
  then have "s + i - d < n" "i < n"
    using i le by (metis order_less_le_trans)+
  then show False
    using assms(2) by (auto simp: disjoint_src_def)
qed

lemma memcpy_0: "memcpy 0 s d m = m"
  by (simp add: memcpy_def)

lemma memcpy_1: "memcpy 1 s d m = m(d := m s)"
proof
  fix x
  have "x - d < 1 \<longleftrightarrow> x = d"
    by (auto simp: word_less_nat_alt unat_eq_0)
  then show "memcpy 1 s d m x = (m(d := m s)) x"
    by (auto simp: memcpy_def)
qed

lemma ld32_bytes:
  "ucast (ld32 m a) = m a" "ucast (drop_bit 8 (ld32 m a)) = m (a + 1)"
  "ucast (drop_bit 16 (ld32 m a)) = m (a + 2)" "ucast (drop_bit 24 (ld32 m a)) = m (a + 3)"
  unfolding ld32_def by (rule bit_word_eqI; auto simp: bit_simps dest: bit_imp_le_length)+

lemma word_less_4: "(e :: u32) < 4 \<longleftrightarrow> e = 0 \<or> e = 1 \<or> e = 2 \<or> e = 3"
  by (auto simp: word_less_nat_alt word_eq_iff_unsigned [where ?'a = nat])

lemma in_word: "x - d < (4 :: u32) \<longleftrightarrow> x = d \<or> x = d + 1 \<or> x = d + 2 \<or> x = d + 3"
  unfolding word_less_4 by (auto simp: algebra_simps)

lemma memcpy_4: "memcpy 4 s d m = st32 m d (ld32 m s)"
proof
  fix x
  show "memcpy 4 s d m x = st32 m d (ld32 m s) x"
    unfolding memcpy_def in_word st32_def ld32_bytes by auto
qed

lemma memzero_1: "memzero 1 d m = m(d := 0)"
proof
  fix x
  have "x - d < 1 \<longleftrightarrow> x = d"
    by (auto simp: word_less_nat_alt unat_eq_0)
  then show "memzero 1 d m x = (m(d := 0)) x"
    by (auto simp: memzero_def)
qed

lemma memzero_4: "memzero 4 d m = st32 m d 0"
proof
  fix x
  show "memzero 4 d m x = st32 m d 0 x"
    unfolding memzero_def in_word st32_def by auto
qed

lemma memzero_0: "memzero 0 d m = m"
  by (simp add: memzero_def)

lemma one_le_word: "n \<noteq> 0 \<Longrightarrow> 1 \<le> (n :: u32)"
  by (simp add: word_le_nat_alt unat_gt_0 Suc_leI)

lemma four_le_word: "\<not> n \<le> 3 \<Longrightarrow> 4 \<le> (n :: u32)"
  by (simp add: word_le_nat_alt)

lemma copy_bytes_memcpy: "disjoint_src n s d \<Longrightarrow> copy_bytes n s d m = (d + n, memcpy n s d m)"
proof (induction n s d m rule: copy_bytes.induct)
  case (1 n s d m)
  show ?case
  proof (cases "n = 0")
    case False
    then show ?thesis
      using 1 disjoint_src_step [OF one_le_word 1(2)] memcpy_split [OF one_le_word 1(2)]
      by (subst copy_bytes.simps) (simp add: memcpy_1 fun_upd_def)
  qed (simp add: copy_bytes.simps memcpy_0)
qed

lemma copy_blocks_memcpy: "disjoint_src n s d \<Longrightarrow> copy_blocks n s d m = (d + n, memcpy n s d m)"
proof (induction n s d m rule: copy_blocks.induct)
  case (1 n s d m)
  show ?case
  proof (cases "n \<le> 3")
    case True
    then show ?thesis
      using copy_bytes_memcpy [OF 1(2)] by (subst copy_blocks.simps) simp
  next
    case False
    then show ?thesis
      using 1 disjoint_src_step [OF four_le_word 1(2)] memcpy_split [OF four_le_word 1(2)]
      by (subst copy_blocks.simps) (simp add: memcpy_4)
  qed
qed

lemma copy_align_memcpy: "disjoint_src n s d \<Longrightarrow> copy_align n s d m = (d + n, memcpy n s d m)"
proof (induction n s d m rule: copy_align.induct)
  case (1 n s d m)
  consider (zero) "n = 0" | (blocks) "n \<noteq> 0" "(s OR d) AND 3 = 0" | (byte) "n \<noteq> 0" "(s OR d) AND 3 \<noteq> 0"
    by blast
  then show ?case
  proof cases
    case zero
    then show ?thesis
      by (simp add: copy_align.simps memcpy_0)
  next
    case blocks
    then show ?thesis
      using copy_blocks_memcpy [OF 1(2)] by (subst copy_align.simps) simp
  next
    case byte
    then show ?thesis
      using 1 disjoint_src_step [OF one_le_word 1(2)] memcpy_split [OF one_le_word 1(2)]
      by (subst copy_align.simps) (simp add: memcpy_1 fun_upd_def)
  qed
qed

lemma zero_bytes_memzero: "zero_bytes n d m = memzero n d m"
proof (induction n d m rule: zero_bytes.induct)
  case (1 n d m)
  then show ?case
    using memzero_split [OF one_le_word, of n d m]
    by (cases "n = 0") (simp_all add: zero_bytes.simps [of n] zero_bytes.simps [of 0] memzero_0 memzero_1 fun_upd_def)
qed

lemma zero_blocks_memzero: "zero_blocks n d m = memzero n d m"
proof (induction n d m rule: zero_blocks.induct)
  case (1 n d m)
  then show ?case
    using memzero_split [OF four_le_word, of n d m]
    by (cases "n \<le> 3") (simp_all add: zero_blocks.simps [of n] zero_bytes_memzero memzero_4)
qed

lemma zero_align_memzero: "zero_align n d m = memzero n d m"
proof (induction n d m rule: zero_align.induct)
  case (1 n d m)
  then show ?case
    using memzero_split [OF one_le_word, of n d m]
    by (cases "n = 0"; cases "d AND 3 = 0")
       (simp_all add: zero_align.simps [of n] zero_align.simps [of 0] zero_blocks_memzero memzero_0 memzero_1
          fun_upd_def)
qed

lemma run_command_spec:
  "disjoint_src (copysz c) (src c) (dst c) \<Longrightarrow>
   run_command c m = memzero (zerosz c) (dst c + copysz c) (memcpy (copysz c) (src c) (dst c) m)"
  by (simp add: run_command_def copy_align_memcpy zero_align_memzero)

subsection \<open>Placing all segments\<close>

text \<open>
  A list of commands is well placed when no command reads a byte that a command writes, and no
  two commands write the same byte.
\<close>

definition writes :: "load_command \<Rightarrow> addr set" where
  "writes c = {x. x - dst c < copysz c \<or> x - (dst c + copysz c) < zerosz c}"

definition reads :: "load_command \<Rightarrow> addr set" where
  "reads c = {src c + i |i. i < copysz c}"

definition well_placed :: "load_command list \<Rightarrow> bool" where
  "well_placed cs \<longleftrightarrow> (\<forall>c \<in> set cs. \<forall>c' \<in> set cs. reads c \<inter> writes c' = {}) \<and>
     sorted_wrt (\<lambda>c c'. writes c \<inter> writes c' = {}) cs"

definition loaded :: "load_command \<Rightarrow> memory \<Rightarrow> memory \<Rightarrow> bool" where
  "loaded c m m' \<longleftrightarrow> (\<forall>i < copysz c. m' (dst c + i) = m (src c + i)) \<and>
     (\<forall>i < zerosz c. m' (dst c + copysz c + i) = 0)"

lemma run_command_frame:
  assumes "disjoint_src (copysz c) (src c) (dst c)" "x \<notin> writes c"
  shows "run_command c m x = m x"
  using assms by (simp add: run_command_spec memcpy_def memzero_def writes_def)

lemma disjoint_src_sets: "reads c \<inter> writes c = {} \<Longrightarrow> disjoint_src (copysz c) (src c) (dst c)"
  by (auto simp: disjoint_src_def reads_def writes_def)

text \<open>The two parts of a segment together fit into the address space.\<close>

definition seg_fits :: "load_command \<Rightarrow> bool" where
  "seg_fits c \<longleftrightarrow> unat (copysz c) + unat (zerosz c) < 2 ^ 32"

lemma zero_not_copied:
  assumes "seg_fits c" "i < copysz c"
  shows "\<not> dst c + i - (dst c + copysz c) < zerosz c"
proof -
  have eq: "dst c + i - (dst c + copysz c) = i - copysz c"
    by simp
  have "unat (i - copysz c) = unat i + 2 ^ 32 - unat (copysz c)"
    using assms(2) by (simp add: word_less_nat_alt unat_sub_if_size word_size)
  then show ?thesis
    using assms(1) unfolding eq seg_fits_def word_less_nat_alt by linarith
qed

lemma run_command_loads:
  assumes "reads c \<inter> writes c = {}" "seg_fits c"
  shows "loaded c m (run_command c m)"
proof -
  show ?thesis
    using zero_not_copied [OF assms(2)]
    by (auto simp: loaded_def run_command_spec [OF disjoint_src_sets [OF assms(1)]] memzero_def memcpy_def)
qed

lemma run_commands_frame:
  assumes "well_placed cs" "\<forall>c \<in> set cs. x \<notin> writes c"
  shows "run_commands cs m x = m x"
  using assms
proof (induction cs arbitrary: m)
  case (Cons c cs)
  have "well_placed cs" "reads c \<inter> writes c = {}"
    using Cons.prems(1) by (auto simp: well_placed_def)
  then show ?case
    using Cons run_command_frame [OF disjoint_src_sets, of c x] by auto
qed simp

lemma run_commands_loaded:
  assumes "well_placed cs" "\<forall>c \<in> set cs. src c \<noteq> 0 \<and> seg_fits c" "c \<in> set cs" "src t = 0"
  shows "loaded c m (run_commands (cs @ t # rest) m)"
  using assms(1-3)
proof (induction cs arbitrary: m)
  case (Cons d cs)
  have wp: "well_placed cs" "reads d \<inter> writes d = {}" "src d \<noteq> 0" "seg_fits d"
    using Cons.prems by (auto simp: well_placed_def)
  let ?m = "run_command d m"
  have rest: "run_commands (cs @ t # rest) = run_commands cs"
  proof
    fix m'
    have "\<forall>c \<in> set cs. src c \<noteq> 0"
      using Cons.prems(2) by simp
    then show "run_commands (cs @ t # rest) m' = run_commands cs m'"
      by (induction cs arbitrary: m') (simp_all add: assms(4))
  qed
  show ?case
  proof (cases "c \<in> set cs")
    case True
    then have "loaded c ?m (run_commands (cs @ t # rest) ?m)"
      using Cons.IH [OF wp(1)] Cons.prems(2) by simp
    moreover have "?m x = m x" if "x \<in> reads c" for x
    proof -
      have "reads c \<inter> writes d = {}"
        using True Cons.prems(1) by (simp add: well_placed_def)
      then show ?thesis
        using run_command_frame [OF disjoint_src_sets [OF wp(2)], of x] that by blast
    qed
    ultimately show ?thesis
      using wp(3) by (auto simp: loaded_def reads_def)
  next
    case False
    then have c: "c = d"
      using Cons.prems(3) by simp
    have "run_commands cs ?m x = ?m x" if "x \<in> writes d" for x
      using that Cons.prems(1) by (intro run_commands_frame [OF wp(1)]) (auto simp: well_placed_def)
    then show ?thesis
      using run_command_loads [OF wp(2,4), of m] wp(3) unfolding c
      by (simp add: rest loaded_def writes_def)
  qed
qed simp

subsection \<open>Files and booting\<close>

definition file_commands :: "memory \<Rightarrow> addr \<Rightarrow> load_command list" where
  "file_commands m buf = map (seg_command buf) (loads (phdrs_of m buf))"

definition file_ok :: "memory \<Rightarrow> addr \<Rightarrow> bool" where
  "file_ok m buf \<longleftrightarrow> elf_header_ok m buf \<and> (\<forall>ph \<in> set (loads (phdrs_of m buf)). \<not> seg_out_of_bounds ph)"

definition file_entry :: "memory \<Rightarrow> addr \<Rightarrow> u32" where
  "file_entry m buf = entry_of (ld32 m (buf + 24)) (loads (phdrs_of m buf))"

lemma GetLoadCommands_file:
  "prvGetLoadCommands m cmds buf pe = (r, cmds', e) \<Longrightarrow>
   if file_ok m buf \<and> (pe \<longrightarrow> file_entry m buf \<noteq> 0)
   then r = 0 \<and> cmds' = file_commands m buf @ cmds \<and> e = (if pe then Some (file_entry m buf) else None)
   else r = 1"
  using GetLoadCommands_eq [of m buf pe cmds]
  by (auto simp: file_ok_def file_entry_def file_commands_def Let_def split: if_splits)

lemma file_loop_spec:
  assumes "n \<le> length bufs"
  shows "file_loop n m bufs cmds ent =
    (if (\<forall>i < n. file_ok m (bufs ! i)) \<and> (0 < n \<longrightarrow> file_entry m (bufs ! 0) \<noteq> 0)
     then Some (concat (map (file_commands m) (take n bufs)) @ cmds,
                if 0 < n then Some (file_entry m (bufs ! 0)) else ent)
     else None)"
  using assms
proof (induction n arbitrary: cmds ent)
  case (Suc n)
  obtain r cmds' e where g: "prvGetLoadCommands m cmds (bufs ! n) (n = 0) = (r, cmds', e)"
    by (metis prod_cases3)
  note GetLoadCommands_file [OF g]
  moreover have "take (Suc n) bufs = take n bufs @ [bufs ! n]"
    using Suc.prems by (simp add: take_Suc_conv_app_nth)
  ultimately show ?case
    using Suc g by (cases n) (auto simp: less_Suc_eq split: if_splits)
qed simp

text \<open>A small ELF file with one loadable segment, of four bytes in the file and eight in memory.\<close>

definition demo_elf :: "u8 list" where
  "demo_elf = [0x7f, 0x45, 0x4c, 0x46, 1, 1, 1, 0, 0, 0, 0, 0, 0, 0, 0, 0,
     2, 0, 243, 0, 1, 0, 0, 0, 0, 0, 0, 0x80, 52, 0, 0, 0, 0, 0, 0, 0, 0, 0, 0, 0, 52, 0, 32, 0, 1, 0, 0, 0, 0, 0, 0, 0,
     1, 0, 0, 0, 84, 0, 0, 0, 0, 0, 0, 0x80, 0, 0, 0, 0x80, 4, 0, 0, 0, 8, 0, 0, 0, 7, 0, 0, 0, 4, 0, 0, 0,
     11, 12, 13, 14]"

definition demo_staging :: memory where
  "demo_staging a = byte_at demo_elf (unat (a - STAGING_ADDR))"

lemma demo_file:
  "elf_header_ok demo_staging STAGING_ADDR"
  "loads (phdrs_of demo_staging STAGING_ADDR) = [\<lparr>p_type = 1, p_offset = 84, p_vaddr = 0x80000000,
     p_paddr = 0x80000000, p_filesz = 4, p_memsz = 8\<rparr>]"
  "ld32 demo_staging 0xE0000018 = 0x80000000"
  by code_simp+

lemma demo_commands:
  "file_commands demo_staging STAGING_ADDR = [\<lparr>src = 0xE0000054, dst = 0x80000000, copysz = 4, zerosz = 4\<rparr>]"
  by (simp add: file_commands_def demo_file seg_command_def)

lemma entry_of_find:
  "entry_of e phs = (case find (\<lambda>ph. p_vaddr ph \<le> e \<and> e < p_vaddr ph + p_memsz ph) phs of
     None \<Rightarrow> 0 | Some ph \<Rightarrow> p_paddr ph + (e - p_vaddr ph))"
  by (induction phs) (simp_all add: entry_of_def seg_entry_def)

text \<open>
  C10.  \<^verbatim>\<open>prvGetLoadCommands\<close>, stated on the bytes of the file.  It is accepted exactly when it starts
  with 0x7F, \<^verbatim>\<open>E\<close> and \<^verbatim>\<open>L\<close> (the fourth byte of the magic number is not looked at), has the 32-bit
  class, little-endian data and version 1, is an executable or shared object for RISC-V with
  program headers of 32 bytes, every loadable segment starts at or above 0x80000000 and ends (modulo
  \<open>2 ^ 32\<close>) at or below 0xE0000000 and, if the entry point is asked for, the relocated entry address
  exists and is not 0.  An accepted file adds one command per loadable segment, in the order of the
  program headers and before the commands of the files handled earlier: copy the file contents of
  the segment to its physical address and zero the rest.  The entry point is the entry address
  relocated to the physical address of the first loadable segment that contains it.
\<close>

theorem elf_load_commands:
  "let header_ok = (m buf = 0x7F \<and> m (buf + 1) = 0x45 \<and> m (buf + 2) = 0x4C \<and>
         m (buf + 4) = 1 \<and> m (buf + 5) = 1 \<and> m (buf + 6) = 1 \<and>
         (ld16 m (buf + 16) = 2 \<or> ld16 m (buf + 16) = 3) \<and> ld16 m (buf + 18) = 243 \<and> ld16 m (buf + 42) = 32);
       phs = filter (\<lambda>ph. p_type ph = 1) (map (\<lambda>i. let a = buf + ld32 m (buf + 28) + 32 * of_nat i in
         \<lparr>p_type = ld32 m a, p_offset = ld32 m (a + 4), p_vaddr = ld32 m (a + 8), p_paddr = ld32 m (a + 12),
          p_filesz = ld32 m (a + 16), p_memsz = ld32 m (a + 20)\<rparr>) [0..<unat (ld16 m (buf + 44))]);
       virt = ld32 m (buf + 24);
       entry = (case find (\<lambda>ph. p_vaddr ph \<le> virt \<and> virt < p_vaddr ph + p_memsz ph) phs of
         None \<Rightarrow> 0 | Some ph \<Rightarrow> p_paddr ph + (virt - p_vaddr ph)) in
   if header_ok \<and> (\<forall>ph \<in> set phs. 0x80000000 \<le> p_paddr ph \<and> p_paddr ph + p_memsz ph \<le> 0xE0000000) \<and>
      (pe \<longrightarrow> entry \<noteq> 0)
   then prvGetLoadCommands m cmds buf pe =
     (0, map (\<lambda>ph. \<lparr>src = buf + p_offset ph, dst = p_paddr ph, copysz = p_filesz ph,
        zerosz = p_memsz ph - p_filesz ph\<rparr>) phs @ cmds, if pe then Some entry else None)
   else fst (prvGetLoadCommands m cmds buf pe) = 1 \<and> snd (snd (prvGetLoadCommands m cmds buf pe)) = None"
proof -
  have h: "elf_header_ok m buf \<longleftrightarrow> m buf = 0x7F \<and> m (buf + 1) = 0x45 \<and> m (buf + 2) = 0x4C \<and>
      m (buf + 4) = 1 \<and> m (buf + 5) = 1 \<and> m (buf + 6) = 1 \<and>
      (ld16 m (buf + 16) = 2 \<or> ld16 m (buf + 16) = 3) \<and> ld16 m (buf + 18) = 243 \<and> ld16 m (buf + 42) = 32"
    by (auto simp: elf_header_ok_def)
  show ?thesis
    using GetLoadCommands_eq [of m buf pe cmds]
    unfolding h phdrs_of_def loads_def phdr_at_def entry_of_find seg_command_def seg_out_of_bounds_def
      Let_def not_less de_Morgan_disj .
qed

theorem elf_load_commands_witness:
  "prvGetLoadCommands demo_staging [null_command] STAGING_ADDR True =
     (0, [\<lparr>src = 0xE0000054, dst = 0x80000000, copysz = 4, zerosz = 4\<rparr>, null_command], Some 0x80000000)"
proof -
  have f: "demo_staging 0xE0000000 = 0x7F" "demo_staging 0xE0000001 = 0x45" "demo_staging 0xE0000002 = 0x4C"
    "demo_staging 0xE0000004 = 1" "demo_staging 0xE0000005 = 1" "demo_staging 0xE0000006 = 1"
    "ld16 demo_staging 0xE0000010 = 2" "ld16 demo_staging 0xE0000012 = 243" "ld16 demo_staging 0xE000002A = 32"
    "ld16 demo_staging 0xE000002C = 1" "ld32 demo_staging 0xE000001C = 52" "ld32 demo_staging 0xE0000018 = 0x80000000"
    by code_simp+
  have p: "ld32 demo_staging 0xE0000034 = 1" "ld32 demo_staging 0xE0000038 = 84" "ld32 demo_staging 0xE000003C = 0x80000000"
    "ld32 demo_staging 0xE0000040 = 0x80000000" "ld32 demo_staging 0xE0000044 = 4" "ld32 demo_staging 0xE0000048 = 8"
    by code_simp+
  show ?thesis
    using elf_load_commands [of demo_staging STAGING_ADDR True "[null_command]"]
    by (simp add: Let_def f p)
qed

text \<open>
  C4.  Booting puts every segment in place.  When \<^verbatim>\<open>prvLoadAndBoot\<close> jumps to the trampoline, all
  files were accepted and the jump goes to the entry point of the first.  If the segments do not
  overlap each other or the downloaded files, and nothing is read from or written to the memory
  between the copied trampoline and \<^verbatim>\<open>STAGING_ADDR\<close>, where the trampoline and the command array
  are, then after the trampoline's block-wise copy and zero loops every loadable segment of every
  file holds its file contents followed by zeros.
\<close>

theorem boot_places_segments:
  assumes "prvLoadAndBoot ts m bufs hlt = Jump cmds e h t" and "bufs \<noteq> []"
    and "well_placed (concat (map (file_commands m) bufs))"
    and "\<forall>c \<in> set (concat (map (file_commands m) bufs)). src c \<noteq> 0 \<and> seg_fits c"
    and "\<forall>c \<in> set (concat (map (file_commands m) bufs)). (reads c \<union> writes c) \<inter> {t..<STAGING_ADDR} = {}"
  shows "e = file_entry m (bufs ! 0) \<and> h = hlt \<and>
    (\<forall>buf \<in> set bufs. file_ok m buf \<and> (\<forall>c \<in> set (file_commands m buf). loaded c m (run_commands cmds m)))"
proof -
  have "file_loop (length bufs) m bufs [null_command] None \<noteq> None"
    using assms(1) by (auto simp: prvLoadAndBoot_def split: option.splits)
  then have ok: "\<forall>i < length bufs. file_ok m (bufs ! i)" "file_entry m (bufs ! 0) \<noteq> 0"
    using file_loop_spec [of "length bufs" bufs m "[null_command]" None] assms(2) by (auto split: if_splits)
  then have r: "cmds = concat (map (file_commands m) bufs) @ [null_command]" "e = file_entry m (bufs ! 0)" "h = hlt"
    using file_loop_spec [of "length bufs" bufs m "[null_command]" None] assms(1,2)
    by (auto simp: prvLoadAndBoot_def)
  have "loaded c m (run_commands cmds m)" if "c \<in> set (concat (map (file_commands m) bufs))" for c
    unfolding r(1) using run_commands_loaded [OF assms(3,4) that, of null_command] by (simp add: null_command_def)
  moreover have "\<forall>buf \<in> set bufs. file_ok m buf"
    using ok(1) by (auto simp: in_set_conv_nth)
  ultimately show ?thesis
    using r(2,3) by auto
qed

theorem boot_places_segments_witness:
  "\<exists>cmds e h t. prvLoadAndBoot 200 demo_staging [STAGING_ADDR] False = Jump cmds e h t \<and> e = 0x80000000 \<and>
     run_commands cmds demo_staging 0x80000002 = 13 \<and> run_commands cmds demo_staging 0x80000006 = 0"
proof -
  let ?c = "\<lparr>src = 0xE0000054, dst = 0x80000000, copysz = 4, zerosz = 4\<rparr> :: load_command"
  have fl: "file_ok demo_staging STAGING_ADDR" "file_entry demo_staging STAGING_ADDR = 0x80000000"
    by (simp_all add: file_ok_def file_entry_def entry_of_def demo_file seg_entry_def seg_out_of_bounds_def)
  have "file_loop (length [STAGING_ADDR]) demo_staging [STAGING_ADDR] [null_command] None =
    Some ([?c, null_command], Some 0x80000000)"
    by (subst file_loop_spec) (simp_all add: fl demo_commands)
  then have j: "prvLoadAndBoot 200 demo_staging [STAGING_ADDR] False =
      Jump [?c, null_command] 0x80000000 False 0xDFFFFF18"
    by (simp only: prvLoadAndBoot_def option.case prod.case) simp
  have rw: "reads ?c = {0xE0000054, 0xE0000055, 0xE0000056, 0xE0000057}"
    "writes ?c = {0x80000000, 0x80000001, 0x80000002, 0x80000003, 0x80000004, 0x80000005, 0x80000006, 0x80000007}"
    by (auto simp: reads_def writes_def word_less_4 in_word)
  have a: "well_placed (concat (map (file_commands demo_staging) [STAGING_ADDR]))"
    "\<forall>c \<in> set (concat (map (file_commands demo_staging) [STAGING_ADDR])). src c \<noteq> 0 \<and> seg_fits c"
    "\<forall>c \<in> set (concat (map (file_commands demo_staging) [STAGING_ADDR])).
       (reads c \<union> writes c) \<inter> {0xDFFFFF18..<STAGING_ADDR} = {}"
    by (simp_all add: demo_commands well_placed_def seg_fits_def rw)
  from boot_places_segments [OF j _ a] have r: "loaded ?c demo_staging (run_commands [?c, null_command] demo_staging)"
    by (simp add: demo_commands del: run_commands.simps)
  have "(2 :: u32) < 4"
    by simp
  with r have "run_commands [?c, null_command] demo_staging (0x80000000 + 2) = demo_staging (0xE0000054 + 2)"
    "run_commands [?c, null_command] demo_staging (0x80000000 + 4 + 2) = 0"
    unfolding loaded_def by (simp_all only: load_command.select_convs)
  moreover have "demo_staging (0xE0000054 + 2) = 13"
    by code_simp
  ultimately show ?thesis
    using j by (intro exI conjI) (assumption | simp del: run_commands.simps)+
qed

end
