(* ===== verification/Shell.thy ===== *)
theory Shell
  imports ElfLoader
begin

section \<open>The shell of the network boot loader (demo/main\_netboot.c)\<close>

text \<open>
  \<^verbatim>\<open>prvShellTask\<close> reads characters from the serial port in chunks, edits the line and passes complete
  lines to \<^verbatim>\<open>prvShellCommand\<close>, which splits them into arguments and calls the command's function;
  \<^verbatim>\<open>prvShellCommandBoot\<close> downloads and boots files.

  The line buffer is a list of 1024 bytes and positions in it are integers, as in the source.  An
  access outside the buffer has no defined result, so the functions that could make one return an
  \<open>option\<close> and \<open>None\<close> is that case.  Echo and messages are not modelled; the calls through the
  command table are recorded with their arguments in \<open>calls\<close>.
\<close>

subsection \<open>Splitting a line\<close>

abbreviation (input) ARRAY_SIZE_argv :: nat where "ARRAY_SIZE_argv \<equiv> 16"

definition blank :: "u8 \<Rightarrow> bool" where
  "blank c \<longleftrightarrow> c = 32 \<or> c = 9"

text \<open>
  The loop over the line.  \<open>argv\<close> and \<open>start\<close> are positions in the buffer; a blank that ends a word is
  overwritten with zero.
\<close>

function split_loop :: "u8 list \<Rightarrow> nat \<Rightarrow> nat list \<Rightarrow> nat option \<Rightarrow> u8 list \<times> nat list \<times> nat option" where
  "split_loop buf p argv start =
     (if \<not> p < length buf \<or> buf ! p = 0 then (buf, argv, start)
      else if blank (buf ! p) then
        (case start of
           None \<Rightarrow> split_loop buf (p + 1) argv None
         | Some a \<Rightarrow>
             if length argv = ARRAY_SIZE_argv then (buf, argv, start)
             else split_loop (buf[p := 0]) (p + 1) (argv @ [a]) None)
      else split_loop buf (p + 1) argv (case start of None \<Rightarrow> Some p | Some a \<Rightarrow> Some a))"
  by auto

termination
  by (relation "measure (\<lambda>(buf, p, _). length buf - p)") auto

lemmas [simp del] = split_loop.simps

datatype shell_command = Boot | Help | Ifconfig

text \<open>What \<^verbatim>\<open>prvShellCommand\<close> does with the arguments: nothing, an error message or a call.\<close>

datatype shell_call = NoCommand | TooLong | Unknown "u8 list" | Call shell_command "u8 list list"

definition xShellCommands :: "(u8 list \<times> shell_command) list" where
  "xShellCommands = [(bytes_of ''boot'', Boot), (bytes_of ''help'', Help), (bytes_of ''ifconfig'', Ifconfig)]"

definition prvShellCommand :: "u8 list \<Rightarrow> nat \<Rightarrow> u8 list \<times> shell_call" where
  "prvShellCommand buf command =
     (let (buf, argv, start) = split_loop buf command [] None;
          (argv, start) = (case start of
             None \<Rightarrow> (argv, start)
           | Some a \<Rightarrow> if length argv < ARRAY_SIZE_argv then (argv @ [a], None) else (argv, start)) in
      if start \<noteq> None then (buf, TooLong)
      else if argv = [] then (buf, NoCommand)
      else
        let args = map (cstr_at buf) argv in
        (buf, case map_of xShellCommands (hd args) of
                None \<Rightarrow> Unknown (hd args) | Some c \<Rightarrow> Call c args))"

subsection \<open>The line editor\<close>

abbreviation (input) sizeof_buf :: nat where "sizeof_buf \<equiv> 1024"

record shell =
  buf :: "u8 list"
  len :: int
  overflow :: bool
  nonprintable :: bool
  calls :: "shell_call list"

definition byte_move :: "u8 list \<Rightarrow> int \<Rightarrow> int \<Rightarrow> int \<Rightarrow> u8 list option" where
  "byte_move b d s n =
     (if 0 \<le> d \<and> 0 \<le> s \<and> 0 \<le> n \<and> d + n \<le> int (length b) \<and> s + n \<le> int (length b)
      then Some (take (nat d) b @ take (nat n) (drop (nat s) b) @ drop (nat (d + n)) b)
      else None)"

text \<open>
  The case of a carriage return: the line from \<open>command\<close> is ended and, unless an error was found in it,
  run.
\<close>

definition shell_return :: "int \<Rightarrow> int \<Rightarrow> shell \<Rightarrow> shell" where
  "shell_return p command s =
     (let s = s\<lparr>buf := (buf s)[nat p := 0]\<rparr> in
      if overflow s \<or> nonprintable s then s\<lparr>overflow := False, nonprintable := False\<rparr>
      else let (b, c) = prvShellCommand (buf s) (nat command) in s\<lparr>buf := b, calls := calls s @ [c]\<rparr>)"

text \<open>
  The loop over the \<open>n\<close> new characters, with \<open>i\<close>, \<open>n\<close> and \<open>command\<close> as in the source.  \<^verbatim>\<open>continue\<close> goes on
  with \<^verbatim>\<open>++i\<close>.  The result is the state, \<open>n\<close> and \<open>command\<close>.
\<close>

function edit_loop :: "int \<Rightarrow> int \<Rightarrow> int \<Rightarrow> shell \<Rightarrow> (shell \<times> int \<times> int) option" where
  "edit_loop i n command s =
     (if \<not> i < n then Some (s, n, command)
      else if len s + i < 0 \<or> int (length (buf s)) \<le> len s + i then None
      else
        let p = len s + i; c = buf s ! nat p in
        if c = 3 then
          edit_loop 0 (n - (i + 1)) (len s + i + 1) (s\<lparr>len := len s + i + 1\<rparr>)
        else if c = 8 then
          (let d = (if command = p then 1 else 2) in
           case byte_move (buf s) p (p + d) (n - i) of
             None \<Rightarrow> None
           | Some b \<Rightarrow> edit_loop (i - d + 1) (n - d) command (s\<lparr>buf := b\<rparr>))
        else if c = 127 then
          (case byte_move (buf s) p (p + 1) (n - i) of
             None \<Rightarrow> None
           | Some b \<Rightarrow> edit_loop (i - 1 + 1) (n - 1) command (s\<lparr>buf := b\<rparr>))
        else if c = 13 then
          edit_loop 0 (n - (i + 1)) (len s + i + 1) ((shell_return p command s)\<lparr>len := len s + i + 1\<rparr>)
        else if c \<noteq> 9 \<and> c < 32 then
          edit_loop (i + 1) n command (s\<lparr>nonprintable := True\<rparr>)
        else edit_loop (i + 1) n command s)"
  by auto

termination
  by (relation "measure (\<lambda>(i, n, _). nat (n - i))") auto

lemmas [simp del] = edit_loop.simps

text \<open>
  One turn of the task's loop on the characters that \<^verbatim>\<open>uart0_rxbuffer\<close> has stored behind the \<open>len\<close>
  characters already there.
\<close>

definition shell_turn :: "u8 list \<Rightarrow> shell \<Rightarrow> shell option" where
  "shell_turn rx s =
     (if rx = [] then Some s
      else
        let n = int (length rx); l = nat (len s);
            s = s\<lparr>buf := (take l (buf s) @ rx @ drop (l + length rx) (buf s))[l + length rx := 0]\<rparr> in
        case edit_loop 0 n 0 s of
          None \<Rightarrow> None
        | Some (s, n, command) \<Rightarrow>
            let s = s\<lparr>len := len s + n\<rparr>;
                s = (if command = 0 \<and> len s = int sizeof_buf - 1 then s\<lparr>overflow := True\<rparr> else s) in
            if overflow s \<or> nonprintable s then Some (s\<lparr>len := 0\<rparr>)
            else
              let s = s\<lparr>len := len s - command\<rparr> in
              case byte_move (buf s) 0 command (len s) of
                None \<Rightarrow> None
              | Some b \<Rightarrow> Some (s\<lparr>buf := b\<rparr>))"

text \<open>
  The task on a stream of typed characters: each number is how many characters wait in the receive
  queue at one call of \<^verbatim>\<open>uart0_rxbuffer(buf + len, sizeof(buf)-1-len)\<close>, which takes no more than it is
  asked for.  The result is the part of the stream not yet read and the state.
\<close>

fun prvShellTask :: "nat list \<Rightarrow> u8 list \<Rightarrow> shell \<Rightarrow> (u8 list \<times> shell) option" where
  "prvShellTask [] stream s = Some (stream, s)"
| "prvShellTask (k # ks) stream s =
     (let n = min k (nat (int sizeof_buf - 1 - len s)) in
      case shell_turn (take n stream) s of
        None \<Rightarrow> None
      | Some s \<Rightarrow> prvShellTask ks (drop n stream) s)"

definition shell_start :: shell where
  "shell_start = \<lparr>buf = replicate sizeof_buf 0, len = 0, overflow = False, nonprintable = False, calls = []\<rparr>"

subsection \<open>The boot command\<close>

text \<open>
  \<^verbatim>\<open>strtoul\<close> with base 10 on a target with 32-bit \<^verbatim>\<open>long\<close>: white space, a sign, digits; \<^verbatim>\<open>ULONG_MAX\<close> on
  overflow and 0 if there is no number.  \<^verbatim>\<open>errno\<close> is set on overflow only.
\<close>

fun dec_digits :: "nat \<Rightarrow> u8 list \<Rightarrow> nat" where
  "dec_digits acc [] = acc"
| "dec_digits acc (c # cs) = (if 48 \<le> c \<and> c \<le> 57 then dec_digits (10 * acc + unat (c - 48)) cs else acc)"

definition strtoul10 :: "u8 list \<Rightarrow> u32 \<times> bool" where
  "strtoul10 s =
     (let s = dropWhile (\<lambda>c. c = 32 \<or> 9 \<le> c \<and> c \<le> 13) s;
          neg = (s \<noteq> [] \<and> hd s = 45);
          s = (if s \<noteq> [] \<and> (hd s = 45 \<or> hd s = 43) then tl s else s);
          v = dec_digits 0 s
      in if v < 2 ^ 32 then (if neg then - of_nat v else of_nat v, False) else (0xffffffff, True))"

definition string_of :: "u8 list \<Rightarrow> string" where
  "string_of bs = map (\<lambda>b. char_of (unat b)) bs"

datatype boot_result = BadPort | PortRange | TooFew | TooMany | TransferFailed | Waiting | Loading boot

abbreviation (input) STAGING_BUFS_ALIGN :: u32 where "STAGING_BUFS_ALIGN \<equiv> 16"

text \<open>
  The downloads, one after the other; \<open>rss\<close> gives the results of \<^verbatim>\<open>FreeRTOS_recvfrom\<close> for each.  A
  transfer that is still going on when its list is used up is \<open>Waiting\<close>.
\<close>

fun fetch_files ::
  "netapi \<Rightarrow> string \<Rightarrow> u16 \<Rightarrow> u8 list list \<Rightarrow> addr \<Rightarrow> addr list \<Rightarrow> recv_result list list \<Rightarrow> tftp_io \<Rightarrow>
   (boot_result + addr list) \<times> tftp_io" where
  "fetch_files N host port [] staging bufs rss io = (Inr bufs, io)"
| "fetch_files N host port (name # names) staging bufs rss io =
     (case prvTftpReceive N host port (string_of name) staging (case rss of [] \<Rightarrow> [] | rs # _ \<Rightarrow> rs) io of
        (Continue, io) \<Rightarrow> (Inl Waiting, io)
      | (Return r sz, io) \<Rightarrow>
          if r \<noteq> 0 then (Inl TransferFailed, io)
          else
            let size = the sz in
            fetch_files N host port names (staging + (size + (- size) mod STAGING_BUFS_ALIGN))
              (bufs @ [staging]) (tl rss) io)"

definition boot_args :: "netapi \<Rightarrow> u8 list list \<Rightarrow> boot_result + (bool \<times> u16 \<times> u8 list \<times> u8 list list)" where
  "boot_args N argv =
     (let argc = length argv;
          hlt = (argc > 1 \<and> argv ! 1 = bytes_of ''-h'');
          argi = (if hlt then 2 else 1);
          (port, bad, argi) =
            (if argc > argi \<and> argv ! argi = bytes_of ''-p'' then
               if argc > argi + 1 then
                 let (p, errno) = strtoul10 (argv ! (argi + 1)) in
                 if p = 0 \<and> errno then (p, Some BadPort, argi + 1)
                 else if p > 0xffff then (p, Some PortRange, argi + 1)
                 else (p, None, argi + 2)
               else (69, None, argi + 1)
             else (69, None, argi)) in
      case bad of Some e \<Rightarrow> Inl e
      | None \<Rightarrow>
          if argc < argi + 2 then Inl TooFew
          else if argc > argi + 1 + 2 then Inl TooMany
          else Inr (hlt, ucast port, argv ! argi, drop (argi + 1) argv))"

definition prvShellCommandBoot ::
  "netapi \<Rightarrow> u32 \<Rightarrow> u8 list list \<Rightarrow> recv_result list list \<Rightarrow> tftp_io \<Rightarrow> boot_result \<times> tftp_io" where
  "prvShellCommandBoot N trampoline_size argv rss io =
     (case boot_args N argv of
        Inl e \<Rightarrow> (e, io)
      | Inr (hlt, port, host, names) \<Rightarrow>
          (case fetch_files N (string_of host) port names STAGING_ADDR [] rss io of
             (Inl e, io) \<Rightarrow> (e, io)
           | (Inr bufs, io) \<Rightarrow> (Loading (prvLoadAndBoot trampoline_size (mem io) bufs hlt), io)))"

end
