(* ===== verification/Shell_Props.thy ===== *)
theory Shell_Props
  imports Shell ElfLoader_Props Tftp_Spec
begin

section \<open>Properties of the shell\<close>

text \<open>
  The words of a line and the lines of a stream of characters as plain list functions, and the
  proofs that the in-place splitting loop and the line editor compute them, however the serial
  port cuts the stream into chunks.  Then the arguments of the boot command, and where it puts the
  files it downloads.
\<close>

subsection \<open>Words\<close>

fun fields :: "u8 list \<Rightarrow> u8 list list" where
  "fields [] = [[]]"
| "fields (c # cs) =
     (if blank c then [] # fields cs else (case fields cs of f # fs \<Rightarrow> (c # f) # fs))"

definition words :: "u8 list \<Rightarrow> u8 list list" where
  "words s = filter (\<lambda>w. w \<noteq> []) (fields s)"

definition words_after :: "u8 list \<Rightarrow> u8 list \<Rightarrow> u8 list list" where
  "words_after w s = filter (\<lambda>w. w \<noteq> []) ((w @ hd (fields s)) # tl (fields s))"

lemma fields_not_Nil [simp]: "fields s \<noteq> []"
  by (induction s) (auto split: list.splits)

lemma words_after_Nil: "words_after [] s = words s"
  by (simp add: words_after_def words_def flip: filter.simps(2))

lemma words_after_simps:
  "words_after w [] = (if w = [] then [] else [w])"
  "words_after w (c # cs) =
     (if blank c then (if w = [] then [] else [w]) @ words cs else words_after (w @ [c]) cs)"
proof -
  obtain f fs where "fields cs = f # fs"
    by (cases "fields cs") auto
  then show "words_after w [] = (if w = [] then [] else [w])"
    "words_after w (c # cs) =
     (if blank c then (if w = [] then [] else [w]) @ words cs else words_after (w @ [c]) cs)"
    by (auto simp: words_after_def words_def)
qed

subsection \<open>Splitting in place\<close>

definition closed :: "u8 list \<Rightarrow> nat \<Rightarrow> bool" where
  "closed pre a \<longleftrightarrow> (\<exists>k < length pre. a \<le> k \<and> pre ! k = 0)"

lemma closed_append: "closed pre a \<Longrightarrow> closed (pre @ xs) a"
  by (auto simp: closed_def nth_append)

lemma cstr_closed:
  assumes "closed pre a"
  shows "cstr_at (pre @ xs) a = cstr_at pre a"
proof -
  obtain k where k: "k < length pre" "a \<le> k" "pre ! k = 0"
    using assms by (auto simp: closed_def)
  then have "drop a pre ! (k - a) = 0" "k - a < length (drop a pre)"
    by auto
  then have "0 \<in> set (drop a pre)"
    by (metis nth_mem)
  then show ?thesis
    using k by (simp add: cstr_at_def takeWhile_append1)
qed

lemma cstr_word:
  assumes "0 \<notin> set w" "xs = [] \<or> hd xs = 0"
  shows "cstr_at (p @ w @ xs) (length p) = w"
proof -
  have "takeWhile (\<lambda>c. c \<noteq> 0) (w @ xs) = w @ takeWhile (\<lambda>c. c \<noteq> 0) xs"
    using assms(1) by (intro takeWhile_append2) auto
  then show ?thesis
    using assms(2) by (cases xs) (auto simp: cstr_at_def)
qed

text \<open>The word that has been started, behind \<open>pre\<close>.\<close>

definition started :: "u8 list \<Rightarrow> u8 list \<Rightarrow> nat option \<Rightarrow> bool" where
  "started pre w start \<longleftrightarrow>
     (case start of None \<Rightarrow> w = []
      | Some a \<Rightarrow> w \<noteq> [] \<and> 0 \<notin> set w \<and> a \<le> length pre \<and> drop a pre = w)"

lemma cstr_started:
  assumes "started pre w (Some a)" "xs = [] \<or> hd xs = 0"
  shows "cstr_at (pre @ xs) a = w"
proof -
  have "pre = take a pre @ w" "length (take a pre) = a" "0 \<notin> set w"
    using assms(1) append_take_drop_id [of a pre] by (auto simp: started_def)
  then show ?thesis
    using cstr_word [OF _ assms(2), of w "take a pre"] by (metis append.assoc)
qed

text \<open>What the loop leaves behind: the arguments when they fit, else a word that has no slot.\<close>

definition split_result :: "u8 list \<Rightarrow> u8 list list \<Rightarrow> u8 list \<times> nat list \<times> nat option \<Rightarrow> bool" where
  "split_result pre ws = (\<lambda>(b, argv, start).
     if length ws \<le> 16
     then map (cstr_at b) (argv @ (case start of None \<Rightarrow> [] | Some a \<Rightarrow> [a])) = ws
     else length argv = 16 \<and> start \<noteq> None)"

lemma split_loop_spec:
  assumes "0 \<notin> set rest" "tail = [] \<or> hd tail = 0" "\<forall>a \<in> set argv. closed pre a" "started pre w start"
    "length argv \<le> 16"
  shows "split_result pre (map (cstr_at pre) argv @ words_after w rest)
      (split_loop (pre @ rest @ tail) (length pre) argv start) \<and>
    (\<exists>line. fst (split_loop (pre @ rest @ tail) (length pre) argv start) = pre @ line @ tail \<and>
       length line = length rest)"
  using assms
proof (induction rest arbitrary: pre argv start w)
  case Nil
  have "split_loop (pre @ [] @ tail) (length pre) argv start = (pre @ tail, argv, start)"
    using Nil.prems(2) by (subst split_loop.simps) (auto simp: nth_append hd_conv_nth)
  moreover have "map (cstr_at (pre @ tail)) argv = map (cstr_at pre) argv"
    using Nil.prems(3) by (auto simp: cstr_closed)
  ultimately show ?case
    using Nil.prems cstr_started [of pre w _ tail]
    by (auto simp: split_result_def words_after_simps started_def split: option.splits)
next
  case (Cons c cs)
  let ?loop = "split_loop (pre @ (c # cs) @ tail) (length pre) argv start"
  have c: "c \<noteq> 0" "0 \<notin> set cs"
    using Cons.prems(1) by auto
  have same: "map (cstr_at (pre @ [x])) argv = map (cstr_at pre) argv" for x
    using Cons.prems(3) by (auto simp: cstr_closed)
  have cl: "\<forall>a \<in> set argv. closed (pre @ [x]) a" for x
    using Cons.prems(3) by (auto simp: closed_append)
  consider (word) "\<not> blank c" | (blank) "blank c" "start = None"
    | (full) a where "blank c" "start = Some a" "length argv = 16"
    | (push) a where "blank c" "start = Some a" "length argv < 16"
    using Cons.prems(5) by (cases start) fastforce+
  then show ?case
  proof cases
    case word
    let ?start = "Some (case start of None \<Rightarrow> length pre | Some a \<Rightarrow> a)"
    have "?loop = split_loop ((pre @ [c]) @ cs @ tail) (length (pre @ [c])) argv ?start"
      using word c by (subst split_loop.simps) (simp add: nth_append split: option.splits)
    moreover have "started (pre @ [c]) (w @ [c]) ?start"
      using Cons.prems(4) c(1) by (auto simp: started_def split: option.splits)
    ultimately show ?thesis
      using Cons.IH [OF c(2) Cons.prems(2) cl _ Cons.prems(5), of c "w @ [c]" ?start] word
      by (fastforce simp: words_after_simps same split_result_def)
  next
    case blank
    have "?loop = split_loop ((pre @ [c]) @ cs @ tail) (length (pre @ [c])) argv None"
      using blank c by (subst split_loop.simps) (simp add: nth_append)
    moreover have "started (pre @ [c]) [] None" "w = []"
      using Cons.prems(4) blank by (auto simp: started_def)
    ultimately show ?thesis
      using Cons.IH [OF c(2) Cons.prems(2) cl _ Cons.prems(5), of c "[]" None] blank
      by (fastforce simp: words_after_simps words_after_Nil same split_result_def)
  next
    case full
    have "?loop = (pre @ (c # cs) @ tail, argv, Some a)"
      using full c by (subst split_loop.simps) (simp add: nth_append)
    then show ?thesis
      using full Cons.prems(4) by (auto simp: split_result_def words_after_simps started_def)
  next
    case push
    have "?loop = split_loop ((pre @ [0]) @ cs @ tail) (length (pre @ [0])) (argv @ [a]) None"
      using push c by (subst split_loop.simps) (simp add: nth_append list_update_append)
    moreover have "cstr_at (pre @ [0]) a = w" "closed (pre @ [0]) a" "w \<noteq> []"
      using Cons.prems(4) push cstr_started [of pre w a "[0]"]
      by (auto simp: started_def closed_def intro!: exI [of _ "length pre"])
    moreover have "started (pre @ [0]) [] None"
      by (simp add: started_def)
    ultimately show ?thesis
      using Cons.IH [OF c(2) Cons.prems(2), of "argv @ [a]" "pre @ [0]" "[]" None] push cl same
      by (fastforce simp: words_after_simps words_after_Nil split_result_def)
  qed
qed

text \<open>What a line means, in terms of its words.\<close>

definition line_call :: "u8 list \<Rightarrow> shell_call" where
  "line_call line =
     (let ws = words line in
      if length ws > 16 then TooLong
      else if ws = [] then NoCommand
      else case map_of xShellCommands (hd ws) of None \<Rightarrow> Unknown (hd ws) | Some c \<Rightarrow> Call c ws)"

lemma ShellCommand_spec:
  assumes "0 \<notin> set line" "tail = [] \<or> hd tail = 0"
  obtains line' where "prvShellCommand (pre @ line @ tail) (length pre) = (pre @ line' @ tail, line_call line)"
    "length line' = length line"
proof -
  obtain b argv start where l: "split_loop (pre @ line @ tail) (length pre) [] None = (b, argv, start)"
    by (metis prod_cases3)
  have "split_result pre (words line) (b, argv, start)" "\<exists>line'. b = pre @ line' @ tail \<and> length line' = length line"
    using split_loop_spec [OF assms, of "[]" pre "[]" None] by (auto simp: started_def l words_after_Nil)
  moreover have "snd (prvShellCommand (pre @ line @ tail) (length pre)) = line_call line"
  proof (cases "length (words line) \<le> 16")
    case True
    define argv' where "argv' = argv @ (case start of None \<Rightarrow> [] | Some a \<Rightarrow> [a])"
    have args: "map (cstr_at b) argv' = words line"
      using calculation(1) True by (simp add: split_result_def argv'_def)
    then have "argv' = [] \<longleftrightarrow> words line = []" "start \<noteq> None \<longrightarrow> length argv < 16"
      using arg_cong [OF args, of length] True by (auto simp: argv'_def simp flip: args)
    moreover have "argv' \<noteq> [] \<longrightarrow> cstr_at b (hd argv') = hd (words line)"
      by (simp add: hd_map flip: args)
    ultimately show ?thesis
      using True args by (auto simp: prvShellCommand_def l line_call_def argv'_def hd_map Let_def split: option.splits)
  next
    case False
    then show ?thesis
      using calculation(1) by (auto simp: prvShellCommand_def l line_call_def split_result_def)
  qed
  moreover have "fst (prvShellCommand (pre @ line @ tail) (length pre)) = b"
    by (auto simp: prvShellCommand_def l Let_def split: option.splits)
  ultimately show ?thesis
    using that by (metis prod.collapse)
qed

subsection \<open>Lines\<close>

text \<open>The characters the line editor passes on unchanged.\<close>

definition plain_char :: "u8 \<Rightarrow> bool" where
  "plain_char c \<longleftrightarrow> c = 9 \<or> 32 \<le> c \<and> c \<noteq> 127"

text \<open>
  The complete lines of a stream of characters and what is typed after the last of them, when \<open>p\<close>
  is already typed.
\<close>

fun lines_from :: "u8 list \<Rightarrow> u8 list \<Rightarrow> u8 list list \<times> u8 list" where
  "lines_from p [] = ([], p)"
| "lines_from p (c # cs) =
     (if c = 13 then let (ls, r) = lines_from [] cs in (p # ls, r) else lines_from (p @ [c]) cs)"

lemma lines_from_append:
  "lines_from p (xs @ ys) =
     (let (l, r) = lines_from p xs; (l', r') = lines_from r ys in (l @ l', r'))"
  by (induction xs arbitrary: p) (auto split: prod.splits)

lemma lines_from_bytes:
  "c \<in> set (snd (lines_from p xs)) \<Longrightarrow> c \<in> set p \<or> c \<in> set xs \<and> c \<noteq> 13"
  by (induction p xs rule: lines_from.induct) (auto split: prod.splits if_splits)

lemma plain_char_cases:
  assumes "plain_char c"
  shows "c \<noteq> 3" "c \<noteq> 8" "c \<noteq> 127" "c \<noteq> 13" "c \<noteq> 0" "\<not> (c \<noteq> 9 \<and> c < 32)"
  using assms by (auto simp: plain_char_def)

text \<open>
  The loop's view of the buffer: \<open>d\<close> is done with, \<open>p\<close> is the line so far, \<open>rx\<close> is still to be read.
\<close>

definition editing :: "u8 list \<Rightarrow> u8 list \<Rightarrow> u8 list \<Rightarrow> u8 list \<Rightarrow> shell \<Rightarrow> bool" where
  "editing d p rx t s \<longleftrightarrow> buf s = d @ p @ rx @ 0 # t \<and> \<not> overflow s \<and> \<not> nonprintable s \<and> 0 \<notin> set p"

lemma edit_loop_step:
  assumes "editing d p (c # rx) t s" "len s + i = int (length d + length p)" "n - i = int (length (c # rx))"
  shows "plain_char c \<Longrightarrow> edit_loop i n command s = edit_loop (i + 1) n command s"
    and "c = 13 \<Longrightarrow> edit_loop i n command s =
      edit_loop 0 (int (length rx)) (int (length d + length p) + 1)
        ((shell_return (int (length d + length p)) command s)\<lparr>len := int (length d + length p) + 1\<rparr>)"
proof -
  have c: "buf s ! nat (len s + i) = c"
    using assms(1) unfolding editing_def assms(2) nat_int by (simp add: nth_append)
  have r: "i < n" "\<not> (len s + i < 0 \<or> int (length (buf s)) \<le> len s + i)"
    using assms by (auto simp: editing_def)
  show "edit_loop i n command s = edit_loop (i + 1) n command s" if "plain_char c"
    using r plain_char_cases [OF that] by (subst edit_loop.simps) (auto simp: c Let_def)
  have n: "n - (i + 1) = int (length rx)"
    using assms(3) by simp
  show "edit_loop i n command s =
      edit_loop 0 (int (length rx)) (int (length d + length p) + 1)
        ((shell_return (int (length d + length p)) command s)\<lparr>len := int (length d + length p) + 1\<rparr>)" if "c = 13"
    using r that c unfolding assms(2) [symmetric] by (subst edit_loop.simps) (simp add: Let_def n)
qed

lemma shell_return_line:
  assumes "editing d p (13 # rx) t s"
  obtains d' where "editing d' [] rx t (shell_return (int (length d + length p)) (int (length d)) s)"
    "length d' = length d + length p + 1"
    "calls (shell_return (int (length d + length p)) (int (length d)) s) = calls s @ [line_call p]"
proof -
  have b: "(buf s)[length d + length p := 0] = d @ p @ 0 # rx @ 0 # t"
    using assms by (simp add: editing_def list_update_append)
  obtain p' where p': "prvShellCommand (d @ p @ 0 # rx @ 0 # t) (length d) = (d @ p' @ 0 # rx @ 0 # t, line_call p)"
    "length p' = length p"
    using ShellCommand_spec [of p "0 # rx @ 0 # t" d] assms by (auto simp: editing_def)
  show ?thesis
    using that [of "d @ p' @ [0]"] assms p'
    by (simp add: shell_return_def b editing_def Let_def nat_int_add)
qed

lemma edit_loop_lines:
  assumes "editing d p rx t s" "len s + i = int (length d + length p)" "n - i = int (length rx)"
    "\<forall>c \<in> set rx. c = 13 \<or> plain_char c"
  obtains s' n' d' where "edit_loop i n (int (length d)) s = Some (s', n', int (length d'))"
    "editing d' (snd (lines_from p rx)) [] t s'"
    "len s' + n' = int (length d' + length (snd (lines_from p rx)))"
    "length d' + length (snd (lines_from p rx)) = length d + length p + length rx"
    "calls s' = calls s @ map line_call (fst (lines_from p rx))"
  using assms
proof (induction rx arbitrary: d p s i n thesis)
  case Nil
  have "edit_loop i n (int (length d)) s = Some (s, n, int (length d))"
    using Nil.prems(4) by (subst edit_loop.simps) simp
  then show ?case
    using Nil.prems by (intro Nil.prems(1) [of s n d]) auto
next
  case (Cons c rx)
  note step = edit_loop_step [OF Cons.prems(2-4), of "int (length d)"]
  show ?case
  proof (cases "c = 13")
    case True
    obtain d' where d': "editing d' [] rx t (shell_return (int (length d + length p)) (int (length d)) s)"
      "length d' = length d + length p + 1"
      "calls (shell_return (int (length d + length p)) (int (length d)) s) = calls s @ [line_call p]"
      using shell_return_line [of d p rx t s] Cons.prems(2) True by blast
    let ?s = "(shell_return (int (length d + length p)) (int (length d)) s)\<lparr>len := int (length d + length p) + 1\<rparr>"
    have e: "editing d' [] rx t ?s" "len ?s + 0 = int (length d' + length ([] :: u8 list))"
      "int (length rx) - 0 = int (length rx)" "\<forall>c \<in> set rx. c = 13 \<or> plain_char c"
      using d' Cons.prems(5) by (simp_all add: editing_def)
    obtain s' n' d'' where r: "edit_loop 0 (int (length rx)) (int (length d')) ?s = Some (s', n', int (length d''))"
      "editing d'' (snd (lines_from [] rx)) [] t s'"
      "len s' + n' = int (length d'' + length (snd (lines_from [] rx)))"
      "length d'' + length (snd (lines_from [] rx)) = length d' + length ([] :: u8 list) + length rx"
      "calls s' = calls ?s @ map line_call (fst (lines_from [] rx))"
      using Cons.IH [OF _ e] by blast
    have "edit_loop i n (int (length d)) s = Some (s', n', int (length d''))"
      using step(2) [OF True] r(1) d'(2) by (simp add: add.commute)
    then show ?thesis
      using r(2-) d' True by (intro Cons.prems(1) [of s' n' d'']) (simp_all add: case_prod_beta)
  next
    case False
    then have pc: "plain_char c"
      using Cons.prems(5) by auto
    have e: "editing d (p @ [c]) rx t s" "len s + (i + 1) = int (length d + length (p @ [c]))"
      "n - (i + 1) = int (length rx)" "\<forall>c \<in> set rx. c = 13 \<or> plain_char c"
      using Cons.prems(2-) plain_char_cases(5) [OF pc] by (auto simp: editing_def)
    obtain s' n' d'' where r: "edit_loop (i + 1) n (int (length d)) s = Some (s', n', int (length d''))"
      "editing d'' (snd (lines_from (p @ [c]) rx)) [] t s'"
      "len s' + n' = int (length d'' + length (snd (lines_from (p @ [c]) rx)))"
      "length d'' + length (snd (lines_from (p @ [c]) rx)) = length d + length (p @ [c]) + length rx"
      "calls s' = calls s @ map line_call (fst (lines_from (p @ [c]) rx))"
      using Cons.IH [OF _ e] by blast
    then show ?thesis
      using step(1) [OF pc] False by (intro Cons.prems(1) [of s' n' d'']) simp_all
  qed
qed

text \<open>Between two turns: the line typed so far is at the start of the buffer.\<close>

definition typed :: "u8 list \<Rightarrow> shell \<Rightarrow> bool" where
  "typed p s \<longleftrightarrow> length (buf s) = sizeof_buf \<and> len s = int (length p) \<and> take (length p) (buf s) = p \<and>
     \<not> overflow s \<and> \<not> nonprintable s \<and> 0 \<notin> set p"

lemma typed_start: "typed [] shell_start"
  by (simp add: typed_def shell_start_def)

lemma shell_turn_lines:
  assumes "typed p s" "length p + length rx < sizeof_buf" "\<forall>c \<in> set rx. c = 13 \<or> plain_char c"
    "length (snd (lines_from p rx)) < sizeof_buf - 1"
  obtains s' where "shell_turn rx s = Some s'" "typed (snd (lines_from p rx)) s'"
    "calls s' = calls s @ map line_call (fst (lines_from p rx))"
proof (cases "rx = []")
  case True
  then show ?thesis
    using that [of s] assms(1) by (simp add: shell_turn_def)
next
  case False
  let ?r = "snd (lines_from p rx)"
  define t where "t = drop (length p + length rx + 1) (buf s)"
  let ?b = "(take (length p) (buf s) @ rx @ drop (length p + length rx) (buf s))[length p + length rx := 0]"
  have b: "?b = p @ rx @ 0 # t"
  proof -
    have "drop (length p + length rx) (buf s) = buf s ! (length p + length rx) # t"
      using assms(1,2) by (simp add: t_def typed_def Cons_nth_drop_Suc)
    then show ?thesis
      using assms(1) by (simp add: typed_def list_update_append)
  qed
  let ?s = "s\<lparr>buf := p @ rx @ 0 # t\<rparr>"
  have "editing [] p rx t ?s" "len ?s + 0 = int (length ([] :: u8 list) + length p)" "int (length rx) - 0 = int (length rx)"
    using assms(1) by (simp_all add: editing_def typed_def)
  then obtain s' n' d' where r: "edit_loop 0 (int (length rx)) 0 ?s = Some (s', n', int (length d'))"
    "editing d' ?r [] t s'" "len s' + n' = int (length d' + length ?r)"
    "length d' + length ?r = length p + length rx" "calls s' = calls s @ map line_call (fst (lines_from p rx))"
    using edit_loop_lines [of "[]" p rx t ?s 0 "int (length rx)"] assms(3) by auto
  have mv: "byte_move (buf s') 0 (int (length d')) (int (length ?r)) = Some (?r @ drop (length ?r) (buf s'))"
    using r(2) by (simp add: byte_move_def editing_def)
  have nl: "nat (len s) = length p"
    using assms(1) by (simp add: typed_def)
  have nov: "\<not> (int (length d') = 0 \<and> int (length d' + length ?r) = int sizeof_buf - 1)"
    using assms(4) by auto
  have fl: "\<not> overflow s'" "\<not> nonprintable s'"
    using r(2) by (simp_all add: editing_def)
  have len_s': "length (buf s') = sizeof_buf"
    using r(2,4) assms(1,2) by (simp add: editing_def t_def typed_def)
  let ?s' = "s'\<lparr>len := int (length ?r), buf := ?r @ drop (length ?r) (buf s')\<rparr>"
  have "shell_turn rx s = Some ?s'"
    using False r(1) fl nov mv unfolding shell_turn_def Let_def nl b by (auto simp: r(3))
  then show ?thesis
    using that [of ?s'] r(2,5) len_s' by (auto simp: typed_def editing_def)
qed

lemma lines_from_partial:
  "lines_from p xs = (ls, r) \<Longrightarrow> length p \<le> length (hd (ls @ [r]))"
proof (induction p xs arbitrary: ls r rule: lines_from.induct)
  case (2 p c cs)
  then show ?case
    by (cases "c = 13") (fastforce split: prod.splits)+
qed simp

text \<open>No line is longer than the buffer allows.\<close>

definition lines_fit :: "u8 list \<Rightarrow> bool" where
  "lines_fit stream \<longleftrightarrow>
     (\<forall>l \<in> set (fst (lines_from [] stream) @ [snd (lines_from [] stream)]). length l < sizeof_buf - 1)"

lemma lines_fit_prefix:
  assumes "lines_fit (xs @ ys)"
  shows "length (snd (lines_from [] xs)) < sizeof_buf - 1"
proof -
  obtain l r l' r' where lr: "lines_from [] xs = (l, r)" "lines_from r ys = (l', r')"
    by (metis prod.exhaust)
  have "hd (l' @ [r']) \<in> set (l @ l' @ [r'])"
    by (cases l') auto
  then have "length (hd (l' @ [r'])) < sizeof_buf - 1"
    using assms by (auto simp: lines_fit_def lines_from_append lr)
  then show ?thesis
    using lines_from_partial [OF lr(2)] by (simp add: lr)
qed

lemma ShellTask_lines:
  assumes "typed (snd (lines_from [] xs)) s" "\<forall>c \<in> set ys. c = 13 \<or> plain_char c" "lines_fit (xs @ ys)"
    "calls s = map line_call (fst (lines_from [] xs))"
  obtains zs rest s' where "prvShellTask ks ys s = Some (rest, s')" "ys = zs @ rest"
    "typed (snd (lines_from [] (xs @ zs))) s'" "calls s' = map line_call (fst (lines_from [] (xs @ zs)))"
    "min (length ys) (length (filter (\<lambda>k. 0 < k) ks)) \<le> length zs"
  using assms
proof (induction ks arbitrary: xs ys s thesis)
  case Nil
  then show ?case
    by (intro Nil.prems(1) [of ys s "[]"]) auto
next
  case (Cons k ks)
  let ?p = "snd (lines_from [] xs)"
  define n where "n = min k (nat (int sizeof_buf - 1 - len s))"
  have p: "length ?p < sizeof_buf - 1" and l: "len s = int (length ?p)"
    using lines_fit_prefix [OF Cons.prems(4)] Cons.prems(2) by (simp_all add: typed_def)
  have ap: "lines_from [] (xs @ take n ys) =
      (fst (lines_from [] xs) @ fst (lines_from ?p (take n ys)), snd (lines_from ?p (take n ys)))"
    by (simp add: lines_from_append case_prod_beta Let_def)
  have fit: "lines_fit ((xs @ take n ys) @ drop n ys)"
    using Cons.prems(4) by simp
  obtain s1 where s1: "shell_turn (take n ys) s = Some s1" "typed (snd (lines_from [] (xs @ take n ys))) s1"
    "calls s1 = map line_call (fst (lines_from [] (xs @ take n ys)))"
  proof (rule shell_turn_lines [OF Cons.prems(2), of "take n ys"])
    show "length ?p + length (take n ys) < sizeof_buf"
      using p l by (simp add: n_def)
    show "length (snd (lines_from ?p (take n ys))) < sizeof_buf - 1"
      using lines_fit_prefix [OF fit] by (simp add: ap)
  qed (use Cons.prems ap in \<open>auto dest: in_set_takeD\<close>)
  have pl: "\<forall>c \<in> set (drop n ys). c = 13 \<or> plain_char c"
    using Cons.prems(3) by (auto dest: in_set_dropD)
  obtain zs rest s' where r: "prvShellTask ks (drop n ys) s1 = Some (rest, s')" "drop n ys = zs @ rest"
    "typed (snd (lines_from [] ((xs @ take n ys) @ zs))) s'"
    "calls s' = map line_call (fst (lines_from [] ((xs @ take n ys) @ zs)))"
    "min (length (drop n ys)) (length (filter (\<lambda>k. 0 < k) ks)) \<le> length zs"
    using Cons.IH [OF _ s1(2) pl fit s1(3)] by blast
  show ?case
  proof (rule Cons.prems(1) [of rest s' "take n ys @ zs"])
    show "prvShellTask (k # ks) ys s = Some (rest, s')"
      using s1(1) r(1) by (simp add: n_def)
    show "ys = (take n ys @ zs) @ rest"
      using append_take_drop_id [of n ys] r(2) by simp
    have "0 < k \<Longrightarrow> 0 < n"
      using p l by (simp add: n_def)
    then show "min (length ys) (length (filter (\<lambda>k. 0 < k) (k # ks))) \<le> length (take n ys @ zs)"
      using r(5) by auto
  qed (use r(3,4) in simp_all)
qed

text \<open>
  C11.  \<^verbatim>\<open>prvShellCommand\<close> splits the line in place at blanks and tabs: a line of at most 16 words becomes
  a call of the named command with exactly the words of the line, or the unknown-command error; a
  blank line does nothing and a line of more than 16 words is refused.  The bytes before and behind
  the line stay as they are.
\<close>

theorem shell_splits_words:
  assumes "0 \<notin> set line"
  shows "snd (prvShellCommand (pre @ line @ 0 # tail) (length pre)) =
      (let ws = words line in
       if length ws > 16 then TooLong
       else if ws = [] then NoCommand
       else case map_of xShellCommands (hd ws) of None \<Rightarrow> Unknown (hd ws) | Some c \<Rightarrow> Call c ws) \<and>
    (\<exists>line'. fst (prvShellCommand (pre @ line @ 0 # tail) (length pre)) = pre @ line' @ 0 # tail \<and>
      length line' = length line)"
proof -
  obtain line' where "prvShellCommand (pre @ line @ 0 # tail) (length pre) = (pre @ line' @ 0 # tail, line_call line)"
    "length line' = length line"
    using ShellCommand_spec [OF assms, of "0 # tail" pre] by auto
  then show ?thesis
    by (simp add: line_call_def)
qed

lemma demo_line:
  "0 \<notin> set (bytes_of ''  boot 10.0.0.1  a.elf'')"
  "words (bytes_of ''  boot 10.0.0.1  a.elf'') = [bytes_of ''boot'', bytes_of ''10.0.0.1'', bytes_of ''a.elf'']"
  "map_of xShellCommands (bytes_of ''boot'') = Some Boot"
  by code_simp+

theorem shell_splits_words_witness:
  "snd (prvShellCommand ([7, 0] @ bytes_of ''  boot 10.0.0.1  a.elf'' @ [0]) 2) =
     Call Boot [bytes_of ''boot'', bytes_of ''10.0.0.1'', bytes_of ''a.elf'']"
  using shell_splits_words [OF demo_line(1), of "[7, 0]" "[]"] by (simp add: demo_line Let_def numeral_2_eq_2 del: append.simps)

text \<open>
  C5.  The line editor runs exactly the lines that are typed.  For a stream of printable characters,
  tabs and carriage returns, in lines of at most 1022 characters, whatever numbers of characters
  each call of the serial driver returns: no access leaves the buffer, the commands run so far are
  the complete lines of the part of the stream read so far, in order, the buffer holds the line
  begun after them, and every call that finds characters makes progress.
\<close>

theorem shell_runs_lines:
  assumes "\<forall>c \<in> set stream. c = 13 \<or> plain_char c" "lines_fit stream"
  shows "\<exists>rd rest s. prvShellTask ks stream shell_start = Some (rest, s) \<and> stream = rd @ rest \<and>
    calls s = map line_call (fst (lines_from [] rd)) \<and>
    len s = int (length (snd (lines_from [] rd))) \<and>
    take (nat (len s)) (buf s) = snd (lines_from [] rd) \<and>
    min (length stream) (length (filter (\<lambda>k. 0 < k) ks)) \<le> length rd"
proof -
  obtain zs rest s' where "prvShellTask ks stream shell_start = Some (rest, s')" "stream = zs @ rest"
    "typed (snd (lines_from [] ([] @ zs))) s'" "calls s' = map line_call (fst (lines_from [] ([] @ zs)))"
    "min (length stream) (length (filter (\<lambda>k. 0 < k) ks)) \<le> length zs"
  proof (rule ShellTask_lines [of "[]" shell_start stream ks])
    show "typed (snd (lines_from [] [])) shell_start"
      by (simp add: typed_start)
  qed (use assms in \<open>simp_all add: shell_start_def\<close>)
  then show ?thesis
    by (intro exI [of _ zs] exI [of _ rest] exI [of _ s']) (simp add: typed_def)
qed

definition demo_stream :: "u8 list" where
  "demo_stream = bytes_of ''help'' @ [13] @ bytes_of ''if''"

lemma demo_stream_lines:
  "lines_from [] demo_stream = ([bytes_of ''help''], bytes_of ''if'')"
  "\<forall>c \<in> set demo_stream. c = 13 \<or> plain_char c" "length demo_stream = 7"
  "line_call (bytes_of ''help'') = Call Help [bytes_of ''help'']"
  by code_simp+

theorem shell_runs_lines_witness:
  "\<exists>s. prvShellTask [3, 0, 1, 1, 1, 2, 1, 9] demo_stream shell_start = Some ([], s) \<and>
     calls s = [Call Help [bytes_of ''help'']] \<and> take (nat (len s)) (buf s) = bytes_of ''if''"
proof -
  have "lines_fit demo_stream"
    by (simp add: lines_fit_def demo_stream_lines bytes_of_def)
  from shell_runs_lines [OF demo_stream_lines(2) this, of "[3, 0, 1, 1, 1, 2, 1, 9]"] obtain rd rest s where
    r: "prvShellTask [3, 0, 1, 1, 1, 2, 1, 9] demo_stream shell_start = Some (rest, s)" "demo_stream = rd @ rest"
    "calls s = map line_call (fst (lines_from [] rd))" "take (nat (len s)) (buf s) = snd (lines_from [] rd)"
    "7 \<le> length rd"
    by (auto simp: demo_stream_lines)
  moreover have "rest = []"
    using r(2,5) demo_stream_lines(3) by (metis add_le_same_cancel1 le_zero_eq length_0_conv length_append order_trans add_le_mono1)
  ultimately show ?thesis
    by (auto simp: demo_stream_lines)
qed

subsection \<open>Backspace\<close>

lemma edit_loop_plain:
  assumes "editing d p (q @ rx) t s" "len s + i = int (length d + length p)" "n - i = int (length (q @ rx))"
    "\<forall>c \<in> set q. plain_char c"
  shows "edit_loop i n command s = edit_loop (i + int (length q)) n command s"
  using assms
proof (induction q arbitrary: p i)
  case (Cons c q)
  have "editing d (p @ [c]) (q @ rx) t s"
    using Cons.prems(1,4) plain_char_cases(5) [of c] by (auto simp: editing_def)
  moreover have "edit_loop i n command s = edit_loop (i + 1) n command s"
    using edit_loop_step(1) [of d p c "q @ rx" t s i n command] Cons.prems by simp
  ultimately show ?case
    using Cons.IH [of "p @ [c]" "i + 1"] Cons.prems by (simp add: add.assoc)
qed simp

lemma backspace_alone:
  assumes "typed p s" "p \<noteq> []" "length p < sizeof_buf - 2"
  shows "\<exists>s'. shell_turn [8] s = Some s' \<and> typed (butlast p) s' \<and> calls s' = calls s"
proof -
  let ?b = "(take (length p) (buf s) @ [8] @ drop (length p + 1) (buf s))[length p + 1 := 0]"
  let ?l = "int (length p)"
  have s: "length (buf s) = 1024" "take (length p) (buf s) = p" "len s = ?l" "\<not> overflow s" "\<not> nonprintable s" "0 \<notin> set p"
    using assms(1) by (simp_all add: typed_def)
  obtain t where b: "?b = p @ 8 # t" "length t = 1023 - length p"
    using s(1) assms(3) by (simp add: s(2) list_update_append split: nat.splits)
  define b' where "b' = p @ take 1 (drop 1 t) @ drop 1 (8 # t)"
  have mv: "byte_move (p @ 8 # t) ?l (?l + 2) 1 = Some b'"
    using assms(3) b(2) by (simp add: byte_move_def b'_def nat_add_distrib)
  define s1 where "s1 = s\<lparr>buf := p @ 8 # t\<rparr>"
  have s1: "buf s1 = p @ 8 # t" "len s1 = ?l"
    by (simp_all add: s1_def s(3))
  have "edit_loop 0 1 0 s1 = edit_loop (- 1) (- 1) 0 (s1\<lparr>buf := b'\<rparr>)"
    using assms(2) mv by (subst edit_loop.simps) (simp add: s1 Let_def)
  also have "\<dots> = Some (s1\<lparr>buf := b'\<rparr>, - 1, 0)"
    by (subst edit_loop.simps) simp
  finally have e: "edit_loop 0 1 0 s1 = Some (s1\<lparr>buf := b'\<rparr>, - 1, 0)" .
  have len_b': "length b' = 1024"
    using b(2) assms(3) by (simp add: b'_def)
  have mv0: "byte_move b' 0 0 (?l - 1) = Some b'"
    using len_b' assms(2,3) by (cases p) (simp_all add: byte_move_def)
  have "shell_turn [8] s = Some (s1\<lparr>buf := b', len := ?l - 1\<rparr>)"
    using e mv0 assms(3) b(1) s unfolding shell_turn_def Let_def by (simp add: s1_def)
  moreover have "take (length p - 1) b' = butlast p"
    by (simp add: b'_def butlast_conv_take)
  ultimately show ?thesis
    using assms(2) s len_b' by (cases p) (auto simp: typed_def s1_def dest: in_set_butlastD)
qed

lemma backspace_in_chunk:
  assumes "typed [] s" "q \<noteq> []" "\<forall>c \<in> set q. plain_char c" "length q < sizeof_buf - 4"
  shows "\<exists>s'. shell_turn (q @ [8, c]) s = Some s' \<and> typed q s' \<and> calls s' = calls s"
proof -
  let ?l = "int (length q)"
  have s: "length (buf s) = 1024" "len s = 0" "\<not> overflow s" "\<not> nonprintable s"
    using assms(1) by (simp_all add: typed_def)
  have q0: "0 \<notin> set q"
    using assms(3) plain_char_cases(5) by blast
  define t where "t = drop (Suc (length q + 2)) (buf s)"
  have "drop (length q + 2) (buf s) = buf s ! (length q + 2) # t"
    unfolding t_def using s(1) assms(4) by (intro Cons_nth_drop_Suc [symmetric]) simp
  then have b: "(q @ 8 # c # drop (length q + 2) (buf s))[length q + 2 := 0] = q @ 8 # c # 0 # t"
    by (simp add: list_update_append)
  define s1 where "s1 = s\<lparr>buf := q @ 8 # c # 0 # t\<rparr>"
  define b' where "b' = q @ (0 # take 1 t) @ (0 # t)"
  have t: "length t = 1021 - length q" "t \<noteq> []"
    using s(1) assms(4) by (auto simp: t_def)
  have mv: "byte_move (q @ 8 # c # 0 # t) ?l (?l + 2) 2 = Some b'"
    using assms(4) t by (cases t) (simp_all add: byte_move_def b'_def nat_add_distrib)
  have e1: "editing [] [] (q @ [8, c]) t s1" "len s1 = 0" "buf s1 = q @ 8 # c # 0 # t"
    using s by (simp_all add: editing_def s1_def)
  have "edit_loop 0 (?l + 2) 0 s1 = edit_loop ?l (?l + 2) 0 s1"
    using edit_loop_plain [OF e1(1), of 0 "?l + 2" 0] assms(3) e1(2) by simp
  also have "\<dots> = edit_loop (?l - 1) ?l 0 (s1\<lparr>buf := b'\<rparr>)"
    using assms(2) mv by (subst edit_loop.simps) (simp add: e1 Let_def nth_append)
  also have "\<dots> = edit_loop ?l ?l 0 (s1\<lparr>buf := b'\<rparr>)"
  proof -
    have "editing [] (butlast q) ([last q] @ []) (take 1 t @ 0 # t) (s1\<lparr>buf := b'\<rparr>)"
      using assms(2) s q0 by (auto simp: editing_def s1_def b'_def dest: in_set_butlastD)
    moreover have "int (length (butlast q)) = ?l - 1" "plain_char (last q)"
      using assms(2,3) by (cases q; simp)+
    ultimately show ?thesis
      using edit_loop_plain [of "[]" "butlast q" "[last q]" "[]" _ "s1\<lparr>buf := b'\<rparr>" "?l - 1" ?l 0] e1(2) by auto
  qed
  also have "\<dots> = Some (s1\<lparr>buf := b'\<rparr>, ?l, 0)"
    by (subst edit_loop.simps) simp
  finally have e: "edit_loop 0 (?l + 2) 0 s1 = Some (s1\<lparr>buf := b'\<rparr>, ?l, 0)" .
  have len_b': "length b' = 1024" "take (length q) b' = q"
    using t assms(4) by (cases t; simp add: b'_def)+
  have mv0: "byte_move b' 0 0 ?l = Some b'"
    using len_b' assms(4) append_take_drop_id [of "length q" b'] by (simp add: byte_move_def)
  have "shell_turn (q @ [8, c]) s = Some (s1\<lparr>buf := b', len := ?l\<rparr>)"
    using e [unfolded add.commute [of ?l 2]] mv0 assms(4) b s unfolding shell_turn_def Let_def by (simp add: s1_def)
  then show ?thesis
    using s len_b' q0 by (auto simp: typed_def s1_def)
qed

text \<open>
  The backspace key.  A backspace that arrives alone removes the last character of the line.
  A backspace that arrives in the same chunk as the text around it removes the character behind it
  instead and leaves the text before it as it was.
\<close>

theorem shell_backspace:
  assumes "typed p s" "p \<noteq> []" "length p < sizeof_buf - 4" "\<forall>c \<in> set p. plain_char c" "typed [] s0"
  shows "(\<exists>s'. shell_turn [8] s = Some s' \<and> typed (butlast p) s' \<and> calls s' = calls s) \<and>
    (\<exists>s'. shell_turn (p @ [8, c]) s0 = Some s' \<and> typed p s' \<and> calls s' = calls s0)"
  using backspace_alone [OF assms(1,2)] backspace_in_chunk [OF assms(5,2,4,3)] assms(3) by simp

theorem shell_backspace_witness:
  "\<exists>s'. shell_turn [104, 105, 8, 111] shell_start = Some s' \<and> typed [104, 105] s' \<and> typed [104, 111] s' = False"
proof -
  have ty: "typed [104, 105] (shell_start\<lparr>buf := 104 # 105 # replicate 1022 0, len := 2\<rparr>)"
    by (simp add: typed_def shell_start_def)
  have "\<forall>c \<in> set [104, 105 :: u8]. plain_char c"
    by (simp add: plain_char_def)
  from shell_backspace [OF ty _ _ this typed_start, of 111] obtain s' where
    "shell_turn [104, 105, 8, 111] shell_start = Some s'" "typed [104, 105] s'"
    by auto
  then show ?thesis
    by (intro exI [of _ s']) (auto simp: typed_def)
qed

subsection \<open>The boot command\<close>

lemma strtoul10_digits:
  assumes "ds \<noteq> []" "\<forall>c \<in> set ds. 48 \<le> c \<and> c \<le> 57" "dec_digits 0 ds < 2 ^ 32"
  shows "strtoul10 ds = (of_nat (dec_digits 0 ds), False)"
proof -
  obtain c cs where ds: "ds = c # cs" "48 \<le> c" "c \<le> 57"
    using assms(1,2) by (cases ds) auto
  then have "48 \<le> unat c" "unat c \<le> 57"
    by (simp_all add: word_le_nat_alt)
  then have "dropWhile (\<lambda>c. c = 32 \<or> 9 \<le> c \<and> c \<le> 13) ds = ds" "hd ds \<noteq> 45" "hd ds \<noteq> 43"
    unfolding ds(1) by (auto simp: word_le_nat_alt)
  then show ?thesis
    using assms(3) by (simp add: strtoul10_def Let_def)
qed

text \<open>The command line \<^verbatim>\<open>boot [-h] [-p <port>] <host> <file> [file]\<close>.\<close>

definition boot_line :: "bool \<Rightarrow> u8 list option \<Rightarrow> u8 list \<Rightarrow> u8 list list \<Rightarrow> u8 list list" where
  "boot_line hlt port host files =
     bytes_of ''boot'' # (if hlt then [bytes_of ''-h''] else []) @
     (case port of None \<Rightarrow> [] | Some p \<Rightarrow> [bytes_of ''-p'', p]) @ host # files"

lemma flags_differ: "bytes_of ''-p'' \<noteq> bytes_of ''-h''" "bytes_of ''-h'' \<noteq> bytes_of ''-p''"
  by code_simp+

definition port_of :: "u8 list option \<Rightarrow> nat" where
  "port_of port = (case port of None \<Rightarrow> 69 | Some p \<Rightarrow> dec_digits 0 p)"

definition port_ok :: "u8 list option \<Rightarrow> bool" where
  "port_ok port \<longleftrightarrow>
     (case port of None \<Rightarrow> True
      | Some p \<Rightarrow> p \<noteq> [] \<and> (\<forall>c \<in> set p. 48 \<le> c \<and> c \<le> 57) \<and> dec_digits 0 p < 2 ^ 32)"

lemma word_port: "v < 2 ^ 32 \<Longrightarrow> (0xffff :: u32) < of_nat v \<longleftrightarrow> 65535 < v"
  by (simp add: word_less_nat_alt unat_of_nat_small)

lemma ucast_port: "v < 2 ^ 32 \<Longrightarrow> ucast (of_nat v :: u32) = (of_nat v :: u16)"
  by (rule bit_word_eqI) (simp add: bit_simps)

lemma boot_args_None:
  assumes "host \<noteq> bytes_of ''-h''" "host \<noteq> bytes_of ''-p''"
  shows "boot_args N (boot_line hlt None host files) =
    (if files = [] then Inl TooFew else if 2 < length files then Inl TooMany else Inr (hlt, 69, host, files))"
  using assms flags_differ by (cases files; cases hlt) (simp_all add: boot_args_def boot_line_def)

lemma boot_args_Some:
  assumes "strtoul10 p = (of_nat v, False)" "v < 2 ^ 32" "host \<noteq> bytes_of ''-h''" "host \<noteq> bytes_of ''-p''"
  shows "boot_args N (boot_line hlt (Some p) host files) =
    (if 65535 < v then Inl PortRange
     else if files = [] then Inl TooFew
     else if 2 < length files then Inl TooMany
     else Inr (hlt, of_nat v, host, files))"
  using assms(3,4) flags_differ
  by (cases files; cases hlt) (simp_all add: boot_args_def boot_line_def assms(1) word_port [OF assms(2)] ucast_port [OF assms(2)] Let_def)

lemma boot_args_line:
  assumes "port_ok port" "host \<noteq> bytes_of ''-h''" "host \<noteq> bytes_of ''-p''"
  shows "boot_args N (boot_line hlt port host files) =
    (if 65535 < port_of port then Inl PortRange
     else if files = [] then Inl TooFew
     else if 2 < length files then Inl TooMany
     else Inr (hlt, of_nat (port_of port), host, files))"
proof (cases port)
  case None
  then show ?thesis
    using boot_args_None [OF assms(2,3)] by (simp add: port_of_def)
next
  case (Some p)
  then show ?thesis
    using assms strtoul10_digits [of p] boot_args_Some [of p "dec_digits 0 p" host] by (simp add: port_ok_def port_of_def)
qed

lemma staging_next:
  assumes "unat sz < 2 ^ 28"
  defines "b \<equiv> (STAGING_ADDR :: u32) + (sz + (- sz) mod 16)"
  shows "b mod 16 = 0" "unat (STAGING_ADDR :: u32) + unat sz \<le> unat b" "unat b < unat (STAGING_ADDR :: u32) + unat sz + 16"
proof -
  have m: "unat (- sz) mod 16 = (2 ^ 32 - unat sz) mod 16" (is "_ = ?m")
  proof (cases "sz = 0")
    case False
    have "unat (0 - sz) = 2 ^ 32 - unat sz"
      using False unfolding unat_sub_if_size by (auto simp: word_size unat_gt_0)
    then show ?thesis
      by simp
  qed simp
  define M where "M = ?m"
  have um: "unat ((- sz) mod 16) = M" and lt: "M < 16"
    unfolding unat_mod M_def m [symmetric] by simp_all
  have sum: "unat (sz + (- sz) mod 16) = unat sz + M"
    using assms(1) lt unat_add_lem [of sz "(- sz) mod 16"] by (simp add: um)
  have b: "unat b = 0xE0000000 + (unat sz + M)"
    using assms(1) lt unat_add_lem [of "0xE0000000" "sz + (- sz) mod 16"] unfolding b_def by (simp add: sum)
  then show "unat (STAGING_ADDR :: u32) + unat sz \<le> unat b" "unat b < unat (STAGING_ADDR :: u32) + unat sz + 16"
    using lt by simp_all
  have "(0xE0000000 + (unat sz + M)) mod 16 = 0"
  proof -
    have "(unat sz + M) mod 16 = (unat sz + (2 ^ 32 - unat sz)) mod 16"
      unfolding M_def by (rule mod_add_right_eq)
    then have "(unat sz + M) mod 16 = 0"
      using assms(1) by simp
    then show ?thesis
      using mod_add_right_eq [of "0xE0000000" "unat sz + M" "16 :: nat"] by simp
  qed
  then have "unat (b mod 16) = 0"
    unfolding unat_mod b by simp
  then show "b mod 16 = 0"
    by (simp add: unat_eq_0)
qed

text \<open>
   The arguments of the boot command, \<^verbatim>\<open>boot [-h] [-p <port>] <host> <file> [file]\<close>: for every
  combination of the options with a numeric port, the port defaults to 69, a port above 65535, a
  missing file and a third file are refused without any network traffic, and in all other cases the
  files are requested from the host at exactly that port.
\<close>

theorem boot_arguments:
  assumes "port_ok port" "host \<noteq> bytes_of ''-h''" "host \<noteq> bytes_of ''-p''"
  shows "prvShellCommandBoot N ts (boot_line hlt port host files) rss io =
    (if 65535 < port_of port then (PortRange, io)
     else if files = [] then (TooFew, io)
     else if 2 < length files then (TooMany, io)
     else case fetch_files N (string_of host) (of_nat (port_of port)) files STAGING_ADDR [] rss io of
            (Inl e, io) \<Rightarrow> (e, io)
          | (Inr bufs, io) \<Rightarrow> (Loading (prvLoadAndBoot ts (mem io) bufs hlt), io))"
  unfolding prvShellCommandBoot_def boot_args_line [OF assms] by simp

theorem boot_arguments_witness:
  "prvShellCommandBoot demo_net 200 (boot_line True (Some (bytes_of ''70000'')) (bytes_of ''10.0.0.1'') [bytes_of ''a''])
     [] demo_io = (PortRange, demo_io)"
proof -
  have "bytes_of ''70000'' = [55, 48, 48, 48, 48]"
    by code_simp
  then have p: "port_ok (Some (bytes_of ''70000''))" "65535 < port_of (Some (bytes_of ''70000''))"
    by (simp_all add: port_ok_def port_of_def)
  have h: "bytes_of ''10.0.0.1'' \<noteq> bytes_of ''-h''" "bytes_of ''10.0.0.1'' \<noteq> bytes_of ''-p''"
    by code_simp+
  show ?thesis
    unfolding boot_arguments [OF p(1) h] by (simp only: p(2) if_True)
qed

text \<open>
  C15.  Two files are staged one behind the other: when both transfers succeed, the loader gets the
  first at \<^verbatim>\<open>STAGING_ADDR\<close> and the second at the next multiple of 16 behind the last byte of the
  first, and the memory in which both transfers have stored their data.
\<close>

theorem boot_stages_files:
  assumes "port_ok port" "port_of port \<le> 65535" "host \<noteq> bytes_of ''-h''" "host \<noteq> bytes_of ''-p''"
    and "prvTftpReceive N (string_of host) (of_nat (port_of port)) (string_of f) STAGING_ADDR rs io =
           (Return 0 (Some sz), io1)"
    and "unat sz < 2 ^ 28" "b = STAGING_ADDR + (sz + (- sz) mod 16)"
    and "prvTftpReceive N (string_of host) (of_nat (port_of port)) (string_of g) b rs' io1 =
           (Return 0 (Some sz'), io2)"
  shows "prvShellCommandBoot N ts (boot_line hlt port host [f, g]) [rs, rs'] io =
      (Loading (prvLoadAndBoot ts (mem io2) [STAGING_ADDR, b] hlt), io2) \<and>
    b mod 16 = 0 \<and> unat (STAGING_ADDR :: u32) + unat sz \<le> unat b \<and> unat b < unat (STAGING_ADDR :: u32) + unat sz + 16"
proof -
  have "fetch_files N (string_of host) (of_nat (port_of port)) [f, g] STAGING_ADDR [] [rs, rs'] io = (Inr [STAGING_ADDR, b], io2)"
    using assms(5,7,8) by simp
  then show ?thesis
    using assms(2) staging_next [OF assms(6)] unfolding prvShellCommandBoot_def boot_args_line [OF assms(1,3,4)] assms(7)
    by simp
qed

definition demo_packets :: "u8 list \<Rightarrow> recv_result list" where
  "demo_packets F = Packet 0x0A000001 99 demo_oack [] #
     map (\<lambda>i. Packet 0x0A000001 99 (data_bytes demo_net F 8 i) []) [0..<Suc (length F div 8)]"

lemma demo_transfer:
  assumes "fits a (length F)"
  shows "\<exists>io'. prvTftpReceive demo_net host port name a (demo_packets F) io = (Return 0 (Some (of_nat (length F))), io')"
  using in_order_run [OF demo_net_ok _ _ demo_oack_parses assms refl refl, of host port name 99 io]
  by (auto simp: demo_net_def demo_packets_def)

theorem boot_stages_files_witness:
  "\<exists>io'. prvShellCommandBoot demo_net 200 (boot_line False None (bytes_of ''10.0.0.1'') [bytes_of ''a'', bytes_of ''b''])
     [demo_packets (replicate 20 7), demo_packets [1, 2, 3]] demo_io =
     (Loading (prvLoadAndBoot 200 (mem io') [0xE0000000, 0xE0000020] False), io')"
proof -
  have h: "bytes_of ''10.0.0.1'' \<noteq> bytes_of ''-h''" "bytes_of ''10.0.0.1'' \<noteq> bytes_of ''-p''"
    by code_simp+
  obtain io1 where t1: "prvTftpReceive demo_net (string_of (bytes_of ''10.0.0.1'')) (of_nat (port_of None))
      (string_of (bytes_of ''a'')) 0xE0000000 (demo_packets (replicate 20 7)) demo_io = (Return 0 (Some 20), io1)"
    using demo_transfer [of "0xE0000000" "replicate 20 7"] by (fastforce simp: fits_def)
  obtain io2 where t2: "prvTftpReceive demo_net (string_of (bytes_of ''10.0.0.1'')) (of_nat (port_of None))
      (string_of (bytes_of ''b'')) 0xE0000020 (demo_packets [1, 2, 3]) io1 = (Return 0 (Some 3), io2)"
    using demo_transfer [of "0xE0000020" "[1, 2, 3]"] by (fastforce simp: fits_def)
  have "(0xE0000020 :: u32) = 0xE0000000 + (20 + (- 20) mod 16)"
    by code_simp
  from boot_stages_files [OF _ _ h t1 _ this t2] show ?thesis
    by (auto simp: port_ok_def port_of_def)
qed

end
