(* ===== verification/Rtos.thy ===== *)
theory Rtos
  imports Prelude
begin

section \<open>The services of the FreeRTOS kernel\<close>

text \<open>
  The kernel is not part of this repository.  What the drivers use of it is a record of
  parameters over an arbitrary kernel state: creating (the handle may be null), taking and giving
  the driver's mutex
  (\<^verbatim>\<open>xSemaphoreTake\<close> with \<^verbatim>\<open>portMAX_DELAY\<close>, \<^verbatim>\<open>xSemaphoreGive\<close>), notifying the waiting task from an
  interrupt handler (\<^verbatim>\<open>vTaskNotifyGiveFromISR\<close>), and taking a pending notification, which is what
  \<^verbatim>\<open>xTaskNotifyWait(0, 0, NULL, delay)\<close> does as soon as there is one.

  \<open>kernel_ok\<close> states their documented behaviour: a mutex that is given can be taken again, a
  notification is pending until it is taken, and the two do not interfere.  A mutex that cannot be
  taken blocks the caller.

  The locale \<open>balanced_op\<close> is the contract of the blocking driver operations: whenever one returns,
  the driver's mutex is free again.  A sequence of such operations never blocks on the mutex.
\<close>

record 'k kernel =
  SemaphoreCreateMutex :: "'k \<Rightarrow> bool \<times> 'k"
  SemaphoreTake :: "'k \<Rightarrow> 'k option"
  SemaphoreGive :: "'k \<Rightarrow> 'k"
  NotifyGive :: "'k \<Rightarrow> 'k"
  NotifyTake :: "'k \<Rightarrow> 'k option"

definition unlocked :: "'k kernel \<Rightarrow> 'k \<Rightarrow> bool" where
  "unlocked K k \<longleftrightarrow> SemaphoreTake K k \<noteq> None"

definition pending :: "'k kernel \<Rightarrow> 'k \<Rightarrow> bool" where
  "pending K k \<longleftrightarrow> NotifyTake K k \<noteq> None"

definition kernel_ok :: "'k kernel \<Rightarrow> bool" where
  "kernel_ok K \<longleftrightarrow>
     (\<forall>k k'. SemaphoreCreateMutex K k = (True, k') \<longrightarrow> unlocked K k') \<and>
     (\<forall>k. unlocked K (SemaphoreGive K k)) \<and>
     (\<forall>k. pending K (SemaphoreGive K k) = pending K k) \<and>
     (\<forall>k k'. SemaphoreTake K k = Some k' \<longrightarrow> \<not> unlocked K k' \<and> pending K k' = pending K k) \<and>
     (\<forall>k. pending K (NotifyGive K k) \<and> unlocked K (NotifyGive K k) = unlocked K k) \<and>
     (\<forall>k k'. NotifyTake K k = Some k' \<longrightarrow> \<not> pending K k' \<and> unlocked K k' = unlocked K k)"

lemma unlocked_Give [simp]: "kernel_ok K \<Longrightarrow> unlocked K (SemaphoreGive K k)"
  unfolding kernel_ok_def by blast

lemma pending_Give [simp]: "kernel_ok K \<Longrightarrow> pending K (SemaphoreGive K k) = pending K k"
  unfolding kernel_ok_def by blast

lemma pending_NotifyGive [simp]: "kernel_ok K \<Longrightarrow> pending K (NotifyGive K k)"
  unfolding kernel_ok_def by blast

lemma unlocked_NotifyGive [simp]: "kernel_ok K \<Longrightarrow> unlocked K (NotifyGive K k) = unlocked K k"
  unfolding kernel_ok_def by blast

lemma TakeD: "kernel_ok K \<Longrightarrow> SemaphoreTake K k = Some k' \<Longrightarrow> \<not> unlocked K k' \<and> pending K k' = pending K k"
  unfolding kernel_ok_def by blast

lemma NotifyTakeD: "kernel_ok K \<Longrightarrow> NotifyTake K k = Some k' \<Longrightarrow> \<not> pending K k' \<and> unlocked K k' = unlocked K k"
  unfolding kernel_ok_def by blast

text \<open>
  The kernel of the witnesses: a flag for the mutex being held and one for the notification.
\<close>

definition demo_kernel :: "(bool \<times> bool) kernel" where
  "demo_kernel = \<lparr>SemaphoreCreateMutex = (\<lambda>(h, n). (True, False, n)),
     SemaphoreTake = (\<lambda>(h, n). if h then None else Some (True, n)),
     SemaphoreGive = (\<lambda>(h, n). (False, n)),
     NotifyGive = (\<lambda>(h, n). (h, True)),
     NotifyTake = (\<lambda>(h, n). if n then Some (h, False) else None)\<rparr>"

lemma demo_kernel_ok: "kernel_ok demo_kernel"
  by (auto simp: kernel_ok_def unlocked_def pending_def demo_kernel_def split: if_splits)

locale balanced_op =
  fixes op :: "'k kernel \<Rightarrow> 's \<Rightarrow> ('r \<times> 's) option"
    and kern :: "'s \<Rightarrow> 'k"
  assumes op_unlocks: "kernel_ok K \<Longrightarrow> op K s = Some (r, s') \<Longrightarrow> unlocked K (kern s')"
    and op_takes: "\<not> unlocked K (kern s) \<Longrightarrow> op K s = None"
begin

fun repeat_op :: "nat \<Rightarrow> 'k kernel \<Rightarrow> 's \<Rightarrow> ('r list \<times> 's) option" where
  "repeat_op 0 K s = Some ([], s)"
| "repeat_op (Suc n) K s =
     (case op K s of None \<Rightarrow> None
      | Some (r, s) \<Rightarrow> (case repeat_op n K s of None \<Rightarrow> None | Some (rs, s) \<Rightarrow> Some (r # rs, s)))"

lemma returns_unlocked: "kernel_ok K \<Longrightarrow> op K s = Some (r, s') \<Longrightarrow> unlocked K (kern s) \<and> unlocked K (kern s')"
  by (metis op_takes op_unlocks option.distinct(1))

lemma repeat_unlocked:
  "kernel_ok K \<Longrightarrow> unlocked K (kern s) \<Longrightarrow> repeat_op n K s = Some (rs, s') \<Longrightarrow>
   length rs = n \<and> unlocked K (kern s')"
  by (induction n arbitrary: s rs) (fastforce split: option.splits dest: op_unlocks)+

end

end
