(* ===== verification/Iic.thy ===== *)
theory Iic
  imports Rtos Plic
begin

section \<open>The I2C driver (bsp/iic.c)\<close>

text \<open>
  \<^verbatim>\<open>iic_transmit\<close> and \<^verbatim>\<open>iic_receive\<close> run one transaction: they take the driver's mutex, start the
  transfer and wait up to half a second for a notification from one of the three interrupt
  callbacks.

  The controller driver \<^verbatim>\<open>bsp/xilinx/iic\<close> below it is a record of parameters \<open>xiic\<close> over the state of
  the controller and the bus: the results of its calls, the callbacks that happen while the task
  waits (with the state of the controller after each) and what has been stored in the receive
  buffer.  The kernel is the record of \<open>Rtos\<close>.  A failed assertion, and waiting for a mutex that is
  not given, do not return: \<open>None\<close>.  A message is the list of its bytes; the length of the source is a
  \<^verbatim>\<open>uint8_t\<close>, so the model stands for messages of at most 255 bytes, as all callers send.
\<close>

record IicDriver =
  TotalErrorCount :: int
  Errors :: int
  trans_len :: int
  mutex :: bool
  task_handle :: bool

text \<open>\<^verbatim>\<open>mutex\<close> and \<^verbatim>\<open>task_handle\<close> tell whether the pointers are not null.\<close>

abbreviation (input) IIC_TIMEOUT :: int where "IIC_TIMEOUT \<equiv> - 1"
abbreviation (input) IIC_SLAVE_NO_ACK :: int where "IIC_SLAVE_NO_ACK \<equiv> - 2"
abbreviation (input) IIC_MASTER_SEND_ERROR :: int where "IIC_MASTER_SEND_ERROR \<equiv> - 3"
abbreviation (input) IIC_MASTER_RECV_ERROR :: int where "IIC_MASTER_RECV_ERROR \<equiv> - 4"
abbreviation (input) IIC_BUS_IS_BUSY :: int where "IIC_BUS_IS_BUSY \<equiv> - 5"

datatype iic_event = RecvEvent int | SendEvent int | StatusEvent int

record 'd xiic =
  XIic_Initialize :: "u32 \<Rightarrow> 'd \<Rightarrow> int \<times> 'd"
  XIic_SelfTest :: "'d \<Rightarrow> int \<times> 'd"
  XIic_SetHandlers :: "'d \<Rightarrow> 'd"
  XIic_Start :: "'d \<Rightarrow> 'd"
  XIic_Stop :: "'d \<Rightarrow> 'd"
  XIic_IsIicBusy :: "'d \<Rightarrow> bool"
  XIic_SetAddress :: "u8 \<Rightarrow> 'd \<Rightarrow> int \<times> 'd"
  XIic_MasterSend :: "u8 list \<Rightarrow> 'd \<Rightarrow> int \<times> 'd"
  XIic_MasterRecv :: "nat \<Rightarrow> 'd \<Rightarrow> int \<times> 'd"
  XIic_Reset :: "'d \<Rightarrow> 'd"
  Callbacks :: "'d \<Rightarrow> (iic_event \<times> 'd) list"
  RxBytes :: "'d \<Rightarrow> u8 list"

record ('d, 'k) iic =
  drv :: IicDriver
  dev :: 'd
  kern :: 'k

subsection \<open>The interrupt callbacks\<close>

definition notify_task :: "'k kernel \<Rightarrow> ('d, 'k) iic \<Rightarrow> ('d, 'k) iic option" where
  "notify_task K s = do {
     configASSERT (task_handle (drv s));
     Some (s\<lparr>kern := NotifyGive K (kern s)\<rparr>)}"

definition RecvHandler :: "'k kernel \<Rightarrow> int \<Rightarrow> ('d, 'k) iic \<Rightarrow> ('d, 'k) iic option" where
  "RecvHandler K ByteCount s = (if ByteCount \<noteq> 0 then Some s else notify_task K s)"

definition SendHandler :: "'k kernel \<Rightarrow> int \<Rightarrow> ('d, 'k) iic \<Rightarrow> ('d, 'k) iic option" where
  "SendHandler K Status s = do { configASSERT (Status = 0); notify_task K s }"

definition StatusHandler :: "'k kernel \<Rightarrow> int \<Rightarrow> ('d, 'k) iic \<Rightarrow> ('d, 'k) iic option" where
  "StatusHandler K Status s =
     notify_task K (s\<lparr>drv := (drv s)\<lparr>TotalErrorCount := TotalErrorCount (drv s) + 1, Errors := Status\<rparr>\<rparr>)"

fun run_handler :: "'k kernel \<Rightarrow> iic_event \<Rightarrow> ('d, 'k) iic \<Rightarrow> ('d, 'k) iic option" where
  "run_handler K (RecvEvent n) s = RecvHandler K n s"
| "run_handler K (SendEvent n) s = SendHandler K n s"
| "run_handler K (StatusEvent n) s = StatusHandler K n s"

text \<open>
  \<^verbatim>\<open>xTaskNotifyWait\<close>: returns true as soon as a notification is pending; until then the callbacks of the
  waiting time run one after the other; false when the time is over.
\<close>

fun wait_callbacks :: "'k kernel \<Rightarrow> (iic_event \<times> 'd) list \<Rightarrow> ('d, 'k) iic \<Rightarrow> (bool \<times> ('d, 'k) iic) option" where
  "wait_callbacks K es s =
     (case NotifyTake K (kern s) of
        Some k \<Rightarrow> Some (True, s\<lparr>kern := k\<rparr>)
      | None \<Rightarrow>
          (case es of
             [] \<Rightarrow> Some (False, s)
           | (e, d) # es \<Rightarrow>
               (case run_handler K e (s\<lparr>dev := d\<rparr>) of
                  None \<Rightarrow> None
                | Some s \<Rightarrow> wait_callbacks K es s)))"

lemmas [simp del] = wait_callbacks.simps

definition notify_wait :: "'k kernel \<Rightarrow> 'd xiic \<Rightarrow> ('d, 'k) iic \<Rightarrow> (bool \<times> ('d, 'k) iic) option" where
  "notify_wait K X s = wait_callbacks K (Callbacks X (dev s)) s"

subsection \<open>Transactions\<close>

definition take_mutex :: "'k kernel \<Rightarrow> ('d, 'k) iic \<Rightarrow> ('d, 'k) iic option" where
  "take_mutex K s = do {
     configASSERT (mutex (drv s));
     k \<leftarrow> SemaphoreTake K (kern s);
     Some (s\<lparr>kern := k\<rparr>)}"

definition give_mutex :: "'k kernel \<Rightarrow> ('d, 'k) iic \<Rightarrow> ('d, 'k) iic" where
  "give_mutex K s = s\<lparr>kern := SemaphoreGive K (kern s)\<rparr>"

text \<open>What both operations do with the result of the wait.\<close>

definition finish :: "'k kernel \<Rightarrow> 'd xiic \<Rightarrow> bool \<times> ('d, 'k) iic \<Rightarrow> int \<times> ('d, 'k) iic" where
  "finish K X = (\<lambda>(ok, s).
     let (r, s) =
       (if ok then
          if Errors (drv s) \<noteq> 0 then (IIC_SLAVE_NO_ACK, s\<lparr>drv := (drv s)\<lparr>Errors := 0\<rparr>\<rparr>)
          else (trans_len (drv s), s)
        else (IIC_TIMEOUT, s\<lparr>dev := XIic_Reset X (dev s)\<rparr>))
     in (r, give_mutex K s))"

definition iic_transmit ::
  "'k kernel \<Rightarrow> 'd xiic \<Rightarrow> u8 \<Rightarrow> u8 list \<Rightarrow> ('d, 'k) iic \<Rightarrow> (int \<times> ('d, 'k) iic) option" where
  "iic_transmit K X addr tx_data s = do {
     s \<leftarrow> take_mutex K s;
     if XIic_IsIicBusy X (dev s) then Some (IIC_BUS_IS_BUSY, give_mutex K s)
     else do {
       let (r, d) = XIic_SetAddress X addr (dev s);
       configASSERT (r = 0);
       let s = s\<lparr>drv := (drv s)\<lparr>task_handle := True, trans_len := int (length tx_data)\<rparr>\<rparr>;
       let (r, d) = XIic_MasterSend X tx_data d;
       let s = s\<lparr>dev := d\<rparr>;
       if r \<noteq> 0 then Some (IIC_MASTER_SEND_ERROR, give_mutex K s)
       else do {
         w \<leftarrow> notify_wait K X s;
         Some (finish K X w)}}}"

text \<open>
  The receive buffer \<open>rx_data\<close> is passed in with its old contents, and what the driver has stored is
  laid over it.
\<close>

definition overlay :: "u8 list \<Rightarrow> u8 list \<Rightarrow> u8 list" where
  "overlay new old = take (length old) new @ drop (length new) old"

definition iic_receive ::
  "'k kernel \<Rightarrow> 'd xiic \<Rightarrow> u8 \<Rightarrow> u8 list \<Rightarrow> ('d, 'k) iic \<Rightarrow> ((int \<times> u8 list) \<times> ('d, 'k) iic) option" where
  "iic_receive K X addr rx_data s = do {
     s \<leftarrow> take_mutex K s;
     if XIic_IsIicBusy X (dev s) then Some ((IIC_BUS_IS_BUSY, rx_data), give_mutex K s)
     else do {
       let (r, d) = XIic_SetAddress X addr (dev s);
       configASSERT (r = 0);
       let s = s\<lparr>drv := (drv s)\<lparr>task_handle := True, trans_len := int (length rx_data)\<rparr>\<rparr>;
       let (r, d) = XIic_MasterRecv X (length rx_data) d;
       let s = s\<lparr>dev := d\<rparr>;
       if r \<noteq> 0 then Some ((IIC_MASTER_RECV_ERROR, rx_data), give_mutex K s)
       else do {
         (ok, s) \<leftarrow> notify_wait K X s;
         let rx_data = overlay (RxBytes X (dev s)) rx_data;
         let (r, s) = finish K X (ok, s);
         Some ((r, rx_data), s)}}}"

subsection \<open>Starting and stopping\<close>

text \<open>
  \<open>XIic0\<close> is the static device structure that is copied into the driver; \<open>isr\<close> and \<open>ref\<close> are the
  addresses of \<^verbatim>\<open>XIic_InterruptHandler\<close> and of the device.  The three \<^verbatim>\<open>XIic_Set...Handler\<close> calls are one
  parameter.  Only device 0 exists in this configuration.
\<close>

abbreviation (input) XPAR_IIC_0_DEVICE_ID :: u32 where "XPAR_IIC_0_DEVICE_ID \<equiv> 0"
abbreviation (input) PLIC_SOURCE_IIC0 :: u32 where "PLIC_SOURCE_IIC0 \<equiv> 7"

definition iic_init ::
  "'k kernel \<Rightarrow> 'd xiic \<Rightarrow> 'd \<Rightarrow> addr \<Rightarrow> addr \<Rightarrow> u32 \<Rightarrow> u32 \<Rightarrow> ('d, 'k) iic \<times> plic_world \<Rightarrow>
   (('d, 'k) iic \<times> plic_world) option" where
  "iic_init K X XIic0 isr ref device_id plic_source_id w = do {
     let (s, p, b) = w;
     let (m, k) = SemaphoreCreateMutex K (kern s);
     configASSERT (device_id = 0);
     let s = s\<lparr>kern := k, dev := XIic0,
               drv := (drv s)\<lparr>mutex := m, task_handle := False, TotalErrorCount := 0, Errors := 0\<rparr>\<rparr>;
     let (r, d) = XIic_Initialize X device_id (dev s);
     configASSERT (r = 0);
     let (r, d) = XIic_SelfTest X d;
     configASSERT (r = 0);
     let d = XIic_SetHandlers X d;
     let (r, p, b) = PLIC_register_interrupt_handler p plic_source_id isr ref b;
     configASSERT (r \<noteq> 0);
     Some (s\<lparr>dev := XIic_Start X d\<rparr>, p, b)}"

definition iic_stop ::
  "'d xiic \<Rightarrow> u32 \<Rightarrow> ('d, 'k) iic \<times> plic_world \<Rightarrow> ('d, 'k) iic \<times> plic_world" where
  "iic_stop X plic_source_id = (\<lambda>(s, p, b).
     let (p, b) = PLIC_unregister_interrupt_handler p plic_source_id b
     in (s\<lparr>dev := XIic_Stop X (dev s)\<rparr>, p, b))"

definition iic0_init where
  "iic0_init K X XIic0 isr ref w = iic_init K X XIic0 isr ref XPAR_IIC_0_DEVICE_ID PLIC_SOURCE_IIC0 w"

definition iic0_master_reset where
  "iic0_master_reset K X XIic0 isr ref w =
     iic_init K X XIic0 isr ref XPAR_IIC_0_DEVICE_ID PLIC_SOURCE_IIC0 (iic_stop X PLIC_SOURCE_IIC0 w)"

end
