(* ===== verification/Rtc.thy ===== *)
theory Rtc
  imports Iic
begin

section \<open>The I2C devices: real-time clock, proximity sensor and display (devices/)\<close>

text \<open>
  The drivers \<^verbatim>\<open>ds1338rtc.c\<close>, \<^verbatim>\<open>vcnl4010.c\<close> and \<^verbatim>\<open>serLcd.c\<close> on top of \<^verbatim>\<open>iic_transmit\<close> and \<^verbatim>\<open>iic_receive\<close>.
  They assert that a transaction does not return -1 and go on with any other result.  Local
  buffers that the code does not initialise have their old contents as a parameter \<open>junk\<close>.
  \<^verbatim>\<open>vTaskDelay\<close> only lets time pass and is left out.  Arithmetic on \<^verbatim>\<open>uint8_t\<close> is done on 8-bit words
  where no intermediate value exceeds 255 and the result is stored in a \<^verbatim>\<open>uint8_t\<close>.
\<close>

subsection \<open>Time values\<close>

record rtctime_t =
  second :: u8
  minute :: u8
  hour :: u8
  day :: u8
  month :: u8
  year :: u8

definition make_time :: "u8 \<Rightarrow> u8 \<Rightarrow> u8 \<Rightarrow> u8 \<Rightarrow> u8 \<Rightarrow> u8 \<Rightarrow> rtctime_t" where
  "make_time y mo d h mi s = \<lparr>second = s, minute = mi, hour = h, day = d, month = mo, year = y\<rparr>"

definition decode_bcd :: "u8 \<Rightarrow> u8" where
  "decode_bcd x = drop_bit 4 x * 10 + (x AND 0x0F)"

definition encode_bcd :: "u8 \<Rightarrow> u8" where
  "encode_bcd x = push_bit 4 ((x div 10) AND 0x0F) + x mod 10"

definition two_digits :: "u8 \<Rightarrow> u8 list" where
  "two_digits v = (if v < 10 then [48, 48 + v] else [48 + v div 10, 48 + v mod 10])"

definition format_time_str :: "rtctime_t \<Rightarrow> u8 list" where
  "format_time_str t =
     [50] @
     (if year t < 10 then [48, 48, 48 + year t]
      else if year t < 100 then [48, 48 + year t div 10, 48 + year t mod 10]
      else [49, 48 + (year t - 100) div 10, 48 + (year t - 100) mod 10]) @
     [45] @ two_digits (month t) @ [45] @ two_digits (day t) @ [84] @ two_digits (hour t) @ [58] @
     two_digits (minute t) @ [58] @ two_digits (second t) @ [0]"

subsection \<open>The clock\<close>

abbreviation (input) DS1338_ADDR :: u8 where "DS1338_ADDR \<equiv> 0x68"
abbreviation (input) DS1338_REG_SECONDS :: u8 where "DS1338_REG_SECONDS \<equiv> 0x00"
abbreviation (input) DS1338_REG_CONTROL :: u8 where "DS1338_REG_CONTROL \<equiv> 0x07"
abbreviation (input) DS1338_REG_RAM_BEGIN :: u8 where "DS1338_REG_RAM_BEGIN \<equiv> 0x08"
abbreviation (input) DS1338_REG_RAM_END :: u8 where "DS1338_REG_RAM_END \<equiv> 0x3F"
abbreviation (input) DS1338_HOUR_12 :: u8 where "DS1338_HOUR_12 \<equiv> 0x40"
abbreviation (input) DS1338_OSC_STOP_FLAG :: u8 where "DS1338_OSC_STOP_FLAG \<equiv> 0x20"
abbreviation (input) DS1338_SQWE_FLAG :: u8 where "DS1338_SQWE_FLAG \<equiv> 0x10"
abbreviation (input) DS1338_SQW_MASK :: u8 where "DS1338_SQW_MASK \<equiv> 0x03"

text \<open>\<^verbatim>\<open>configASSERT(iic_transmit(...) != -1)\<close> and the same for \<^verbatim>\<open>iic_receive\<close>.\<close>

definition send_checked ::
  "'k kernel \<Rightarrow> 'd xiic \<Rightarrow> u8 \<Rightarrow> u8 list \<Rightarrow> ('d, 'k) iic \<Rightarrow> ('d, 'k) iic option" where
  "send_checked K X a tx s = do {
     (r, s) \<leftarrow> iic_transmit K X a tx s;
     configASSERT (r \<noteq> - 1);
     Some s}"

definition recv_checked ::
  "'k kernel \<Rightarrow> 'd xiic \<Rightarrow> u8 \<Rightarrow> u8 list \<Rightarrow> ('d, 'k) iic \<Rightarrow> (u8 list \<times> ('d, 'k) iic) option" where
  "recv_checked K X a rx s = do {
     ((r, rx), s) \<leftarrow> iic_receive K X a rx s;
     configASSERT (r \<noteq> - 1);
     Some (rx, s)}"

definition time_of_regs :: "u8 list \<Rightarrow> rtctime_t" where
  "time_of_regs buf =
     \<lparr>second = decode_bcd (buf ! 0), minute = decode_bcd (buf ! 1),
      hour = (if buf ! 2 AND DS1338_HOUR_12 \<noteq> 0
              then (drop_bit 4 (buf ! 2) AND 1) * 12 + (drop_bit 5 (buf ! 2) AND 1) * 12
              else decode_bcd (buf ! 2)),
      day = decode_bcd (buf ! 4), month = decode_bcd (buf ! 5),
      year = 100 * (drop_bit 7 (buf ! 5) AND 1) + decode_bcd (buf ! 6)\<rparr>"

definition ds1338_read_time ::
  "'k kernel \<Rightarrow> 'd xiic \<Rightarrow> u8 list \<Rightarrow> ('d, 'k) iic \<Rightarrow> (rtctime_t \<times> ('d, 'k) iic) option" where
  "ds1338_read_time K X junk s = do {
     let buf = (take 7 junk)[0 := DS1338_REG_SECONDS];
     s \<leftarrow> send_checked K X DS1338_ADDR (take 1 buf) s;
     (buf, s) \<leftarrow> recv_checked K X DS1338_ADDR buf s;
     Some (time_of_regs buf, s)}"

definition regs_of_time :: "rtctime_t \<Rightarrow> u8 list" where
  "regs_of_time t =
     [encode_bcd (second t), encode_bcd (minute t), encode_bcd (hour t), 1, encode_bcd (day t),
      encode_bcd (month t), encode_bcd (year t mod 100)]"

definition ds1338_write_time ::
  "'k kernel \<Rightarrow> 'd xiic \<Rightarrow> rtctime_t \<Rightarrow> ('d, 'k) iic \<Rightarrow> ('d, 'k) iic option" where
  "ds1338_write_time K X t s = send_checked K X DS1338_ADDR (DS1338_REG_SECONDS # regs_of_time t) s"

definition ds1338_get_control ::
  "'k kernel \<Rightarrow> 'd xiic \<Rightarrow> u8 \<Rightarrow> ('d, 'k) iic \<Rightarrow> (u8 \<times> ('d, 'k) iic) option" where
  "ds1338_get_control K X ctrl s = do {
     s \<leftarrow> send_checked K X DS1338_ADDR [DS1338_REG_CONTROL] s;
     (rx, s) \<leftarrow> recv_checked K X DS1338_ADDR [ctrl] s;
     Some (rx ! 0, s)}"

definition ds1338_set_control ::
  "'k kernel \<Rightarrow> 'd xiic \<Rightarrow> u8 \<Rightarrow> ('d, 'k) iic \<Rightarrow> ('d, 'k) iic option" where
  "ds1338_set_control K X ctrl s = send_checked K X DS1338_ADDR [DS1338_REG_CONTROL, ctrl] s"

definition ds1338_set_control_bits ::
  "'k kernel \<Rightarrow> 'd xiic \<Rightarrow> u8 \<Rightarrow> u8 \<Rightarrow> ('d, 'k) iic \<Rightarrow> ('d, 'k) iic option" where
  "ds1338_set_control_bits K X junk bits s = do {
     (ctrl, s) \<leftarrow> ds1338_get_control K X junk s;
     ds1338_set_control K X (ctrl OR bits) s}"

definition ds1338_clear_control_bits ::
  "'k kernel \<Rightarrow> 'd xiic \<Rightarrow> u8 \<Rightarrow> ('d, 'k) iic \<Rightarrow> ('d, 'k) iic option" where
  "ds1338_clear_control_bits K X bits s = ds1338_set_control K X (NOT bits) s"

definition ds1338_clean_osf :: "'k kernel \<Rightarrow> 'd xiic \<Rightarrow> ('d, 'k) iic \<Rightarrow> ('d, 'k) iic option" where
  "ds1338_clean_osf K X s = ds1338_clear_control_bits K X DS1338_OSC_STOP_FLAG s"

definition ds1338_enable_sqw ::
  "'k kernel \<Rightarrow> 'd xiic \<Rightarrow> u8 \<Rightarrow> u8 \<Rightarrow> ('d, 'k) iic \<Rightarrow> ('d, 'k) iic option" where
  "ds1338_enable_sqw K X junk frequence s = do {
     let frequence = frequence AND DS1338_SQW_MASK;
     let ctrl = (0 OR frequence) OR DS1338_SQWE_FLAG;
     s \<leftarrow> ds1338_clear_control_bits K X DS1338_SQW_MASK s;
     ds1338_set_control_bits K X junk ctrl s}"

definition ds1338_disable_sqw :: "'k kernel \<Rightarrow> 'd xiic \<Rightarrow> ('d, 'k) iic \<Rightarrow> ('d, 'k) iic option" where
  "ds1338_disable_sqw K X s = ds1338_clear_control_bits K X (DS1338_SQWE_FLAG OR DS1338_SQW_MASK) s"

definition ram_refused :: "u8 \<Rightarrow> nat \<Rightarrow> bool" where
  "ram_refused address n \<longleftrightarrow>
     address > DS1338_REG_RAM_END \<or> address < DS1338_REG_RAM_BEGIN \<or> unat address + n > unat DS1338_REG_RAM_END"

definition ds1338_read_ram ::
  "'k kernel \<Rightarrow> 'd xiic \<Rightarrow> u8 \<Rightarrow> u8 list \<Rightarrow> ('d, 'k) iic \<Rightarrow> (int \<times> u8 list \<times> ('d, 'k) iic) option" where
  "ds1338_read_ram K X address data s =
     (if ram_refused address (length data) then Some (1, data, s)
      else do {
        s \<leftarrow> send_checked K X DS1338_ADDR [address] s;
        (data, s) \<leftarrow> recv_checked K X DS1338_ADDR data s;
        Some (0, data, s)})"

definition ds1338_write_ram ::
  "'k kernel \<Rightarrow> 'd xiic \<Rightarrow> u8 \<Rightarrow> u8 list \<Rightarrow> ('d, 'k) iic \<Rightarrow> (int \<times> ('d, 'k) iic) option" where
  "ds1338_write_ram K X address data s =
     (if ram_refused address (length data) then Some (1, s)
      else do {
        s \<leftarrow> send_checked K X DS1338_ADDR [address] s;
        s \<leftarrow> send_checked K X DS1338_ADDR data s;
        Some (0, s)})"

subsection \<open>The proximity sensor\<close>

abbreviation (input) VCNL4010_I2CADDR_DEFAULT :: u8 where "VCNL4010_I2CADDR_DEFAULT \<equiv> 0x13"

definition vcnl4010_write_u8 ::
  "'k kernel \<Rightarrow> 'd xiic \<Rightarrow> u8 \<Rightarrow> u8 \<Rightarrow> ('d, 'k) iic \<Rightarrow> ('d, 'k) iic option" where
  "vcnl4010_write_u8 K X addr val s = send_checked K X VCNL4010_I2CADDR_DEFAULT [addr, val] s"

definition vcnl4010_read_u8 ::
  "'k kernel \<Rightarrow> 'd xiic \<Rightarrow> u8 \<Rightarrow> ('d, 'k) iic \<Rightarrow> (u8 \<times> ('d, 'k) iic) option" where
  "vcnl4010_read_u8 K X addr s = do {
     s \<leftarrow> send_checked K X VCNL4010_I2CADDR_DEFAULT [addr] s;
     (data, s) \<leftarrow> recv_checked K X VCNL4010_I2CADDR_DEFAULT [addr] s;
     Some (data ! 0, s)}"

text \<open>The function returns \<^verbatim>\<open>uint8_t\<close>: the high byte of the value is cut off.\<close>

definition vcnl4010_read_u16 ::
  "'k kernel \<Rightarrow> 'd xiic \<Rightarrow> u8 \<Rightarrow> ('d, 'k) iic \<Rightarrow> (u8 \<times> ('d, 'k) iic) option" where
  "vcnl4010_read_u16 K X addr s = do {
     s \<leftarrow> send_checked K X VCNL4010_I2CADDR_DEFAULT [addr] s;
     (data, s) \<leftarrow> recv_checked K X VCNL4010_I2CADDR_DEFAULT [addr, 0] s;
     Some (ucast (push_bit 8 (ucast (data ! 0)) OR ucast (data ! 1) :: u16), s)}"

definition vcnl4010_init :: "'k kernel \<Rightarrow> 'd xiic \<Rightarrow> ('d, 'k) iic \<Rightarrow> (bool \<times> ('d, 'k) iic) option" where
  "vcnl4010_init K X s = do {
     (rev, s) \<leftarrow> vcnl4010_read_u8 K X 0x81 s;
     if rev AND 0xF0 \<noteq> 0x20 then Some (False, s)
     else do {
       s \<leftarrow> vcnl4010_write_u8 K X 0x83 20 s;
       s \<leftarrow> vcnl4010_write_u8 K X 0x8F 3 s;
       s \<leftarrow> vcnl4010_write_u8 K X 0x89 0x08 s;
       Some (True, s)}}"

text \<open>
  The loop that waits for the measurement, with a bound on the number of polls; the bound being
  used up means that the loop is still running.
\<close>

fun vcnl4010_poll ::
  "nat \<Rightarrow> 'k kernel \<Rightarrow> 'd xiic \<Rightarrow> u8 \<Rightarrow> u8 \<Rightarrow> ('d, 'k) iic \<Rightarrow> (u16 \<times> ('d, 'k) iic) option" where
  "vcnl4010_poll 0 K X ready reg s = None"
| "vcnl4010_poll (Suc n) K X ready reg s = do {
     (res, s) \<leftarrow> vcnl4010_read_u8 K X 0x80 s;
     if res AND ready \<noteq> 0
     then do { (v, s) \<leftarrow> vcnl4010_read_u16 K X reg s; Some (ucast v, s) }
     else vcnl4010_poll n K X ready reg s}"

definition vcnl4010_readProximity ::
  "nat \<Rightarrow> 'k kernel \<Rightarrow> 'd xiic \<Rightarrow> ('d, 'k) iic \<Rightarrow> (u16 \<times> ('d, 'k) iic) option" where
  "vcnl4010_readProximity n K X s = do {
     (i, s) \<leftarrow> vcnl4010_read_u8 K X 0x8E s;
     s \<leftarrow> vcnl4010_write_u8 K X 0x8E (i AND NOT 0x80) s;
     s \<leftarrow> vcnl4010_write_u8 K X 0x80 0x08 s;
     vcnl4010_poll n K X 0x20 0x87 s}"

definition vcnl4010_readAmbient ::
  "nat \<Rightarrow> 'k kernel \<Rightarrow> 'd xiic \<Rightarrow> ('d, 'k) iic \<Rightarrow> (u16 \<times> ('d, 'k) iic) option" where
  "vcnl4010_readAmbient n K X s = do {
     (i, s) \<leftarrow> vcnl4010_read_u8 K X 0x8E s;
     s \<leftarrow> vcnl4010_write_u8 K X 0x8E (i AND NOT 0x40) s;
     s \<leftarrow> vcnl4010_write_u8 K X 0x80 0x10 s;
     vcnl4010_poll n K X 0x40 0x85 s}"

subsection \<open>The display\<close>

text \<open>\<^verbatim>\<open>LCD_USE_SPI\<close> is 0: the display is on the I2C bus.\<close>

abbreviation (input) LCD_DEFAULT_ADDRESS :: u8 where "LCD_DEFAULT_ADDRESS \<equiv> 0x72"
abbreviation (input) LCD_MAX_LINELEN :: nat where "LCD_MAX_LINELEN \<equiv> 16"

definition cmd_mode :: "u8 list" where "cmd_mode = [124, 45]"
definition go_to_line_2 :: "u8 list" where "go_to_line_2 = [254, 192]"

definition serLcdClear :: "'k kernel \<Rightarrow> 'd xiic \<Rightarrow> ('d, 'k) iic \<Rightarrow> ('d, 'k) iic option" where
  "serLcdClear K X s = send_checked K X LCD_DEFAULT_ADDRESS cmd_mode s"

definition serLcdPrintf :: "'k kernel \<Rightarrow> 'd xiic \<Rightarrow> u8 list \<Rightarrow> u8 \<Rightarrow> ('d, 'k) iic \<Rightarrow> ('d, 'k) iic option" where
  "serLcdPrintf K X str len s = do {
     let len = (if unat len > LCD_MAX_LINELEN then LCD_MAX_LINELEN else unat len);
     s \<leftarrow> send_checked K X LCD_DEFAULT_ADDRESS cmd_mode s;
     send_checked K X LCD_DEFAULT_ADDRESS (take len str) s}"

definition serLcdPrintTwoLines ::
  "'k kernel \<Rightarrow> 'd xiic \<Rightarrow> u8 list \<Rightarrow> u8 \<Rightarrow> u8 list \<Rightarrow> u8 \<Rightarrow> ('d, 'k) iic \<Rightarrow> ('d, 'k) iic option" where
  "serLcdPrintTwoLines K X line_1 len_1 line_2 len_2 s = do {
     let len_1 = (if unat len_1 > LCD_MAX_LINELEN then LCD_MAX_LINELEN else unat len_1);
     let len_2 = (if unat len_2 > LCD_MAX_LINELEN then LCD_MAX_LINELEN else unat len_2);
     s \<leftarrow> send_checked K X LCD_DEFAULT_ADDRESS cmd_mode s;
     s \<leftarrow> send_checked K X LCD_DEFAULT_ADDRESS (take len_1 line_1) s;
     s \<leftarrow> send_checked K X LCD_DEFAULT_ADDRESS go_to_line_2 s;
     send_checked K X LCD_DEFAULT_ADDRESS (take len_2 line_2) s}"

end
