(* ===== verification/Iic_Props.thy ===== *)
theory Iic_Props
  imports Iic
begin

section \<open>Properties of the I2C driver\<close>

text \<open>
  Every transaction gives the mutex back; the result of a transaction that starts in a clean state,
  in terms of the callbacks, and that it ends in a clean state; what a late callback does to the
  next transaction; and that a stopped driver can be started again.
\<close>

subsection \<open>Waiting\<close>

lemma notify_task_Some:
  "notify_task K s = Some s' \<longleftrightarrow> task_handle (drv s) \<and> s' = s\<lparr>kern := NotifyGive K (kern s)\<rparr>"
  by (auto simp: notify_task_def configASSERT_def)

lemmas handler_defs = RecvHandler_def SendHandler_def StatusHandler_def notify_task_def halt_simps

text \<open>The first callback that notifies the task.\<close>

fun notifies :: "iic_event \<Rightarrow> bool" where
  "notifies (RecvEvent n) = (n = 0)"
| "notifies _ = True"

fun first_signal :: "(iic_event \<times> 'd) list \<Rightarrow> (iic_event \<times> 'd) option" where
  "first_signal [] = None"
| "first_signal ((e, d) # es) = (if notifies e then Some (e, d) else first_signal es)"

definition last_dev :: "(iic_event \<times> 'd) list \<Rightarrow> 'd \<Rightarrow> 'd" where
  "last_dev es d = (if es = [] then d else snd (last es))"

lemma wait_pending:
  "pending K (kern s) \<Longrightarrow> \<exists>k. NotifyTake K (kern s) = Some k \<and> wait_callbacks K es s = Some (True, s\<lparr>kern := k\<rparr>)"
  by (subst wait_callbacks.simps) (auto simp: pending_def)

lemma run_handler_quiet:
  "\<not> notifies e \<Longrightarrow> run_handler K e s = Some s"
  by (cases e) (auto simp: RecvHandler_def)

lemma wait_first_signal:
  assumes "kernel_ok K" "\<not> pending K (kern s)"
  shows "wait_callbacks K es s =
    (case first_signal es of
       None \<Rightarrow> Some (False, s\<lparr>dev := last_dev es (dev s)\<rparr>)
     | Some (e, d) \<Rightarrow> (case run_handler K e (s\<lparr>dev := d\<rparr>) of
         None \<Rightarrow> None
       | Some s' \<Rightarrow> Some (True, s'\<lparr>kern := the (NotifyTake K (kern s'))\<rparr>)))"
  using assms(2)
proof (induction es arbitrary: s)
  case Nil
  then show ?case
    by (subst wait_callbacks.simps) (simp add: pending_def last_dev_def)
next
  case (Cons ed es)
  obtain e d where ed: "ed = (e, d)"
    by (cases ed)
  have step: "wait_callbacks K ((e, d) # es) s =
      (case run_handler K e (s\<lparr>dev := d\<rparr>) of None \<Rightarrow> None | Some s \<Rightarrow> wait_callbacks K es s)"
    using Cons.prems by (subst wait_callbacks.simps) (simp add: pending_def)
  show ?case
  proof (cases "notifies e")
    case False
    then show ?thesis
      using Cons.IH [of "s\<lparr>dev := d\<rparr>"] Cons.prems
      by (simp add: step ed run_handler_quiet last_dev_def split: option.splits)
  next
    case True
    have "pending K (kern s')" if "run_handler K e (s\<lparr>dev := d\<rparr>) = Some s'" for s'
      using that True pending_NotifyGive [OF assms(1)]
      by (cases e) (auto simp: handler_defs split: if_splits)
    then show ?thesis
      using True wait_pending [of K _ es] by (fastforce simp: step ed split: option.splits)
  qed
qed

subsection \<open>The mutex\<close>

lemma unlocked_finish: "kernel_ok K \<Longrightarrow> unlocked K (kern (snd (finish K X w)))"
  by (auto simp: finish_def give_mutex_def Let_def split: prod.splits)

lemma take_mutex_Some:
  "take_mutex K s = Some s' \<longleftrightarrow> mutex (drv s) \<and> (\<exists>k. SemaphoreTake K (kern s) = Some k \<and> s' = s\<lparr>kern := k\<rparr>)"
  by (auto simp: take_mutex_def halt_simps bind_eq_Some_conv)

lemma take_mutex_None: "\<not> unlocked K (kern s) \<Longrightarrow> take_mutex K s = None"
  by (simp add: take_mutex_def unlocked_def halt_simps)

interpretation iic_tx: balanced_op "\<lambda>K. iic_transmit K X a tx" iic.kern for X :: "'d xiic" and a tx
proof
  fix K :: "'k kernel" and s :: "('d, 'k) iic" and r s'
  assume "kernel_ok K" "iic_transmit K X a tx s = Some (r, s')"
  then show "unlocked K (kern s')"
    by (auto simp: iic_transmit_def Let_def bind_eq_Some_conv halt_simps give_mutex_def case_prod_beta
        unlocked_finish split: if_splits dest: arg_cong [of "finish _ _ _" _ snd])
       (metis snd_conv unlocked_finish)
next
  fix K :: "'k kernel" and s :: "('d, 'k) iic"
  show "\<not> unlocked K (kern s) \<Longrightarrow> iic_transmit K X a tx s = None"
    by (simp add: iic_transmit_def take_mutex_None)
qed

interpretation iic_rx: balanced_op "\<lambda>K. iic_receive K X a rx" iic.kern for X :: "'d xiic" and a rx
proof
  fix K :: "'k kernel" and s :: "('d, 'k) iic" and r s'
  assume "kernel_ok K" "iic_receive K X a rx s = Some (r, s')"
  then show "unlocked K (kern s')"
    by (auto simp: iic_receive_def Let_def bind_eq_Some_conv halt_simps give_mutex_def case_prod_beta
        unlocked_finish split: if_splits)
next
  fix K :: "'k kernel" and s :: "('d, 'k) iic"
  show "\<not> unlocked K (kern s) \<Longrightarrow> iic_receive K X a rx s = None"
    by (simp add: iic_receive_def take_mutex_None)
qed

subsection \<open>Transactions in a clean state\<close>

definition iic_clean :: "'k kernel \<Rightarrow> ('d, 'k) iic \<Rightarrow> bool" where
  "iic_clean K s \<longleftrightarrow>
     mutex (drv s) \<and> unlocked K (kern s) \<and> \<not> pending K (kern s) \<and> Errors (drv s) = 0"

text \<open>What a transaction of \<open>n\<close> bytes returns, given the callback that ends the wait.\<close>

fun signal_result :: "int \<Rightarrow> iic_event option \<Rightarrow> int option" where
  "signal_result n None = Some IIC_TIMEOUT"
| "signal_result n (Some (RecvEvent _)) = Some n"
| "signal_result n (Some (SendEvent st)) = (if st = 0 then Some n else None)"
| "signal_result n (Some (StatusEvent st)) = Some (if st \<noteq> 0 then IIC_SLAVE_NO_ACK else n)"

lemma signal_timeout: "signal_result (int n) x = Some IIC_TIMEOUT \<Longrightarrow> x = None"
  by (induction "int n" x rule: signal_result.induct) (auto split: if_splits)

lemma finish_clean:
  assumes "kernel_ok K" "wait_callbacks K es s = Some w" "\<not> pending K (kern s)" "Errors (drv s) = 0"
    "mutex (drv s)"
  shows "iic_clean K (snd (finish K X w)) \<and>
    signal_result (trans_len (drv s)) (map_option fst (first_signal es)) = Some (fst (finish K X w)) \<and>
    (first_signal es = None \<longrightarrow> dev (snd (finish K X w)) = XIic_Reset X (last_dev es (dev s))) \<and>
    (\<forall>e d. first_signal es = Some (e, d) \<longrightarrow> fst w \<and> dev (snd w) = d \<and> dev (snd (finish K X w)) = d)"
proof (cases "first_signal es")
  case None
  then show ?thesis
    using assms wait_first_signal [OF assms(1,3), of es]
    by (auto simp: finish_def give_mutex_def iic_clean_def)
next
  case (Some ed)
  obtain e d where ed: "ed = (e, d)"
    by (cases ed)
  obtain s' where s': "run_handler K e (s\<lparr>dev := d\<rparr>) = Some s'"
    "w = (True, s'\<lparr>kern := the (NotifyTake K (kern s'))\<rparr>)"
    using assms(2) wait_first_signal [OF assms(1,3), of es] by (auto simp: Some ed split: option.splits)
  have e: "notifies e"
    using Some ed by (induction es rule: first_signal.induct) (auto split: if_splits)
  then have k: "kern s' = NotifyGive K (kern s)"
    using s'(1) by (cases e) (auto simp: handler_defs split: if_splits)
  then obtain k where "NotifyTake K (kern s') = Some k"
    using pending_NotifyGive [OF assms(1)] by (auto simp: pending_def)
  then have np: "\<not> pending K (the (NotifyTake K (kern s')))"
    using NotifyTakeD [OF assms(1)] by auto
  show ?thesis
    using s' e np assms(1,4,5) Some ed
    by (cases e) (auto simp: handler_defs finish_def give_mutex_def iic_clean_def Let_def split: if_splits)
qed

lemma wait_returns:
  assumes "kernel_ok K" "\<not> pending K (kern s)" "task_handle (drv s)"
  shows "wait_callbacks K es s = None \<longleftrightarrow> signal_result n (map_option fst (first_signal es)) = None"
proof (cases "first_signal es")
  case (Some ed)
  obtain e d where ed: "ed = (e, d)"
    by (cases ed)
  have "notifies e"
    using Some ed by (induction es rule: first_signal.induct) (auto split: if_splits)
  then show ?thesis
    unfolding wait_first_signal [OF assms(1,2)] Some ed using assms(3)
    by (cases e) (auto simp: handler_defs split: if_splits)
qed (simp add: wait_first_signal [OF assms(1,2)])

text \<open>A transaction up to the wait: the state in which the transfer has been started.\<close>

definition started :: "'k kernel \<Rightarrow> 'd \<Rightarrow> nat \<Rightarrow> ('d, 'k) iic \<Rightarrow> ('d, 'k) iic" where
  "started K d n s = s\<lparr>kern := the (SemaphoreTake K (kern s)),
     drv := (drv s)\<lparr>task_handle := True, trans_len := int n\<rparr>, dev := d\<rparr>"

lemma started_clean:
  assumes "kernel_ok K" "iic_clean K s"
  shows "\<not> pending K (kern (started K d n s))" "Errors (drv (started K d n s)) = 0"
    "mutex (drv (started K d n s))" "task_handle (drv (started K d n s))"
    "trans_len (drv (started K d n s)) = int n" "dev (started K d n s) = d"
  using assms TakeD [OF assms(1), of "kern s"] by (auto simp: iic_clean_def started_def unlocked_def)

lemma transmit_cases:
  assumes "iic_clean K s" "XIic_SetAddress X a (dev s) = (0, d1)" "XIic_MasterSend X tx d1 = (r, d2)"
  shows "iic_transmit K X a tx s =
    (if XIic_IsIicBusy X (dev s)
     then Some (IIC_BUS_IS_BUSY, give_mutex K (s\<lparr>kern := the (SemaphoreTake K (kern s))\<rparr>))
     else if r \<noteq> 0 then Some (IIC_MASTER_SEND_ERROR, give_mutex K (started K d2 (length tx) s))
     else map_option (finish K X) (wait_callbacks K (Callbacks X d2) (started K d2 (length tx) s)))"
  using assms
  by (auto simp: iic_transmit_def take_mutex_def iic_clean_def unlocked_def halt_simps started_def notify_wait_def
      map_option_case Let_def split: option.splits)

lemma receive_cases:
  assumes "iic_clean K s" "XIic_SetAddress X a (dev s) = (0, d1)" "XIic_MasterRecv X (length rx) d1 = (r, d2)"
  shows "iic_receive K X a rx s =
    (if XIic_IsIicBusy X (dev s)
     then Some ((IIC_BUS_IS_BUSY, rx), give_mutex K (s\<lparr>kern := the (SemaphoreTake K (kern s))\<rparr>))
     else if r \<noteq> 0 then Some ((IIC_MASTER_RECV_ERROR, rx), give_mutex K (started K d2 (length rx) s))
     else map_option (\<lambda>w. ((fst (finish K X w), overlay (RxBytes X (dev (snd w))) rx), snd (finish K X w)))
            (wait_callbacks K (Callbacks X d2) (started K d2 (length rx) s)))"
  using assms
  by (auto simp: iic_receive_def take_mutex_def iic_clean_def unlocked_def halt_simps started_def notify_wait_def
      map_option_case Let_def case_prod_beta split: option.splits)

lemma give_clean:
  assumes "kernel_ok K" "iic_clean K s" "kern s' = the (SemaphoreTake K (kern s))" "mutex (drv s')" "Errors (drv s') = 0"
  shows "iic_clean K (give_mutex K s')"
proof -
  obtain k where "SemaphoreTake K (kern s) = Some k"
    using assms(2) by (auto simp: iic_clean_def unlocked_def)
  then show ?thesis
    using assms TakeD [OF assms(1)] by (simp add: iic_clean_def give_mutex_def)
qed

lemma transmit_ok:
  assumes "kernel_ok K" "iic_clean K s" "\<not> XIic_IsIicBusy X (dev s)"
    and "XIic_SetAddress X a (dev s) = (0, d1)" "XIic_MasterSend X tx d1 = (0, d2)"
    and "first_signal (Callbacks X d2) = Some (SendEvent 0, d3)"
  shows "\<exists>s'. iic_transmit K X a tx s = Some (int (length tx), s') \<and> iic_clean K s' \<and> dev s' = d3"
proof -
  note sc = started_clean [OF assms(1,2), of d2 "length tx"]
  obtain w where w: "wait_callbacks K (Callbacks X d2) (started K d2 (length tx) s) = Some w"
    using wait_returns [OF assms(1) sc(1,4), of "Callbacks X d2" 0] assms(6) by auto
  show ?thesis
    using finish_clean [OF assms(1) w sc(1,2,3), of X] assms(3,6) w sc(5)
    by (auto simp: transmit_cases [OF assms(2,4,5)] intro!: exI [of _ "snd (finish K X w)"])
qed

lemma receive_ok:
  assumes "kernel_ok K" "iic_clean K s" "\<not> XIic_IsIicBusy X (dev s)"
    and "XIic_SetAddress X a (dev s) = (0, d1)" "XIic_MasterRecv X (length rx) d1 = (0, d2)"
    and "first_signal (Callbacks X d2) = Some (RecvEvent 0, d3)"
  shows "\<exists>s'. iic_receive K X a rx s = Some ((int (length rx), overlay (RxBytes X d3) rx), s') \<and> iic_clean K s' \<and> dev s' = d3"
proof -
  note sc = started_clean [OF assms(1,2), of d2 "length rx"]
  obtain w where w: "wait_callbacks K (Callbacks X d2) (started K d2 (length rx) s) = Some w"
    using wait_returns [OF assms(1) sc(1,4), of "Callbacks X d2" 0] assms(6) by auto
  show ?thesis
    using finish_clean [OF assms(1) w sc(1,2,3), of X] assms(3,6) w sc(5)
    by (auto simp: receive_cases [OF assms(2,4,5)] intro!: exI [of _ "snd (finish K X w)"])
qed

text \<open>
  C35.  The result of \<^verbatim>\<open>iic_transmit\<close>.  In a clean state (mutex created and free, no notification pending,
  no error recorded) a transmission returns the bus-busy or the send error at once, and otherwise,
  by the first callback that notifies the task: the number of bytes for a completed transfer, the
  no-acknowledge error for an error status, the timeout if none comes, and it fails an assertion
  for a completion with a bad status.  It always leaves a clean state behind, and a timeout resets
  the controller.
\<close>

theorem iic_transmit_result:
  assumes "kernel_ok K" "iic_clean K s"
    and "XIic_SetAddress X a (dev s) = (0, d1)" "XIic_MasterSend X tx d1 = (r, d2)"
  shows "case (if XIic_IsIicBusy X (dev s) then Some IIC_BUS_IS_BUSY
      else if r \<noteq> 0 then Some IIC_MASTER_SEND_ERROR
      else signal_result (int (length tx)) (map_option fst (first_signal (Callbacks X d2)))) of
      None \<Rightarrow> iic_transmit K X a tx s = None
    | Some v \<Rightarrow> \<exists>s'. iic_transmit K X a tx s = Some (v, s') \<and> iic_clean K s' \<and>
        (v = IIC_TIMEOUT \<longrightarrow> dev s' = XIic_Reset X (last_dev (Callbacks X d2) d2))"
proof -
  note sc = started_clean [OF assms(1,2), of d2 "length tx"]
  let ?w = "wait_callbacks K (Callbacks X d2) (started K d2 (length tx) s)"
  have g: "iic_clean K (give_mutex K (s\<lparr>kern := the (SemaphoreTake K (kern s))\<rparr>))"
    "iic_clean K (give_mutex K (started K d2 (length tx) s))"
    using assms(2) by (auto intro!: give_clean [OF assms(1,2)] simp: started_def) (simp_all add: iic_clean_def)
  have none: "?w = None \<longleftrightarrow> signal_result (int (length tx)) (map_option fst (first_signal (Callbacks X d2))) = None"
    by (rule wait_returns [OF assms(1) sc(1,4)])
  have timeout: "first_signal (Callbacks X d2) = None"
    if "signal_result (int (length tx)) (map_option fst (first_signal (Callbacks X d2))) = Some (- 1)"
    using signal_timeout [OF that] by simp
  show ?thesis
  proof (cases ?w)
    case None
    then show ?thesis
      using none g by (simp add: transmit_cases [OF assms(2-4)])
  next
    case (Some w)
    note f = finish_clean [OF assms(1) Some sc(1,2,3), of X]
    then show ?thesis
      using g Some timeout sc(5,6) by (auto simp: transmit_cases [OF assms(2-4)] intro!: exI [of _ "snd (finish K X w)"])
  qed
qed

text \<open>A controller for the witnesses: one callback ends every transfer.\<close>

definition demo_xiic :: "iic_event \<Rightarrow> unit xiic" where
  "demo_xiic e = \<lparr>XIic_Initialize = (\<lambda>_ d. (0, d)), XIic_SelfTest = (\<lambda>d. (0, d)), XIic_SetHandlers = id,
     XIic_Start = id, XIic_Stop = id, XIic_IsIicBusy = (\<lambda>_. False), XIic_SetAddress = (\<lambda>_ d. (0, d)),
     XIic_MasterSend = (\<lambda>_ d. (0, d)), XIic_MasterRecv = (\<lambda>_ d. (0, d)), XIic_Reset = id,
     Callbacks = (\<lambda>_. [(RecvEvent 2, ()), (e, ())]), RxBytes = (\<lambda>_. [])\<rparr>"

definition demo_iic :: "(unit, bool \<times> bool) iic" where
  "demo_iic = \<lparr>drv = \<lparr>TotalErrorCount = 0, Errors = 0, trans_len = 0, mutex = True, task_handle = True\<rparr>,
     dev = (), kern = (False, False)\<rparr>"

lemma demo_iic_clean: "iic_clean demo_kernel demo_iic"
  by (simp add: iic_clean_def demo_iic_def unlocked_def pending_def demo_kernel_def)

theorem iic_transmit_result_witness:
  "\<exists>s'. iic_transmit demo_kernel (demo_xiic (StatusEvent 4)) 0x68 [1, 2] demo_iic = Some (- 2, s') \<and> iic_clean demo_kernel s'"
  using iic_transmit_result [OF demo_kernel_ok demo_iic_clean, of "demo_xiic (StatusEvent 4)" "0x68" "()" "[1, 2]" 0 "()"]
  by (auto simp: demo_xiic_def)

text \<open>
   A callback that comes too late, after the transaction it belongs to has timed out, makes the
  next one return too early: \<^verbatim>\<open>iic_receive\<close> reports all bytes received although no callback of its
  own has come, and the buffer holds what the controller had stored when the transfer was started.
\<close>

theorem iic_late_callback:
  assumes "kernel_ok K" "iic_clean K s" "task_handle (drv s)"
    and "XIic_SetAddress X a (dev s) = (0, d1)" "XIic_MasterRecv X (length rx) d1 = (0, d2)"
    and "\<not> XIic_IsIicBusy X (dev s)"
  shows "\<exists>s1 s2. run_handler K (RecvEvent 0) s = Some s1 \<and>
    iic_receive K X a rx s1 = Some ((int (length rx), overlay (RxBytes X d2) rx), s2)"
proof -
  define s1 where "s1 = s\<lparr>kern := NotifyGive K (kern s)\<rparr>"
  have h: "run_handler K (RecvEvent 0) s = Some s1"
    using assms(3) by (simp add: handler_defs s1_def)
  have "unlocked K (kern s1)" "pending K (kern s1)" "mutex (drv s1)" "Errors (drv s1) = 0" "dev s1 = dev s"
    using assms(1,2) by (simp_all add: s1_def iic_clean_def)
  then obtain k where k: "SemaphoreTake K (kern s1) = Some k" "pending K k"
    using TakeD [OF assms(1)] by (auto simp: unlocked_def)
  define s2 where "s2 = s1\<lparr>kern := k, drv := (drv s1)\<lparr>task_handle := True, trans_len := int (length rx)\<rparr>, dev := d2\<rparr>"
  obtain k' where w: "wait_callbacks K (Callbacks X d2) s2 = Some (True, s2\<lparr>kern := k'\<rparr>)"
    using wait_pending [of K s2] k(2) by (auto simp: s2_def)
  have "iic_receive K X a rx s1 = Some ((int (length rx), overlay (RxBytes X d2) rx), give_mutex K (s2\<lparr>kern := k'\<rparr>))"
    using assms(4-6) k(1) w \<open>mutex (drv s1)\<close> \<open>Errors (drv s1) = 0\<close> \<open>dev s1 = dev s\<close>
    by (simp add: iic_receive_def take_mutex_def halt_simps notify_wait_def finish_def flip: s2_def) (simp add: s2_def)
  then show ?thesis
    using h by blast
qed

theorem iic_late_callback_witness:
  "\<exists>s1 s2. run_handler demo_kernel (RecvEvent 0) demo_iic = Some s1 \<and>
    iic_receive demo_kernel (demo_xiic (StatusEvent 4)) 0x68 [9, 9] s1 = Some ((2, [9, 9]), s2)"
  using iic_late_callback [OF demo_kernel_ok demo_iic_clean, of "demo_xiic (StatusEvent 4)" "0x68" "()" "[9, 9]" "()"]
  by (auto simp: demo_xiic_def demo_iic_def overlay_def)

subsection \<open>Starting again\<close>

text \<open>
  \<^verbatim>\<open>iic0_master_reset\<close> can be called on a running driver: stopping frees the interrupt source, so
  that the initialisation that follows registers its handler again and no assertion fails, provided
  the controller's initialisation and self-test succeed.  Afterwards the handler is installed, the
  error state is cleared and the mutex is free.
\<close>

theorem iic_reset_reregisters:
  assumes "kernel_ok K" "fst (SemaphoreCreateMutex K (kern s))" "isr \<noteq> 0" "length (HandlerTable p) = 16"
    and "XIic_Initialize X 0 XIic0 = (0, d1)" "XIic_SelfTest X d1 = (0, d2)"
  shows "\<exists>s' p' b'. iic0_master_reset K X XIic0 isr ref (s, p, b) = Some (s', p', b') \<and>
    Handler (HandlerTable p' ! 7) = isr \<and> CallBackRef (HandlerTable p' ! 7) = ref \<and>
    (\<forall>i < 16. i \<noteq> 7 \<longrightarrow> HandlerTable p' ! i = HandlerTable p ! i) \<and>
    unlocked K (kern s') \<and> mutex (drv s') \<and> Errors (drv s') = 0 \<and> dev s' = XIic_Start X (XIic_SetHandlers X d2)"
proof -
  obtain k where k: "SemaphoreCreateMutex K (kern s) = (True, k)"
    using assms(2) by (metis prod.collapse)
  have u: "unlocked K k"
    using assms(1) k unfolding kernel_ok_def by blast
  show ?thesis
    using assms(3-) k u
    by (auto simp: iic0_master_reset_def iic_init_def iic_stop_def PLIC_unregister_interrupt_handler_def
        PLIC_register_interrupt_handler_def Let_def halt_simps)
qed

definition demo_world7 :: plic_world where
  "demo_world7 = (\<lparr>base_addr = 0xC000000, num_sources = 16, num_priorities = 16,
     HandlerTable = (replicate 16 \<lparr>Handler = 0, CallBackRef = 0\<rparr>)[7 := \<lparr>Handler = 0x80001234, CallBackRef = 0x80008000\<rparr>]\<rparr>,
     \<lparr>cells = (\<lambda>_. 0), feed = (\<lambda>_. []), events = []\<rparr>)"

theorem iic_reset_reregisters_witness:
  "\<exists>s' p' b'. iic0_master_reset demo_kernel (demo_xiic (SendEvent 0)) () 0x80001234 0x80008000 (demo_iic, demo_world7) =
     Some (s', p', b') \<and> Handler (HandlerTable p' ! 7) = 0x80001234"
  using iic_reset_reregisters [OF demo_kernel_ok, of demo_iic "0x80001234" "fst demo_world7" "demo_xiic (SendEvent 0)" "()" "()" "()"
      "0x80008000" "snd demo_world7"]
  by (auto simp: demo_xiic_def demo_iic_def demo_kernel_def demo_world7_def)

end
