(* ===== verification/Rtc_Props.thy ===== *)
theory Rtc_Props
  imports Rtc Iic_Props
begin

section \<open>Properties of the I2C devices\<close>

text \<open>
  BCD values and time strings; the messages that the clock driver sends and how it reads the
  clock's registers, against the format of the data sheet; and what the sensor driver returns.
\<close>

subsection \<open>Values\<close>

lemma nat_and_15: "(n :: nat) AND 15 = n mod 16"
proof -
  have "n AND 15 = n AND mask 4"
    by (simp add: mask_eq_exp_minus_1)
  then show ?thesis
    by (simp add: take_bit_eq_mod flip: take_bit_eq_mask)
qed

lemma unat_and_15: "unat (x AND 15 :: u8) = unat x mod 16"
  by (simp add: unsigned_and_eq nat_and_15)

lemma unat_drop_4: "unat (drop_bit 4 x :: u8) = unat x div 16"
  by (simp add: drop_bit_eq_div unat_div)

lemma unat_encode_bcd:
  assumes "x < 100"
  shows "unat (encode_bcd x) = 16 * (unat x div 10) + unat x mod 10"
proof -
  have x: "unat x < 100"
    using assms by (simp add: word_less_nat_alt)
  have q: "unat (x div 10 AND 15) = unat x div 10"
    using x by (simp add: unat_and_15 unat_div)
  have "unat (push_bit 4 (x div 10 AND 15)) = 16 * (unat x div 10)"
    using x by (simp add: push_bit_eq_mult unat_word_ariths q)
  then show ?thesis
    using x by (simp add: encode_bcd_def unat_word_ariths unat_mod)
qed

lemma unat_decode_bcd: "unat (decode_bcd x) = 10 * (unat x div 16) + unat x mod 16"
proof -
  have "unat x < 256"
    using unsigned_less [of x, where ?'a = nat] by simp
  then have "10 * (unat x div 16) + unat x mod 16 < 256"
    by linarith
  then show ?thesis
    by (simp add: decode_bcd_def unat_word_ariths unat_and_15 unat_drop_4 mult.commute)
qed

lemma decode_encode_bcd:
  assumes "x < 100"
  shows "decode_bcd (encode_bcd x) = x"
proof -
  have "unat (decode_bcd (encode_bcd x)) = unat x"
    by (simp add: unat_decode_bcd unat_encode_bcd [OF assms])
  then show ?thesis
    by (simp add: word_unat_eq_iff)
qed

interpretation bcd: codec encode_bcd decode_bcd "\<lambda>x. x < 100"
  by unfold_locales (rule decode_encode_bcd)

text \<open>The number that a digit string denotes.\<close>

definition digits_val :: "u8 list \<Rightarrow> nat" where
  "digits_val ds = foldl (\<lambda>v c. 10 * v + (unat c - 48)) 0 ds"

definition is_digit :: "u8 \<Rightarrow> bool" where
  "is_digit c \<longleftrightarrow> 48 \<le> c \<and> c \<le> 57"

lemma unat_digit: "unat v < 10 \<Longrightarrow> unat (48 + v :: u8) = 48 + unat v"
  by (simp add: unat_word_ariths)

lemma div_digits:
  assumes "v < 100"
  shows "is_digit (48 + v div 10) \<and> is_digit (48 + v mod 10) \<and> digits_val [48 + v div 10, 48 + v mod 10] = unat v"
proof -
  have v: "unat v < 100"
    using assms by (simp add: word_less_nat_alt)
  then have "unat (48 + v div 10) = 48 + unat v div 10" "unat (48 + v mod 10) = 48 + unat v mod 10"
    using unat_digit [of "v div 10"] unat_digit [of "v mod 10"] by (simp_all add: unat_div unat_mod)
  moreover have "unat v div 10 < 10" "unat v mod 10 < 10"
    using v by simp_all
  then have "unat v div 10 \<le> 9" "unat v mod 10 \<le> 9"
    by linarith+
  ultimately show ?thesis
    by (simp add: is_digit_def digits_val_def word_le_nat_alt)
qed

lemma two_digits_val:
  assumes "v < 100"
  obtains a b where "two_digits v = [a, b]" "is_digit a" "is_digit b" "digits_val [a, b] = unat v"
proof (cases "v < 10")
  case True
  then have "unat v < 10"
    by (simp add: word_less_nat_alt)
  then show ?thesis
    using that [of 48 "48 + v"] True by (simp add: two_digits_def is_digit_def digits_val_def word_le_nat_alt unat_digit)
next
  case False
  then show ?thesis
    using that [of "48 + v div 10" "48 + v mod 10"] div_digits [OF assms] by (simp add: two_digits_def)
qed

lemma year_digits:
  assumes "y < 200"
  shows "\<exists>a b c. (if y < 10 then [48, 48, 48 + y]
      else if y < 100 then [48, 48 + y div 10, 48 + y mod 10]
      else [49, 48 + (y - 100) div 10, 48 + (y - 100) mod 10]) = [a, b, c] \<and>
    is_digit a \<and> is_digit b \<and> is_digit c \<and> digits_val [50, a, b, c] = 2000 + unat y"
proof -
  have lift: "digits_val [50, a, b, c] = 2000 + 100 * (unat a - 48) + digits_val [b, c]" for a b c
    by (simp add: digits_val_def)
  have d: "is_digit 48" "is_digit 49"
    by (simp_all add: is_digit_def)
  show ?thesis
  proof (cases "y < 100")
    case True
    then show ?thesis
      by (rule two_digits_val) (use True d lift in \<open>auto simp: two_digits_def split: if_splits\<close>)
  next
    case False
    then have y: "\<not> y < 10" "unat (y - 100) = unat y - 100" "100 \<le> unat y" "unat y < 200"
      using assms by (simp_all add: word_less_nat_alt word_le_nat_alt of_nat_unat_sub not_less)
    then have "y - 100 < 100"
      by (simp add: word_less_nat_alt)
    then have td: "is_digit (48 + (y - 100) div 10)" "is_digit (48 + (y - 100) mod 10)"
      "digits_val [48 + (y - 100) div 10, 48 + (y - 100) mod 10] = unat (y - 100)"
      using div_digits by blast+
    then show ?thesis
      using False y d lift [of 49] by auto
  qed
qed

text \<open>
  The time string: for a year below 200 and two-digit fields \<^verbatim>\<open>format_time_str\<close> writes exactly 20
  bytes, \<^verbatim>\<open>yyyy-mm-ddThh:mm:ss\<close> and a zero, all fields as decimal digits that denote the field (the year
  plus 2000).
\<close>

theorem rtc_format_digits:
  assumes "year t < 200" "month t < 100" "day t < 100" "hour t < 100" "minute t < 100" "second t < 100"
  shows "\<exists>y1 y2 y3 y4 o1 o2 d1 d2 h1 h2 i1 i2 s1 s2.
    format_time_str t = [y1, y2, y3, y4, 45, o1, o2, 45, d1, d2, 84, h1, h2, 58, i1, i2, 58, s1, s2, 0] \<and>
    (\<forall>c \<in> {y1, y2, y3, y4, o1, o2, d1, d2, h1, h2, i1, i2, s1, s2}. is_digit c) \<and>
    digits_val [y1, y2, y3, y4] = 2000 + unat (year t) \<and> digits_val [o1, o2] = unat (month t) \<and>
    digits_val [d1, d2] = unat (day t) \<and> digits_val [h1, h2] = unat (hour t) \<and>
    digits_val [i1, i2] = unat (minute t) \<and> digits_val [s1, s2] = unat (second t)"
proof -
  obtain y2 y3 y4 where y: "(if year t < 10 then [48, 48, 48 + year t]
      else if year t < 100 then [48, 48 + year t div 10, 48 + year t mod 10]
      else [49, 48 + (year t - 100) div 10, 48 + (year t - 100) mod 10]) = [y2, y3, y4]"
    "is_digit y2" "is_digit y3" "is_digit y4" "digits_val [50, y2, y3, y4] = 2000 + unat (year t)"
    using year_digits [OF assms(1)] by blast
  obtain o1 o2 where o: "two_digits (month t) = [o1, o2]" "is_digit o1" "is_digit o2" "digits_val [o1, o2] = unat (month t)"
    by (rule two_digits_val [OF assms(2)])
  obtain d1 d2 where d: "two_digits (day t) = [d1, d2]" "is_digit d1" "is_digit d2" "digits_val [d1, d2] = unat (day t)"
    by (rule two_digits_val [OF assms(3)])
  obtain h1 h2 where h: "two_digits (hour t) = [h1, h2]" "is_digit h1" "is_digit h2" "digits_val [h1, h2] = unat (hour t)"
    by (rule two_digits_val [OF assms(4)])
  obtain i1 i2 where i: "two_digits (minute t) = [i1, i2]" "is_digit i1" "is_digit i2" "digits_val [i1, i2] = unat (minute t)"
    by (rule two_digits_val [OF assms(5)])
  obtain s1 s2 where s: "two_digits (second t) = [s1, s2]" "is_digit s1" "is_digit s2" "digits_val [s1, s2] = unat (second t)"
    by (rule two_digits_val [OF assms(6)])
  have "is_digit 50"
    by (simp add: is_digit_def)
  then show ?thesis
    unfolding format_time_str_def y(1) o(1) d(1) h(1) i(1) s(1)
    using y(2-) o(2-) d(2-) h(2-) i(2-) s(2-) by fastforce
qed

lemma demo_time_ok:
  "year (make_time 21 7 9 13 5 59) < 200" "month (make_time 21 7 9 13 5 59) < 100" "day (make_time 21 7 9 13 5 59) < 100"
  "hour (make_time 21 7 9 13 5 59) < 100" "minute (make_time 21 7 9 13 5 59) < 100" "second (make_time 21 7 9 13 5 59) < 100"
  by (simp_all add: make_time_def)

theorem rtc_format_digits_witness:
  "\<exists>y1 y2 y3 y4 rest. format_time_str (make_time 21 7 9 13 5 59) = [y1, y2, y3, y4] @ rest \<and> length rest = 16 \<and>
     digits_val [y1, y2, y3, y4] = 2021"
  using rtc_format_digits [OF demo_time_ok] by (auto simp: make_time_def)

subsection \<open>The clock\<close>

text \<open>
  The seven time registers of the clock when it shows the time \<open>t\<close> in the 24-hour format of its data
  sheet: the units of every field in the low four bits and its tens above them, the clock-halt bit
  of the seconds, the mode bit of the hours and all reserved bits zero; the fourth register is the
  day of the week, which a time value does not have.  Nothing is assumed of the clock here.
\<close>

definition bcd_of :: "u8 \<Rightarrow> u8 \<Rightarrow> bool" where
  "bcd_of v b \<longleftrightarrow> unat b = 16 * (unat v div 10) + unat v mod 10"

definition clock_shows :: "u8 list \<Rightarrow> rtctime_t \<Rightarrow> bool" where
  "clock_shows bs t \<longleftrightarrow> length bs = 7 \<and>
     second t < 60 \<and> bcd_of (second t) (bs ! 0) \<and> minute t < 60 \<and> bcd_of (minute t) (bs ! 1) \<and>
     hour t < 24 \<and> bcd_of (hour t) (bs ! 2) \<and> bs ! 3 \<in> {1..7} \<and> day t < 32 \<and> bcd_of (day t) (bs ! 4) \<and>
     month t < 13 \<and> bcd_of (month t) (bs ! 5) \<and> year t < 100 \<and> bcd_of (year t) (bs ! 6)"

lemma and_64_below: "unat (x :: u8) < 64 \<Longrightarrow> x AND 64 = 0"
proof (rule bit_word_eqI)
  fix n
  assume "unat x < 64"
  then have "\<not> bit x 6"
    using bit_beyond [of x 6 6] by simp
  moreover have "(64 :: u8) = 2 ^ 6"
    by simp
  ultimately show "bit (x AND 64) n = bit 0 n"
    by (auto simp only: bit_and_iff bit_exp_iff bit_0_eq bot_apply bot_bool_def)
qed

lemma drop_7_below: "unat (x :: u8) < 128 \<Longrightarrow> drop_bit 7 x = 0"
  by (simp add: drop_bit_eq_div word_unat_eq_iff unat_div)

lemma bcd_of_encode: "x < 100 \<Longrightarrow> bcd_of x (encode_bcd x)"
  by (simp add: bcd_of_def unat_encode_bcd)

lemma decode_bcd_of:
  assumes "bcd_of v b"
  shows "decode_bcd b = v"
proof -
  have "unat v mod 10 < 16" "unat v mod 10 < 10"
    by simp_all
  then have "unat (decode_bcd b) = unat v"
    using assms by (simp add: unat_decode_bcd bcd_of_def)
  then show ?thesis
    by (simp add: word_unat_eq_iff)
qed

lemma regs_of_time_shows:
  assumes "second t < 60" "minute t < 60" "hour t < 24" "day t < 32" "month t < 13"
  shows "clock_shows (regs_of_time t) (t\<lparr>year := year t mod 100\<rparr>)"
proof -
  have "second t < 100" "minute t < 100" "hour t < 100" "day t < 100" "month t < 100" "year t mod 100 < 100"
    using assms by (simp_all add: word_less_nat_alt unat_mod)
  then show ?thesis
    using assms by (simp add: clock_shows_def regs_of_time_def bcd_of_encode)
qed

lemma time_of_regs_shows:
  assumes "clock_shows bs t"
  shows "time_of_regs bs = t"
proof -
  have "unat (hour t) < 24" "unat (month t) < 13"
    using assms by (simp_all add: clock_shows_def word_less_nat_alt)
  then have "unat (hour t) div 10 < 3" "unat (month t) div 10 < 2"
    by linarith+
  moreover have "unat (hour t) mod 10 < 10" "unat (month t) mod 10 < 10"
    by simp_all
  moreover have "unat (bs ! 2) = 16 * (unat (hour t) div 10) + unat (hour t) mod 10"
    "unat (bs ! 5) = 16 * (unat (month t) div 10) + unat (month t) mod 10"
    using assms by (simp_all add: clock_shows_def bcd_of_def)
  ultimately have "unat (bs ! 2) < 64" "unat (bs ! 5) < 128"
    by linarith+
  then have "bs ! 2 AND 64 = 0" "drop_bit 7 (bs ! 5) = 0"
    by (simp_all only: and_64_below drop_7_below)
  then show ?thesis
    using assms by (intro rtctime_t.equality) (simp_all add: time_of_regs_def clock_shows_def decode_bcd_of)
qed

text \<open>
  C37.  What the clock driver writes and reads, in the format of the clock's data sheet and whatever the
  bus does.  \<^verbatim>\<open>ds1338_write_time\<close> is one transmission to device 0x68, of register number 0 and seven bytes
  that show the time, with the day of the week 1 and of the year the last two digits only; it
  returns unless the transmission reports -1, which fails an assertion.  \<^verbatim>\<open>ds1338_read_time\<close> transmits the
  register number 0 and receives seven bytes; when neither reports -1 and the received bytes show a
  time, it returns this time, and when one of them reports -1 it does not return.
\<close>

theorem rtc_time_roundtrip:
  assumes "second t < 60" "minute t < 60" "hour t < 24" "day t < 32" "month t < 13" "7 \<le> length junk"
  shows "(\<exists>bs. clock_shows bs (t\<lparr>year := year t mod 100\<rparr>) \<and> bs ! 3 = 1 \<and>
      ds1338_write_time K X t s =
        (case iic_transmit K X 0x68 (0 # bs) s of None \<Rightarrow> None | Some (r, s') \<Rightarrow> if r = - 1 then None else Some s')) \<and>
    (\<exists>rx. length rx = 7 \<and>
      (\<forall>r1 s1 r2 bs s2 t'. iic_transmit K X 0x68 [0] s = Some (r1, s1) \<and> iic_receive K X 0x68 rx s1 = Some ((r2, bs), s2) \<and>
         r1 \<noteq> - 1 \<and> r2 \<noteq> - 1 \<and> clock_shows bs t' \<longrightarrow> ds1338_read_time K X junk s = Some (t', s2)) \<and>
      (\<forall>s1. iic_transmit K X 0x68 [0] s = Some (- 1, s1) \<longrightarrow> ds1338_read_time K X junk s = None) \<and>
      (\<forall>r1 s1 bs s2. iic_transmit K X 0x68 [0] s = Some (r1, s1) \<and> iic_receive K X 0x68 rx s1 = Some ((- 1, bs), s2) \<longrightarrow>
         ds1338_read_time K X junk s = None))"
proof (intro conjI)
  show "\<exists>bs. clock_shows bs (t\<lparr>year := year t mod 100\<rparr>) \<and> bs ! 3 = 1 \<and>
      ds1338_write_time K X t s =
        (case iic_transmit K X 0x68 (0 # bs) s of None \<Rightarrow> None | Some (r, s') \<Rightarrow> if r = - 1 then None else Some s')"
    using regs_of_time_shows [OF assms(1-5)]
    by (intro exI [of _ "regs_of_time t"])
      (auto simp: ds1338_write_time_def send_checked_def configASSERT_def regs_of_time_def split: option.splits)
  define rx where "rx = (take 7 junk)[0 := 0]"
  have rx: "take 1 rx = [0]" "length rx = 7"
    using assms(6) by (cases junk; simp add: rx_def)+
  have rd: "ds1338_read_time K X junk s =
      do { s \<leftarrow> send_checked K X 0x68 [0] s; (bs, s) \<leftarrow> recv_checked K X 0x68 rx s; Some (time_of_regs bs, s)}"
    using rx(1) by (simp add: ds1338_read_time_def rx_def Let_def)
  show "\<exists>rx. length rx = 7 \<and>
      (\<forall>r1 s1 r2 bs s2 t'. iic_transmit K X 0x68 [0] s = Some (r1, s1) \<and> iic_receive K X 0x68 rx s1 = Some ((r2, bs), s2) \<and>
         r1 \<noteq> - 1 \<and> r2 \<noteq> - 1 \<and> clock_shows bs t' \<longrightarrow> ds1338_read_time K X junk s = Some (t', s2)) \<and>
      (\<forall>s1. iic_transmit K X 0x68 [0] s = Some (- 1, s1) \<longrightarrow> ds1338_read_time K X junk s = None) \<and>
      (\<forall>r1 s1 bs s2. iic_transmit K X 0x68 [0] s = Some (r1, s1) \<and> iic_receive K X 0x68 rx s1 = Some ((- 1, bs), s2) \<longrightarrow>
         ds1338_read_time K X junk s = None)"
    using rx(2) by (intro exI [of _ rx])
      (auto simp: rd send_checked_def recv_checked_def configASSERT_def time_of_regs_shows split: option.splits)
qed

text \<open>
  A device to evaluate the driver on: it keeps the last message of more than one byte, without its
  first byte, and returns it; the last component tells a transfer from the device.
\<close>

type_synonym demo_clock = "u8 list \<times> u8 list \<times> bool"

definition demo_clock_bus :: "demo_clock xiic" where
  "demo_clock_bus = \<lparr>XIic_Initialize = (\<lambda>_ d. (0, d)), XIic_SelfTest = (\<lambda>d. (0, d)), XIic_SetHandlers = id,
     XIic_Start = id, XIic_Stop = id, XIic_IsIicBusy = (\<lambda>_. False), XIic_SetAddress = (\<lambda>_ d. (0, d)),
     XIic_MasterSend = (\<lambda>bs (r, rx, f). (0, if tl bs = [] then r else tl bs, rx, False)),
     XIic_MasterRecv = (\<lambda>n (r, rx, f). (0, r, take n r, True)),
     XIic_Reset = id, Callbacks = (\<lambda>(r, rx, f). [(if f then RecvEvent 0 else SendEvent 0, r, rx, f)]),
     RxBytes = (\<lambda>(r, rx, f). rx)\<rparr>"

definition demo_rtc :: "(demo_clock, bool \<times> bool) iic" where
  "demo_rtc = \<lparr>drv = \<lparr>TotalErrorCount = 0, Errors = 0, trans_len = 0, mutex = True, task_handle = True\<rparr>,
     dev = ([0x59, 0x05, 0x13, 2, 0x09, 0x07, 0x21], [], False), kern = (False, False)\<rparr>"

lemma demo_rtc_clean: "iic_clean demo_kernel demo_rtc"
  by (simp add: iic_clean_def demo_rtc_def unlocked_def pending_def demo_kernel_def)

theorem rtc_time_roundtrip_witness:
  "\<exists>s'. ds1338_read_time demo_kernel demo_clock_bus (replicate 7 0) demo_rtc = Some (make_time 21 7 9 13 5 59, s')"
proof -
  let ?r = "[0x59, 0x05, 0x13, 2, 0x09, 0x07, 0x21] :: u8 list" and ?t = "make_time 21 7 9 13 5 59"
  have t: "\<not> XIic_IsIicBusy demo_clock_bus (dev demo_rtc)" "XIic_SetAddress demo_clock_bus 0x68 (dev demo_rtc) = (0, dev demo_rtc)"
    "XIic_MasterSend demo_clock_bus [0] (dev demo_rtc) = (0, ?r, [], False)"
    "first_signal (Callbacks demo_clock_bus (?r, [], False)) = Some (SendEvent 0, ?r, [], False)"
    by (simp_all add: demo_clock_bus_def demo_rtc_def)
  obtain s1 where s1: "iic_transmit demo_kernel demo_clock_bus 0x68 [0] demo_rtc = Some (1, s1)" "iic_clean demo_kernel s1"
    "dev s1 = (?r, [], False)"
    using transmit_ok [OF demo_kernel_ok demo_rtc_clean t] by auto
  have r: "\<exists>s2. iic_receive demo_kernel demo_clock_bus 0x68 rx s1 = Some ((7, ?r), s2)" if "length rx = 7" for rx
  proof -
    have v: "\<not> XIic_IsIicBusy demo_clock_bus (dev s1)" "XIic_SetAddress demo_clock_bus 0x68 (dev s1) = (0, ?r, [], False)"
      "XIic_MasterRecv demo_clock_bus (length rx) (?r, [], False) = (0, ?r, ?r, True)"
      "first_signal (Callbacks demo_clock_bus (?r, ?r, True)) = Some (RecvEvent 0, ?r, ?r, True)"
      using that by (simp_all add: demo_clock_bus_def s1(3))
    have "overlay (RxBytes demo_clock_bus (?r, ?r, True)) rx = ?r"
      using that by (simp add: overlay_def demo_clock_bus_def)
    then show ?thesis
      using receive_ok [OF demo_kernel_ok s1(2) v] that by auto
  qed
  have sh: "clock_shows ?r ?t"
    by (simp add: clock_shows_def bcd_of_def make_time_def word_le_nat_alt)
  have rng: "second ?t < 60" "minute ?t < 60" "hour ?t < 24" "day ?t < 32" "month ?t < 13" "7 \<le> length (replicate 7 (0 :: u8))"
    by (simp_all add: make_time_def)
  obtain rx where rx: "length rx = 7" and rd: "\<forall>r1 s1 r2 bs s2 t'.
      iic_transmit demo_kernel demo_clock_bus 0x68 [0] demo_rtc = Some (r1, s1) \<and>
      iic_receive demo_kernel demo_clock_bus 0x68 rx s1 = Some ((r2, bs), s2) \<and> r1 \<noteq> - 1 \<and> r2 \<noteq> - 1 \<and> clock_shows bs t' \<longrightarrow>
      ds1338_read_time demo_kernel demo_clock_bus (replicate 7 0) demo_rtc = Some (t', s2)"
    using rtc_time_roundtrip [OF rng, of demo_kernel demo_clock_bus demo_rtc, THEN conjunct2]
    by (elim exE conjE) (rule that)
  obtain s2 where "iic_receive demo_kernel demo_clock_bus 0x68 rx s1 = Some ((7, ?r), s2)"
    using r [OF rx] by blast
  then show ?thesis
    using rd [rule_format, of 1 s1 7 ?r s2 ?t] s1(1) sh by auto
qed

subsection \<open>The proximity sensor\<close>

lemma poll_small: "vcnl4010_poll n K X ready reg s = Some (v, s') \<Longrightarrow> unat v < 256"
proof (induction n arbitrary: s)
  case (Suc n)
  have "unat (ucast x :: u16) < 256" for x :: u8
    using unsigned_less [of x, where ?'a = nat] by (simp add: unsigned_ucast_eq take_bit_eq_mod)
  then show ?case
    using Suc by (auto simp: bind_eq_Some_conv split: if_splits)
qed simp

text \<open>
  The 16-bit measurements are cut to 8 bits: whatever the sensor reports, \<^verbatim>\<open>vcnl4010_readProximity\<close> and
  \<^verbatim>\<open>vcnl4010_readAmbient\<close> return a value below 256.
\<close>

theorem vcnl4010_truncates:
  assumes "vcnl4010_readProximity n K X s = Some (v, s')" "vcnl4010_readAmbient m K X t = Some (w, t')"
  shows "unat v < 256 \<and> unat w < 256"
  using assms by (auto simp: vcnl4010_readProximity_def vcnl4010_readAmbient_def bind_eq_Some_conv dest: poll_small)

definition demo_sensor :: "(nat \<times> bool) xiic" where
  "demo_sensor = \<lparr>XIic_Initialize = (\<lambda>_ d. (0, d)), XIic_SelfTest = (\<lambda>d. (0, d)), XIic_SetHandlers = id,
     XIic_Start = id, XIic_Stop = id, XIic_IsIicBusy = (\<lambda>_. False), XIic_SetAddress = (\<lambda>_ d. (0, d)),
     XIic_MasterSend = (\<lambda>_ _. (0, 0, False)), XIic_MasterRecv = (\<lambda>n _. (0, n, True)), XIic_Reset = id,
     Callbacks = (\<lambda>(n, f). [(if f then RecvEvent 0 else SendEvent 0, n, f)]),
     RxBytes = (\<lambda>(n, f). replicate n 0x7F)\<rparr>"

definition demo_iic2 :: "(nat \<times> bool, bool \<times> bool) iic" where
  "demo_iic2 = \<lparr>drv = \<lparr>TotalErrorCount = 0, Errors = 0, trans_len = 0, mutex = True, task_handle = True\<rparr>,
     dev = (0, False), kern = (False, False)\<rparr>"

lemma demo_measure:
  "\<exists>s'. vcnl4010_readProximity 1 demo_kernel demo_sensor demo_iic2 = Some (0x7F, s')"
  "\<exists>s'. vcnl4010_readAmbient 1 demo_kernel demo_sensor demo_iic2 = Some (0x7F, s')"
  by (rule exI; code_simp)+

theorem vcnl4010_truncates_witness:
  "\<exists>v w s' t'. vcnl4010_readProximity 1 demo_kernel demo_sensor demo_iic2 = Some (v, s') \<and>
     vcnl4010_readAmbient 1 demo_kernel demo_sensor demo_iic2 = Some (w, t') \<and> unat v < 256 \<and> unat w < 256"
  using demo_measure vcnl4010_truncates [of 1 demo_kernel demo_sensor demo_iic2 "0x7F" _ 1 demo_iic2]
  by metis

end
