(* ===== verification/Http.thy ===== *)
theory Http
  imports ElfLoader
begin

section \<open>The web server and its peek and poke handler (protocols/)\<close>

text \<open>
  \<^verbatim>\<open>FreeRTOS_TCP_server.c\<close> keeps a list of clients and lets each work once a cycle;
  \<^verbatim>\<open>FreeRTOS_HTTP_server.c\<close> parses one request and sends the reply; \<^verbatim>\<open>peekpoke.c\<close> reads and writes memory on
  request.

  The command buffer is the list \<open>region\<close>: its first 2048 bytes are \<^verbatim>\<open>pcCommandBuffer\<close>, what follows are
  the bytes behind it in the server structure.  Pointers into it are positions.  Copying from
  beyond the region is undefined and gives \<open>None\<close>.  The memory that is peeked and poked is a
  function from addresses to bytes, kept apart from the server's own structures: the command buffer, the
  output buffer and the parser's string are taken not to lie in the peeked or poked range.  So the
  clearing of the output buffer before the copy of a peek is not seen (a peek at that buffer itself
  would return zeros and the bytes copied so far), and a poke does not change the request it comes
  from.  The results of \<^verbatim>\<open>FreeRTOS_recv\<close>, \<^verbatim>\<open>FreeRTOS_send\<close> and \<^verbatim>\<open>FreeRTOS_accept\<close> are parameters, what is sent is
  recorded.  The configuration is that of the Makefile: \<^verbatim>\<open>ipconfigUSE_HTTP=1\<close>, no FTP,
  \<^verbatim>\<open>ffconfigMAX_FILENAME=4096\<close>.
\<close>

subsection \<open>Numbers as text\<close>

fun dec :: "nat \<Rightarrow> u8 list" where
  "dec n = (if n < 10 then [of_nat (48 + n)] else dec (n div 10) @ [of_nat (48 + n mod 10)])"

fun hex :: "nat \<Rightarrow> u8 list" where
  "hex n = (let d = n mod 16; c = of_nat (if d < 10 then 48 + d else 87 + d)
            in if n < 16 then [c] else hex (n div 16) @ [c])"

lemmas [simp del] = dec.simps hex.simps

definition fmt_d :: "int \<Rightarrow> u8 list" where
  "fmt_d i = (if i < 0 then 45 # dec (nat (- i)) else dec (nat i))"

definition fmt_p :: "addr \<Rightarrow> u8 list" where
  "fmt_p a = bytes_of ''0x'' @ hex (unat a)"

text \<open>\<^verbatim>\<open>snprintf(buf, n, ...)\<close>, as the string that is left in the buffer.\<close>

definition snprintf :: "nat \<Rightarrow> u8 list \<Rightarrow> u8 list" where
  "snprintf n text = take (n - 1) text"

definition digit_value :: "u8 \<Rightarrow> nat" where
  "digit_value c =
     (if 48 \<le> c \<and> c \<le> 57 then unat c - 48
      else if 97 \<le> c \<and> c \<le> 122 then unat c - 87
      else if 65 \<le> c \<and> c \<le> 90 then unat c - 55
      else 99)"

fun scan_digits :: "nat \<Rightarrow> nat \<Rightarrow> u8 list \<Rightarrow> nat \<times> u8 list" where
  "scan_digits base v [] = (v, [])"
| "scan_digits base v (c # cs) =
     (if digit_value c < base then scan_digits base (v * base + digit_value c) cs else (v, c # cs))"

text \<open>
  \<^verbatim>\<open>strtoll(s, &end, 0)\<close>: the value and the string at \<^verbatim>\<open>end\<close>, which is \<open>s\<close> itself if there is no number.
\<close>

definition strtoll0 :: "u8 list \<Rightarrow> int \<times> u8 list" where
  "strtoll0 s =
     (let s1 = dropWhile (\<lambda>c. c = 32 \<or> 9 \<le> c \<and> c \<le> 13) s;
          neg = (s1 \<noteq> [] \<and> hd s1 = 45);
          s2 = (if s1 \<noteq> [] \<and> (hd s1 = 45 \<or> hd s1 = 43) then tl s1 else s1);
          (base, s3) =
            (if 3 \<le> length s2 \<and> s2 ! 0 = 48 \<and> (s2 ! 1 = 120 \<or> s2 ! 1 = 88) \<and> digit_value (s2 ! 2) < 16
             then (16, drop 2 s2)
             else if s2 \<noteq> [] \<and> hd s2 = 48 then (8, s2)
             else (10, s2));
          (v, rest) = scan_digits base 0 s3 in
      if length rest = length s3 then (0, s)
      else (if neg then max (- (2 ^ 63)) (- int v) else min (2 ^ 63 - 1) (int v), rest))"

subsection \<open>The peek and poke handler\<close>

definition addressToCharPtr :: "int \<Rightarrow> addr" where
  "addressToCharPtr address = word_of_int (take_bit 32 address)"

text \<open>The static pointer \<^verbatim>\<open>buf\<close> is the string it points to, \<open>None\<close> for \<^verbatim>\<open>NULL\<close>.\<close>

definition getNextNumber :: "u8 list option \<Rightarrow> int \<times> u8 list option" where
  "getNextNumber buf =
     (case buf of
        None \<Rightarrow> (0, None)
      | Some s \<Rightarrow>
          let (result, end) = strtoll0 s in
          if end \<noteq> [] \<and> hd end = of_char (CHR ''/'') then (result, Some (tl end))
          else if length end = length s then (0, None)
          else (result, Some end))"

record http_world =
  memy :: memory
  pcContentsType :: "u8 list"
  pcExtraContents :: "u8 list"
  bReplySent :: bool
  sent :: "u8 list list"

abbreviation (input) ECMD_GET :: nat where "ECMD_GET \<equiv> 0"
abbreviation (input) ECMD_PATCH :: nat where "ECMD_PATCH \<equiv> 8"
abbreviation (input) ECMD_UNK :: nat where "ECMD_UNK \<equiv> 9"
abbreviation (input) STACK_BUFFER_SIZE :: nat where "STACK_BUFFER_SIZE \<equiv> 1024"

definition hello_text :: "addr \<Rightarrow> nat \<Rightarrow> u8 list" where
  "hello_text stk n =
     bytes_of ''It'' @ [39] @ bytes_of ''s dark here; you may be eaten by a grue.'' @ [10, 10] @
     bytes_of ''&stackBuffer = '' @ fmt_p stk @ [10] @
     bytes_of ''STACK_BUFFER_SIZE = '' @ dec STACK_BUFFER_SIZE @ [10] @
     bytes_of ''uxBufferLength = '' @ dec n @ [10] @ bytes_of ''stackBuffer = xyzzy'' @ [10]"

definition wrote_text :: "int \<Rightarrow> addr \<Rightarrow> u8 list" where
  "wrote_text n p = bytes_of ''Wrote '' @ fmt_d n @ bytes_of '' bytes to '' @ fmt_p p @ bytes_of '' for '' @ [39] @
     bytes_of ''ya!'' @ [10]"

text \<open>
  The result is the return value and the contents of the output buffer up to it; \<open>stk\<close> is the address
  of the stack buffer, \<open>rest\<close> the bytes from \<^verbatim>\<open>pcRestData\<close> on.
\<close>

definition peekPokeHandler ::
  "addr \<Rightarrow> nat \<Rightarrow> u8 list \<Rightarrow> u8 list \<Rightarrow> nat \<Rightarrow> http_world \<Rightarrow> (u8 list \<times> http_world) option" where
  "peekPokeHandler stk xIndex url rest uxBufferLength w =
     (if xIndex = ECMD_GET then
        if take 6 url = bytes_of ''/hello'' then
          Some (snprintf uxBufferLength (hello_text stk uxBufferLength), w\<lparr>pcContentsType := bytes_of ''text/plain''\<rparr>)
        else if take 6 url = bytes_of ''/peek/'' then
          let w = w\<lparr>pcContentsType := bytes_of ''application/octet-stream''\<rparr>;
              (memAddress, buf) = getNextNumber (Some (drop 6 url));
              (n, buf) = getNextNumber buf;
              readLength = (word_of_int n :: u32);
              mem = addressToCharPtr memAddress in
          if memAddress \<noteq> 0 \<and> readLength \<noteq> 0 then
            let readLength = min (unat readLength) uxBufferLength in
            Some (map (\<lambda>i. memy w (mem + of_nat i)) [0..<readLength], w)
          else Some ([], w)
        else Some ([], w)
      else if xIndex = ECMD_PATCH then
        if take 6 url = bytes_of ''/poke/'' then
          let w = w\<lparr>pcContentsType := bytes_of ''text/plain''\<rparr>;
              (a, buf) = getNextNumber (Some (drop 6 url));
              (n, buf) = getNextNumber buf;
              memAddress = (word_of_int a :: u32);
              writeLength = (word_of_int n :: u32);
              mem = addressToCharPtr (sint memAddress);
              out = snprintf uxBufferLength (wrote_text (sint writeLength) mem) in
          if memAddress \<noteq> 0 \<and> writeLength \<noteq> 0 then
            if length rest < unat writeLength then None
            else Some (out, w\<lparr>memy := mem_write mem (take (unat writeLength) rest) (memy w)\<rparr>)
          else Some (out, w)
        else Some ([], w)
      else Some ([], w))"

subsection \<open>Replies\<close>

definition webCodename :: "int \<Rightarrow> string" where
  "webCodename c =
     (if c = 200 then ''OK'' else if c = 204 then ''No content'' else if c = 400 then ''Bad request''
      else if c = 401 then ''Authorization Required'' else if c = 404 then ''Not Found'' else if c = 410 then ''Done''
      else if c = 412 then ''Precondition Failed'' else if c = 500 then ''Internal Server Error''
      else ''Unknown'')"

type_synonym sender = "u8 list list \<Rightarrow> nat \<Rightarrow> int"

definition http_send :: "sender \<Rightarrow> u8 list \<Rightarrow> http_world \<Rightarrow> int \<times> http_world" where
  "http_send S bs w = (S (sent w) (length bs), w\<lparr>sent := sent w @ [bs]\<rparr>)"

definition reply_header :: "int \<Rightarrow> u8 list \<Rightarrow> u8 list \<Rightarrow> u8 list" where
  "reply_header xCode ctype extra =
     bytes_of ''HTTP/1.1 '' @ fmt_d xCode @ [32] @ bytes_of (webCodename xCode) @ [13, 10] @
     bytes_of ''Content-Type: '' @ (if ctype \<noteq> [] then ctype else bytes_of ''text/html'') @ [13, 10] @
     bytes_of ''Connection: keep-alive'' @ [13, 10] @ extra @ [13, 10]"

definition prvSendReply :: "sender \<Rightarrow> int \<Rightarrow> http_world \<Rightarrow> int \<times> http_world" where
  "prvSendReply S xCode w =
     (let pcBuffer = reply_header xCode (pcContentsType w) (pcExtraContents w);
          w = w\<lparr>pcContentsType := [], pcExtraContents := []\<rparr>;
          (xRc, w) = http_send S pcBuffer w
      in (xRc, w\<lparr>bReplySent := True\<rparr>))"

abbreviation (input) ffconfigMAX_FILENAME :: nat where "ffconfigMAX_FILENAME \<equiv> 4096"

definition prvOpenURL ::
  "sender \<Rightarrow> addr \<Rightarrow> nat \<Rightarrow> u8 list \<Rightarrow> u8 list \<Rightarrow> http_world \<Rightarrow> (int \<times> http_world) option" where
  "prvOpenURL S stk xIndex url rest w = do {
     let w = w\<lparr>bReplySent := False\<rparr>;
     (out, w) \<leftarrow> peekPokeHandler stk xIndex url rest ffconfigMAX_FILENAME w;
     if length out > 0 then do {
       let w = w\<lparr>pcExtraContents := bytes_of ''Content-Length: '' @ dec (length out) @ [13, 10]\<rparr>;
       let (xRc, w) = prvSendReply S 200 w;
       if xRc > 0 then Some (http_send S out w) else Some (xRc, w) }
     else Some (prvSendReply S 404 w)}"

subsection \<open>Requests\<close>

definition xWebCommands :: "u8 list list" where
  "xWebCommands = map bytes_of [''GET'', ''HEAD'', ''POST'', ''PUT'', ''DELETE'', ''TRACE'', ''OPTIONS'', ''CONNECT'', ''PATCH'', ''UNKN'']"

abbreviation (input) COMMAND_BUFFER_SIZE :: nat where "COMMAND_BUFFER_SIZE \<equiv> 2048"

text \<open>The loop that cuts line ends off the request.\<close>

fun trim_end :: "nat \<Rightarrow> u8 list \<Rightarrow> nat \<times> u8 list" where
  "trim_end 0 b = (0, b)"
| "trim_end (Suc n) b = (if b ! n = 13 \<or> b ! n = 10 then trim_end n (b[n := 0]) else (Suc n, b))"

text \<open>The loop over the commands; the last entry of the table is not tried.\<close>

fun find_command :: "u8 list list \<Rightarrow> nat \<Rightarrow> nat \<Rightarrow> u8 list \<Rightarrow> nat option" where
  "find_command [] i xRc b = None"
| "find_command (c # cs) i xRc b =
     (if length c \<le> xRc \<and> take (length c) b = c then Some i else find_command cs (i + 1) xRc b)"

text \<open>
  The loop that ends the URL: the new buffer and the position of \<^verbatim>\<open>pcRestData\<close>, if there is one.
\<close>

function end_url :: "nat \<Rightarrow> nat \<Rightarrow> u8 list \<Rightarrow> u8 list \<times> nat option" where
  "end_url p e b =
     (if \<not> p < e then (b, None)
      else if b ! p = 0 \<or> b ! p = 10 \<or> b ! p = 13 \<or> b ! p = 32 \<or> b ! p = 9 then (b[p := 0], Some (p + 1))
      else end_url (p + 1) e b)"
  by auto

termination
  by (relation "measure (\<lambda>(p, e, _). e - p)") auto

lemmas [simp del] = end_url.simps

text \<open>What \<^verbatim>\<open>FreeRTOS_recv\<close> returns: zero or an error, or some bytes.\<close>

datatype http_recv = NoData int | Received "u8 list"

text \<open>\<open>pcEmptyString\<close> is one zero byte.\<close>

definition xHTTPClientWork ::
  "sender \<Rightarrow> addr \<Rightarrow> http_recv \<Rightarrow> u8 list \<times> http_world \<Rightarrow> (int \<times> u8 list \<times> http_world) option" where
  "xHTTPClientWork S stk r = (\<lambda>(region, w).
     case r of
       NoData xRc \<Rightarrow> Some (xRc, region, w)
     | Received bs \<Rightarrow> do {
         let xRc = length bs;
         let b = bs @ drop xRc region;
         let b = (if xRc < COMMAND_BUFFER_SIZE then b[xRc := 0] else b);
         let (xRc, b) = trim_end xRc b;
         case find_command (butlast xWebCommands) 0 xRc b of
           None \<Rightarrow> Some (int xRc, b, w)
         | Some xIndex \<Rightarrow> do {
             let url = length (xWebCommands ! xIndex) + 1;
             let (b, rest) = end_url url xRc b;
             (xRc, w) \<leftarrow> prvOpenURL S stk xIndex (cstr_at b url)
               (case rest of None \<Rightarrow> [0] | Some q \<Rightarrow> drop q b) w;
             Some (xRc, b, w)}})"

subsection \<open>The server\<close>

datatype eSERVER_TYPE = eSERVER_NONE | eSERVER_HTTP | eSERVER_FTP

record tcp_client =
  eType :: eSERVER_TYPE
  xSocket :: nat

record 'w tcp_server =
  xServers :: "(eSERVER_TYPE \<times> nat option) list"
  pxClients :: "tcp_client list"
  socket_set :: "nat list"
  closed :: "nat list"
  world :: 'w

text \<open>
  \<open>alloc\<close> tells whether \<^verbatim>\<open>pvPortMallocLarge\<close> succeeds.  Only HTTP clients have a work function, and they
  have no delete function.
\<close>

definition prvReceiveNewClient :: "bool \<Rightarrow> nat \<Rightarrow> nat \<Rightarrow> 'w tcp_server \<Rightarrow> 'w tcp_server" where
  "prvReceiveNewClient alloc xIndex xNexSocket s =
     (if fst (xServers s ! xIndex) = eSERVER_HTTP \<and> alloc then
        s\<lparr>pxClients := \<lparr>eType = eSERVER_HTTP, xSocket = xNexSocket\<rparr> # pxClients s,
          socket_set := socket_set s @ [xNexSocket]\<rparr>
      else s\<lparr>closed := closed s @ [xNexSocket]\<rparr>)"

text \<open>
  \<open>accepted\<close> lists, per listening socket, what \<^verbatim>\<open>FreeRTOS_accept\<close> gives (a valid socket or none) and whether
  the allocation for it succeeds.
\<close>

fun accept_loop :: "(nat option \<times> bool) list \<Rightarrow> nat \<Rightarrow> 'w tcp_server \<Rightarrow> 'w tcp_server" where
  "accept_loop [] i s = s"
| "accept_loop ((x, alloc) # xs) i s =
     (if snd (xServers s ! i) = None then accept_loop xs (i + 1) s
      else case x of None \<Rightarrow> accept_loop xs (i + 1) s
           | Some c \<Rightarrow> accept_loop xs (i + 1) (prvReceiveNewClient alloc i c s))"

text \<open>
  The loop over the client list: \<open>work\<close> is the work function; a client whose work returns a negative
  value is taken out of the list and freed.
\<close>

fun work_loop :: "(tcp_client \<Rightarrow> 'w \<Rightarrow> (int \<times> 'w) option) \<Rightarrow> tcp_client list \<Rightarrow> 'w \<Rightarrow> (tcp_client list \<times> 'w) option" where
  "work_loop work [] w = Some ([], w)"
| "work_loop work (c # cs) w = do {
     (xRc, w) \<leftarrow> work c w;
     (cs, w) \<leftarrow> work_loop work cs w;
     Some (if xRc < 0 then cs else c # cs, w)}"

definition FreeRTOS_TCPServerWork ::
  "(tcp_client \<Rightarrow> 'w \<Rightarrow> (int \<times> 'w) option) \<Rightarrow> bool \<Rightarrow> (nat option \<times> bool) list \<Rightarrow> 'w tcp_server \<Rightarrow> 'w tcp_server option" where
  "FreeRTOS_TCPServerWork work selected accepted s = do {
     let s = (if selected then accept_loop (take (length (xServers s)) accepted) 0 s else s);
     (cs, w) \<leftarrow> work_loop work (pxClients s) (world s);
     Some (s\<lparr>pxClients := cs, world := w\<rparr>)}"

fun prvRemoveSlash :: "nat \<Rightarrow> u8 list \<Rightarrow> u8 list" where
  "prvRemoveSlash 0 d = d"
| "prvRemoveSlash (Suc n) d = (if d ! n = of_char (CHR ''/'') then prvRemoveSlash n (d[n := 0]) else d)"

text \<open>
  \<^verbatim>\<open>FreeRTOS_CreateTCPServer\<close>: \<open>socks\<close> are the results of \<^verbatim>\<open>FreeRTOS_socket\<close>, one per configuration with a
  positive port.
\<close>

fun create_loop :: "(eSERVER_TYPE \<times> int) list \<Rightarrow> nat option list \<Rightarrow> (eSERVER_TYPE \<times> nat option) list \<times> nat list" where
  "create_loop [] socks = ([], [])"
| "create_loop ((ty, port) # cfgs) socks =
     (if port > 0 then
        case socks of
          Some x # socks \<Rightarrow> (let (sv, set) = create_loop cfgs socks in ((ty, Some x) # sv, x # set))
        | _ \<Rightarrow> (let (sv, set) = create_loop cfgs (tl socks) in ((eSERVER_NONE, None) # sv, set))
      else (let (sv, set) = create_loop cfgs socks in ((eSERVER_NONE, None) # sv, set)))"

definition FreeRTOS_CreateTCPServer ::
  "bool \<Rightarrow> bool \<Rightarrow> (eSERVER_TYPE \<times> int) list \<Rightarrow> nat option list \<Rightarrow> 'w \<Rightarrow> 'w tcp_server option" where
  "FreeRTOS_CreateTCPServer socketset alloc cfgs socks w =
     (if socketset \<and> alloc then
        let (sv, set) = create_loop cfgs socks in
        Some \<lparr>xServers = sv, pxClients = [], socket_set = set, closed = [], world = w\<rparr>
      else None)"

end
