(* ===== verification/Http_Props.thy ===== *)
theory Http_Props
  imports Http
begin

section \<open>Properties of the web server\<close>

text \<open>
  Printing and parsing of numbers, what a peek request returns and what a poke request writes, and
  what a cycle of the server does to its clients.
\<close>

subsection \<open>Numbers\<close>

lemma dec_Nil [simp]: "dec n \<noteq> []"
  by (subst dec.simps) auto

lemma unat_dec_digit: "k < 10 \<Longrightarrow> unat (of_nat (48 + k) :: u8) = 48 + k"
  by (subst unat_of_nat_small) simp_all

lemma digit_value_dec: "k < 10 \<Longrightarrow> digit_value (of_nat (48 + k)) = k"
  by (simp add: digit_value_def word_le_nat_alt unat_dec_digit del: of_nat_add)

lemma dec_digits:
  "c \<in> set (dec n) \<Longrightarrow> 48 \<le> c \<and> c \<le> 57"
proof (induction n rule: dec.induct)
  case (1 n)
  then show ?case
    by (subst (asm) dec.simps) (auto split: if_splits simp: word_le_nat_alt unat_dec_digit simp del: of_nat_add)
qed

lemma scan_dec:
  "scan_digits 10 v (dec n @ rest) = scan_digits 10 (v * 10 ^ length (dec n) + n) rest"
proof (induction n arbitrary: v rest rule: dec.induct)
  case (1 n)
  show ?case
  proof (cases "n < 10")
    case True
    then show ?thesis
      by (simp add: dec.simps [of n] digit_value_dec del: of_nat_add)
  next
    case False
    have "scan_digits 10 v (dec n @ rest) = scan_digits 10 v (dec (n div 10) @ of_nat (48 + n mod 10) # rest)"
      using False by (simp add: dec.simps [of n] del: of_nat_add)
    also have "\<dots> = scan_digits 10 ((v * 10 ^ length (dec (n div 10)) + n div 10) * 10 + n mod 10) rest"
      using 1 False by (simp add: digit_value_dec del: of_nat_add)
    also have "(v * 10 ^ length (dec (n div 10)) + n div 10) * 10 + n mod 10 = v * 10 ^ length (dec n) + n"
      using False by (simp add: dec.simps [of n] algebra_simps)
    finally show ?thesis .
  qed
qed

lemma dec_length: "n < 10 ^ k \<Longrightarrow> 0 < k \<Longrightarrow> length (dec n) \<le> k"
proof (induction n arbitrary: k rule: dec.induct)
  case (1 n)
  show ?case
  proof (cases "n < 10")
    case False
    obtain j where j: "k = Suc j" "0 < j"
      using 1(2,3) False by (cases k; cases "k - 1") auto
    then have "length (dec (n div 10)) \<le> j"
      using 1(1) [OF False, of j] 1(2) by (simp add: div_less_iff_less_mult)
    then show ?thesis
      using False j by (simp add: dec.simps [of n])
  qed (use 1(3) in \<open>simp add: dec.simps [of n]\<close>)
qed

lemma hex_length: "n < 16 ^ k \<Longrightarrow> 0 < k \<Longrightarrow> length (hex n) \<le> k"
proof (induction n arbitrary: k rule: hex.induct)
  case (1 n)
  show ?case
  proof (cases "n < 16")
    case False
    obtain j where j: "k = Suc j" "0 < j"
      using 1(2,3) False by (cases k; cases "k - 1") auto
    then have "length (hex (n div 16)) \<le> j"
      using 1(1) [OF refl refl False, of j] 1(2) by (simp add: div_less_iff_less_mult)
    then show ?thesis
      using False j by (simp add: hex.simps [of n] Let_def)
  qed (use 1(3) in \<open>simp add: hex.simps [of n] Let_def\<close>)
qed

lemma dec_hd:
  "0 < n \<Longrightarrow> hd (dec n) \<noteq> 48"
proof (induction n rule: dec.induct)
  case (1 n)
  show ?case
  proof (cases "n < 10")
    case True
    then have "unat (of_nat (48 + n) :: u8) \<noteq> 48"
      using 1(2) by (simp only: unat_dec_digit)
    then show ?thesis
      using True by (simp add: dec.simps [of n] word_unat_eq_iff del: of_nat_add)
  next
    case False
    then show ?thesis
      using 1(1) by (simp add: dec.simps [of n])
  qed
qed

text \<open>A printed number is read back, up to the first character that is no digit.\<close>

lemma strtoll0_dec:
  assumes "0 < n" "n < 2 ^ 63" "rest = [] \<or> 10 \<le> digit_value (hd rest)"
  shows "strtoll0 (dec n @ rest) = (int n, rest)"
proof -
  obtain c cs where c: "dec n = c # cs"
    by (cases "dec n") simp_all
  have r: "48 \<le> unat c" "unat c \<le> 57" "c \<noteq> 48"
    using dec_digits [of c n] dec_hd [OF assms(1)] by (simp_all add: c word_le_nat_alt)
  then have "\<not> (c = 32 \<or> 9 \<le> c \<and> c \<le> 13)" "c \<noteq> 45" "c \<noteq> 43"
    by (auto simp: word_le_nat_alt)
  then have pre: "dropWhile (\<lambda>c. c = 32 \<or> 9 \<le> c \<and> c \<le> 13) (dec n @ rest) = dec n @ rest" "hd (dec n @ rest) = c"
    "dec n @ rest \<noteq> []" "(dec n @ rest) ! 0 = c"
    unfolding c by auto
  have sc: "scan_digits 10 0 (dec n @ rest) = (n, rest)"
    using assms(3) scan_dec [of 0 n rest] by (cases rest) simp_all
  show ?thesis
    unfolding strtoll0_def Let_def pre(1)
    using \<open>c \<noteq> 45\<close> \<open>c \<noteq> 43\<close> r(3) assms(2) by (simp add: pre(2-4) sc del: append_is_Nil_conv)
qed

lemma getNextNumber_dec:
  assumes "0 < n" "n < 2 ^ 63"
  shows "getNextNumber (Some (dec n @ 47 # rest)) = (int n, Some rest)"
    "getNextNumber (Some (dec n)) = (int n, Some [])"
proof -
  have "10 \<le> digit_value 47"
    by (simp add: digit_value_def)
  then show "getNextNumber (Some (dec n @ 47 # rest)) = (int n, Some rest)"
    using strtoll0_dec [OF assms, of "47 # rest"] by (simp add: getNextNumber_def)
  show "getNextNumber (Some (dec n)) = (int n, Some [])"
    using strtoll0_dec [OF assms, of "[]"] by (simp add: getNextNumber_def)
qed

subsection \<open>Requests\<close>

text \<open>What \<open>trim_end\<close> leaves of a request: the line ends behind it are cut off.\<close>

definition strip_eol :: "u8 list \<Rightarrow> u8 list" where
  "strip_eol bs = rev (dropWhile (\<lambda>c. c = 13 \<or> c = 10) (rev bs))"

lemma strip_eol_length: "length (strip_eol bs) \<le> length bs"
  using length_dropWhile_le [of "\<lambda>c. c = 13 \<or> c = 10" "rev bs"] by (simp add: strip_eol_def)

lemma strip_eol_append:
  "c \<noteq> 13 \<Longrightarrow> c \<noteq> 10 \<Longrightarrow> strip_eol (pre @ c # tail) = pre @ c # strip_eol tail"
  by (simp add: strip_eol_def dropWhile_append)

lemma trim_end_strip:
  "trim_end (length bs) (bs @ r) =
     (length (strip_eol bs), strip_eol bs @ replicate (length bs - length (strip_eol bs)) 0 @ r)"
proof (induction bs arbitrary: r rule: rev_induct)
  case Nil
  then show ?case
    by (simp add: strip_eol_def)
next
  case (snoc c bs)
  show ?case
  proof (cases "c = 13 \<or> c = 10")
    case True
    have "trim_end (length (bs @ [c])) ((bs @ [c]) @ r) = trim_end (length bs) (bs @ 0 # r)"
      using True by (auto simp: nth_append list_update_append)
    moreover have "strip_eol (bs @ [c]) = strip_eol bs"
      using True by (simp add: strip_eol_def)
    ultimately show ?thesis
      using snoc [of "0 # r"] strip_eol_length [of bs] by (simp add: Suc_diff_le replicate_app_Cons_same)
  next
    case False
    then show ?thesis
      by (simp add: nth_append strip_eol_def)
  qed
qed

text \<open>The URL ends at the first blank.\<close>

abbreviation (input) url_char :: "u8 \<Rightarrow> bool" where
  "url_char c \<equiv> c \<notin> {0, 10, 13, 32, 9}"

lemma end_url_blank:
  assumes "\<forall>c\<in>set url. url_char c"
  shows "end_url (length pre) (length pre + length url + Suc k) (pre @ url @ 32 # tail) =
     (pre @ url @ 0 # tail, Some (length pre + length url + 1))"
  using assms
proof (induction url arbitrary: pre)
  case Nil
  then show ?case
    by (subst end_url.simps) (simp add: nth_append list_update_append)
next
  case (Cons c url)
  then show ?case
    using Cons.IH [of "pre @ [c]"] by (subst end_url.simps) (simp add: nth_append)
qed

lemma dec_url_char: "c \<in> set (dec n) \<Longrightarrow> url_char c"
  using dec_digits [of c n] by auto

text \<open>A request whose command is found: the URL and the rest of the request are handed on.\<close>

lemma client_work_request:
  assumes "find_command (butlast xWebCommands) 0 (length cmd + length url + 2 + length (strip_eol tail)) (cmd @ 32 # url @ 32 # b) = Some i"
    "b = strip_eol tail @ replicate (Suc (length tail - length (strip_eol tail))) 0 @ drop (Suc (length req)) region"
    "xWebCommands ! i = cmd" "\<forall>c\<in>set url. url_char c"
    "req = cmd @ 32 # url @ 32 # tail" "length req < 2048" "2048 \<le> length region"
  shows "xHTTPClientWork S stk (Received req) (region, w) =
     map_option (\<lambda>(xRc, w). (xRc, cmd @ 32 # url @ 0 # b, w)) (prvOpenURL S stk i url b w)"
proof -
  have upd: "(req @ drop (length req) region)[length req := 0] = req @ 0 # drop (Suc (length req)) region"
    using assms(6,7) by (simp add: list_update_append Cons_nth_drop_Suc [symmetric])
  have st: "strip_eol req = cmd @ 32 # url @ 32 # strip_eol tail"
    using strip_eol_append [of 32 "cmd @ 32 # url" tail] by (simp add: assms(5))
  have tr: "trim_end (length req) (req @ 0 # drop (Suc (length req)) region) =
      (length cmd + length url + 2 + length (strip_eol tail), cmd @ 32 # url @ 32 # b)"
    by (subst trim_end_strip) (simp add: st assms(2), simp add: assms(5) replicate_app_Cons_same)
  have eu: "end_url (length cmd + 1) (length cmd + length url + 2 + length (strip_eol tail)) (cmd @ 32 # url @ 32 # b) =
      (cmd @ 32 # url @ 0 # b, Some (length cmd + length url + 2))"
    using end_url_blank [OF assms(4), of "cmd @ [32]" "length (strip_eol tail)" b] by simp
  have ur: "cstr_at (cmd @ 32 # url @ 0 # b) (length cmd + 1) = url"
    using assms(4) by (simp add: cstr_at_def takeWhile_append)
  have dr: "drop (length cmd + length url + 2) (cmd @ 32 # url @ 0 # b) = b"
    by simp
  show ?thesis
    unfolding xHTTPClientWork_def Let_def prod.case http_recv.case
    by (simp only: assms(6) if_True upd tr prod.case assms(1,3) option.case eu ur dr)
      (cases "prvOpenURL S stk i url b w"; auto)
qed

lemma find_get: "3 \<le> n \<Longrightarrow> find_command (butlast xWebCommands) 0 n (bytes_of ''GET'' @ b) = Some 0"
  by (simp add: xWebCommands_def bytes_of_def)

lemma find_patch: "5 \<le> n \<Longrightarrow> find_command (butlast xWebCommands) 0 n (bytes_of ''PATCH'' @ b) = Some 8"
  by (simp add: xWebCommands_def bytes_of_def)

lemma get_patch_work:
  assumes "(cmd, i) \<in> {(''GET'', 0), (''PATCH'', 8)}" "\<forall>c\<in>set url. url_char c"
    "req = bytes_of cmd @ 32 # url @ 32 # tail" "length req < 2048" "2048 \<le> length region"
    "b = strip_eol tail @ replicate (Suc (length tail - length (strip_eol tail))) 0 @ drop (Suc (length req)) region"
  shows "xHTTPClientWork S stk (Received req) (region, w) =
      map_option (\<lambda>(xRc, w). (xRc, bytes_of cmd @ 32 # url @ 0 # b, w)) (prvOpenURL S stk i url b w)"
proof (rule client_work_request [where tail = tail])
  show "find_command (butlast xWebCommands) 0 (length (bytes_of cmd) + length url + 2 + length (strip_eol tail))
      (bytes_of cmd @ 32 # url @ 32 # b) = Some i"
    using assms(1) find_get find_patch by (auto simp: bytes_of_def)
  show "xWebCommands ! i = bytes_of cmd"
    using assms(1) by (auto simp: xWebCommands_def)
qed (use assms in simp_all)

abbreviation (input) access_url :: "string \<Rightarrow> nat \<Rightarrow> nat \<Rightarrow> u8 list" where
  "access_url verb a n \<equiv> bytes_of verb @ dec a @ 47 # dec n"

lemma access_url_chars:
  assumes "verb = ''/peek/'' \<or> verb = ''/poke/''"
  shows "\<forall>c\<in>set (access_url verb a n). url_char c"
proof -
  have "\<forall>c\<in>set (bytes_of verb). url_char c"
    using assms by (auto simp: bytes_of_def)
  then show ?thesis
    using dec_url_char [of _ a] dec_url_char [of _ n] by auto
qed

lemma access_url_take:
  assumes "verb = ''/peek/'' \<or> verb = ''/poke/''"
  shows "take 6 (access_url verb a n) = bytes_of verb" "drop 6 (access_url verb a n) = dec a @ 47 # dec n"
  using assms by (auto simp: bytes_of_def)

lemma peek_verbs: "bytes_of ''/peek/'' \<noteq> bytes_of ''/hello''"
  by (simp add: bytes_of_def)

lemma peek_handler:
  assumes "0 < a" "a < 2 ^ 32" "0 < n" "n < 2 ^ 32"
  shows "peekPokeHandler stk 0 (access_url ''/peek/'' a n) rest L w =
     Some (map (\<lambda>i. memy w (of_nat a + of_nat i)) [0..<min n L], w\<lparr>pcContentsType := bytes_of ''application/octet-stream''\<rparr>)"
proof -
  have nz: "(of_nat n :: u32) \<noteq> 0" and un: "unat (of_nat n :: u32) = n"
    using assms(3,4) by (simp_all add: word_unat_eq_iff unat_of_nat_small)
  have ad: "addressToCharPtr (int a) = of_nat a"
    using assms(2) by (simp add: addressToCharPtr_def take_bit_int_eq_self)
  have t: "take 6 (bytes_of ''/peek/'' @ dec a @ 47 # dec n) = bytes_of ''/peek/''"
    "drop 6 (bytes_of ''/peek/'' @ dec a @ 47 # dec n) = dec a @ 47 # dec n"
    using access_url_take [of "''/peek/''" a n] by simp_all
  have g: "getNextNumber (Some (dec a @ 47 # dec n)) = (int a, Some (dec n))" "getNextNumber (Some (dec n)) = (int n, Some [])"
    using getNextNumber_dec(1) [of a "dec n"] getNextNumber_dec(2) [of n] assms by simp_all
  show ?thesis
    unfolding peekPokeHandler_def t
    using assms(1) by (simp add: peek_verbs g nz un ad Let_def)
qed

text \<open>A handler that returns something: the reply is a header and what the handler returned.\<close>

lemma open_url_reply:
  assumes "peekPokeHandler stk i url rest 4096 (w\<lparr>bReplySent := False\<rparr>) = Some (out, w1)" "out \<noteq> []" "\<forall>l k. 0 < S l k"
  shows "\<exists>xRc w'. prvOpenURL S stk i url rest w = Some (xRc, w') \<and> 0 < xRc \<and> memy w' = memy w1 \<and>
    sent w' = sent w1 @
      [reply_header 200 (pcContentsType w1) (bytes_of ''Content-Length: '' @ dec (length out) @ [13, 10]), out]"
  unfolding prvOpenURL_def using assms by (simp add: prvSendReply_def http_send_def Let_def)

text \<open>
  C38. A request \<^verbatim>\<open>GET /peek/<address>/<length>\<close>, for any non-zero address and length below 2^32 and whatever follows the
  URL, is answered with the code 200, the type \<^verbatim>\<open>application/octet-stream\<close>, the right content length and
  exactly the bytes of memory from the address on, at most 4096 of them; memory is not changed.
\<close>

theorem http_peek_reply:
  assumes "0 < a" "a < 2 ^ 32" "0 < n" "n < 2 ^ 32"
    "req = bytes_of ''GET'' @ 32 # access_url ''/peek/'' a n @ 32 # tail"
    "length req < 2048" "2048 \<le> length region" "\<forall>l k. 0 < S l k"
  shows "\<exists>xRc region' w'. xHTTPClientWork S stk (Received req) (region, w) = Some (xRc, region', w') \<and> 0 < xRc \<and>
    memy w' = memy w \<and>
    sent w' = sent w @
      [reply_header 200 (bytes_of ''application/octet-stream'')
         (bytes_of ''Content-Length: '' @ dec (min n 4096) @ [13, 10]),
       map (\<lambda>i. memy w (of_nat a + of_nat i)) [0..<min n 4096]]"
proof -
  define url where "url = access_url ''/peek/'' a n"
  have "\<forall>c\<in>set url. url_char c"
    unfolding url_def by (rule access_url_chars) simp
  then obtain b where work: "xHTTPClientWork S stk (Received req) (region, w) =
      map_option (\<lambda>(xRc, w). (xRc, bytes_of ''GET'' @ 32 # url @ 0 # b, w)) (prvOpenURL S stk 0 url b w)"
    using get_patch_work [of "''GET''" 0, OF _ _ assms(5) [folded url_def] assms(6,7) refl] by blast
  have "map (\<lambda>i. memy (w\<lparr>bReplySent := False\<rparr>) (of_nat a + of_nat i)) [0..<min n 4096] \<noteq> []"
    using assms(3) by simp
  from open_url_reply [OF peek_handler [OF assms(1-4), folded url_def] this assms(8), of stk b]
  show ?thesis
    unfolding work by auto
qed

text \<open>A small memory and a world for the examples.\<close>

definition demo_world :: http_world where
  "demo_world = \<lparr>memy = (\<lambda>a. ucast a), pcContentsType = [], pcExtraContents = [], bReplySent = False, sent = []\<rparr>"

definition demo_sender :: sender where
  "demo_sender l k = max 1 (int k)"

lemma demo_sender_pos: "\<forall>l k. 0 < demo_sender l k"
  by (simp add: demo_sender_def less_max_iff_disj)

lemma dec_small: "dec 4 = [52]" "dec 100 = [49, 48, 48]" "dec 8 = [56]"
  by (simp_all add: dec.simps)

theorem http_peek_reply_witness:
  "\<exists>xRc region' w'. xHTTPClientWork demo_sender 0
      (Received (bytes_of ''GET /peek/100/4 HTTP/1.1'' @ [13, 10, 13, 10])) (replicate 2048 0, demo_world) = Some (xRc, region', w') \<and>
    0 < xRc \<and> memy w' = memy demo_world \<and>
    sent w' = [reply_header 200 (bytes_of ''application/octet-stream'') (bytes_of ''Content-Length: 4'' @ [13, 10]), [100, 101, 102, 103]]"
  using http_peek_reply [of 100 4 "bytes_of ''GET /peek/100/4 HTTP/1.1'' @ [13, 10, 13, 10]" "bytes_of ''HTTP/1.1'' @ [13, 10, 13, 10]"
      "replicate 2048 0" demo_sender 0 demo_world]
  by (simp add: dec_small bytes_of_def demo_sender_pos demo_world_def upt_rec)

lemma strip_eol_take:
  assumes "n \<le> length (strip_eol tail)"
  shows "take n (strip_eol tail @ r) = take n tail"
proof -
  let ?P = "\<lambda>c. c = 13 \<or> c = 10"
  have "strip_eol tail @ rev (takeWhile ?P (rev tail)) = tail"
    unfolding strip_eol_def
    by (rule arg_cong [OF takeWhile_dropWhile_id [of ?P "rev tail"], of rev, unfolded rev_append rev_rev_ident])
  then have "take n tail = take n (strip_eol tail @ rev (takeWhile ?P (rev tail)))"
    by (simp only:)
  then show ?thesis
    using assms by simp
qed

lemma poke_handler:
  assumes "0 < a" "a < 2 ^ 32" "0 < n" "n < 2 ^ 31" "n \<le> length rest" "0 < L"
  shows "peekPokeHandler stk 8 (access_url ''/poke/'' a n) rest L w =
     Some (snprintf L (wrote_text (int n) (of_nat a)),
       w\<lparr>pcContentsType := bytes_of ''text/plain'', memy := mem_write (of_nat a) (take n rest) (memy w)\<rparr>)"
proof -
  have nz: "(of_nat n :: u32) \<noteq> 0" "(of_nat a :: u32) \<noteq> 0" and un: "unat (of_nat n :: u32) = n"
    using assms(1-4) by (simp_all add: word_unat_eq_iff unat_of_nat_small)
  have sn: "sint (of_nat n :: u32) = int n"
    using assms(4) by (simp add: signed_of_nat signed_take_bit_int_eq_self)
  have ad: "addressToCharPtr (sint (of_nat a :: u32)) = of_nat a"
    using assms(2) by (simp add: addressToCharPtr_def take_bit_signed_take_bit signed_of_nat take_bit_of_nat take_bit_nat_eq_self)
  have t: "take 6 (bytes_of ''/poke/'' @ dec a @ 47 # dec n) = bytes_of ''/poke/''"
    "drop 6 (bytes_of ''/poke/'' @ dec a @ 47 # dec n) = dec a @ 47 # dec n"
    using access_url_take [of "''/poke/''" a n] by simp_all
  have g: "getNextNumber (Some (dec a @ 47 # dec n)) = (int a, Some (dec n))" "getNextNumber (Some (dec n)) = (int n, Some [])"
    using getNextNumber_dec(1) [of a "dec n"] getNextNumber_dec(2) [of n] assms by simp_all
  show ?thesis
    unfolding peekPokeHandler_def t
    using assms(5) by (simp add: g nz un ad sn Let_def)
qed

text \<open>
  C39. A request \<^verbatim>\<open>PATCH /poke/<address>/<length>\<close> writes the first bytes of the text that follows the URL in the
  request, that is the protocol version and the header lines, to the address, and not the body of
  the request; nothing else in memory changes.
\<close>

theorem http_poke_writes_request_text:
  assumes "0 < a" "a < 2 ^ 32" "0 < n" "n \<le> length (strip_eol tail)"
    "req = bytes_of ''PATCH'' @ 32 # access_url ''/poke/'' a n @ 32 # tail"
    "length req < 2048" "2048 \<le> length region" "\<forall>l k. 0 < S l k"
  shows "\<exists>xRc region' w'. xHTTPClientWork S stk (Received req) (region, w) = Some (xRc, region', w') \<and> 0 < xRc \<and>
    memy w' = mem_write (of_nat a) (take n tail) (memy w) \<and>
    sent w' = sent w @
      [reply_header 200 (bytes_of ''text/plain'')
         (bytes_of ''Content-Length: '' @ dec (length (wrote_text (int n) (of_nat a))) @ [13, 10]),
       wrote_text (int n) (of_nat a)]"
proof -
  define url where "url = access_url ''/poke/'' a n"
  define b where "b = strip_eol tail @ replicate (Suc (length tail - length (strip_eol tail))) 0 @ drop (Suc (length req)) region"
  have "\<forall>c\<in>set url. url_char c"
    unfolding url_def by (rule access_url_chars) simp
  then have work: "xHTTPClientWork S stk (Received req) (region, w) =
      map_option (\<lambda>(xRc, w). (xRc, bytes_of ''PATCH'' @ 32 # url @ 0 # b, w)) (prvOpenURL S stk 8 url b w)"
    using get_patch_work [of "''PATCH''" 8, OF _ _ assms(5) [folded url_def] assms(6,7) b_def] by blast
  have tk: "take n b = take n tail" and nb: "n \<le> length b" and nn: "n < 2 ^ 31"
    using strip_eol_take [OF assms(4)] assms(4-6) strip_eol_length [of tail] by (simp_all add: b_def)
  have "n < 10 ^ 4"
    using assms(4-6) strip_eol_length [of tail] by simp
  then have "length (wrote_text (int n) (of_nat a)) < 4096"
    using dec_length [of n 4] hex_length [of "unat (of_nat a :: addr)" 8] unsigned_less [of "of_nat a :: addr", where ?'a = nat]
    by (simp add: wrote_text_def fmt_d_def fmt_p_def bytes_of_def)
  then have sp: "snprintf 4096 (wrote_text (int n) (of_nat a)) = wrote_text (int n) (of_nat a)"
    by (simp add: snprintf_def)
  have "wrote_text (int n) (of_nat a) \<noteq> []"
    by (simp add: wrote_text_def bytes_of_def)
  from open_url_reply [OF poke_handler [OF assms(1-3) nn nb, folded url_def, of 4096, unfolded sp] this assms(8), of stk]
  show ?thesis
    unfolding work by (auto simp: tk)
qed

theorem http_poke_writes_request_text_witness:
  "\<exists>xRc region' w'. xHTTPClientWork demo_sender 0
      (Received (bytes_of ''PATCH /poke/100/8 HTTP/1.1'' @ [13, 10, 13, 10] @ bytes_of ''ABCDEFGH'')) (replicate 2048 0, demo_world) =
        Some (xRc, region', w') \<and>
    memy w' = mem_write 100 (bytes_of ''HTTP/1.1'') (memy demo_world)"
proof -
  have "strip_eol (bytes_of ''HTTP/1.1'' @ [13, 10, 13, 10] @ bytes_of ''ABCDEFGH'') =
      bytes_of ''HTTP/1.1'' @ [13, 10, 13, 10] @ bytes_of ''ABCDEFGH''"
    by (simp add: strip_eol_def bytes_of_def)
  then show ?thesis
    using http_poke_writes_request_text [of 100 8 "bytes_of ''HTTP/1.1'' @ [13, 10, 13, 10] @ bytes_of ''ABCDEFGH''"
        "bytes_of ''PATCH /poke/100/8 HTTP/1.1'' @ [13, 10, 13, 10] @ bytes_of ''ABCDEFGH''" "replicate 2048 0" demo_sender 0 demo_world]
    by (auto simp: dec_small bytes_of_def demo_sender_pos)
qed

subsection \<open>Clients of the server\<close>

text \<open>
  The accepted sockets that become clients, and those that are turned away: for every server that
  listens and every socket it accepts, the one or the other.
\<close>

definition newcomers :: "(eSERVER_TYPE \<times> nat option) list \<Rightarrow> (nat option \<times> bool) list \<Rightarrow> nat list" where
  "newcomers sv acc = [c. ((ty, Some l), (Some c, alloc)) \<leftarrow> zip sv acc, ty = eSERVER_HTTP \<and> alloc]"

definition turned_away :: "(eSERVER_TYPE \<times> nat option) list \<Rightarrow> (nat option \<times> bool) list \<Rightarrow> nat list" where
  "turned_away sv acc = [c. ((ty, Some l), (Some c, alloc)) \<leftarrow> zip sv acc, \<not> (ty = eSERVER_HTTP \<and> alloc)]"

text \<open>The results of the work function on the clients one after the other, with the world before and after each.\<close>

definition worked :: "(tcp_client \<Rightarrow> 'w \<Rightarrow> (int \<times> 'w) option) \<Rightarrow> tcp_client list \<Rightarrow> 'w \<Rightarrow> int list \<Rightarrow> 'w \<Rightarrow> bool" where
  "worked work cs w rs w' \<longleftrightarrow> length rs = length cs \<and>
     (\<exists>ws. length ws = length cs + 1 \<and> hd ws = w \<and> last ws = w' \<and>
        (\<forall>i < length cs. work (cs ! i) (ws ! i) = Some (rs ! i, ws ! (i + 1))))"

lemma worked_Cons:
  assumes "work c w = Some (r, w1)" "worked work cs w1 rs w'"
  shows "worked work (c # cs) w (r # rs) w'"
proof -
  obtain ws where ws: "length ws = length cs + 1" "hd ws = w1" "last ws = w'"
    "\<forall>i < length cs. work (cs ! i) (ws ! i) = Some (rs ! i, ws ! (i + 1))"
    using assms(2) unfolding worked_def by blast
  have "work ((c # cs) ! i) ((w # ws) ! i) = Some ((r # rs) ! i, (w # ws) ! (i + 1))" if "i < length (c # cs)" for i
    using that ws assms(1) by (cases i; cases ws) auto
  moreover have "length rs = length cs"
    using assms(2) by (simp add: worked_def)
  ultimately show ?thesis
    unfolding worked_def using ws by (intro conjI exI [of _ "w # ws"]) auto
qed

lemma accept_loop_exact:
  assumes "i + length acc \<le> length (xServers s)"
  shows "accept_loop acc i s =
    s\<lparr>pxClients := rev (map (\<lambda>c. \<lparr>eType = eSERVER_HTTP, xSocket = c\<rparr>) (newcomers (drop i (xServers s)) acc)) @ pxClients s,
      socket_set := socket_set s @ newcomers (drop i (xServers s)) acc,
      closed := closed s @ turned_away (drop i (xServers s)) acc\<rparr>"
  using assms
proof (induction acc i s rule: accept_loop.induct)
  case (1 i s)
  then show ?case
    by (simp add: newcomers_def turned_away_def)
next
  case (2 x alloc xs i s)
  have d: "drop i (xServers s) = xServers s ! i # drop (i + 1) (xServers s)"
    using 2(4) by (simp add: Cons_nth_drop_Suc)
  obtain ty l where sv: "xServers s ! i = (ty, l)"
    by fastforce
  have i: "i + 1 + length xs \<le> length (xServers s)"
    using 2(4) by simp
  consider (skip) "l = None \<or> x = None" | (conn) c k where "l = Some k" "x = Some c"
    by (cases l; cases x) auto
  then show ?case
  proof cases
    case skip
    then have e: "accept_loop ((x, alloc) # xs) i s = accept_loop xs (i + 1) s"
      using sv by auto
    have n: "newcomers (drop i (xServers s)) ((x, alloc) # xs) = newcomers (drop (i + 1) (xServers s)) xs"
      "turned_away (drop i (xServers s)) ((x, alloc) # xs) = turned_away (drop (i + 1) (xServers s)) xs"
      using skip unfolding d sv by (auto simp: newcomers_def turned_away_def split: option.splits)
    show ?thesis
      unfolding e n using 2(1) 2(2) skip sv i by (cases "l = None") auto
  next
    case conn
    have ih: "accept_loop xs (i + 1) (prvReceiveNewClient alloc i c s) = (let s = prvReceiveNewClient alloc i c s in
        s\<lparr>pxClients := rev (map (\<lambda>c. \<lparr>eType = eSERVER_HTTP, xSocket = c\<rparr>) (newcomers (drop (i + 1) (xServers s)) xs)) @ pxClients s,
          socket_set := socket_set s @ newcomers (drop (i + 1) (xServers s)) xs,
          closed := closed s @ turned_away (drop (i + 1) (xServers s)) xs\<rparr>)"
      unfolding Let_def using conn sv i by (intro 2(3)) (auto simp: prvReceiveNewClient_def)
    show ?thesis
      unfolding d sv using ih conn sv
      by (auto simp: prvReceiveNewClient_def newcomers_def turned_away_def Let_def)
  qed
qed

lemma work_loop_exact:
  "work_loop work cs w = Some (cs', w') \<Longrightarrow>
     \<exists>rs. worked work cs w rs w' \<and> cs' = [c. (c, r) \<leftarrow> zip cs rs, 0 \<le> r]"
proof (induction cs arbitrary: w cs')
  case Nil
  then show ?case
    by (auto simp: worked_def intro!: exI [of _ "[w]"])
next
  case (Cons c cs)
  then obtain r w1 cs1 where w: "work c w = Some (r, w1)" "work_loop work cs w1 = Some (cs1, w')"
    "cs' = (if r < 0 then cs1 else c # cs1)"
    by (auto simp: bind_eq_Some_conv)
  obtain rs where "worked work cs w1 rs w'" "cs1 = [c. (c, r) \<leftarrow> zip cs rs, 0 \<le> r]"
    using Cons.IH [OF w(2)] by blast
  then show ?case
    using worked_Cons [of work c w r w1 cs rs w'] w(1,3) by (intro exI [of _ "r # rs"]) auto
qed

text \<open>
  C40. Exactly what a cycle of the server does.  If the wait for the sockets reported an event, every listening server that
  accepts a connection either makes it a client, put in front of the list and added to the socket set, when it is an HTTP
  server and the memory for the client is there, or closes it.  Then the work function runs once on every client, in the order of
  the list, and exactly the clients for which it returns a value that is not negative stay, in the same order.  Nothing
  else is closed and nothing is taken out of the socket set: the socket of a client that is dropped stays open and in the set.
\<close>

theorem tcp_server_cycle:
  assumes "FreeRTOS_TCPServerWork work selected accepted s = Some s'"
    and "acc = (if selected then accepted else [])"
    and "clients = rev (map (\<lambda>c. \<lparr>eType = eSERVER_HTTP, xSocket = c\<rparr>) (newcomers (xServers s) acc)) @ pxClients s"
  shows "\<exists>rs. worked work clients (world s) rs (world s') \<and>
    pxClients s' = [c. (c, r) \<leftarrow> zip clients rs, 0 \<le> r] \<and>
    socket_set s' = socket_set s @ newcomers (xServers s) acc \<and>
    closed s' = closed s @ turned_away (xServers s) acc \<and> xServers s' = xServers s"
proof -
  define s1 where "s1 = (if selected then accept_loop (take (length (xServers s)) accepted) 0 s else s)"
  have z: "zip (xServers s) (take (length (xServers s)) accepted) = zip (xServers s) accepted"
    using take_zip [of "length (xServers s)" "xServers s" accepted] by simp
  have s1: "s1 = s\<lparr>pxClients := clients, socket_set := socket_set s @ newcomers (xServers s) acc,
      closed := closed s @ turned_away (xServers s) acc\<rparr>"
    using accept_loop_exact [of 0 "take (length (xServers s)) accepted" s] assms(2,3)
    by (simp add: s1_def newcomers_def turned_away_def z)
  obtain cs w where w: "work_loop work (pxClients s1) (world s1) = Some (cs, w)" "s' = s1\<lparr>pxClients := cs, world := w\<rparr>"
    using assms(1) unfolding FreeRTOS_TCPServerWork_def s1_def [symmetric] Let_def by (auto simp: bind_eq_Some_conv)
  then show ?thesis
    using work_loop_exact [OF w(1)] by (simp add: s1)
qed

text \<open>The server with one HTTP client whose connection is closed by the other side.\<close>

definition demo_server :: "(u8 list \<times> http_world) tcp_server" where
  "demo_server = \<lparr>xServers = [(eSERVER_HTTP, Some 1)], pxClients = [\<lparr>eType = eSERVER_HTTP, xSocket = 7\<rparr>],
     socket_set = [1, 7], closed = [], world = (replicate 2048 0, demo_world)\<rparr>"

definition demo_work :: "tcp_client \<Rightarrow> u8 list \<times> http_world \<Rightarrow> (int \<times> u8 list \<times> http_world) option" where
  "demo_work c = xHTTPClientWork demo_sender 0 (NoData (if xSocket c = 7 then - 128 else 0))"

definition demo_server_dropped :: "(u8 list \<times> http_world) tcp_server" where
  "demo_server_dropped = demo_server\<lparr>pxClients := [\<lparr>eType = eSERVER_HTTP, xSocket = 9\<rparr>], socket_set := [1, 7, 9]\<rparr>"

lemma demo_server_step:
  "FreeRTOS_TCPServerWork demo_work True [(Some 9, True)] demo_server = Some demo_server_dropped"
  by (simp add: FreeRTOS_TCPServerWork_def demo_server_def demo_server_dropped_def demo_work_def prvReceiveNewClient_def
      xHTTPClientWork_def)

theorem tcp_server_cycle_witness:
  "FreeRTOS_TCPServerWork demo_work True [(Some 9, True)] demo_server = Some demo_server_dropped \<and>
   (\<exists>rs. worked demo_work [\<lparr>eType = eSERVER_HTTP, xSocket = 9\<rparr>, \<lparr>eType = eSERVER_HTTP, xSocket = 7\<rparr>] (world demo_server) rs
      (world demo_server_dropped)) \<and>
   pxClients demo_server_dropped = [\<lparr>eType = eSERVER_HTTP, xSocket = 9\<rparr>] \<and> closed demo_server_dropped = [] \<and>
   7 \<in> set (socket_set demo_server_dropped)"
  using demo_server_step tcp_server_cycle [OF demo_server_step refl refl]
  by (simp add: demo_server_dropped_def demo_server_def newcomers_def turned_away_def) blast

end
