(* ===== verification/Uart.thy ===== *)
theory Uart
  imports Mmio Rtos Iic
begin

section \<open>The serial port (bsp/uart.c and bsp/xilinx/uartns550)\<close>

text \<open>
  The driver of the 16550 serial port and the board support functions on top of it, in the configured
  polled mode (\<^verbatim>\<open>XPAR_UART_USE_POLLING_MODE = 1\<close>).  The registers are those of a \<open>bus\<close>.  A failed
  \<^verbatim>\<open>Xil_Assert\<close> spins as \<^verbatim>\<open>configASSERT\<close> does.  Loops that wait for the hardware are partial functions:
  \<open>None\<close> means that the loop never ends.

  A buffer pointer is the list of the bytes it points to; what a receive stores is returned as a list,
  to be laid over the buffer.
\<close>

subsection \<open>Registers\<close>

abbreviation (input) XUN_RBR_OFFSET :: addr where "XUN_RBR_OFFSET \<equiv> 0x00"
abbreviation (input) XUN_THR_OFFSET :: addr where "XUN_THR_OFFSET \<equiv> 0x00"
abbreviation (input) XUN_IER_OFFSET :: addr where "XUN_IER_OFFSET \<equiv> 0x04"
abbreviation (input) XUN_IIR_OFFSET :: addr where "XUN_IIR_OFFSET \<equiv> 0x08"
abbreviation (input) XUN_FCR_OFFSET :: addr where "XUN_FCR_OFFSET \<equiv> 0x08"
abbreviation (input) XUN_LCR_OFFSET :: addr where "XUN_LCR_OFFSET \<equiv> 0x0C"
abbreviation (input) XUN_MCR_OFFSET :: addr where "XUN_MCR_OFFSET \<equiv> 0x10"
abbreviation (input) XUN_LSR_OFFSET :: addr where "XUN_LSR_OFFSET \<equiv> 0x14"
abbreviation (input) XUN_MSR_OFFSET :: addr where "XUN_MSR_OFFSET \<equiv> 0x18"
abbreviation (input) XUN_DRLS_OFFSET :: addr where "XUN_DRLS_OFFSET \<equiv> 0x00"
abbreviation (input) XUN_DRLM_OFFSET :: addr where "XUN_DRLM_OFFSET \<equiv> 0x04"
abbreviation (input) XUN_FIFO_SIZE :: u32 where "XUN_FIFO_SIZE \<equiv> 16"
abbreviation (input) XUN_IER_TX_EMPTY :: u32 where "XUN_IER_TX_EMPTY \<equiv> 0x2"
abbreviation (input) XUN_IER_RX_DATA :: u32 where "XUN_IER_RX_DATA \<equiv> 0x1"
abbreviation (input) XUN_INT_ID_FIFOS_ENABLED :: u32 where "XUN_INT_ID_FIFOS_ENABLED \<equiv> 0xC0"
abbreviation (input) XUN_LCR_DLAB :: u32 where "XUN_LCR_DLAB \<equiv> 0x80"
abbreviation (input) XUN_MCR_LOOP :: u32 where "XUN_MCR_LOOP \<equiv> 0x10"
abbreviation (input) XUN_LSR_TX_EMPTY :: u32 where "XUN_LSR_TX_EMPTY \<equiv> 0x40"
abbreviation (input) XUN_LSR_TX_BUFFER_EMPTY :: u32 where "XUN_LSR_TX_BUFFER_EMPTY \<equiv> 0x20"
abbreviation (input) XUN_LSR_BREAK_INT :: u32 where "XUN_LSR_BREAK_INT \<equiv> 0x10"
abbreviation (input) XUN_LSR_DATA_READY :: u32 where "XUN_LSR_DATA_READY \<equiv> 0x1"
abbreviation (input) XIL_COMPONENT_IS_READY :: u32 where "XIL_COMPONENT_IS_READY \<equiv> 0x11111111"
abbreviation (input) XST_DEVICE_NOT_FOUND :: int where "XST_DEVICE_NOT_FOUND \<equiv> 2"
abbreviation (input) XST_UART_TEST_FAIL :: int where "XST_UART_TEST_FAIL \<equiv> 1054"
abbreviation (input) XST_UART_BAUD_ERROR :: int where "XST_UART_BAUD_ERROR \<equiv> 1055"
abbreviation (input) XST_UART_CONFIG_ERROR :: int where "XST_UART_CONFIG_ERROR \<equiv> 1053"

definition XUartNs550_ReadReg :: "addr \<Rightarrow> addr \<Rightarrow> bus \<Rightarrow> u32 \<times> bus" where
  "XUartNs550_ReadReg base off b = bus_read W32 (base + off) b"

definition XUartNs550_WriteReg :: "addr \<Rightarrow> addr \<Rightarrow> u32 \<Rightarrow> bus \<Rightarrow> bus" where
  "XUartNs550_WriteReg base off v b = bus_write W32 (base + off) v b"

definition XUartNs550_IsReceiveData :: "addr \<Rightarrow> bus \<Rightarrow> bool \<times> bus" where
  "XUartNs550_IsReceiveData base b =
     (let (lsr, b) = XUartNs550_ReadReg base XUN_LSR_OFFSET b in (lsr AND XUN_LSR_DATA_READY \<noteq> 0, b))"

definition XUartNs550_IsTransmitEmpty :: "addr \<Rightarrow> bus \<Rightarrow> bool \<times> bus" where
  "XUartNs550_IsTransmitEmpty base b =
     (let (lsr, b) = XUartNs550_ReadReg base XUN_LSR_OFFSET b in (lsr AND XUN_LSR_TX_BUFFER_EMPTY \<noteq> 0, b))"

subsection \<open>The instance\<close>

record XUartNs550Stats =
  TransmitInterrupts :: u16
  ReceiveInterrupts :: u16
  StatusInterrupts :: u16
  ModemInterrupts :: u16
  CharactersTransmitted :: u16
  CharactersReceived :: u16
  ReceiveOverrunErrors :: u16
  ReceiveParityErrors :: u16
  ReceiveFramingErrors :: u16
  ReceiveBreakDetected :: u16

record XUartNs550Buffer =
  NextBytePtr :: "u8 list"
  RequestedBytes :: u32
  RemainingBytes :: u32

record XUartNs550_Config =
  DeviceId :: u16
  CfgBaseAddress :: addr
  CfgInputClockHz :: u32
  DefaultBaudRate :: u32

record XUartNs550 =
  Stats :: XUartNs550Stats
  BaseAddress :: addr
  InputClockHz :: u32
  IsReady :: u32
  BaudRate :: u32
  LastErrors :: u8
  SendBuffer :: XUartNs550Buffer
  ReceiveBuffer :: XUartNs550Buffer

type_synonym uart_dev = "XUartNs550 \<times> bus"

definition XUartNs550_ClearStats :: "XUartNs550 \<Rightarrow> XUartNs550 option" where
  "XUartNs550_ClearStats u = do {
     configASSERT (IsReady u = XIL_COMPONENT_IS_READY);
     Some (u\<lparr>Stats := \<lparr>TransmitInterrupts = 0, ReceiveInterrupts = 0, StatusInterrupts = 0, ModemInterrupts = 0,
       CharactersTransmitted = 0, CharactersReceived = 0, ReceiveOverrunErrors = 0, ReceiveParityErrors = 0,
       ReceiveFramingErrors = 0, ReceiveBreakDetected = 0\<rparr>\<rparr>)}"

definition XUartNs550_GetStats :: "XUartNs550 \<Rightarrow> XUartNs550Stats option" where
  "XUartNs550_GetStats u = do {configASSERT (IsReady u = XIL_COMPONENT_IS_READY); Some (Stats u)}"

definition XUartNs550_UpdateStats :: "u8 \<Rightarrow> XUartNs550 \<Rightarrow> XUartNs550" where
  "XUartNs550_UpdateStats lsr u =
     (let s = Stats u;
          s = (if lsr AND 0x2 \<noteq> 0 then s\<lparr>ReceiveOverrunErrors := ReceiveOverrunErrors s + 1\<rparr> else s);
          s = (if lsr AND 0x4 \<noteq> 0 then s\<lparr>ReceiveParityErrors := ReceiveParityErrors s + 1\<rparr> else s);
          s = (if lsr AND 0x8 \<noteq> 0 then s\<lparr>ReceiveFramingErrors := ReceiveFramingErrors s + 1\<rparr> else s);
          s = (if lsr AND 0x10 \<noteq> 0 then s\<lparr>ReceiveBreakDetected := ReceiveBreakDetected s + 1\<rparr> else s)
      in u\<lparr>LastErrors := LastErrors u OR lsr, Stats := s\<rparr>)"

subsection \<open>Baud rate and initialisation\<close>

definition baud_divisor :: "u32 \<Rightarrow> u32 \<Rightarrow> u32" where
  "baud_divisor clock baud = (clock + (baud * 16) div 2) div (baud * 16)"

definition write_divisor :: "addr \<Rightarrow> u32 \<Rightarrow> bus \<Rightarrow> bus" where
  "write_divisor base Divisor b =
     (let BaudLSB = Divisor AND 0xFF;
          BaudMSB = drop_bit 8 Divisor AND 0xFF;
          (LcrRegister, b) = XUartNs550_ReadReg base XUN_LCR_OFFSET b;
          b = XUartNs550_WriteReg base XUN_LCR_OFFSET (LcrRegister OR XUN_LCR_DLAB) b;
          b = XUartNs550_WriteReg base XUN_DRLS_OFFSET 0xFF b;
          b = XUartNs550_WriteReg base XUN_DRLM_OFFSET BaudMSB b;
          b = XUartNs550_WriteReg base XUN_DRLS_OFFSET BaudLSB b
      in XUartNs550_WriteReg base XUN_LCR_OFFSET LcrRegister b)"

definition XUartNs550_SetBaudRate :: "u32 \<Rightarrow> uart_dev \<Rightarrow> (int \<times> uart_dev) option" where
  "XUartNs550_SetBaudRate baud = (\<lambda>(u, b). do {
     configASSERT (IsReady u = XIL_COMPONENT_IS_READY);
     let Divisor = baud_divisor (InputClockHz u) baud;
     let TargetRate = Divisor * baud * 16;
     let Error = (if TargetRate < InputClockHz u then InputClockHz u - TargetRate else TargetRate - InputClockHz u);
     let PercentError = (Error * 100) div InputClockHz u;
     if PercentError > 3 then Some (XST_UART_BAUD_ERROR, u, b)
     else Some (0, u\<lparr>BaudRate := baud\<rparr>, write_divisor (BaseAddress u) Divisor b)})"

definition XUartNs550_SetBaud :: "addr \<Rightarrow> u32 \<Rightarrow> u32 \<Rightarrow> bus \<Rightarrow> bus" where
  "XUartNs550_SetBaud base clock baud b = write_divisor base (baud_divisor clock baud) b"

abbreviation (input) empty_buffer :: XUartNs550Buffer where
  "empty_buffer \<equiv> \<lparr>NextBytePtr = [], RequestedBytes = 0, RemainingBytes = 0\<rparr>"

definition XUartNs550_CfgInitialize :: "XUartNs550_Config \<Rightarrow> addr \<Rightarrow> uart_dev \<Rightarrow> (int \<times> uart_dev) option" where
  "XUartNs550_CfgInitialize c EffectiveAddr = (\<lambda>(u, b). do {
     let u = u\<lparr>BaseAddress := EffectiveAddr, InputClockHz := CfgInputClockHz c, SendBuffer := empty_buffer,
       ReceiveBuffer := empty_buffer, IsReady := XIL_COMPONENT_IS_READY\<rparr>;
     let baud = (if DefaultBaudRate c = 0 then 19200 else DefaultBaudRate c);
     (Status, u, b) \<leftarrow> XUartNs550_SetBaudRate baud (u, b);
     if Status \<noteq> 0 then Some (Status, u\<lparr>IsReady := 0\<rparr>, b)
     else do {
       let b = XUartNs550_WriteReg (BaseAddress u) XUN_LCR_OFFSET 3 b;
       u \<leftarrow> XUartNs550_ClearStats u;
       Some (0, u, b)}})"

definition XUartNs550_LookupConfig :: "XUartNs550_Config list \<Rightarrow> u16 \<Rightarrow> XUartNs550_Config option" where
  "XUartNs550_LookupConfig table i = find (\<lambda>c. DeviceId c = i) table"

definition XUartNs550_Initialize :: "XUartNs550_Config list \<Rightarrow> u16 \<Rightarrow> uart_dev \<Rightarrow> (int \<times> uart_dev) option" where
  "XUartNs550_Initialize table i d =
     (case XUartNs550_LookupConfig table i of
        None \<Rightarrow> Some (XST_DEVICE_NOT_FOUND, d)
      | Some c \<Rightarrow> XUartNs550_CfgInitialize c (CfgBaseAddress c) d)"

subsection \<open>Sending\<close>

text \<open>How many bytes can be put into the transmitter.\<close>

definition bytes_to_send :: "u32 \<Rightarrow> u32 \<Rightarrow> u32 \<Rightarrow> u32" where
  "bytes_to_send lsr iir remaining =
     (if iir AND XUN_INT_ID_FIFOS_ENABLED \<noteq> 0 then
        let FifoSize = (if lsr AND XUN_LSR_TX_EMPTY \<noteq> 0 then XUN_FIFO_SIZE else XUN_FIFO_SIZE - 1) in
        if remaining < FifoSize then remaining else FifoSize
      else if remaining > 0 then 1 else 0)"

fun fill_fifo :: "addr \<Rightarrow> u8 list \<Rightarrow> nat \<Rightarrow> bus \<Rightarrow> bus" where
  "fill_fifo base p 0 b = b"
| "fill_fifo base p (Suc n) b = (let b = fill_fifo base p n b in XUartNs550_WriteReg base XUN_THR_OFFSET (ucast (p ! n)) b)"

definition XUartNs550_SendBuffer :: "uart_dev \<Rightarrow> u32 \<times> uart_dev" where
  "XUartNs550_SendBuffer = (\<lambda>(u, b).
     let base = BaseAddress u;
         s = SendBuffer u;
         (LsrRegister, b) = XUartNs550_ReadReg base XUN_LSR_OFFSET b;
         (SentCount, b) =
           (if LsrRegister AND XUN_LSR_TX_BUFFER_EMPTY \<noteq> 0 then
              let (IirRegister, b) = XUartNs550_ReadReg base XUN_IIR_OFFSET b;
                  n = bytes_to_send LsrRegister IirRegister (RemainingBytes s)
              in (n, fill_fifo base (NextBytePtr s) (unat n) b)
            else (0, b));
         u = u\<lparr>SendBuffer := s\<lparr>NextBytePtr := drop (unat SentCount) (NextBytePtr s),
                 RemainingBytes := RemainingBytes s - SentCount\<rparr>,
               Stats := (Stats u)\<lparr>CharactersTransmitted := CharactersTransmitted (Stats u) + ucast SentCount\<rparr>\<rparr>;
         (IerRegister, b) = XUartNs550_ReadReg base XUN_IER_OFFSET b;
         b = (if IerRegister AND XUN_IER_RX_DATA \<noteq> 0
              then XUartNs550_WriteReg base XUN_IER_OFFSET (IerRegister OR XUN_IER_TX_EMPTY) b else b)
     in (SentCount, u, b))"

definition XUartNs550_Send :: "u8 list \<Rightarrow> u32 \<Rightarrow> uart_dev \<Rightarrow> (u32 \<times> uart_dev) option" where
  "XUartNs550_Send BufferPtr NumBytes = (\<lambda>(u, b). do {
     configASSERT (IsReady u = XIL_COMPONENT_IS_READY);
     configASSERT (0 \<le> sint NumBytes);
     let (IerRegister, b) = XUartNs550_ReadReg (BaseAddress u) XUN_IER_OFFSET b;
     let b = XUartNs550_WriteReg (BaseAddress u) XUN_IER_OFFSET (IerRegister AND NOT XUN_IER_TX_EMPTY) b;
     let u = u\<lparr>SendBuffer := \<lparr>NextBytePtr = BufferPtr, RequestedBytes = NumBytes, RemainingBytes = NumBytes\<rparr>\<rparr>;
     Some (XUartNs550_SendBuffer (u, b))})"

partial_function (option) XUartNs550_SendByte :: "addr \<Rightarrow> u8 \<Rightarrow> bus \<Rightarrow> bus option" where
  "XUartNs550_SendByte base d b =
     (case XUartNs550_IsTransmitEmpty base b of (ready, b) \<Rightarrow>
        if ready then Some (XUartNs550_WriteReg base XUN_THR_OFFSET (ucast d) b)
        else XUartNs550_SendByte base d b)"

subsection \<open>Receiving\<close>

text \<open>
  The loop of \<^verbatim>\<open>XUartNs550_ReceiveBuffer\<close>; \<open>acc\<close> are the bytes stored so far.  A line break is dropped
  without being counted.
\<close>

partial_function (option) recv_loop :: "u32 \<Rightarrow> u8 list \<Rightarrow> uart_dev \<Rightarrow> (u8 list \<times> uart_dev) option" where
  "recv_loop remaining acc d =
     (case d of (u, b) \<Rightarrow>
      if length acc < unat remaining then
        case XUartNs550_ReadReg (BaseAddress u) XUN_LSR_OFFSET b of (lsr, b) \<Rightarrow>
          if lsr AND XUN_LSR_BREAK_INT \<noteq> 0 then
            case XUartNs550_ReadReg (BaseAddress u) XUN_RBR_OFFSET b of (_, b) \<Rightarrow>
              recv_loop remaining acc (XUartNs550_UpdateStats (ucast lsr) u, b)
          else if lsr AND XUN_LSR_DATA_READY \<noteq> 0 then
            case XUartNs550_ReadReg (BaseAddress u) XUN_RBR_OFFSET b of (c, b) \<Rightarrow>
              recv_loop remaining (acc @ [ucast c]) (XUartNs550_UpdateStats (ucast lsr) u, b)
          else Some (acc, u, b)
      else Some (acc, u, b))"

definition XUartNs550_ReceiveBuffer :: "uart_dev \<Rightarrow> (u8 list \<times> uart_dev) option" where
  "XUartNs550_ReceiveBuffer d = do {
     (got, u, b) \<leftarrow> recv_loop (RemainingBytes (ReceiveBuffer (fst d))) [] d;
     let r = ReceiveBuffer u;
     Some (got, u\<lparr>ReceiveBuffer := r\<lparr>NextBytePtr := drop (length got) (NextBytePtr r),
         RemainingBytes := RemainingBytes r - of_nat (length got)\<rparr>,
       Stats := (Stats u)\<lparr>CharactersReceived := CharactersReceived (Stats u) + of_nat (length got)\<rparr>\<rparr>, b)}"

definition XUartNs550_Recv :: "u8 list \<Rightarrow> u32 \<Rightarrow> uart_dev \<Rightarrow> (u8 list \<times> uart_dev) option" where
  "XUartNs550_Recv BufferPtr NumBytes = (\<lambda>(u, b). do {
     configASSERT (IsReady u = XIL_COMPONENT_IS_READY);
     configASSERT (0 \<le> sint NumBytes);
     let (IerRegister, b) = XUartNs550_ReadReg (BaseAddress u) XUN_IER_OFFSET b;
     let b = XUartNs550_WriteReg (BaseAddress u) XUN_IER_OFFSET 0 b;
     let u = u\<lparr>ReceiveBuffer := \<lparr>NextBytePtr = BufferPtr, RequestedBytes = NumBytes, RemainingBytes = NumBytes\<rparr>\<rparr>;
     (got, u, b) \<leftarrow> XUartNs550_ReceiveBuffer (u, b);
     Some (got, u, XUartNs550_WriteReg (BaseAddress u) XUN_IER_OFFSET IerRegister b)})"

partial_function (option) XUartNs550_RecvByte :: "addr \<Rightarrow> bus \<Rightarrow> (u8 \<times> bus) option" where
  "XUartNs550_RecvByte base b =
     (case XUartNs550_IsReceiveData base b of (ready, b) \<Rightarrow>
        if ready then (case XUartNs550_ReadReg base XUN_RBR_OFFSET b of (c, b) \<Rightarrow> Some (ucast c, b))
        else XUartNs550_RecvByte base b)"

subsection \<open>Options\<close>

definition ReadFcrRegister :: "addr \<Rightarrow> bus \<Rightarrow> u32 \<times> bus" where
  "ReadFcrRegister base b =
     (let (IerRegister, b) = XUartNs550_ReadReg base XUN_IER_OFFSET b;
          b = XUartNs550_WriteReg base XUN_IER_OFFSET 0 b;
          (LcrRegister, b) = XUartNs550_ReadReg base XUN_LCR_OFFSET b;
          b = XUartNs550_WriteReg base XUN_LCR_OFFSET (LcrRegister OR XUN_LCR_DLAB) b;
          (FcrRegister, b) = XUartNs550_ReadReg base XUN_FCR_OFFSET b;
          b = XUartNs550_WriteReg base XUN_LCR_OFFSET LcrRegister b;
          b = XUartNs550_WriteReg base XUN_IER_OFFSET IerRegister b
      in (FcrRegister, b))"

text \<open>Option, register and bit mask.\<close>

definition OptionsTable :: "(u16 \<times> addr \<times> u8) list" where
  "OptionsTable =
     [(0x0400, XUN_LCR_OFFSET, 0x40), (0x0200, XUN_MCR_OFFSET, 0x10), (0x0100, XUN_IER_OFFSET, 0x01),
      (0x0080, XUN_IER_OFFSET, 0x08), (0x0040, XUN_FCR_OFFSET, 0x01), (0x0020, XUN_FCR_OFFSET, 0x04),
      (0x0010, XUN_FCR_OFFSET, 0x02), (0x0008, XUN_MCR_OFFSET, 0x08), (0x0004, XUN_MCR_OFFSET, 0x04),
      (0x0002, XUN_MCR_OFFSET, 0x02), (0x0001, XUN_MCR_OFFSET, 0x01), (0x0800, XUN_IER_OFFSET, 0x04)]"

definition read_option_reg :: "addr \<Rightarrow> addr \<Rightarrow> bus \<Rightarrow> u32 \<times> bus" where
  "read_option_reg base off b =
     (if off = XUN_FCR_OFFSET then ReadFcrRegister base b else XUartNs550_ReadReg base off b)"

fun get_options :: "(u16 \<times> addr \<times> u8) list \<Rightarrow> addr \<Rightarrow> u16 \<Rightarrow> bus \<Rightarrow> u16 \<times> bus" where
  "get_options [] base acc b = (acc, b)"
| "get_options ((opt, off, m) # t) base acc b =
     (let (Register, b) = read_option_reg base off b
      in get_options t base (if Register AND ucast m \<noteq> 0 then acc OR opt else acc) b)"

fun set_options :: "(u16 \<times> addr \<times> u8) list \<Rightarrow> addr \<Rightarrow> u16 \<Rightarrow> bus \<Rightarrow> bus" where
  "set_options [] base options b = b"
| "set_options ((opt, off, m) # t) base options b =
     (let (Register, b) = read_option_reg base off b;
          Register = (if options AND opt \<noteq> 0 then Register OR ucast m else Register AND NOT (ucast m))
      in set_options t base options (XUartNs550_WriteReg base off Register b))"

definition XUartNs550_GetOptions :: "uart_dev \<Rightarrow> (u16 \<times> uart_dev) option" where
  "XUartNs550_GetOptions = (\<lambda>(u, b). do {
     configASSERT (IsReady u = XIL_COMPONENT_IS_READY);
     let (opts, b) = get_options OptionsTable (BaseAddress u) 0 b;
     Some (opts, u, b)})"

definition XUartNs550_SetOptions :: "u16 \<Rightarrow> uart_dev \<Rightarrow> (int \<times> uart_dev) option" where
  "XUartNs550_SetOptions options = (\<lambda>(u, b). do {
     configASSERT (IsReady u = XIL_COMPONENT_IS_READY);
     Some (0, u, set_options OptionsTable (BaseAddress u) options b)})"

definition XUartNs550_GetFifoThreshold :: "uart_dev \<Rightarrow> (u8 \<times> uart_dev) option" where
  "XUartNs550_GetFifoThreshold = (\<lambda>(u, b). do {
     configASSERT (IsReady u = XIL_COMPONENT_IS_READY);
     let (FcrRegister, b) = ReadFcrRegister (BaseAddress u) b;
     Some (ucast (FcrRegister AND 0xC0), u, b)})"

definition XUartNs550_SetFifoThreshold :: "u8 \<Rightarrow> uart_dev \<Rightarrow> (int \<times> uart_dev) option" where
  "XUartNs550_SetFifoThreshold TriggerLevel = (\<lambda>(u, b). do {
     configASSERT (TriggerLevel \<in> {0xC0, 0x80, 0x40, 0x00});
     configASSERT (IsReady u = XIL_COMPONENT_IS_READY);
     let (FcrRegister, b) = ReadFcrRegister (BaseAddress u) b;
     if FcrRegister AND 0x01 = 0 then Some (XST_UART_CONFIG_ERROR, u, b)
     else Some (0, u, XUartNs550_WriteReg (BaseAddress u) XUN_FCR_OFFSET
       ((FcrRegister AND NOT 0xC0) OR ucast TriggerLevel) b)})"

definition XUartNs550_GetLastErrors :: "XUartNs550 \<Rightarrow> u8 \<times> XUartNs550" where
  "XUartNs550_GetLastErrors u = (LastErrors u AND 0x1E, u\<lparr>LastErrors := 0\<rparr>)"

definition XUartNs550_GetModemStatus :: "uart_dev \<Rightarrow> u8 \<times> uart_dev" where
  "XUartNs550_GetModemStatus = (\<lambda>(u, b).
     let (v, b) = XUartNs550_ReadReg (BaseAddress u) XUN_MSR_OFFSET b in (ucast v, u, b))"

definition XUartNs550_IsSending :: "uart_dev \<Rightarrow> bool \<times> uart_dev" where
  "XUartNs550_IsSending = (\<lambda>(u, b).
     let (lsr, b) = XUartNs550_ReadReg (BaseAddress u) XUN_LSR_OFFSET b in (lsr AND XUN_LSR_TX_EMPTY = 0, u, b))"

subsection \<open>Self-test\<close>

definition TestString :: "u8 list" where
  "TestString = map of_char ''abcdefghABCDEFGH0123456776543210''"

partial_function (option) wait_data :: "addr \<Rightarrow> bus \<Rightarrow> bus option" where
  "wait_data base b =
     (case XUartNs550_ReadReg base XUN_LSR_OFFSET b of (lsr, b) \<Rightarrow>
        if lsr AND XUN_LSR_DATA_READY = 0 then wait_data base b else Some b)"

text \<open>The loop over the test string; \<open>ret\<close> is \<^verbatim>\<open>ReturnString\<close>.\<close>

fun loopback :: "nat \<Rightarrow> u8 list \<Rightarrow> uart_dev \<Rightarrow> (u8 list \<times> uart_dev) option" where
  "loopback 0 ret d = Some (ret, d)"
| "loopback (Suc n) ret d = do {
     (ret, d) \<leftarrow> loopback n ret d;
     (_, u, b) \<leftarrow> XUartNs550_Send (drop n TestString) 1 d;
     b \<leftarrow> wait_data (BaseAddress u) b;
     (got, d) \<leftarrow> XUartNs550_Recv (drop n ret) 1 (u, b);
     Some (take n ret @ overlay got (drop n ret), d)}"

definition XUartNs550_SelfTest :: "u8 list \<Rightarrow> uart_dev \<Rightarrow> (int \<times> u8 list \<times> uart_dev) option" where
  "XUartNs550_SelfTest ret = (\<lambda>(u, b). do {
     configASSERT (IsReady u = XIL_COMPONENT_IS_READY);
     let base = BaseAddress u;
     let (IerRegister, b) = XUartNs550_ReadReg base XUN_IER_OFFSET b;
     let b = XUartNs550_WriteReg base XUN_IER_OFFSET 0 b;
     let (McrRegister, b) = XUartNs550_ReadReg base XUN_MCR_OFFSET b;
     let b = XUartNs550_WriteReg base XUN_MCR_OFFSET (McrRegister OR XUN_MCR_LOOP) b;
     (ret, u, b) \<leftarrow> loopback 32 ret (u, b);
     u \<leftarrow> XUartNs550_ClearStats u;
     let Status = (if take 32 ret = TestString then 0 else XST_UART_TEST_FAIL);
     let b = XUartNs550_WriteReg base XUN_IER_OFFSET IerRegister b;
     let b = XUartNs550_WriteReg base XUN_MCR_OFFSET McrRegister b;
     Some (Status, ret, u, b)})"

subsection \<open>The board support functions\<close>

text \<open>
  \<open>tx_mutex\<close> and \<open>rx_mutex\<close> tell whether the mutexes exist, \<open>tx_kern\<close> and \<open>rx_kern\<close> are their states in the
  kernel, \<open>ret_string\<close> is the static buffer of the self-test.
\<close>

record 'k UartDriver =
  Device :: XUartNs550
  regs :: bus
  tx_mutex :: bool
  rx_mutex :: bool
  tx_kern :: 'k
  rx_kern :: 'k
  ret_string :: "u8 list"

definition uart_rxready :: "'k UartDriver \<Rightarrow> bool \<times> 'k UartDriver" where
  "uart_rxready s = (let (r, b) = XUartNs550_IsReceiveData (BaseAddress (Device s)) (regs s) in (r, s\<lparr>regs := b\<rparr>))"

text \<open>\<open>UartNs550_0\<close> and \<open>UartNs550_1\<close> are the two static instances.\<close>

definition uart_init ::
  "'k kernel \<Rightarrow> XUartNs550_Config list \<Rightarrow> XUartNs550 \<Rightarrow> XUartNs550 \<Rightarrow> u16 \<Rightarrow> 'k UartDriver \<Rightarrow> 'k UartDriver option" where
  "uart_init K table UartNs550_0 UartNs550_1 device_id s = do {
     let (t, tk) = SemaphoreCreateMutex K (tx_kern s);
     let (r, rk) = SemaphoreCreateMutex K (rx_kern s);
     configASSERT (device_id = 0 \<or> device_id = 1);
     let u = (if device_id = 0 then UartNs550_0 else UartNs550_1);
     (st, u, b) \<leftarrow> XUartNs550_Initialize table device_id (u, regs s);
     configASSERT (st = 0);
     (st, ret, u, b) \<leftarrow> XUartNs550_SelfTest (ret_string s) (u, b);
     configASSERT (st = 0);
     (_, u, b) \<leftarrow> XUartNs550_SetOptions (0x0040 OR 0x4 OR 0x2) (u, b);
     Some (s\<lparr>Device := u, regs := b, tx_mutex := t, rx_mutex := r, tx_kern := tk, rx_kern := rk, ret_string := ret\<rparr>)}"

definition uart_rxchar :: "'k UartDriver \<Rightarrow> (u8 \<times> 'k UartDriver) option" where
  "uart_rxchar s = do {
     (c, b) \<leftarrow> XUartNs550_RecvByte (BaseAddress (Device s)) (regs s);
     Some (c, s\<lparr>regs := b\<rparr>)}"

definition uart_txchar :: "u8 \<Rightarrow> 'k UartDriver \<Rightarrow> (u8 \<times> 'k UartDriver) option" where
  "uart_txchar c s = do {
     b \<leftarrow> XUartNs550_SendByte (BaseAddress (Device s)) c (regs s);
     Some (c, s\<lparr>regs := b\<rparr>)}"

text \<open>The loop of \<^verbatim>\<open>uart_txbuffer\<close>.  \<open>remaining\<close> and \<open>idx\<close> are of type \<^verbatim>\<open>int\<close>.\<close>

partial_function (option) tx_loop :: "u8 list \<Rightarrow> int \<Rightarrow> int \<Rightarrow> uart_dev \<Rightarrow> (int \<times> uart_dev) option" where
  "tx_loop p remaining idx d =
     (if remaining > 0 then do {
        (n, d) \<leftarrow> XUartNs550_Send (drop (nat idx) p) (word_of_int remaining) d;
        let sent = sint n;
        configASSERT (sent \<ge> 0);
        tx_loop p (remaining - sent) (idx + sent) d}
      else Some (idx, d))"

definition uart_txbuffer :: "'k kernel \<Rightarrow> u8 list \<Rightarrow> int \<Rightarrow> 'k UartDriver \<Rightarrow> (int \<times> 'k UartDriver) option" where
  "uart_txbuffer K p len s = do {
     configASSERT (tx_mutex s);
     k \<leftarrow> SemaphoreTake K (tx_kern s);
     (idx, u, b) \<leftarrow> tx_loop p len 0 (Device s, regs s);
     Some (idx, s\<lparr>Device := u, regs := b, tx_kern := SemaphoreGive K k\<rparr>)}"

definition uart_rxbuffer :: "'k kernel \<Rightarrow> u8 list \<Rightarrow> int \<Rightarrow> 'k UartDriver \<Rightarrow> ((int \<times> u8 list) \<times> 'k UartDriver) option" where
  "uart_rxbuffer K p len s = do {
     configASSERT (rx_mutex s);
     k \<leftarrow> SemaphoreTake K (rx_kern s);
     (got, u, b) \<leftarrow> XUartNs550_Recv p (word_of_int len) (Device s, regs s);
     Some ((int (length got), overlay got p), s\<lparr>Device := u, regs := b, rx_kern := SemaphoreGive K k\<rparr>)}"

end
