(* ===== verification/Uart_Props.thy ===== *)
theory Uart_Props
  imports Uart
begin

section \<open>Properties of the serial port\<close>

text \<open>
  Transmission of a buffer through the FIFO, reception with line breaks, and the option table.
\<close>

lemmas uart_reg_defs = XUartNs550_ReadReg_def XUartNs550_WriteReg_def

subsection \<open>Sending\<close>

definition thr_writes :: "addr \<Rightarrow> bus \<Rightarrow> u32 list" where
  "thr_writes base b = map snd (filter (\<lambda>(a, v). a = base) (writes_of (events b)))"

lemma thr_writes_read [simp]: "thr_writes base (snd (bus_read w a b)) = thr_writes base b"
  by (simp add: thr_writes_def bus_read_def Let_def)

lemma thr_writes_write [simp]:
  "thr_writes base (bus_write W32 a v b) = thr_writes base b @ (if a = base then [v] else [])"
  by (simp add: thr_writes_def)

lemma fill_fifo_effect:
  "cells (fill_fifo base p n b) a = (if a = base \<and> 0 < n then ucast (p ! (n - 1)) else cells b a) \<and>
   feed (fill_fifo base p n b) = feed b \<and>
   thr_writes base (fill_fifo base p n b) = thr_writes base b @ map (\<lambda>i. ucast (p ! i)) [0..<n]"
  by (induction n) (auto simp: uart_reg_defs Let_def)

text \<open>A transmitter that reports an empty buffer once the reads in its feed are used up.\<close>

definition tx_ready :: "uart_dev \<Rightarrow> bool" where
  "tx_ready = (\<lambda>(u, b). IsReady u = XIL_COMPONENT_IS_READY \<and> cells b (BaseAddress u + XUN_LSR_OFFSET) AND XUN_LSR_TX_BUFFER_EMPTY \<noteq> 0)"

definition lsr_feed :: "uart_dev \<Rightarrow> u32 list" where
  "lsr_feed = (\<lambda>(u, b). feed b (BaseAddress u + XUN_LSR_OFFSET))"

lemma bytes_to_send_bounds:
  assumes "0 < n"
  shows "0 < bytes_to_send lsr iir n" "bytes_to_send lsr iir n \<le> n" "bytes_to_send lsr iir n \<le> 16"
  using assms by (auto simp: bytes_to_send_def Let_def word_less_nat_alt word_le_nat_alt)

lemma SendBuffer_effect:
  assumes "tx_ready (u, b)" "RemainingBytes (SendBuffer u) = n" "0 < n"
    "XUartNs550_SendBuffer (u, b) = (k, u', b')"
  shows "k \<le> n \<and> k \<le> 16 \<and> tx_ready (u', b') \<and> BaseAddress u' = BaseAddress u \<and>
    thr_writes (BaseAddress u) b' = thr_writes (BaseAddress u) b @ map (\<lambda>i. ucast (NextBytePtr (SendBuffer u) ! i)) [0..<unat k] \<and>
    unat (n - k) + length (lsr_feed (u', b')) < unat n + length (lsr_feed (u, b))"
proof -
  define base where "base = BaseAddress u"
  define L where "L = fst (bus_read W32 (base + 0x14) b)"
  define b1 where "b1 = snd (bus_read W32 (base + 0x14) b)"
  define I where "I = fst (bus_read W32 (base + 8) b1)"
  define b2 where "b2 = snd (bus_read W32 (base + 8) b1)"
  define b3 where "b3 = (if L AND 0x20 \<noteq> 0 then fill_fifo base (NextBytePtr (SendBuffer u)) (unat k) b2 else b1)"
  have k: "k = (if L AND 0x20 \<noteq> 0 then bytes_to_send L I n else 0)"
    using assms(2,4) by (auto simp: XUartNs550_SendBuffer_def uart_reg_defs Let_def split_beta L_def I_def b1_def base_def)
  have b': "BaseAddress u' = base" "IsReady u' = IsReady u"
    "b' = (if fst (bus_read W32 (base + 4) b3) AND 1 \<noteq> 0
       then bus_write W32 (base + 4) (fst (bus_read W32 (base + 4) b3) OR 2) (snd (bus_read W32 (base + 4) b3))
       else snd (bus_read W32 (base + 4) b3))"
    using assms(2,4) k
    by (auto simp: XUartNs550_SendBuffer_def uart_reg_defs Let_def split_beta L_def I_def b1_def b2_def b3_def base_def)
  then have eff: "thr_writes base b' = thr_writes base b3" "cells b' (base + 0x14) = cells b3 (base + 0x14)"
    "feed b' (base + 0x14) = feed b3 (base + 0x14)"
    by auto
  have b3: "thr_writes base b3 = thr_writes base b @ map (\<lambda>i. ucast (NextBytePtr (SendBuffer u) ! i)) [0..<unat k]"
    "cells b3 (base + 0x14) = cells b (base + 0x14)" "feed b3 (base + 0x14) = tl (feed b (base + 0x14))"
    by (auto simp: b3_def b2_def b1_def fill_fifo_effect k)
  have "feed b (base + 0x14) \<noteq> []" if "L AND 0x20 = 0"
    using assms(1) that by (auto simp: L_def bus_read_val tx_ready_def base_def)
  then have less: "unat (n - k) + length (tl (feed b (base + 0x14))) < unat n + length (feed b (base + 0x14))"
    using k bytes_to_send_bounds [OF assms(3), of L I] by (auto simp: unat_sub word_le_nat_alt word_less_nat_alt)
  have "k \<le> n \<and> k \<le> 16"
    using k bytes_to_send_bounds [OF assms(3), of L I] by auto
  then show ?thesis
    using less assms(1) b'(1,2) eff b3 by (auto simp: tx_ready_def lsr_feed_def base_def)
qed

lemma Send_effect:
  assumes "tx_ready (u, b)" "0 < n" "0 \<le> sint n"
  shows "\<exists>k u' b'. XUartNs550_Send p n (u, b) = Some (k, u', b') \<and> k \<le> n \<and> k \<le> 16 \<and> tx_ready (u', b') \<and>
    BaseAddress u' = BaseAddress u \<and>
    thr_writes (BaseAddress u) b' = thr_writes (BaseAddress u) b @ map (\<lambda>i. ucast (p ! i)) [0..<unat k] \<and>
    unat (n - k) + length (lsr_feed (u', b')) < unat n + length (lsr_feed (u, b))"
proof -
  define base where "base = BaseAddress u"
  define b1 where "b1 = bus_write W32 (base + 4) (fst (bus_read W32 (base + 4) b) AND NOT 2) (snd (bus_read W32 (base + 4) b))"
  define u1 where "u1 = u\<lparr>SendBuffer := \<lparr>NextBytePtr = p, RequestedBytes = n, RemainingBytes = n\<rparr>\<rparr>"
  have s: "XUartNs550_Send p n (u, b) = Some (XUartNs550_SendBuffer (u1, b1))"
    using assms by (simp add: XUartNs550_Send_def halt_simps uart_reg_defs split_beta Let_def tx_ready_def b1_def u1_def base_def)
  have r: "tx_ready (u1, b1)" "lsr_feed (u1, b1) = lsr_feed (u, b)" "thr_writes base b1 = thr_writes base b" "BaseAddress u1 = base"
    using assms(1) by (auto simp: tx_ready_def lsr_feed_def b1_def u1_def base_def)
  obtain k u' b' where k: "XUartNs550_SendBuffer (u1, b1) = (k, u', b')"
    by (metis prod_cases3)
  show ?thesis
    using SendBuffer_effect [OF r(1) _ assms(2) k] s k r by (simp add: u1_def base_def)
qed

lemma tx_loop_delivers:
  assumes "tx_ready (u, b)" "idx + rem = length p" "length p < 2 ^ 31"
  shows "\<exists>u' b'. tx_loop p (int rem) (int idx) (u, b) = Some (int (length p), u', b') \<and> tx_ready (u', b') \<and>
    BaseAddress u' = BaseAddress u \<and>
    thr_writes (BaseAddress u) b' = thr_writes (BaseAddress u) b @ map ucast (drop idx p)"
  using assms
proof (induction "rem + length (lsr_feed (u, b))" arbitrary: rem idx u b rule: less_induct)
  case less
  show ?case
  proof (cases "rem = 0")
    case True
    then show ?thesis
      using less.prems by (subst tx_loop.simps) auto
  next
    case False
    define n :: u32 where "n = of_nat rem"
    have n: "unat n = rem" "0 < n" "0 \<le> sint n"
      using less.prems(2,3) False
      by (simp_all add: n_def unat_of_nat_small word_less_nat_alt signed_of_nat signed_take_bit_int_eq_self)
    obtain k u1 b1 where k: "XUartNs550_Send (drop idx p) n (u, b) = Some (k, u1, b1)" "k \<le> n" "k \<le> 16" "tx_ready (u1, b1)"
      "BaseAddress u1 = BaseAddress u"
      "thr_writes (BaseAddress u) b1 = thr_writes (BaseAddress u) b @ map (\<lambda>i. ucast (drop idx p ! i)) [0..<unat k]"
      "unat (n - k) + length (lsr_feed (u1, b1)) < unat n + length (lsr_feed (u, b))"
      using Send_effect [OF less.prems(1) n(2,3), of "drop idx p"] by blast
    define j where "j = unat k"
    have j: "j \<le> rem" "j \<le> 16" "sint k = int j" "unat (n - k) = rem - j"
      using k(2,3) n(1) by (simp_all add: j_def word_le_nat_alt unat_sub sint_unat_small)
    obtain u2 b2 where ih: "tx_loop p (int (rem - j)) (int (idx + j)) (u1, b1) = Some (int (length p), u2, b2)" "tx_ready (u2, b2)"
      "BaseAddress u2 = BaseAddress u1"
      "thr_writes (BaseAddress u1) b2 = thr_writes (BaseAddress u1) b1 @ map ucast (drop (idx + j) p)"
      using less.hyps [of "rem - j" u1 b1 "idx + j"] k(4,7) j(1,4) n(1) less.prems(2,3) by auto
    have "map (\<lambda>i. ucast (drop idx p ! i)) [0..<j] = (map ucast (take j (drop idx p)) :: u32 list)"
      using j(1) less.prems(2) by (intro nth_equalityI) auto
    then have "map (\<lambda>i. ucast (drop idx p ! i)) [0..<j] @ map ucast (drop (idx + j) p) = (map ucast (drop idx p) :: u32 list)"
      by (simp add: add.commute [of idx] flip: map_append drop_drop)
    moreover have "tx_loop p (int rem) (int idx) (u, b) = tx_loop p (int (rem - j)) (int (idx + j)) (u1, b1)"
      using False k(1) j by (subst tx_loop.simps) (simp add: n_def halt_simps of_nat_diff Let_def)
    ultimately show ?thesis
      using ih k(4-6) by (auto simp: j_def)
  qed
qed

text \<open>Both directions keep the contract of the blocking operations, each with its own mutex.\<close>

lemma uart_tx_unlocks: "kernel_ok K \<Longrightarrow> uart_txbuffer K p len s = Some (r, s') \<Longrightarrow> unlocked K (tx_kern s')"
  by (auto simp: uart_txbuffer_def halt_simps bind_eq_Some_conv split: if_splits)

lemma uart_rx_unlocks: "kernel_ok K \<Longrightarrow> uart_rxbuffer K p len s = Some (r, s') \<Longrightarrow> unlocked K (rx_kern s')"
  by (auto simp: uart_rxbuffer_def halt_simps bind_eq_Some_conv split: if_splits)

lemma uart_tx_takes: "\<not> unlocked K (tx_kern s) \<Longrightarrow> uart_txbuffer K p len s = None"
  by (simp add: uart_txbuffer_def halt_simps unlocked_def)

lemma uart_rx_takes: "\<not> unlocked K (rx_kern s) \<Longrightarrow> uart_rxbuffer K p len s = None"
  by (simp add: uart_rxbuffer_def halt_simps unlocked_def)

interpretation uart_tx: balanced_op "\<lambda>K. uart_txbuffer K p len" tx_kern for p len
  by unfold_locales (erule (1) uart_tx_unlocks, erule uart_tx_takes)

interpretation uart_rx: balanced_op "\<lambda>K. uart_rxbuffer K p len" rx_kern for p len
  by unfold_locales (erule (1) uart_rx_unlocks, erule uart_rx_takes)

text \<open>
  C16. \<^verbatim>\<open>uart_txbuffer\<close> on a free, initialised port writes exactly the bytes of the buffer to the
  transmitter, in order, returns their number and gives the mutex back, however often the
  transmitter reports that it is busy, whether or not it has FIFOs and whatever the interrupt
  registers hold, provided it is empty after finitely many reads of its status.
\<close>

theorem uart_tx_delivers:
  assumes "kernel_ok K" "tx_mutex s" "unlocked K (tx_kern s)" "length p < 2 ^ 31" "IsReady (Device s) = 0x11111111"
    "cells (regs s) (BaseAddress (Device s) + 0x14) AND 0x20 \<noteq> 0"
  shows "\<exists>s'. uart_txbuffer K p (int (length p)) s = Some (int (length p), s') \<and> unlocked K (tx_kern s') \<and>
    thr_writes (BaseAddress (Device s)) (regs s') = thr_writes (BaseAddress (Device s)) (regs s) @ map ucast p"
proof -
  have "tx_ready (Device s, regs s)"
    using assms(5,6) by (simp add: tx_ready_def)
  then obtain u' b' where "tx_loop p (int (length p)) 0 (Device s, regs s) = Some (int (length p), u', b')"
    "thr_writes (BaseAddress (Device s)) b' = thr_writes (BaseAddress (Device s)) (regs s) @ map ucast p"
    using tx_loop_delivers [of "Device s" "regs s" 0 "length p" p] assms(4) by auto
  then show ?thesis
    using assms(1-3) by (auto simp: uart_txbuffer_def halt_simps unlocked_def [of K "tx_kern s"])
qed

text \<open>A port for the examples, with FIFOs; the transmitter is busy at the first read of its status.\<close>

definition demo_port :: XUartNs550 where
  "demo_port = \<lparr>Stats = \<lparr>TransmitInterrupts = 0, ReceiveInterrupts = 0, StatusInterrupts = 0, ModemInterrupts = 0,
       CharactersTransmitted = 0, CharactersReceived = 0, ReceiveOverrunErrors = 0, ReceiveParityErrors = 0,
       ReceiveFramingErrors = 0, ReceiveBreakDetected = 0\<rparr>, BaseAddress = 0x62300000, InputClockHz = 83333000,
     IsReady = 0x11111111, BaudRate = 115200, LastErrors = 0, SendBuffer = empty_buffer, ReceiveBuffer = empty_buffer\<rparr>"

definition demo_uart :: "(addr \<Rightarrow> u32 list) \<Rightarrow> (bool \<times> bool) UartDriver" where
  "demo_uart f = \<lparr>Device = demo_port, regs = \<lparr>cells = (\<lambda>_. 0)(0x62300008 := 0xC1, 0x62300014 := 0x60), feed = f, events = []\<rparr>,
     tx_mutex = True, rx_mutex = True, tx_kern = (False, False), rx_kern = (False, False), ret_string = []\<rparr>"

theorem uart_tx_delivers_witness:
  "\<exists>s'. uart_txbuffer demo_kernel [72, 105] 2 (demo_uart (\<lambda>a. if a = 0x62300014 then [0] else [])) = Some (2, s') \<and>
    thr_writes 0x62300000 (regs s') = [72, 105]"
  using uart_tx_delivers [OF demo_kernel_ok, of "demo_uart (\<lambda>a. if a = 0x62300014 then [0] else [])" "[72, 105]"]
  by (auto simp: demo_uart_def demo_port_def unlocked_def demo_kernel_def thr_writes_def)

subsection \<open>Receiving\<close>

text \<open>The bytes that count: those without a line break.\<close>

definition data_bytes :: "(u32 \<times> u32) list \<Rightarrow> u8 list" where
  "data_bytes items = map (ucast \<circ> snd) (filter (\<lambda>(lsr, c). lsr AND XUN_LSR_BREAK_INT = 0) items)"

lemma UpdateStats_base [simp]: "BaseAddress (XUartNs550_UpdateStats l u) = BaseAddress u"
  "IsReady (XUartNs550_UpdateStats l u) = IsReady u" "ReceiveBuffer (XUartNs550_UpdateStats l u) = ReceiveBuffer u"
  by (simp_all add: XUartNs550_UpdateStats_def Let_def)

lemma read_fed:
  "feed b a = x # xs \<Longrightarrow> bus_read W32 a b = (x, snd (bus_read W32 a b))"
  by (simp add: bus_read_def Let_def)

text \<open>What a port holds that has received some characters, and then nothing.\<close>

definition rx_holds :: "addr \<Rightarrow> (u32 \<times> u32) list \<Rightarrow> bus \<Rightarrow> bool" where
  "rx_holds base items b \<longleftrightarrow>
     (\<exists>idle rest rest'. feed b (base + XUN_LSR_OFFSET) = map fst items @ idle # rest \<and>
        feed b (base + XUN_RBR_OFFSET) = map snd items @ rest' \<and> idle AND 0x11 = 0) \<and>
     (\<forall>(lsr, c)\<in>set items. lsr AND 0x11 \<noteq> 0)"

lemma lsr_cases: "l AND 0x11 = (0 :: u32) \<longleftrightarrow> l AND 0x10 = 0 \<and> l AND 0x1 = 0"
proof -
  have "l AND 0x11 = (l AND 0x10) OR (l AND 0x1)"
    by (simp flip: bit.conj_disj_distrib)
  then show ?thesis
    by (simp add: or_eq_0_iff)
qed

lemma recv_loop_step:
  assumes "length acc < unat n" "bus_read W32 (BaseAddress u + 0x14) b = (l, b0)" "bus_read W32 (BaseAddress u) b0 = (c, b1)"
    "l AND 0x11 \<noteq> 0"
  shows "recv_loop n acc (u, b) =
    recv_loop n (if l AND 0x10 \<noteq> 0 then acc else acc @ [ucast c]) (XUartNs550_UpdateStats (ucast l) u, b1)"
  using assms by (subst recv_loop.simps) (simp add: uart_reg_defs lsr_cases)

lemma recv_loop_idle:
  assumes "bus_read W32 (BaseAddress u + 0x14) b = (l, b0)" "l AND 0x11 = 0 \<or> \<not> length acc < unat n"
  shows "\<exists>b'. recv_loop n acc (u, b) = Some (acc, u, b')"
  using assms by (subst recv_loop.simps) (auto simp: uart_reg_defs lsr_cases)

lemma recv_loop_items:
  assumes "rx_holds (BaseAddress u) items b" "length acc \<le> unat n"
  shows "\<exists>u' b'. recv_loop n acc (u, b) = Some (take (unat n) (acc @ data_bytes items), u', b') \<and>
    BaseAddress u' = BaseAddress u \<and> IsReady u' = IsReady u"
  using assms
proof (induction items arbitrary: u b acc)
  case Nil
  then obtain l rest where l: "feed b (BaseAddress u + 0x14) = l # rest" "l AND 0x11 = 0"
    unfolding rx_holds_def by auto
  define b0 where "b0 = snd (bus_read W32 (BaseAddress u + 0x14) b)"
  have "bus_read W32 (BaseAddress u + 0x14) b = (l, b0)"
    unfolding b0_def by (rule read_fed [OF l(1)])
  then show ?case
    using recv_loop_idle [of u b l b0 acc n] l(2) Nil.prems(2) by (auto simp: data_bytes_def)
next
  case (Cons i items)
  obtain l c where i: "i = (l, c)"
    by (cases i)
  define b0 where "b0 = snd (bus_read W32 (BaseAddress u + 0x14) b)"
  define b1 where "b1 = snd (bus_read W32 (BaseAddress u) b0)"
  define u1 where "u1 = XUartNs550_UpdateStats (ucast l) u"
  obtain idle rest rest' where fd: "feed b (BaseAddress u + 0x14) = l # map fst items @ idle # rest"
    "feed b (BaseAddress u) = c # map snd items @ rest'" "idle AND 0x11 = 0" "\<forall>(lsr, c)\<in>set items. lsr AND 0x11 \<noteq> 0" "l AND 0x11 \<noteq> 0"
    using Cons.prems(1) unfolding rx_holds_def i by auto
  have f: "bus_read W32 (BaseAddress u + 0x14) b = (l, b0)"
    unfolding b0_def by (rule read_fed [OF fd(1)])
  have "feed b0 (BaseAddress u) = c # map snd items @ rest'"
    using fd(2) by (simp add: b0_def)
  then have g: "bus_read W32 (BaseAddress u) b0 = (c, b1)"
    unfolding b1_def by (rule read_fed)
  have h: "rx_holds (BaseAddress u1) items b1"
    using fd by (auto simp: rx_holds_def u1_def b1_def b0_def)
  show ?case
  proof (cases "length acc < unat n")
    case True
    show ?thesis
      unfolding recv_loop_step [OF True f g fd(5)]
      using Cons.IH [OF h, of "if l AND 0x10 \<noteq> 0 then acc else acc @ [ucast c]"] True
      by (auto simp: u1_def data_bytes_def i take_Cons')
  next
    case False
    then show ?thesis
      using recv_loop_idle [OF f, of acc n] Cons.prems(2) by auto
  qed
qed

text \<open>
  \<^verbatim>\<open>uart_rxbuffer\<close> returns the characters the port holds, in order and at most as many as asked for,
  without those that are a line break, stores them at the start of the buffer, leaves the rest of the
  buffer alone and does not wait for more.
\<close>

theorem uart_rx_characters:
  assumes "kernel_ok K" "rx_mutex s" "unlocked K (rx_kern s)" "len < 2 ^ 31" "IsReady (Device s) = 0x11111111"
    "rx_holds (BaseAddress (Device s)) items (regs s)"
  shows "\<exists>s'. uart_rxbuffer K p (int len) s =
      Some ((int (length (take len (data_bytes items))), overlay (take len (data_bytes items)) p), s') \<and>
    unlocked K (rx_kern s')"
proof -
  define n :: u32 where "n = of_nat len"
  have n: "unat n = len" "0 \<le> sint n"
    using assms(4) by (simp_all add: n_def unat_of_nat_small signed_of_nat signed_take_bit_int_eq_self)
  define b where "b = bus_write W32 (BaseAddress (Device s) + 4) 0 (snd (bus_read W32 (BaseAddress (Device s) + 4) (regs s)))"
  define u where "u = (Device s)\<lparr>ReceiveBuffer := \<lparr>NextBytePtr = p, RequestedBytes = n, RemainingBytes = n\<rparr>\<rparr>"
  have "rx_holds (BaseAddress u) items b"
    using assms(6) by (simp add: rx_holds_def b_def u_def)
  then obtain u' b' where "recv_loop n [] (u, b) = Some (take len (data_bytes items), u', b')"
    using recv_loop_items [of u items b "[]" n] n(1) by auto
  then have "\<exists>u' b'. XUartNs550_Recv p n (Device s, regs s) = Some (take len (data_bytes items), u', b')"
    using assms(5) n(2)
    by (simp add: XUartNs550_Recv_def XUartNs550_ReceiveBuffer_def halt_simps uart_reg_defs split_beta Let_def flip: b_def u_def)
  then show ?thesis
    using assms(1-3) by (auto simp: uart_rxbuffer_def halt_simps unlocked_def [of K "rx_kern s"] simp flip: n_def)
qed

theorem uart_rx_characters_witness:
  "\<exists>s'. uart_rxbuffer demo_kernel [7, 7, 7] 3
      (demo_uart (\<lambda>a. if a = 0x62300014 then [0x61, 0x71, 0x61, 0x60] else if a = 0x62300000 then [72, 0, 105] else [])) =
        Some ((2, [72, 105, 7]), s')"
proof -
  have "rx_holds 0x62300000 [(0x61, 72), (0x71, 0), (0x61, 105)]
      (regs (demo_uart (\<lambda>a. if a = 0x62300014 then [0x61, 0x71, 0x61, 0x60] else if a = 0x62300000 then [72, 0, 105] else [])))"
    by (auto simp: rx_holds_def demo_uart_def)
  then show ?thesis
    using uart_rx_characters [OF demo_kernel_ok, of
        "demo_uart (\<lambda>a. if a = 0x62300014 then [0x61, 0x71, 0x61, 0x60] else if a = 0x62300000 then [72, 0, 105] else [])"
        3 "[(0x61, 72), (0x71, 0), (0x61, 105)]" "[7, 7, 7]"]
    by (auto simp: demo_uart_def demo_port_def unlocked_def demo_kernel_def data_bytes_def overlay_def)
qed

subsection \<open>Options\<close>

definition set_option_bit :: "bool \<Rightarrow> u32 \<Rightarrow> u32 \<Rightarrow> u32" where
  "set_option_bit on m r = (if on then r OR m else r AND NOT m)"

lemma set_option_same: "m \<noteq> 0 \<Longrightarrow> (set_option_bit on m r AND m = 0) = (\<not> on)"
  by (auto simp: set_option_bit_def bit.conj_disj_distrib2 and.assoc or_eq_0_iff)

lemma set_option_other: "m AND m' = 0 \<Longrightarrow> set_option_bit on m r AND m' = r AND m'"
proof -
  assume a: "m AND m' = 0"
  have "\<not> (bit m n \<and> bit m' n)" for n
    using arg_cong [OF a, of "\<lambda>w. bit w n"] by (simp add: bit_simps)
  then have "(r AND NOT m) AND m' = r AND m'"
    by (intro bit_word_eqI) (auto simp: bit_simps)
  then show ?thesis
    using a by (simp add: set_option_bit_def bit.conj_disj_distrib2)
qed

abbreviation (input) option_regs :: "addr set" where
  "option_regs \<equiv> {4, 8, 0xC, 0x10}"

definition plain_options :: "addr \<Rightarrow> bus \<Rightarrow> bool" where
  "plain_options base b \<longleftrightarrow> (\<forall>off\<in>option_regs. plain b (base + off))"

lemma read_option_reg_plain:
  assumes "plain_options base b" "off \<in> option_regs"
  obtains b' where "read_option_reg base off b = (cells b (base + off), b')" "cells b' = cells b" "plain_options base b'"
proof -
  define b' where "b' = snd (read_option_reg base off b)"
  have "read_option_reg base off b = (cells b (base + off), b') \<and> cells b' = cells b \<and> plain_options base b'"
  proof (cases "off = 8")
    case True
    then show ?thesis
      using assms(1) by (auto simp: b'_def read_option_reg_def ReadFcrRegister_def uart_reg_defs plain_options_def
          bus_read_plain plain_def bus_write_def fun_upd_twist)
  next
    case False
    then show ?thesis
      using assms by (auto simp: b'_def read_option_reg_def uart_reg_defs bus_read_plain plain_options_def plain_def)
  qed
  then show ?thesis
    using that by blast
qed

fun option_cells :: "(u16 \<times> addr \<times> u8) list \<Rightarrow> addr \<Rightarrow> u16 \<Rightarrow> (addr \<Rightarrow> u32) \<Rightarrow> (addr \<Rightarrow> u32)" where
  "option_cells [] base options c = c"
| "option_cells ((opt, off, m) # t) base options c =
     option_cells t base options (c(base + off := set_option_bit (options AND opt \<noteq> 0) (ucast m) (c (base + off))))"

lemma set_options_plain:
  "plain_options base b \<Longrightarrow> \<forall>(opt, off, m)\<in>set t. off \<in> option_regs \<Longrightarrow>
   plain_options base (set_options t base options b) \<and> cells (set_options t base options b) = option_cells t base options (cells b)"
proof (induction t arbitrary: b)
  case (Cons x t)
  obtain opt off m where x: "x = (opt, off, m)"
    by (cases x)
  obtain b' where b': "read_option_reg base off b = (cells b (base + off), b')" "cells b' = cells b" "plain_options base b'"
    using read_option_reg_plain [OF Cons.prems(1), of off] Cons.prems(2) x by auto
  define b2 where "b2 = bus_write W32 (base + off) (set_option_bit (options AND opt \<noteq> 0) (ucast m) (cells b (base + off))) b'"
  have "set_options (x # t) base options b = set_options t base options b2"
    by (simp add: x b' set_option_bit_def Let_def b2_def uart_reg_defs)
  moreover have "plain_options base b2" "cells b2 = (cells b)(base + off := set_option_bit (options AND opt \<noteq> 0) (ucast m) (cells b (base + off)))"
    using b'(2,3) by (auto simp: b2_def plain_options_def)
  ultimately show ?case
    using Cons.IH [of b2] Cons.prems(2) by (simp add: x fun_upd_def)
qed simp

fun option_value :: "(u16 \<times> addr \<times> u8) list \<Rightarrow> addr \<Rightarrow> (addr \<Rightarrow> u32) \<Rightarrow> u16 \<Rightarrow> u16" where
  "option_value [] base c acc = acc"
| "option_value ((opt, off, m) # t) base c acc = option_value t base c (if c (base + off) AND ucast m \<noteq> 0 then acc OR opt else acc)"

lemma get_options_plain:
  "plain_options base b \<Longrightarrow> \<forall>(opt, off, m)\<in>set t. off \<in> option_regs \<Longrightarrow>
   fst (get_options t base acc b) = option_value t base (cells b) acc"
proof (induction t arbitrary: b acc)
  case (Cons x t)
  obtain opt off m where x: "x = (opt, off, m)"
    by (cases x)
  obtain b' where "read_option_reg base off b = (cells b (base + off), b')" "cells b' = cells b" "plain_options base b'"
    using read_option_reg_plain [OF Cons.prems(1), of off] Cons.prems(2) x by auto
  then show ?case
    using Cons.IH [of b'] Cons.prems(2) by (simp add: x Let_def)
qed simp

lemma or_option: 
  assumes "m = (2 :: u16) ^ k"
  shows "(if x AND m \<noteq> 0 then acc OR m else acc) = acc OR (x AND m)"
  using assms by (auto simp: and_exp_eq_0_iff_not_bit) (rule bit_word_eqI, auto simp: bit_simps)+

lemma option_value_all:
  "\<forall>(opt, off, m)\<in>set t. (c (base + off) AND ucast m \<noteq> 0) = (options AND opt \<noteq> 0) \<and> (\<exists>k. opt = 2 ^ k) \<Longrightarrow>
   option_value t base c acc = acc OR (options AND foldr (OR) (map fst t) 0)"
proof (induction t arbitrary: acc)
  case (Cons x t)
  obtain opt off m where x: "x = (opt, off, m)"
    by (cases x)
  obtain k where "opt = 2 ^ k"
    using Cons.prems x by auto
  then have "(if c (base + off) AND ucast m \<noteq> 0 then acc OR opt else acc) = acc OR (options AND opt)"
    using Cons.prems or_option [of opt k options acc] x by auto
  then show ?case
    using Cons.IH [of "acc OR (options AND opt)"] Cons.prems by (simp add: x or.assoc bit.conj_disj_distrib)
qed simp

lemma option_cells_table:
  fixes options base c
  defines "c' \<equiv> option_cells OptionsTable base options c" and "on \<equiv> (\<lambda>opt. options AND opt \<noteq> 0)"
  shows "c' (base + 4) = set_option_bit (on 0x800) 4 (set_option_bit (on 0x80) 8 (set_option_bit (on 0x100) 1 (c (base + 4))))"
    "c' (base + 8) = set_option_bit (on 0x10) 2 (set_option_bit (on 0x20) 4 (set_option_bit (on 0x40) 1 (c (base + 8))))"
    "c' (base + 0xC) = set_option_bit (on 0x400) 0x40 (c (base + 0xC))"
    "c' (base + 0x10) = set_option_bit (on 0x1) 1 (set_option_bit (on 0x2) 2 (set_option_bit (on 0x4) 4
       (set_option_bit (on 0x8) 8 (set_option_bit (on 0x200) 0x10 (c (base + 0x10))))))"
  unfolding c'_def on_def OptionsTable_def by simp_all

lemma option_table_value:
  "option_value OptionsTable base (option_cells OptionsTable base options c) 0 = options AND 0xFFF"
proof -
  have "\<forall>(opt, off, m)\<in>set OptionsTable. (option_cells OptionsTable base options c (base + off) AND ucast m \<noteq> 0) = (options AND opt \<noteq> 0)"
    unfolding OptionsTable_def [THEN arg_cong, of set] by (simp add: option_cells_table set_option_same set_option_other)
  moreover have "\<exists>k. opt = 2 ^ k" if "(opt, off, m) \<in> set OptionsTable" for opt off m
  proof -
    have "opt \<in> (\<lambda>k. 2 ^ k) ` {..<12}"
      using that by (auto simp: OptionsTable_def lessThan_nat_numeral lessThan_Suc)
    then show ?thesis
      by blast
  qed
  moreover have "foldr (OR) (map fst OptionsTable) 0 = 0xFFF"
    by (simp add: OptionsTable_def)
  ultimately show ?thesis
    using option_value_all [of OptionsTable "option_cells OptionsTable base options c" base options 0] by fastforce
qed

text \<open>
  The options that \<^verbatim>\<open>XUartNs550_SetOptions\<close> sets are those that \<^verbatim>\<open>XUartNs550_GetOptions\<close> reads, for all
  twelve options of the table and whatever the registers held before, on registers that keep what is
  written to them.
\<close>

theorem uart_options_roundtrip:
  assumes "IsReady u = 0x11111111" "plain_options (BaseAddress u) b"
  shows "\<exists>d d'. XUartNs550_SetOptions options (u, b) = Some (0, d) \<and> XUartNs550_GetOptions d = Some (options AND 0xFFF, d')"
proof -
  have offs: "\<forall>(opt, off, m)\<in>set OptionsTable. off \<in> option_regs"
    by (simp add: OptionsTable_def)
  define b1 where "b1 = set_options OptionsTable (BaseAddress u) options b"
  have "plain_options (BaseAddress u) b1" "cells b1 = option_cells OptionsTable (BaseAddress u) options (cells b)"
    using set_options_plain [OF assms(2) offs] by (simp_all add: b1_def)
  then have "fst (get_options OptionsTable (BaseAddress u) 0 b1) = options AND 0xFFF"
    using get_options_plain [OF _ offs] by (simp add: option_table_value)
  then show ?thesis
    using assms(1)
    by (simp add: XUartNs550_SetOptions_def XUartNs550_GetOptions_def halt_simps split_beta Let_def flip: b1_def)
qed

theorem uart_options_roundtrip_witness:
  "\<exists>d d'. XUartNs550_SetOptions 0x46 (demo_port, regs (demo_uart (\<lambda>_. []))) = Some (0, d) \<and>
    XUartNs550_GetOptions d = Some (0x46, d')"
  using uart_options_roundtrip [of demo_port "regs (demo_uart (\<lambda>_. []))" "0x46"]
  by (simp add: plain_options_def plain_def demo_uart_def demo_port_def)

end
