(* ===== verification/IceNet.thy ===== *)
theory IceNet
  imports Mmio
begin

section \<open>The simulated network card (bsp/icenet.c)\<close>

text \<open>
  The driver keeps two circular queues of frame buffers, one for frames being sent and one for buffers
  that are posted to the card for reception.  A queue has 64 entries of which at most 63 are in use;
  \<open>head\<close> and \<open>tail\<close> are of type \<^verbatim>\<open>int\<close>.  The state of an operation is the driver instance and the bus.
\<close>

subsection \<open>Circular queues\<close>

record sk_buff_cq =
  entries :: "addr list"
  head :: int
  tail :: int

record IceNetEthernet =
  nic_base :: addr
  send_cq :: sk_buff_cq
  recv_cq :: sk_buff_cq

type_synonym nic = "IceNetEthernet \<times> bus"

abbreviation (input) CONFIG_ICENET_RING_SIZE :: int where "CONFIG_ICENET_RING_SIZE \<equiv> 64"
abbreviation (input) ICENET_SEND_COMP :: addr where "ICENET_SEND_COMP \<equiv> 16"
abbreviation (input) ICENET_RECV_COMP :: addr where "ICENET_RECV_COMP \<equiv> 18"
abbreviation (input) ICENET_COUNTS :: addr where "ICENET_COUNTS \<equiv> 20"
abbreviation (input) ICENET_INTMASK :: addr where "ICENET_INTMASK \<equiv> 32"
abbreviation (input) ICENET_SHADOW_SEND_REQ_LO :: addr where "ICENET_SHADOW_SEND_REQ_LO \<equiv> 64"
abbreviation (input) ICENET_SHADOW_RECV_REQ_LO :: addr where "ICENET_SHADOW_RECV_REQ_LO \<equiv> 72"
abbreviation (input) ICENET_INTMASK_RX :: u32 where "ICENET_INTMASK_RX \<equiv> 2"
abbreviation (input) TxFrameBufRef :: addr where "TxFrameBufRef \<equiv> 0x80000000"
abbreviation (input) RxFrameBufRef :: addr where "RxFrameBufRef \<equiv> TxFrameBufRef + 64 * 0x600"

definition CIRC_CNT :: "int \<Rightarrow> int \<Rightarrow> int" where
  "CIRC_CNT h t = (h - t) AND (CONFIG_ICENET_RING_SIZE - 1)"

definition CIRC_SPACE :: "int \<Rightarrow> int \<Rightarrow> int" where
  "CIRC_SPACE h t = CIRC_CNT t (h + 1)"

definition SK_BUFF_CQ_SPACE :: "sk_buff_cq \<Rightarrow> int" where
  "SK_BUFF_CQ_SPACE cq = CIRC_SPACE (head cq) (tail cq)"

definition sk_buff_cq_push :: "sk_buff_cq \<Rightarrow> addr \<times> sk_buff_cq" where
  "sk_buff_cq_push cq = (entries cq ! nat (head cq), cq\<lparr>head := (head cq + 1) AND (CONFIG_ICENET_RING_SIZE - 1)\<rparr>)"

definition sk_buff_cq_pop :: "sk_buff_cq \<Rightarrow> addr \<times> sk_buff_cq" where
  "sk_buff_cq_pop cq = (entries cq ! nat (tail cq), cq\<lparr>tail := (tail cq + 1) AND (CONFIG_ICENET_RING_SIZE - 1)\<rparr>)"

subsection \<open>Registers\<close>

definition send_req_avail :: "nic \<Rightarrow> int \<times> nic" where
  "send_req_avail = (\<lambda>(nic, b). let (v, b) = ioread32 (nic_base nic + ICENET_COUNTS) b in (uint (v AND 0xff), nic, b))"

definition recv_req_avail :: "nic \<Rightarrow> int \<times> nic" where
  "recv_req_avail = (\<lambda>(nic, b). let (v, b) = ioread32 (nic_base nic + ICENET_COUNTS) b in (uint (drop_bit 8 v AND 0xff), nic, b))"

definition send_comp_avail :: "nic \<Rightarrow> int \<times> nic" where
  "send_comp_avail = (\<lambda>(nic, b). let (v, b) = ioread32 (nic_base nic + ICENET_COUNTS) b in (uint (drop_bit 16 v AND 0xff), nic, b))"

definition recv_comp_avail :: "nic \<Rightarrow> int \<times> nic" where
  "recv_comp_avail = (\<lambda>(nic, b). let (v, b) = ioread32 (nic_base nic + ICENET_COUNTS) b in (uint (drop_bit 24 v AND 0xff), nic, b))"

definition icenet_set_intmask :: "u32 \<Rightarrow> nic \<Rightarrow> nic" where
  "icenet_set_intmask m = (\<lambda>(nic, b).
     let (val, b) = ioread32 (nic_base nic + ICENET_INTMASK) b
     in (nic, iowrite32 (val OR m) (nic_base nic + ICENET_INTMASK) b))"

definition icenet_clear_intmask :: "u32 \<Rightarrow> nic \<Rightarrow> nic" where
  "icenet_clear_intmask m = (\<lambda>(nic, b).
     let (val, b) = ioread32 (nic_base nic + ICENET_INTMASK) b
     in (nic, iowrite32 (val AND NOT m) (nic_base nic + ICENET_INTMASK) b))"

subsection \<open>Receiving and sending\<close>

definition post_recv :: "nic \<Rightarrow> nic" where
  "post_recv = (\<lambda>(nic, b).
     let (a, cq) = sk_buff_cq_push (recv_cq nic)
     in (nic\<lparr>recv_cq := cq\<rparr>, iowrite64 (ucast a) (nic_base nic + ICENET_SHADOW_RECV_REQ_LO) b))"

definition icenet_alloc_recv :: "nic \<Rightarrow> nic" where
  "icenet_alloc_recv s =
     (let (hw_recv_cnt, s) = recv_req_avail s;
          sw_recv_cnt = SK_BUFF_CQ_SPACE (recv_cq (fst s));
          recv_cnt = (if hw_recv_cnt < sw_recv_cnt then hw_recv_cnt else sw_recv_cnt)
      in (post_recv ^^ nat recv_cnt) s)"

definition send_space :: "int \<Rightarrow> nic \<Rightarrow> bool \<times> nic" where
  "send_space nfrags s =
     (let (n, s) = send_req_avail s in (n \<ge> nfrags \<and> SK_BUFF_CQ_SPACE (send_cq (fst s)) > 0, s))"

definition icenet_get_tx_buffer :: "nic \<Rightarrow> (bool \<times> addr) \<times> nic" where
  "icenet_get_tx_buffer s =
     (let frame = entries (send_cq (fst s)) ! nat (head (send_cq (fst s)));
          (ok, s) = send_space 1 s
      in ((ok, frame), s))"

definition complete_one :: "nic \<Rightarrow> nic" where
  "complete_one = (\<lambda>(nic, b).
     let (_, b) = ioread16 (nic_base nic + ICENET_SEND_COMP) b;
         (_, cq) = sk_buff_cq_pop (send_cq nic)
     in (nic\<lparr>send_cq := cq\<rparr>, b))"

definition icenet_complete_send :: "nic \<Rightarrow> nic" where
  "icenet_complete_send s = (let (n, s) = send_comp_avail s in (complete_one ^^ nat n) s)"

definition icenet_recv :: "nic \<Rightarrow> (int \<times> addr \<times> u16) \<times> nic" where
  "icenet_recv s =
     (let (nic, b) = icenet_complete_send s;
          (len, b) = ioread16 (nic_base nic + ICENET_RECV_COMP) b;
          (frame, cq) = sk_buff_cq_pop (recv_cq nic)
      in ((1, frame, len), nic\<lparr>recv_cq := cq\<rparr>, b))"

definition post_send :: "addr \<Rightarrow> int \<Rightarrow> nic \<Rightarrow> nic" where
  "post_send a len = (\<lambda>(nic, b).
     let packet = push_bit 48 (word_of_int len :: u64) OR (ucast a AND 0xffffffffffff);
         b = iowrite64 packet (nic_base nic + ICENET_SHADOW_SEND_REQ_LO) b;
         (_, cq) = sk_buff_cq_push (send_cq nic)
     in (nic\<lparr>send_cq := cq\<rparr>, b))"

definition icenet_start_xmit :: "addr \<Rightarrow> int \<Rightarrow> nic \<Rightarrow> int \<times> nic" where
  "icenet_start_xmit a len s = (0, post_send a len s)"

definition icenet_open :: "nic \<Rightarrow> int \<times> nic" where
  "icenet_open = (\<lambda>(nic, b).
     let rx = map (\<lambda>i. RxFrameBufRef + of_nat i * 0x600) [0..<64];
         tx = map (\<lambda>i. TxFrameBufRef + of_nat i * 0x600) [0..<64];
         nic = nic\<lparr>recv_cq := (recv_cq nic)\<lparr>entries := rx\<rparr>, send_cq := (send_cq nic)\<lparr>entries := tx\<rparr>\<rparr>
     in (0, icenet_set_intmask ICENET_INTMASK_RX (icenet_alloc_recv (nic, b))))"

subsection \<open>A circular queue is a queue\<close>

text \<open>The interface of a bounded queue, and what follows for runs of operations.\<close>

locale bounded_queue =
  fixes push :: "'q \<Rightarrow> 'a \<times> 'q"
    and pop :: "'q \<Rightarrow> 'a \<times> 'q"
    and view :: "'q \<Rightarrow> 'a list"
    and wf :: "'q \<Rightarrow> bool"
    and room :: nat
  assumes push_view: "wf q \<Longrightarrow> length (view q) < room \<Longrightarrow> wf (snd (push q)) \<and> view (snd (push q)) = view q @ [fst (push q)]"
    and pop_view: "wf q \<Longrightarrow> view q \<noteq> [] \<Longrightarrow> wf (snd (pop q)) \<and> view q = fst (pop q) # view (snd (pop q))"
begin

lemma pops: "wf q \<Longrightarrow> n \<le> length (view q) \<Longrightarrow> wf (((\<lambda>q. snd (pop q)) ^^ n) q) \<and> view (((\<lambda>q. snd (pop q)) ^^ n) q) = drop n (view q)"
proof (induction n)
  case (Suc n)
  define q' where "q' = ((\<lambda>q. snd (pop q)) ^^ n) q"
  have q': "wf q'" "view q' = drop n (view q)" "view q' \<noteq> []"
    using Suc by (simp_all add: q'_def)
  then have "view (snd (pop q')) = tl (drop n (view q))"
    using pop_view [of q'] by (metis list.sel(3))
  then show ?case
    using q' pop_view [of q'] by (simp add: tl_drop drop_Suc flip: q'_def)
qed simp

lemma pushes: "wf q \<Longrightarrow> length (view q) + n \<le> room \<Longrightarrow>
  wf (((\<lambda>q. snd (push q)) ^^ n) q) \<and> (\<exists>xs. length xs = n \<and> view (((\<lambda>q. snd (push q)) ^^ n) q) = view q @ xs)"
proof (induction n)
  case (Suc n)
  define q' where "q' = ((\<lambda>q. snd (push q)) ^^ n) q"
  obtain xs where q': "wf q'" "length xs = n" "view q' = view q @ xs"
    using Suc by (auto simp: q'_def)
  then have "wf (snd (push q'))" "view (snd (push q')) = view q @ xs @ [fst (push q')]"
    using push_view [of q'] Suc.prems(2) by simp_all
  then show ?case
    using q'(2) by (auto intro!: exI [of _ "xs @ [fst (push q')]"] simp flip: q'_def)
qed simp

end

text \<open>The frames of a circular queue, from the oldest on.\<close>

definition cq_count :: "sk_buff_cq \<Rightarrow> nat" where
  "cq_count cq = nat ((head cq - tail cq) mod 64)"

definition cq_view :: "sk_buff_cq \<Rightarrow> addr list" where
  "cq_view cq = map (\<lambda>i. entries cq ! nat ((tail cq + int i) mod 64)) [0..<cq_count cq]"

definition cq_wf :: "sk_buff_cq \<Rightarrow> bool" where
  "cq_wf cq \<longleftrightarrow> length (entries cq) = 64 \<and> distinct (entries cq) \<and> 0 \<le> head cq \<and> head cq < 64 \<and> 0 \<le> tail cq \<and> tail cq < 64"

lemma and_63: "(x :: int) AND 63 = x mod 64"
proof -
  have "(63 :: int) = mask 6"
    by (simp add: mask_eq_exp_minus_1)
  then show ?thesis
    by (simp only: flip: take_bit_eq_mask) (simp add: take_bit_eq_mod)
qed

lemma mod64I: "(x :: int) = r + 64 * q \<Longrightarrow> 0 \<le> r \<Longrightarrow> r < 64 \<Longrightarrow> x mod 64 = r"
  by simp

lemma mod64_split: "(x :: int) = x mod 64 + 64 * (x div 64)" "0 \<le> x mod 64" "x mod 64 < 64"
  by simp_all

lemma cq_space: "SK_BUFF_CQ_SPACE cq = 63 - int (cq_count cq)"
proof -
  define r q where "r = (head cq - tail cq) mod 64" and "q = (head cq - tail cq) div 64"
  have "head cq - tail cq = r + 64 * q" "0 \<le> r" "r < 64"
    using mod64_split [of "head cq - tail cq"] by (simp_all add: r_def q_def)
  then have "(tail cq - (head cq + 1)) mod 64 = 63 - r"
    by (intro mod64I [of _ _ "- 1 - q"]) (simp_all add: algebra_simps)
  then show ?thesis
    using \<open>0 \<le> r\<close> by (simp add: SK_BUFF_CQ_SPACE_def CIRC_SPACE_def CIRC_CNT_def and_63 cq_count_def flip: r_def)
qed

lemma cq_count_upd:
  "cq_count (cq\<lparr>head := h\<rparr>) = nat ((h - tail cq) mod 64)" "cq_count (cq\<lparr>tail := t\<rparr>) = nat ((head cq - t) mod 64)"
  by (simp_all add: cq_count_def)

lemma cq_count_push: "cq_count cq < 63 \<Longrightarrow> nat (((head cq + 1) mod 64 - tail cq) mod 64) = Suc (cq_count cq)"
proof -
  assume a: "cq_count cq < 63"
  have "((head cq + 1) mod 64 - tail cq) mod 64 = (head cq - tail cq + 1) mod 64"
    by (simp add: mod_simps algebra_simps)
  also have "\<dots> = (head cq - tail cq) mod 64 + 1"
    using mod64_split [of "head cq - tail cq"] a unfolding cq_count_def
    by (intro mod64I [of _ _ "(head cq - tail cq) div 64"]) linarith+
  finally show ?thesis
    using mod64_split(2) [of "head cq - tail cq"] by (simp add: cq_count_def)
qed

lemma cq_count_pop: "0 < cq_count cq \<Longrightarrow> cq_count cq = Suc (nat ((head cq - (tail cq + 1) mod 64) mod 64))"
proof -
  assume a: "0 < cq_count cq"
  have "(head cq - (tail cq + 1) mod 64) mod 64 = (head cq - tail cq - 1) mod 64"
    by (simp add: mod_simps algebra_simps)
  also have "\<dots> = (head cq - tail cq) mod 64 - 1"
    using mod64_split [of "head cq - tail cq"] a unfolding cq_count_def
    by (intro mod64I [of _ _ "(head cq - tail cq) div 64"]) linarith+
  finally show ?thesis
    using a by (simp add: cq_count_def)
qed

lemma cq_push_view:
  assumes "cq_wf cq" "length (cq_view cq) < 63"
  shows "cq_wf (snd (sk_buff_cq_push cq)) \<and> cq_view (snd (sk_buff_cq_push cq)) = cq_view cq @ [fst (sk_buff_cq_push cq)]"
proof -
  have c: "cq_count (snd (sk_buff_cq_push cq)) = Suc (cq_count cq)"
    using assms(2) cq_count_push [of cq] by (simp add: cq_view_def cq_count_upd sk_buff_cq_push_def and_63)
  have h: "(tail cq + int (cq_count cq)) mod 64 = head cq"
    using assms(1) by (simp add: cq_wf_def cq_count_def mod_simps)
  show ?thesis
    using assms(1) h by (simp add: cq_view_def c) (simp add: sk_buff_cq_push_def cq_wf_def and_63)
qed

lemma cq_pop_view:
  assumes "cq_wf cq" "cq_view cq \<noteq> []"
  shows "cq_wf (snd (sk_buff_cq_pop cq)) \<and> cq_view cq = fst (sk_buff_cq_pop cq) # cq_view (snd (sk_buff_cq_pop cq))"
proof -
  have c: "cq_count cq = Suc (cq_count (snd (sk_buff_cq_pop cq)))"
    using assms(2) cq_count_pop [of cq] by (simp add: cq_view_def cq_count_upd sk_buff_cq_pop_def and_63)
  have "map (\<lambda>i. entries cq ! nat ((tail cq + int i) mod 64)) [0..<Suc n] =
      entries cq ! nat (tail cq mod 64) # map (\<lambda>i. entries cq ! nat ((tail cq + (1 + int i)) mod 64)) [0..<n]" for n
    by (simp only: upt_conv_Cons map_Suc_upt [symmetric]) (simp add: o_def)
  then show ?thesis
    using assms(1) by (simp add: cq_view_def c) (simp add: sk_buff_cq_pop_def cq_wf_def and_63 mod_simps add.assoc)
qed

interpretation cq: bounded_queue sk_buff_cq_push sk_buff_cq_pop cq_view cq_wf 63
  by unfold_locales (erule (1) cq_push_view, erule (1) cq_pop_view)

end
