(* ===== verification/IceNet_Props.thy ===== *)
theory IceNet_Props
  imports IceNet
begin

section \<open>Properties of the network card driver\<close>

text \<open>
  The frame buffers of the driver, who owns them in every reachable state, and the effect of the
  operations on the two queues.
\<close>

subsection \<open>Buffers\<close>

definition tx_buffers :: "addr list" where
  "tx_buffers = map (\<lambda>i. TxFrameBufRef + of_nat i * 0x600) [0..<64]"

definition rx_buffers :: "addr list" where
  "rx_buffers = map (\<lambda>i. RxFrameBufRef + of_nat i * 0x600) [0..<64]"

definition nth_buffer :: "nat \<Rightarrow> addr" where
  "nth_buffer i = TxFrameBufRef + of_nat i * 0x600"

lemma nth_buffer_unat: "i < 128 \<Longrightarrow> unat (nth_buffer i) = 0x80000000 + i * 0x600"
proof -
  assume i: "i < 128"
  have "nth_buffer i = of_nat (0x80000000 + i * 0x600)"
    by (simp add: nth_buffer_def)
  also have "unat (\<dots> :: addr) = 0x80000000 + i * 0x600"
    using i by (intro unat_of_nat_small) simp
  finally show ?thesis .
qed

lemma nth_buffer_inj: "i < 128 \<Longrightarrow> j < 128 \<Longrightarrow> nth_buffer i = nth_buffer j \<longleftrightarrow> i = j"
proof
  assume "i < 128" "j < 128" "nth_buffer i = nth_buffer j"
  then have "0x80000000 + i * 0x600 = 0x80000000 + j * (0x600 :: nat)"
    by (metis nth_buffer_unat)
  then show "i = j"
    by simp
qed simp

lemma buffers_alt:
  "tx_buffers = map nth_buffer [0..<64]" "rx_buffers = map (\<lambda>i. nth_buffer (64 + i)) [0..<64]"
  by (simp_all add: tx_buffers_def rx_buffers_def nth_buffer_def algebra_simps del: upt_rec_numeral)

lemma buffers_distinct: "distinct (tx_buffers @ rx_buffers)"
  unfolding buffers_alt by (auto simp: distinct_map inj_on_def nth_buffer_inj simp del: upt_rec_numeral)

lemma cq_view_distinct:
  assumes "cq_wf cq"
  shows "distinct (cq_view cq)" "set (cq_view cq) \<subseteq> set (entries cq)" "length (cq_view cq) \<le> 63"
proof -
  have c: "cq_count cq < 64"
    using mod64_split [of "head cq - tail cq"] by (simp add: cq_count_def nat_less_iff)
  then show "length (cq_view cq) \<le> 63"
    by (simp add: cq_view_def)
  have idx: "nat ((tail cq + int i) mod 64) < length (entries cq)" for i
    using assms mod64_split [of "tail cq + int i"] by (simp add: cq_wf_def nat_less_iff)
  then show "set (cq_view cq) \<subseteq> set (entries cq)"
    by (auto simp: cq_view_def)
  have "inj_on (\<lambda>i. nat ((tail cq + int i) mod 64)) {0..<cq_count cq}"
  proof (rule inj_onI)
    fix i j
    assume ij: "i \<in> {0..<cq_count cq}" "j \<in> {0..<cq_count cq}" "nat ((tail cq + int i) mod 64) = nat ((tail cq + int j) mod 64)"
    then have "(tail cq + int i) mod 64 = (tail cq + int j) mod 64"
      using mod64_split(2) [of "tail cq + int i"] mod64_split(2) [of "tail cq + int j"] by simp
    then have "int i mod 64 = int j mod 64"
      by (metis add_diff_cancel_left' mod_diff_left_eq)
    then show "i = j"
      using ij(1,2) c by simp
  qed
  moreover have "distinct (entries cq)"
    using assms by (simp add: cq_wf_def)
  ultimately show "distinct (cq_view cq)"
    using idx by (auto simp: cq_view_def distinct_map inj_on_def nth_eq_iff_index_eq)
qed

subsection \<open>Operations on the queues\<close>

lemma reads_simps [simp]:
  "fst (snd (send_req_avail s)) = fst s" "fst (snd (recv_req_avail s)) = fst s" "fst (snd (send_comp_avail s)) = fst s"
  by (simp_all add: send_req_avail_def recv_req_avail_def send_comp_avail_def split_beta Let_def)

lemma post_recv_pow:
  "fst ((post_recv ^^ n) s) = (fst s)\<lparr>recv_cq := ((\<lambda>q. snd (sk_buff_cq_push q)) ^^ n) (recv_cq (fst s))\<rparr>"
  by (induction n) (simp_all add: post_recv_def split_beta Let_def)

lemma complete_one_pow:
  "fst ((complete_one ^^ n) s) = (fst s)\<lparr>send_cq := ((\<lambda>q. snd (sk_buff_cq_pop q)) ^^ n) (send_cq (fst s))\<rparr>"
  by (induction n) (simp_all add: complete_one_def split_beta Let_def)

text \<open>What the posting of receive buffers writes to the card.\<close>

lemma post_recv_events:
  assumes "cq_wf (recv_cq (fst s))" "length (cq_view (recv_cq (fst s))) + n \<le> 63"
  shows "\<exists>posted. length posted = n \<and> cq_view (recv_cq (fst ((post_recv ^^ n) s))) = cq_view (recv_cq (fst s)) @ posted \<and>
    cq_wf (recv_cq (fst ((post_recv ^^ n) s))) \<and>
    writes_of (events (snd ((post_recv ^^ n) s))) = writes_of (events (snd s)) @
      concat (map (\<lambda>a. [(nic_base (fst s) + 72, a), (nic_base (fst s) + 76, 0)]) posted)"
  using assms
proof (induction n)
  case (Suc n)
  define s1 where "s1 = (post_recv ^^ n) s"
  define q where "q = recv_cq (fst s1)"
  obtain posted where ih: "length posted = n" "cq_view q = cq_view (recv_cq (fst s)) @ posted" "cq_wf q"
    "writes_of (events (snd s1)) = writes_of (events (snd s)) @
      concat (map (\<lambda>a. [(nic_base (fst s) + 72, a), (nic_base (fst s) + 76, 0)]) posted)"
    using Suc by (auto simp: s1_def q_def)
  have view: "cq_wf (snd (sk_buff_cq_push q)) \<and> cq_view (snd (sk_buff_cq_push q)) = cq_view q @ [fst (sk_buff_cq_push q)]"
    using cq.push_view [OF ih(3)] ih(1,2) Suc.prems(2) by simp
  have base: "nic_base (fst s1) = nic_base (fst s)"
    by (simp add: s1_def post_recv_pow)
  have hi: "(ucast (drop_bit 32 (ucast a :: u64)) :: u32) = 0" "(ucast (ucast a :: u64) :: u32) = a" for a :: u32
    using bit_imp_le_length [of a] by (auto intro!: bit_word_eqI simp: bit_simps) fastforce+
  have "writes_of (events (snd (post_recv s1))) = writes_of (events (snd s1)) @
      [(nic_base (fst s) + 72, fst (sk_buff_cq_push q)), (nic_base (fst s) + 76, 0)]"
    by (simp add: post_recv_def split_beta Let_def q_def base events_iowrite64 hi)
  moreover have "(post_recv ^^ Suc n) s = post_recv s1" "recv_cq (fst (post_recv s1)) = snd (sk_buff_cq_push q)"
    by (simp_all add: s1_def) (simp add: post_recv_def split_beta Let_def q_def s1_def)
  ultimately show ?case
    using ih view by (intro exI [of _ "posted @ [fst (sk_buff_cq_push q)]"]) simp
qed simp

lemma cq_ops_entries [simp]:
  "entries (snd (sk_buff_cq_push q)) = entries q" "entries (snd (sk_buff_cq_pop q)) = entries q"
  "entries (((\<lambda>q. snd (sk_buff_cq_push q)) ^^ n) q) = entries q" "entries (((\<lambda>q. snd (sk_buff_cq_pop q)) ^^ n) q) = entries q"
proof -
  show a: "entries (snd (sk_buff_cq_push q)) = entries q" "entries (snd (sk_buff_cq_pop q)) = entries q" for q
    by (simp_all add: sk_buff_cq_push_def sk_buff_cq_pop_def)
  show "entries (((\<lambda>q. snd (sk_buff_cq_push q)) ^^ n) q) = entries q" "entries (((\<lambda>q. snd (sk_buff_cq_pop q)) ^^ n) q) = entries q"
    by (induction n) (simp_all add: a)
qed

lemma alloc_recv_effect:
  assumes "cq_wf (recv_cq (fst s))" "recv_req_avail s = (hw, s1)" "0 \<le> hw"
  shows "\<exists>posted. length posted = min (nat hw) (63 - length (cq_view (recv_cq (fst s)))) \<and>
    cq_view (recv_cq (fst (icenet_alloc_recv s))) = cq_view (recv_cq (fst s)) @ posted \<and>
    cq_wf (recv_cq (fst (icenet_alloc_recv s))) \<and>
    writes_of (events (snd (icenet_alloc_recv s))) = writes_of (events (snd s)) @
      concat (map (\<lambda>a. [(nic_base (fst s) + 72, a), (nic_base (fst s) + 76, 0)]) posted)"
proof -
  define n where "n = min (nat hw) (63 - length (cq_view (recv_cq (fst s))))"
  have s1: "fst s1 = fst s" "writes_of (events (snd s1)) = writes_of (events (snd s))"
    using assms(2) by (auto simp: recv_req_avail_def ioread32_def bus_read_def Let_def split_beta)
  have len: "length (cq_view (recv_cq (fst s))) = cq_count (recv_cq (fst s))" "cq_count (recv_cq (fst s)) \<le> 63"
    using cq_view_distinct(3) [OF assms(1)] by (simp_all add: cq_view_def)
  have "nat (if hw < 63 - int (cq_count (recv_cq (fst s))) then hw else 63 - int (cq_count (recv_cq (fst s)))) = n"
    using assms(3) len by (simp add: n_def min_def nat_diff_distrib) linarith
  then have "icenet_alloc_recv s = (post_recv ^^ n) s1"
    using assms(2) by (auto simp: icenet_alloc_recv_def cq_space s1 Let_def split: if_splits)
  then show ?thesis
    using post_recv_events [of s1 n] assms(1) len s1 by (simp add: n_def)
qed

lemma complete_send_effect:
  assumes "cq_wf (send_cq (fst s))" "send_comp_avail s = (n, s1)" "nat n \<le> length (cq_view (send_cq (fst s)))"
  shows "cq_wf (send_cq (fst (icenet_complete_send s))) \<and>
    cq_view (send_cq (fst (icenet_complete_send s))) = drop (nat n) (cq_view (send_cq (fst s))) \<and>
    recv_cq (fst (icenet_complete_send s)) = recv_cq (fst s) \<and>
    entries (send_cq (fst (icenet_complete_send s))) = entries (send_cq (fst s))"
proof -
  have "fst s1 = fst s"
    using assms(2) by (auto simp: send_comp_avail_def split_beta Let_def)
  then show ?thesis
    using cq.pops [OF assms(1,3)] assms(2) by (simp add: icenet_complete_send_def complete_one_pow)
qed

subsection \<open>Reachable states\<close>

text \<open>
  The steps of the driver.  A transmission follows a successful \<^verbatim>\<open>icenet_get_tx_buffer\<close>; the card completes
  only what it was given.  The registers change at any time.
\<close>

inductive nic_step :: "nic \<Rightarrow> nic \<Rightarrow> bool" where
  step_alloc: "nic_step s (icenet_alloc_recv s)"
| step_recv: "cq_view (recv_cq (fst s)) \<noteq> [] \<Longrightarrow> nat (fst (send_comp_avail s)) \<le> length (cq_view (send_cq (fst s))) \<Longrightarrow>
    icenet_recv s = (r, t) \<Longrightarrow> nic_step s t"
| step_xmit: "icenet_get_tx_buffer s = ((True, frame), s1) \<Longrightarrow> icenet_start_xmit frame len s1 = (r, t) \<Longrightarrow> nic_step s t"
| step_set_mask: "nic_step s (icenet_set_intmask m s)"
| step_clear_mask: "nic_step s (icenet_clear_intmask m s)"
| step_card: "nic_step (nic, b) (nic, b')"

definition nic_start :: "nic \<Rightarrow> bool" where
  "nic_start s \<longleftrightarrow> (\<exists>nic b. head (recv_cq nic) = 0 \<and> tail (recv_cq nic) = 0 \<and> head (send_cq nic) = 0 \<and> tail (send_cq nic) = 0 \<and>
     s = snd (icenet_open (nic, b)))"

definition nic_inv :: "nic \<Rightarrow> bool" where
  "nic_inv s \<longleftrightarrow> cq_wf (recv_cq (fst s)) \<and> cq_wf (send_cq (fst s)) \<and>
     entries (recv_cq (fst s)) = rx_buffers \<and> entries (send_cq (fst s)) = tx_buffers"

lemma alloc_recv_frame:
  "entries (recv_cq (fst (icenet_alloc_recv s))) = entries (recv_cq (fst s))" "send_cq (fst (icenet_alloc_recv s)) = send_cq (fst s)"
  by (simp_all add: icenet_alloc_recv_def split_beta Let_def post_recv_pow)

lemma alloc_recv_inv: "nic_inv s \<Longrightarrow> nic_inv (icenet_alloc_recv s)"
proof -
  assume "nic_inv s"
  moreover obtain hw s1 where "recv_req_avail s = (hw, s1)" "0 \<le> hw"
    by (auto simp: recv_req_avail_def split_beta Let_def)
  ultimately show ?thesis
    using alloc_recv_effect [of s hw s1] alloc_recv_frame [of s] by (auto simp: nic_inv_def)
qed

lemma masks_frame [simp]: "fst (icenet_set_intmask m s) = fst s" "fst (icenet_clear_intmask m s) = fst s"
  by (simp_all add: icenet_set_intmask_def icenet_clear_intmask_def split_beta Let_def)

text \<open>Sending and receiving one frame.\<close>

lemma xmit_effect:
  assumes "cq_wf (send_cq (fst s))" "icenet_get_tx_buffer s = ((True, frame), s1)" "icenet_start_xmit frame len s1 = (r, t)"
  shows "cq_view (send_cq (fst t)) = cq_view (send_cq (fst s)) @ [frame] \<and> cq_wf (send_cq (fst t)) \<and>
    recv_cq (fst t) = recv_cq (fst s) \<and> entries (send_cq (fst t)) = entries (send_cq (fst s))"
proof -
  have s1: "fst s1 = fst s" "SK_BUFF_CQ_SPACE (send_cq (fst s)) > 0" "frame = fst (sk_buff_cq_push (send_cq (fst s)))"
    using assms(2) by (auto simp: icenet_get_tx_buffer_def send_space_def split_beta Let_def sk_buff_cq_push_def)
  have "length (cq_view (send_cq (fst s))) < 63"
    using s1(2) by (simp add: cq_space cq_view_def)
  moreover have "fst t = (fst s)\<lparr>send_cq := snd (sk_buff_cq_push (send_cq (fst s)))\<rparr>"
    using assms(3) s1(1) by (auto simp: icenet_start_xmit_def post_send_def split_beta Let_def)
  ultimately show ?thesis
    using cq.push_view [OF assms(1)] s1(3) by simp
qed

lemma recv_effect:
  assumes "cq_wf (recv_cq (fst s))" "cq_wf (send_cq (fst s))" "cq_view (recv_cq (fst s)) \<noteq> []"
    "nat (fst (send_comp_avail s)) \<le> length (cq_view (send_cq (fst s)))" "icenet_recv s = ((ok, frame, len), t)"
  shows "cq_view (recv_cq (fst s)) = frame # cq_view (recv_cq (fst t)) \<and> cq_wf (recv_cq (fst t)) \<and> cq_wf (send_cq (fst t)) \<and>
    cq_view (send_cq (fst t)) = drop (nat (fst (send_comp_avail s))) (cq_view (send_cq (fst s))) \<and>
    entries (recv_cq (fst t)) = entries (recv_cq (fst s)) \<and> entries (send_cq (fst t)) = entries (send_cq (fst s))"
proof -
  obtain n s1 where n: "send_comp_avail s = (n, s1)"
    by (cases "send_comp_avail s")
  define s2 where "s2 = icenet_complete_send s"
  have s2: "cq_wf (send_cq (fst s2))" "cq_view (send_cq (fst s2)) = drop (nat n) (cq_view (send_cq (fst s)))"
    "recv_cq (fst s2) = recv_cq (fst s)" "entries (send_cq (fst s2)) = entries (send_cq (fst s))"
    using complete_send_effect [OF assms(2) n] assms(4) n by (simp_all add: s2_def)
  have "frame = fst (sk_buff_cq_pop (recv_cq (fst s)))" "fst t = (fst s2)\<lparr>recv_cq := snd (sk_buff_cq_pop (recv_cq (fst s)))\<rparr>"
    using assms(5) s2(3) by (auto simp: icenet_recv_def split_beta Let_def simp flip: s2_def)
  then show ?thesis
    using cq.pop_view [OF assms(1,3)] s2 n by simp
qed

interpretation nic: inv_system nic_start nic_step nic_inv
proof
  fix s
  assume "nic_start s"
  then obtain nic b where o: "head (recv_cq nic) = 0" "tail (recv_cq nic) = 0" "head (send_cq nic) = 0" "tail (send_cq nic) = 0"
    "s = snd (icenet_open (nic, b))"
    unfolding nic_start_def by blast
  define nic' where "nic' = nic\<lparr>recv_cq := (recv_cq nic)\<lparr>entries := rx_buffers\<rparr>, send_cq := (send_cq nic)\<lparr>entries := tx_buffers\<rparr>\<rparr>"
  have "nic_inv (nic', b)"
    using o buffers_distinct by (simp add: nic_inv_def nic'_def cq_wf_def tx_buffers_def rx_buffers_def del: upt_rec_numeral)
  moreover have "s = icenet_set_intmask 2 (icenet_alloc_recv (nic', b))"
    using o(5) by (simp add: icenet_open_def nic'_def tx_buffers_def rx_buffers_def del: upt_rec_numeral)
  ultimately show "nic_inv s"
    using alloc_recv_inv [of "(nic', b)"] by (simp add: nic_inv_def)
next
  fix s t
  assume inv: "nic_inv s" and "nic_step s t"
  show "nic_inv t"
    using \<open>nic_step s t\<close> inv
  proof cases
    case step_alloc
    then show ?thesis
      using alloc_recv_inv inv by simp
  next
    case (step_recv r)
    then show ?thesis
      using inv recv_effect [of s "fst r" "fst (snd r)" "snd (snd r)" t] by (simp add: nic_inv_def)
  next
    case (step_xmit frame s1 len r)
    then show ?thesis
      using inv xmit_effect [of s frame s1 len r t] by (simp add: nic_inv_def)
  qed (use inv in \<open>simp_all add: nic_inv_def\<close>)
qed

text \<open>
  C17. In every reachable state of the network driver the frame buffers that are posted for reception or
  being sent are pairwise different and at most 63 each.  In such a state \<^verbatim>\<open>icenet_alloc_recv\<close> posts the next
  free buffers, as many as the card accepts and the queue has room for, writing the address of each to
  the card; \<^verbatim>\<open>icenet_recv\<close> hands out the buffer posted first and retires the frames that are sent;
  \<^verbatim>\<open>icenet_start_xmit\<close> on the buffer of a successful \<^verbatim>\<open>icenet_get_tx_buffer\<close> appends a buffer that is not in use.
\<close>

theorem icenet_rings:
  assumes "reach nic_start nic_step s"
  shows "distinct (cq_view (recv_cq (fst s)) @ cq_view (send_cq (fst s))) \<and>
    length (cq_view (recv_cq (fst s))) \<le> 63 \<and> length (cq_view (send_cq (fst s))) \<le> 63 \<and>
    (\<exists>posted. length posted = min (nat (fst (recv_req_avail s))) (63 - length (cq_view (recv_cq (fst s)))) \<and>
      cq_view (recv_cq (fst (icenet_alloc_recv s))) = cq_view (recv_cq (fst s)) @ posted \<and>
      writes_of (events (snd (icenet_alloc_recv s))) = writes_of (events (snd s)) @
        concat (map (\<lambda>a. [(nic_base (fst s) + 72, a), (nic_base (fst s) + 76, 0)]) posted)) \<and>
    (\<forall>ok frame len t. cq_view (recv_cq (fst s)) \<noteq> [] \<longrightarrow> nat (fst (send_comp_avail s)) \<le> length (cq_view (send_cq (fst s))) \<longrightarrow>
      icenet_recv s = ((ok, frame, len), t) \<longrightarrow>
      cq_view (recv_cq (fst s)) = frame # cq_view (recv_cq (fst t)) \<and>
      cq_view (send_cq (fst t)) = drop (nat (fst (send_comp_avail s))) (cq_view (send_cq (fst s)))) \<and>
    (\<forall>frame s1 len r t. icenet_get_tx_buffer s = ((True, frame), s1) \<longrightarrow> icenet_start_xmit frame len s1 = (r, t) \<longrightarrow>
      frame \<notin> set (cq_view (send_cq (fst s))) \<and> cq_view (send_cq (fst t)) = cq_view (send_cq (fst s)) @ [frame])"
proof -
  have inv: "cq_wf (recv_cq (fst s))" "cq_wf (send_cq (fst s))" "entries (recv_cq (fst s)) = rx_buffers" "entries (send_cq (fst s)) = tx_buffers"
    using nic.reach_inv [OF assms] by (simp_all add: nic_inv_def)
  note d = cq_view_distinct [OF inv(1)] cq_view_distinct [OF inv(2)]
  have "distinct (cq_view (recv_cq (fst s)) @ cq_view (send_cq (fst s)))"
    using d inv(3,4) buffers_distinct by auto
  moreover have "0 \<le> fst (recv_req_avail s)"
    by (simp add: recv_req_avail_def split_beta Let_def)
  moreover have "frame \<notin> set (cq_view (send_cq (fst s)))"
    if "icenet_get_tx_buffer s = ((True, frame), s1)" "icenet_start_xmit frame len s1 = (r, t)" for frame s1 len r t
  proof -
    have "distinct (cq_view (send_cq (fst s)) @ [frame])"
      using xmit_effect [OF inv(2) that] cq_view_distinct(1) [of "send_cq (fst t)"] by simp
    then show ?thesis
      by simp
  qed
  moreover have "recv_req_avail s = (fst (recv_req_avail s), snd (recv_req_avail s))"
    by simp
  ultimately show ?thesis
    using d(3,6) alloc_recv_effect [OF inv(1)] recv_effect [OF inv(1,2)] xmit_effect [OF inv(2)]
    by (intro conjI allI impI) (assumption | blast)+
qed

definition closed_nic :: IceNetEthernet where
  "closed_nic = \<lparr>nic_base = 0x62100000, send_cq = \<lparr>entries = [], head = 0, tail = 0\<rparr>, recv_cq = \<lparr>entries = [], head = 0, tail = 0\<rparr>\<rparr>"

definition demo_nic :: nic where
  "demo_nic = snd (icenet_open (closed_nic, \<lparr>cells = (\<lambda>_. 0)(0x62100014 := 0x0200), feed = (\<lambda>_. []), events = []\<rparr>))"

lemma demo_nic_reach: "reach nic_start nic_step demo_nic"
  unfolding demo_nic_def
  by (rule reach_init, unfold nic_start_def, rule exI [of _ closed_nic]) (auto simp: closed_nic_def)

theorem icenet_rings_witness:
  "reach nic_start nic_step demo_nic \<and> distinct (cq_view (recv_cq (fst demo_nic)) @ cq_view (send_cq (fst demo_nic))) \<and>
   (\<exists>posted. cq_view (recv_cq (fst (icenet_alloc_recv demo_nic))) = cq_view (recv_cq (fst demo_nic)) @ posted)"
  using demo_nic_reach icenet_rings [OF demo_nic_reach] by blast

end
