(* ===== verification/IceBlk.thy ===== *)
theory IceBlk
  imports Plic Rtos
begin

section \<open>The simulated block device (bsp/iceblk.c, FatFs/source/diskio.c)\<close>

text \<open>
  The driver keeps one intermediate buffer of 16 sectors, hands requests to the device and waits for
  the interrupt.  \<^verbatim>\<open>diskio.c\<close> is the glue by which the file system reads and writes sectors.

  The device is a parameter, and all it learns of a request is what the driver has written to its
  registers: \<open>Request\<close> is what it does when the request register is read, given the contents of its
  registers by their offsets.  \<open>DuringSleep\<close> and \<open>DuringWait\<close> are what happens while the driver sleeps
  for a moment and then waits, given the address and the contents of the driver's buffer: the
  interrupts, each with the contents of the buffer and the state of the device at that time, and
  both at the end.  The mutex and the notification are those of the theory of the kernel.
\<close>

record IceblkDev =
  blk_base :: addr
  blk_mutex :: bool
  qrunning :: int
  disk_present :: int
  nsectors :: u32
  max_req_len :: u32
  ntags :: u32
  blk_task :: bool
  tag :: u8
  blk_buffer :: "u8 list"
  blk_buffer_at :: addr

record ('h, 'k) blk =
  port :: IceblkDev
  blk_regs :: bus
  disk :: 'h
  blk_kern :: 'k

type_synonym 'h blk_run = "(u8 list \<times> 'h) list \<times> u8 list \<times> 'h"

record 'h blk_hw =
  Request :: "(addr \<Rightarrow> u32) \<Rightarrow> 'h \<Rightarrow> 'h"
  DuringSleep :: "addr \<Rightarrow> u8 list \<Rightarrow> 'h \<Rightarrow> 'h blk_run"
  DuringWait :: "addr \<Rightarrow> u8 list \<Rightarrow> 'h \<Rightarrow> 'h blk_run"

abbreviation (input) ICEBLK_SECTOR_SIZE :: nat where "ICEBLK_SECTOR_SIZE \<equiv> 512"
abbreviation (input) ICEBLK_DEFAULT_MAX_REQUEST_LENGTH :: u32 where "ICEBLK_DEFAULT_MAX_REQUEST_LENGTH \<equiv> 16"
abbreviation (input) ICEBLK_ADDR :: addr where "ICEBLK_ADDR \<equiv> 0"
abbreviation (input) ICEBLK_OFFSET :: addr where "ICEBLK_OFFSET \<equiv> 8"
abbreviation (input) ICEBLK_LEN :: addr where "ICEBLK_LEN \<equiv> 12"
abbreviation (input) ICEBLK_WRITE :: addr where "ICEBLK_WRITE \<equiv> 16"
abbreviation (input) ICEBLK_REQUEST :: addr where "ICEBLK_REQUEST \<equiv> 17"
abbreviation (input) ICEBLK_NREQUEST :: addr where "ICEBLK_NREQUEST \<equiv> 18"
abbreviation (input) ICEBLK_COMPLETE :: addr where "ICEBLK_COMPLETE \<equiv> 19"
abbreviation (input) ICEBLK_NCOMPLETE :: addr where "ICEBLK_NCOMPLETE \<equiv> 20"
abbreviation (input) ICEBLK_NSECTORS :: addr where "ICEBLK_NSECTORS \<equiv> 24"
abbreviation (input) ICEBLK_MAX_REQUEST_LENGTH :: addr where "ICEBLK_MAX_REQUEST_LENGTH \<equiv> 28"
abbreviation (input) ICEBLK_BASEADDR :: addr where "ICEBLK_BASEADDR \<equiv> 0x40015000"
abbreviation (input) PLIC_SOURCE_ICEBLK :: u32 where "PLIC_SOURCE_ICEBLK \<equiv> 2"

subsection \<open>Interrupts\<close>

fun read_tags :: "nat \<Rightarrow> addr \<Rightarrow> bus \<Rightarrow> bus" where
  "read_tags 0 base b = b"
| "read_tags (Suc n) base b = read_tags n base (snd (ioread8 (base + ICEBLK_COMPLETE) b))"

definition iceblk_intr_handler :: "'k kernel \<Rightarrow> ('h, 'k) blk \<Rightarrow> ('h, 'k) blk option" where
  "iceblk_intr_handler K s = do {
     let (ncomplete, b) = ioread8 (blk_base (port s) + ICEBLK_NCOMPLETE) (blk_regs s);
     let s = s\<lparr>blk_regs := read_tags (unat ncomplete) (blk_base (port s)) b\<rparr>;
     configASSERT (blk_task (port s));
     Some (s\<lparr>blk_kern := NotifyGive K (blk_kern s)\<rparr>)}"

definition at_time :: "u8 list \<times> 'h \<Rightarrow> ('h, 'k) blk \<Rightarrow> ('h, 'k) blk" where
  "at_time = (\<lambda>(buf, h) s. s\<lparr>port := (port s)\<lparr>blk_buffer := buf\<rparr>, disk := h\<rparr>)"

text \<open>The interrupts while the driver sleeps.\<close>

fun blk_sleep :: "'k kernel \<Rightarrow> 'h blk_run \<Rightarrow> ('h, 'k) blk \<Rightarrow> ('h, 'k) blk option" where
  "blk_sleep K ([], e) s = Some (at_time e s)"
| "blk_sleep K (i # is, e) s = do {
     s \<leftarrow> iceblk_intr_handler K (at_time i s);
     blk_sleep K (is, e) s}"

text \<open>\<^verbatim>\<open>ulTaskNotifyTake\<close> returns at the first notification, and takes it; without one it times out.
  What the device does after the return is not followed.\<close>

fun blk_wait :: "'k kernel \<Rightarrow> 'h blk_run \<Rightarrow> ('h, 'k) blk \<Rightarrow> (bool \<times> ('h, 'k) blk) option" where
  "blk_wait K (is, e) s =
     (case NotifyTake K (blk_kern s) of
        Some k \<Rightarrow> Some (True, s\<lparr>blk_kern := k\<rparr>)
      | None \<Rightarrow>
          (case is of
             [] \<Rightarrow> Some (False, at_time e s)
           | i # is \<Rightarrow> do {
               s \<leftarrow> iceblk_intr_handler K (at_time i s);
               blk_wait K (is, e) s}))"

subsection \<open>Requests\<close>

text \<open>
  \<open>buffer\<close> is the caller's buffer, as the bytes it holds; a copy that leaves it or the intermediate buffer is
  undefined.  The new contents of the caller's buffer are returned.
\<close>

definition submit :: "'h blk_hw \<Rightarrow> u8 \<Rightarrow> u32 \<Rightarrow> u32 \<Rightarrow> ('h, 'k) blk \<Rightarrow> ('h, 'k) blk" where
  "submit H wr len offset s =
     (let base = blk_base (port s);
          b = iowrite64 (ucast (blk_buffer_at (port s))) (base + ICEBLK_ADDR) (blk_regs s);
          b = iowrite32 offset (base + ICEBLK_OFFSET) b;
          b = iowrite32 len (base + ICEBLK_LEN) b;
          b = iowrite8 wr (base + ICEBLK_WRITE) b;
          h = Request H (\<lambda>r. cells b (base + r)) (disk s);
          (t, b) = ioread8 (base + ICEBLK_REQUEST) b
      in s\<lparr>port := (port s)\<lparr>tag := t\<rparr>, blk_regs := b, disk := h\<rparr>)"

text \<open>What is done with the result of the wait.\<close>

definition blk_finish ::
  "'k kernel \<Rightarrow> int \<Rightarrow> u8 list \<Rightarrow> nat \<Rightarrow> bool \<times> ('h, 'k) blk \<Rightarrow> ((int \<times> u8 list) \<times> ('h, 'k) blk) option" where
  "blk_finish K wr buffer n = (\<lambda>(ok, s).
     let s' = s\<lparr>blk_kern := SemaphoreGive K (blk_kern s)\<rparr> in
     if ok then
       if wr = 0 then
         if length buffer < n \<or> length (blk_buffer (port s)) < n then None
         else Some ((0, take n (blk_buffer (port s)) @ drop n buffer), s')
       else Some ((0, buffer), s')
     else Some ((- 1, buffer), s'))"

definition iceblk_queue_request ::
  "'k kernel \<Rightarrow> 'h blk_hw \<Rightarrow> int \<Rightarrow> u8 list \<Rightarrow> u32 \<Rightarrow> u32 \<Rightarrow> ('h, 'k) blk \<Rightarrow> ((int \<times> u8 list) \<times> ('h, 'k) blk) option" where
  "iceblk_queue_request K H wr buffer len offset s = do {
     configASSERT (len \<le> max_req_len (port s));
     configASSERT (blk_mutex (port s));
     k \<leftarrow> SemaphoreTake K (blk_kern s);
     let s = s\<lparr>blk_kern := k\<rparr>;
     let n = unat (of_nat ICEBLK_SECTOR_SIZE * len);
     s \<leftarrow> (if wr = 1 then
             if length buffer < n \<or> length (blk_buffer (port s)) < n then None
             else Some (s\<lparr>port := (port s)\<lparr>blk_buffer := take n buffer @ drop n (blk_buffer (port s))\<rparr>\<rparr>)
           else Some s);
     let s = s\<lparr>port := (port s)\<lparr>blk_task := True\<rparr>\<rparr>;
     let (nreq, b) = ioread8 (blk_base (port s) + ICEBLK_NREQUEST) (blk_regs s);
     let s = s\<lparr>blk_regs := b\<rparr>;
     if nreq = 0 then
       Some ((1, buffer), s\<lparr>port := (port s)\<lparr>qrunning := 0\<rparr>, blk_kern := SemaphoreGive K (blk_kern s)\<rparr>)
     else do {
       let s = submit H (word_of_int wr) len offset s;
       s \<leftarrow> blk_sleep K (DuringSleep H (blk_buffer_at (port s)) (blk_buffer (port s)) (disk s)) s;
       w \<leftarrow> blk_wait K (DuringWait H (blk_buffer_at (port s)) (blk_buffer (port s)) (disk s)) s;
       blk_finish K wr buffer n w}}"

subsection \<open>Starting the device\<close>

definition iceblk_setup ::
  "addr \<Rightarrow> addr \<Rightarrow> plic_instance_t \<times> IceblkDev \<times> bus \<Rightarrow> (int \<times> plic_instance_t \<times> IceblkDev \<times> bus) option" where
  "iceblk_setup isr ref = (\<lambda>(p, d, b). do {
     let (r, p, b) = PLIC_register_interrupt_handler p PLIC_SOURCE_ICEBLK isr ref b;
     configASSERT (r \<noteq> 0);
     let (ns, b) = ioread32 (blk_base d + ICEBLK_NSECTORS) b;
     let d = d\<lparr>nsectors := ns\<rparr>;
     if ns = 0 then Some (1, p, d, b)
     else do {
       let (nt, b) = ioread8 (blk_base d + ICEBLK_NREQUEST) b;
       let (ml, b) = ioread32 (blk_base d + ICEBLK_MAX_REQUEST_LENGTH) b;
       let d = d\<lparr>ntags := ucast nt, max_req_len := ml, qrunning := 1\<rparr>;
       configASSERT (ml \<le> ICEBLK_DEFAULT_MAX_REQUEST_LENGTH);
       Some (0, p, d, b)}})"

definition iceblk_init ::
  "'k kernel \<Rightarrow> addr \<Rightarrow> addr \<Rightarrow> plic_instance_t \<times> ('h, 'k) blk \<Rightarrow> (plic_instance_t \<times> ('h, 'k) blk) option" where
  "iceblk_init K isr ref = (\<lambda>(p, s). do {
     let (m, k) = SemaphoreCreateMutex K (blk_kern s);
     let d = (port s)\<lparr>blk_base := ICEBLK_BASEADDR, blk_mutex := m, blk_task := False\<rparr>;
     (err, p, d, b) \<leftarrow> iceblk_setup isr ref (p, d, blk_regs s);
     Some (p, s\<lparr>port := d\<lparr>disk_present := (if err \<noteq> 0 then 0 else 1)\<rparr>, blk_regs := b, blk_kern := k\<rparr>)})"

subsection \<open>The file system's view\<close>

datatype DRESULT = RES_OK | RES_ERROR | RES_WRPRT | RES_NOTRDY | RES_PARERR

definition disk_result :: "int \<Rightarrow> DRESULT" where
  "disk_result devres = (if devres = 0 then RES_OK else if devres = 1 then RES_ERROR else if devres = - 1 then RES_NOTRDY else RES_ERROR)"

text \<open>\<open>STA_OK\<close> is 0 and \<open>STA_NODISK\<close> is 2.\<close>

definition disk_status :: "('h, 'k) blk \<Rightarrow> u8" where
  "disk_status s = (if disk_present (port s) \<noteq> 0 then 0 else 2)"

definition disk_initialize :: "('h, 'k) blk \<Rightarrow> u8" where
  "disk_initialize s = 0"

definition disk_read ::
  "'k kernel \<Rightarrow> 'h blk_hw \<Rightarrow> u8 list \<Rightarrow> u32 \<Rightarrow> u32 \<Rightarrow> ('h, 'k) blk \<Rightarrow> ((DRESULT \<times> u8 list) \<times> ('h, 'k) blk) option" where
  "disk_read K H buff sector count s = do {
     ((devres, buff), s) \<leftarrow> iceblk_queue_request K H 0 buff count sector s;
     Some ((disk_result devres, buff), s)}"

definition disk_write ::
  "'k kernel \<Rightarrow> 'h blk_hw \<Rightarrow> u8 list \<Rightarrow> u32 \<Rightarrow> u32 \<Rightarrow> ('h, 'k) blk \<Rightarrow> (DRESULT \<times> ('h, 'k) blk) option" where
  "disk_write K H buff sector count s = do {
     ((devres, _), s) \<leftarrow> iceblk_queue_request K H 1 buff count sector s;
     Some (disk_result devres, s)}"

text \<open>\<open>CTRL_SYNC\<close> is 0.\<close>

definition disk_ioctl :: "u8 \<Rightarrow> DRESULT" where
  "disk_ioctl cmd = (if cmd = 0 then RES_OK else RES_PARERR)"

end
