(* ===== verification/IceBlk_Props.thy ===== *)
theory IceBlk_Props
  imports IceBlk
begin

section \<open>Properties of the block device driver\<close>

text \<open>
  The requests keep the contract of the blocking operations, and sectors that are written are read
  back.
\<close>

subsection \<open>The mutex\<close>

lemma finish_unlocks: "kernel_ok K \<Longrightarrow> blk_finish K wr buffer n w = Some (r, s') \<Longrightarrow> unlocked K (blk_kern s')"
  by (auto simp: blk_finish_def Let_def split_beta split: if_splits)

lemma request_unlocks:
  "kernel_ok K \<Longrightarrow> iceblk_queue_request K H wr buffer len off s = Some (r, s') \<Longrightarrow> unlocked K (blk_kern s')"
  unfolding iceblk_queue_request_def Let_def
  by (elim bind_eq_Some_conv [THEN iffD1, THEN exE] conjE, thin_tac "(if wr = 1 then _ else _) = _")
    (auto simp: split_beta bind_eq_Some_conv dest: finish_unlocks split: if_split_asm)

lemma request_takes:
  "\<not> unlocked K (blk_kern s) \<Longrightarrow> iceblk_queue_request K H wr buffer len off s = None"
  by (simp add: iceblk_queue_request_def halt_simps unlocked_def)

interpretation blk_req: balanced_op "\<lambda>K. iceblk_queue_request K H wr buffer len off" blk_kern for H wr buffer len off
  by unfold_locales (erule (1) request_unlocks, erule request_takes)

subsection \<open>A device that serves its requests\<close>

text \<open>
  A disk of \<open>N\<close> sectors, \<open>sec h i\<close> is the contents of sector \<open>i\<close>.  It serves the requests it finds in its
  registers when they name the driver's buffer as the memory to transfer (the low and the high half
  of the address at offsets 0 and 4), at most 16 sectors (offset 12) and only sectors that exist
  (offset 8); the byte at offset 16 tells writing from reading.  It answers with an interrupt while
  the driver sleeps or while it waits.  Nothing is promised for other requests.
\<close>

definition served :: "('h \<Rightarrow> nat \<Rightarrow> u8 list) \<Rightarrow> bool \<Rightarrow> nat \<Rightarrow> nat \<Rightarrow> u8 list \<Rightarrow> 'h \<Rightarrow> u8 list \<times> 'h \<Rightarrow> bool" where
  "served sec wr off len buf h = (\<lambda>(buf', h').
     if wr then buf' = buf \<and>
       (\<forall>i. sec h' i = (if off \<le> i \<and> i < off + len then take 512 (drop ((i - off) * 512) buf) else sec h i))
     else buf' = concat (map (sec h) [off..<off + len]) @ drop (512 * len) buf \<and> sec h' = sec h)"

definition disk_ok :: "'h blk_hw \<Rightarrow> ('h \<Rightarrow> nat \<Rightarrow> u8 list) \<Rightarrow> nat \<Rightarrow> bool" where
  "disk_ok H sec N \<longleftrightarrow>
     (\<forall>h. \<forall>i < N. length (sec h i) = 512) \<and>
     (\<forall>regs a buf h. length buf = 8192 \<longrightarrow> regs 0 = a \<longrightarrow> regs 4 = 0 \<longrightarrow> unat (regs 12) \<le> 16 \<longrightarrow>
        unat (regs 8) + unat (regs 12) \<le> N \<longrightarrow>
        (let h1 = Request H regs h in
         \<exists>r. served sec (regs 16 \<noteq> 0) (unat (regs 8)) (unat (regs 12)) buf h r \<and>
           (DuringSleep H a buf h1 = ([r], r) \<or>
            DuringSleep H a buf h1 = ([], buf, h1) \<and> DuringWait H a buf h1 = ([r], r))))"

text \<open>A driver that is at rest.\<close>

definition blk_clean :: "'k kernel \<Rightarrow> ('h, 'k) blk \<Rightarrow> bool" where
  "blk_clean K s \<longleftrightarrow> blk_mutex (port s) \<and> unlocked K (blk_kern s) \<and> \<not> pending K (blk_kern s) \<and>
     length (blk_buffer (port s)) = 8192 \<and> max_req_len (port s) \<le> 16 \<and>
     plain (blk_regs s) (blk_base (port s) + 18) \<and> cells (blk_regs s) (blk_base (port s) + 18) AND 0xff \<noteq> 0"

lemma read_tags_frame:
  "cells (read_tags n base b) = cells b" "plain b a \<Longrightarrow> plain (read_tags n base b) a"
  by (induction n arbitrary: b) (simp_all add: ioread8_def split_beta Let_def)

text \<open>What handling an interrupt leaves of the state.\<close>

lemma intr_effect:
  assumes "kernel_ok K" "blk_task (port s)"
  obtains b where "iceblk_intr_handler K (at_time r s) =
      Some (s\<lparr>port := (port s)\<lparr>blk_buffer := fst r\<rparr>, disk := snd r, blk_regs := b, blk_kern := NotifyGive K (blk_kern s)\<rparr>)"
    "cells b = cells (blk_regs s)" "\<forall>a. plain (blk_regs s) a \<longrightarrow> plain b a"
proof -
  define b1 where "b1 = snd (bus_read W8 (blk_base (port s) + 20) (blk_regs s))"
  define b where "b = read_tags (unat (fst (ioread8 (blk_base (port s) + 20) (blk_regs s)))) (blk_base (port s)) b1"
  show ?thesis
    using assms(2) by (intro that [of b])
      (auto simp: iceblk_intr_handler_def at_time_def halt_simps split_beta Let_def b_def b1_def ioread8_def read_tags_frame)
qed

lemma blk_wait_now: "NotifyTake K (blk_kern s) = Some k \<Longrightarrow> blk_wait K q s = Some (True, s\<lparr>blk_kern := k\<rparr>)"
  by (cases q) simp

lemma served_wait:
  assumes "kernel_ok K" "blk_task (port s)" "\<not> pending K (blk_kern s)"
    "DuringSleep H (blk_buffer_at (port s)) (blk_buffer (port s)) (disk s) = ([r], r) \<or>
     DuringSleep H (blk_buffer_at (port s)) (blk_buffer (port s)) (disk s) = ([], blk_buffer (port s), disk s) \<and>
     DuringWait H (blk_buffer_at (port s)) (blk_buffer (port s)) (disk s) = ([r], r)"
  obtains b k where "blk_sleep K (DuringSleep H (blk_buffer_at (port s)) (blk_buffer (port s)) (disk s)) s \<bind>
        (\<lambda>s. blk_wait K (DuringWait H (blk_buffer_at (port s)) (blk_buffer (port s)) (disk s)) s) =
      Some (True, s\<lparr>port := (port s)\<lparr>blk_buffer := fst r\<rparr>, disk := snd r, blk_regs := b, blk_kern := k\<rparr>)"
    "cells b = cells (blk_regs s)" "\<forall>a. plain (blk_regs s) a \<longrightarrow> plain b a" "\<not> pending K k"
proof -
  obtain b where h: "iceblk_intr_handler K (at_time r s) =
      Some (s\<lparr>port := (port s)\<lparr>blk_buffer := fst r\<rparr>, disk := snd r, blk_regs := b, blk_kern := NotifyGive K (blk_kern s)\<rparr>)"
    "cells b = cells (blk_regs s)" "\<forall>a. plain (blk_regs s) a \<longrightarrow> plain b a"
    using intr_effect [OF assms(1,2)] by blast
  obtain k where k: "NotifyTake K (NotifyGive K (blk_kern s)) = Some k" "\<not> pending K k"
    using pending_NotifyGive [OF assms(1), of "blk_kern s"] NotifyTakeD [OF assms(1)] by (auto simp: pending_def)
  have none: "NotifyTake K (blk_kern s) = None"
    using assms(3) by (simp add: pending_def)
  have at: "at_time (blk_buffer (port s), disk s) s = s"
    by (simp add: at_time_def)
  have at2: "at_time r (s\<lparr>port := (port s)\<lparr>blk_buffer := fst r\<rparr>, disk := snd r, blk_regs := b, blk_kern := kk\<rparr>) =
      s\<lparr>port := (port s)\<lparr>blk_buffer := fst r\<rparr>, disk := snd r, blk_regs := b, blk_kern := kk\<rparr>" for kk
    by (simp add: at_time_def split_beta)
  show ?thesis
    using assms(4) h k none by (intro that [where b = b and k = k]) (auto simp: at at2 blk_wait_now)
qed

lemma submit_port: "\<exists>t. port (submit H wr len off s) = (port s)\<lparr>tag := t\<rparr>"
  by (simp add: submit_def split_beta Let_def) blast

lemma submit_frame:
  "blk_kern (submit H wr len off s) = blk_kern s"
  "cells (blk_regs (submit H wr len off s)) (blk_base (port s) + 18) = cells (blk_regs s) (blk_base (port s) + 18)"
  "plain (blk_regs s) a \<Longrightarrow> plain (blk_regs (submit H wr len off s)) a"
  by (simp_all add: submit_def split_beta Let_def ioread8_def iowrite64_def iowrite32_def iowrite8_def)

text \<open>The request as the device finds it in its registers.\<close>

lemma word_halves: "ucast ((ucast (a :: u32) :: u64) AND 0xffffffff) = a" "(ucast (drop_bit 32 (ucast a :: u64)) :: u32) = 0"
proof -
  have m: "(0xffffffff :: u64) = mask 32"
    by (simp add: mask_eq_exp_minus_1)
  show "ucast ((ucast a :: u64) AND 0xffffffff) = a"
    unfolding m by (rule bit_word_eqI) (auto simp: bit_simps)
  show "(ucast (drop_bit 32 (ucast a :: u64)) :: u32) = 0"
    by (rule bit_word_eqI) (auto simp: bit_simps dest: bit_imp_le_length)
qed

lemma submit_request:
  obtains regs where "disk (submit H wr len off s) = Request H regs (disk s)"
    "regs 0 = blk_buffer_at (port s)" "regs 4 = 0" "regs 8 = off" "regs 12 = len" "regs 16 = ucast wr AND 0xff"
proof -
  define b where "b = iowrite8 wr (blk_base (port s) + 16) (iowrite32 len (blk_base (port s) + 12)
    (iowrite32 off (blk_base (port s) + 8) (iowrite64 (ucast (blk_buffer_at (port s))) (blk_base (port s) + 0) (blk_regs s))))"
  have "disk (submit H wr len off s) = Request H (\<lambda>r. cells b (blk_base (port s) + r)) (disk s)"
    by (simp add: submit_def split_beta Let_def b_def)
  then show ?thesis
    by (rule that) (simp_all add: b_def iowrite64_def iowrite32_def iowrite8_def word_halves)
qed

lemma nreq_read:
  assumes "plain b a" "cells b a AND 0xff \<noteq> 0"
  shows "\<exists>n b'. ioread8 a b = (n, b') \<and> n \<noteq> 0 \<and> cells b' = cells b \<and> (\<forall>x. plain b x \<longrightarrow> plain b' x)"
proof -
  have "fst (bus_read W8 a b) = cells b a AND 0xff"
    using assms(1) by (simp add: bus_read_val plain_def)
  moreover have "(ucast (v AND 0xff :: u32) :: u8) \<noteq> 0" if "v AND 0xff \<noteq> (0 :: u32)" for v
  proof
    assume a: "(ucast (v AND 0xff :: u32) :: u8) = 0"
    have "v AND 0xff = (0 :: u32)"
    proof (rule bit_word_eqI)
      fix n
      have "(0xff :: u32) = mask 8"
        by (simp add: mask_eq_exp_minus_1)
      then have e: "v AND 0xff = take_bit 8 v"
        by (simp only: take_bit_eq_mask)
      show "bit (v AND 0xff) n = bit (0 :: u32) n"
        using arg_cong [OF a, of "\<lambda>w. bit w n"] unfolding e by (simp add: bit_simps)
    qed
    then show False
      using that by simp
  qed
  ultimately show ?thesis
    using assms(2) by (auto simp: ioread8_def split_beta Let_def)
qed

lemma disk_okD:
  assumes "disk_ok H sec N" "length buf = 8192" "regs 0 = a" "regs 4 = 0" "unat (regs 12) \<le> 16"
    "unat (regs 8) + unat (regs 12) \<le> N"
  obtains r where "served sec (regs 16 \<noteq> 0) (unat (regs 8)) (unat (regs 12)) buf h r"
    "DuringSleep H a buf (Request H regs h) = ([r], r) \<or>
     DuringSleep H a buf (Request H regs h) = ([], buf, Request H regs h) \<and> DuringWait H a buf (Request H regs h) = ([r], r)"
  using assms unfolding disk_ok_def Let_def by metis

text \<open>A request on a driver at rest.\<close>

lemma request_served:
  assumes "kernel_ok K" "disk_ok H sec N" "blk_clean K s" "len \<le> max_req_len (port s)" "wr = 0 \<or> wr = 1"
    "unat len * 512 \<le> length buffer" "unat off + unat len \<le> N"
  shows "\<exists>r s'. iceblk_queue_request K H wr buffer len off s =
      Some ((0, if wr = 0 then take (unat len * 512) (fst r) @ drop (unat len * 512) buffer else buffer), s') \<and>
    disk s' = snd r \<and> blk_clean K s' \<and> max_req_len (port s') = max_req_len (port s) \<and>
    served sec (wr = 1) (unat off) (unat len)
      (if wr = 1 then take (unat len * 512) buffer @ drop (unat len * 512) (blk_buffer (port s)) else blk_buffer (port s)) (disk s) r"
proof -
  have c: "blk_mutex (port s)" "unlocked K (blk_kern s)" "\<not> pending K (blk_kern s)" "length (blk_buffer (port s)) = 8192"
    "max_req_len (port s) \<le> 16" "plain (blk_regs s) (blk_base (port s) + 18)" "cells (blk_regs s) (blk_base (port s) + 18) AND 0xff \<noteq> 0"
    using assms(3) by (simp_all add: blk_clean_def)
  obtain k where k: "SemaphoreTake K (blk_kern s) = Some k" "\<not> pending K k"
    using c(2,3) TakeD [OF assms(1)] by (auto simp: unlocked_def)
  have len: "len \<le> 16" "unat len \<le> 16"
    using assms(4) c(5) by (auto simp: word_le_nat_alt)
  have n: "unat (of_nat 512 * len) = unat len * 512"
    using len(2) by (simp add: unat_word_ariths)
  define B where "B = (if wr = 1 then take (unat len * 512) buffer @ drop (unat len * 512) (blk_buffer (port s)) else blk_buffer (port s))"
  have lB: "length B = 8192"
    using c(4) len(2) assms(6) by (simp add: B_def)
  obtain nr b where nr: "ioread8 (blk_base (port s) + 18) (blk_regs s) = (nr, b)" "nr \<noteq> 0" "cells b = cells (blk_regs s)"
    "\<forall>x. plain (blk_regs s) x \<longrightarrow> plain b x"
    using nreq_read [OF c(6,7)] by blast
  define s1 where "s1 = s\<lparr>blk_kern := k, port := (port s)\<lparr>blk_buffer := B, blk_task := True\<rparr>, blk_regs := b\<rparr>"
  define s2 where "s2 = submit H (word_of_int wr) len off s1"
  obtain t where t: "port s2 = (port s)\<lparr>blk_buffer := B, blk_task := True, tag := t\<rparr>"
    using submit_port [of H "word_of_int wr" len off s1] by (auto simp: s2_def s1_def)
  obtain regs where rq: "disk s2 = Request H regs (disk s)" "regs 0 = blk_buffer_at (port s)" "regs 4 = 0" "regs 8 = off"
    "regs 12 = len" "regs 16 = ucast (word_of_int wr :: u8) AND 0xff"
    using submit_request [of H "word_of_int wr" len off s1] by (auto simp: s2_def s1_def)
  have wr: "regs 16 \<noteq> 0 \<longleftrightarrow> wr = 1"
    using assms(5) rq(6) by auto
  have s2: "blk_kern s2 = k"
    "cells (blk_regs s2) (blk_base (port s) + 18) = cells (blk_regs s) (blk_base (port s) + 18)"
    "plain (blk_regs s) a \<Longrightarrow> plain (blk_regs s2) a" for a
    using submit_frame [where H = H and wr = "word_of_int wr" and len = len and off = off and s = s1] nr(3,4) by (simp_all add: s2_def s1_def)
  have bB: "blk_buffer (port s2) = B" "blk_task (port s2)" "blk_buffer_at (port s2) = blk_buffer_at (port s)"
    by (simp_all add: t)
  obtain r where r: "served sec (wr = 1) (unat off) (unat len) B (disk s) r"
    "DuringSleep H (blk_buffer_at (port s2)) (blk_buffer (port s2)) (disk s2) = ([r], r) \<or>
     DuringSleep H (blk_buffer_at (port s2)) (blk_buffer (port s2)) (disk s2) = ([], blk_buffer (port s2), disk s2) \<and>
     DuringWait H (blk_buffer_at (port s2)) (blk_buffer (port s2)) (disk s2) = ([r], r)"
    using disk_okD [OF assms(2) lB rq(2,3), of "disk s"] len(2) assms(7) unfolding rq(1,4,5) bB(1,3) wr by metis
  obtain b' k' where w: "blk_sleep K (DuringSleep H (blk_buffer_at (port s2)) (blk_buffer (port s2)) (disk s2)) s2 \<bind>
        (\<lambda>s. blk_wait K (DuringWait H (blk_buffer_at (port s)) (blk_buffer (port s)) (disk s)) s) =
      Some (True, s2\<lparr>port := (port s2)\<lparr>blk_buffer := fst r\<rparr>, disk := snd r, blk_regs := b', blk_kern := k'\<rparr>)"
    "cells b' = cells (blk_regs s2)" "\<forall>a. plain (blk_regs s2) a \<longrightarrow> plain b' a" "\<not> pending K k'"
    using served_wait [OF assms(1) bB(2) _ r(2)] s2(1) k(2) by blast
  define s3 where "s3 = s2\<lparr>port := (port s2)\<lparr>blk_buffer := fst r\<rparr>, disk := snd r, blk_regs := b', blk_kern := SemaphoreGive K k'\<rparr>"
  have ml: "map (length \<circ> sec (disk s)) [unat off..<unat off + unat len] = map (\<lambda>_. 512) [unat off..<unat off + unat len]"
    using assms(2,7) by (intro map_cong) (auto simp: disk_ok_def)
  have "sum_list (map (length \<circ> sec (disk s)) [unat off..<unat off + unat len]) = unat len * 512"
    unfolding ml by (simp add: sum_list_triv)
  then have lr: "length (fst r) = 8192"
    using r(1) lB len(2) by (auto simp: served_def split_beta length_concat split: if_splits)
  have eq: "iceblk_queue_request K H wr buffer len off s =
      (blk_sleep K (DuringSleep H (blk_buffer_at (port s2)) (blk_buffer (port s2)) (disk s2)) s2 \<bind>
        (\<lambda>s. blk_wait K (DuringWait H (blk_buffer_at (port s)) (blk_buffer (port s)) (disk s)) s)) \<bind> blk_finish K wr buffer (unat len * 512)"
    using assms(4-6) c(1,4) k(1) nr(1,2) len(2)
    unfolding iceblk_queue_request_def n Let_def s2_def s1_def B_def
    by (auto simp: halt_simps)
  have "iceblk_queue_request K H wr buffer len off s =
      Some ((0, if wr = 0 then take (unat len * 512) (fst r) @ drop (unat len * 512) buffer else buffer), s3)"
    unfolding eq w(1) using assms(6) lr len(2) by (simp add: s3_def blk_finish_def)
  moreover have "blk_clean K s3"
    using assms(1) c w s2(2,3) lr t by (simp add: blk_clean_def s3_def)
  ultimately show ?thesis
    using r(1) t by (intro exI [of _ r] exI [of _ s3]) (simp add: s3_def B_def)
qed

subsection \<open>Sectors\<close>

lemma take_sectors:
  assumes "length data = n * 512"
  shows "concat (map (\<lambda>i. take 512 (drop (i * 512) data)) [0..<n]) = data"
  using assms
proof (induction n arbitrary: data)
  case (Suc n)
  have "concat (map (\<lambda>i. take 512 (drop (i * 512) data)) [0..<Suc n]) =
      take 512 data @ concat (map (\<lambda>i. take 512 (drop (i * 512) (drop 512 data))) [0..<n])"
    by (simp add: upt_conv_Cons map_Suc_upt [symmetric] comp_def add.commute del: upt_Suc)
  then show ?case
    using Suc.IH [of "drop 512 data"] Suc.prems by simp
qed simp

text \<open>
  C18. Sectors that \<^verbatim>\<open>disk_write\<close> has written are what \<^verbatim>\<open>disk_read\<close> returns, for up to as many sectors as the
  device takes in one request.  The device has \<open>N\<close> sectors, takes its requests from the registers the
  driver writes, and serves those that name the driver's buffer and sectors it has, before or while
  the driver waits for it; no other sector changes, the rest of the reader's buffer stays as it was,
  and the driver is at rest again.  A larger request never returns.
\<close>

theorem disk_write_read:
  assumes "kernel_ok K" "disk_ok H sec N" "blk_clean K s" "length data = unat count * 512" "unat count * 512 \<le> length buff"
    "unat sector + unat count \<le> N"
  shows "if count \<le> max_req_len (port s) then
      \<exists>s1 s2. disk_write K H data sector count s = Some (RES_OK, s1) \<and>
        disk_read K H buff sector count s1 = Some ((RES_OK, data @ drop (unat count * 512) buff), s2) \<and> blk_clean K s2 \<and>
        (\<forall>i. \<not> (unat sector \<le> i \<and> i < unat sector + unat count) \<longrightarrow> sec (disk s2) i = sec (disk s) i)
    else disk_write K H data sector count s = None \<and> disk_read K H buff sector count s = None"
proof (cases "count \<le> max_req_len (port s)")
  case True
  define n where "n = unat count * 512"
  obtain r1 s1 where w: "iceblk_queue_request K H 1 data count sector s = Some ((0, data), s1)" "disk s1 = snd r1" "blk_clean K s1"
    "max_req_len (port s1) = max_req_len (port s)" "served sec True (unat sector) (unat count) (data @ drop n (blk_buffer (port s))) (disk s) r1"
    using request_served [OF assms(1-3) True, of 1 data sector] assms(4,6) by (auto simp: n_def)
  obtain r2 s2 where r: "iceblk_queue_request K H 0 buff count sector s1 = Some ((0, take n (fst r2) @ drop n buff), s2)"
    "disk s2 = snd r2" "blk_clean K s2" "served sec False (unat sector) (unat count) (blk_buffer (port s1)) (disk s1) r2"
    using request_served [OF assms(1,2) w(3), of count 0 buff sector] True w(4) assms(5,6) by (auto simp: n_def)
  have sec1: "sec (disk s1) i = (if unat sector \<le> i \<and> i < unat sector + unat count
      then take 512 (drop ((i - unat sector) * 512) (data @ drop n (blk_buffer (port s)))) else sec (disk s) i)" for i
    using w(2,5) by (simp add: served_def split_beta)
  have "take 512 (drop (i * 512) (data @ drop n (blk_buffer (port s)))) = take 512 (drop (i * 512) data)" if "i < unat count" for i
    using that assms(4) by simp
  then have "map (sec (disk s1)) [unat sector..<unat sector + unat count] =
      map (\<lambda>i. take 512 (drop (i * 512) data)) [0..<unat count]"
    by - (rule nth_equalityI, simp_all add: sec1 del: take_append drop_append)
  then have "take n (fst r2) = data"
    using r(4) take_sectors [OF assms(4)] assms(4) by (simp add: served_def split_beta n_def)
  moreover have "sec (disk s2) = sec (disk s1)"
    using r(2,4) by (simp add: served_def split_beta)
  ultimately show ?thesis
    using True w(1) r(1,3) sec1 by (auto simp: disk_write_def disk_read_def disk_result_def n_def)
qed (simp add: disk_write_def disk_read_def iceblk_queue_request_def halt_simps)

text \<open>
  A disk of 100 sectors for the examples: the sectors, and the request that is being served, with the
  address it names.  Memory at another address than that of the driver's buffer is not transferred.
\<close>

type_synonym demo_disk = "u8 list list \<times> addr \<times> bool \<times> nat \<times> nat"

definition demo_sectors :: "demo_disk \<Rightarrow> nat \<Rightarrow> u8 list" where
  "demo_sectors h = (\<lambda>i. if i < 100 then take 512 ((if i < length (fst h) then fst h ! i else []) @ replicate 512 0) else [])"

fun demo_serve :: "addr \<Rightarrow> u8 list \<Rightarrow> demo_disk \<Rightarrow> u8 list \<times> demo_disk" where
  "demo_serve a buf (f, at, wr, off, len) =
     (if at \<noteq> a \<or> 100 < off + len then (buf, f, at, wr, off, len)
      else if wr then
        (buf, map (\<lambda>i. if off \<le> i \<and> i < off + len then take 512 (drop ((i - off) * 512) buf)
            else demo_sectors (f, at, wr, off, len) i) [0..<100], at, wr, off, len)
      else (concat (map (demo_sectors (f, at, wr, off, len)) [off..<off + len]) @ drop (512 * len) buf, f, at, wr, off, len))"

definition demo_disk_hw :: "demo_disk blk_hw" where
  "demo_disk_hw = \<lparr>Request = (\<lambda>regs (f, _). (f, regs 0, regs 16 \<noteq> 0, unat (regs 8), unat (regs 12))),
     DuringSleep = (\<lambda>a buf h. ([], buf, h)), DuringWait = (\<lambda>a buf h. ([demo_serve a buf h], demo_serve a buf h))\<rparr>"

lemma demo_sectors_eq: "demo_sectors (f, q) = demo_sectors (f, q')"
  unfolding demo_sectors_def fst_conv ..

lemma demo_sectors_length: "i < 100 \<Longrightarrow> length (demo_sectors h i) = 512"
  by (simp add: demo_sectors_def)

lemma demo_disk_ok: "disk_ok demo_disk_hw demo_sectors 100"
proof -
  have "served demo_sectors (regs 16 \<noteq> 0) (unat (regs 8)) (unat (regs 12)) buf h
      (demo_serve (regs 0) buf (Request demo_disk_hw regs h))"
    if b: "length buf = 8192" "unat (regs 12) \<le> 16" "unat (regs 8) + unat (regs 12) \<le> 100" for regs buf h
  proof (cases "regs 16 \<noteq> 0")
    case True
    obtain f q where h: "h = (f, q)"
      by (cases h)
    define g where "g = (\<lambda>i. if unat (regs 8) \<le> i \<and> i < unat (regs 8) + unat (regs 12)
      then take 512 (drop ((i - unat (regs 8)) * 512) buf) else demo_sectors h i)"
    have sf: "demo_sectors (f, q') = demo_sectors h" for q'
      unfolding h by (rule demo_sectors_eq)
    have e: "demo_serve (regs 0) buf (Request demo_disk_hw regs h) =
        (buf, map g [0..<100], regs 0, True, unat (regs 8), unat (regs 12))"
      using True b(3) sf [of "(regs 0, True, unat (regs 8), unat (regs 12))"] by (simp add: demo_disk_hw_def h g_def)
    have len: "length (g i) = 512" if "i < 100" for i
      using that b by (auto simp: g_def demo_sectors_length)
    have "demo_sectors (map g [0..<100], q') i = (if i < 100 then g i else [])" for q' i
      by (simp add: demo_sectors_def len)
    moreover have "\<not> i < 100 \<Longrightarrow> g i = []" for i
      using b(3) by (simp add: g_def demo_sectors_def)
    ultimately have "demo_sectors (map g [0..<100], q') i = g i" for q' i
      by simp
    then show ?thesis
      unfolding e served_def using True by (simp add: g_def)
  next
    case False
    then show ?thesis
      using b(3) demo_sectors_eq [of "fst h" "(regs 0, False, unat (regs 8), unat (regs 12))" "snd h"]
      by (cases h) (simp add: served_def demo_disk_hw_def)
  qed
  moreover have "DuringSleep demo_disk_hw a buf h = ([], buf, h)"
    "DuringWait demo_disk_hw a buf h = ([demo_serve a buf h], demo_serve a buf h)" for a buf h
    by (simp_all add: demo_disk_hw_def)
  ultimately show ?thesis
    unfolding disk_ok_def Let_def by (metis demo_sectors_length)
qed

definition demo_blk :: "(demo_disk, bool \<times> bool) blk" where
  "demo_blk = \<lparr>port = \<lparr>blk_base = 0x40015000, blk_mutex = True, qrunning = 1, disk_present = 1, nsectors = 100, max_req_len = 16,
       ntags = 1, blk_task = False, tag = 0, blk_buffer = replicate 8192 0, blk_buffer_at = 0xC0001000\<rparr>,
     blk_regs = \<lparr>cells = (\<lambda>_. 0)(0x40015012 := 1), feed = (\<lambda>_. []), events = []\<rparr>,
     disk = ([], 0, False, 0, 0), blk_kern = (False, False)\<rparr>"

theorem disk_write_read_witness:
  "\<exists>s1 s2. disk_write demo_kernel demo_disk_hw (replicate 1024 7) 5 2 demo_blk = Some (RES_OK, s1) \<and>
    disk_read demo_kernel demo_disk_hw (replicate 1024 0) 5 2 s1 = Some ((RES_OK, replicate 1024 7), s2)"
proof -
  have "blk_clean demo_kernel demo_blk"
    by (simp add: blk_clean_def demo_blk_def unlocked_def pending_def demo_kernel_def plain_def)
  then show ?thesis
    using disk_write_read [OF demo_kernel_ok demo_disk_ok, of demo_blk "replicate 1024 7" 2 "replicate 1024 0" 5]
    by (auto simp: demo_blk_def)
qed

end
