(* ===== verification/Spi.thy ===== *)
theory Spi
  imports Prelude Rtos
begin

section \<open>The SPI driver (bsp/spi.c and bsp/xilinx/spi)\<close>

text \<open>
  The Xilinx SPI driver with both of its modes, polled and interrupt driven, and the board support
  functions on top of it.

  The controller is a parameter: a record of a read and a write function on its unknown state, so
  that reading the receive register takes a word from its FIFO and writing the transmit register adds
  one.  Buffers are addresses of a memory, because \<^verbatim>\<open>spi1_receive\<close> passes the same buffer for sending
  and for receiving.  The status handler is a function on the state of the upper layer, \<open>upper\<close>.
  Loops that wait for the controller are partial functions: \<open>None\<close> means that they never end.
\<close>

subsection \<open>Controller, instance and state\<close>

record 'h spi_core =
  core_read :: "addr \<Rightarrow> 'h \<Rightarrow> u32 \<times> 'h"
  core_write :: "addr \<Rightarrow> u32 \<Rightarrow> 'h \<Rightarrow> 'h"

record XSpi_Stats =
  ModeFaults :: u32
  XmitUnderruns :: u32
  RecvOverruns :: u32
  SlaveModeFaults :: u32
  BytesTransferred :: u32
  NumInterrupts :: u32

record XSpi_Config =
  CfgDeviceId :: u16
  CfgBaseAddress :: addr
  CfgHasFifos :: int
  CfgSlaveOnly :: u32
  CfgNumSlaveBits :: u8
  CfgDataWidth :: u8
  CfgSpiMode :: u8
  AxiInterface :: u8
  AxiFullBaseAddress :: u32
  CfgXipMode :: u8
  Use_Startup :: u8

record 'u XSpi =
  SpiStats :: XSpi_Stats
  BaseAddr :: addr
  SpiReady :: u32
  IsStarted :: u32
  HasFifos :: int
  SlaveOnly :: u32
  NumSlaveBits :: u8
  DataWidth :: u8
  SpiMode :: u8
  SlaveSelectMask :: u32
  SlaveSelectReg :: u32
  SendBufferPtr :: addr
  RecvBufferPtr :: addr
  SpiRequested :: u32
  SpiRemaining :: u32
  IsBusy :: bool
  StatusHandler :: "u32 \<Rightarrow> u32 \<Rightarrow> 'u \<Rightarrow> 'u option"
  FlashBaseAddr :: u32
  XipMode :: u8

record ('h, 'u) spi =
  inst :: "'u XSpi"
  core :: 'h
  smem :: "addr \<Rightarrow> u8"
  upper :: 'u

abbreviation (input) XSP_DGIER_OFFSET :: addr where "XSP_DGIER_OFFSET \<equiv> 0x1C"
abbreviation (input) XSP_IISR_OFFSET :: addr where "XSP_IISR_OFFSET \<equiv> 0x20"
abbreviation (input) XSP_IIER_OFFSET :: addr where "XSP_IIER_OFFSET \<equiv> 0x28"
abbreviation (input) XSP_SRR_OFFSET :: addr where "XSP_SRR_OFFSET \<equiv> 0x40"
abbreviation (input) XSP_CR_OFFSET :: addr where "XSP_CR_OFFSET \<equiv> 0x60"
abbreviation (input) XSP_SR_OFFSET :: addr where "XSP_SR_OFFSET \<equiv> 0x64"
abbreviation (input) XSP_DTR_OFFSET :: addr where "XSP_DTR_OFFSET \<equiv> 0x68"
abbreviation (input) XSP_DRR_OFFSET :: addr where "XSP_DRR_OFFSET \<equiv> 0x6C"
abbreviation (input) XSP_SSR_OFFSET :: addr where "XSP_SSR_OFFSET \<equiv> 0x70"
abbreviation (input) XSP_TFO_OFFSET :: addr where "XSP_TFO_OFFSET \<equiv> 0x74"
abbreviation (input) XSP_RFO_OFFSET :: addr where "XSP_RFO_OFFSET \<equiv> 0x78"
abbreviation (input) XSP_GINTR_ENABLE_MASK :: u32 where "XSP_GINTR_ENABLE_MASK \<equiv> 0x80000000"
abbreviation (input) XSP_INTR_MODE_FAULT_MASK :: u32 where "XSP_INTR_MODE_FAULT_MASK \<equiv> 0x1"
abbreviation (input) XSP_INTR_SLAVE_MODE_FAULT_MASK :: u32 where "XSP_INTR_SLAVE_MODE_FAULT_MASK \<equiv> 0x2"
abbreviation (input) XSP_INTR_TX_EMPTY_MASK :: u32 where "XSP_INTR_TX_EMPTY_MASK \<equiv> 0x4"
abbreviation (input) XSP_INTR_TX_UNDERRUN_MASK :: u32 where "XSP_INTR_TX_UNDERRUN_MASK \<equiv> 0x8"
abbreviation (input) XSP_INTR_RX_OVERRUN_MASK :: u32 where "XSP_INTR_RX_OVERRUN_MASK \<equiv> 0x20"
abbreviation (input) XSP_INTR_TX_HALF_EMPTY_MASK :: u32 where "XSP_INTR_TX_HALF_EMPTY_MASK \<equiv> 0x40"
abbreviation (input) XSP_INTR_SLAVE_MODE_MASK :: u32 where "XSP_INTR_SLAVE_MODE_MASK \<equiv> 0x80"
abbreviation (input) XSP_INTR_RX_NOT_EMPTY_MASK :: u32 where "XSP_INTR_RX_NOT_EMPTY_MASK \<equiv> 0x100"
abbreviation (input) XSP_INTR_CMD_ERR_MASK :: u32 where "XSP_INTR_CMD_ERR_MASK \<equiv> 0x2000"
abbreviation (input) XSP_INTR_ALL :: u32 where "XSP_INTR_ALL \<equiv> 0x3FFF"
abbreviation (input) XSP_INTR_DFT_MASK :: u32 where "XSP_INTR_DFT_MASK \<equiv> 0x202B"
abbreviation (input) XSP_SRR_RESET_MASK :: u32 where "XSP_SRR_RESET_MASK \<equiv> 0xA"
abbreviation (input) XSP_CR_LOOPBACK_MASK :: u32 where "XSP_CR_LOOPBACK_MASK \<equiv> 0x1"
abbreviation (input) XSP_CR_ENABLE_MASK :: u32 where "XSP_CR_ENABLE_MASK \<equiv> 0x2"
abbreviation (input) XSP_CR_MASTER_MODE_MASK :: u32 where "XSP_CR_MASTER_MODE_MASK \<equiv> 0x4"
abbreviation (input) XSP_CR_TXFIFO_RESET_MASK :: u32 where "XSP_CR_TXFIFO_RESET_MASK \<equiv> 0x20"
abbreviation (input) XSP_CR_RXFIFO_RESET_MASK :: u32 where "XSP_CR_RXFIFO_RESET_MASK \<equiv> 0x40"
abbreviation (input) XSP_CR_TRANS_INHIBIT_MASK :: u32 where "XSP_CR_TRANS_INHIBIT_MASK \<equiv> 0x100"
abbreviation (input) XSP_SR_RX_EMPTY_MASK :: u32 where "XSP_SR_RX_EMPTY_MASK \<equiv> 0x1"
abbreviation (input) XSP_SR_TX_FULL_MASK :: u32 where "XSP_SR_TX_FULL_MASK \<equiv> 0x8"
abbreviation (input) XSP_SR_RESET_STATE :: u32 where "XSP_SR_RESET_STATE \<equiv> 0x5"
abbreviation (input) XSP_CR_RESET_STATE :: u32 where "XSP_CR_RESET_STATE \<equiv> 0x180"
abbreviation (input) SPI_COMPONENT_IS_READY :: u32 where "SPI_COMPONENT_IS_READY \<equiv> 0x11111111"
abbreviation (input) SPI_COMPONENT_IS_STARTED :: u32 where "SPI_COMPONENT_IS_STARTED \<equiv> 0x22222222"
abbreviation (input) XST_DEVICE_NOT_FOUND :: int where "XST_DEVICE_NOT_FOUND \<equiv> 2"
abbreviation (input) XST_DEVICE_IS_STARTED :: int where "XST_DEVICE_IS_STARTED \<equiv> 5"
abbreviation (input) XST_DEVICE_IS_STOPPED :: int where "XST_DEVICE_IS_STOPPED \<equiv> 6"
abbreviation (input) XST_REGISTER_ERROR :: int where "XST_REGISTER_ERROR \<equiv> 14"
abbreviation (input) XST_LOOPBACK_ERROR :: int where "XST_LOOPBACK_ERROR \<equiv> 17"
abbreviation (input) XST_DEVICE_BUSY :: int where "XST_DEVICE_BUSY \<equiv> 21"
abbreviation (input) XST_SPI_MODE_FAULT :: u32 where "XST_SPI_MODE_FAULT \<equiv> 1151"
abbreviation (input) XST_SPI_TRANSFER_DONE :: u32 where "XST_SPI_TRANSFER_DONE \<equiv> 1152"
abbreviation (input) XST_SPI_TRANSMIT_UNDERRUN :: u32 where "XST_SPI_TRANSMIT_UNDERRUN \<equiv> 1153"
abbreviation (input) XST_SPI_RECEIVE_OVERRUN :: u32 where "XST_SPI_RECEIVE_OVERRUN \<equiv> 1154"
abbreviation (input) XST_SPI_NO_SLAVE :: int where "XST_SPI_NO_SLAVE \<equiv> 1155"
abbreviation (input) XST_SPI_TOO_MANY_SLAVES :: int where "XST_SPI_TOO_MANY_SLAVES \<equiv> 1156"
abbreviation (input) XST_SPI_SLAVE_ONLY :: int where "XST_SPI_SLAVE_ONLY \<equiv> 1158"
abbreviation (input) XST_SPI_SLAVE_MODE_FAULT :: u32 where "XST_SPI_SLAVE_MODE_FAULT \<equiv> 1159"
abbreviation (input) XST_SPI_SLAVE_MODE :: u32 where "XST_SPI_SLAVE_MODE \<equiv> 1160"
abbreviation (input) XST_SPI_RECEIVE_NOT_EMPTY :: u32 where "XST_SPI_RECEIVE_NOT_EMPTY \<equiv> 1161"
abbreviation (input) XST_SPI_COMMAND_ERROR :: u32 where "XST_SPI_COMMAND_ERROR \<equiv> 1162"

subsection \<open>Register access\<close>

definition XSpi_ReadReg :: "'h spi_core \<Rightarrow> addr \<Rightarrow> ('h, 'u) spi \<Rightarrow> u32 \<times> ('h, 'u) spi" where
  "XSpi_ReadReg C off s = (let (v, h) = core_read C (BaseAddr (inst s) + off) (core s) in (v, s\<lparr>core := h\<rparr>))"

definition XSpi_WriteReg :: "'h spi_core \<Rightarrow> addr \<Rightarrow> u32 \<Rightarrow> ('h, 'u) spi \<Rightarrow> ('h, 'u) spi" where
  "XSpi_WriteReg C off v s = s\<lparr>core := core_write C (BaseAddr (inst s) + off) v (core s)\<rparr>"

definition XSpi_IntrGlobalEnable :: "'h spi_core \<Rightarrow> ('h, 'u) spi \<Rightarrow> ('h, 'u) spi" where
  "XSpi_IntrGlobalEnable C s = XSpi_WriteReg C XSP_DGIER_OFFSET XSP_GINTR_ENABLE_MASK s"

definition XSpi_IntrGlobalDisable :: "'h spi_core \<Rightarrow> ('h, 'u) spi \<Rightarrow> ('h, 'u) spi" where
  "XSpi_IntrGlobalDisable C s = XSpi_WriteReg C XSP_DGIER_OFFSET 0 s"

definition XSpi_IsIntrGlobalEnabled :: "'h spi_core \<Rightarrow> ('h, 'u) spi \<Rightarrow> bool \<times> ('h, 'u) spi" where
  "XSpi_IsIntrGlobalEnabled C s =
     (let (v, s) = XSpi_ReadReg C XSP_DGIER_OFFSET s in (v = XSP_GINTR_ENABLE_MASK, s))"

definition XSpi_IntrGetStatus :: "'h spi_core \<Rightarrow> ('h, 'u) spi \<Rightarrow> u32 \<times> ('h, 'u) spi" where
  "XSpi_IntrGetStatus C s = XSpi_ReadReg C XSP_IISR_OFFSET s"

definition XSpi_IntrClear :: "'h spi_core \<Rightarrow> u32 \<Rightarrow> ('h, 'u) spi \<Rightarrow> ('h, 'u) spi" where
  "XSpi_IntrClear C ClearMask s =
     (let (v, s) = XSpi_IntrGetStatus C s in XSpi_WriteReg C XSP_IISR_OFFSET (v OR ClearMask) s)"

definition XSpi_IntrEnable :: "'h spi_core \<Rightarrow> u32 \<Rightarrow> ('h, 'u) spi \<Rightarrow> ('h, 'u) spi" where
  "XSpi_IntrEnable C EnableMask s =
     (let (v, s) = XSpi_ReadReg C XSP_IIER_OFFSET s
      in XSpi_WriteReg C XSP_IIER_OFFSET (v OR (EnableMask AND XSP_INTR_ALL)) s)"

definition XSpi_IntrDisable :: "'h spi_core \<Rightarrow> u32 \<Rightarrow> ('h, 'u) spi \<Rightarrow> ('h, 'u) spi" where
  "XSpi_IntrDisable C DisableMask s =
     (let (v, s) = XSpi_ReadReg C XSP_IIER_OFFSET s
      in XSpi_WriteReg C XSP_IIER_OFFSET (v AND NOT (DisableMask AND XSP_INTR_ALL)) s)"

definition XSpi_SetControlReg :: "'h spi_core \<Rightarrow> u32 \<Rightarrow> ('h, 'u) spi \<Rightarrow> ('h, 'u) spi" where
  "XSpi_SetControlReg C Mask s = XSpi_WriteReg C XSP_CR_OFFSET Mask s"

definition XSpi_GetControlReg :: "'h spi_core \<Rightarrow> ('h, 'u) spi \<Rightarrow> u32 \<times> ('h, 'u) spi" where
  "XSpi_GetControlReg C s = XSpi_ReadReg C XSP_CR_OFFSET s"

definition XSpi_GetStatusReg :: "'h spi_core \<Rightarrow> ('h, 'u) spi \<Rightarrow> u32 \<times> ('h, 'u) spi" where
  "XSpi_GetStatusReg C s = XSpi_ReadReg C XSP_SR_OFFSET s"

definition XSpi_SetSlaveSelectReg :: "'h spi_core \<Rightarrow> u32 \<Rightarrow> ('h, 'u) spi \<Rightarrow> ('h, 'u) spi" where
  "XSpi_SetSlaveSelectReg C Mask s = XSpi_WriteReg C XSP_SSR_OFFSET Mask s"

definition XSpi_GetSlaveSelectReg :: "'h spi_core \<Rightarrow> ('h, 'u) spi \<Rightarrow> u32 \<times> ('h, 'u) spi" where
  "XSpi_GetSlaveSelectReg C s = XSpi_ReadReg C XSP_SSR_OFFSET s"

subsection \<open>Initialisation, start, stop and reset\<close>

definition StubStatusHandler :: "u32 \<Rightarrow> u32 \<Rightarrow> 'u \<Rightarrow> 'u option" where
  "StubStatusHandler StatusEvent ByteCount u = None"

definition XSpi_Abort :: "'h spi_core \<Rightarrow> ('h, 'u) spi \<Rightarrow> ('h, 'u) spi" where
  "XSpi_Abort C s =
     (let s = XSpi_SetSlaveSelectReg C (SlaveSelectMask (inst s)) s;
          (v, s) = XSpi_GetControlReg C s;
          ControlReg = (ucast v :: u16) OR 0x100;
          ControlReg = (if HasFifos (inst s) \<noteq> 0 then ControlReg OR 0x60 else ControlReg);
          s = XSpi_SetControlReg C (ucast ControlReg) s
      in s\<lparr>inst := (inst s)\<lparr>SpiRemaining := 0, SpiRequested := 0, IsBusy := False\<rparr>\<rparr>)"

definition XSpi_Reset :: "'h spi_core \<Rightarrow> ('h, 'u) spi \<Rightarrow> ('h, 'u) spi option" where
  "XSpi_Reset C s = do {
     configASSERT (SpiReady (inst s) = SPI_COMPONENT_IS_READY);
     let s = XSpi_Abort C s;
     let s = s\<lparr>inst := (inst s)\<lparr>IsStarted := 0, SlaveSelectReg := SlaveSelectMask (inst s)\<rparr>\<rparr>;
     Some (XSpi_WriteReg C XSP_SRR_OFFSET XSP_SRR_RESET_MASK s)}"

text \<open>The dummy read of the flash identifier when the start-up block is used.\<close>

definition startup_read :: "'h spi_core \<Rightarrow> ('h, 'u) spi \<Rightarrow> ('h, 'u) spi" where
  "startup_read C s =
     (let (ControlReg, s) = XSpi_GetControlReg C s;
          s = XSpi_SetControlReg C (ControlReg OR (XSP_CR_TXFIFO_RESET_MASK OR XSP_CR_RXFIFO_RESET_MASK OR
                XSP_CR_ENABLE_MASK OR XSP_CR_MASTER_MODE_MASK)) s;
          s = XSpi_WriteReg C XSP_DTR_OFFSET 0x9F s;
          s = XSpi_WriteReg C XSP_DTR_OFFSET 0x00 s;
          s = XSpi_WriteReg C XSP_DTR_OFFSET 0x00 s;
          (ControlReg, s) = XSpi_GetControlReg C s;
          s = XSpi_SetControlReg C (ControlReg AND NOT XSP_CR_TRANS_INHIBIT_MASK) s;
          (ControlReg, s) = XSpi_GetControlReg C s;
          s = XSpi_SetControlReg C (ControlReg OR XSP_CR_TRANS_INHIBIT_MASK) s;
          (StatusReg, s) = XSpi_GetStatusReg C s;
          s = (if StatusReg AND XSP_SR_RX_EMPTY_MASK = 0 then snd (XSpi_ReadReg C XSP_DRR_OFFSET s) else s);
          (StatusReg, s) = XSpi_GetStatusReg C s
      in if StatusReg AND XSP_SR_RX_EMPTY_MASK = 0 then snd (XSpi_ReadReg C XSP_DRR_OFFSET s) else s)"

definition XSpi_CfgInitialize ::
  "'h spi_core \<Rightarrow> XSpi_Config \<Rightarrow> addr \<Rightarrow> ('h, 'u) spi \<Rightarrow> (int \<times> ('h, 'u) spi) option" where
  "XSpi_CfgInitialize C c EffectiveAddr s =
     (if IsStarted (inst s) = SPI_COMPONENT_IS_STARTED then Some (XST_DEVICE_IS_STARTED, s)
      else do {
        let ss = push_bit (unat (CfgNumSlaveBits c)) 1 - 1;
        let s = s\<lparr>inst := (inst s)\<lparr>SpiStats := \<lparr>ModeFaults = 0, XmitUnderruns = 0, RecvOverruns = 0,
              SlaveModeFaults = 0, BytesTransferred = 0, NumInterrupts = 0\<rparr>,
            BaseAddr := EffectiveAddr, SpiReady := SPI_COMPONENT_IS_READY, IsStarted := 0,
            HasFifos := CfgHasFifos c, SlaveOnly := CfgSlaveOnly c, NumSlaveBits := CfgNumSlaveBits c,
            DataWidth := (if CfgDataWidth c = 0 then 8 else CfgDataWidth c), SpiMode := CfgSpiMode c,
            SlaveSelectMask := ss, SlaveSelectReg := ss,
            SendBufferPtr := 0, RecvBufferPtr := 0, SpiRequested := 0, SpiRemaining := 0, IsBusy := False,
            StatusHandler := StubStatusHandler, FlashBaseAddr := AxiFullBaseAddress c,
            XipMode := CfgXipMode c\<rparr>\<rparr>;
        let s = (if Use_Startup c = 1 then startup_read C s else s);
        s \<leftarrow> XSpi_Reset C s;
        Some (0, s)})"

definition XSpi_LookupConfig :: "XSpi_Config list \<Rightarrow> u16 \<Rightarrow> XSpi_Config option" where
  "XSpi_LookupConfig table i = find (\<lambda>c. CfgDeviceId c = i) table"

definition XSpi_Initialize ::
  "'h spi_core \<Rightarrow> XSpi_Config list \<Rightarrow> u16 \<Rightarrow> ('h, 'u) spi \<Rightarrow> (int \<times> ('h, 'u) spi) option" where
  "XSpi_Initialize C table i s =
     (case XSpi_LookupConfig table i of
        None \<Rightarrow> Some (XST_DEVICE_NOT_FOUND, s)
      | Some c \<Rightarrow> XSpi_CfgInitialize C c (CfgBaseAddress c) s)"

definition XSpi_Start :: "'h spi_core \<Rightarrow> ('h, 'u) spi \<Rightarrow> (int \<times> ('h, 'u) spi) option" where
  "XSpi_Start C s = do {
     configASSERT (SpiReady (inst s) = SPI_COMPONENT_IS_READY);
     if IsStarted (inst s) = SPI_COMPONENT_IS_STARTED then Some (XST_DEVICE_IS_STARTED, s)
     else do {
       let s = XSpi_IntrEnable C XSP_INTR_DFT_MASK s;
       let s = s\<lparr>inst := (inst s)\<lparr>IsStarted := SPI_COMPONENT_IS_STARTED\<rparr>\<rparr>;
       let (ControlReg, s) = XSpi_GetControlReg C s;
       let s = XSpi_SetControlReg C
         (ControlReg OR (XSP_CR_TXFIFO_RESET_MASK OR XSP_CR_RXFIFO_RESET_MASK OR XSP_CR_ENABLE_MASK)) s;
       Some (0, XSpi_IntrGlobalEnable C s)}}"

definition XSpi_Stop :: "'h spi_core \<Rightarrow> ('h, 'u) spi \<Rightarrow> (int \<times> ('h, 'u) spi) option" where
  "XSpi_Stop C s = do {
     configASSERT (SpiReady (inst s) = SPI_COMPONENT_IS_READY);
     if IsBusy (inst s) then Some (XST_DEVICE_BUSY, s)
     else do {
       let s = XSpi_IntrGlobalDisable C s;
       let (ControlReg, s) = XSpi_GetControlReg C s;
       let s = XSpi_SetControlReg C (ControlReg AND NOT XSP_CR_ENABLE_MASK) s;
       Some (0, s\<lparr>inst := (inst s)\<lparr>IsStarted := 0\<rparr>\<rparr>)}}"

subsection \<open>Slave selection\<close>

text \<open>How many of the lowest \<open>n\<close> bits are set.\<close>

fun count_asserted :: "nat \<Rightarrow> u32 \<Rightarrow> nat" where
  "count_asserted 0 SlaveMask = 0"
| "count_asserted (Suc Index) SlaveMask =
     (if drop_bit Index SlaveMask AND 1 \<noteq> 0 then Suc (count_asserted Index SlaveMask)
      else count_asserted Index SlaveMask)"

definition XSpi_SetSlaveSelect :: "u32 \<Rightarrow> ('h, 'u) spi \<Rightarrow> (int \<times> ('h, 'u) spi) option" where
  "XSpi_SetSlaveSelect SlaveMask s = do {
     configASSERT (SpiReady (inst s) = SPI_COMPONENT_IS_READY);
     if IsBusy (inst s) then Some (XST_DEVICE_BUSY, s)
     else if count_asserted (unat (NumSlaveBits (inst s))) SlaveMask > 1 then Some (XST_SPI_TOO_MANY_SLAVES, s)
     else Some (0, s\<lparr>inst := (inst s)\<lparr>SlaveSelectReg := NOT SlaveMask\<rparr>\<rparr>)}"

definition XSpi_GetSlaveSelect :: "('h, 'u) spi \<Rightarrow> u32 option" where
  "XSpi_GetSlaveSelect s = do {
     configASSERT (SpiReady (inst s) = SPI_COMPONENT_IS_READY);
     Some (NOT (SlaveSelectReg (inst s)))}"

definition XSpi_SetStatusHandler ::
  "(u32 \<Rightarrow> u32 \<Rightarrow> 'u \<Rightarrow> 'u option) \<Rightarrow> ('h, 'u) spi \<Rightarrow> ('h, 'u) spi option" where
  "XSpi_SetStatusHandler FuncPtr s = do {
     configASSERT (SpiReady (inst s) = SPI_COMPONENT_IS_READY);
     Some (s\<lparr>inst := (inst s)\<lparr>StatusHandler := FuncPtr\<rparr>\<rparr>)}"

subsection \<open>Transfers\<close>

text \<open>
  One item of the configured width, read from the send buffer or stored in the receive buffer.  For a
  width other than 8, 16 and 32 the variable \<^verbatim>\<open>Data\<close> keeps its value.
\<close>

definition load_data :: "u8 \<Rightarrow> u32 \<Rightarrow> (addr \<Rightarrow> u8) \<Rightarrow> addr \<Rightarrow> u32" where
  "load_data w Data m p =
     (if w = 8 then ucast (m p)
      else if w = 16 then ucast (m p) OR push_bit 8 (ucast (m (p + 1)))
      else if w = 32 then ucast (m p) OR push_bit 8 (ucast (m (p + 1))) OR push_bit 16 (ucast (m (p + 2))) OR
        push_bit 24 (ucast (m (p + 3)))
      else Data)"

definition store_data :: "u8 \<Rightarrow> u32 \<Rightarrow> ('h, 'u) spi \<Rightarrow> ('h, 'u) spi" where
  "store_data w d s =
     (let p = RecvBufferPtr (inst s); m = smem s in
      if p = 0 then s
      else if w = 8 then s\<lparr>inst := (inst s)\<lparr>RecvBufferPtr := p + 1\<rparr>, smem := m(p := ucast d)\<rparr>
      else if w = 16 then s\<lparr>inst := (inst s)\<lparr>RecvBufferPtr := p + 2\<rparr>,
        smem := m(p := ucast d, p + 1 := ucast (drop_bit 8 d))\<rparr>
      else if w = 32 then s\<lparr>inst := (inst s)\<lparr>RecvBufferPtr := p + 4\<rparr>,
        smem := m(p := ucast d, p + 1 := ucast (drop_bit 8 d), p + 2 := ucast (drop_bit 16 d),
          p + 3 := ucast (drop_bit 24 d))\<rparr>
      else s)"

text \<open>The number of bytes of an item.\<close>

definition width_bytes :: "('h, 'u) spi \<Rightarrow> u32" where
  "width_bytes s = ucast (drop_bit 3 (DataWidth (inst s)))"

text \<open>Filling the transmit FIFO until it is full or all is sent.\<close>

partial_function (option) fill_tx ::
  "'h spi_core \<Rightarrow> u32 \<Rightarrow> u32 \<Rightarrow> ('h, 'u) spi \<Rightarrow> ('h, 'u) spi option" where
  "fill_tx C Data StatusReg s =
     (if StatusReg AND XSP_SR_TX_FULL_MASK = 0 \<and> SpiRemaining (inst s) > 0 then
        let Data = load_data (DataWidth (inst s)) Data (smem s) (SendBufferPtr (inst s));
            s = XSpi_WriteReg C XSP_DTR_OFFSET Data s;
            s = s\<lparr>inst := (inst s)\<lparr>SendBufferPtr := SendBufferPtr (inst s) + width_bytes s,
                   SpiRemaining := SpiRemaining (inst s) - width_bytes s\<rparr>\<rparr>
        in (case XSpi_GetStatusReg C s of (StatusReg, s) \<Rightarrow> fill_tx C Data StatusReg s)
      else Some s)"

text \<open>Emptying the receive FIFO; \<open>ByteCount\<close> is counted down, which only the polled mode uses.\<close>

partial_function (option) drain_rx ::
  "'h spi_core \<Rightarrow> u32 \<Rightarrow> u32 \<Rightarrow> u32 \<Rightarrow> ('h, 'u) spi \<Rightarrow> (u32 \<times> u32 \<times> ('h, 'u) spi) option" where
  "drain_rx C Data ByteCount StatusReg s =
     (if StatusReg AND XSP_SR_RX_EMPTY_MASK = 0 then
        (case XSpi_ReadReg C XSP_DRR_OFFSET s of (Data, s) \<Rightarrow>
           let s = store_data (DataWidth (inst s)) Data s;
               st = SpiStats (inst s);
               s = s\<lparr>inst := (inst s)\<lparr>SpiStats := st\<lparr>BytesTransferred := BytesTransferred st + width_bytes s\<rparr>\<rparr>\<rparr>
           in (case XSpi_GetStatusReg C s of (StatusReg, s) \<Rightarrow>
                 drain_rx C Data (ByteCount - width_bytes s) StatusReg s))
      else Some (Data, ByteCount, s))"

partial_function (option) wait_tx_empty :: "'h spi_core \<Rightarrow> ('h, 'u) spi \<Rightarrow> ('h, 'u) spi option" where
  "wait_tx_empty C s =
     (case XSpi_IntrGetStatus C s of (StatusReg, s) \<Rightarrow>
        if StatusReg AND XSP_INTR_TX_EMPTY_MASK = 0 then wait_tx_empty C s else Some s)"

partial_function (option) polled_loop ::
  "'h spi_core \<Rightarrow> u32 \<Rightarrow> u32 \<Rightarrow> ('h, 'u) spi \<Rightarrow> ('h, 'u) spi option" where
  "polled_loop C Data ByteCount s =
     (if ByteCount > 0 then do {
        s \<leftarrow> wait_tx_empty C s;
        let s = XSpi_IntrClear C XSP_INTR_TX_EMPTY_MASK s;
        let (ControlReg, s) = XSpi_GetControlReg C s;
        let s = XSpi_SetControlReg C (ControlReg OR XSP_CR_TRANS_INHIBIT_MASK) s;
        let (StatusReg, s) = XSpi_GetStatusReg C s;
        (Data, ByteCount, s) \<leftarrow> drain_rx C Data ByteCount StatusReg s;
        s \<leftarrow> (if SpiRemaining (inst s) > 0 then do {
               let (StatusReg, s) = XSpi_GetStatusReg C s;
               s \<leftarrow> fill_tx C Data StatusReg s;
               let (ControlReg, s) = XSpi_GetControlReg C s;
               Some (XSpi_SetControlReg C (ControlReg AND NOT XSP_CR_TRANS_INHIBIT_MASK) s)}
             else Some s);
        polled_loop C Data ByteCount s}
      else Some s)"

text \<open>The end of a polled transfer.\<close>

definition polled_end :: "'h spi_core \<Rightarrow> ('h, 'u) spi \<Rightarrow> ('h, 'u) spi" where
  "polled_end C s =
     (let (ControlReg, s) = XSpi_GetControlReg C s;
          s = XSpi_SetControlReg C (ControlReg OR XSP_CR_TRANS_INHIBIT_MASK) s;
          s = XSpi_SetSlaveSelectReg C (SlaveSelectMask (inst s)) s
      in s\<lparr>inst := (inst s)\<lparr>IsBusy := False\<rparr>\<rparr>)"

definition XSpi_Transfer ::
  "'h spi_core \<Rightarrow> addr \<Rightarrow> addr \<Rightarrow> u32 \<Rightarrow> ('h, 'u) spi \<Rightarrow> (int \<times> ('h, 'u) spi) option" where
  "XSpi_Transfer C SendBufPtr RecvBufPtr ByteCount s = do {
     configASSERT (SendBufPtr \<noteq> 0);
     configASSERT (ByteCount > 0);
     configASSERT (SpiReady (inst s) = SPI_COMPONENT_IS_READY);
     if IsStarted (inst s) \<noteq> SPI_COMPONENT_IS_STARTED then Some (XST_DEVICE_IS_STOPPED, s)
     else if IsBusy (inst s) then Some (XST_DEVICE_BUSY, s)
     else do {
       let (GlobalIntrReg, s) = XSpi_IsIntrGlobalEnabled C s;
       let s = XSpi_IntrGlobalDisable C s;
       let (ControlReg, s) = XSpi_GetControlReg C s;
       if ControlReg AND XSP_CR_MASTER_MODE_MASK \<noteq> 0 \<and> ControlReg AND XSP_CR_LOOPBACK_MASK = 0 \<and>
          SlaveSelectReg (inst s) = SlaveSelectMask (inst s)
       then Some (XST_SPI_NO_SLAVE, if GlobalIntrReg then XSpi_IntrGlobalEnable C s else s)
       else do {
         let s = s\<lparr>inst := (inst s)\<lparr>SendBufferPtr := SendBufPtr, RecvBufferPtr := RecvBufPtr,
           SpiRequested := ByteCount, SpiRemaining := ByteCount, IsBusy := True\<rparr>\<rparr>;
         let (StatusReg, s) = XSpi_GetStatusReg C s;
         s \<leftarrow> fill_tx C 0 StatusReg s;
         let s = XSpi_SetSlaveSelectReg C (SlaveSelectReg (inst s)) s;
         let (ControlReg, s) = XSpi_GetControlReg C s;
         let s = XSpi_SetControlReg C (ControlReg AND NOT XSP_CR_TRANS_INHIBIT_MASK) s;
         if GlobalIntrReg then
           Some (0, XSpi_IntrGlobalEnable C (XSpi_IntrEnable C XSP_INTR_TX_EMPTY_MASK s))
         else do {
           s \<leftarrow> polled_loop C 0 ByteCount s;
           Some (0, polled_end C s)}}}}"

subsection \<open>The interrupt handler\<close>

definition status_call :: "u32 \<Rightarrow> u32 \<Rightarrow> ('h, 'u) spi \<Rightarrow> ('h, 'u) spi option" where
  "status_call StatusEvent ByteCount s = do {
     u \<leftarrow> StatusHandler (inst s) StatusEvent ByteCount (upper s);
     Some (s\<lparr>upper := u\<rparr>)}"

text \<open>What the handler does when the transmitter has run empty.\<close>

definition tx_empty_service :: "'h spi_core \<Rightarrow> ('h, 'u) spi \<Rightarrow> ('h, 'u) spi option" where
  "tx_empty_service C s = do {
     let (ControlReg, s) = XSpi_GetControlReg C s;
     let s = XSpi_SetControlReg C (ControlReg OR XSP_CR_TRANS_INHIBIT_MASK) s;
     let (StatusReg, s) = XSpi_GetStatusReg C s;
     (Data, n, s) \<leftarrow> drain_rx C 0 0 StatusReg s;
     if SpiRemaining (inst s) > 0 then do {
       let (StatusReg, s) = XSpi_GetStatusReg C s;
       s \<leftarrow> fill_tx C Data StatusReg s;
       Some (XSpi_SetControlReg C ControlReg s)}
     else do {
       let s = XSpi_SetSlaveSelectReg C (SlaveSelectMask (inst s)) s;
       let s = XSpi_IntrDisable C XSP_INTR_TX_EMPTY_MASK s;
       let s = s\<lparr>inst := (inst s)\<lparr>IsBusy := False\<rparr>\<rparr>;
       status_call XST_SPI_TRANSFER_DONE (SpiRequested (inst s)) s}}"

definition bytes_done :: "('h, 'u) spi \<Rightarrow> u32" where
  "bytes_done s = SpiRequested (inst s) - SpiRemaining (inst s)"

abbreviation (input) stat_update :: "(XSpi_Stats \<Rightarrow> XSpi_Stats) \<Rightarrow> ('h, 'u) spi \<Rightarrow> ('h, 'u) spi" where
  "stat_update f s \<equiv> s\<lparr>inst := (inst s)\<lparr>SpiStats := f (SpiStats (inst s))\<rparr>\<rparr>"

definition mode_fault_service :: "'h spi_core \<Rightarrow> ('h, 'u) spi \<Rightarrow> ('h, 'u) spi option" where
  "mode_fault_service C s =
     (let BytesDone = bytes_done s;
          s = stat_update (ModeFaults_update (\<lambda>n. n + 1)) s;
          s = XSpi_Abort C s;
          (_, s) = XSpi_GetStatusReg C s
      in status_call XST_SPI_MODE_FAULT BytesDone s)"

definition XSpi_InterruptHandler :: "'h spi_core \<Rightarrow> ('h, 'u) spi \<Rightarrow> ('h, 'u) spi option" where
  "XSpi_InterruptHandler C s = do {
     let s = stat_update (NumInterrupts_update (\<lambda>n. n + 1)) s;
     let (IntrStatus, s) = XSpi_IntrGetStatus C s;
     let s = XSpi_IntrClear C IntrStatus s;
     if IntrStatus AND XSP_INTR_MODE_FAULT_MASK \<noteq> 0 then mode_fault_service C s
     else do {
       s \<leftarrow> (if IntrStatus AND XSP_INTR_TX_EMPTY_MASK \<noteq> 0 \<or> IntrStatus AND XSP_INTR_TX_HALF_EMPTY_MASK \<noteq> 0
            then tx_empty_service C s else Some s);
       s \<leftarrow> (if IntrStatus AND XSP_INTR_SLAVE_MODE_MASK \<noteq> 0 then status_call XST_SPI_SLAVE_MODE 0 s else Some s);
       s \<leftarrow> (if IntrStatus AND XSP_INTR_RX_NOT_EMPTY_MASK \<noteq> 0
            then status_call XST_SPI_RECEIVE_NOT_EMPTY 0 s else Some s);
       s \<leftarrow> (if IntrStatus AND XSP_INTR_SLAVE_MODE_FAULT_MASK \<noteq> 0
            then status_call XST_SPI_SLAVE_MODE_FAULT (bytes_done s) (stat_update (SlaveModeFaults_update (\<lambda>n. n + 1)) s)
            else Some s);
       s \<leftarrow> (if IntrStatus AND XSP_INTR_RX_OVERRUN_MASK \<noteq> 0
            then status_call XST_SPI_RECEIVE_OVERRUN (bytes_done s) (stat_update (RecvOverruns_update (\<lambda>n. n + 1)) s)
            else Some s);
       s \<leftarrow> (if IntrStatus AND XSP_INTR_TX_UNDERRUN_MASK \<noteq> 0
            then status_call XST_SPI_TRANSMIT_UNDERRUN (bytes_done s) (stat_update (XmitUnderruns_update (\<lambda>n. n + 1)) s)
            else Some s);
       if IntrStatus AND XSP_INTR_CMD_ERR_MASK \<noteq> 0
       then status_call XST_SPI_COMMAND_ERROR (bytes_done s) (stat_update (XmitUnderruns_update (\<lambda>n. n + 1)) s)
       else Some s}}"

subsection \<open>Options\<close>

text \<open>Option and bit of the control register.\<close>

definition OptionsMap :: "(u32 \<times> u32) list" where
  "OptionsMap = [(0x8, 0x1), (0x2, 0x8), (0x4, 0x10), (0x1, 0x4), (0x10, 0x80)]"

fun apply_options :: "(u32 \<times> u32) list \<Rightarrow> u32 \<Rightarrow> u32 \<Rightarrow> u32" where
  "apply_options [] Options ControlReg = ControlReg"
| "apply_options ((opt, m) # t) Options ControlReg =
     apply_options t Options (if Options AND opt \<noteq> 0 then ControlReg OR m else ControlReg AND NOT m)"

fun collect_options :: "(u32 \<times> u32) list \<Rightarrow> u32 \<Rightarrow> u32 \<Rightarrow> u32" where
  "collect_options [] ControlReg OptionsFlag = OptionsFlag"
| "collect_options ((opt, m) # t) ControlReg OptionsFlag =
     collect_options t ControlReg (if ControlReg AND m \<noteq> 0 then OptionsFlag OR opt else OptionsFlag)"

definition XSpi_SetOptions :: "'h spi_core \<Rightarrow> u32 \<Rightarrow> ('h, 'u) spi \<Rightarrow> (int \<times> ('h, 'u) spi) option" where
  "XSpi_SetOptions C Options s = do {
     configASSERT (SpiReady (inst s) = SPI_COMPONENT_IS_READY);
     if IsBusy (inst s) then Some (XST_DEVICE_BUSY, s)
     else if Options AND 0x1 \<noteq> 0 \<and> SlaveOnly (inst s) \<noteq> 0 then Some (XST_SPI_SLAVE_ONLY, s)
     else do {
       let (ControlReg, s) = XSpi_GetControlReg C s;
       Some (0, XSpi_SetControlReg C (apply_options OptionsMap Options ControlReg) s)}}"

definition XSpi_GetOptions :: "'h spi_core \<Rightarrow> ('h, 'u) spi \<Rightarrow> (u32 \<times> ('h, 'u) spi) option" where
  "XSpi_GetOptions C s = do {
     configASSERT (SpiReady (inst s) = SPI_COMPONENT_IS_READY);
     let (ControlReg, s) = XSpi_GetControlReg C s;
     Some (collect_options OptionsMap ControlReg 0, s)}"

subsection \<open>Self-test\<close>

text \<open>The test word of an item width, without the index; other widths send zero.\<close>

definition test_word :: "u8 \<Rightarrow> u32" where
  "test_word w = (if w = 16 then 0x2200 else if w = 32 then 0xAA005500 else 0)"

partial_function (option) test_fill ::
  "'h spi_core \<Rightarrow> u32 \<Rightarrow> u32 \<Rightarrow> u32 \<Rightarrow> ('h, 'u) spi \<Rightarrow> (u32 \<times> ('h, 'u) spi) option" where
  "test_fill C Index NumSent StatusReg s =
     (if StatusReg AND XSP_SR_TX_FULL_MASK = 0 then
        let s = XSpi_WriteReg C XSP_DTR_OFFSET (test_word (DataWidth (inst s)) + Index) s
        in (case XSpi_GetStatusReg C s of (StatusReg, s) \<Rightarrow>
              test_fill C Index (NumSent + width_bytes s) StatusReg s)
      else Some (NumSent, s))"

text \<open>Whether a received word is the expected one.\<close>

definition test_match :: "u8 \<Rightarrow> u32 \<Rightarrow> u32 \<Rightarrow> bool" where
  "test_match w Index RxData =
     (if w = 8 then RxData AND 0xff = Index
      else if w = 16 then (ucast RxData :: u16) = ucast (Index + 0x2200)
      else if w = 32 then RxData = Index + 0xAA005500
      else True)"

text \<open>\<open>None\<close> in the first component is the early return with \<^verbatim>\<open>XST_LOOPBACK_ERROR\<close>.\<close>

partial_function (option) test_drain ::
  "'h spi_core \<Rightarrow> u32 \<Rightarrow> u32 \<Rightarrow> u32 \<Rightarrow> ('h, 'u) spi \<Rightarrow> (u32 option \<times> ('h, 'u) spi) option" where
  "test_drain C Index NumRecvd StatusReg s =
     (if StatusReg AND XSP_SR_RX_EMPTY_MASK = 0 then
        (case XSpi_ReadReg C XSP_DRR_OFFSET s of (RxData, s) \<Rightarrow>
           if \<not> test_match (DataWidth (inst s)) Index RxData then Some (None, s)
           else (case XSpi_GetStatusReg C s of (StatusReg, s) \<Rightarrow>
                   test_drain C Index (NumRecvd + width_bytes s) StatusReg s))
      else Some (Some NumRecvd, s))"

text \<open>The rounds with the indices \<open>4 - k\<close> to 3.\<close>

fun test_rounds ::
  "nat \<Rightarrow> 'h spi_core \<Rightarrow> u32 \<Rightarrow> u32 \<Rightarrow> ('h, 'u) spi \<Rightarrow> (int \<times> ('h, 'u) spi) option" where
  "test_rounds 0 C NumSent NumRecvd s = Some (if NumSent \<noteq> NumRecvd then XST_LOOPBACK_ERROR else 0, s)"
| "test_rounds (Suc k) C NumSent NumRecvd s = do {
     let Index = 4 - of_nat (Suc k);
     let (StatusReg, s) = XSpi_GetStatusReg C s;
     (NumSent, s) \<leftarrow> test_fill C Index NumSent StatusReg s;
     let (v, s) = XSpi_GetControlReg C s;
     let ControlReg = v AND NOT XSP_CR_TRANS_INHIBIT_MASK;
     let s = XSpi_SetControlReg C (ControlReg OR XSP_CR_ENABLE_MASK) s;
     s \<leftarrow> wait_tx_empty C s;
     let s = XSpi_IntrClear C XSP_INTR_TX_EMPTY_MASK s;
     let (StatusReg, s) = XSpi_GetStatusReg C s;
     (r, s) \<leftarrow> test_drain C Index NumRecvd StatusReg s;
     case r of
       None \<Rightarrow> Some (XST_LOOPBACK_ERROR, s)
     | Some NumRecvd \<Rightarrow>
         test_rounds k C NumSent NumRecvd
           (XSpi_SetControlReg C ((ControlReg OR XSP_CR_TRANS_INHIBIT_MASK) AND NOT XSP_CR_ENABLE_MASK) s)}"

definition LoopbackTest :: "'h spi_core \<Rightarrow> ('h, 'u) spi \<Rightarrow> (int \<times> ('h, 'u) spi) option" where
  "LoopbackTest C s =
     (if SlaveOnly (inst s) \<noteq> 0 then Some (0, s)
      else
        let (ControlReg, s) = XSpi_GetControlReg C s;
            s = XSpi_SetControlReg C (ControlReg OR XSP_CR_LOOPBACK_MASK OR XSP_CR_MASTER_MODE_MASK) s
        in test_rounds 4 C 0 0 (XSpi_IntrGlobalDisable C s))"

text \<open>The registers after a reset; false is the early return with \<^verbatim>\<open>XST_REGISTER_ERROR\<close>.\<close>

definition reset_registers :: "'h spi_core \<Rightarrow> ('h, 'u) spi \<Rightarrow> bool \<times> ('h, 'u) spi" where
  "reset_registers C s =
     (let (Register, s) = XSpi_GetControlReg C s in
      if Register \<noteq> XSP_CR_RESET_STATE then (False, s)
      else let (Register, s) = XSpi_GetStatusReg C s in
      (Register AND XSP_SR_RESET_STATE = XSP_SR_RESET_STATE, s))"

definition fifos_empty :: "'h spi_core \<Rightarrow> ('h, 'u) spi \<Rightarrow> bool \<times> ('h, 'u) spi" where
  "fifos_empty C s =
     (if HasFifos (inst s) \<noteq> 0 then
        let (Register, s) = XSpi_ReadReg C XSP_TFO_OFFSET s in
        if Register \<noteq> 0 then (False, s)
        else let (Register, s) = XSpi_ReadReg C XSP_RFO_OFFSET s in (Register = 0, s)
      else (True, s))"

definition XSpi_SelfTest :: "'h spi_core \<Rightarrow> ('h, 'u) spi \<Rightarrow> (int \<times> ('h, 'u) spi) option" where
  "XSpi_SelfTest C s = do {
     configASSERT (SpiReady (inst s) = SPI_COMPONENT_IS_READY);
     if XipMode (inst s) = 1 then Some (0, s)
     else do {
       s \<leftarrow> XSpi_Reset C s;
       let (ok, s) = (if XipMode (inst s) \<noteq> 0 then reset_registers C s else (True, s));
       if \<not> ok then Some (XST_REGISTER_ERROR, s)
       else do {
         let (ok, s) = reset_registers C s;
         if \<not> ok then Some (XST_REGISTER_ERROR, s)
         else do {
           let (Register, s) = XSpi_GetSlaveSelectReg C s;
           if Register \<noteq> SlaveSelectMask (inst s) then Some (XST_REGISTER_ERROR, s)
           else do {
             let (ok, s) = fifos_empty C s;
             if \<not> ok then Some (XST_REGISTER_ERROR, s)
             else if SpiMode (inst s) \<noteq> 0 then Some (0, s)
             else do {
               (Result, s) \<leftarrow> LoopbackTest C s;
               if Result \<noteq> 0 then Some (Result, s)
               else do {
                 s \<leftarrow> XSpi_Reset C s;
                 Some (0, s)}}}}}}}"

subsection \<open>The board support functions\<close>

text \<open>
  The fields of \<^verbatim>\<open>struct SpiDriver\<close> besides the instance.  \<open>smutex\<close> tells whether the mutex exists,
  \<open>task_handle\<close> whether a task is recorded, and \<open>skern\<close> is the state of the kernel.
\<close>

record 'k SpiDriver =
  TotalTransactiondCount :: int
  TotalErrorCount :: int
  SpiErrors :: int
  smutex :: bool
  task_handle :: bool
  skern :: 'k

definition SpiStatusHandler :: "'k kernel \<Rightarrow> u32 \<Rightarrow> u32 \<Rightarrow> 'k SpiDriver \<Rightarrow> 'k SpiDriver option" where
  "SpiStatusHandler K StatusEvent ByteCount d = do {
     let d = (if StatusEvent \<noteq> XST_SPI_TRANSFER_DONE
              then d\<lparr>TotalErrorCount := TotalErrorCount d + 1, SpiErrors := sint StatusEvent\<rparr>
              else d\<lparr>TotalTransactiondCount := sint ByteCount, SpiErrors := 0\<rparr>);
     configASSERT (task_handle d);
     Some (d\<lparr>skern := NotifyGive K (skern d)\<rparr>)}"

text \<open>
  Initialisation in the configured polled mode; \<open>XSpi1\<close> is the static instance.  Only device 1 is
  compiled in.
\<close>

definition spi_init ::
  "'k kernel \<Rightarrow> 'h spi_core \<Rightarrow> XSpi_Config list \<Rightarrow> 'k SpiDriver XSpi \<Rightarrow> u16 \<Rightarrow>
   ('h, 'k SpiDriver) spi \<Rightarrow> ('h, 'k SpiDriver) spi option" where
  "spi_init K C table XSpi1 device_id s = do {
     let (m, k) = SemaphoreCreateMutex K (skern (upper s));
     configASSERT (device_id = 1);
     let s = s\<lparr>inst := XSpi1, upper := \<lparr>TotalTransactiondCount = 0, TotalErrorCount = 0, SpiErrors = 0,
       smutex = m, task_handle = False, skern = k\<rparr>\<rparr>;
     (st, s) \<leftarrow> XSpi_Initialize C table device_id s;
     configASSERT (st = 0);
     (st, s) \<leftarrow> XSpi_SelfTest C s;
     configASSERT (st = 0);
     (st, s) \<leftarrow> XSpi_SetOptions C (0x1 OR 0x10) s;
     configASSERT (st = 0);
     (_, s) \<leftarrow> XSpi_Start C s;
     Some (XSpi_IntrGlobalDisable C s)}"

definition spi1_init ::
  "'k kernel \<Rightarrow> 'h spi_core \<Rightarrow> XSpi_Config list \<Rightarrow> 'k SpiDriver XSpi \<Rightarrow>
   ('h, 'k SpiDriver) spi \<Rightarrow> ('h, 'k SpiDriver) spi option" where
  "spi1_init K C table XSpi1 s = spi_init K C table XSpi1 1 s"

text \<open>
  The wait of \<^verbatim>\<open>xTaskNotifyWait\<close> with a time-out: it takes a pending notification, or else the next of
  \<open>n\<close> interrupts of the controller comes before the time is over.
\<close>

fun spi_wait :: "nat \<Rightarrow> 'k kernel \<Rightarrow> 'h spi_core \<Rightarrow> ('h, 'k SpiDriver) spi \<Rightarrow> (bool \<times> ('h, 'k SpiDriver) spi) option" where
  "spi_wait n K C s =
     (case NotifyTake K (skern (upper s)) of
        Some k \<Rightarrow> Some (True, s\<lparr>upper := (upper s)\<lparr>skern := k\<rparr>\<rparr>)
      | None \<Rightarrow>
          (case n of
             0 \<Rightarrow> Some (False, s)
           | Suc n \<Rightarrow> (case XSpi_InterruptHandler C s of None \<Rightarrow> None | Some s \<Rightarrow> spi_wait n K C s)))"

lemmas [simp del] = spi_wait.simps

definition spi_transfer ::
  "nat \<Rightarrow> 'k kernel \<Rightarrow> 'h spi_core \<Rightarrow> u8 \<Rightarrow> addr \<Rightarrow> addr \<Rightarrow> u8 \<Rightarrow> ('h, 'k SpiDriver) spi \<Rightarrow>
   (int \<times> ('h, 'k SpiDriver) spi) option" where
  "spi_transfer n K C slave_id tx_buf rx_buf len s = do {
     configASSERT (smutex (upper s));
     k \<leftarrow> SemaphoreTake K (skern (upper s));
     let s = s\<lparr>upper := (upper s)\<lparr>skern := k\<rparr>\<rparr>;
     (st, s) \<leftarrow> XSpi_SetSlaveSelect (ucast slave_id) s;
     configASSERT (st = 0);
     let s = s\<lparr>upper := (upper s)\<lparr>task_handle := True\<rparr>\<rparr>;
     (st, s) \<leftarrow> XSpi_Transfer C tx_buf rx_buf (ucast len) s;
     configASSERT (st = 0);
     (notified, s) \<leftarrow> spi_wait n K C s;
     let returnval = (if notified then if SpiErrors (upper s) \<noteq> 0 then - 1 else TotalTransactiondCount (upper s)
                      else - 1);
     (st, s) \<leftarrow> XSpi_SetSlaveSelect 0 s;
     configASSERT (st = 0);
     Some (returnval, s\<lparr>upper := (upper s)\<lparr>skern := SemaphoreGive K (skern (upper s))\<rparr>\<rparr>)}"

definition spi1_transmit ::
  "nat \<Rightarrow> 'k kernel \<Rightarrow> 'h spi_core \<Rightarrow> u8 \<Rightarrow> addr \<Rightarrow> u8 \<Rightarrow> ('h, 'k SpiDriver) spi \<Rightarrow> (int \<times> ('h, 'k SpiDriver) spi) option" where
  "spi1_transmit n K C slave_id tx_buf len s = spi_transfer n K C slave_id tx_buf 0 len s"

definition spi1_receive ::
  "nat \<Rightarrow> 'k kernel \<Rightarrow> 'h spi_core \<Rightarrow> u8 \<Rightarrow> addr \<Rightarrow> u8 \<Rightarrow> ('h, 'k SpiDriver) spi \<Rightarrow> (int \<times> ('h, 'k SpiDriver) spi) option" where
  "spi1_receive n K C slave_id rx_buf len s = spi_transfer n K C slave_id rx_buf rx_buf len s"

definition spi1_transceive ::
  "nat \<Rightarrow> 'k kernel \<Rightarrow> 'h spi_core \<Rightarrow> u8 \<Rightarrow> addr \<Rightarrow> addr \<Rightarrow> u8 \<Rightarrow> ('h, 'k SpiDriver) spi \<Rightarrow>
   (int \<times> ('h, 'k SpiDriver) spi) option" where
  "spi1_transceive n K C slave_id tx_buf rx_buf len s = spi_transfer n K C slave_id rx_buf tx_buf len s"

end
