(* ===== verification/Spi_Core.thy ===== *)
theory Spi_Core
  imports Spi
begin

section \<open>The SPI controller and the pieces of a transfer\<close>

text \<open>
  What the driver can rely on of the controller, as the data sheet of the AXI SPI core describes it, and
  what the pieces of a transfer do on such a controller.

  The \<open>spi_view\<close> of a controller state are the registers and the two FIFOs, the transmit-empty flag of the
  interrupt status register, and a log of the words shifted out, each with the slave select lines at
  that time.  \<open>ans\<close> is what the slaves answer, as a function of the log.
\<close>

record spi_view =
  txf :: "u32 list"
  rxf :: "u32 list"
  ctrl :: u32
  gie :: u32
  ier :: u32
  ssel :: u32
  txe :: bool
  shifted :: "(u32 \<times> u32) list"

text \<open>Master, enabled and not inhibited.\<close>

definition running :: "spi_view \<Rightarrow> bool" where
  "running v \<longleftrightarrow> \<not> bit (ctrl v) 8 \<and> bit (ctrl v) 1 \<and> bit (ctrl v) 2"

text \<open>The answers to a list of words, and what the view is when all of the transmit FIFO is shifted out.\<close>

fun replies :: "((u32 \<times> u32) list \<Rightarrow> u32) \<Rightarrow> u32 \<Rightarrow> (u32 \<times> u32) list \<Rightarrow> u32 list \<Rightarrow> u32 list" where
  "replies ans sel hist [] = []"
| "replies ans sel hist (w # ws) =
     ans (hist @ [(sel, w)]) # replies ans sel (hist @ [(sel, w)]) ws"

definition exchange :: "((u32 \<times> u32) list \<Rightarrow> u32) \<Rightarrow> spi_view \<Rightarrow> spi_view" where
  "exchange ans v = v\<lparr>txf := [], rxf := rxf v @ replies ans (ssel v) (shifted v) (txf v), txe := True,
     shifted := shifted v @ map (Pair (ssel v)) (txf v)\<rparr>"

text \<open>
  Registers hold what is written to them; writing the interrupt status register toggles its bits.
  The FIFO reset bits of the control register are not covered.
\<close>

definition regs_ok :: "'h spi_core \<Rightarrow> addr \<Rightarrow> ('h \<Rightarrow> spi_view) \<Rightarrow> bool" where
  "regs_ok C base view \<longleftrightarrow> (\<forall>h v.
     (\<forall>off \<in> {0x1C, 0x28, 0x60}. view (snd (core_read C (base + off) h)) = view h) \<and>
     fst (core_read C (base + 0x1C) h) = gie (view h) \<and>
     fst (core_read C (base + 0x28) h) = ier (view h) \<and>
     fst (core_read C (base + 0x60) h) = ctrl (view h) \<and>
     view (core_write C (base + 0x1C) v h) = (view h)\<lparr>gie := v\<rparr> \<and>
     view (core_write C (base + 0x28) v h) = (view h)\<lparr>ier := v\<rparr> \<and>
     view (core_write C (base + 0x70) v h) = (view h)\<lparr>ssel := v\<rparr> \<and>
     (v AND 0x60 = 0 \<longrightarrow> view (core_write C (base + 0x60) v h) = (view h)\<lparr>ctrl := v\<rparr>) \<and>
     view (core_write C (base + 0x20) v h) = (view h)\<lparr>txe := (txe (view h) \<noteq> (v AND 4 \<noteq> 0))\<rparr>)"

text \<open>While the transmitter does not run, the FIFOs are queues, the transmit FIFO of \<open>D\<close> words.\<close>

definition fifos_ok :: "'h spi_core \<Rightarrow> addr \<Rightarrow> nat \<Rightarrow> ('h \<Rightarrow> spi_view) \<Rightarrow> bool" where
  "fifos_ok C base D view \<longleftrightarrow> 0 < D \<and> (\<forall>h. \<not> running (view h) \<longrightarrow>
     (fst (core_read C (base + 0x64) h) AND 1 = 0 \<longleftrightarrow> rxf (view h) \<noteq> []) \<and>
     (fst (core_read C (base + 0x64) h) AND 8 = 0 \<longleftrightarrow> length (txf (view h)) < D) \<and>
     view (snd (core_read C (base + 0x64) h)) = view h \<and>
     (rxf (view h) \<noteq> [] \<longrightarrow> fst (core_read C (base + 0x6C) h) = hd (rxf (view h)) \<and>
        view (snd (core_read C (base + 0x6C) h)) = (view h)\<lparr>rxf := tl (rxf (view h))\<rparr>) \<and>
     (length (txf (view h)) < D \<longrightarrow> (\<forall>w.
        view (core_write C (base + 0x68) w h) = (view h)\<lparr>txf := txf (view h) @ [w]\<rparr>)))"

text \<open>
  A transmitter that runs is seen, on reading the interrupt status register, either to be still busy, which
  can happen only \<open>delay\<close> times, or to have exchanged all words.  No fault is reported.
\<close>

definition shifts_ok ::
  "'h spi_core \<Rightarrow> addr \<Rightarrow> ('h \<Rightarrow> spi_view) \<Rightarrow> ((u32 \<times> u32) list \<Rightarrow> u32) \<Rightarrow> ('h \<Rightarrow> nat) \<Rightarrow> bool" where
  "shifts_ok C base view ans delay \<longleftrightarrow> (\<forall>h x h'. core_read C (base + 0x20) h = (x, h') \<longrightarrow>
     x AND 0x21AB = 0 \<and>
     (if running (view h) \<and> txf (view h) \<noteq> [] \<and> \<not> txe (view h) then
        if x AND 4 = 0 then view h' = view h \<and> delay h' < delay h else view h' = exchange ans (view h)
      else view h' = view h \<and> (x AND 4 \<noteq> 0 \<longleftrightarrow> txe (view h))))"

definition spi_core_ok ::
  "'h spi_core \<Rightarrow> addr \<Rightarrow> nat \<Rightarrow> ('h \<Rightarrow> spi_view) \<Rightarrow> ((u32 \<times> u32) list \<Rightarrow> u32) \<Rightarrow> ('h \<Rightarrow> nat) \<Rightarrow> bool" where
  "spi_core_ok C base D view ans delay \<longleftrightarrow> regs_ok C base view \<and> fifos_ok C base D view \<and> shifts_ok C base view ans delay"


lemma bit_0x100: "bit (0x100 :: u32) n \<longleftrightarrow> n = 8"
  using bit_exp_iff [where 'a=u32, of 8 n] by auto

lemma inhibit_stops [simp]: "\<not> running (v\<lparr>ctrl := c OR 0x100\<rparr>)"
  by (simp add: running_def bit_or_iff bit_0x100)

lemma start_runs: "bit c 1 \<Longrightarrow> bit c 2 \<Longrightarrow> running (v\<lparr>ctrl := c AND NOT 0x100\<rparr>)"
  by (auto simp: running_def bit_and_iff)

lemma running_upd [simp]:
  "running (v\<lparr>txf := a\<rparr>) = running v" "running (v\<lparr>rxf := a\<rparr>) = running v" "running (v\<lparr>gie := g\<rparr>) = running v"
  "running (v\<lparr>ier := g\<rparr>) = running v" "running (v\<lparr>ssel := g\<rparr>) = running v" "running (v\<lparr>txe := e\<rparr>) = running v"
  "running (v\<lparr>shifted := l\<rparr>) = running v"
  by (simp_all add: running_def)

lemma core_okD:
  assumes "spi_core_ok C base D view ans delay"
  shows "view (snd (core_read C (base + 0x1C) h)) = view h" "view (snd (core_read C (base + 0x28) h)) = view h"
    "view (snd (core_read C (base + 0x60) h)) = view h" "fst (core_read C (base + 0x1C) h) = gie (view h)"
    "fst (core_read C (base + 0x28) h) = ier (view h)" "fst (core_read C (base + 0x60) h) = ctrl (view h)"
    "view (core_write C (base + 0x1C) w h) = (view h)\<lparr>gie := w\<rparr>"
    "view (core_write C (base + 0x28) w h) = (view h)\<lparr>ier := w\<rparr>"
    "view (core_write C (base + 0x70) w h) = (view h)\<lparr>ssel := w\<rparr>"
    "w AND 0x60 = 0 \<Longrightarrow> view (core_write C (base + 0x60) w h) = (view h)\<lparr>ctrl := w\<rparr>"
    "view (core_write C (base + 0x20) w h) = (view h)\<lparr>txe := (txe (view h) \<noteq> (w AND 4 \<noteq> 0))\<rparr>"
    "0 < D"
    "\<not> running (view h) \<Longrightarrow> fst (core_read C (base + 0x64) h) AND 1 = 0 \<longleftrightarrow> rxf (view h) \<noteq> []"
    "\<not> running (view h) \<Longrightarrow> fst (core_read C (base + 0x64) h) AND 8 = 0 \<longleftrightarrow> length (txf (view h)) < D"
    "\<not> running (view h) \<Longrightarrow> view (snd (core_read C (base + 0x64) h)) = view h"
    "\<not> running (view h) \<Longrightarrow> rxf (view h) \<noteq> [] \<Longrightarrow> fst (core_read C (base + 0x6C) h) = hd (rxf (view h))"
    "\<not> running (view h) \<Longrightarrow> rxf (view h) \<noteq> [] \<Longrightarrow>
       view (snd (core_read C (base + 0x6C) h)) = (view h)\<lparr>rxf := tl (rxf (view h))\<rparr>"
    "\<not> running (view h) \<Longrightarrow> length (txf (view h)) < D \<Longrightarrow>
       view (core_write C (base + 0x68) w h) = (view h)\<lparr>txf := txf (view h) @ [w]\<rparr>"
  using assms by (simp_all add: spi_core_ok_def regs_ok_def fifos_ok_def)

lemma core_iisr:
  assumes "spi_core_ok C base D view ans delay" "core_read C (base + 0x20) h = (x, h')"
  shows "x AND 0x21AB = 0"
    "running (view h) \<Longrightarrow> txf (view h) \<noteq> [] \<Longrightarrow> \<not> txe (view h) \<Longrightarrow> x AND 4 = 0 \<Longrightarrow> view h' = view h \<and> delay h' < delay h"
    "running (view h) \<Longrightarrow> txf (view h) \<noteq> [] \<Longrightarrow> \<not> txe (view h) \<Longrightarrow> x AND 4 \<noteq> 0 \<Longrightarrow> view h' = exchange ans (view h)"
    "txe (view h) \<or> txf (view h) = [] \<Longrightarrow> view h' = view h \<and> (x AND 4 \<noteq> 0 \<longleftrightarrow> txe (view h))"
proof -
  have "x AND 0x21AB = 0 \<and> (if running (view h) \<and> txf (view h) \<noteq> [] \<and> \<not> txe (view h) then
        if x AND 4 = 0 then view h' = view h \<and> delay h' < delay h else view h' = exchange ans (view h)
      else view h' = view h \<and> (x AND 4 \<noteq> 0 \<longleftrightarrow> txe (view h)))"
    using assms unfolding spi_core_ok_def shifts_ok_def by blast
  then show "x AND 0x21AB = 0"
    "running (view h) \<Longrightarrow> txf (view h) \<noteq> [] \<Longrightarrow> \<not> txe (view h) \<Longrightarrow> x AND 4 = 0 \<Longrightarrow> view h' = view h \<and> delay h' < delay h"
    "running (view h) \<Longrightarrow> txf (view h) \<noteq> [] \<Longrightarrow> \<not> txe (view h) \<Longrightarrow> x AND 4 \<noteq> 0 \<Longrightarrow> view h' = exchange ans (view h)"
    "txe (view h) \<or> txf (view h) = [] \<Longrightarrow> view h' = view h \<and> (x AND 4 \<noteq> 0 \<longleftrightarrow> txe (view h))"
    by (simp_all split: if_splits)
qed

text \<open>Storing words as bytes from an address on.\<close>

fun put :: "addr \<Rightarrow> u32 list \<Rightarrow> (addr \<Rightarrow> u8) \<Rightarrow> addr \<Rightarrow> u8" where
  "put p [] m = m"
| "put p (w # ws) m = put (p + 1) ws (m(p := ucast w))"

lemma put_append: "put p (xs @ ys) m = put (p + of_nat (length xs)) ys (put p xs m)"
  by (induction xs arbitrary: p m) (simp_all add: algebra_simps)

lemma put_other: "(\<And>i. i < length ws \<Longrightarrow> a \<noteq> p + of_nat i) \<Longrightarrow> put p ws m a = m a"
proof (induction ws arbitrary: p m)
  case (Cons w ws)
  have "a \<noteq> p + 1 + of_nat i" if "i < length ws" for i
    using Cons.prems [of "Suc i"] that by (simp add: algebra_simps)
  with Cons.IH Cons.prems [of 0] show ?case
    by simp
qed simp

lemma width8: "DataWidth (inst s) = 8 \<Longrightarrow> width_bytes s = 1"
  by (simp add: width_bytes_def drop_bit_eq_div)

lemma fill_tx_step:
  assumes ok: "spi_core_ok C base D view ans delay" and s: "BaseAddr (inst s) = base" "DataWidth (inst s) = 8"
    and nr: "\<not> running (view (core s))" and sr: "sr AND 8 = 0 \<longleftrightarrow> length (txf (view (core s))) < D"
  shows "\<exists>h n. n = min (D - length (txf (view (core s)))) (unat (SpiRemaining (inst s))) \<and>
    fill_tx C Data sr s = Some (s\<lparr>inst := (inst s)\<lparr>SendBufferPtr := SendBufferPtr (inst s) + of_nat n,
      SpiRemaining := SpiRemaining (inst s) - of_nat n\<rparr>, core := h\<rparr>) \<and>
    view h = (view (core s))\<lparr>txf := txf (view (core s)) @
      map (\<lambda>i. ucast (smem s (SendBufferPtr (inst s) + of_nat i))) [0..<n]\<rparr>"
  using s nr sr
proof (induction "unat (SpiRemaining (inst s))" arbitrary: s sr Data)
  case 0
  then have "SpiRemaining (inst s) = 0"
    by (metis unat_eq_0)
  then show ?case
    by (subst fill_tx.simps) (auto intro!: exI [of _ "core s"])
next
  case (Suc k)
  let ?v = "view (core s)" and ?p = "SendBufferPtr (inst s)"
  show ?case
  proof (cases "length (txf ?v) < D")
    case True
    have ne: "SpiRemaining (inst s) \<noteq> 0"
      using Suc(2) by (metis nat.distinct(1) unat_0)
    then have pos: "SpiRemaining (inst s) > 0" and k: "k = unat (SpiRemaining (inst s) - 1)"
      using Suc(2) unat_minus_one [OF ne] by (simp_all add: word_gt_0)
    define h1 where "h1 = core_write C (base + 0x68) (ucast (smem s ?p)) (core s)"
    obtain sr2 h2 where r: "core_read C (base + 0x64) h1 = (sr2, h2)"
      by fastforce
    have v1: "view h1 = ?v\<lparr>txf := txf ?v @ [ucast (smem s ?p)]\<rparr>"
      using core_okD(18) [OF ok Suc.prems(3) True] by (simp add: h1_def)
    then have v2: "view h2 = view h1" and sr2: "sr2 AND 8 = 0 \<longleftrightarrow> length (txf (view h1)) < D"
      using core_okD(14,15) [OF ok, of h1] r Suc.prems(3) by auto
    define s2 where "s2 = s\<lparr>inst := (inst s)\<lparr>SendBufferPtr := ?p + 1, SpiRemaining := SpiRemaining (inst s) - 1\<rparr>, core := h2\<rparr>"
    have e: "fill_tx C Data sr s = fill_tx C (ucast (smem s ?p)) sr2 s2"
      using True Suc.prems pos r
      by (subst fill_tx.simps)
        (simp add: Let_def load_data_def XSpi_WriteReg_def XSpi_GetStatusReg_def XSpi_ReadReg_def width8 h1_def [symmetric] s2_def)
    obtain h n where "n = min (D - length (txf (view (core s2)))) (unat (SpiRemaining (inst s2)))"
      "fill_tx C (ucast (smem s ?p)) sr2 s2 = Some (s2\<lparr>inst := (inst s2)\<lparr>SendBufferPtr := SendBufferPtr (inst s2) + of_nat n,
        SpiRemaining := SpiRemaining (inst s2) - of_nat n\<rparr>, core := h\<rparr>)"
      "view h = (view (core s2))\<lparr>txf := txf (view (core s2)) @
        map (\<lambda>i. ucast (smem s2 (SendBufferPtr (inst s2) + of_nat i))) [0..<n]\<rparr>"
      using Suc(1) [of s2 sr2 "ucast (smem s ?p)"] k Suc.prems v1 v2 sr2 by (auto simp: s2_def)
    then show ?thesis
      using True Suc(2) k unfolding e
      by (intro exI [of _ h] exI [of _ "Suc n"])
        (auto simp: s2_def v1 v2 algebra_simps map_upt_Suc min_def simp del: upt_Suc)
  next
    case False
    then show ?thesis
      using Suc.prems by (subst fill_tx.simps) (auto intro!: exI [of _ "core s"])
  qed
qed

lemma drain_rx_step:
  assumes ok: "spi_core_ok C base D view ans delay" and s: "BaseAddr (inst s) = base" "DataWidth (inst s) = 8"
    and nr: "\<not> running (view (core s))" and sr: "sr AND 1 = 0 \<longleftrightarrow> rxf (view (core s)) \<noteq> []"
    and p: "RecvBufferPtr (inst s) = 0 \<or> unat (RecvBufferPtr (inst s)) + length (rxf (view (core s))) < 2 ^ 32"
  shows "\<exists>h st d. drain_rx C Data n sr s = Some (d, n - of_nat (length (rxf (view (core s)))),
      s\<lparr>inst := (inst s)\<lparr>SpiStats := st, RecvBufferPtr := (if RecvBufferPtr (inst s) = 0 then 0
          else RecvBufferPtr (inst s) + of_nat (length (rxf (view (core s)))))\<rparr>, core := h,
        smem := (if RecvBufferPtr (inst s) = 0 then smem s else put (RecvBufferPtr (inst s)) (rxf (view (core s))) (smem s))\<rparr>) \<and>
    view h = (view (core s))\<lparr>rxf := []\<rparr>"
  using s nr sr p
proof (induction "rxf (view (core s))" arbitrary: s sr Data n)
  case Nil
  then have "drain_rx C Data n sr s = Some (Data, n, s)"
    by (subst drain_rx.simps) simp
  with Nil(1) [symmetric] show ?case
    by (intro exI [of _ "core s"] exI [of _ "SpiStats (inst s)"] exI [of _ Data]) simp
next
  case (Cons w ws)
  let ?v = "view (core s)" and ?p = "RecvBufferPtr (inst s)"
  have ne: "rxf ?v \<noteq> []" "hd (rxf ?v) = w" "tl (rxf ?v) = ws"
    using Cons(2) [symmetric] by simp_all
  obtain h1 where r1: "core_read C (base + 0x6C) (core s) = (w, h1)" and v1: "view h1 = ?v\<lparr>rxf := ws\<rparr>"
    using core_okD(16,17) [OF ok Cons.prems(3) ne(1)] ne by (metis prod.collapse)
  obtain sr2 h2 where r2: "core_read C (base + 0x64) h1 = (sr2, h2)"
    by fastforce
  have v2: "view h2 = view h1" and sr2: "sr2 AND 1 = 0 \<longleftrightarrow> rxf (view h1) \<noteq> []"
    using core_okD(13,15) [OF ok, of h1] r2 Cons.prems(3) v1 by auto
  define s2 where "s2 = s\<lparr>inst := (inst s)\<lparr>SpiStats := (SpiStats (inst s))\<lparr>BytesTransferred := BytesTransferred (SpiStats (inst s)) + 1\<rparr>,
      RecvBufferPtr := (if ?p = 0 then 0 else ?p + 1)\<rparr>, core := h2,
    smem := (if ?p = 0 then smem s else (smem s)(?p := ucast w))\<rparr>"
  have e: "drain_rx C Data n sr s = drain_rx C w (n - 1) sr2 s2"
    using Cons.prems ne(1) r1 r2
    by (subst drain_rx.simps)
      (auto simp: Let_def store_data_def XSpi_GetStatusReg_def XSpi_ReadReg_def width8 s2_def
        intro!: arg_cong [where f = "drain_rx C w (n - 1) sr2"] spi.equality XSpi.equality)
  have p1: "?p + 1 \<noteq> 0" "unat (?p + 1) = unat ?p + 1" if "?p \<noteq> 0"
    using Cons.prems(5) that Cons(2) [symmetric] by (auto simp: unat_word_ariths unat_eq_0 [symmetric] simp del: unat_eq_0)
  have "\<exists>h st d. drain_rx C w (n - 1) sr2 s2 = Some (d, n - 1 - of_nat (length (rxf (view (core s2)))),
      s2\<lparr>inst := (inst s2)\<lparr>SpiStats := st, RecvBufferPtr := (if RecvBufferPtr (inst s2) = 0 then 0
          else RecvBufferPtr (inst s2) + of_nat (length (rxf (view (core s2)))))\<rparr>, core := h,
        smem := (if RecvBufferPtr (inst s2) = 0 then smem s2 else put (RecvBufferPtr (inst s2)) (rxf (view (core s2))) (smem s2))\<rparr>) \<and>
    view h = (view (core s2))\<lparr>rxf := []\<rparr>"
    by (rule Cons(1)) (use Cons.prems v1 v2 sr2 p1 Cons(2) [symmetric] in \<open>auto simp: s2_def\<close>)
  then show ?case
    unfolding e
    apply (elim exE conjE)
    subgoal for h st d
      using p1 Cons(2) [symmetric]
      by (intro exI [of _ h] exI [of _ st] exI [of _ d]) (auto simp: s2_def v1 v2 algebra_simps)
    done
qed

lemma wait_tx_empty_step:
  assumes ok: "spi_core_ok C base D view ans delay" and "BaseAddr (inst s) = base"
    and "running (view (core s))" "txf (view (core s)) \<noteq> []" "\<not> txe (view (core s))"
  shows "\<exists>h. wait_tx_empty C s = Some (s\<lparr>core := h\<rparr>) \<and> view h = exchange ans (view (core s))"
  using assms(2-)
proof (induction "delay (core s)" arbitrary: s rule: less_induct)
  case less
  obtain x h where r: "core_read C (base + 0x20) (core s) = (x, h)"
    by fastforce
  have e: "wait_tx_empty C s = (if x AND 4 = 0 then wait_tx_empty C (s\<lparr>core := h\<rparr>) else Some (s\<lparr>core := h\<rparr>))"
    using r less.prems(1) by (subst wait_tx_empty.simps) (simp add: XSpi_IntrGetStatus_def XSpi_ReadReg_def)
  show ?case
  proof (cases "x AND 4 = 0")
    case True
    then have v: "view h = view (core s)" "delay h < delay (core s)"
      using core_iisr(2) [OF ok r less.prems(2-4)] by auto
    then show ?thesis
      using less.hyps [of "s\<lparr>core := h\<rparr>"] less.prems e True by simp
  next
    case False
    then show ?thesis
      using core_iisr(3) [OF ok r less.prems(2-4)] e by (intro exI [of _ h]) simp
  qed
qed

subsection \<open>The state during a transfer\<close>

text \<open>
  A transfer is described by the state it started from (\<open>xfer\<close>) and by how many words were received
  (\<open>r\<close>) and put into the transmit FIFO (\<open>t\<close>); \<open>mid\<close> is the state at such a point, with the transmitter
  running or inhibited.
\<close>

record 'u xfer =
  x_inst :: "'u XSpi"
  x_mem :: "addr \<Rightarrow> u8"
  x_upper :: 'u
  x_words :: "u32 list"
  x_tx :: addr
  x_rx :: addr
  x_view :: spi_view

definition x_replies :: "((u32 \<times> u32) list \<Rightarrow> u32) \<Rightarrow> 'u xfer \<Rightarrow> u32 list" where
  "x_replies ans X = replies ans (ssel (x_view X)) (shifted (x_view X)) (x_words X)"

definition xfer_ok :: "addr \<Rightarrow> 'u xfer \<Rightarrow> bool" where
  "xfer_ok base X \<longleftrightarrow> BaseAddr (x_inst X) = base \<and> DataWidth (x_inst X) = 8 \<and> length (x_words X) < 2 ^ 32 \<and>
     (x_rx X = 0 \<or> unat (x_rx X) + length (x_words X) < 2 ^ 32) \<and>
     (\<forall>i < length (x_words X). ucast (x_mem X (x_tx X + of_nat i)) = x_words X ! i) \<and>
     (x_rx X \<noteq> 0 \<longrightarrow> (\<forall>i < length (x_words X). \<forall>j < i. x_rx X + of_nat j \<noteq> x_tx X + of_nat i)) \<and>
     txf (x_view X) = [] \<and> rxf (x_view X) = [] \<and> \<not> txe (x_view X) \<and>
     bit (ctrl (x_view X)) 8 \<and> bit (ctrl (x_view X)) 1 \<and> bit (ctrl (x_view X)) 2 \<and> ctrl (x_view X) AND 0x60 = 0"

definition mid ::
  "((u32 \<times> u32) list \<Rightarrow> u32) \<Rightarrow> ('h \<Rightarrow> spi_view) \<Rightarrow> 'u xfer \<Rightarrow> nat \<Rightarrow> nat \<Rightarrow> bool \<Rightarrow> ('h, 'u) spi \<Rightarrow> bool" where
  "mid ans view X r t run s \<longleftrightarrow> r \<le> t \<and> t \<le> length (x_words X) \<and>
     (\<exists>st. inst s = (x_inst X)\<lparr>SpiStats := st, SendBufferPtr := x_tx X + of_nat t,
        RecvBufferPtr := (if x_rx X = 0 then 0 else x_rx X + of_nat r),
        SpiRequested := of_nat (length (x_words X)), SpiRemaining := of_nat (length (x_words X) - t), IsBusy := True\<rparr>) \<and>
     smem s = (if x_rx X = 0 then x_mem X else put (x_rx X) (take r (x_replies ans X)) (x_mem X)) \<and>
     upper s = x_upper X \<and>
     view (core s) = (x_view X)\<lparr>txf := take (t - r) (drop r (x_words X)),
       ctrl := (if run then ctrl (x_view X) AND NOT 0x100 else ctrl (x_view X)),
       shifted := shifted (x_view X) @ map (Pair (ssel (x_view X))) (take r (x_words X))\<rparr>"

lemma length_replies [simp]: "length (replies ans sel hist ws) = length ws"
  by (induction ws arbitrary: hist) simp_all

lemma replies_append:
  "replies ans sel hist (xs @ ys) = replies ans sel hist xs @ replies ans sel (hist @ map (Pair sel) xs) ys"
  by (induction xs arbitrary: hist) simp_all

lemma replies_slice:
  assumes "r \<le> t"
  shows "take r (replies ans sel hist ws) @ replies ans sel (hist @ map (Pair sel) (take r ws)) (take (t - r) (drop r ws)) =
    take t (replies ans sel hist ws)"
proof -
  have "ws = take r ws @ take (t - r) (drop r ws) @ drop t ws"
    using assms by (metis append_take_drop_id drop_drop le_add_diff_inverse2)
  then have "replies ans sel hist ws = replies ans sel hist (take r ws) @
      replies ans sel (hist @ map (Pair sel) (take r ws)) (take (t - r) (drop r ws)) @
      replies ans sel (hist @ map (Pair sel) (take t ws)) (drop t ws)"
    using replies_append by (metis append.assoc assms le_add_diff_inverse map_append take_add)
  then show ?thesis
    using assms by (simp add: min_def)
qed

lemma ctrl_set: "bit (c :: u32) 8 \<Longrightarrow> c OR 0x100 = c"
  by (rule bit_word_eqI) (metis bit_0x100 bit_or_iff)

lemma ctrl_fifo: "c AND 0x60 = 0 \<Longrightarrow> (c AND x) AND 0x60 = (0 :: u32)"
  by (metis and.assoc and.commute and_zero_eq)

text \<open>The transmitter has run empty and is inhibited; the receive FIFO is emptied.\<close>

lemma drain_mid:
  assumes ok: "spi_core_ok C base D view ans delay" and X: "xfer_ok base X" and m: "mid ans view X r t True s0"
    and s: "s = s0\<lparr>core := h\<rparr>" "view h = (exchange ans (view (core s0)))\<lparr>txe := False\<rparr>"
  shows "\<exists>s1 sr s2 d s3. XSpi_GetControlReg C s = (ctrl (x_view X) AND NOT 0x100, s1) \<and>
    XSpi_GetStatusReg C (XSpi_SetControlReg C ((ctrl (x_view X) AND NOT 0x100) OR 0x100) s1) = (sr, s2) \<and>
    drain_rx C Data n sr s2 = Some (d, n - of_nat (t - r), s3) \<and> mid ans view X t t False s3"
proof -
  let ?c = "ctrl (x_view X)" and ?ws = "x_words X" and ?v = "x_view X"
  note X' = X [unfolded xfer_ok_def] and m' = m [unfolded mid_def]
  obtain st where i: "inst s = (x_inst X)\<lparr>SpiStats := st, SendBufferPtr := x_tx X + of_nat t,
        RecvBufferPtr := (if x_rx X = 0 then 0 else x_rx X + of_nat r),
        SpiRequested := of_nat (length ?ws), SpiRemaining := of_nat (length ?ws - t), IsBusy := True\<rparr>"
    using m' s(1) by auto
  have b: "BaseAddr (inst s) = base" "DataWidth (inst s) = 8"
    using X' i by simp_all
  let ?reps = "replies ans (ssel ?v) (shifted ?v @ map (Pair (ssel ?v)) (take r ?ws)) (take (t - r) (drop r ?ws))"
  have v: "view (core s) = ?v\<lparr>rxf := ?reps, ctrl := ?c AND NOT 0x100,
      shifted := shifted ?v @ map (Pair (ssel ?v)) (take t ?ws)\<rparr>"
    using m' X' s by (simp add: exchange_def flip: map_append take_add)
  obtain h1 where r1: "core_read C (base + 0x60) (core s) = (?c AND NOT 0x100, h1)" and v1: "view h1 = view (core s)"
    using core_okD(3,6) [OF ok, of "core s"] v by (cases "core_read C (base + 0x60) (core s)") simp
  define h2 where "h2 = core_write C (base + 0x60) ((?c AND NOT 0x100) OR 0x100) h1"
  have c: "(?c AND NOT 0x100) OR 0x100 = ?c"
    unfolding and_not_or by (rule ctrl_set) (use X' in simp)
  have v2: "view h2 = (view (core s))\<lparr>ctrl := ?c\<rparr>"
    unfolding h2_def c using core_okD(10) [OF ok] X' v1 by simp
  have nr: "\<not> running (view h2)"
    using X' by (simp add: v2 running_def)
  obtain sr h3 where r3: "core_read C (base + 0x64) h2 = (sr, h3)"
    by fastforce
  have v3: "view h3 = view h2" "sr AND 1 = 0 \<longleftrightarrow> rxf (view h2) \<noteq> []"
    using core_okD(13,15) [OF ok nr] r3 by auto
  define s2 where "s2 = s\<lparr>core := h3\<rparr>"
  have len: "length ?reps = t - r"
    using m' by (auto simp: min_def)
  have rx: "unat (x_rx X + of_nat r) = unat (x_rx X) + r" "x_rx X + of_nat r \<noteq> 0" if "x_rx X \<noteq> 0"
  proof -
    show 1: "unat (x_rx X + of_nat r) = unat (x_rx X) + r"
      using X' m' that by (simp add: unat_word_ariths unat_of_nat_small)
    have "unat (x_rx X) \<noteq> 0"
      using that by (simp add: unat_eq_0)
    then have "unat (x_rx X + of_nat r) \<noteq> 0"
      unfolding 1 by simp
    then show "x_rx X + of_nat r \<noteq> 0"
      by (metis unat_0)
  qed
  have p2: "RecvBufferPtr (inst s2) = (if x_rx X = 0 then 0 else x_rx X + of_nat r)" "rxf (view (core s2)) = ?reps"
    "smem s2 = smem s" "(RecvBufferPtr (inst s2) = 0) = (x_rx X = 0)"
    using i v v2 v3 rx by (simp_all add: s2_def)
  have p: "RecvBufferPtr (inst s2) = 0 \<or> unat (RecvBufferPtr (inst s2)) + length (rxf (view (core s2))) < 2 ^ 32"
    unfolding p2 len using rx(1) X' m' by auto
  have "\<exists>h st d. drain_rx C Data n sr s2 = Some (d, n - of_nat (length (rxf (view (core s2)))),
      s2\<lparr>inst := (inst s2)\<lparr>SpiStats := st, RecvBufferPtr := (if RecvBufferPtr (inst s2) = 0 then 0
          else RecvBufferPtr (inst s2) + of_nat (length (rxf (view (core s2)))))\<rparr>, core := h,
        smem := (if RecvBufferPtr (inst s2) = 0 then smem s2 else put (RecvBufferPtr (inst s2)) (rxf (view (core s2))) (smem s2))\<rparr>) \<and>
    view h = (view (core s2))\<lparr>rxf := []\<rparr>"
    by (rule drain_rx_step [OF ok]) (use b nr v2 v3 p in \<open>simp_all add: s2_def\<close>)
  moreover have "(if RecvBufferPtr (inst s2) = 0 then 0 else RecvBufferPtr (inst s2) + of_nat (length (rxf (view (core s2))))) =
      (if x_rx X = 0 then 0 else x_rx X + of_nat t)"
    unfolding p2(1,2) len using m' rx(2) by (auto simp: add.assoc simp flip: of_nat_add)
  moreover have "(if RecvBufferPtr (inst s2) = 0 then smem s2
        else put (RecvBufferPtr (inst s2)) (rxf (view (core s2))) (smem s2)) =
      (if x_rx X = 0 then smem s else put (x_rx X + of_nat r) ?reps (smem s))"
    unfolding p2(1-3) using rx(2) by auto
  moreover have "(view (core s2))\<lparr>rxf := []\<rparr> = ?v\<lparr>shifted := shifted ?v @ map (Pair (ssel ?v)) (take t ?ws)\<rparr>"
    using X' v v2 v3 by (simp add: s2_def)
  moreover have "length (rxf (view (core s2))) = t - r"
    using p2(2) len by simp
  ultimately obtain h' st' d where dr: "drain_rx C Data n sr s2 = Some (d, n - of_nat (t - r),
      s2\<lparr>inst := (inst s2)\<lparr>SpiStats := st', RecvBufferPtr := (if x_rx X = 0 then 0 else x_rx X + of_nat t)\<rparr>, core := h',
        smem := (if x_rx X = 0 then smem s else put (x_rx X + of_nat r) ?reps (smem s))\<rparr>)"
    and v': "view h' = ?v\<lparr>shifted := shifted ?v @ map (Pair (ssel ?v)) (take t ?ws)\<rparr>"
    by (simp only:) blast
  have "mid ans view X t t False (s2\<lparr>inst := (inst s2)\<lparr>SpiStats := st', RecvBufferPtr := (if x_rx X = 0 then 0 else x_rx X + of_nat t)\<rparr>, core := h',
        smem := (if x_rx X = 0 then smem s else put (x_rx X + of_nat r) ?reps (smem s))\<rparr>)"
    unfolding mid_def
  proof (intro conjI exI [of _ st'])
    show "inst (s2\<lparr>inst := (inst s2)\<lparr>SpiStats := st', RecvBufferPtr := (if x_rx X = 0 then 0 else x_rx X + of_nat t)\<rparr>, core := h',
        smem := (if x_rx X = 0 then smem s else put (x_rx X + of_nat r) ?reps (smem s))\<rparr>) =
      (x_inst X)\<lparr>SpiStats := st', SendBufferPtr := x_tx X + of_nat t,
        RecvBufferPtr := (if x_rx X = 0 then 0 else x_rx X + of_nat t),
        SpiRequested := of_nat (length ?ws), SpiRemaining := of_nat (length ?ws - t), IsBusy := True\<rparr>"
      by (rule XSpi.equality) (simp_all add: s2_def i)
  qed (use m' X' v' replies_slice [of r t ans "ssel ?v" "shifted ?v" ?ws] put_append [of "x_rx X" "take r (x_replies ans X)" ?reps "x_mem X"]
    in \<open>auto simp: s2_def s(1) x_replies_def min_def\<close>)
  then show ?thesis
    using r1 r3 b dr c
    by (intro exI [of _ "s\<lparr>core := h1\<rparr>"] exI [of _ sr] exI [of _ s2] exI [of _ d] exI conjI)
      (simp_all add: XSpi_GetControlReg_def XSpi_SetControlReg_def XSpi_ReadReg_def XSpi_WriteReg_def XSpi_GetStatusReg_def h2_def s2_def)
qed


lemma mid_instD:
  assumes "xfer_ok base X" "mid ans view X r t run s"
  shows "BaseAddr (inst s) = base" "DataWidth (inst s) = 8" "SendBufferPtr (inst s) = x_tx X + of_nat t"
    "SpiRemaining (inst s) = of_nat (length (x_words X) - t)" "unat (SpiRemaining (inst s)) = length (x_words X) - t"
    "SlaveSelectReg (inst s) = SlaveSelectReg (x_inst X)" "SlaveSelectMask (inst s) = SlaveSelectMask (x_inst X)"
    "SpiRequested (inst s) = of_nat (length (x_words X))" "StatusHandler (inst s) = StatusHandler (x_inst X)"
    "(SpiRemaining (inst s) > 0) = (t < length (x_words X))"
proof -
  have l: "length (x_words X) < 2 ^ 32"
    using assms(1) by (simp add: xfer_ok_def)
  obtain st where i: "inst s = (x_inst X)\<lparr>SpiStats := st, SendBufferPtr := x_tx X + of_nat t,
        RecvBufferPtr := (if x_rx X = 0 then 0 else x_rx X + of_nat r),
        SpiRequested := of_nat (length (x_words X)), SpiRemaining := of_nat (length (x_words X) - t), IsBusy := True\<rparr>"
    using assms(2) by (auto simp: mid_def)
  show "BaseAddr (inst s) = base" "DataWidth (inst s) = 8" "SendBufferPtr (inst s) = x_tx X + of_nat t"
    "SpiRemaining (inst s) = of_nat (length (x_words X) - t)"
    "SlaveSelectReg (inst s) = SlaveSelectReg (x_inst X)" "SlaveSelectMask (inst s) = SlaveSelectMask (x_inst X)"
    "SpiRequested (inst s) = of_nat (length (x_words X))" "StatusHandler (inst s) = StatusHandler (x_inst X)"
    using assms(1) unfolding i xfer_ok_def by simp_all
  then show u: "unat (SpiRemaining (inst s)) = length (x_words X) - t"
    using l by (simp add: unat_of_nat_small)
  show "(SpiRemaining (inst s) > 0) = (t < length (x_words X))"
    using u by (metis unat_gt_0 zero_less_diff word_gt_0)
qed

text \<open>The transmit FIFO is filled again.\<close>

lemma fill_mid:
  assumes ok: "spi_core_ok C base D view ans delay" and X: "xfer_ok base X" and m: "mid ans view X t t False s"
  shows "\<exists>sr s1 s2. XSpi_GetStatusReg C s = (sr, s1) \<and> fill_tx C Data sr s1 = Some s2 \<and>
    mid ans view X t (t + min D (length (x_words X) - t)) False s2"
proof -
  let ?ws = "x_words X" and ?v = "x_view X" and ?n = "min D (length (x_words X) - t)"
  note X' = X [unfolded xfer_ok_def] and m' = m [unfolded mid_def] and i = mid_instD [OF X m]
  have v: "view (core s) = ?v\<lparr>shifted := shifted ?v @ map (Pair (ssel ?v)) (take t ?ws)\<rparr>"
    using m' X' by simp
  have nr: "\<not> running (view (core s))"
    using X' v by (simp add: running_def)
  obtain sr h1 where r1: "core_read C (base + 0x64) (core s) = (sr, h1)"
    by fastforce
  have v1: "view h1 = view (core s)" "sr AND 8 = 0 \<longleftrightarrow> length (txf (view (core s))) < D"
    using core_okD(14,15) [OF ok nr] r1 by auto
  have mem: "ucast (smem s (x_tx X + of_nat t + of_nat j)) = ?ws ! (t + j)" if "j < length ?ws - t" for j
  proof -
    have tj: "t + j < length ?ws"
      using that by simp
    have "smem s (x_tx X + of_nat (t + j)) = x_mem X (x_tx X + of_nat (t + j))"
    proof (cases "x_rx X = 0")
      case False
      then have "\<forall>i < length ?ws. \<forall>j < i. x_rx X + of_nat j \<noteq> x_tx X + of_nat i"
        using X' by blast
      then have "x_tx X + of_nat (t + j) \<noteq> x_rx X + of_nat i" if "i < t" for i
        using tj that by (metis trans_less_add1)
      then have "put (x_rx X) (take t (x_replies ans X)) (x_mem X) (x_tx X + of_nat (t + j)) = x_mem X (x_tx X + of_nat (t + j))"
        by (intro put_other) (simp add: x_replies_def del: of_nat_add)
      then show ?thesis
        using m' False by (simp del: of_nat_add)
    qed (use m' in simp)
    moreover have "ucast (x_mem X (x_tx X + of_nat (t + j))) = ?ws ! (t + j)"
      using X' tj by blast
    ultimately show ?thesis
      by (simp add: add.assoc)
  qed
  have "\<exists>h n. n = min (D - length (txf (view h1))) (unat (SpiRemaining (inst (s\<lparr>core := h1\<rparr>)))) \<and>
    fill_tx C Data sr (s\<lparr>core := h1\<rparr>) = Some (s\<lparr>core := h1\<rparr>\<lparr>inst := (inst (s\<lparr>core := h1\<rparr>))\<lparr>SendBufferPtr := SendBufferPtr (inst (s\<lparr>core := h1\<rparr>)) + of_nat n,
      SpiRemaining := SpiRemaining (inst (s\<lparr>core := h1\<rparr>)) - of_nat n\<rparr>, core := h\<rparr>) \<and>
    view h = (view h1)\<lparr>txf := txf (view h1) @
      map (\<lambda>i. ucast (smem (s\<lparr>core := h1\<rparr>) (SendBufferPtr (inst (s\<lparr>core := h1\<rparr>)) + of_nat i))) [0..<n]\<rparr>"
    using fill_tx_step [OF ok, of "s\<lparr>core := h1\<rparr>" sr Data] i nr v1 by simp
  then obtain h where f: "fill_tx C Data sr (s\<lparr>core := h1\<rparr>) = Some (s\<lparr>inst := (inst s)\<lparr>SendBufferPtr := x_tx X + of_nat t + of_nat ?n,
      SpiRemaining := of_nat (length ?ws - t) - of_nat ?n\<rparr>, core := h\<rparr>)"
    and vh: "view h = (view (core s))\<lparr>txf := map (\<lambda>i. ucast (smem s (x_tx X + of_nat t + of_nat i))) [0..<?n]\<rparr>"
    using i v v1 X' by auto
  have ws: "map (\<lambda>i. ucast (smem s (x_tx X + of_nat t + of_nat i))) [0..<?n] = take ?n (drop t ?ws)"
    using m [unfolded mid_def, THEN conjunct2, THEN conjunct1] by (intro nth_equalityI) (auto simp: mem)
  obtain st where inst: "inst s = (x_inst X)\<lparr>SpiStats := st, SendBufferPtr := x_tx X + of_nat t,
        RecvBufferPtr := (if x_rx X = 0 then 0 else x_rx X + of_nat t),
        SpiRequested := of_nat (length ?ws), SpiRemaining := of_nat (length ?ws - t), IsBusy := True\<rparr>"
    using m' by auto
  have rem: "of_nat (length ?ws - (t + ?n)) = (of_nat (length ?ws - t) - of_nat ?n :: u32)"
    unfolding diff_diff_left [symmetric] by (rule of_nat_diff) simp
  have "mid ans view X t (t + ?n) False (s\<lparr>inst := (inst s)\<lparr>SendBufferPtr := x_tx X + of_nat t + of_nat ?n,
      SpiRemaining := of_nat (length ?ws - t) - of_nat ?n\<rparr>, core := h\<rparr>)"
    unfolding mid_def
  proof (intro conjI exI [of _ st])
    show "inst (s\<lparr>inst := (inst s)\<lparr>SendBufferPtr := x_tx X + of_nat t + of_nat ?n,
      SpiRemaining := of_nat (length ?ws - t) - of_nat ?n\<rparr>, core := h\<rparr>) =
      (x_inst X)\<lparr>SpiStats := st, SendBufferPtr := x_tx X + of_nat (t + ?n),
        RecvBufferPtr := (if x_rx X = 0 then 0 else x_rx X + of_nat t),
        SpiRequested := of_nat (length ?ws), SpiRemaining := of_nat (length ?ws - (t + ?n)), IsBusy := True\<rparr>"
      unfolding rem by (intro XSpi.equality) (simp_all add: inst add.assoc)
  qed (use m' X' vh ws v in \<open>auto simp: min_def\<close>)
  then show ?thesis
    using f r1 i(1)
    by (intro exI [of _ sr] exI [of _ "s\<lparr>core := h1\<rparr>"] exI conjI) (simp_all add: XSpi_GetStatusReg_def XSpi_ReadReg_def)
qed

lemma mid_core:
  "mid ans view X r t b s \<Longrightarrow>
   view h = (view (core s))\<lparr>ctrl := (if b' then ctrl (x_view X) AND NOT 0x100 else ctrl (x_view X))\<rparr> \<Longrightarrow>
   mid ans view X r t b' (s\<lparr>core := h\<rparr>)"
  unfolding mid_def by (elim conjE, intro conjI; (assumption | simp))

text \<open>The transmitter is started.\<close>

lemma start_mid:
  assumes ok: "spi_core_ok C base D view ans delay" and X: "xfer_ok base X" and m: "mid ans view X r t b s"
    and c: "c = ctrl (x_view X) AND NOT 0x100"
  shows "mid ans view X r t True (XSpi_SetControlReg C c s)"
proof -
  have "c AND 0x60 = 0"
    using X unfolding xfer_ok_def c by (intro ctrl_fifo) blast
  then have "view (core_write C (base + 0x60) c (core s)) = (view (core s))\<lparr>ctrl := c\<rparr>"
    by (rule core_okD(10) [OF ok])
  then show ?thesis
    using mid_core [OF m, of "core_write C (base + 0x60) c (core s)" True] mid_instD(1) [OF X m]
    by (simp add: XSpi_SetControlReg_def XSpi_WriteReg_def c)
qed

lemma read_ctrl_mid:
  assumes ok: "spi_core_ok C base D view ans delay" and X: "xfer_ok base X" and m: "mid ans view X r t b s"
  obtains s' where "XSpi_GetControlReg C s = (if b then ctrl (x_view X) AND NOT 0x100 else ctrl (x_view X), s')"
    "mid ans view X r t b s'"
proof -
  obtain x h where r: "core_read C (base + 0x60) (core s) = (x, h)"
    by fastforce
  have "x = ctrl (view (core s))" "view h = view (core s)"
    using core_okD(3,6) [OF ok, of "core s"] r by simp_all
  moreover have v: "view (core s) = (view (core s))\<lparr>ctrl := (if b then ctrl (x_view X) AND NOT 0x100 else ctrl (x_view X))\<rparr>"
    "ctrl (view (core s)) = (if b then ctrl (x_view X) AND NOT 0x100 else ctrl (x_view X))"
    using m by (simp_all add: mid_def)
  ultimately have "mid ans view X r t b (s\<lparr>core := h\<rparr>)" "XSpi_GetControlReg C s = (ctrl (view (core s)), s\<lparr>core := h\<rparr>)"
    using mid_core [OF m] r mid_instD(1) [OF X m] by (simp_all add: XSpi_GetControlReg_def XSpi_ReadReg_def)
  then show thesis
    using that v(2) by simp
qed

lemma clear_txe:
  assumes ok: "spi_core_ok C base D view ans delay" and "BaseAddr (inst s) = base" "txe (view (core s))" "x AND 4 \<noteq> 0"
  shows "\<exists>h. XSpi_IntrClear C x s = s\<lparr>core := h\<rparr> \<and> view h = (view (core s))\<lparr>txe := False\<rparr>"
proof -
  obtain y h where r: "core_read C (base + 0x20) (core s) = (y, h)"
    by fastforce
  have v: "view h = view (core s)"
    using core_iisr(4) [OF ok r] assms(3) by simp
  have "(y OR x) AND 4 \<noteq> 0"
    using assms(4) by (rule and_or_nonzero)
  then show ?thesis
    using core_okD(11) [OF ok, of "y OR x" h] v r assms(2,3)
    by (intro exI [of _ "core_write C (base + 0x20) (y OR x) h"])
      (simp add: XSpi_IntrClear_def XSpi_IntrGetStatus_def XSpi_ReadReg_def XSpi_WriteReg_def)
qed

lemma mid_running:
  assumes "xfer_ok base X" "mid ans view X r t True s" "r < t"
  shows "running (view (core s))" "txf (view (core s)) \<noteq> []" "\<not> txe (view (core s))"
proof -
  have b: "bit (ctrl (x_view X)) 1" "bit (ctrl (x_view X)) 2"
    using assms(1) unfolding xfer_ok_def by blast+
  have v: "view (core s) = (x_view X)\<lparr>txf := take (t - r) (drop r (x_words X)), ctrl := ctrl (x_view X) AND NOT 0x100,
       shifted := shifted (x_view X) @ map (Pair (ssel (x_view X))) (take r (x_words X))\<rparr>" "t \<le> length (x_words X)"
    using assms(2) unfolding mid_def by simp_all
  show "running (view (core s))"
    unfolding v(1) running_def using b by (simp add: bit_and_iff)
  show "txf (view (core s)) \<noteq> []" "\<not> txe (view (core s))"
    using v assms by (auto simp: xfer_ok_def)
qed

lemma polled_loop_mid:
  assumes ok: "spi_core_ok C base D view ans delay" and X: "xfer_ok base X"
  shows "mid ans view X r t True s \<Longrightarrow> r < t \<Longrightarrow>
    \<exists>s' b. polled_loop C Data (of_nat (length (x_words X) - r)) s = Some s' \<and>
      mid ans view X (length (x_words X)) (length (x_words X)) b s'"
proof (induction "length (x_words X) - r" arbitrary: r t s Data rule: less_induct)
  case less
  let ?N = "length (x_words X)" and ?c = "ctrl (x_view X)"
  note m = less.prems(1)
  have le: "t \<le> ?N" and N: "?N < 2 ^ 32"
    using m X unfolding mid_def xfer_ok_def by simp_all
  obtain h1 where w: "wait_tx_empty C s = Some (s\<lparr>core := h1\<rparr>)" "view h1 = exchange ans (view (core s))"
    using wait_tx_empty_step [OF ok mid_instD(1) [OF X m] mid_running [OF X m less.prems(2)]] by auto
  have "\<exists>h. XSpi_IntrClear C 4 (s\<lparr>core := h1\<rparr>) = (s\<lparr>core := h1\<rparr>)\<lparr>core := h\<rparr> \<and> view h = (view (core (s\<lparr>core := h1\<rparr>)))\<lparr>txe := False\<rparr>"
    by (rule clear_txe [OF ok]) (use mid_instD(1) [OF X m] w(2) in \<open>simp_all add: exchange_def\<close>)
  then obtain h2 where c: "XSpi_IntrClear C 4 (s\<lparr>core := h1\<rparr>) = s\<lparr>core := h2\<rparr>" "view h2 = (exchange ans (view (core s)))\<lparr>txe := False\<rparr>"
    using w(2) by auto
  obtain s1 sr s2 d s3 where dr: "XSpi_GetControlReg C (s\<lparr>core := h2\<rparr>) = (?c AND NOT 0x100, s1)"
    "XSpi_GetStatusReg C (XSpi_SetControlReg C ((?c AND NOT 0x100) OR 0x100) s1) = (sr, s2)"
    "drain_rx C Data (of_nat (?N - r)) sr s2 = Some (d, of_nat (?N - r) - of_nat (t - r), s3)" "mid ans view X t t False s3"
    using drain_mid [OF ok X m refl c(2), of Data "of_nat (?N - r)"] by blast
  have bc: "of_nat (?N - r) - of_nat (t - r) = (of_nat (?N - t) :: u32)"
    using le less.prems(2) by (simp add: of_nat_diff)
  have pos: "(of_nat (?N - r) :: u32) > 0"
    using le less.prems(2) N unat_of_nat_small [of "?N - r", where 'a = 32] unfolding word_less_nat_alt by simp
  have e: "polled_loop C Data (of_nat (?N - r)) s = do {
        s \<leftarrow> (if t < ?N then do {
               let (StatusReg, s) = XSpi_GetStatusReg C s3;
               s \<leftarrow> fill_tx C d StatusReg s;
               let (ControlReg, s) = XSpi_GetControlReg C s;
               Some (XSpi_SetControlReg C (ControlReg AND NOT 0x100) s)}
             else Some s3);
        polled_loop C d (of_nat (?N - t)) s}"
    using pos w(1) c(1) dr(1-3) mid_instD(10) [OF X dr(4)] bc
    by (subst polled_loop.simps) (simp add: Let_def)
  show ?case
  proof (cases "t < ?N")
    case True
    define t' where "t' = t + min D (?N - t)"
    obtain sr' s4 s5 where f: "XSpi_GetStatusReg C s3 = (sr', s4)" "fill_tx C d sr' s4 = Some s5" "mid ans view X t t' False s5"
      using fill_mid [OF ok X dr(4), of d] unfolding t'_def by blast
    obtain s6 where g: "XSpi_GetControlReg C s5 = (?c, s6)" "mid ans view X t t' False s6"
      using read_ctrl_mid [OF ok X f(3)] by auto
    have m7: "mid ans view X t t' True (XSpi_SetControlReg C (?c AND NOT 0x100) s6)"
      by (rule start_mid [OF ok X g(2) refl])
    have "t < t'"
      using True core_okD(12) [OF ok] by (simp add: t'_def)
    then show ?thesis
      using less.hyps [OF _ m7, of d] True less.prems(2) e f(1,2) g(1) by simp
  next
    case False
    then have "t = ?N"
      using le by simp
    moreover have "polled_loop C d 0 s3 = Some s3"
      by (subst polled_loop.simps) simp
    ultimately show ?thesis
      using e dr(4) by auto
  qed
qed

end
