(* ===== verification/Spi_Props.thy ===== *)
theory Spi_Props
  imports Spi_Core
begin

section \<open>SPI transfers\<close>

text \<open>
  Transfers as a whole: in polled mode, in interrupt mode, and through the board support functions.

  \<open>spi_idle\<close> is the state between transfers (started, 8 bits wide, nothing in the FIFOs, transmitter inhibited);
  \<open>buffers_ok\<close> says that storing a received byte never overwrites a byte that is still to be sent, as is the
  case for equal and for disjoint buffers; \<open>exchanged\<close> that the words of the send buffer, and no others, were shifted
  out in order to the selected slave and its answers stored.
\<close>

definition spi_idle :: "addr \<Rightarrow> ('h \<Rightarrow> spi_view) \<Rightarrow> ('h, 'u) spi \<Rightarrow> bool" where
  "spi_idle base view s \<longleftrightarrow> BaseAddr (inst s) = base \<and> DataWidth (inst s) = 8 \<and> SpiReady (inst s) = 0x11111111 \<and>
     IsStarted (inst s) = 0x22222222 \<and> \<not> IsBusy (inst s) \<and>
     txf (view (core s)) = [] \<and> rxf (view (core s)) = [] \<and> \<not> txe (view (core s)) \<and>
     bit (ctrl (view (core s))) 8 \<and> bit (ctrl (view (core s))) 1 \<and> bit (ctrl (view (core s))) 2 \<and>
     ctrl (view (core s)) AND 0x60 = 0"

definition buffers_ok :: "addr \<Rightarrow> addr \<Rightarrow> u32 \<Rightarrow> bool" where
  "buffers_ok tx rx n \<longleftrightarrow> tx \<noteq> 0 \<and> 0 < n \<and> (rx = 0 \<or>
     unat rx + unat n < 2 ^ 32 \<and> (\<forall>i < unat n. \<forall>j < i. rx + of_nat j \<noteq> tx + of_nat i))"

definition sent_words :: "addr \<Rightarrow> u32 \<Rightarrow> ('h, 'u) spi \<Rightarrow> u32 list" where
  "sent_words tx n s = map (\<lambda>i. ucast (smem s (tx + of_nat i))) [0..<unat n]"

definition exchanged ::
  "((u32 \<times> u32) list \<Rightarrow> u32) \<Rightarrow> ('h \<Rightarrow> spi_view) \<Rightarrow> addr \<Rightarrow> addr \<Rightarrow> u32 \<Rightarrow> ('h, 'u) spi \<Rightarrow> ('h, 'u) spi \<Rightarrow> bool" where
  "exchanged ans view tx rx n s s' \<longleftrightarrow>
     shifted (view (core s')) = shifted (view (core s)) @ map (Pair (SlaveSelectReg (inst s))) (sent_words tx n s) \<and>
     smem s' = (if rx = 0 then smem s
       else put rx (replies ans (SlaveSelectReg (inst s)) (shifted (view (core s))) (sent_words tx n s)) (smem s))"

definition xfer_of :: "('h \<Rightarrow> spi_view) \<Rightarrow> addr \<Rightarrow> addr \<Rightarrow> u32 \<Rightarrow> ('h, 'u) spi \<Rightarrow> 'u xfer" where
  "xfer_of view tx rx n s = \<lparr>x_inst = inst s, x_mem = smem s, x_upper = upper s, x_words = sent_words tx n s,
     x_tx = tx, x_rx = rx, x_view = (view (core s))\<lparr>gie := 0\<rparr>\<rparr>"

lemma length_sent_words [simp]: "length (sent_words tx n s) = unat n"
  by (simp add: sent_words_def)

lemma xfer_of_ok:
  assumes "spi_idle base view s" "buffers_ok tx rx n"
  shows "xfer_ok base (xfer_of view tx rx n s)"
  using assms unsigned_less [of n, where ?'a = nat]
  by (auto simp: xfer_ok_def xfer_of_def spi_idle_def buffers_ok_def sent_words_def simp del: unsigned_less)

lemma xfer_ok_view:
  "xfer_ok base X \<Longrightarrow> xfer_ok base (X\<lparr>x_view := (x_view X)\<lparr>ier := e, gie := g, ssel := l\<rparr>\<rparr>)"
  unfolding xfer_ok_def by simp

lemma mid_ssel:
  "mid ans view X 0 t b s \<Longrightarrow> view h = (view (core s))\<lparr>ssel := l\<rparr> \<Longrightarrow>
   mid ans view (X\<lparr>x_view := (x_view X)\<lparr>ssel := l\<rparr>\<rparr>) 0 t b (s\<lparr>core := h\<rparr>)"
  unfolding mid_def by (elim conjE exE, intro conjI; (assumption | auto))

lemma mid_enable:
  "mid ans view X r t b s \<Longrightarrow> view h = (view (core s))\<lparr>ier := e, gie := g\<rparr> \<Longrightarrow>
   mid ans view (X\<lparr>x_view := (x_view X)\<lparr>ier := e, gie := g\<rparr>\<rparr>) r t b (s\<lparr>core := h\<rparr>)"
  unfolding mid_def by (elim conjE exE, intro conjI; (assumption | auto simp: x_replies_def))

text \<open>The common part of both modes.\<close>

lemma transfer_starts:
  assumes ok: "spi_core_ok C base D view ans delay" and idle: "spi_idle base view s" and bufs: "buffers_ok tx rx n"
    and sel: "SlaveSelectReg (inst s) \<noteq> SlaveSelectMask (inst s)"
    and X: "X = (xfer_of view tx rx n s)\<lparr>x_view := (view (core s))\<lparr>gie := 0, ssel := SlaveSelectReg (inst s)\<rparr>\<rparr>"
  shows "\<exists>s1. XSpi_Transfer C tx rx n s =
      (if gie (view (core s)) = 0x80000000 then Some (0, XSpi_IntrGlobalEnable C (XSpi_IntrEnable C 4 s1))
       else do {s \<leftarrow> polled_loop C 0 n s1; Some (0, polled_end C s)}) \<and>
    mid ans view X 0 (min D (unat n)) True s1"
proof -
  let ?v = "view (core s)" and ?X = "xfer_of view tx rx n s"
  note id = idle [unfolded spi_idle_def] and X0 = xfer_of_ok [OF idle bufs]
  obtain g h1 where r1: "core_read C (base + 0x1C) (core s) = (g, h1)" by fastforce
  define h2 where "h2 = core_write C (base + 0x1C) 0 h1"
  obtain c h3 where r3: "core_read C (base + 0x60) h2 = (c, h3)" by fastforce
  have v: "g = gie ?v" "view h2 = ?v\<lparr>gie := 0\<rparr>" "view h3 = ?v\<lparr>gie := 0\<rparr>"
    using core_okD(1,4,7) [OF ok] core_okD(3) [OF ok, of h2] r1 r3 by (auto simp: h2_def) (metis fst_conv snd_conv)+
  define s3 where "s3 = s\<lparr>core := h3, inst := (inst s)\<lparr>SendBufferPtr := tx, RecvBufferPtr := rx, SpiRequested := n,
    SpiRemaining := n, IsBusy := True\<rparr>\<rparr>"
  have m3: "mid ans view ?X 0 0 False s3"
    unfolding mid_def
  proof (intro conjI exI [of _ "SpiStats (inst s)"])
    show "inst s3 = (x_inst ?X)\<lparr>SpiStats := SpiStats (inst s), SendBufferPtr := x_tx ?X + of_nat 0,
        RecvBufferPtr := (if x_rx ?X = 0 then 0 else x_rx ?X + of_nat 0),
        SpiRequested := of_nat (length (x_words ?X)), SpiRemaining := of_nat (length (x_words ?X) - 0), IsBusy := True\<rparr>"
      by (intro XSpi.equality) (simp_all add: s3_def xfer_of_def)
  qed (use v id in \<open>simp_all add: s3_def xfer_of_def\<close>)
  obtain sr s4 s5 where f: "XSpi_GetStatusReg C s3 = (sr, s4)" "fill_tx C 0 sr s4 = Some s5"
    "mid ans view ?X 0 (min D (unat n)) False s5"
    using fill_mid [OF ok X0 m3, of 0] by (auto simp: xfer_of_def)
  define s6 where "s6 = XSpi_SetSlaveSelectReg C (SlaveSelectReg (inst s5)) s5"
  have i5: "BaseAddr (inst s5) = base" "SlaveSelectReg (inst s5) = SlaveSelectReg (inst s)"
    using mid_instD(1,6) [OF X0 f(3)] by (simp_all add: xfer_of_def)
  have X1: "xfer_ok base X"
    using xfer_ok_view [OF X0, where g = 0 and e = "ier ?v" and l = "SlaveSelectReg (inst s)"] by (simp add: X xfer_of_def)
  have m6: "mid ans view X 0 (min D (unat n)) False s6"
    using mid_ssel [OF f(3) core_okD(9) [OF ok]] i5
    by (simp add: s6_def XSpi_SetSlaveSelectReg_def XSpi_WriteReg_def X xfer_of_def)
  obtain s7 where g: "XSpi_GetControlReg C s6 = (ctrl (x_view X), s7)" "mid ans view X 0 (min D (unat n)) False s7"
    using read_ctrl_mid [OF ok X1 m6] by auto
  have m8: "mid ans view X 0 (min D (unat n)) True (XSpi_SetControlReg C (ctrl (x_view X) AND NOT 0x100) s7)"
    by (rule start_mid [OF ok X1 g(2) refl])
  have a: "XSpi_IsIntrGlobalEnabled C s = (gie ?v = 0x80000000, s\<lparr>core := h1\<rparr>)"
    "XSpi_IntrGlobalDisable C (s\<lparr>core := h1\<rparr>) = s\<lparr>core := h2\<rparr>" "XSpi_GetControlReg C (s\<lparr>core := h2\<rparr>) = (c, s\<lparr>core := h3\<rparr>)"
    using id r1 r3 v(1) by (simp_all add: XSpi_IsIntrGlobalEnabled_def XSpi_IntrGlobalDisable_def XSpi_GetControlReg_def
      XSpi_ReadReg_def XSpi_WriteReg_def h2_def)
  have e: "XSpi_Transfer C tx rx n s =
      (if gie ?v = 0x80000000 then Some (0, XSpi_IntrGlobalEnable C (XSpi_IntrEnable C 4
          (XSpi_SetControlReg C (ctrl (x_view X) AND NOT 0x100) s7)))
       else do {s \<leftarrow> polled_loop C 0 n (XSpi_SetControlReg C (ctrl (x_view X) AND NOT 0x100) s7); Some (0, polled_end C s)})"
    using id bufs sel a f(1,2) g(1) unfolding XSpi_Transfer_def s6_def s3_def buffers_ok_def
    by (simp add: halt_simps)
  from e m8 show ?thesis
    by blast
qed

lemma polled_end_mid:
  assumes ok: "spi_core_ok C base D view ans delay" and X: "xfer_ok base X"
    and m: "mid ans view X N N b s" and N: "N = length (x_words X)"
  shows "view (core (polled_end C s)) = (x_view X)\<lparr>ssel := SlaveSelectMask (x_inst X),
      shifted := shifted (x_view X) @ map (Pair (ssel (x_view X))) (x_words X)\<rparr> \<and>
    (\<exists>st p q. inst (polled_end C s) = (x_inst X)\<lparr>SpiStats := st, SendBufferPtr := p, RecvBufferPtr := q,
      SpiRequested := of_nat N, SpiRemaining := 0, IsBusy := False\<rparr>) \<and>
    smem (polled_end C s) = (if x_rx X = 0 then x_mem X else put (x_rx X) (x_replies ans X) (x_mem X)) \<and>
    upper (polled_end C s) = x_upper X"
proof -
  note X' = X [unfolded xfer_ok_def]
  obtain s1 where r: "XSpi_GetControlReg C s = (if b then ctrl (x_view X) AND NOT 0x100 else ctrl (x_view X), s1)"
    and m1: "mid ans view X N N b s1"
    using read_ctrl_mid [OF ok X m] by metis
  note m' = m1 [unfolded mid_def] and i = mid_instD [OF X m1]
  have c: "(if b then ctrl (x_view X) AND NOT 0x100 else ctrl (x_view X)) OR 0x100 = ctrl (x_view X)"
  proof -
    have "ctrl (x_view X) OR 0x100 = ctrl (x_view X)"
      by (rule ctrl_set) (use X' in simp)
    then show ?thesis
      by (cases b) (simp_all only: and_not_or if_True if_False)
  qed
  define h2 where "h2 = core_write C (base + 0x60) (ctrl (x_view X)) (core s1)"
  define h3 where "h3 = core_write C (base + 0x70) (SlaveSelectMask (x_inst X)) h2"
  have v: "view h3 = (view (core s1))\<lparr>ctrl := ctrl (x_view X), ssel := SlaveSelectMask (x_inst X)\<rparr>"
    using core_okD(10) [OF ok, of "ctrl (x_view X)" "core s1"] core_okD(9) [OF ok, of _ h2] X' by (simp add: h3_def h2_def)
  have e: "polled_end C s = s1\<lparr>inst := (inst s1)\<lparr>IsBusy := False\<rparr>, core := h3\<rparr>"
    using r c i by (simp add: polled_end_def XSpi_SetControlReg_def XSpi_SetSlaveSelectReg_def XSpi_WriteReg_def h2_def h3_def Let_def)
  obtain st where inst: "inst s1 = (x_inst X)\<lparr>SpiStats := st, SendBufferPtr := x_tx X + of_nat N,
        RecvBufferPtr := (if x_rx X = 0 then 0 else x_rx X + of_nat N),
        SpiRequested := of_nat N, SpiRemaining := 0, IsBusy := True\<rparr>"
    using m' N by auto
  show ?thesis
    unfolding e
  proof (intro conjI exI)
    show "inst (s1\<lparr>inst := (inst s1)\<lparr>IsBusy := False\<rparr>, core := h3\<rparr>) = (x_inst X)\<lparr>SpiStats := st,
        SendBufferPtr := x_tx X + of_nat N, RecvBufferPtr := (if x_rx X = 0 then 0 else x_rx X + of_nat N),
        SpiRequested := of_nat N, SpiRemaining := 0, IsBusy := False\<rparr>"
      by (simp add: inst)
  qed (use m' v N X' in \<open>auto simp: x_replies_def\<close>)
qed

lemma spi_polled_exchange_raw:
  assumes "spi_core_ok C base D view ans delay" "spi_idle base view s" "buffers_ok tx rx n"
    and "SlaveSelectReg (inst s) \<noteq> SlaveSelectMask (inst s)" "gie (view (core s)) \<noteq> 0x80000000"
  shows "\<exists>s'. XSpi_Transfer C tx rx n s = Some (0, s') \<and> exchanged ans view tx rx n s s' \<and>
    spi_idle base view s' \<and> ssel (view (core s')) = SlaveSelectMask (inst s) \<and> upper s' = upper s"
proof -
  define X where "X = (xfer_of view tx rx n s)\<lparr>x_view := (view (core s))\<lparr>gie := 0, ssel := SlaveSelectReg (inst s)\<rparr>\<rparr>"
  have X: "xfer_ok base X"
    using xfer_ok_view [OF xfer_of_ok [OF assms(2,3)], where g = 0 and e = "ier (view (core s))" and l = "SlaveSelectReg (inst s)"]
    by (simp add: X_def xfer_of_def)
  have N: "length (x_words X) = unat n" "0 < unat n"
    using assms(3) by (simp_all add: X_def xfer_of_def buffers_ok_def unat_gt_0 word_gt_0)
  obtain s1 where t: "XSpi_Transfer C tx rx n s = do {s \<leftarrow> polled_loop C 0 n s1; Some (0, polled_end C s)}"
    and m1: "mid ans view X 0 (min D (unat n)) True s1"
    using transfer_starts [OF assms(1-4) X_def] assms(5) by auto
  have "0 < min D (unat n)"
    using core_okD(12) [OF assms(1)] N by simp
  then obtain s2 b where l: "polled_loop C 0 n s1 = Some s2" and m2: "mid ans view X (unat n) (unat n) b s2"
    using polled_loop_mid [OF assms(1) X m1, of 0] N by auto
  have x: "x_inst X = inst s" "x_view X = (view (core s))\<lparr>gie := 0, ssel := SlaveSelectReg (inst s)\<rparr>" "x_rx X = rx"
    "x_words X = sent_words tx n s" "x_mem X = smem s" "x_upper X = upper s"
    by (simp_all add: X_def xfer_of_def)
  show ?thesis
    using t l polled_end_mid [OF assms(1) X m2 N(1) [symmetric]] assms(2)
    unfolding x x_replies_def
    by (auto simp: exchanged_def spi_idle_def)
qed

subsection \<open>Interrupt mode\<close>

text \<open>An interrupt: time passes until the controller is done, and the handler runs.\<close>

definition irq_step :: "'h spi_core \<Rightarrow> ('h \<Rightarrow> spi_view) \<Rightarrow> ('h \<Rightarrow> nat) \<Rightarrow> ('h, 'u) spi \<Rightarrow> ('h, 'u) spi \<Rightarrow> bool" where
  "irq_step C view delay s t \<longleftrightarrow>
     (\<exists>h. view h = view (core s) \<and> delay h = 0 \<and> XSpi_InterruptHandler C (s\<lparr>core := h\<rparr>) = Some t)"

lemma mid_stats:
  assumes "mid ans view X r t b s"
  shows "mid ans view X r t b (s\<lparr>inst := (inst s)\<lparr>SpiStats := st\<rparr>\<rparr>)"
proof -
  obtain st0 where i: "inst s = (x_inst X)\<lparr>SpiStats := st0, SendBufferPtr := x_tx X + of_nat t,
        RecvBufferPtr := (if x_rx X = 0 then 0 else x_rx X + of_nat r),
        SpiRequested := of_nat (length (x_words X)), SpiRemaining := of_nat (length (x_words X) - t), IsBusy := True\<rparr>"
    using assms by (auto simp: mid_def)
  have "(inst s)\<lparr>SpiStats := st\<rparr> = (x_inst X)\<lparr>SpiStats := st, SendBufferPtr := x_tx X + of_nat t,
        RecvBufferPtr := (if x_rx X = 0 then 0 else x_rx X + of_nat r),
        SpiRequested := of_nat (length (x_words X)), SpiRemaining := of_nat (length (x_words X) - t), IsBusy := True\<rparr>"
    by (intro XSpi.equality) (simp_all add: i)
  then show ?thesis
    using assms unfolding mid_def by (intro conjI exI [of _ st]) simp_all
qed

text \<open>What one interrupt does before it looks at the remaining bytes.\<close>

lemma handler_mid:
  assumes ok: "spi_core_ok C base D view ans delay" and X: "xfer_ok base X"
    and m: "mid ans view X r t True s" "r < t" and h: "view h = view (core s)" "delay h = 0"
  obtains s0 h2 where "XSpi_InterruptHandler C (s\<lparr>core := h\<rparr>) = tx_empty_service C (s0\<lparr>core := h2\<rparr>)"
    "mid ans view X r t True s0" "view h2 = (exchange ans (view (core s0)))\<lparr>txe := False\<rparr>"
proof -
  define s0 where "s0 = (s\<lparr>core := h\<rparr>)\<lparr>inst := (inst s)\<lparr>SpiStats := NumInterrupts_update (\<lambda>n. n + 1) (SpiStats (inst s))\<rparr>\<rparr>"
  have m0: "mid ans view X r t True s0"
  proof -
    have "mid ans view X r t True (s\<lparr>core := h\<rparr>)"
      by (rule mid_core [OF m(1)]) (use h m(1) in \<open>simp add: mid_def\<close>)
    from mid_stats [OF this] show ?thesis
      by (simp add: s0_def)
  qed
  obtain x h1 where r: "core_read C (base + 0x20) h = (x, h1)"
    by fastforce
  note run = mid_running [OF X m]
  have x: "x AND 4 \<noteq> 0"
    using core_iisr(2) [OF ok r] run h by fastforce
  then have v1: "view h1 = exchange ans (view (core s))"
    using core_iisr(3) [OF ok r] run h by simp
  have z: "x AND k = 0" if "0x21AB AND k = k" for k
    using and_sub_zero [OF core_iisr(1) [OF ok r] that] .
  have b: "BaseAddr (inst s0) = base"
    by (rule mid_instD(1) [OF X m0])
  have "\<exists>h'. XSpi_IntrClear C x (s0\<lparr>core := h1\<rparr>) = (s0\<lparr>core := h1\<rparr>)\<lparr>core := h'\<rparr> \<and>
      view h' = (view (core (s0\<lparr>core := h1\<rparr>)))\<lparr>txe := False\<rparr>"
    by (rule clear_txe [OF ok]) (use b x v1 in \<open>simp_all add: exchange_def\<close>)
  then obtain h2 where c: "XSpi_IntrClear C x (s0\<lparr>core := h1\<rparr>) = s0\<lparr>core := h2\<rparr>" "view h2 = (exchange ans (view (core s)))\<lparr>txe := False\<rparr>"
    using v1 by auto
  have g: "XSpi_IntrGetStatus C s0 = (x, s0\<lparr>core := h1\<rparr>)"
    using r b by (simp add: XSpi_IntrGetStatus_def XSpi_ReadReg_def s0_def)
  have "XSpi_InterruptHandler C (s\<lparr>core := h\<rparr>) = tx_empty_service C (s0\<lparr>core := h2\<rparr>)"
    using g c x z [of 1] z [of "0x80"] z [of "0x100"] z [of 2] z [of "0x20"] z [of 8] z [of "0x2000"]
    unfolding XSpi_InterruptHandler_def by (simp add: s0_def [symmetric])
  moreover have "view (core s) = view (core s0)"
    using h by (simp add: s0_def)
  ultimately show thesis
    using that m0 c(2) by simp
qed

lemma handler_refills:
  assumes ok: "spi_core_ok C base D view ans delay" and X: "xfer_ok base X"
    and m: "mid ans view X r t True s" "r < t" and h: "view h = view (core s)" "delay h = 0" and t: "t < length (x_words X)"
  shows "\<exists>s'. XSpi_InterruptHandler C (s\<lparr>core := h\<rparr>) = Some s' \<and>
    mid ans view X t (t + min D (length (x_words X) - t)) True s'"
proof -
  let ?c = "ctrl (x_view X)" and ?t = "t + min D (length (x_words X) - t)"
  obtain s0 h2 where e: "XSpi_InterruptHandler C (s\<lparr>core := h\<rparr>) = tx_empty_service C (s0\<lparr>core := h2\<rparr>)"
    and m0: "mid ans view X r t True s0" and v: "view h2 = (exchange ans (view (core s0)))\<lparr>txe := False\<rparr>"
    by (rule handler_mid [OF ok X m h])
  obtain s1 sr s2 d s3 where dr: "XSpi_GetControlReg C (s0\<lparr>core := h2\<rparr>) = (?c AND NOT 0x100, s1)"
    "XSpi_GetStatusReg C (XSpi_SetControlReg C ((?c AND NOT 0x100) OR 0x100) s1) = (sr, s2)"
    "drain_rx C 0 0 sr s2 = Some (d, 0 - of_nat (t - r), s3)" "mid ans view X t t False s3"
    using drain_mid [OF ok X m0 refl v, of 0 0] by blast
  obtain sr' s4 s5 where f: "XSpi_GetStatusReg C s3 = (sr', s4)" "fill_tx C d sr' s4 = Some s5" "mid ans view X t ?t False s5"
    using fill_mid [OF ok X dr(4), of d] by blast
  have "mid ans view X t ?t True (XSpi_SetControlReg C (?c AND NOT 0x100) s5)"
    by (rule start_mid [OF ok X f(3) refl])
  then show ?thesis
    unfolding e tx_empty_service_def using dr f(1,2) mid_instD(10) [OF X dr(4)] t by simp
qed

lemma handler_finishes:
  assumes ok: "spi_core_ok C base D view ans delay" and X: "xfer_ok base X"
    and m: "mid ans view X r N True s" "r < N" and h: "view h = view (core s)" "delay h = 0" and N: "N = length (x_words X)"
    and u: "StatusHandler (x_inst X) 1152 (of_nat N) (x_upper X) = Some u"
  shows "\<exists>s' st p q. XSpi_InterruptHandler C (s\<lparr>core := h\<rparr>) = Some s' \<and> upper s' = u \<and>
    inst s' = (x_inst X)\<lparr>SpiStats := st, SendBufferPtr := p, RecvBufferPtr := q,
      SpiRequested := of_nat N, SpiRemaining := 0, IsBusy := False\<rparr> \<and>
    smem s' = (if x_rx X = 0 then x_mem X else put (x_rx X) (x_replies ans X) (x_mem X)) \<and>
    view (core s') = (x_view X)\<lparr>ssel := SlaveSelectMask (x_inst X), ier := ier (x_view X) AND NOT 4,
      shifted := shifted (x_view X) @ map (Pair (ssel (x_view X))) (x_words X)\<rparr>"
proof -
  let ?c = "ctrl (x_view X)"
  obtain s0 h2 where e: "XSpi_InterruptHandler C (s\<lparr>core := h\<rparr>) = tx_empty_service C (s0\<lparr>core := h2\<rparr>)"
    and m0: "mid ans view X r N True s0" and v: "view h2 = (exchange ans (view (core s0)))\<lparr>txe := False\<rparr>"
    by (rule handler_mid [OF ok X m h])
  obtain s1 sr s2 d s3 where dr: "XSpi_GetControlReg C (s0\<lparr>core := h2\<rparr>) = (?c AND NOT 0x100, s1)"
    "XSpi_GetStatusReg C (XSpi_SetControlReg C ((?c AND NOT 0x100) OR 0x100) s1) = (sr, s2)"
    "drain_rx C 0 0 sr s2 = Some (d, 0 - of_nat (N - r), s3)" "mid ans view X N N False s3"
    using drain_mid [OF ok X m0 refl v, of 0 0] by blast
  note i = mid_instD [OF X dr(4)] and m' = dr(4) [unfolded mid_def]
  define h4 where "h4 = core_write C (base + 0x70) (SlaveSelectMask (x_inst X)) (core s3)"
  obtain y h5 where r5: "core_read C (base + 0x28) h4 = (y, h5)"
    by fastforce
  define h6 where "h6 = core_write C (base + 0x28) (y AND NOT 4) h5"
  have "view h4 = (view (core s3))\<lparr>ssel := SlaveSelectMask (x_inst X)\<rparr>" "y = ier (view h4)" "view h5 = view h4"
    "view h6 = (view h5)\<lparr>ier := y AND NOT 4\<rparr>"
    using core_okD(9) [OF ok] core_okD(2,5) [OF ok, of h4] core_okD(8) [OF ok] r5 by (simp_all add: h4_def h6_def)
  moreover have "view (core s3) = (x_view X)\<lparr>shifted := shifted (x_view X) @ map (Pair (ssel (x_view X))) (x_words X)\<rparr>"
    using m' N X by (simp add: xfer_ok_def)
  ultimately have v6: "view h6 = (x_view X)\<lparr>ssel := SlaveSelectMask (x_inst X), ier := ier (x_view X) AND NOT 4,
      shifted := shifted (x_view X) @ map (Pair (ssel (x_view X))) (x_words X)\<rparr>"
    by simp
  obtain st where inst: "inst s3 = (x_inst X)\<lparr>SpiStats := st, SendBufferPtr := x_tx X + of_nat N,
        RecvBufferPtr := (if x_rx X = 0 then 0 else x_rx X + of_nat N),
        SpiRequested := of_nat N, SpiRemaining := 0, IsBusy := True\<rparr>"
    using m' N by auto
  have "tx_empty_service C (s0\<lparr>core := h2\<rparr>) = Some (s3\<lparr>core := h6, inst := (inst s3)\<lparr>IsBusy := False\<rparr>, upper := u\<rparr>)"
    unfolding tx_empty_service_def using dr i m' N u r5
    by (simp add: XSpi_SetSlaveSelectReg_def XSpi_IntrDisable_def XSpi_ReadReg_def XSpi_WriteReg_def status_call_def
        h4_def h6_def)
  then show ?thesis
    unfolding e using m' v6 N
    by (intro exI [of _ "s3\<lparr>core := h6, inst := (inst s3)\<lparr>IsBusy := False\<rparr>, upper := u\<rparr>"] exI [of _ st] exI conjI)
      (auto simp: inst x_replies_def)
qed

lemma irq_chain:
  assumes ok: "spi_core_ok C base D view ans delay" and X: "xfer_ok base X"
    and m: "mid ans view X 0 (min D (length (x_words X))) True s0"
  shows "(irq_step C view delay ^^ k) s0 s \<Longrightarrow> k * D < length (x_words X) \<Longrightarrow>
    mid ans view X (k * D) (min (k * D + D) (length (x_words X))) True s"
proof (induction k arbitrary: s)
  case (Suc k)
  then obtain s1 where s1: "(irq_step C view delay ^^ k) s0 s1" and st: "irq_step C view delay s1 s"
    by auto
  from st obtain h where h: "view h = view (core s1)" "delay h = 0" "XSpi_InterruptHandler C (s1\<lparr>core := h\<rparr>) = Some s"
    unfolding irq_step_def by blast
  have D: "0 < D" and lt: "k * D + D < length (x_words X)"
    using core_okD(12) [OF ok] Suc.prems(2) by (simp_all add: add.commute)
  then have "mid ans view X (k * D) (k * D + D) True s1"
    using Suc.IH [OF s1] by (simp add: min_def)
  from handler_refills [OF ok X this _ h(1,2) lt] D h(3)
  have "mid ans view X (k * D + D) (k * D + D + min D (length (x_words X) - (k * D + D))) True s"
    by simp
  moreover have "k * D + D + min D (length (x_words X) - (k * D + D)) = min (Suc k * D + D) (length (x_words X))"
    using lt by (simp add: min_def) arith
  ultimately show ?case
    by (simp add: add.commute)
qed (use m in simp)

text \<open>The length divided by the depth of the FIFO, rounded up.\<close>

definition spi_interrupts :: "u32 \<Rightarrow> nat \<Rightarrow> nat" where
  "spi_interrupts n D = (unat n + D - 1) div D"

lemma spi_interrupts_bounds:
  assumes "0 < D" "0 < n"
  shows "k < spi_interrupts n D \<Longrightarrow> k * D < unat n" "0 < spi_interrupts n D"
    "unat n \<le> spi_interrupts n D * D"
proof -
  have n: "0 < unat n"
    using assms(2) by (simp add: unat_gt_0 word_gt_0)
  show "0 < spi_interrupts n D"
    using n assms(1) by (simp add: spi_interrupts_def div_greater_zero_iff)
  show "unat n \<le> spi_interrupts n D * D"
    using div_mult_mod_eq [of "unat n + D - 1" D] mod_less_divisor [OF assms(1), of "unat n + D - 1"] n
    unfolding spi_interrupts_def by linarith
  show "k * D < unat n" if "k < spi_interrupts n D"
  proof -
    have "Suc k * D \<le> unat n + D - 1"
      using that assms(1) unfolding spi_interrupts_def by (metis Suc_leI less_eq_div_iff_mult_less_eq)
    then show ?thesis
      using assms(1) n by simp
  qed
qed

lemma enable_mid:
  assumes ok: "spi_core_ok C base D view ans delay" and X: "xfer_ok base X" and m: "mid ans view X r t b s"
  shows "mid ans view (X\<lparr>x_view := (x_view X)\<lparr>ier := ier (x_view X) OR 4, gie := 0x80000000\<rparr>\<rparr>) r t b
    (XSpi_IntrGlobalEnable C (XSpi_IntrEnable C 4 s))"
proof -
  obtain y h1 where r: "core_read C (base + 0x28) (core s) = (y, h1)"
    by fastforce
  define h3 where "h3 = core_write C (base + 0x1C) 0x80000000 (core_write C (base + 0x28) (y OR 4) h1)"
  have "y = ier (x_view X)"
    using core_okD(5) [OF ok, of "core s"] r m by (simp add: mid_def)
  moreover have "view h1 = view (core s)"
    using core_okD(2) [OF ok, of "core s"] r by simp
  ultimately have "view h3 = (view (core s))\<lparr>ier := ier (x_view X) OR 4, gie := 0x80000000\<rparr>"
    using core_okD(7,8) [OF ok] by (simp add: h3_def)
  from mid_enable [OF m this] show ?thesis
    using r mid_instD(1) [OF X m]
    by (simp add: XSpi_IntrGlobalEnable_def XSpi_IntrEnable_def XSpi_ReadReg_def XSpi_WriteReg_def h3_def)
qed

text \<open>
  C20. An interrupt driven SPI transfer exchanges its buffers in as many interrupts as it takes to empty the FIFO.
  \<^verbatim>\<open>XSpi_Transfer\<close> returns with the transfer under way; until the last interrupt the status handler is not called
  and the handler returns; after \<open>spi_interrupts n D\<close> interrupts the exchange is complete, the status handler was
  called once with \<^verbatim>\<open>XST_SPI_TRANSFER_DONE\<close> (1152) and the length, and the transmit-empty interrupt is off.
\<close>

theorem spi_interrupt_exchange:
  assumes "spi_core_ok C base D view ans delay" "spi_idle base view s" "buffers_ok tx rx n"
    and "SlaveSelectReg (inst s) \<noteq> SlaveSelectMask (inst s)" "gie (view (core s)) = 0x80000000"
    and "StatusHandler (inst s) 1152 n (upper s) = Some u"
  shows "\<exists>s0. XSpi_Transfer C tx rx n s = Some (0, s0) \<and>
    (\<forall>k s'. k < spi_interrupts n D \<longrightarrow> (irq_step C view delay ^^ k) s0 s' \<longrightarrow>
       IsBusy (inst s') \<and> upper s' = upper s \<and>
       (\<forall>h. view h = view (core s') \<longrightarrow> delay h = 0 \<longrightarrow> XSpi_InterruptHandler C (s'\<lparr>core := h\<rparr>) \<noteq> None)) \<and>
    (\<forall>s'. (irq_step C view delay ^^ spi_interrupts n D) s0 s' \<longrightarrow>
       exchanged ans view tx rx n s s' \<and> \<not> IsBusy (inst s') \<and> upper s' = u \<and> \<not> bit (ier (view (core s'))) 2)"
proof -
  define X0 where "X0 = (xfer_of view tx rx n s)\<lparr>x_view := (view (core s))\<lparr>gie := 0, ssel := SlaveSelectReg (inst s)\<rparr>\<rparr>"
  define X where "X = X0\<lparr>x_view := (x_view X0)\<lparr>ier := ier (x_view X0) OR 4, gie := 0x80000000\<rparr>\<rparr>"
  have X0: "xfer_ok base X0"
    using xfer_ok_view [OF xfer_of_ok [OF assms(2,3)], where g = 0 and e = "ier (view (core s))" and l = "SlaveSelectReg (inst s)"]
    by (simp add: X0_def xfer_of_def)
  have X: "xfer_ok base X"
    using xfer_ok_view [OF X0, where g = "0x80000000" and e = "ier (x_view X0) OR 4" and l = "ssel (x_view X0)"]
    by (simp add: X_def)
  have x: "x_inst X = inst s" "x_rx X = rx" "x_words X = sent_words tx n s" "x_mem X = smem s" "x_upper X = upper s"
    "x_view X = (view (core s))\<lparr>ssel := SlaveSelectReg (inst s), ier := ier (view (core s)) OR 4, gie := 0x80000000\<rparr>"
    by (simp_all add: X_def X0_def xfer_of_def)
  have N: "length (x_words X) = unat n" and n: "0 < n"
    using assms(3) by (simp_all add: x buffers_ok_def)
  note D = core_okD(12) [OF assms(1)] and b = spi_interrupts_bounds [OF core_okD(12) [OF assms(1)] n]
  obtain s0 where t: "XSpi_Transfer C tx rx n s = Some (0, s0)" and m0: "mid ans view X 0 (min D (unat n)) True s0"
    using transfer_starts [OF assms(1-4) X0_def] assms(5) enable_mid [OF assms(1) X0] unfolding X_def by force
  note chain = irq_chain [OF assms(1) X m0 [folded N]]
  have u: "StatusHandler (x_inst X) 1152 (of_nat (unat n)) (x_upper X) = Some u"
    using assms(6) by (simp add: x)
  have mids: "mid ans view X (k * D) (min (k * D + D) (unat n)) True s'" "k * D < min (k * D + D) (unat n)"
    if "k < spi_interrupts n D" "(irq_step C view delay ^^ k) s0 s'" for k s'
    using chain [OF that(2)] b(1) [OF that(1)] D N by simp_all
  have returns: "XSpi_InterruptHandler C (s'\<lparr>core := h\<rparr>) \<noteq> None"
    if "k < spi_interrupts n D" "(irq_step C view delay ^^ k) s0 s'" "view h = view (core s')" "delay h = 0" for k s' h
  proof (cases "k * D + D < unat n")
    case True
    then show ?thesis
      using handler_refills [OF assms(1) X mids [OF that(1,2)] that(3,4)] N by auto
  next
    case False
    then have "min (k * D + D) (unat n) = unat n"
      by simp
    from mids [OF that(1,2), unfolded this] show ?thesis
      using handler_finishes [OF assms(1) X _ _ that(3,4) N [symmetric] u] by blast
  qed
  have final: "exchanged ans view tx rx n s s' \<and> \<not> IsBusy (inst s') \<and> upper s' = u \<and> \<not> bit (ier (view (core s'))) 2"
    if steps: "(irq_step C view delay ^^ spi_interrupts n D) s0 s'" for s'
  proof -
    obtain k where k: "spi_interrupts n D = Suc k"
      using b(2) gr0_implies_Suc by blast
    then obtain s1 where s0: "(irq_step C view delay ^^ k) s0 s1" "irq_step C view delay s1 s'"
      using steps by auto
    from s0(2) obtain h where s1: "view h = view (core s1)" "delay h = 0"
      "XSpi_InterruptHandler C (s1\<lparr>core := h\<rparr>) = Some s'"
      unfolding irq_step_def by blast
    have "mid ans view X (k * D) (unat n) True s1" "k * D < unat n"
      using mids [OF _ s0(1)] b(3) k by (simp_all add: min_def add.commute split: if_splits)
    from handler_finishes [OF assms(1) X this s1(1,2) N [symmetric] u] s1(3)
    show ?thesis
      unfolding x x_replies_def by (auto simp: exchanged_def bit_and_iff)
  qed
  have "IsBusy (inst s') \<and> upper s' = upper s" if "k < spi_interrupts n D" "(irq_step C view delay ^^ k) s0 s'" for k s'
    using mids(1) [OF that] by (auto simp: mid_def x)
  then show ?thesis
    using t returns final by blast
qed

subsection \<open>A controller for the examples\<close>

definition demo_answer :: "(u32 \<times> u32) list \<Rightarrow> u32" where
  "demo_answer hist = snd (last hist) + of_nat (length hist)"

definition demo_read :: "addr \<Rightarrow> spi_view \<times> nat \<Rightarrow> u32 \<times> spi_view \<times> nat" where
  "demo_read a = (\<lambda>(v, d).
     if a = 0x6232001C then (gie v, v, d)
     else if a = 0x62320028 then (ier v, v, d)
     else if a = 0x62320060 then (ctrl v, v, d)
     else if a = 0x62320064 then
       ((if rxf v = [] then if length (txf v) < 2 then 1 else 9 else if length (txf v) < 2 then 0 else 8), v, d)
     else if a = 0x6232006C then (case rxf v of [] \<Rightarrow> (0, v, d) | w # ws \<Rightarrow> (w, v\<lparr>rxf := ws\<rparr>, d))
     else if a = 0x62320020 then
       if running v \<and> txf v \<noteq> [] \<and> \<not> txe v then
         case d of 0 \<Rightarrow> (4, exchange demo_answer v, 1) | Suc d \<Rightarrow> (0, v, d)
       else (if txe v then 4 else 0, v, d)
     else (0, v, d))"

definition demo_write :: "addr \<Rightarrow> u32 \<Rightarrow> spi_view \<times> nat \<Rightarrow> spi_view \<times> nat" where
  "demo_write a w = (\<lambda>(v, d).
     if a = 0x6232001C then (v\<lparr>gie := w\<rparr>, d)
     else if a = 0x62320028 then (v\<lparr>ier := w\<rparr>, d)
     else if a = 0x62320070 then (v\<lparr>ssel := w\<rparr>, d)
     else if a = 0x62320060 then (v\<lparr>ctrl := w\<rparr>, d)
     else if a = 0x62320020 then (v\<lparr>txe := (txe v \<noteq> (w AND 4 \<noteq> 0))\<rparr>, d)
     else if a = 0x62320068 then (v\<lparr>txf := txf v @ [w]\<rparr>, d)
     else (v, d))"

definition demo_spi_core :: "(spi_view \<times> nat) spi_core" where
  "demo_spi_core = \<lparr>core_read = demo_read, core_write = demo_write\<rparr>"

lemma demo_core_ok: "spi_core_ok demo_spi_core 0x62320000 2 fst demo_answer snd"
  unfolding spi_core_ok_def
proof (intro conjI)
  show "regs_ok demo_spi_core 0x62320000 fst"
    by (auto simp: regs_ok_def demo_spi_core_def demo_read_def demo_write_def split: prod.splits)
  show "fifos_ok demo_spi_core 0x62320000 2 fst"
    by (auto simp: fifos_ok_def demo_spi_core_def demo_read_def demo_write_def split: prod.splits list.splits)
  show "shifts_ok demo_spi_core 0x62320000 fst demo_answer snd"
    by (auto simp: shifts_ok_def demo_spi_core_def demo_read_def split: prod.splits if_splits nat.splits)
qed

definition demo_spi :: "u32 \<Rightarrow> (u32 \<Rightarrow> u32 \<Rightarrow> 'u \<Rightarrow> 'u option) \<Rightarrow> 'u \<Rightarrow> (spi_view \<times> nat, 'u) spi" where
  "demo_spi g f u = \<lparr>inst = \<lparr>SpiStats = \<lparr>ModeFaults = 0, XmitUnderruns = 0, RecvOverruns = 0, SlaveModeFaults = 0,
       BytesTransferred = 0, NumInterrupts = 0\<rparr>, BaseAddr = 0x62320000, SpiReady = 0x11111111, IsStarted = 0x22222222,
       HasFifos = 0, SlaveOnly = 0, NumSlaveBits = 1, DataWidth = 8, SpiMode = 0, SlaveSelectMask = 1,
       SlaveSelectReg = 0xFFFFFFFE, SendBufferPtr = 0, RecvBufferPtr = 0, SpiRequested = 0, SpiRemaining = 0,
       IsBusy = False, StatusHandler = f, FlashBaseAddr = 0, XipMode = 0\<rparr>,
     core = (\<lparr>txf = [], rxf = [], ctrl = 0x186, gie = g, ier = 0x202B, ssel = 1, txe = False, shifted = []\<rparr>, 1),
     smem = (\<lambda>a. ucast a), upper = u\<rparr>"

lemma demo_idle: "spi_idle 0x62320000 fst (demo_spi g f u)"
  by (simp add: spi_idle_def demo_spi_def)

lemma same_buffer_ok: "p \<noteq> 0 \<Longrightarrow> 0 < n \<Longrightarrow> unat p + unat n < 2 ^ 32 \<Longrightarrow> buffers_ok p p n"
  unfolding buffers_ok_def
proof (intro conjI disjI2 allI impI)
  fix i j assume ij: "i < unat n" "j < i" and n: "unat p + unat n < 2 ^ 32"
  then have "unat (of_nat j :: u32) \<noteq> unat (of_nat i :: u32)"
    by (simp add: unat_of_nat_small)
  then show "p + of_nat j \<noteq> p + of_nat i"
    by auto
qed

text \<open>
  C19. A polled SPI transfer exchanges its buffers.  With a controller of any FIFO depth that is slow any
  number of times, \<^verbatim>\<open>XSpi_Transfer\<close> returns \<^verbatim>\<open>XST_SUCCESS\<close>; the bytes of the send buffer were shifted out in order
  with the selected slave select value, the answers are in the receive buffer (if there is one) and no
  other memory changed, also when both buffers are the same; the slave is deselected and the driver is ready
  for the next transfer.
\<close>

theorem spi_polled_exchange:
  assumes "spi_core_ok C base D view ans delay" "spi_idle base view s" "buffers_ok tx rx n"
    and "SlaveSelectReg (inst s) \<noteq> SlaveSelectMask (inst s)" "gie (view (core s)) \<noteq> 0x80000000"
  shows "\<exists>s'. XSpi_Transfer C tx rx n s = Some (0, s') \<and> exchanged ans view tx rx n s s' \<and>
    spi_idle base view s' \<and> ssel (view (core s')) = SlaveSelectMask (inst s) \<and> upper s' = upper s"
  using assms by (rule spi_polled_exchange_raw)

theorem spi_polled_exchange_witness:
  "\<exists>s'. XSpi_Transfer demo_spi_core 0x1010 0x1010 3 (demo_spi 0 StubStatusHandler ()) = Some (0, s') \<and>
     map (\<lambda>i. smem s' (0x1010 + i)) [0, 1, 2, 3] = [0x11, 0x13, 0x15, 0x13]"
proof -
  have b: "buffers_ok 0x1010 0x1010 3"
    by (rule same_buffer_ok) simp_all
  have "\<exists>s'. XSpi_Transfer demo_spi_core 0x1010 0x1010 3 (demo_spi 0 StubStatusHandler ()) = Some (0, s') \<and>
      exchanged demo_answer fst 0x1010 0x1010 3 (demo_spi 0 StubStatusHandler ()) s' \<and>
      spi_idle 0x62320000 fst s' \<and> ssel (fst (core s')) = SlaveSelectMask (inst (demo_spi 0 StubStatusHandler ())) \<and>
      upper s' = upper (demo_spi 0 StubStatusHandler ())"
    by (rule spi_polled_exchange [OF demo_core_ok demo_idle b]) (simp_all add: demo_spi_def)
  moreover have "sent_words 0x1010 3 (demo_spi 0 StubStatusHandler ()) = [0x10, 0x11, 0x12]"
    by (simp add: sent_words_def demo_spi_def upt_rec)
  ultimately show ?thesis
    by (auto simp: exchanged_def demo_spi_def demo_answer_def)
qed

definition count_calls :: "u32 \<Rightarrow> u32 \<Rightarrow> nat \<Rightarrow> nat option" where
  "count_calls e n u = Some (u + 1)"

theorem spi_interrupt_exchange_witness:
  "\<exists>s0 s1 s2. XSpi_Transfer demo_spi_core 0x1010 0x1010 3 (demo_spi 0x80000000 count_calls 0) = Some (0, s0) \<and>
     irq_step demo_spi_core fst snd s0 s1 \<and> upper s1 = 0 \<and> irq_step demo_spi_core fst snd s1 s2 \<and> upper s2 = 1 \<and>
     map (\<lambda>i. smem s2 (0x1010 + i)) [0, 1, 2, 3] = [0x11, 0x13, 0x15, 0x13]"
proof -
  let ?s = "demo_spi 0x80000000 count_calls 0" and ?R = "irq_step demo_spi_core fst snd"
  have b: "buffers_ok 0x1010 0x1010 3"
    by (rule same_buffer_ok) simp_all
  have two: "spi_interrupts 3 2 = 2"
    by (simp add: spi_interrupts_def)
  have "\<exists>s0. XSpi_Transfer demo_spi_core 0x1010 0x1010 3 ?s = Some (0, s0) \<and>
    (\<forall>k s'. k < spi_interrupts 3 2 \<longrightarrow> (?R ^^ k) s0 s' \<longrightarrow> IsBusy (inst s') \<and> upper s' = upper ?s \<and>
       (\<forall>h. fst h = fst (core s') \<longrightarrow> snd h = 0 \<longrightarrow> XSpi_InterruptHandler demo_spi_core (s'\<lparr>core := h\<rparr>) \<noteq> None)) \<and>
    (\<forall>s'. (?R ^^ spi_interrupts 3 2) s0 s' \<longrightarrow> exchanged demo_answer fst 0x1010 0x1010 3 ?s s' \<and>
       \<not> IsBusy (inst s') \<and> upper s' = 1 \<and> \<not> bit (ier (fst (core s'))) 2)"
    by (rule spi_interrupt_exchange [OF demo_core_ok demo_idle b]) (simp_all add: demo_spi_def count_calls_def)
  then obtain s0 where t: "XSpi_Transfer demo_spi_core 0x1010 0x1010 3 ?s = Some (0, s0)"
    and mid: "\<And>k s'. k < 2 \<Longrightarrow> (?R ^^ k) s0 s' \<Longrightarrow> upper s' = 0 \<and>
       (\<forall>h. fst h = fst (core s') \<longrightarrow> snd h = 0 \<longrightarrow> XSpi_InterruptHandler demo_spi_core (s'\<lparr>core := h\<rparr>) \<noteq> None)"
    and fin: "\<And>s'. (?R ^^ 2) s0 s' \<Longrightarrow> exchanged demo_answer fst 0x1010 0x1010 3 ?s s' \<and> upper s' = 1"
    unfolding two by (auto simp: demo_spi_def)
  have step: "\<exists>s''. ?R s' s''" if "k < 2" "(?R ^^ k) s0 s'" for k s'
    using mid [OF that] unfolding irq_step_def by (metis fst_conv option.exhaust snd_conv)
  obtain s1 where s1: "?R s0 s1"
    using step [of 0 s0] by auto
  then obtain s2 where s2: "?R s1 s2"
    using step [of 1 s1] by auto
  have p: "(?R ^^ 1) s0 s1" "(?R ^^ 2) s0 s2"
    using s1 s2 by (auto simp: numeral_2_eq_2)
  have "sent_words 0x1010 3 ?s = [0x10, 0x11, 0x12]"
    by (simp add: sent_words_def demo_spi_def upt_rec)
  then have "map (\<lambda>i. smem s2 (0x1010 + i)) [0, 1, 2, 3] = [0x11, 0x13, 0x15, 0x13]"
    using fin [OF p(2)] by (auto simp: exchanged_def demo_spi_def demo_answer_def)
  then show ?thesis
    using t s1 s2 mid [OF _ p(1)] fin [OF p(2)] by auto
qed

subsection \<open>The board support functions\<close>

lemma spi_transfer_polled:
  assumes "kernel_ok K" "unlocked K (skern (upper s))" "\<not> pending K (skern (upper s))" "smutex (upper s)"
    and "spi_core_ok C base D view ans delay" "spi_idle base view s" "buffers_ok tx rx (ucast len)"
    and "count_asserted (unat (NumSlaveBits (inst s))) (ucast slave) \<le> 1" "NOT (ucast slave) \<noteq> SlaveSelectMask (inst s)"
    and "gie (view (core s)) \<noteq> 0x80000000"
  shows "\<exists>s'. spi_transfer 0 K C slave tx rx len s = Some (- 1, s') \<and>
    exchanged ans view tx rx (ucast len) (s\<lparr>inst := (inst s)\<lparr>SlaveSelectReg := NOT (ucast slave)\<rparr>\<rparr>) s' \<and>
    spi_idle base view s' \<and> unlocked K (skern (upper s'))"
proof -
  obtain k where k: "SemaphoreTake K (skern (upper s)) = Some k"
    using assms(2) by (auto simp: unlocked_def)
  have p: "NotifyTake K k = None"
    using TakeD [OF assms(1) k] assms(3) by (simp add: pending_def)
  define s1 where "s1 = s\<lparr>upper := (upper s)\<lparr>skern := k\<rparr>, inst := (inst s)\<lparr>SlaveSelectReg := NOT (ucast slave)\<rparr>\<rparr>"
  define s2 where "s2 = s1\<lparr>upper := (upper s1)\<lparr>task_handle := True\<rparr>\<rparr>"
  have id: "SpiReady (inst s) = 0x11111111" "\<not> IsBusy (inst s)"
    using assms(6) by (simp_all add: spi_idle_def)
  then have sel: "XSpi_SetSlaveSelect (ucast slave) (s\<lparr>upper := (upper s)\<lparr>skern := k\<rparr>\<rparr>) = Some (0, s1)"
    using assms(8) by (simp add: XSpi_SetSlaveSelect_def halt_simps s1_def)
  have "\<exists>s3. XSpi_Transfer C tx rx (ucast len) s2 = Some (0, s3) \<and> exchanged ans view tx rx (ucast len) s2 s3 \<and>
    spi_idle base view s3 \<and> ssel (view (core s3)) = SlaveSelectMask (inst s2) \<and> upper s3 = upper s2"
    using assms by (intro spi_polled_exchange_raw) (simp_all add: s2_def s1_def spi_idle_def)
  then obtain s3 where t: "XSpi_Transfer C tx rx (ucast len) s2 = Some (0, s3)" "exchanged ans view tx rx (ucast len) s2 s3"
    "spi_idle base view s3" "upper s3 = upper s2"
    by blast
  have w: "spi_wait 0 K C s3 = Some (False, s3)"
    using p t(4) by (simp add: spi_wait.simps [of 0] s2_def s1_def)
  have d: "XSpi_SetSlaveSelect 0 s3 = Some (0, s3\<lparr>inst := (inst s3)\<lparr>SlaveSelectReg := - 1\<rparr>\<rparr>)"
  proof -
    have "count_asserted n 0 = 0" for n
      by (induction n) simp_all
    then show ?thesis
      using t(3) by (simp add: XSpi_SetSlaveSelect_def halt_simps spi_idle_def)
  qed
  have "spi_transfer 0 K C slave tx rx len s = Some (- 1, s3\<lparr>inst := (inst s3)\<lparr>SlaveSelectReg := - 1\<rparr>,
      upper := (upper s3)\<lparr>skern := SemaphoreGive K (skern (upper s3))\<rparr>\<rparr>)"
    using assms(4) k sel t(1) w d by (simp add: spi_transfer_def halt_simps s2_def)
  then show ?thesis
    using t(2,3) assms(1) by (auto simp: exchanged_def sent_words_def spi_idle_def s2_def s1_def)
qed

text \<open>
  In the configured polled mode \<^verbatim>\<open>spi1_transceive\<close> sends the receive buffer, overwrites the send buffer, and
  reports failure: the bytes shifted out are those at \<open>rx_buf\<close>, the answers are stored at \<open>tx_buf\<close>, and as no
  interrupt handler notifies the task the call runs into its time-out and returns -1 although the transfer
  is complete.
\<close>

theorem spi_transceive_swapped:
  assumes "kernel_ok K" "unlocked K (skern (upper s))" "\<not> pending K (skern (upper s))" "smutex (upper s)"
    and "spi_core_ok C base D view ans delay" "spi_idle base view s" "buffers_ok rx_buf tx_buf (ucast len)" "tx_buf \<noteq> 0"
    and "count_asserted (unat (NumSlaveBits (inst s))) (ucast slave) \<le> 1" "NOT (ucast slave) \<noteq> SlaveSelectMask (inst s)"
    and "gie (view (core s)) \<noteq> 0x80000000"
  shows "\<exists>s'. spi1_transceive 0 K C slave tx_buf rx_buf len s = Some (- 1, s') \<and>
    shifted (view (core s')) = shifted (view (core s)) @ map (Pair (NOT (ucast slave))) (sent_words rx_buf (ucast len) s) \<and>
    smem s' = put tx_buf (replies ans (NOT (ucast slave)) (shifted (view (core s))) (sent_words rx_buf (ucast len) s)) (smem s)"
proof -
  obtain s' where "spi_transfer 0 K C slave rx_buf tx_buf len s = Some (- 1, s')"
    "exchanged ans view rx_buf tx_buf (ucast len) (s\<lparr>inst := (inst s)\<lparr>SlaveSelectReg := NOT (ucast slave)\<rparr>\<rparr>) s'"
    using spi_transfer_polled [OF assms(1-7,9-)] by blast
  then show ?thesis
    using assms(8) by (auto simp: spi1_transceive_def exchanged_def sent_words_def)
qed

theorem spi_transceive_swapped_witness:
  "\<exists>s'. spi1_transceive 0 demo_kernel demo_spi_core 1 0x2000 0x1010 3
      (demo_spi 0 StubStatusHandler \<lparr>TotalTransactiondCount = 0, TotalErrorCount = 0, SpiErrors = 0, smutex = True,
        task_handle = False, skern = (False, False)\<rparr>) = Some (- 1, s') \<and>
     map (\<lambda>i. smem s' (0x2000 + i)) [0, 1, 2] = [0x11, 0x13, 0x15] \<and>
     map (\<lambda>i. smem s' (0x1010 + i)) [0, 1, 2] = [0x10, 0x11, 0x12]"
proof -
  let ?d = "\<lparr>TotalTransactiondCount = 0, TotalErrorCount = 0, SpiErrors = 0, smutex = True, task_handle = False,
    skern = (False, False)\<rparr>"
  let ?s = "demo_spi 0 StubStatusHandler ?d"
  have "\<forall>i < 3. \<forall>j < i. (0x2000 :: u32) + of_nat j \<noteq> 0x1010 + of_nat i"
  proof (intro allI impI)
    fix i j :: nat
    assume "i < 3" "j < i"
    then have "i = 1 \<and> j = 0 \<or> i = 2 \<and> j = 0 \<or> i = 2 \<and> j = 1"
      by auto
    then show "(0x2000 :: u32) + of_nat j \<noteq> 0x1010 + of_nat i"
      by auto
  qed
  then have b: "buffers_ok 0x1010 0x2000 (ucast (3 :: u8))"
    by (simp add: buffers_ok_def)
  have "\<exists>s'. spi1_transceive 0 demo_kernel demo_spi_core 1 0x2000 0x1010 3 ?s = Some (- 1, s') \<and>
    shifted (fst (core s')) = shifted (fst (core ?s)) @ map (Pair (NOT (ucast (1 :: u8)))) (sent_words 0x1010 (ucast (3 :: u8)) ?s) \<and>
    smem s' = put 0x2000 (replies demo_answer (NOT (ucast (1 :: u8))) (shifted (fst (core ?s)))
      (sent_words 0x1010 (ucast (3 :: u8)) ?s)) (smem ?s)"
    by (rule spi_transceive_swapped [OF demo_kernel_ok _ _ _ demo_core_ok demo_idle b])
      (simp_all add: demo_spi_def unlocked_def pending_def demo_kernel_def)
  moreover have "sent_words 0x1010 3 ?s = [0x10, 0x11, 0x12]"
    by (simp add: sent_words_def demo_spi_def upt_rec)
  ultimately show ?thesis
    by (auto simp: demo_spi_def demo_answer_def)
qed

text \<open>
  After \<^verbatim>\<open>XSpi_SetSlaveSelect(0)\<close> a transfer is not refused with \<^verbatim>\<open>XST_SPI_NO_SLAVE\<close>, because the register copy is
  all ones and the mask is not; the data is sent to nobody.
\<close>

lemma spi_deselected_transfer:
  assumes "spi_core_ok C base D view ans delay" "spi_idle base view s" "buffers_ok tx rx n"
    and "SlaveSelectMask (inst s) \<noteq> - 1" "gie (view (core s)) \<noteq> 0x80000000"
    and "XSpi_SetSlaveSelect 0 s = Some (0, s1)"
  shows "\<exists>s'. XSpi_Transfer C tx rx n s1 = Some (0, s') \<and>
    shifted (view (core s')) = shifted (view (core s)) @ map (Pair (- 1)) (sent_words tx n s)"
proof -
  have s1: "s1 = s\<lparr>inst := (inst s)\<lparr>SlaveSelectReg := - 1\<rparr>\<rparr>"
    using assms(6) by (auto simp: XSpi_SetSlaveSelect_def halt_simps split: if_splits)
  have "spi_idle base view s1" "SlaveSelectReg (inst s1) \<noteq> SlaveSelectMask (inst s1)" "gie (view (core s1)) \<noteq> 0x80000000"
    using assms by (auto simp: s1 spi_idle_def)
  from spi_polled_exchange_raw [OF assms(1) this(1) assms(3) this(2,3)] show ?thesis
    by (auto simp: exchanged_def sent_words_def s1)
qed

interpretation spi_op: balanced_op "\<lambda>K. spi_transfer n K C slave tx rx len" "\<lambda>s. skern (upper s)" for n C slave tx rx len
proof unfold_locales
  fix K :: "'a kernel" and s r s'
  assume "kernel_ok K" "spi_transfer n K C slave tx rx len s = Some (r, s')"
  then show "unlocked K (skern (upper s'))"
    by (auto simp: spi_transfer_def halt_simps Let_def bind_eq_Some_conv split: if_splits)
next
  fix K :: "'a kernel" and s :: "('b, 'a SpiDriver) spi"
  assume "\<not> unlocked K (skern (upper s))"
  then show "spi_transfer n K C slave tx rx len s = None"
    by (simp add: spi_transfer_def unlocked_def configASSERT_def)
qed

end
