(* ===== verification/Gpio.thy ===== *)
theory Gpio
  imports Mmio
begin

section \<open>General purpose pins and LEDs (bsp/gpio.c and bsp/xilinx/gpio)\<close>

text \<open>
  The Xilinx GPIO driver and the board support functions on its two channels: eight pins with a
  direction on channel 1 and eight LEDs on channel 2.  The state is the driver instance and the bus.

  The last section is the contract of the board support functions: they refine three sets, the pins that
  are inputs, the pins that are high and the LEDs that are lit.
\<close>

subsection \<open>The Xilinx driver\<close>

record XGpio_Config =
  CfgDeviceId :: u16
  CfgBaseAddress :: addr
  CfgInterruptPresent :: bool
  CfgIsDual :: bool

record XGpio =
  GpioBase :: addr
  GpioReady :: u32
  InterruptPresent :: bool
  IsDual :: bool

type_synonym gpio = "XGpio \<times> bus"

abbreviation (input) XGPIO_DATA_OFFSET :: addr where "XGPIO_DATA_OFFSET \<equiv> 0x0"
abbreviation (input) XGPIO_TRI_OFFSET :: addr where "XGPIO_TRI_OFFSET \<equiv> 0x4"
abbreviation (input) XGPIO_CHAN_OFFSET :: addr where "XGPIO_CHAN_OFFSET \<equiv> 8"
abbreviation (input) XGPIO_GIE_OFFSET :: addr where "XGPIO_GIE_OFFSET \<equiv> 0x11C"
abbreviation (input) XGPIO_ISR_OFFSET :: addr where "XGPIO_ISR_OFFSET \<equiv> 0x120"
abbreviation (input) XGPIO_IER_OFFSET :: addr where "XGPIO_IER_OFFSET \<equiv> 0x128"
abbreviation (input) XIL_COMPONENT_IS_READY :: u32 where "XIL_COMPONENT_IS_READY \<equiv> 0x11111111"

definition XGpio_WriteReg :: "addr \<Rightarrow> addr \<Rightarrow> u32 \<Rightarrow> bus \<Rightarrow> bus" where
  "XGpio_WriteReg base off v b = bus_write W32 (base + off) v b"

definition XGpio_ReadReg :: "addr \<Rightarrow> addr \<Rightarrow> bus \<Rightarrow> u32 \<times> bus" where
  "XGpio_ReadReg base off b = bus_read W32 (base + off) b"

definition XGpio_CfgInitialize :: "XGpio_Config \<Rightarrow> addr \<Rightarrow> XGpio \<Rightarrow> int \<times> XGpio" where
  "XGpio_CfgInitialize c EffectiveAddr g =
     (0, g\<lparr>GpioBase := EffectiveAddr, GpioReady := XIL_COMPONENT_IS_READY,
           InterruptPresent := CfgInterruptPresent c, IsDual := CfgIsDual c\<rparr>)"

definition XGpio_LookupConfig :: "XGpio_Config list \<Rightarrow> u16 \<Rightarrow> XGpio_Config option" where
  "XGpio_LookupConfig table i = find (\<lambda>c. CfgDeviceId c = i) table"

definition XGpio_Initialize :: "XGpio_Config list \<Rightarrow> u16 \<Rightarrow> XGpio \<Rightarrow> int \<times> XGpio" where
  "XGpio_Initialize table i g =
     (case XGpio_LookupConfig table i of
        None \<Rightarrow> (2, g\<lparr>GpioReady := 0\<rparr>)
      | Some c \<Rightarrow> XGpio_CfgInitialize c (CfgBaseAddress c) g)"

text \<open>The assertions on the instance and the channel.\<close>

definition channel_ok :: "XGpio \<Rightarrow> nat \<Rightarrow> bool" where
  "channel_ok g Channel \<longleftrightarrow> GpioReady g = XIL_COMPONENT_IS_READY \<and> (Channel = 1 \<or> Channel = 2 \<and> IsDual g)"

definition chan_reg :: "nat \<Rightarrow> addr \<Rightarrow> addr" where
  "chan_reg Channel off = of_nat (Channel - 1) * XGPIO_CHAN_OFFSET + off"

definition XGpio_SetDataDirection :: "nat \<Rightarrow> u32 \<Rightarrow> gpio \<Rightarrow> gpio option" where
  "XGpio_SetDataDirection Channel DirectionMask = (\<lambda>(g, b). do {
     configASSERT (channel_ok g Channel);
     Some (g, XGpio_WriteReg (GpioBase g) (chan_reg Channel XGPIO_TRI_OFFSET) DirectionMask b)})"

definition XGpio_GetDataDirection :: "nat \<Rightarrow> gpio \<Rightarrow> (u32 \<times> gpio) option" where
  "XGpio_GetDataDirection Channel = (\<lambda>(g, b). do {
     configASSERT (channel_ok g Channel);
     let (v, b) = XGpio_ReadReg (GpioBase g) (chan_reg Channel XGPIO_TRI_OFFSET) b;
     Some (v, g, b)})"

definition XGpio_DiscreteRead :: "nat \<Rightarrow> gpio \<Rightarrow> (u32 \<times> gpio) option" where
  "XGpio_DiscreteRead Channel = (\<lambda>(g, b). do {
     configASSERT (channel_ok g Channel);
     let (v, b) = XGpio_ReadReg (GpioBase g) (chan_reg Channel XGPIO_DATA_OFFSET) b;
     Some (v, g, b)})"

definition XGpio_DiscreteWrite :: "nat \<Rightarrow> u32 \<Rightarrow> gpio \<Rightarrow> gpio option" where
  "XGpio_DiscreteWrite Channel Data = (\<lambda>(g, b). do {
     configASSERT (channel_ok g Channel);
     Some (g, XGpio_WriteReg (GpioBase g) (chan_reg Channel XGPIO_DATA_OFFSET) Data b)})"

definition XGpio_DiscreteSet :: "nat \<Rightarrow> u32 \<Rightarrow> gpio \<Rightarrow> gpio option" where
  "XGpio_DiscreteSet Channel Mask = (\<lambda>(g, b). do {
     configASSERT (channel_ok g Channel);
     let (Current, b) = XGpio_ReadReg (GpioBase g) (chan_reg Channel XGPIO_DATA_OFFSET) b;
     Some (g, XGpio_WriteReg (GpioBase g) (chan_reg Channel XGPIO_DATA_OFFSET) (Current OR Mask) b)})"

definition XGpio_DiscreteClear :: "nat \<Rightarrow> u32 \<Rightarrow> gpio \<Rightarrow> gpio option" where
  "XGpio_DiscreteClear Channel Mask = (\<lambda>(g, b). do {
     configASSERT (channel_ok g Channel);
     let (Current, b) = XGpio_ReadReg (GpioBase g) (chan_reg Channel XGPIO_DATA_OFFSET) b;
     Some (g, XGpio_WriteReg (GpioBase g) (chan_reg Channel XGPIO_DATA_OFFSET) (Current AND NOT Mask) b)})"

definition XGpio_SelfTest :: "gpio \<Rightarrow> (int \<times> gpio) option" where
  "XGpio_SelfTest d = do {
     configASSERT (GpioReady (fst d) = XIL_COMPONENT_IS_READY);
     (_, d) \<leftarrow> XGpio_DiscreteRead 1 d;
     Some (0, d)}"

subsection \<open>Interrupts of the driver\<close>

definition intr_ok :: "XGpio \<Rightarrow> bool" where
  "intr_ok g \<longleftrightarrow> GpioReady g = XIL_COMPONENT_IS_READY \<and> InterruptPresent g"

definition XGpio_InterruptGlobalEnable :: "gpio \<Rightarrow> gpio option" where
  "XGpio_InterruptGlobalEnable = (\<lambda>(g, b). do {
     configASSERT (intr_ok g);
     Some (g, XGpio_WriteReg (GpioBase g) XGPIO_GIE_OFFSET 0x80000000 b)})"

definition XGpio_InterruptGlobalDisable :: "gpio \<Rightarrow> gpio option" where
  "XGpio_InterruptGlobalDisable = (\<lambda>(g, b). do {
     configASSERT (intr_ok g);
     Some (g, XGpio_WriteReg (GpioBase g) XGPIO_GIE_OFFSET 0 b)})"

definition XGpio_InterruptEnable :: "u32 \<Rightarrow> gpio \<Rightarrow> gpio option" where
  "XGpio_InterruptEnable Mask = (\<lambda>(g, b). do {
     configASSERT (intr_ok g);
     let (Register, b) = XGpio_ReadReg (GpioBase g) XGPIO_IER_OFFSET b;
     Some (g, XGpio_WriteReg (GpioBase g) XGPIO_IER_OFFSET (Register OR Mask) b)})"

definition XGpio_InterruptDisable :: "u32 \<Rightarrow> gpio \<Rightarrow> gpio option" where
  "XGpio_InterruptDisable Mask = (\<lambda>(g, b). do {
     configASSERT (intr_ok g);
     let (Register, b) = XGpio_ReadReg (GpioBase g) XGPIO_IER_OFFSET b;
     Some (g, XGpio_WriteReg (GpioBase g) XGPIO_IER_OFFSET (Register AND NOT Mask) b)})"

definition XGpio_InterruptClear :: "u32 \<Rightarrow> gpio \<Rightarrow> gpio option" where
  "XGpio_InterruptClear Mask = (\<lambda>(g, b). do {
     configASSERT (intr_ok g);
     let (Register, b) = XGpio_ReadReg (GpioBase g) XGPIO_ISR_OFFSET b;
     Some (g, XGpio_WriteReg (GpioBase g) XGPIO_ISR_OFFSET (Register AND Mask) b)})"

definition XGpio_InterruptGetEnabled :: "gpio \<Rightarrow> (u32 \<times> gpio) option" where
  "XGpio_InterruptGetEnabled = (\<lambda>(g, b). do {
     configASSERT (intr_ok g);
     let (v, b) = XGpio_ReadReg (GpioBase g) XGPIO_IER_OFFSET b;
     Some (v, g, b)})"

definition XGpio_InterruptGetStatus :: "gpio \<Rightarrow> (u32 \<times> gpio) option" where
  "XGpio_InterruptGetStatus = (\<lambda>(g, b). do {
     configASSERT (intr_ok g);
     let (v, b) = XGpio_ReadReg (GpioBase g) XGPIO_ISR_OFFSET b;
     Some (v, g, b)})"

subsection \<open>The board support functions\<close>

abbreviation (input) GPIO1_MAX :: u8 where "GPIO1_MAX \<equiv> 7"
abbreviation (input) LED_MAX :: u8 where "LED_MAX \<equiv> 7"

definition pin_bit :: "u8 \<Rightarrow> u32" where
  "pin_bit i = push_bit (unat i) 1"

definition gpio_init :: "XGpio_Config list \<Rightarrow> gpio \<Rightarrow> gpio option" where
  "gpio_init table = (\<lambda>(g, b). do {
     let (st, g) = XGpio_Initialize table 0 g;
     configASSERT (st = 0);
     Some (g, b)})"

definition gpio_set_as_output :: "u8 \<Rightarrow> gpio \<Rightarrow> gpio option" where
  "gpio_set_as_output i d = do {
     configASSERT (i \<le> GPIO1_MAX);
     (m, d) \<leftarrow> XGpio_GetDataDirection 1 d;
     XGpio_SetDataDirection 1 (m AND NOT (pin_bit i)) d}"

definition gpio_set_as_input :: "u8 \<Rightarrow> gpio \<Rightarrow> gpio option" where
  "gpio_set_as_input i d = do {
     configASSERT (i \<le> GPIO1_MAX);
     (m, d) \<leftarrow> XGpio_GetDataDirection 1 d;
     XGpio_SetDataDirection 1 (m OR pin_bit i) d}"

definition gpio_write :: "u8 \<Rightarrow> gpio \<Rightarrow> gpio option" where
  "gpio_write i d = do {
     configASSERT (i \<le> GPIO1_MAX);
     (m, d) \<leftarrow> XGpio_DiscreteRead 1 d;
     XGpio_DiscreteWrite 1 (m OR pin_bit i) d}"

definition gpio_clear :: "u8 \<Rightarrow> gpio \<Rightarrow> gpio option" where
  "gpio_clear i d = do {
     configASSERT (i \<le> GPIO1_MAX);
     (m, d) \<leftarrow> XGpio_DiscreteRead 1 d;
     XGpio_DiscreteWrite 1 (m AND NOT (pin_bit i)) d}"

definition gpio_read :: "u8 \<Rightarrow> gpio \<Rightarrow> (u8 \<times> gpio) option" where
  "gpio_read i d = do {
     configASSERT (i \<le> GPIO1_MAX);
     (v, d) \<leftarrow> XGpio_DiscreteRead 1 d;
     Some (ucast (drop_bit (unat i) v AND 1), d)}"

definition led_write :: "u8 \<Rightarrow> gpio \<Rightarrow> gpio option" where
  "led_write i d = do {
     configASSERT (i \<le> LED_MAX);
     (m, d) \<leftarrow> XGpio_DiscreteRead 2 d;
     XGpio_DiscreteWrite 2 (m OR pin_bit i) d}"

definition led_clear :: "u8 \<Rightarrow> gpio \<Rightarrow> gpio option" where
  "led_clear i d = do {
     configASSERT (i \<le> LED_MAX);
     (m, d) \<leftarrow> XGpio_DiscreteRead 2 d;
     XGpio_DiscreteWrite 2 (m AND NOT (pin_bit i)) d}"

subsection \<open>The abstract pins\<close>

text \<open>Calls of the board support functions, and what each means for the three sets.\<close>

datatype gpio_call = Set_out u8 | Set_in u8 | Raise u8 | Lower u8 | Light u8 | Dark u8

record pins =
  inputs :: "nat set"
  high :: "nat set"
  lit :: "nat set"

fun call_pin :: "gpio_call \<Rightarrow> u8" where
  "call_pin (Set_out i) = i" | "call_pin (Set_in i) = i" | "call_pin (Raise i) = i"
| "call_pin (Lower i) = i" | "call_pin (Light i) = i" | "call_pin (Dark i) = i"

fun do_call :: "gpio_call \<Rightarrow> gpio \<Rightarrow> gpio option" where
  "do_call (Set_out i) = gpio_set_as_output i"
| "do_call (Set_in i) = gpio_set_as_input i"
| "do_call (Raise i) = gpio_write i"
| "do_call (Lower i) = gpio_clear i"
| "do_call (Light i) = led_write i"
| "do_call (Dark i) = led_clear i"

fun pins_call :: "gpio_call \<Rightarrow> pins \<Rightarrow> pins" where
  "pins_call (Set_out i) p = p\<lparr>inputs := inputs p - {unat i}\<rparr>"
| "pins_call (Set_in i) p = p\<lparr>inputs := insert (unat i) (inputs p)\<rparr>"
| "pins_call (Raise i) p = p\<lparr>high := insert (unat i) (high p)\<rparr>"
| "pins_call (Lower i) p = p\<lparr>high := high p - {unat i}\<rparr>"
| "pins_call (Light i) p = p\<lparr>lit := insert (unat i) (lit p)\<rparr>"
| "pins_call (Dark i) p = p\<lparr>lit := lit p - {unat i}\<rparr>"

fun do_calls :: "gpio_call list \<Rightarrow> gpio \<Rightarrow> gpio option" where
  "do_calls [] d = Some d"
| "do_calls (c # cs) d = do {d \<leftarrow> do_call c d; do_calls cs d}"

definition bits_of :: "u32 \<Rightarrow> nat set" where
  "bits_of w = {n. bit w n}"

definition pins_of :: "gpio \<Rightarrow> pins" where
  "pins_of = (\<lambda>(g, b). \<lparr>inputs = bits_of (cells b (GpioBase g + 4)), high = bits_of (cells b (GpioBase g)),
     lit = bits_of (cells b (GpioBase g + 8))\<rparr>)"

text \<open>Both channels exist and their registers hold what is written to them.\<close>

definition gpio_ok :: "gpio \<Rightarrow> bool" where
  "gpio_ok = (\<lambda>(g, b). GpioReady g = XIL_COMPONENT_IS_READY \<and> IsDual g \<and>
     plain b (GpioBase g) \<and> plain b (GpioBase g + 4) \<and> plain b (GpioBase g + 8))"

lemmas gpio_defs = gpio_set_as_output_def gpio_set_as_input_def gpio_write_def gpio_clear_def led_write_def led_clear_def
  XGpio_GetDataDirection_def XGpio_SetDataDirection_def XGpio_DiscreteRead_def XGpio_DiscreteWrite_def
  XGpio_ReadReg_def XGpio_WriteReg_def channel_ok_def chan_reg_def

lemma bits_of_set: "i \<le> 7 \<Longrightarrow> bits_of (w OR pin_bit i) = insert (unat i) (bits_of w)"
  by (auto simp: bits_of_def pin_bit_def bit_simps word_le_nat_alt)

lemma bits_of_clear: "i \<le> 7 \<Longrightarrow> bits_of (w AND NOT (pin_bit i)) = bits_of w - {unat i}"
  using bit_imp_le_length [of w] by (auto simp: bits_of_def pin_bit_def bit_simps word_le_nat_alt)

lemma do_call_refines:
  assumes "gpio_ok d"
  shows "do_call c d = None \<longleftrightarrow> \<not> call_pin c \<le> 7"
    "do_call c d = Some d' \<Longrightarrow> gpio_ok d' \<and> pins_of d' = pins_call c (pins_of d) \<and>
       (\<forall>a. a \<notin> {GpioBase (fst d), GpioBase (fst d) + 4, GpioBase (fst d) + 8} \<longrightarrow> cells (snd d') a = cells (snd d) a) \<and>
       fst d' = fst d"
  using assms
  by (cases d; cases c; auto simp: gpio_ok_def gpio_defs halt_simps bus_read_plain pins_of_def bits_of_set bits_of_clear
      plain_def Let_def split: if_splits)+

lemma do_calls_None: "gpio_ok d \<Longrightarrow> do_calls cs d = None \<longleftrightarrow> \<not> (\<forall>c \<in> set cs. call_pin c \<le> 7)"
proof (induction cs arbitrary: d)
  case (Cons c cs)
  then show ?case
    using do_call_refines [OF Cons.prems, of c] by (cases "do_call c d") auto
qed simp

lemma do_calls_refines:
  "gpio_ok d \<Longrightarrow> do_calls cs d = Some d' \<Longrightarrow> gpio_ok d' \<and> pins_of d' = fold pins_call cs (pins_of d) \<and>
     (\<forall>a. a \<notin> {GpioBase (fst d), GpioBase (fst d) + 4, GpioBase (fst d) + 8} \<longrightarrow> cells (snd d') a = cells (snd d) a)"
proof (induction cs arbitrary: d)
  case (Cons c cs)
  then obtain d1 where d1: "do_call c d = Some d1" "do_calls cs d1 = Some d'"
    by (auto simp: bind_eq_Some_conv)
  show ?case
    using Cons.IH [OF _ d1(2)] do_call_refines(2) [OF Cons.prems(1) d1(1)] by auto
qed simp

lemma gpio_read_pin:
  assumes "gpio_ok d" "i \<le> 7"
  shows "map_option fst (gpio_read i d) = Some (if unat i \<in> high (pins_of d) then 1 else 0)"
proof -
  obtain g b where d: "d = (g, b)"
    by fastforce
  have "(ucast (drop_bit (unat i) (cells b (GpioBase g)) AND 1) :: u8) = (if bit (cells b (GpioBase g)) (unat i) then 1 else 0)"
    by (auto simp: and_one_eq even_drop_bit_iff_not_bit mod_2_eq_odd)
  then show ?thesis
    using assms by (simp add: d gpio_ok_def gpio_read_def gpio_defs halt_simps bus_read_plain pins_of_def bits_of_def)
qed

text \<open>
  C22. The pin and LED functions act on single bits.  Any sequence of calls returns exactly if all its
  indices are at most 7; then the pins that are inputs, the pins that are high and the LEDs that are lit are
  those of the abstract calls, no other register changed, and \<^verbatim>\<open>gpio_read\<close> tells whether a pin is high.
\<close>

theorem gpio_refines_pins:
  assumes "gpio_ok d"
  shows "if \<forall>c \<in> set cs. call_pin c \<le> 7 then
      \<exists>d'. do_calls cs d = Some d' \<and> pins_of d' = fold pins_call cs (pins_of d) \<and>
        (\<forall>a. a \<notin> {GpioBase (fst d), GpioBase (fst d) + 4, GpioBase (fst d) + 8} \<longrightarrow> cells (snd d') a = cells (snd d) a) \<and>
        (\<forall>i \<le> 7. map_option fst (gpio_read i d') = Some (if unat i \<in> high (pins_of d') then 1 else 0))
    else do_calls cs d = None"
proof (cases "\<forall>c \<in> set cs. call_pin c \<le> 7")
  case True
  then obtain d' where "do_calls cs d = Some d'"
    using do_calls_None [OF assms] by fastforce
  moreover note do_calls_refines [OF assms this]
  ultimately show ?thesis
    using True gpio_read_pin [of d'] by simp
qed (use do_calls_None [OF assms] in auto)

definition demo_gpio :: gpio where
  "demo_gpio = (\<lparr>GpioBase = 0x62330000, GpioReady = 0x11111111, InterruptPresent = False, IsDual = True\<rparr>,
     \<lparr>cells = (\<lambda>_. 0xFF), feed = (\<lambda>_. []), events = []\<rparr>)"

theorem gpio_refines_pins_witness:
  "\<exists>d'. do_calls [Set_out 3, Lower 3, Dark 0] demo_gpio = Some d' \<and> 3 \<notin> inputs (pins_of d') \<and>
     map_option fst (gpio_read 3 d') = Some 0 \<and> map_option fst (gpio_read 4 d') = Some 1 \<and>
     lit (pins_of d') = bits_of 0xFF - {0}"
proof -
  have "gpio_ok demo_gpio"
    by (simp add: gpio_ok_def demo_gpio_def plain_def)
  then obtain d' where d': "do_calls [Set_out 3, Lower 3, Dark 0] demo_gpio = Some d'"
    "pins_of d' = fold pins_call [Set_out 3, Lower 3, Dark 0] (pins_of demo_gpio)"
    "\<forall>i \<le> 7. map_option fst (gpio_read i d') = Some (if unat i \<in> high (pins_of d') then 1 else 0)"
    using gpio_refines_pins [of demo_gpio "[Set_out 3, Lower 3, Dark 0]"] by auto
  have p: "pins_of demo_gpio = \<lparr>inputs = bits_of 0xFF, high = bits_of 0xFF, lit = bits_of 0xFF\<rparr>"
    by (simp add: pins_of_def demo_gpio_def)
  have four: "(4 :: nat) \<in> bits_of 0xFF"
    by (simp add: bits_of_def)
  have "map_option fst (gpio_read 3 d') = Some 0" "map_option fst (gpio_read 4 d') = Some 1"
    using d'(3) [rule_format, of 3] d'(3) [rule_format, of 4] p four unfolding d'(2) by simp_all
  then show ?thesis
    using d'(1,2) p by simp
qed

end
