(* ===== verification/UartIntr.thy ===== *)
theory UartIntr
  imports Uart_Props
begin

section \<open>The serial port with interrupts (xuartns550_intr.c, xuartns550_format.c)\<close>

text \<open>
  The interrupt handlers of the 16550 driver and the data formats.  The handler of the application is
  a function on the state of the upper layer, \<open>uupper\<close>; \<open>ustored\<close> are the bytes the receive handlers stored in the
  buffer of the application.  The table of handlers has 13 entries and is indexed with four bits of the
  interrupt identification: a null entry fails an assertion, and for an index past the end nothing can be
  said, so that both are \<open>None\<close>.
\<close>

record 'u uart_sys =
  udev :: uart_dev
  UHandler :: "u32 \<Rightarrow> u32 \<Rightarrow> 'u \<Rightarrow> 'u option"
  uupper :: 'u
  ustored :: "u8 list"

abbreviation (input) XUN_EVENT_RECV_DATA :: u32 where "XUN_EVENT_RECV_DATA \<equiv> 1"
abbreviation (input) XUN_EVENT_RECV_TIMEOUT :: u32 where "XUN_EVENT_RECV_TIMEOUT \<equiv> 2"
abbreviation (input) XUN_EVENT_SENT_DATA :: u32 where "XUN_EVENT_SENT_DATA \<equiv> 3"
abbreviation (input) XUN_EVENT_RECV_ERROR :: u32 where "XUN_EVENT_RECV_ERROR \<equiv> 4"
abbreviation (input) XUN_EVENT_MODEM :: u32 where "XUN_EVENT_MODEM \<equiv> 5"

text \<open>The handler before one is installed: calling it fails an assertion.\<close>

definition XUartNs550_StubHandler :: "u32 \<Rightarrow> u32 \<Rightarrow> 'u \<Rightarrow> 'u option" where
  "XUartNs550_StubHandler Event ByteCount u = None"

definition XUartNs550_SetHandler :: "(u32 \<Rightarrow> u32 \<Rightarrow> 'u \<Rightarrow> 'u option) \<Rightarrow> 'u uart_sys \<Rightarrow> 'u uart_sys option" where
  "XUartNs550_SetHandler FuncPtr s = do {
     configASSERT (IsReady (fst (udev s)) = XIL_COMPONENT_IS_READY);
     Some (s\<lparr>UHandler := FuncPtr\<rparr>)}"

definition call_handler :: "u32 \<Rightarrow> u32 \<Rightarrow> 'u uart_sys \<Rightarrow> 'u uart_sys option" where
  "call_handler Event EventData s = do {
     u \<leftarrow> UHandler s Event EventData (uupper s);
     Some (s\<lparr>uupper := u\<rparr>)}"

definition count_stat :: "(XUartNs550Stats \<Rightarrow> XUartNs550Stats) \<Rightarrow> 'u uart_sys \<Rightarrow> 'u uart_sys" where
  "count_stat f s = s\<lparr>udev := ((fst (udev s))\<lparr>Stats := f (Stats (fst (udev s)))\<rparr>, snd (udev s))\<rparr>"

definition read_status :: "'u uart_sys \<Rightarrow> 'u uart_sys" where
  "read_status s =
     (let (u, b) = udev s;
          (LsrRegister, b) = XUartNs550_ReadReg (BaseAddress u) XUN_LSR_OFFSET b
      in s\<lparr>udev := (XUartNs550_UpdateStats (ucast LsrRegister) u, b)\<rparr>)"

definition NoInterruptHandler :: "'u uart_sys \<Rightarrow> 'u uart_sys option" where
  "NoInterruptHandler s = Some (read_status s)"

text \<open>Receiving into the rest of the buffer.\<close>

definition receive_more :: "'u uart_sys \<Rightarrow> 'u uart_sys option" where
  "receive_more s = do {
     (got, d) \<leftarrow> XUartNs550_ReceiveBuffer (udev s);
     Some (s\<lparr>udev := d, ustored := ustored s @ got\<rparr>)}"

definition recv_remaining :: "'u uart_sys \<Rightarrow> u32" where
  "recv_remaining s = RemainingBytes (ReceiveBuffer (fst (udev s)))"

definition recv_count :: "'u uart_sys \<Rightarrow> u32" where
  "recv_count s = RequestedBytes (ReceiveBuffer (fst (udev s))) - recv_remaining s"

definition ReceiveStatusHandler :: "'u uart_sys \<Rightarrow> 'u uart_sys option" where
  "ReceiveStatusHandler s = do {
     s \<leftarrow> (if recv_remaining s \<noteq> 0 then receive_more s else Some (read_status s));
     s \<leftarrow> call_handler XUN_EVENT_RECV_ERROR (recv_count s) s;
     Some (count_stat (StatusInterrupts_update (\<lambda>n. n + 1)) s)}"

definition ReceiveTimeoutHandler :: "'u uart_sys \<Rightarrow> 'u uart_sys option" where
  "ReceiveTimeoutHandler s = do {
     s \<leftarrow> (if recv_remaining s \<noteq> 0 then receive_more s else Some s);
     s \<leftarrow> call_handler (if recv_remaining s \<noteq> 0 then XUN_EVENT_RECV_TIMEOUT else XUN_EVENT_RECV_DATA) (recv_count s) s;
     Some (count_stat (ReceiveInterrupts_update (\<lambda>n. n + 1)) s)}"

definition ReceiveDataHandler :: "'u uart_sys \<Rightarrow> 'u uart_sys option" where
  "ReceiveDataHandler s = do {
     s \<leftarrow> (if recv_remaining s \<noteq> 0 then receive_more s else Some s);
     s \<leftarrow> call_handler (if recv_remaining s \<noteq> 0 then XUN_EVENT_RECV_TIMEOUT else XUN_EVENT_RECV_DATA) (recv_count s) s;
     Some (count_stat (ReceiveInterrupts_update (\<lambda>n. n + 1)) s)}"

definition SendDataHandler :: "'u uart_sys \<Rightarrow> 'u uart_sys option" where
  "SendDataHandler s = do {
     let (u, b) = udev s;
     s \<leftarrow> (if RemainingBytes (SendBuffer u) = 0 then
            let (IerRegister, b) = XUartNs550_ReadReg (BaseAddress u) XUN_IER_OFFSET b;
                b = XUartNs550_WriteReg (BaseAddress u) XUN_IER_OFFSET (IerRegister AND NOT XUN_IER_TX_EMPTY) b
            in call_handler XUN_EVENT_SENT_DATA
                 (RequestedBytes (SendBuffer u) - RemainingBytes (SendBuffer u)) (s\<lparr>udev := (u, b)\<rparr>)
          else Some (s\<lparr>udev := snd (XUartNs550_SendBuffer (u, b))\<rparr>));
     Some (count_stat (TransmitInterrupts_update (\<lambda>n. n + 1)) s)}"

definition ModemHandler :: "'u uart_sys \<Rightarrow> 'u uart_sys option" where
  "ModemHandler s = do {
     let (u, b) = udev s;
     let (MsrRegister, b) = XUartNs550_ReadReg (BaseAddress u) XUN_MSR_OFFSET b;
     s \<leftarrow> call_handler XUN_EVENT_MODEM (MsrRegister AND 0xff) (s\<lparr>udev := (u, b)\<rparr>);
     Some (count_stat (ModemInterrupts_update (\<lambda>n. n + 1)) s)}"

definition HandlerTable :: "('u uart_sys \<Rightarrow> 'u uart_sys option) option list" where
  "HandlerTable = [Some ModemHandler, Some NoInterruptHandler, Some SendDataHandler, None, Some ReceiveDataHandler, None,
     Some ReceiveStatusHandler, None, None, None, None, None, Some ReceiveTimeoutHandler]"

definition XUartNs550_InterruptHandler :: "'u uart_sys \<Rightarrow> 'u uart_sys option" where
  "XUartNs550_InterruptHandler s = do {
     let (u, b) = udev s;
     let (v, b) = XUartNs550_ReadReg (BaseAddress u) XUN_IIR_OFFSET b;
     let IsrStatus = unat (v AND 0xF);
     let s = s\<lparr>udev := (u, b)\<rparr>;
     if IsrStatus < 13 then (case HandlerTable ! IsrStatus of None \<Rightarrow> None | Some h \<Rightarrow> h s) else None}"

subsection \<open>Data formats\<close>

record XUartNs550Format =
  FmtBaudRate :: u32
  DataBits :: u32
  Parity :: u32
  StopBits :: u8

definition format_bits :: "XUartNs550Format \<Rightarrow> u32 \<Rightarrow> u32" where
  "format_bits F LcrRegister =
     (let LcrRegister = (LcrRegister AND NOT 0x3) OR DataBits F;
          LcrRegister = (if StopBits F = 1 then LcrRegister OR 0x4 else LcrRegister AND NOT 0x4);
          LcrRegister = LcrRegister AND NOT 0x18
      in if Parity F \<noteq> 0 then
           let LcrRegister = LcrRegister OR 0x8 in if Parity F = 2 then LcrRegister OR 0x10 else LcrRegister
         else LcrRegister)"

definition XUartNs550_SetDataFormat :: "XUartNs550Format \<Rightarrow> uart_dev \<Rightarrow> (int \<times> uart_dev) option" where
  "XUartNs550_SetDataFormat F d =
     (if DataBits F > 3 \<or> Parity F > 2 \<or> StopBits F \<noteq> 1 \<and> StopBits F \<noteq> 0 then Some (15, d)
      else do {
        (Status, u, b) \<leftarrow> XUartNs550_SetBaudRate (FmtBaudRate F) d;
        if Status \<noteq> 0 then Some (Status, u, b)
        else do {
          let (LcrRegister, b) = XUartNs550_ReadReg (BaseAddress u) XUN_LCR_OFFSET b;
          Some (0, u, XUartNs550_WriteReg (BaseAddress u) XUN_LCR_OFFSET (format_bits F LcrRegister) b)}})"

definition XUartNs550_GetDataFormat :: "uart_dev \<Rightarrow> (XUartNs550Format \<times> uart_dev) option" where
  "XUartNs550_GetDataFormat = (\<lambda>(u, b). do {
     configASSERT (IsReady u = XIL_COMPONENT_IS_READY);
     let (LcrRegister, b) = XUartNs550_ReadReg (BaseAddress u) XUN_LCR_OFFSET b;
     Some (\<lparr>FmtBaudRate = BaudRate u, DataBits = LcrRegister AND 0x3,
            Parity = (if LcrRegister AND 0x8 = 0 then 0 else if LcrRegister AND 0x10 \<noteq> 0 then 2 else 1),
            StopBits = (if LcrRegister AND 0x4 \<noteq> 0 then 1 else 0)\<rparr>, u, b)})"

subsection \<open>Sending with interrupts\<close>

text \<open>
  An application that records the events, and the steps of the system: the hardware changes its registers
  at will, and the interrupt handler runs.
\<close>

definition record_event :: "u32 \<Rightarrow> u32 \<Rightarrow> (u32 \<times> u32) list \<Rightarrow> (u32 \<times> u32) list option" where
  "record_event e d l = Some (l @ [(e, d)])"

type_synonym uart_app = "(u32 \<times> u32) list uart_sys"

definition with_regs :: "(addr \<Rightarrow> u32) \<Rightarrow> (addr \<Rightarrow> u32 list) \<Rightarrow> 'u uart_sys \<Rightarrow> 'u uart_sys" where
  "with_regs c f s = s\<lparr>udev := (fst (udev s), (snd (udev s))\<lparr>cells := c, feed := f\<rparr>)\<rparr>"

definition uart_irq :: "uart_app \<Rightarrow> uart_app \<Rightarrow> bool" where
  "uart_irq s t \<longleftrightarrow> (\<exists>c f. XUartNs550_InterruptHandler (with_regs c f s) = Some t)"

text \<open>\<open>p\<close> is being sent, \<open>w\<close> was sent before; nothing was reported while bytes are left.\<close>

definition sending :: "addr \<Rightarrow> u32 list \<Rightarrow> u8 list \<Rightarrow> uart_app \<Rightarrow> bool" where
  "sending base w p s \<longleftrightarrow>
     (let u = fst (udev s); sb = SendBuffer u; j = length p - unat (RemainingBytes sb) in
      BaseAddress u = base \<and> UHandler s = record_event \<and> length p < 2 ^ 31 \<and>
      RequestedBytes sb = of_nat (length p) \<and> unat (RemainingBytes sb) \<le> length p \<and> NextBytePtr sb = drop j p \<and>
      thr_writes base (snd (udev s)) = w @ map ucast (take j p) \<and>
      (\<forall>d. (3, d) \<in> set (uupper s) \<longrightarrow> RemainingBytes sb = 0 \<and> d = of_nat (length p)))"

lemma thr_writes_regs [simp]: "thr_writes base (b\<lparr>cells := c, feed := f\<rparr>) = thr_writes base b"
  by (simp add: thr_writes_def)

lemma sending_regs [simp]: "sending base w p (with_regs c f s) = sending base w p s"
  by (simp add: sending_def with_regs_def Let_def)

lemma sending_bus:
  "sending base w p s \<Longrightarrow> thr_writes base b = thr_writes base (snd (udev s)) \<Longrightarrow> sending base w p (s\<lparr>udev := (fst (udev s), b)\<rparr>)"
  by (auto simp: sending_def Let_def)

lemma sending_count: "sending base w p s \<Longrightarrow> sending base w p (count_stat f s)"
  by (auto simp: sending_def count_stat_def Let_def)

lemma sending_event:
  assumes "sending base w p s" "call_handler e d s = Some t" "e = 3 \<Longrightarrow> RemainingBytes (SendBuffer (fst (udev s))) = 0 \<and> d = of_nat (length p)"
  shows "sending base w p t"
  using assms by (auto simp: sending_def call_handler_def record_event_def Let_def)

lemma sending_status: "sending base w p s \<Longrightarrow> sending base w p (read_status s)"
  by (auto simp: sending_def read_status_def uart_reg_defs XUartNs550_UpdateStats_def Let_def split_beta)

definition same_tx :: "addr \<Rightarrow> uart_dev \<Rightarrow> uart_dev \<Rightarrow> bool" where
  "same_tx base d d' \<longleftrightarrow> SendBuffer (fst d') = SendBuffer (fst d) \<and> BaseAddress (fst d') = BaseAddress (fst d) \<and>
     thr_writes base (snd d') = thr_writes base (snd d)"

lemma UpdateStats_keeps [simp]:
  "SendBuffer (XUartNs550_UpdateStats l u) = SendBuffer u" "BaseAddress (XUartNs550_UpdateStats l u) = BaseAddress u"
  by (simp_all add: XUartNs550_UpdateStats_def Let_def)

lemma recv_loop_keeps:
  assumes "recv_loop n acc d = Some r"
  shows "same_tx base d (snd r)"
proof (rule recv_loop.raw_induct [where P = "\<lambda>n acc d r. same_tx base d (snd r)", OF _ assms])
  fix rl n acc d r
  assume IH: "\<And>n acc d r. rl n acc d = Some r \<Longrightarrow> same_tx base d (snd r)"
    and body: "(case d of (u, b) \<Rightarrow>
      if length acc < unat n then
        case XUartNs550_ReadReg (BaseAddress u) XUN_LSR_OFFSET b of (lsr, b) \<Rightarrow>
          if lsr AND XUN_LSR_BREAK_INT \<noteq> 0 then
            case XUartNs550_ReadReg (BaseAddress u) XUN_RBR_OFFSET b of (_, b) \<Rightarrow>
              rl n acc (XUartNs550_UpdateStats (ucast lsr) u, b)
          else if lsr AND XUN_LSR_DATA_READY \<noteq> 0 then
            case XUartNs550_ReadReg (BaseAddress u) XUN_RBR_OFFSET b of (c, b) \<Rightarrow>
              rl n (acc @ [ucast c]) (XUartNs550_UpdateStats (ucast lsr) u, b)
          else Some (acc, u, b)
      else Some (acc, u, b)) = Some r"
  show "same_tx base d (snd r)"
    using body by (cases d) (auto simp: uart_reg_defs same_tx_def [of base "(_, _)"] split_beta split: if_splits
      dest!: IH [unfolded same_tx_def])
qed

lemma sending_receive:
  assumes "sending base w p s" "receive_more s = Some t"
  shows "sending base w p t"
proof -
  obtain got u b where r: "recv_loop (RemainingBytes (ReceiveBuffer (fst (udev s)))) [] (udev s) = Some (got, u, b)"
    using assms(2) by (auto simp: receive_more_def XUartNs550_ReceiveBuffer_def bind_eq_Some_conv)
  then show ?thesis
    using assms recv_loop_keeps [OF r, of base]
    by (auto simp: receive_more_def XUartNs550_ReceiveBuffer_def same_tx_def sending_def Let_def)
qed

lemma sending_more:
  assumes "sending base w p s" "RemainingBytes (SendBuffer (fst (udev s))) \<noteq> 0"
  shows "sending base w p (s\<lparr>udev := snd (XUartNs550_SendBuffer (udev s))\<rparr>)"
proof -
  obtain u b where d: "udev s = (u, b)"
    by fastforce
  define n where "n = RemainingBytes (SendBuffer u)"
  define L where "L = fst (bus_read W32 (base + 0x14) b)"
  define b1 where "b1 = snd (bus_read W32 (base + 0x14) b)"
  define I where "I = fst (bus_read W32 (base + 8) b1)"
  define k where "k = (if L AND 0x20 \<noteq> 0 then bytes_to_send L I n else 0)"
  have base: "BaseAddress u = base"
    using assms(1) by (simp add: sending_def d Let_def)
  obtain u' b' where e: "XUartNs550_SendBuffer (u, b) = (k, u', b')"
    "SendBuffer u' = (SendBuffer u)\<lparr>NextBytePtr := drop (unat k) (NextBytePtr (SendBuffer u)), RemainingBytes := n - k\<rparr>"
    "BaseAddress u' = base" "thr_writes base b' = thr_writes base b @ map (\<lambda>i. ucast (NextBytePtr (SendBuffer u) ! i)) [0..<unat k]"
    by (auto simp: XUartNs550_SendBuffer_def uart_reg_defs Let_def split_beta L_def I_def b1_def k_def n_def base fill_fifo_effect)
  have n: "n \<noteq> 0" and le: "unat n \<le> length p" and nb: "NextBytePtr (SendBuffer u) = drop (length p - unat n) p"
    using assms by (simp_all add: sending_def d n_def Let_def)
  have k: "unat k \<le> unat n"
    using bytes_to_send_bounds(2) [of n L I] n by (auto simp: k_def word_gt_0 word_le_nat_alt)
  define j where "j = length p - unat n"
  have nk: "length p - unat (n - k) = j + unat k" "unat (n - k) \<le> length p"
    using le k by (auto simp: unat_sub word_le_nat_alt j_def)
  have "map (\<lambda>i. ucast (drop j p ! i)) [0..<unat k] = map ucast (take (unat k) (drop j p))"
    using le k by (intro nth_equalityI) (auto simp: j_def)
  then have thr: "thr_writes base b' = w @ map ucast (take (j + unat k) p)"
    using assms(1) e(4) nb by (simp add: sending_def d Let_def n_def [symmetric] j_def [symmetric] take_add)
  show ?thesis
    using assms(1) e(1-3) thr nk nb n
    by (auto simp: sending_def d Let_def n_def [symmetric] j_def [symmetric] add.commute)
qed

lemma InterruptHandler_table:
  assumes "udev s = (u, b)"
  shows "XUartNs550_InterruptHandler s =
    (let i = unat (fst (bus_read W32 (BaseAddress u + 8) b) AND 0xF); s1 = s\<lparr>udev := (u, snd (bus_read W32 (BaseAddress u + 8) b))\<rparr>
     in if i < 13 then case HandlerTable ! i of None \<Rightarrow> None | Some h \<Rightarrow> h s1 else None)"
  by (cases "bus_read W32 (BaseAddress u + 8) b")
    (simp add: XUartNs550_InterruptHandler_def uart_reg_defs assms Let_def)

lemma sending_step:
  assumes "sending base w p s" "XUartNs550_InterruptHandler s = Some t"
  shows "sending base w p t"
proof -
  obtain u b where d: "udev s = (u, b)"
    by fastforce
  define s1 where "s1 = s\<lparr>udev := (u, snd (bus_read W32 (BaseAddress u + 8) b))\<rparr>"
  have s1: "sending base w p s1"
    using sending_bus [OF assms(1), of "snd (bus_read W32 (BaseAddress u + 8) b)"] by (simp add: s1_def d)
  obtain i where i: "i < 13" and h: "(case HandlerTable ! i of None \<Rightarrow> None | Some h \<Rightarrow> h s1) = Some t"
    using assms(2) that unfolding InterruptHandler_table [OF d] s1_def [symmetric] Let_def by (auto split: if_splits)
  have rd: "sending base w p (s1\<lparr>udev := (fst (udev s1), snd (bus_read W32 a b0))\<rparr>)" if "b0 = snd (udev s1)" for a b0
    using that by (intro sending_bus [OF s1]) simp
  have "i \<in> {0, 1, 2, 4, 6, 12}"
    using i h by (auto simp: HandlerTable_def nth_Cons' split: if_splits)
  then consider "ModemHandler s1 = Some t" | "NoInterruptHandler s1 = Some t" | "SendDataHandler s1 = Some t" |
    "ReceiveDataHandler s1 = Some t" | "ReceiveStatusHandler s1 = Some t" | "ReceiveTimeoutHandler s1 = Some t"
    using h by (auto simp: HandlerTable_def)
  then show ?thesis
  proof cases
    case 1
    then show ?thesis
      using rd by (auto simp: ModemHandler_def uart_reg_defs split_beta bind_eq_Some_conv Let_def
        intro!: sending_count elim!: sending_event [rotated])
  next
    case 2
    then show ?thesis
      using s1 by (auto simp: NoInterruptHandler_def intro: sending_status)
  next
    case 3
    show ?thesis
    proof (cases "RemainingBytes (SendBuffer (fst (udev s1))) = 0")
      case True
      define b1 where "b1 = bus_write W32 (base + 4) (fst (bus_read W32 (base + 4) (snd (udev s1))) AND NOT 2)
        (snd (bus_read W32 (base + 4) (snd (udev s1))))"
      have "BaseAddress (fst (udev s1)) = base" "RequestedBytes (SendBuffer (fst (udev s1))) = of_nat (length p)"
        using s1 by (simp_all add: sending_def Let_def)
      then obtain s2 where s2: "call_handler 3 (of_nat (length p)) (s1\<lparr>udev := (fst (udev s1), b1)\<rparr>) = Some s2"
        "t = count_stat (TransmitInterrupts_update (\<lambda>n. n + 1)) s2"
        using 3 True by (auto simp: SendDataHandler_def uart_reg_defs split_beta bind_eq_Some_conv Let_def b1_def)
      have "sending base w p (s1\<lparr>udev := (fst (udev s1), b1)\<rparr>)"
        by (rule sending_bus [OF s1]) (simp add: b1_def)
      from sending_event [OF this s2(1)] show ?thesis
        unfolding s2(2) using True by (intro sending_count) simp
    next
      case False
      then show ?thesis
        using 3 sending_more [OF s1 False]
        by (auto simp: SendDataHandler_def split_beta Let_def intro!: sending_count)
    qed
  qed (auto simp: ReceiveDataHandler_def ReceiveStatusHandler_def ReceiveTimeoutHandler_def bind_eq_Some_conv
      intro!: sending_count sending_status s1 elim!: sending_event [rotated] sending_receive [OF s1] split: if_splits)
qed

text \<open>Interrupts of an empty transmitter: each sends more bytes, or reports the end.\<close>

definition tx_regs :: "addr \<Rightarrow> (addr \<Rightarrow> u32) \<times> (addr \<Rightarrow> u32 list) \<Rightarrow> bool" where
  "tx_regs base = (\<lambda>(c, f). c (base + 8) AND 0xF = 2 \<and> c (base + 0x14) AND 0x20 \<noteq> 0 \<and> f (base + 8) = [] \<and> f (base + 0x14) = [])"

fun uart_irqs :: "((addr \<Rightarrow> u32) \<times> (addr \<Rightarrow> u32 list)) list \<Rightarrow> uart_app \<Rightarrow> uart_app option" where
  "uart_irqs [] s = Some s"
| "uart_irqs ((c, f) # rs) s = do {s \<leftarrow> XUartNs550_InterruptHandler (with_regs c f s); uart_irqs rs s}"

abbreviation (input) left_to_send :: "uart_app \<Rightarrow> u32" where
  "left_to_send s \<equiv> RemainingBytes (SendBuffer (fst (udev s)))"

lemma SendBuffer_remaining:
  assumes "fst (bus_read W32 (BaseAddress u + 0x14) b) AND 0x20 \<noteq> 0" "RemainingBytes (SendBuffer u) \<noteq> 0"
  shows "unat (RemainingBytes (SendBuffer (fst (snd (XUartNs550_SendBuffer (u, b)))))) < unat (RemainingBytes (SendBuffer u))"
proof -
  define n where "n = RemainingBytes (SendBuffer u)"
  have "0 < bytes_to_send L I n" "bytes_to_send L I n \<le> n" for L I
    using bytes_to_send_bounds [of n L I] assms(2) by (auto simp: n_def word_gt_0)
  then have "unat (n - bytes_to_send L I n) < unat n" for L I
    by (simp add: unat_sub word_less_nat_alt word_le_nat_alt diff_less order.strict_trans2 [of 0 "unat (bytes_to_send L I n)"])
  then show ?thesis
    using assms by (auto simp: XUartNs550_SendBuffer_def uart_reg_defs Let_def split_beta n_def)
qed

lemma tx_interrupt_progress:
  assumes "sending base w p s" "tx_regs base (c, f)"
  obtains t where "XUartNs550_InterruptHandler (with_regs c f s) = Some t" "sending base w p t"
    "if left_to_send s = 0 then uupper t = uupper s @ [(3, of_nat (length p))] else unat (left_to_send t) < unat (left_to_send s)"
proof -
  obtain u b where d: "udev s = (u, b)"
    by fastforce
  have s: "BaseAddress u = base" "UHandler s = record_event" "RequestedBytes (SendBuffer u) = of_nat (length p)"
    using assms(1) by (simp_all add: sending_def d Let_def)
  define b0 where "b0 = b\<lparr>cells := c, feed := f\<rparr>"
  define b1 where "b1 = snd (bus_read W32 (base + 8) b0)"
  have d0: "udev (with_regs c f s) = (u, b0)"
    by (simp add: with_regs_def d b0_def)
  have iir: "unat (fst (bus_read W32 (base + 8) b0) AND 0xF) = 2"
    using assms(2) by (simp add: tx_regs_def bus_read_val b0_def)
  have lsr: "fst (bus_read W32 (BaseAddress u + 0x14) b1) AND 0x20 \<noteq> 0"
    using assms(2) by (simp add: tx_regs_def bus_read_val b0_def b1_def s)
  define s1 where "s1 = with_regs c f s\<lparr>udev := (u, b1)\<rparr>"
  have d1: "udev s1 = (u, b1)" "UHandler s1 = record_event" "uupper s1 = uupper s"
    by (simp_all add: s1_def with_regs_def s)
  have h: "XUartNs550_InterruptHandler (with_regs c f s) = SendDataHandler s1"
    unfolding InterruptHandler_table [OF d0] s(1) iir Let_def b1_def [symmetric] s1_def [symmetric]
    by (simp add: HandlerTable_def)
  obtain t where t: "SendDataHandler s1 = Some t"
    "if left_to_send s = 0 then uupper t = uupper s @ [(3, of_nat (length p))] else unat (left_to_send t) < unat (left_to_send s)"
    using SendBuffer_remaining [OF lsr] s(3)
    by (cases "left_to_send s = 0")
      (auto simp: SendDataHandler_def d d1 split_beta call_handler_def record_event_def count_stat_def uart_reg_defs Let_def)
  show ?thesis
    using that [OF _ _ t(2)] sending_step [of base w p "with_regs c f s" t] h t(1) assms(1) by simp
qed

lemma sent_event_kept:
  assumes "sending base w p s" "tx_regs base (c, f)" "XUartNs550_InterruptHandler (with_regs c f s) = Some t"
    "(3, of_nat (length p)) \<in> set (uupper s)"
  shows "(3, of_nat (length p)) \<in> set (uupper t)"
proof -
  have "left_to_send s = 0"
    using assms(1,4) by (auto simp: sending_def Let_def)
  then show ?thesis
    using assms(3) by (auto intro: tx_interrupt_progress [OF assms(1,2)])
qed

lemma tx_interrupts_finish:
  assumes "sending base w p s" "\<forall>r\<in>set rs. tx_regs base r"
    "unat (left_to_send s) < length rs \<or> (3, of_nat (length p)) \<in> set (uupper s)"
  shows "\<exists>t. uart_irqs rs s = Some t \<and> sending base w p t \<and> (3, of_nat (length p)) \<in> set (uupper t)"
  using assms
proof (induction rs arbitrary: s)
  case (Cons r rs)
  obtain c f where r: "r = (c, f)"
    by fastforce
  obtain t where t: "XUartNs550_InterruptHandler (with_regs c f s) = Some t" "sending base w p t"
    "if left_to_send s = 0 then uupper t = uupper s @ [(3, of_nat (length p))] else unat (left_to_send t) < unat (left_to_send s)"
    using Cons.prems(2) by (auto simp: r intro: tx_interrupt_progress [OF Cons.prems(1)])
  have "unat (left_to_send t) < length rs \<or> (3, of_nat (length p)) \<in> set (uupper t)"
    using Cons.prems t(3) sent_event_kept [OF Cons.prems(1) _ t(1)] by (auto simp: r split: if_splits)
  then show ?case
    using Cons.IH [OF t(2)] Cons.prems(2) t(1) by (simp add: r)
qed auto

lemma send_starts_sending:
  assumes "IsReady (fst (udev s)) = XIL_COMPONENT_IS_READY" "UHandler s = record_event" "\<forall>d. (3, d) \<notin> set (uupper s)"
    "p \<noteq> []" "length p < 2 ^ 31"
  shows "\<exists>k d. XUartNs550_Send p (of_nat (length p)) (udev s) = Some (k, d) \<and>
    sending (BaseAddress (fst (udev s))) (thr_writes (BaseAddress (fst (udev s))) (snd (udev s))) p (s\<lparr>udev := d\<rparr>)"
proof -
  obtain u b where d: "udev s = (u, b)"
    by fastforce
  define base where "base = BaseAddress u"
  define n :: u32 where "n = of_nat (length p)"
  have n: "unat n = length p" "n \<noteq> 0" "0 \<le> sint n"
    using assms(4,5) sint_unat_small [of n] by (auto simp: n_def unat_of_nat take_bit_nat_eq_self unat_eq_0 [symmetric])
  define b1 where "b1 = bus_write W32 (base + 4) (fst (bus_read W32 (base + 4) b) AND NOT 2) (snd (bus_read W32 (base + 4) b))"
  define s1 where "s1 = s\<lparr>udev := (u\<lparr>SendBuffer := \<lparr>NextBytePtr = p, RequestedBytes = n, RemainingBytes = n\<rparr>\<rparr>, b1)\<rparr>"
  have send: "XUartNs550_Send p n (udev s) = Some (XUartNs550_SendBuffer (udev s1))"
    using assms(1) n(3)
    by (simp add: XUartNs550_Send_def d halt_simps uart_reg_defs split_beta Let_def s1_def b1_def base_def)
  have "sending base (thr_writes base b) p s1"
    using assms n by (auto simp: sending_def s1_def Let_def base_def n_def b1_def)
  moreover obtain k d where kd: "XUartNs550_SendBuffer (udev s1) = (k, d)"
    by (metis surj_pair)
  ultimately have "sending base (thr_writes base b) p (s1\<lparr>udev := d\<rparr>)"
    using sending_more [of base "thr_writes base b" p s1] n(2) by (simp add: s1_def)
  moreover have "s1\<lparr>udev := d\<rparr> = s\<lparr>udev := d\<rparr>"
    by (simp add: s1_def)
  ultimately show ?thesis
    unfolding d fst_conv snd_conv base_def [symmetric] n_def [symmetric]
    using send by (intro exI [of _ k] exI [of _ d]) (simp add: d kd)
qed

interpretation uart_sender: inv_system "sending base w p" uart_irq "sending base w p"
  by unfold_locales (auto simp: uart_irq_def intro: sending_step [of base w p "with_regs _ _ _"])

text \<open>C21. Sending with interrupts: once a buffer was handed to a ready driver, whatever the registers hold
  at each interrupt, the bytes given to the transmitter are a prefix of the buffer, in order, and the
  application is told that the data was sent only when it is the whole buffer, and with its length.  As
  many interrupts of an empty transmitter as there are bytes left, and one more, send them all and report it.\<close>

theorem uart_interrupt_send:
  assumes "IsReady (fst (udev s)) = XIL_COMPONENT_IS_READY" "UHandler s = record_event" "\<forall>d. (3, d) \<notin> set (uupper s)"
    "p \<noteq> []" "length p < 2 ^ 31" "base = BaseAddress (fst (udev s))"
  shows "\<exists>k d. XUartNs550_Send p (of_nat (length p)) (udev s) = Some (k, d) \<and>
    (\<forall>t. uart_irq\<^sup>*\<^sup>* (s\<lparr>udev := d\<rparr>) t \<longrightarrow>
      (\<exists>j. thr_writes base (snd (udev t)) = thr_writes base (snd (udev s)) @ map ucast (take j p) \<and>
        (\<forall>e. (3, e) \<in> set (uupper t) \<longrightarrow> e = of_nat (length p) \<and> length p \<le> j))) \<and>
    (\<forall>rs. (\<forall>r\<in>set rs. tx_regs base r) \<and> length p < length rs \<longrightarrow>
      (\<exists>t. uart_irqs rs (s\<lparr>udev := d\<rparr>) = Some t \<and> (3, of_nat (length p)) \<in> set (uupper t) \<and>
        thr_writes base (snd (udev t)) = thr_writes base (snd (udev s)) @ map ucast p))"
proof -
  let ?w = "thr_writes base (snd (udev s))"
  obtain k d where send: "XUartNs550_Send p (of_nat (length p)) (udev s) = Some (k, d)" and i: "sending base ?w p (s\<lparr>udev := d\<rparr>)"
    using send_starts_sending [OF assms(1-5)] by (auto simp: assms(6))
  have prefix: "\<exists>j. thr_writes base (snd (udev t)) = ?w @ map ucast (take j p) \<and>
      (\<forall>e. (3, e) \<in> set (uupper t) \<longrightarrow> e = of_nat (length p) \<and> length p \<le> j)" if "sending base ?w p t" for t
    using that by (intro exI [of _ "length p - unat (left_to_send t)"]) (auto simp: sending_def Let_def)
  have all: "thr_writes base (snd (udev t)) = ?w @ map ucast p" if "sending base ?w p t" "(3, of_nat (length p)) \<in> set (uupper t)" for t
    using that by (auto simp: sending_def Let_def)
  have "unat (left_to_send (s\<lparr>udev := d\<rparr>)) < length rs" if "length p < length rs" for rs :: "'r list"
    using i that by (simp add: sending_def Let_def)
  then have "\<exists>t. uart_irqs rs (s\<lparr>udev := d\<rparr>) = Some t \<and> (3, of_nat (length p)) \<in> set (uupper t) \<and>
      thr_writes base (snd (udev t)) = ?w @ map ucast p" if "\<forall>r\<in>set rs. tx_regs base r" "length p < length rs" for rs
    using tx_interrupts_finish [OF i that(1)] that(2) all by blast
  moreover have "\<exists>j. thr_writes base (snd (udev t)) = ?w @ map ucast (take j p) \<and>
      (\<forall>e. (3, e) \<in> set (uupper t) \<longrightarrow> e = of_nat (length p) \<and> length p \<le> j)" if "uart_irq\<^sup>*\<^sup>* (s\<lparr>udev := d\<rparr>) t" for t
    by (rule prefix [OF uart_sender.steps_inv [OF that i]])
  ultimately show ?thesis
    using send by (intro exI [of _ k] exI [of _ d]) simp
qed

definition demo_app :: uart_app where
  "demo_app = \<lparr>udev = (demo_port, regs (demo_uart (\<lambda>_. []))), UHandler = record_event, uupper = [], ustored = []\<rparr>"

definition demo_regs :: "(addr \<Rightarrow> u32) \<times> (addr \<Rightarrow> u32 list)" where
  "demo_regs = (\<lambda>a. if a = 0x62300008 then 2 else if a = 0x62300014 then 0x60 else 0, \<lambda>_. [])"

theorem uart_interrupt_send_witness:
  "\<exists>k d t. XUartNs550_Send [72, 105] 2 (udev demo_app) = Some (k, d) \<and>
    uart_irqs (replicate 3 demo_regs) (demo_app\<lparr>udev := d\<rparr>) = Some t \<and> (3, 2) \<in> set (uupper t) \<and>
    thr_writes 0x62300000 (snd (udev t)) = [72, 105]"
proof -
  have p: "IsReady (fst (udev demo_app)) = XIL_COMPONENT_IS_READY" "UHandler demo_app = record_event"
    "\<forall>d. (3, d) \<notin> set (uupper demo_app)" "[72, 105] \<noteq> ([] :: u8 list)" "length [72, 105 :: u8] < 2 ^ 31"
    "0x62300000 = BaseAddress (fst (udev demo_app))"
    by (simp_all add: demo_app_def demo_port_def)
  have r: "\<forall>r\<in>set (replicate 3 demo_regs). tx_regs 0x62300000 r"
    by (simp add: demo_regs_def tx_regs_def)
  have w: "thr_writes 0x62300000 (snd (udev demo_app)) = []"
    by (simp add: demo_app_def demo_uart_def thr_writes_def)
  obtain k d where kd: "XUartNs550_Send [72, 105] (of_nat (length [72, 105 :: u8])) (udev demo_app) = Some (k, d)"
    "\<forall>rs. (\<forall>r\<in>set rs. tx_regs 0x62300000 r) \<and> length [72, 105 :: u8] < length rs \<longrightarrow>
      (\<exists>t. uart_irqs rs (demo_app\<lparr>udev := d\<rparr>) = Some t \<and> (3, of_nat (length [72, 105 :: u8])) \<in> set (uupper t) \<and>
        thr_writes 0x62300000 (snd (udev t)) = thr_writes 0x62300000 (snd (udev demo_app)) @ map ucast [72, 105 :: u8])"
    using uart_interrupt_send [OF p] by auto
  from kd(2) [rule_format, of "replicate 3 demo_regs"] r
  obtain t where "uart_irqs (replicate 3 demo_regs) (demo_app\<lparr>udev := d\<rparr>) = Some t"
    "(3, 2) \<in> set (uupper t)" "thr_writes 0x62300000 (snd (udev t)) = [72, 105]"
    by (auto simp: w)
  then show ?thesis
    using kd(1) by auto
qed

subsection \<open>Data formats are read back\<close>

lemma write_divisor_plain: "plain b a \<Longrightarrow> plain (write_divisor base d b) a"
  by (simp add: write_divisor_def uart_reg_defs Let_def split_beta)

lemma small_u32:
  assumes "(w :: u32) \<le> 3"
  shows "w = 0 \<or> w = 1 \<or> w = 2 \<or> w = 3"
proof -
  have "unat w = 0 \<or> unat w = 1 \<or> unat w = 2 \<or> unat w = 3"
    using assms by (auto simp: word_le_nat_alt)
  then show ?thesis
    by (auto simp: word_unat_eq_iff)
qed

lemma format_bits_read:
  assumes "DataBits F \<le> 3" "Parity F \<le> 2"
  shows "format_bits F l AND 3 = DataBits F"
    "(format_bits F l AND 8 = 0) = (Parity F = 0)" "Parity F \<noteq> 0 \<Longrightarrow> (format_bits F l AND 0x10 = 0) = (Parity F \<noteq> 2)"
    "(format_bits F l AND 4 = 0) = (StopBits F \<noteq> 1)"
  using small_u32 [OF assms(1)]
  by (auto simp: format_bits_def Let_def bit.conj_disj_distrib2 and.assoc)

text \<open>A data format that the driver accepts is read back unchanged: word length, parity, stop bits and baud rate.\<close>

theorem uart_format_roundtrip:
  assumes "IsReady u = XIL_COMPONENT_IS_READY" "plain b (BaseAddress u + 0xC)"
    "DataBits F \<le> 3" "Parity F \<le> 2" "StopBits F \<le> 1"
    "XUartNs550_SetBaudRate (FmtBaudRate F) (u, b) = Some (0, u1, b1)"
  shows "\<exists>d d'. XUartNs550_SetDataFormat F (u, b) = Some (0, d) \<and> XUartNs550_GetDataFormat d = Some (F, d')"
proof -
  have u1: "u1 = u\<lparr>BaudRate := FmtBaudRate F\<rparr>" and p1: "plain b1 (BaseAddress u + 0xC)"
    using assms(1,2,6) by (auto simp: XUartNs550_SetBaudRate_def Let_def write_divisor_plain split: if_splits)
  have sb: "StopBits F = 0 \<or> StopBits F = 1"
    using assms(5) by (auto simp: word_le_nat_alt word_unat_eq_iff)
  have pb: "Parity F = 0 \<or> Parity F = 1 \<or> Parity F = 2"
    using assms(4) by (auto simp: word_le_nat_alt word_unat_eq_iff)
  obtain v b2 where r: "bus_read W32 (BaseAddress u + 0xC) b1 = (v, b2)" "plain b2 (BaseAddress u + 0xC)"
    using plain_bus_read [OF p1] by (metis prod.collapse)
  define d where "d = (u1, bus_write W32 (BaseAddress u + 0xC) (format_bits F v) b2)"
  have s: "XUartNs550_SetDataFormat F (u, b) = Some (0, d)"
    using assms(3-6) sb r by (auto simp: XUartNs550_SetDataFormat_def uart_reg_defs u1 d_def)
  have "\<exists>d'. XUartNs550_GetDataFormat d = Some (F, d')"
    using assms(1) r(2) format_bits_read [OF assms(3,4), of v] sb pb
    by (auto simp: XUartNs550_GetDataFormat_def d_def u1 uart_reg_defs bus_read_plain halt_simps)
  with s show ?thesis
    by blast
qed

theorem uart_format_roundtrip_witness:
  "\<exists>d d'. XUartNs550_SetDataFormat \<lparr>FmtBaudRate = 115200, DataBits = 2, Parity = 2, StopBits = 1\<rparr> (udev demo_app) = Some (0, d) \<and>
    XUartNs550_GetDataFormat d = Some (\<lparr>FmtBaudRate = 115200, DataBits = 2, Parity = 2, StopBits = 1\<rparr>, d')"
proof -
  have "plain (snd (udev demo_app)) (BaseAddress demo_port + 0xC)"
    by (simp add: demo_app_def demo_uart_def plain_def)
  moreover have "XUartNs550_SetBaudRate 115200 (demo_port, snd (udev demo_app)) =
      Some (0, demo_port\<lparr>BaudRate := 115200\<rparr>, write_divisor 0x62300000 45 (snd (udev demo_app)))"
    by (simp add: XUartNs550_SetBaudRate_def demo_port_def halt_simps baud_divisor_def)
  ultimately show ?thesis
    using uart_format_roundtrip [of demo_port "snd (udev demo_app)" "\<lparr>FmtBaudRate = 115200, DataBits = 2, Parity = 2, StopBits = 1\<rparr>"]
    by (simp add: demo_app_def demo_port_def)
qed

end
