(* ===== verification/Spec2Isabelle.thy ===== *)
theory Spec2Isabelle
  imports Eth_Tables Xiic_Low AxiDma_Resume Plic Tftp_Spec ElfLoader_Props Shell_Props Rtc_Props Http_Props Uart_Props IceNet_Props IceBlk_Props
    Spi_Props Gpio UartIntr
begin

text \<open>
  \<^bold>\<open>The FreeRTOS demonstration system for the BESSPIN RISC-V platforms.\<close>

  The repository is the firmware that runs above the FreeRTOS kernel and the FreeRTOS+TCP stack
  (both are submodules, so they are parameters here): board support and device drivers
  (\<^verbatim>\<open>src/bsp\<close>, \<^verbatim>\<open>src/bsp/xilinx\<close>), drivers of chips on the I2C bus (\<^verbatim>\<open>src/devices\<close>), TCP servers
  (\<^verbatim>\<open>src/protocols\<close>), the network boot loader and demonstration tasks (\<^verbatim>\<open>src/demo\<close>), and vendored
  libraries.  The configuration modelled is the default of the Makefile: 32-bit RISC-V, polled serial
  port, I2C display.

  \<^bold>\<open>How the code is modelled.\<close>  C integers are words of their width where arithmetic can wrap,
  \<^verbatim>\<open>int\<close> values that stay small are integers; structs are records with the field names of the source;
  buffers are byte lists, or addresses into a memory where aliasing matters.  Device registers are
  the cells of a \<open>bus\<close> (Mmio): each address has a stored value and a list of values the hardware
  is going to deliver, about which nothing is assumed, so a theorem over all buses covers every
  behaviour of the hardware; every access is logged, and statements about what a driver tells the
  hardware are statements about the log.  A failed \<^verbatim>\<open>configASSERT\<close> or \<^verbatim>\<open>Xil_Assert\<close> spins forever and is
  the value \<open>None\<close>, as is a loop that never ends (\<open>partial_function (option)\<close>); theorems about results
  therefore state that the result exists.  Loops are structural, or measured, or partial; the one step
  bound, of \<open>cdesc_search\<close> in BdRing, is the number of descriptors of the ring, which is enough, and the
  bounds on waiting in Eth, Xiic_Low and AxiDma are those of the source.  The kernel (Rtos), the network
  stack (\<open>netapi\<close> in Tftp, \<open>http_world\<close> and the functions of \<open>tcp_server\<close> in Http), the block device
  (\<open>blk_hw\<close>) and the SPI controller (\<open>spi_core\<close>) are records of functions over an unknown state, with their
  documented behaviour as named predicates such as \<open>kernel_ok\<close>; each has an instance in the witnesses.

  \<^bold>\<open>Theories.\<close>
  \<^item> Prelude: machine types, assertions, \<open>reach\<close> and the locale \<open>inv_system\<close> (an invariant of steps holds in
    all reachable states), the locale \<open>codec\<close>, lemmas on words and lists.
  \<^item> Mmio: \<^verbatim>\<open>bsp/icebase.h\<close> and the register bus.  Rtos: the kernel calls and the locale
    \<open>balanced_op\<close> (an operation that returns gives its mutex back).
  \<^item> Plic: \<^verbatim>\<open>bsp/plic_driver.c\<close> and the dispatcher \<^verbatim>\<open>external_interrupt_handler\<close> of \<^verbatim>\<open>bsp/bsp.c\<close>.  The invariant
    (enabled sources have handlers) makes the dispatch safe.
  \<^item> BdRing, BdRing_Inv, BdRing_Spec, BdRing_Create, BdRing_Props: the descriptor ring of the Ethernet DMA,
    \<^verbatim>\<open>bsp/xilinx/axidma/xaxidma_bdring.c\<close> and \<^verbatim>\<open>xaxidma_bd.c\<close>.  A sequence of calls, with the results and
    pointers the client sees, refines four queues of descriptors that are cut out of the ring at its own head
    pointers (locale \<open>bd_pool\<close>); no call moves a descriptor that belongs to another group; whole packets are
    returned.
  \<^item> AxiDma, AxiDma_Props, AxiDma_Resume: the DMA engine above the rings, \<^verbatim>\<open>bsp/xilinx/axidma/xaxidma.c\<close>,
    with its self-test, configuration and interrupt macros.  Initialisation ends, with the polls of the reset
    that the log shows, transfers start exactly when
    the configuration allows them, and no descriptor handed over during a pause is left behind.
  \<^item> Eth, Eth_Control, Eth_Props, Eth_Tables: the Ethernet controller driver, \<^verbatim>\<open>bsp/xilinx/axiethernet\<close>.
    The registers encode the options after a reset and any calls, addresses and VLAN settings are read back,
    the extended multicast table is a set.
  \<^item> Tftp, Tftp_Props, Tftp_Spec: the TFTP client of \<^verbatim>\<open>demo/main_netboot.c\<close>, as a machine that handles one
    packet or time-out at a time; transfer of a file, bounds of the stores, buffers, retries, and the orders of
    the last window that can be finished.
  \<^item> ElfLoader, ElfLoader_Props: the ELF loader of the same file and the copy loops of \<^verbatim>\<open>demo/netboot.S\<close>;
    what is in memory when the loaded program starts.
  \<^item> Shell, Shell_Props: the line editor, word splitting and the boot command of the same file.
  \<^item> Iic, Iic_Props: \<^verbatim>\<open>bsp/iic.c\<close>, the bus driver, over any controller driver.  Xiic, Xiic_Transfer, Xiic_Props,
    Xiic_Recv, Xiic_Low: the Xilinx controller driver, \<^verbatim>\<open>bsp/xilinx/iic\<close>, with interrupts and polled.  What is sent
    and received is the buffer, in order, whatever the interrupts are, and nothing is stored outside of it.
  \<^item> Rtc, Rtc_Props: \<^verbatim>\<open>devices/ds1338rtc.c\<close>, \<^verbatim>\<open>vcnl4010.c\<close>, \<^verbatim>\<open>serLcd.c\<close>.  The messages exchanged with the clock
    show the time in the format of its data sheet; nothing is assumed of the bus or of what the chip stores.
  \<^item> Http, Http_Props: \<^verbatim>\<open>protocols/HTTP\<close> and \<^verbatim>\<open>protocols/Common/FreeRTOS_TCP_server.c\<close>.
    From a request to the bytes of the reply, and exactly what a cycle of the server does with its sockets.
  \<^item> Uart, Uart_Props, UartIntr: \<^verbatim>\<open>bsp/uart.c\<close> and \<^verbatim>\<open>bsp/xilinx/uartns550\<close>, polled and with interrupts.
  \<^item> Spi, Spi_Core, Spi_Props: \<^verbatim>\<open>bsp/spi.c\<close> and \<^verbatim>\<open>bsp/xilinx/spi\<close>; a transfer exchanges the buffers with the slave in
    both modes of the driver.
  \<^item> Gpio: \<^verbatim>\<open>bsp/gpio.c\<close> and \<^verbatim>\<open>bsp/xilinx/gpio\<close>, a refinement of sets of pins and LEDs.
  \<^item> IceNet, IceNet_Props: \<^verbatim>\<open>bsp/icenet.c\<close>, two rings of frame buffers (locale \<open>bounded_queue\<close>).
  \<^item> IceBlk, IceBlk_Props: \<^verbatim>\<open>bsp/iceblk.c\<close> and the sector interface \<^verbatim>\<open>FatFs/source/diskio.c\<close>.
    The device is a parameter that sees the registers the driver has written and the address of its buffer.
  \<^item> This theory: properties that span drivers.

  The locales are the interfaces: \<open>inv_system\<close> is interpreted by the interrupt controller, the network card,
  the TFTP client, the serial and the I2C transfers, \<open>balanced_op\<close> by the blocking operations of the
  drivers, \<open>codec\<close> by the clock digits and the Ethernet addresses, \<open>bd_pool\<close> by the descriptor ring and
  \<open>bounded_queue\<close> by the rings of frame buffers.

  \<^bold>\<open>Not modelled.\<close>  WolfSSL, the FatFs core, the SD library and the SiFive SDK are vendored; of FatFs the
  sector interface is modelled.  The FTP server is not compiled in this configuration.  The demonstration
  tasks, the NTP client and \<^verbatim>\<open>main.c\<close> create kernel objects, run forever and print; the messages of the
  drivers and their debug dumps are left out for the same reason.  The shell commands \<^verbatim>\<open>help\<close> and
  \<^verbatim>\<open>ifconfig\<close> only print.  In Http the memory that peek and poke access is
  kept apart from the server's own buffers, so a peek of the command or output buffer, and the \<^verbatim>\<open>bzero\<close> of
  the latter, are outside of the model; the lengths of I2C messages are \<^verbatim>\<open>uint8_t\<close> in the code and list lengths in
  Iic, so the model speaks of messages of at most 255 bytes.  Assembly start-up code is outside of the C sources, the copy loops of
  \<^verbatim>\<open>netboot.S\<close> apart.
\<close>

section \<open>Tasks on one bus\<close>

text \<open>
  The operations of the clock are made of bus transactions, so that they inherit the contract of the
  bus driver; reading the clock is itself an instance of the contract.
\<close>

lemma send_checked_unlocked:
  "kernel_ok K \<Longrightarrow> send_checked K X a tx s = Some s' \<Longrightarrow> unlocked K (iic.kern s) \<and> unlocked K (iic.kern s')"
  using iic_tx.returns_unlocked [of K X a tx s] by (auto simp: send_checked_def halt_simps bind_eq_Some_conv split: if_splits)

lemma recv_checked_unlocked:
  "kernel_ok K \<Longrightarrow> recv_checked K X a rx s = Some (rx', s') \<Longrightarrow> unlocked K (iic.kern s) \<and> unlocked K (iic.kern s')"
  using iic_rx.returns_unlocked [of K X a rx s] by (auto simp: recv_checked_def halt_simps bind_eq_Some_conv split: if_splits)

lemma send_checked_blocks: "\<not> unlocked K (iic.kern s) \<Longrightarrow> send_checked K X a tx s = None"
  using iic_tx.op_takes [of K s X a tx] by (simp add: send_checked_def)

interpretation rtc_read: balanced_op "\<lambda>K. ds1338_read_time K X junk" iic.kern for X :: "'d xiic" and junk
  by unfold_locales
    (auto simp: ds1338_read_time_def Let_def bind_eq_Some_conv send_checked_blocks dest: recv_checked_unlocked)

lemmas mutex_released =
  iic_tx.returns_unlocked iic_rx.returns_unlocked uart_tx.returns_unlocked uart_rx.returns_unlocked
  blk_req.returns_unlocked send_checked_unlocked rtc_read.repeat_unlocked

text \<open>
  C36. No driver loses its mutex: an operation of the I2C bus, of the clock, of the serial port or of the
  block device that returns has found its mutex free and has given it back, on every path; and so
  have any number of readings of the clock.
\<close>

theorem driver_mutexes_released:
  assumes "kernel_ok K"
  shows "(iic_transmit K X a tx s = Some (r, s') \<longrightarrow> unlocked K (iic.kern s) \<and> unlocked K (iic.kern s')) \<and>
    (iic_receive K X a rx s = Some (rr, s') \<longrightarrow> unlocked K (iic.kern s) \<and> unlocked K (iic.kern s')) \<and>
    (ds1338_write_time K X t s = Some s' \<longrightarrow> unlocked K (iic.kern s) \<and> unlocked K (iic.kern s')) \<and>
    (unlocked K (iic.kern s) \<longrightarrow> rtc_read.repeat_op X junk n K s = Some (ts, s') \<longrightarrow>
      length ts = n \<and> unlocked K (iic.kern s')) \<and>
    (uart_txbuffer K ubuf ulen u = Some (ur, u') \<longrightarrow> unlocked K (tx_kern u) \<and> unlocked K (tx_kern u')) \<and>
    (uart_rxbuffer K ubuf ulen u = Some (urr, u') \<longrightarrow> unlocked K (rx_kern u) \<and> unlocked K (rx_kern u')) \<and>
    (iceblk_queue_request K H wr bbuf cnt boff d = Some (dr, d') \<longrightarrow> unlocked K (blk_kern d) \<and> unlocked K (blk_kern d'))"
  unfolding ds1338_write_time_def
  by (intro conjI impI; elim mutex_released [OF assms, THEN conjunct1] mutex_released [OF assms, THEN conjunct2])

theorem driver_mutexes_released_witness:
  "\<exists>r s'. iic_transmit demo_kernel demo_clock_bus 0x68 [7, 3] demo_rtc = Some (r, s') \<and> unlocked demo_kernel (iic.kern s')"
proof -
  have "iic_transmit demo_kernel demo_clock_bus 0x68 [7, 3] demo_rtc \<noteq> None"
    by (simp add: iic_transmit_def take_mutex_def notify_wait_def demo_clock_bus_def demo_rtc_def demo_kernel_def halt_simps
        SendHandler_def notify_task_def wait_callbacks.simps Let_def)
  then obtain r s' where "iic_transmit demo_kernel demo_clock_bus 0x68 [7, 3] demo_rtc = Some (r, s')"
    by auto
  then show ?thesis
    using driver_mutexes_released [OF demo_kernel_ok, of demo_clock_bus "0x68" "[7, 3]" demo_rtc r s' "[]" "(0, [])"
        "make_time 21 7 9 13 5 59" "[]" 0 "[]" "[]" 0
        "demo_uart (\<lambda>_. [])" 0 "demo_uart (\<lambda>_. [])" "(0, [])" demo_disk_hw 0 "[]" 0 0 demo_blk "(0, [])" demo_blk] by blast
qed

end
